(* ===== verification/Prelude.thy ===== *)
theory Prelude
  imports Main "HOL-Library.Word" "HOL-Library.Signed_Division" "HOL-Library.Sublist" "HOL-Library.Multiset"
begin

text \<open>
  What the component theories share: the types of bytes and of results, a state-passing
  combinator for code that may abort, 64-bit signed arithmetic on \<open>int\<close> with the
  wrap-around written out, decimal rendering of integers, and the list operations on which
  buffers, Redis strings and stripes are built.
\<close>

named_theorems prog_simps \<open>unfolding of the state-passing combinators\<close>
named_theorems i64_simps \<open>64-bit arithmetic inside its range\<close>

section \<open>Results and state passing\<close>

type_synonym byte = "8 word"
type_synonym bytes = "byte list"

text \<open>
  A call returns (\<open>Ok\<close>), dies by a Go panic (\<open>Panic\<close> with the reason) or leaves the
  process by \<open>exit\<close> (\<open>Exit\<close> with the status). The last two end the process, so they
  carry no state.
\<close>

datatype 'a result = Ok 'a | Panic string | Exit int

type_synonym ('s, 'a) prog = "'s \<Rightarrow> ('a \<times> 's) result"

definition return :: "'a \<Rightarrow> ('s, 'a) prog" where
  "return x = (\<lambda>s. Ok (x, s))"

definition bnd :: "('s, 'a) prog \<Rightarrow> ('a \<Rightarrow> ('s, 'b) prog) \<Rightarrow> ('s, 'b) prog" where
  "bnd m f = (\<lambda>s. case m s of Ok (x, s') \<Rightarrow> f x s' | Panic e \<Rightarrow> Panic e | Exit n \<Rightarrow> Exit n)"

definition panic :: "string \<Rightarrow> ('s, 'a) prog" where
  "panic e = (\<lambda>s. Panic e)"

definition exit_with :: "int \<Rightarrow> ('s, 'a) prog" where
  "exit_with n = (\<lambda>s. Exit n)"

definition gets :: "('s \<Rightarrow> 'a) \<Rightarrow> ('s, 'a) prog" where
  "gets f = (\<lambda>s. Ok (f s, s))"

definition modify :: "('s \<Rightarrow> 's) \<Rightarrow> ('s, unit) prog" where
  "modify f = (\<lambda>s. Ok ((), f s))"

definition lift_res :: "'a result \<Rightarrow> ('s, 'a) prog" where
  "lift_res r = (\<lambda>s. case r of Ok x \<Rightarrow> Ok (x, s) | Panic e \<Rightarrow> Panic e | Exit n \<Rightarrow> Exit n)"

lemmas prog_defs [prog_simps] =
  return_def bnd_def panic_def exit_with_def gets_def modify_def

lemma bnd_Ok [prog_simps]: "m s = Ok (x, s') \<Longrightarrow> bnd m f s = f x s'"
  by (simp add: bnd_def)

lemma bnd_cong_state: "m s = m' s \<Longrightarrow> bnd m f s = bnd m' f s"
  by (simp add: bnd_def)

lemma bnd_OkE:
  assumes "bnd m f s = Ok r"
  obtains x s' where "m s = Ok (x, s')" and "f x s' = Ok r"
  using assms by (auto simp: bnd_def split: result.splits)

lemma bnd_assoc: "bnd (bnd m f) g = bnd m (\<lambda>x. bnd (f x) g)"
  by (rule ext) (auto simp: bnd_def split: result.splits)

lemma bnd_return_left [simp]: "bnd (return x) f = f x"
  by (rule ext) (simp add: bnd_def return_def)

lemma bnd_return_right [simp]: "bnd m return = m"
  by (rule ext) (auto simp: bnd_def return_def split: result.splits)

section \<open>64-bit signed integers\<close>

text \<open>
  Go's \<open>int64\<close> and \<open>int\<close>, and C's \<open>off_t\<close>, are 64 bits wide. Values are HOL
  integers and every addition or multiplication that can leave the range goes through
  \<open>i64\<close>, which wraps around as the machine does.
\<close>

definition i64 :: "int \<Rightarrow> int" where
  "i64 x = (x + 2 ^ 63) mod 2 ^ 64 - 2 ^ 63"

definition in_i64 :: "int \<Rightarrow> bool" where
  "in_i64 x \<longleftrightarrow> - (2 ^ 63) \<le> x \<and> x < 2 ^ 63"

lemma i64_id [i64_simps]: "in_i64 x \<Longrightarrow> i64 x = x"
  by (simp add: i64_def in_i64_def)

lemma i64_in [simp]: "in_i64 (i64 x)"
proof -
  have "0 \<le> (x + 2 ^ 63) mod 2 ^ 64" and "(x + 2 ^ 63) mod 2 ^ 64 < 2 ^ 64"
    by (rule pos_mod_sign, simp) (rule pos_mod_bound, simp)
  then show ?thesis by (simp add: i64_def in_i64_def)
qed

lemma in_i64_nonneg [i64_simps]: "0 \<le> x \<Longrightarrow> x < 2 ^ 63 \<Longrightarrow> in_i64 x"
  by (simp add: in_i64_def)

lemma i64_nonneg: "0 \<le> x \<Longrightarrow> x < 2 ^ 63 \<Longrightarrow> i64 x = x"
  by (simp add: i64_simps)

text \<open>C's \<open>int\<close> and \<open>uint64_t\<close>.\<close>

definition i32 :: "int \<Rightarrow> int" where
  "i32 x = (x + 2 ^ 31) mod 2 ^ 32 - 2 ^ 31"

definition u64 :: "int \<Rightarrow> int" where
  "u64 x = x mod 2 ^ 64"

lemma i32_id: "- (2 ^ 31) \<le> x \<Longrightarrow> x < 2 ^ 31 \<Longrightarrow> i32 x = x"
  by (simp add: i32_def)

lemma u64_id: "0 \<le> x \<Longrightarrow> x < 2 ^ 64 \<Longrightarrow> u64 x = x"
  by (simp add: u64_def)

text \<open>Go's \<open>/\<close> and \<open>%\<close> truncate towards zero: \<open>sdiv\<close> and \<open>smod\<close>.\<close>

lemma sdiv_nonneg: "0 \<le> a \<Longrightarrow> 0 < b \<Longrightarrow> (a::int) sdiv b = a div b"
  by (simp add: signed_divide_int_def sgn_if)

lemma smod_nonneg: "0 \<le> a \<Longrightarrow> 0 < b \<Longrightarrow> (a::int) smod b = a mod b"
  by (cases "a = 0") (simp_all add: signed_modulo_int_def sgn_if)

section \<open>Overwriting a range of a byte string\<close>

text \<open>
  Writing \<open>v\<close> at offset \<open>off\<close> of \<open>xs\<close>, where the gap beyond the end of
  \<open>xs\<close> is filled with \<open>z\<close>.
\<close>

definition overwrite :: "'a \<Rightarrow> nat \<Rightarrow> 'a list \<Rightarrow> 'a list \<Rightarrow> 'a list" where
  "overwrite z off v xs =
     take off (xs @ replicate (off - length xs) z) @ v @ drop (off + length v) xs"

lemma length_overwrite [simp]:
  "length (overwrite z off v xs) = max (length xs) (off + length v)"
  by (auto simp: overwrite_def)

lemma nth_overwrite:
  assumes "i < length (overwrite z off v xs)"
  shows "overwrite z off v xs ! i =
    (if off \<le> i \<and> i < off + length v then v ! (i - off)
     else if i < length xs then xs ! i else z)"
  using assms by (auto simp: overwrite_def nth_append min_def max_def split: if_splits)

lemma overwrite_Nil_inside: "off \<le> length xs \<Longrightarrow> overwrite z off [] xs = xs"
  by (simp add: overwrite_def)

lemma overwrite_all: "length xs \<le> length v \<Longrightarrow> overwrite z 0 v xs = v"
  by (simp add: overwrite_def)

lemma overwrite_append:
  "overwrite z off (v @ w) xs = overwrite z (off + length v) w (overwrite z off v xs)"
proof (rule nth_equalityI)
  show "length (overwrite z off (v @ w) xs) =
      length (overwrite z (off + length v) w (overwrite z off v xs))"
    by simp
next
  fix i
  assume i: "i < length (overwrite z off (v @ w) xs)"
  then have "i < length (overwrite z (off + length v) w (overwrite z off v xs))"
    by simp
  with i show "overwrite z off (v @ w) xs ! i =
      overwrite z (off + length v) w (overwrite z off v xs) ! i"
    by (auto simp: nth_overwrite nth_append)
qed

lemma overwrite_at_end: "overwrite z (length xs) v xs = xs @ v"
  by (simp add: overwrite_def)

section \<open>Decimal numbers\<close>

text \<open>
  \<open>itoa\<close> renders an integer as Go's \<open>strconv.FormatInt(n, 10)\<close> and \<open>fmt\<close>'s
  \<open>%d\<close> do; \<open>parse_int\<close> is \<open>strconv.ParseInt(s, 10, 64)\<close>, \<open>None\<close> for the error.
\<close>

definition digit :: "nat \<Rightarrow> char" where
  "digit d = char_of (48 + d)"

definition is_digit :: "char \<Rightarrow> bool" where
  "is_digit c \<longleftrightarrow> 48 \<le> (of_char c :: nat) \<and> (of_char c :: nat) \<le> 57"

definition digit_val :: "char \<Rightarrow> nat" where
  "digit_val c = of_char c - 48"

fun natoa :: "nat \<Rightarrow> string" where
  "natoa n = (if n < 10 then [digit n] else natoa (n div 10) @ [digit (n mod 10)])"

declare natoa.simps [simp del]

definition itoa :: "int \<Rightarrow> string" where
  "itoa n = (if n < 0 then CHR ''-'' # natoa (nat (- n)) else natoa (nat n))"

definition atoi_digits :: "string \<Rightarrow> nat" where
  "atoi_digits s = foldl (\<lambda>n c. 10 * n + digit_val c) 0 s"

definition parse_int :: "string \<Rightarrow> int option" where
  "parse_int s =
     (let (neg, t) = (case s of c # t \<Rightarrow> if c = CHR ''-'' then (True, t)
                                     else if c = CHR ''+'' then (False, t) else (False, s)
                       | [] \<Rightarrow> (False, []))
      in if t \<noteq> [] \<and> list_all is_digit t \<and>
            in_i64 (if neg then - int (atoi_digits t) else int (atoi_digits t))
         then Some (if neg then - int (atoi_digits t) else int (atoi_digits t)) else None)"

lemma digit_props:
  assumes "d < 10"
  shows "is_digit (digit d)" "digit_val (digit d) = d"
    "digit d \<noteq> CHR ''-''" "digit d \<noteq> CHR ''+''" "digit d \<noteq> CHR '':''"
proof -
  from assms have n: "(of_char (digit d) :: nat) = 48 + d"
    by (simp add: digit_def)
  from n assms show "is_digit (digit d)" and "digit_val (digit d) = d"
    by (simp_all add: is_digit_def digit_val_def)
  have "(of_char (CHR ''-'') :: nat) = 45" and "(of_char (CHR ''+'') :: nat) = 43"
    and "(of_char (CHR '':'') :: nat) = 58"
    by simp_all
  with n assms show "digit d \<noteq> CHR ''-''" "digit d \<noteq> CHR ''+''" "digit d \<noteq> CHR '':''"
    by auto
qed

lemma natoa_digits: "c \<in> set (natoa n) \<Longrightarrow> \<exists>d < 10. c = digit d"
proof (induction n rule: natoa.induct)
  case (1 n)
  then show ?case
    by (cases "n < 10")
      (auto simp: natoa.simps [of n] intro: exI [of _ "n mod 10"])
qed

lemma natoa_nonempty [simp]: "natoa n \<noteq> []"
  by (subst natoa.simps) simp

lemma atoi_natoa [simp]: "atoi_digits (natoa n) = n"
proof (induction n rule: natoa.induct)
  case (1 n)
  show ?case
  proof (cases "n < 10")
    case True
    then show ?thesis by (simp add: natoa.simps [of n] atoi_digits_def digit_props)
  next
    case False
    with 1 have "atoi_digits (natoa (n div 10)) = n div 10" by simp
    with False show ?thesis
      by (simp add: natoa.simps [of n] atoi_digits_def digit_props)
  qed
qed

lemma natoa_inj: "natoa m = natoa n \<longleftrightarrow> m = n"
  by (metis atoi_natoa)

lemma natoa_all_digits: "list_all is_digit (natoa n)"
  by (auto simp: list_all_iff dest: natoa_digits intro: digit_props)

lemma natoa_hd: "hd (natoa n) \<noteq> CHR ''-''" "hd (natoa n) \<noteq> CHR ''+''"
  using natoa_digits [of "hd (natoa n)" n] by (auto dest: digit_props)

lemma parse_int_itoa: "in_i64 n \<Longrightarrow> parse_int (itoa n) = Some n"
proof -
  assume n: "in_i64 n"
  obtain c t where ct: "natoa (nat n) = c # t"
    by (cases "natoa (nat n)") auto
  with natoa_hd [of "nat n"] have "c \<noteq> CHR ''-''" and "c \<noteq> CHR ''+''" by simp_all
  then show ?thesis
    using n ct natoa_all_digits [of "nat n"] natoa_all_digits [of "nat (- n)"] atoi_natoa [of "nat n"]
    by (auto simp: parse_int_def itoa_def Let_def)
qed

lemma itoa_inj: "itoa m = itoa n \<longleftrightarrow> m = n"
proof -
  have "natoa a \<noteq> CHR ''-'' # s" for a s
    using natoa_hd(1) [of a] by (cases "natoa a") auto
  then show ?thesis by (auto simp: itoa_def natoa_inj) (metis)+
qed

lemma colon_notin_itoa: "CHR '':'' \<notin> set (itoa n)"
  by (auto simp: itoa_def dest!: natoa_digits dest: digit_props)

section \<open>Error values of the Go layer\<close>

text \<open>
  Go functions return a value and an error; \<open>None\<close> is the nil error. \<open>PathError\<close> is
  \<open>os.PathError\<close> with its operation, path and wrapped error.
\<close>

datatype goerr =
    ErrRedisKeyNotFound | ErrNil | RedisErr string | ProtocolErr string | TypeErr string
  | ParseErr string
  | EOF
  | ErrNegativeOffset | ErrNegativeTruncateSize | ErrInvalidSeekWhence | ErrNegativeSeekLocation
  | ErrFileNotManaged | ErrReadOnly | ErrWriteOnly | ErrIsDirectory | ErrNotDirectory
  | ErrDirNotEmpty | ErrParentDirNotExist
  | ErrExist | ErrNotExist
  | ErrInvalidFd | ErrFdInUse
  | PathError string string goerr

text \<open>\<open>Check\<close> and \<open>Try\<close>: a non-nil error is a panic.\<close>

definition Try :: "goerr option \<Rightarrow> ('s, unit) prog" where
  "Try err = (case err of None \<Rightarrow> return () | Some e \<Rightarrow> panic ''error'')"

lemma Try_None [simp]: "Try None = return ()"
  by (simp add: Try_def)

section \<open>Goroutines\<close>

text \<open>
  A loop that starts one goroutine per item and then waits for all of them
  (\<open>sync.WaitGroup\<close>). \<open>par\<close> lets the scheduler pick any pending body next; \<open>go_all\<close>
  runs the bodies in the order they were started, one of the schedules of \<open>par\<close>.
\<close>

fun go_all :: "('s, unit) prog list \<Rightarrow> ('s, unit) prog" where
  "go_all [] = return ()"
| "go_all (p # ps) = bnd p (\<lambda>_. go_all ps)"

inductive par :: "('s, unit) prog list \<Rightarrow> 's \<Rightarrow> 's \<Rightarrow> bool" where
  par_wait: "par [] s s"
| par_run: "p s = Ok ((), s') \<Longrightarrow> par (ps @ qs) s' s'' \<Longrightarrow> par (ps @ p # qs) s s''"

inductive_cases par_NilE: "par [] s s'"

lemma go_all_par: "go_all ps s = Ok ((), s') \<Longrightarrow> par ps s s'"
proof (induction ps arbitrary: s)
  case Nil
  then show ?case by (simp add: return_def par_wait)
next
  case (Cons p ps)
  then obtain s1 where "p s = Ok ((), s1)" and "go_all ps s1 = Ok ((), s')"
    by (auto elim!: bnd_OkE)
  with Cons.IH par_run [of p s s1 "[]" ps s'] show ?case by simp
qed

lemma par_schedule:
  "par ps s s' \<Longrightarrow> \<exists>qs. mset qs = mset ps \<and> go_all qs s = Ok ((), s')"
proof (induction rule: par.induct)
  case (par_wait s)
  show ?case by (rule exI [of _ "[]"]) (simp add: return_def)
next
  case (par_run p s s' ps qs s'')
  then obtain rs where "mset rs = mset (ps @ qs)" and "go_all rs s' = Ok ((), s'')" by blast
  with par_run(1) show ?case
    by (intro exI [of _ "p # rs"]) (simp add: bnd_def)
qed

lemma go_all_any_order:
  "go_all qs s = Ok ((), s') \<Longrightarrow> mset ps = mset qs \<Longrightarrow> par ps s s'"
proof (induction qs arbitrary: ps s)
  case Nil
  then show ?case by (simp add: return_def par_wait)
next
  case (Cons q qs)
  from Cons.prems(1) obtain s1 where s1: "q s = Ok ((), s1)" "go_all qs s1 = Ok ((), s')"
    by (auto simp: bnd_def split: result.splits)
  have "q \<in> set ps" using Cons.prems(2) by (metis list.set_intros(1) set_mset_mset)
  then obtain a b where ps: "ps = a @ q # b" by (meson split_list)
  with Cons.prems(2) have "mset (a @ b) = mset qs" by simp
  with Cons.IH s1 par_run show ?case unfolding ps by metis
qed

end
