(* ===== verification/Redis.thy ===== *)
theory Redis
  imports Prelude
begin

text \<open>
  The Redis instances, seen from \<open>src/go/redisfs/redis.go\<close>. The server is not part of the
  repository: it is a function \<open>srv\<close> from a database and a command to a reply and the next
  database, an argument of every definition that talks to it. What the code relies on is the
  documented behaviour of each command, stated as the assumptions of the locale
  \<open>redis_server\<close> over a view of the database (keys holding a string or a set). The second
  half models the client: the reply conversions of the bundled redigo and the methods of
  \<open>RedisClient\<close>.
\<close>

section \<open>Commands, replies, databases\<close>

datatype cmd =
    SETRANGE string int bytes
  | GETRANGE string int int
  | EXISTS string
  | SET string bytes
  | SETNX string bytes
  | GET string
  | STRLEN string
  | UNLINK "string list"
  | SADD string string
  | SREM string string
  | SMEMBERS string
  | EVAL_TRIM string int
  | EXEC "cmd list"

datatype reply =
    RInt int
  | RBulk bytes
  | RNil
  | RStatus string
  | RMembers "string list"
  | RArray "reply list"
  | RErr string

datatype rvalue = RStr bytes | RSet "string set"

type_synonym 'd server = "'d \<Rightarrow> cmd \<Rightarrow> reply \<times> 'd"
type_synonym keyspace = "string \<Rightarrow> rvalue option"

text \<open>
  \<open>str_at\<close> and \<open>set_at\<close> read a key as the string and set commands do: a missing key is
  the empty string and the empty set, a key of the other type is an error (\<open>None\<close>).
\<close>

definition str_at :: "keyspace \<Rightarrow> string \<Rightarrow> bytes option" where
  "str_at m k = (case m k of None \<Rightarrow> Some [] | Some (RStr b) \<Rightarrow> Some b | Some (RSet _) \<Rightarrow> None)"

definition set_at :: "keyspace \<Rightarrow> string \<Rightarrow> string set option" where
  "set_at m k = (case m k of None \<Rightarrow> Some {} | Some (RSet S) \<Rightarrow> Some S | Some (RStr _) \<Rightarrow> None)"

definition getrange :: "bytes \<Rightarrow> int \<Rightarrow> int \<Rightarrow> bytes" where
  "getrange b s e =
     (let n = int (length b);
          s' = max 0 (if s < 0 then n + s else s);
          e' = min (n - 1) (max 0 (if e < 0 then n + e else e))
      in if n = 0 \<or> s' > e' then [] else take (nat (e' - s' + 1)) (drop (nat s') b))"

text \<open>Redis refuses strings above 512MB (\<open>maxRedisString\<close> of \<open>config.go\<close>).\<close>

definition max_redis_string :: int where
  "max_redis_string = 512 * 1024 * 1024"

fun run_cmds :: "'d server \<Rightarrow> 'd \<Rightarrow> cmd list \<Rightarrow> reply list \<times> 'd" where
  "run_cmds srv d [] = ([], d)"
| "run_cmds srv d (c # cs) =
     (let (r, d') = srv d c; (rs, d'') = run_cmds srv d' cs in (r # rs, d''))"

text \<open>The commands a transaction may hold: everything but a transaction.\<close>

definition plain :: "cmd \<Rightarrow> bool" where
  "plain c = (case c of EXEC _ \<Rightarrow> False | _ \<Rightarrow> True)"

definition set_entry :: "string set \<Rightarrow> rvalue option" where
  "set_entry S = (if S = {} then None else Some (RSet S))"

section \<open>What the code relies on\<close>

locale redis_server =
  fixes srv :: "'d server" and view :: "'d \<Rightarrow> keyspace"
  assumes SET_view: "view (snd (srv d (SET k v))) = (view d)(k \<mapsto> RStr v)"
    and SET_reply: "fst (srv d (SET k v)) = RStatus ''OK''"
    and SETNX_view: "view (snd (srv d (SETNX k v))) =
          (if view d k = None then (view d)(k \<mapsto> RStr v) else view d)"
    and SETRANGE_view: "str_at (view d) k = Some b \<Longrightarrow> 0 \<le> off \<Longrightarrow>
          off + int (length v) \<le> max_redis_string \<Longrightarrow>
          view (snd (srv d (SETRANGE k off v))) =
            (if v = [] then view d else (view d)(k \<mapsto> RStr (overwrite 0 (nat off) v b)))"
    and SADD_view: "set_at (view d) k = Some S \<Longrightarrow>
          view (snd (srv d (SADD k m))) = (view d)(k \<mapsto> RSet (insert m S))"
    and SREM_view: "set_at (view d) k = Some S \<Longrightarrow>
          view (snd (srv d (SREM k m))) = (view d)(k := set_entry (S - {m}))"
    and UNLINK_view: "view (snd (srv d (UNLINK ks))) =
          (\<lambda>k. if k \<in> set ks then None else view d k)"
    and EVAL_TRIM_view: "str_at (view d) k = Some b \<Longrightarrow>
          view (snd (srv d (EVAL_TRIM k e))) = (view d)(k \<mapsto> RStr (getrange b 0 e))"
    and GET_view: "view (snd (srv d (GET k))) = view d"
    and GET_reply: "str_at (view d) k = Some b \<Longrightarrow>
          fst (srv d (GET k)) = (if view d k = None then RNil else RBulk b)"
    and GETRANGE_view: "view (snd (srv d (GETRANGE k s e))) = view d"
    and GETRANGE_reply: "str_at (view d) k = Some b \<Longrightarrow>
          fst (srv d (GETRANGE k s e)) = RBulk (getrange b s e)"
    and STRLEN_view: "view (snd (srv d (STRLEN k))) = view d"
    and STRLEN_reply: "str_at (view d) k = Some b \<Longrightarrow>
          fst (srv d (STRLEN k)) = RInt (int (length b))"
    and EXISTS_view: "view (snd (srv d (EXISTS k))) = view d"
    and EXISTS_reply: "fst (srv d (EXISTS k)) = RInt (if view d k = None then 0 else 1)"
    and SMEMBERS_view: "view (snd (srv d (SMEMBERS k))) = view d"
    and SMEMBERS_reply: "set_at (view d) k = Some S \<Longrightarrow>
          \<exists>l. fst (srv d (SMEMBERS k)) = RMembers l \<and> set l = S \<and> distinct l"
    and SREM_reply: "set_at (view d) k = Some S \<Longrightarrow>
          fst (srv d (SREM k m)) = RInt (if m \<in> S then 1 else 0)"
    and SADD_reply: "set_at (view d) k = Some S \<Longrightarrow>
          fst (srv d (SADD k m)) = RInt (if m \<in> S then 0 else 1)"
    and UNLINK_reply: "\<exists>n. fst (srv d (UNLINK ks)) = RInt n"
    and EVAL_TRIM_reply: "str_at (view d) k = Some b \<Longrightarrow>
          fst (srv d (EVAL_TRIM k e)) = RStatus ''OK''"
    and EXEC_view: "list_all plain cs \<Longrightarrow>
          view (snd (srv d (EXEC cs))) = view (snd (run_cmds srv d cs))"
    and EXEC_reply: "list_all plain cs \<Longrightarrow> \<exists>rs. fst (srv d (EXEC cs)) = RArray rs"
begin

lemmas view_laws =
  SET_view SETNX_view SETRANGE_view SADD_view SREM_view UNLINK_view EVAL_TRIM_view
  GET_view GETRANGE_view STRLEN_view EXISTS_view SMEMBERS_view EXEC_view

lemmas reply_laws =
  SET_reply GET_reply GETRANGE_reply STRLEN_reply EXISTS_reply EVAL_TRIM_reply

lemma EXEC2_view:
  "plain c1 \<Longrightarrow> plain c2 \<Longrightarrow> view (snd (srv d (EXEC [c1, c2]))) = view (snd (srv (snd (srv d c1)) c2))"
  by (simp add: EXEC_view Let_def split: prod.splits)

end

text \<open>
  A server that computes the documented behaviour, for evaluating the model on concrete
  inputs. It shows that the assumptions hold together.
\<close>

datatype ref_value = VStr bytes | VSet "string list"

type_synonym ref_db = "string \<Rightarrow> ref_value option"

definition ref_view :: "ref_db \<Rightarrow> keyspace" where
  "ref_view d = (\<lambda>k. case d k of None \<Rightarrow> None | Some (VStr b) \<Rightarrow> Some (RStr b)
     | Some (VSet l) \<Rightarrow> set_entry (set l))"

definition ref_str :: "ref_db \<Rightarrow> string \<Rightarrow> bytes option" where
  "ref_str d k = (case d k of None \<Rightarrow> Some [] | Some (VStr b) \<Rightarrow> Some b
     | Some (VSet l) \<Rightarrow> (if l = [] then Some [] else None))"

definition ref_set :: "ref_db \<Rightarrow> string \<Rightarrow> string list option" where
  "ref_set d k = (case d k of None \<Rightarrow> Some [] | Some (VSet l) \<Rightarrow> Some l | Some (VStr _) \<Rightarrow> None)"

definition ref_has :: "ref_db \<Rightarrow> string \<Rightarrow> bool" where
  "ref_has d k = (case d k of None \<Rightarrow> False | Some (VStr _) \<Rightarrow> True | Some (VSet l) \<Rightarrow> l \<noteq> [])"

definition wrongtype :: reply where
  "wrongtype = RErr ''WRONGTYPE Operation against a key holding the wrong kind of value''"

fun ref_srv1 :: "ref_db \<Rightarrow> cmd \<Rightarrow> reply \<times> ref_db" where
  "ref_srv1 d (SET k v) = (RStatus ''OK'', d(k \<mapsto> VStr v))"
| "ref_srv1 d (SETNX k v) = (if ref_has d k then (RInt 0, d) else (RInt 1, d(k \<mapsto> VStr v)))"
| "ref_srv1 d (SETRANGE k off v) =
     (case ref_str d k of None \<Rightarrow> (wrongtype, d)
      | Some b \<Rightarrow>
          if off < 0 \<or> off + int (length v) > max_redis_string
          then (RErr ''ERR string exceeds maximum allowed size'', d)
          else if v = [] then (RInt (int (length b)), d)
          else (RInt (int (length (overwrite 0 (nat off) v b))),
                d(k \<mapsto> VStr (overwrite 0 (nat off) v b))))"
| "ref_srv1 d (SADD k m) =
     (case ref_set d k of None \<Rightarrow> (wrongtype, d)
      | Some l \<Rightarrow> (RInt (if m \<in> set l then 0 else 1), d(k \<mapsto> VSet (List.insert m l))))"
| "ref_srv1 d (SREM k m) =
     (case ref_set d k of None \<Rightarrow> (wrongtype, d)
      | Some l \<Rightarrow> (RInt (if m \<in> set l then 1 else 0), d(k \<mapsto> VSet (filter (\<lambda>x. x \<noteq> m) l))))"
| "ref_srv1 d (UNLINK ks) =
     (RInt (int (length (filter (ref_has d) (remdups ks)))), \<lambda>k. if k \<in> set ks then None else d k)"
| "ref_srv1 d (EVAL_TRIM k e) =
     (case ref_str d k of None \<Rightarrow> (wrongtype, d)
      | Some b \<Rightarrow> (RStatus ''OK'', d(k \<mapsto> VStr (getrange b 0 e))))"
| "ref_srv1 d (GET k) =
     (case ref_str d k of None \<Rightarrow> (wrongtype, d)
      | Some b \<Rightarrow> (if ref_has d k then RBulk b else RNil, d))"
| "ref_srv1 d (GETRANGE k s e) =
     (case ref_str d k of None \<Rightarrow> (wrongtype, d) | Some b \<Rightarrow> (RBulk (getrange b s e), d))"
| "ref_srv1 d (STRLEN k) =
     (case ref_str d k of None \<Rightarrow> (wrongtype, d) | Some b \<Rightarrow> (RInt (int (length b)), d))"
| "ref_srv1 d (EXISTS k) = (RInt (if ref_has d k then 1 else 0), d)"
| "ref_srv1 d (SMEMBERS k) =
     (case ref_set d k of None \<Rightarrow> (wrongtype, d) | Some l \<Rightarrow> (RMembers (remdups l), d))"
| "ref_srv1 d (EXEC cs) = (RErr ''ERR EXEC without MULTI'', d)"

fun ref_run :: "ref_db \<Rightarrow> cmd list \<Rightarrow> reply list \<times> ref_db" where
  "ref_run d [] = ([], d)"
| "ref_run d (c # cs) =
     (let (r, d') = ref_srv1 d c; (rs, d'') = ref_run d' cs in (r # rs, d''))"

fun redis_ref :: "ref_db server" where
  "redis_ref d (EXEC cs) = (let (rs, d') = ref_run d cs in (RArray rs, d'))"
| "redis_ref d c = ref_srv1 d c"

lemma redis_ref_plain: "plain c \<Longrightarrow> redis_ref d c = ref_srv1 d c"
  by (cases c) (simp_all add: plain_def)

lemma ref_run_plain: "list_all plain cs \<Longrightarrow> ref_run d cs = run_cmds redis_ref d cs"
  by (induction cs arbitrary: d) (simp_all add: redis_ref_plain)

lemma ref_str_view: "str_at (ref_view d) k = ref_str d k"
  by (auto simp: str_at_def ref_view_def ref_str_def set_entry_def
      split: option.splits ref_value.splits)

lemma ref_set_view: "set_at (ref_view d) k = map_option set (ref_set d k)"
  by (auto simp: set_at_def ref_view_def ref_set_def set_entry_def
      split: option.splits ref_value.splits)

lemma ref_has_view: "ref_has d k \<longleftrightarrow> ref_view d k \<noteq> None"
  by (auto simp: ref_view_def ref_has_def set_entry_def split: option.splits ref_value.splits)

lemma ref_view_upd:
  "ref_view (d(k \<mapsto> VStr b)) = (ref_view d)(k \<mapsto> RStr b)"
  "ref_view (d(k \<mapsto> VSet l)) = (ref_view d)(k := set_entry (set l))"
  by (auto simp: ref_view_def fun_eq_iff)

lemmas ref_views = ref_str_view ref_set_view ref_has_view ref_view_upd

interpretation ref: redis_server redis_ref ref_view
proof (unfold_locales, goal_cases)
  case (5 d k S m)
  then show ?case
    by (auto simp: ref_views set_entry_def split: option.splits)
next
  case (6 d k S m)
  then show ?case
    by (auto simp: ref_views set_entry_def set_diff_eq split: option.splits)
next
  case (7 d ks)
  then show ?case by (auto simp: ref_view_def)
next
  case (18 d k S)
  then show ?case by (auto simp: ref_views intro: exI [of _ "remdups _"])
next
  case (23 cs d)
  then show ?case by (simp add: ref_run_plain Let_def split: prod.splits)
next
  case (24 cs d)
  then show ?case by (simp add: Let_def split: prod.splits)
qed (auto simp: ref_views split: option.splits)

section \<open>The client: redigo's reply conversions\<close>

text \<open>
  Each conversion takes the reply of \<open>conn.Do\<close>, which returns a Redis error reply as its
  error. A Go pair of a value and an error is a pair here.
\<close>

definition redis_Int :: "reply \<Rightarrow> int \<times> goerr option" where
  "redis_Int r = (case r of
       RInt n \<Rightarrow> (n, None)
     | RNil \<Rightarrow> (0, Some ErrNil)
     | RErr e \<Rightarrow> (0, Some (RedisErr e))
     | _ \<Rightarrow> (0, Some (TypeErr ''Int'')))"

definition redis_Bool :: "reply \<Rightarrow> bool \<times> goerr option" where
  "redis_Bool r = (case r of
       RInt n \<Rightarrow> (n \<noteq> 0, None)
     | RNil \<Rightarrow> (False, Some ErrNil)
     | RErr e \<Rightarrow> (False, Some (RedisErr e))
     | _ \<Rightarrow> (False, Some (TypeErr ''Bool'')))"

definition redis_Bytes :: "reply \<Rightarrow> bytes \<times> goerr option" where
  "redis_Bytes r = (case r of
       RBulk b \<Rightarrow> (b, None)
     | RNil \<Rightarrow> ([], Some ErrNil)
     | RErr e \<Rightarrow> ([], Some (RedisErr e))
     | _ \<Rightarrow> ([], Some (TypeErr ''Bytes'')))"

fun parse_ints :: "string list \<Rightarrow> int list \<times> goerr option" where
  "parse_ints [] = ([], None)"
| "parse_ints (v # vs) = (case parse_int v of
       None \<Rightarrow> ([], Some (ParseErr v))
     | Some n \<Rightarrow> (case parse_ints vs of (ns, e) \<Rightarrow> (n # ns, e)))"

definition redis_Int64s :: "reply \<Rightarrow> int list \<times> goerr option" where
  "redis_Int64s r = (case r of
       RMembers vs \<Rightarrow> parse_ints vs
     | RNil \<Rightarrow> ([], Some ErrNil)
     | RErr e \<Rightarrow> ([], Some (RedisErr e))
     | _ \<Rightarrow> ([], Some (TypeErr ''Int64s'')))"

definition redis_Strings :: "reply \<Rightarrow> string list \<times> goerr option" where
  "redis_Strings r = (case r of
       RMembers vs \<Rightarrow> (vs, None)
     | RNil \<Rightarrow> ([], Some ErrNil)
     | RErr e \<Rightarrow> ([], Some (RedisErr e))
     | _ \<Rightarrow> ([], Some (TypeErr ''Strings'')))"

text \<open>
  A bulk reply read with a destination buffer of \<open>dst\<close> bytes set on the connection
  (\<open>SetReadBuffer\<close>, \<open>None\<close> for a nil buffer): the reply is copied into it, a buffer that
  is too small is a protocol error, and without a buffer a fresh one is allocated, so that
  nothing is copied. The result is the count of \<open>ReadBytes\<close>, the bytes copied, the error.
\<close>

definition read_into :: "nat option \<Rightarrow> reply \<Rightarrow> int \<times> bytes \<times> goerr option" where
  "read_into dst r = (case r of
       RBulk b \<Rightarrow>
         (case dst of
            None \<Rightarrow> (int (length b), [], None)
          | Some n \<Rightarrow> if n < length b
                     then (-1, [], Some (ProtocolErr ''destination buffer is too small''))
                     else (int (length b), b, None))
     | RNil \<Rightarrow> (-1, [], Some ErrNil)
     | RErr e \<Rightarrow> (-1, [], Some (RedisErr e))
     | _ \<Rightarrow> (-1, [], Some (TypeErr ''Bytes'')))"

section \<open>The client: commands on one instance\<close>

text \<open>
  All instances together: the database behind each address. A \<open>RedisClient\<close> is the address
  its pool dials.
\<close>

type_synonym 'd world = "string \<Rightarrow> 'd"

definition do_cmd :: "'d server \<Rightarrow> string \<Rightarrow> cmd \<Rightarrow> ('d world, reply) prog" where
  "do_cmd srv addr c = (\<lambda>w. case srv (w addr) c of (r, d) \<Rightarrow> Ok (r, w(addr := d)))"

definition reply_err :: "reply \<Rightarrow> goerr option" where
  "reply_err r = (case r of RErr e \<Rightarrow> Some (RedisErr e) | _ \<Rightarrow> None)"

definition not_found :: "goerr option \<Rightarrow> goerr option" where
  "not_found err = (if err = Some ErrNil then Some ErrRedisKeyNotFound else err)"

definition client_SetRange :: "'d server \<Rightarrow> string \<Rightarrow> string \<Rightarrow> int \<Rightarrow> bytes \<Rightarrow> ('d world, goerr option) prog" where
  "client_SetRange srv c key offset data =
     bnd (do_cmd srv c (SETRANGE key offset data)) (\<lambda>r. return (reply_err r))"

definition client_GetRange :: "'d server \<Rightarrow> string \<Rightarrow> string \<Rightarrow> int \<Rightarrow> int \<Rightarrow> ('d world, bytes \<times> goerr option) prog" where
  "client_GetRange srv c key start stop =
     bnd (do_cmd srv c (GETRANGE key start stop)) (\<lambda>r.
       case redis_Bytes r of (b, err) \<Rightarrow> return (b, not_found err))"

definition client_GetRangeInto ::
  "'d server \<Rightarrow> string \<Rightarrow> string \<Rightarrow> int \<Rightarrow> int \<Rightarrow> nat option \<Rightarrow> ('d world, int \<times> bytes \<times> goerr option) prog" where
  "client_GetRangeInto srv c key start stop dst =
     bnd (do_cmd srv c (GETRANGE key start stop)) (\<lambda>r.
       case read_into dst r of (n, b, err) \<Rightarrow>
         if err = Some ErrNil then return (0, [], Some ErrRedisKeyNotFound)
         else return (n, b, err))"

definition client_Exists :: "'d server \<Rightarrow> string \<Rightarrow> string \<Rightarrow> ('d world, bool \<times> goerr option) prog" where
  "client_Exists srv c key = bnd (do_cmd srv c (EXISTS key)) (\<lambda>r. return (redis_Bool r))"

definition client_Set :: "'d server \<Rightarrow> string \<Rightarrow> string \<Rightarrow> bytes \<Rightarrow> ('d world, goerr option) prog" where
  "client_Set srv c key data = bnd (do_cmd srv c (SET key data)) (\<lambda>r. return (reply_err r))"

definition client_SetNX :: "'d server \<Rightarrow> string \<Rightarrow> string \<Rightarrow> bytes \<Rightarrow> ('d world, goerr option) prog" where
  "client_SetNX srv c key data = bnd (do_cmd srv c (SETNX key data)) (\<lambda>r. return (reply_err r))"

definition client_Get :: "'d server \<Rightarrow> string \<Rightarrow> string \<Rightarrow> ('d world, bytes \<times> goerr option) prog" where
  "client_Get srv c key =
     bnd (do_cmd srv c (GET key)) (\<lambda>r. case redis_Bytes r of (b, err) \<Rightarrow> return (b, not_found err))"

definition client_Strlen :: "'d server \<Rightarrow> string \<Rightarrow> string \<Rightarrow> ('d world, int \<times> goerr option) prog" where
  "client_Strlen srv c key =
     bnd (do_cmd srv c (STRLEN key)) (\<lambda>r. case redis_Int r of (l, err) \<Rightarrow> return (l, not_found err))"

definition client_GetInto ::
  "'d server \<Rightarrow> string \<Rightarrow> string \<Rightarrow> nat option \<Rightarrow> ('d world, int \<times> bytes \<times> goerr option) prog" where
  "client_GetInto srv c key dst =
     bnd (do_cmd srv c (GET key)) (\<lambda>r.
       case read_into dst r of (n, b, err) \<Rightarrow>
         if err = Some ErrNil then return (0, [], Some ErrRedisKeyNotFound)
         else return (n, b, err))"

definition client_Unlink :: "'d server \<Rightarrow> string \<Rightarrow> string list \<Rightarrow> ('d world, goerr option) prog" where
  "client_Unlink srv c keys = bnd (do_cmd srv c (UNLINK keys)) (\<lambda>r. return (reply_err r))"

definition client_SAdd :: "'d server \<Rightarrow> string \<Rightarrow> string \<Rightarrow> string \<Rightarrow> ('d world, goerr option) prog" where
  "client_SAdd srv c key member = bnd (do_cmd srv c (SADD key member)) (\<lambda>r. return (reply_err r))"

definition client_SRem :: "'d server \<Rightarrow> string \<Rightarrow> string \<Rightarrow> string \<Rightarrow> ('d world, goerr option) prog" where
  "client_SRem srv c key member = bnd (do_cmd srv c (SREM key member)) (\<lambda>r. return (reply_err r))"

definition client_SMembers :: "'d server \<Rightarrow> string \<Rightarrow> string \<Rightarrow> ('d world, string list \<times> goerr option) prog" where
  "client_SMembers srv c key = bnd (do_cmd srv c (SMEMBERS key)) (\<lambda>r. return (redis_Strings r))"

text \<open>
  A pipeline collects commands after \<open>MULTI\<close> and sends them with \<open>EXEC\<close>
  (\<open>Pipe.Do\<close>, \<open>Pipe.Flush\<close>): one transaction on one instance. Only an error of the
  \<open>EXEC\<close> itself panics; the errors of the commands are inside its array reply.
\<close>

type_synonym pipe = "string \<times> cmd list"

definition Pipeline :: "string \<Rightarrow> pipe" where
  "Pipeline c = (c, [])"

definition Pipe_Do :: "pipe \<Rightarrow> cmd \<Rightarrow> pipe" where
  "Pipe_Do p c = (fst p, snd p @ [c])"

definition Pipe_Flush :: "'d server \<Rightarrow> pipe \<Rightarrow> ('d world, unit) prog" where
  "Pipe_Flush srv p = bnd (do_cmd srv (fst p) (EXEC (snd p))) (\<lambda>r. Try (reply_err r))"

lemmas client_defs =
  client_SetRange_def client_GetRange_def client_GetRangeInto_def client_Exists_def
  client_Set_def client_SetNX_def client_Get_def client_Strlen_def client_GetInto_def
  client_Unlink_def client_SAdd_def client_SRem_def client_SMembers_def

lemmas pipe_defs = Pipeline_def Pipe_Do_def Pipe_Flush_def

end
