(* ===== verification/Ring.thy ===== *)
theory Ring
  imports Redis
begin

text \<open>
  \<open>src/go/util/consistenthash.go\<close> and the ring of clients of
  \<open>src/go/redisfs/redis.go\<close>: which instance holds a key. The hash function is an argument
  of the code (\<open>NewConsistentHash\<close>) and of the model; the default, CRC-32, is defined here
  as the standard library computes it.
\<close>

section \<open>CRC-32 (IEEE), the default hash\<close>

definition crc32_bit :: "32 word \<Rightarrow> 32 word" where
  "crc32_bit c = (if bit c 0 then xor (drop_bit 1 c) 0xEDB88320 else drop_bit 1 c)"

definition crc32_byte :: "32 word \<Rightarrow> char \<Rightarrow> 32 word" where
  "crc32_byte c b = (crc32_bit ^^ 8) (xor c (of_nat (of_char b)))"

definition crc32_ieee :: "string \<Rightarrow> 32 word" where
  "crc32_ieee s = not (foldl crc32_byte (not 0) s)"

section \<open>Consistent hashing\<close>

record ConsistentHash =
  ch_hash :: "string \<Rightarrow> 32 word"
  replicas :: nat
  keys :: "int list"
  hashMap :: "int \<rightharpoonup> string"

definition NewConsistentHash :: "nat \<Rightarrow> (string \<Rightarrow> 32 word) option \<Rightarrow> ConsistentHash" where
  "NewConsistentHash n fn =
     \<lparr> ch_hash = (case fn of None \<Rightarrow> crc32_ieee | Some h \<Rightarrow> h), replicas = n, keys = [],
       hashMap = Map.empty \<rparr>"

definition IsEmpty :: "ConsistentHash \<Rightarrow> bool" where
  "IsEmpty m \<longleftrightarrow> length (keys m) = 0"

definition replica_hash :: "ConsistentHash \<Rightarrow> nat \<Rightarrow> string \<Rightarrow> int" where
  "replica_hash m i key = uint (ch_hash m (itoa (int i) @ key))"

definition add_replica :: "string \<Rightarrow> nat \<Rightarrow> ConsistentHash \<Rightarrow> ConsistentHash" where
  "add_replica key i m =
     m\<lparr> keys := keys m @ [replica_hash m i key],
        hashMap := (hashMap m)(replica_hash m i key \<mapsto> key) \<rparr>"

definition Add :: "string list \<Rightarrow> ConsistentHash \<Rightarrow> ConsistentHash" where
  "Add ks m =
     (let m' = fold (\<lambda>key m. fold (add_replica key) [0..<replicas m] m) ks m
      in m'\<lparr> keys := sort (keys m') \<rparr>)"

text \<open>\<open>sort.Search\<close>: the binary search of Go's standard library.\<close>

function go_Search :: "nat \<Rightarrow> nat \<Rightarrow> (nat \<Rightarrow> bool) \<Rightarrow> nat" where
  "go_Search i j f =
     (if i < j then
        (let h = (i + j) div 2 in if \<not> f h then go_Search (h + 1) j f else go_Search i h f)
      else i)"
  by pat_completeness auto
termination
  by (relation "measure (\<lambda>(i, j, f). j - i)") auto

declare go_Search.simps [simp del]

definition Get :: "ConsistentHash \<Rightarrow> string \<Rightarrow> string" where
  "Get m key =
     (if IsEmpty m then ''''
      else
        let hash = uint (ch_hash m key);
            idx = go_Search 0 (length (keys m)) (\<lambda>i. keys m ! i \<ge> hash);
            idx = (if idx = length (keys m) then 0 else idx)
        in case hashMap m (keys m ! idx) of None \<Rightarrow> '''' | Some k \<Rightarrow> k)"

section \<open>The ring of clients\<close>

record RedisRing =
  clients :: "(string \<times> string) list"
  hash :: ConsistentHash

definition NewRedisRing :: "string list \<Rightarrow> RedisRing" where
  "NewRedisRing addrs =
     (let ids = map (\<lambda>i. itoa (int i)) [0..<length addrs]
      in \<lparr> clients = zip ids addrs, hash = Add ids (NewConsistentHash 100 None) \<rparr>)"

fun IndexByte :: "string \<Rightarrow> char \<Rightarrow> nat option" where
  "IndexByte [] c = None"
| "IndexByte (x # xs) c = (if x = c then Some 0 else map_option Suc (IndexByte xs c))"

definition hash_tag :: "string \<Rightarrow> string" where
  "hash_tag key =
     (case IndexByte key (CHR ''{'') of
        None \<Rightarrow> key
      | Some s \<Rightarrow>
          (case IndexByte (drop (s + 1) key) (CHR ''}'') of
             None \<Rightarrow> key
           | Some e \<Rightarrow> if e > 0 then take e (drop (s + 1) key) else key))"

text \<open>A missing client is a nil pointer, whose first use panics.\<close>

definition GetClient :: "RedisRing \<Rightarrow> string \<Rightarrow> string option" where
  "GetClient r key = map_of (clients r) (Get (hash r) (hash_tag key))"

definition with_client :: "RedisRing \<Rightarrow> string \<Rightarrow> ('s, string) prog" where
  "with_client r key =
     (case GetClient r key of
        None \<Rightarrow> panic ''invalid memory address or nil pointer dereference''
      | Some c \<Rightarrow> return c)"

section \<open>The search finds the first point of the ring\<close>

definition first_true :: "(nat \<Rightarrow> bool) \<Rightarrow> nat \<Rightarrow> nat \<Rightarrow> nat \<Rightarrow> bool" where
  "first_true f i j r \<longleftrightarrow>
     i \<le> r \<and> r \<le> j \<and> (\<forall>k. i \<le> k \<and> k < r \<longrightarrow> \<not> f k) \<and> (r < j \<longrightarrow> f r)"

lemma first_true_right:
  "first_true f (h + 1) j r \<Longrightarrow> \<forall>k \<le> h. \<not> f k \<Longrightarrow> i \<le> h \<Longrightarrow> first_true f i j r"
  unfolding first_true_def by (metis Suc_eq_plus1 Suc_leD le_trans not_less_eq_eq)

lemma first_true_left:
  "first_true f i h r \<Longrightarrow> f h \<Longrightarrow> h < j \<Longrightarrow> first_true f i j r"
  unfolding first_true_def by (metis le_neq_implies_less le_trans less_imp_le)

lemma go_Search_correct:
  assumes "i \<le> j" and "\<And>a b. a \<le> b \<Longrightarrow> b < j \<Longrightarrow> f a \<Longrightarrow> f b"
  shows "first_true f i j (go_Search i j f)"
  using assms
proof (induction i j f rule: go_Search.induct)
  case (1 i j f)
  note mono = "1.prems"(2)
  show ?case
  proof (cases "i < j")
    case False
    then have "go_Search i j f = i" by (simp add: go_Search.simps [of i j])
    with False \<open>i \<le> j\<close> show ?thesis by (auto simp: first_true_def)
  next
    case True
    define h where "h = (i + j) div 2"
    have h: "i \<le> h" "h < j" using True by (simp_all add: h_def)
    show ?thesis
    proof (cases "f h")
      case True
      have "first_true f i h (go_Search i h f)"
        by (rule "1.IH"(2) [OF \<open>i < j\<close> h_def])
          (use True h in simp, use h in simp, metis mono h(2) less_trans)
      from first_true_left [OF this True h(2)] show ?thesis
        using True \<open>i < j\<close> by (simp add: go_Search.simps [of i j] Let_def flip: h_def)
    next
      case False
      have "first_true f (h + 1) j (go_Search (h + 1) j f)"
        by (rule "1.IH"(1) [OF \<open>i < j\<close> h_def]) (use False in simp, use h in simp, metis mono)
      moreover have "\<forall>k \<le> h. \<not> f k"
        using False mono h(2) by blast
      ultimately show ?thesis
        using first_true_right [OF _ _ h(1)] False \<open>i < j\<close>
        by (simp add: go_Search.simps [of i j] Let_def flip: h_def)
    qed
  qed
qed

section \<open>The state of the hash ring\<close>

text \<open>The points are sorted, and each of them has an owner.\<close>

definition ring_ok :: "ConsistentHash \<Rightarrow> bool" where
  "ring_ok m \<longleftrightarrow> sorted (keys m) \<and> set (keys m) = dom (hashMap m)"

lemma ring_ok_New [simp]: "ring_ok (NewConsistentHash n fn)"
  by (simp add: ring_ok_def NewConsistentHash_def)

text \<open>Adding without the final sort keeps points and owners in step.\<close>

definition add_keys :: "string list \<Rightarrow> ConsistentHash \<Rightarrow> ConsistentHash" where
  "add_keys ks m = fold (\<lambda>key m. fold (add_replica key) [0..<replicas m] m) ks m"

lemma Add_add_keys: "Add ks m = (add_keys ks m)\<lparr> keys := sort (keys (add_keys ks m)) \<rparr>"
  by (simp add: Add_def add_keys_def Let_def)

lemma add_replica_simps [simp]:
  "keys (add_replica key i m) = keys m @ [replica_hash m i key]"
  "hashMap (add_replica key i m) = (hashMap m)(replica_hash m i key \<mapsto> key)"
  "replicas (add_replica key i m) = replicas m"
  "ch_hash (add_replica key i m) = ch_hash m"
  "replica_hash (add_replica key i m) = replica_hash m"
  by (simp_all add: add_replica_def replica_hash_def fun_eq_iff)

lemma add_replicas_same [simp]:
  "replicas (fold (add_replica key) is m) = replicas m"
  "ch_hash (fold (add_replica key) is m) = ch_hash m"
  by (induction "is" arbitrary: m) simp_all

lemma add_replicas_keys:
  "set (keys (fold (add_replica key) is m)) = set (keys m) \<union> (\<lambda>i. replica_hash m i key) ` set is"
  by (induction "is" arbitrary: m) auto

lemma add_replicas_map:
  "hashMap (fold (add_replica key) is m) p =
     (if p \<in> (\<lambda>i. replica_hash m i key) ` set is then Some key else hashMap m p)"
  by (induction "is" arbitrary: m) auto

lemma add_keys_simps [simp]:
  "add_keys [] m = m"
  "add_keys (k # ks) m = add_keys ks (fold (add_replica k) [0..<replicas m] m)"
  by (simp_all add: add_keys_def)

lemma add_keys_dom:
  "set (keys m) = dom (hashMap m) \<Longrightarrow>
     set (keys (add_keys ks m)) = dom (hashMap (add_keys ks m))"
proof (induction ks arbitrary: m)
  case (Cons k ks)
  have "set (keys (fold (add_replica k) [0..<replicas m] m)) =
      dom (hashMap (fold (add_replica k) [0..<replicas m] m))"
    using Cons.prems by (auto simp: add_replicas_keys add_replicas_map split: if_splits)
  from Cons.IH [OF this] show ?case by simp
qed simp

lemma add_keys_ran: "ran (hashMap (add_keys ks m)) \<subseteq> ran (hashMap m) \<union> set ks"
proof (induction ks arbitrary: m)
  case (Cons k ks)
  have "ran (hashMap (fold (add_replica k) [0..<replicas m] m)) \<subseteq> ran (hashMap m) \<union> {k}"
    by (auto simp: ran_def add_replicas_map split: if_splits)
  with Cons.IH [of "fold (add_replica k) [0..<replicas m] m"] show ?case by auto
qed simp

lemma add_keys_mono: "set (keys m) \<subseteq> set (keys (add_keys ks m))"
proof (induction ks arbitrary: m)
  case (Cons k ks)
  from Cons.IH [of "fold (add_replica k) [0..<replicas m] m"] show ?case
    by (auto simp: add_replicas_keys)
qed simp

lemma Add_ring_ok: "ring_ok m \<Longrightarrow> ring_ok (Add ks m)"
  using add_keys_dom [of m ks] by (simp add: Add_add_keys ring_ok_def)

lemma Add_owners: "ran (hashMap (Add ks m)) \<subseteq> ran (hashMap m) \<union> set ks"
  using add_keys_ran [of ks m] by (simp add: Add_add_keys)

lemma Add_keys_nonempty:
  assumes "ks \<noteq> []" and "0 < replicas m"
  shows "keys (Add ks m) \<noteq> []"
proof -
  obtain k ks' where ks: "ks = k # ks'" using assms(1) by (cases ks) auto
  let ?m = "fold (add_replica k) [0..<replicas m] m"
  have "replica_hash m 0 k \<in> set (keys ?m)"
    using assms(2) by (simp add: add_replicas_keys)
  then have "replica_hash m 0 k \<in> set (keys (add_keys ks m))"
    using add_keys_mono [of ?m ks'] by (auto simp: ks)
  then have "replica_hash m 0 k \<in> set (keys (Add ks m))" by (simp add: Add_add_keys)
  then show ?thesis by auto
qed

section \<open>Which point owns a key\<close>

text \<open>The specification: the first point at or after the hash, or the first one of all.\<close>

definition successor :: "ConsistentHash \<Rightarrow> int \<Rightarrow> int" where
  "successor m h =
     (if \<exists>p \<in> set (keys m). h \<le> p then Min {p \<in> set (keys m). h \<le> p} else Min (set (keys m)))"

lemma search_successor:
  fixes h :: int and ks :: "int list"
  assumes "sorted ks" and "ks \<noteq> []"
  defines "r \<equiv> go_Search 0 (length ks) (\<lambda>i. ks ! i \<ge> h)"
  shows "ks ! (if r = length ks then 0 else r) =
    (if \<exists>p \<in> set ks. h \<le> p then Min {p \<in> set ks. h \<le> p} else Min (set ks))"
proof -
  have mono: "ks ! a \<le> ks ! b" if "a \<le> b" "b < length ks" for a b
    using assms(1) that by (simp add: sorted_nth_mono)
  have r: "first_true (\<lambda>i. ks ! i \<ge> h) 0 (length ks) r"
    unfolding r_def by (rule go_Search_correct) (use mono in fastforce)+
  show ?thesis
  proof (cases "r = length ks")
    case True
    with r have "\<not> (\<exists>p \<in> set ks. h \<le> p)" by (auto simp: first_true_def in_set_conv_nth)
    moreover have "Min (set ks) = ks ! 0"
      using assms(2) mono by (intro Min_eqI) (auto simp: in_set_conv_nth)
    ultimately show ?thesis using True by simp
  next
    case False
    with r have "r < length ks" and "h \<le> ks ! r"
      and below: "\<And>k. k < r \<Longrightarrow> \<not> h \<le> ks ! k"
      by (auto simp: first_true_def)
    moreover have "Min {p \<in> set ks. h \<le> p} = ks ! r"
    proof (rule Min_eqI)
      fix p
      assume "p \<in> {p \<in> set ks. h \<le> p}"
      then obtain k where k: "k < length ks" "p = ks ! k" "h \<le> ks ! k"
        by (auto simp: in_set_conv_nth)
      with below have "r \<le> k" by (meson not_le)
      with k mono show "ks ! r \<le> p" by simp
    qed (use calculation in auto)
    ultimately show ?thesis using False by auto
  qed
qed

lemma Get_successor:
  assumes "ring_ok m" and "keys m \<noteq> []"
  shows "hashMap m (successor m (uint (ch_hash m key))) = Some (Get m key)"
proof -
  let ?h = "uint (ch_hash m key)"
  let ?r = "go_Search 0 (length (keys m)) (\<lambda>i. keys m ! i \<ge> ?h)"
  have point: "keys m ! (if ?r = length (keys m) then 0 else ?r) = successor m ?h"
    using search_successor [of "keys m" ?h] assms by (simp add: ring_ok_def successor_def)
  have "?r \<le> length (keys m)"
    using go_Search_correct [of 0 "length (keys m)" "\<lambda>i. keys m ! i \<ge> ?h"] assms(1)
    by (auto simp: first_true_def ring_ok_def sorted_iff_nth_mono intro: order_trans)
  with assms(2) have "successor m ?h \<in> set (keys m)"
    unfolding point [symmetric] by (intro nth_mem) (auto simp: le_less)
  with assms(1) obtain v where "hashMap m (successor m ?h) = Some v"
    by (auto simp: ring_ok_def)
  with point assms(2) show ?thesis
    by (simp add: Get_def IsEmpty_def Let_def)
qed

section \<open>Every key has a client\<close>

lemma map_of_zip_ids:
  assumes "k \<in> set (map f [0..<length addrs])"
  shows "\<exists>c \<in> set addrs. map_of (zip (map f [0..<length addrs]) addrs) k = Some c"
proof -
  have "map_of (zip (map f [0..<length addrs]) addrs) k \<noteq> None"
    using assms by (subst map_of_zip_is_None) (simp, simp)
  then obtain c where c: "map_of (zip (map f [0..<length addrs]) addrs) k = Some c" by blast
  then have "c \<in> set addrs" by (meson map_of_SomeD set_zip_rightD)
  with c show ?thesis by blast
qed

lemma NewRedisRing_client:
  assumes "addrs \<noteq> []"
  shows "\<exists>c \<in> set addrs. GetClient (NewRedisRing addrs) key = Some c"
proof -
  let ?ids = "map (\<lambda>i. itoa (int i)) [0..<length addrs]"
  let ?m = "Add ?ids (NewConsistentHash 100 None)"
  have ring: "ring_ok ?m" by (simp add: Add_ring_ok)
  have ne: "keys ?m \<noteq> []"
    using assms by (intro Add_keys_nonempty) (simp_all add: NewConsistentHash_def)
  from Get_successor [OF ring ne, of "hash_tag key"]
  have "Get ?m (hash_tag key) \<in> ran (hashMap ?m)" by (auto simp: ran_def)
  with Add_owners [of ?ids "NewConsistentHash 100 None"]
  have "Get ?m (hash_tag key) \<in> set ?ids" by (auto simp: NewConsistentHash_def)
  from map_of_zip_ids [OF this] show ?thesis
    by (simp add: GetClient_def NewRedisRing_def Let_def)
qed

end
