(* ===== verification/Store.thy ===== *)
theory Store
  imports Ring
begin

text \<open>
  \<open>src/go/redisfs/store.go\<close>: files as sequences of stripes over the ring of instances. A
  stripe of the file \<open>name\<close> is a Redis string under \<open>key name id\<close>; every instance also
  keeps the set \<open>name:stripes\<close> of the stripe numbers it holds. This theory has the
  definitions; \<open>StoreCorrect\<close> has what they promise.
\<close>

section \<open>Slices and stripes\<close>

text \<open>
  A Go slice is a window into an array: where it starts and what it holds. Writing needs the
  contents, reading needs the place. A nil slice is \<open>None\<close>.
\<close>

record slice =
  sl_pos :: nat
  sl_bytes :: bytes

record stripeInfo =
  si_id :: int
  si_off :: int
  si_data :: "slice option"

definition si_bytes :: "stripeInfo \<Rightarrow> bytes" where
  "si_bytes t = (case si_data t of None \<Rightarrow> [] | Some s \<Rightarrow> sl_bytes s)"

text \<open>The zero value of the struct, which \<open>make\<close> fills a slice with.\<close>

definition zero_stripe :: stripeInfo where
  "zero_stripe = \<lparr> si_id = 0, si_off = 0, si_data = None \<rparr>"

text \<open>
  What the code is run with: the Redis servers, and the capacity Go's \<open>append\<close> gives a
  full slice (left open by the language).
\<close>

record 'd runtime =
  server :: "'d server"
  append_cap :: "nat \<Rightarrow> nat"

record DataStore =
  redisRing :: RedisRing
  stripeSize :: int

section \<open>Helpers\<close>

definition key :: "string \<Rightarrow> int \<Rightarrow> string" where
  "key name i = name @ '':'' @ itoa i"

definition stripes_key :: "string \<Rightarrow> string" where
  "stripes_key name = name @ '':stripes''"

definition divmod :: "int \<Rightarrow> int \<Rightarrow> (int \<times> int) result" where
  "divmod n d = (if d = 0 then Panic ''integer divide by zero'' else Ok (n sdiv d, n smod d))"

lemma smod_abs: "d \<noteq> 0 \<Longrightarrow> \<bar>n smod d\<bar> < \<bar>d :: int\<bar>"
  by (simp add: signed_modulo_int_def abs_mult abs_sgn_eq)

text \<open>
  The loop of \<open>stripeLayout\<close>: \<open>cap\<close> is the capacity of \<open>stripes\<close>. When the slice is
  full, the code allocates a new one of twice the capacity \<^emph>\<open>as its length\<close>, so that the
  copy is followed by zero values.
\<close>

function layout_loop ::
  "(nat \<Rightarrow> nat) \<Rightarrow> int \<Rightarrow> int \<Rightarrow> bytes \<Rightarrow> int \<Rightarrow> nat \<Rightarrow> stripeInfo list \<Rightarrow> stripeInfo list result" where
  "layout_loop grow S off data pos cap stripes =
     (if pos \<ge> int (length data) then Ok stripes
      else
        let (stripes, cap) =
              (if length stripes \<ge> cap
               then (stripes @ replicate (2 * cap - length stripes) zero_stripe, 2 * cap)
               else (stripes, cap))
        in case divmod (i64 (off + pos)) S of
             Panic e \<Rightarrow> Panic e
           | Exit n \<Rightarrow> Exit n
           | Ok (i, offset) \<Rightarrow>
               let rest = int (length data) - pos;
                   stripeLen = (if rest > S - offset then S - offset else rest)
               in if stripeLen < 0 then Panic ''slice bounds out of range''
                  else layout_loop grow S off data (pos + stripeLen)
                    (if length stripes < cap then cap else grow cap)
                    (stripes @ [\<lparr> si_id = i, si_off = offset,
                       si_data = Some \<lparr> sl_pos = nat pos,
                         sl_bytes = take (nat stripeLen) (drop (nat pos) data) \<rparr> \<rparr>]))"
  by pat_completeness auto
termination
proof (relation "measure (\<lambda>(grow, S, off, data, pos, cap, stripes). nat (int (length data) - pos))",
    goal_cases)
  case 1
  show ?case by simp
next
  case (2 grow S off data pos cap stripes x y z r i offset rest len)
  from 2(4,5) have "offset = i64 (off + pos) smod S" and "S \<noteq> 0"
    by (auto simp: divmod_def split: if_splits)
  with smod_abs [of S "i64 (off + pos)"] have "S - offset \<noteq> 0" by auto
  with 2 show ?case by (auto split: if_splits)
qed

declare layout_loop.simps [simp del]

definition stripeLayout :: "'d runtime \<Rightarrow> int \<Rightarrow> int \<Rightarrow> bytes \<Rightarrow> stripeInfo list result" where
  "stripeLayout R S off data = layout_loop (append_cap R) S off data 0 100 []"

section \<open>One stripe\<close>

definition writeStripe :: "'d runtime \<Rightarrow> DataStore \<Rightarrow> string \<Rightarrow> stripeInfo \<Rightarrow> ('d world, unit) prog" where
  "writeStripe R s name t =
     (let stripeKey = key name (si_id t) in
      bnd (with_client (redisRing s) stripeKey) (\<lambda>c.
        let p = Pipe_Do (Pipeline c) (SADD (stripes_key name) (itoa (si_id t)));
            p = (if si_off t = 0 \<and> int (length (si_bytes t)) = stripeSize s
                 then Pipe_Do p (SET stripeKey (si_bytes t))
                 else Pipe_Do p (SETRANGE stripeKey (si_off t) (si_bytes t)))
        in Pipe_Flush (server R) p))"

definition removeStripe :: "'d runtime \<Rightarrow> DataStore \<Rightarrow> string \<Rightarrow> int \<Rightarrow> ('d world, unit) prog" where
  "removeStripe R s name i =
     (let stripeKey = key name i in
      bnd (with_client (redisRing s) stripeKey) (\<lambda>c.
        let p = Pipe_Do (Pipeline c) (SREM (stripes_key name) (itoa i));
            p = Pipe_Do p (UNLINK [stripeKey])
        in Pipe_Flush (server R) p))"

text \<open>
  Reading a stripe gives the count and the bytes copied into its window. A missing key is no
  error: nothing is read.
\<close>

definition readStripe :: "'d runtime \<Rightarrow> DataStore \<Rightarrow> string \<Rightarrow> stripeInfo \<Rightarrow> ('d world, int \<times> bytes) prog" where
  "readStripe R s name t =
     (let stripeKey = key name (si_id t);
          size = int (length (si_bytes t));
          dst = map_option (\<lambda>sl. length (sl_bytes sl)) (si_data t)
      in bnd (with_client (redisRing s) stripeKey) (\<lambda>c.
           bnd (if si_off t = 0 \<and> size = stripeSize s
                then client_GetInto (server R) c stripeKey dst
                else client_GetRangeInto (server R) c stripeKey (si_off t) (si_off t + size - 1) dst)
             (\<lambda>(n, b, err).
               if err \<noteq> None \<and> err \<noteq> Some ErrRedisKeyNotFound then panic ''error''
               else return (n, b))))"

definition trimStripe :: "'d runtime \<Rightarrow> DataStore \<Rightarrow> string \<Rightarrow> int \<Rightarrow> int \<Rightarrow> ('d world, unit) prog" where
  "trimStripe R s name i sz =
     (let stripeKey = key name i in
      bnd (with_client (redisRing s) stripeKey) (\<lambda>c.
        if sz = 0
        then bnd (do_cmd (server R) c (SET stripeKey [])) (\<lambda>r. Try (reply_err r))
        else bnd (do_cmd (server R) c (EVAL_TRIM stripeKey (sz - 1))) (\<lambda>r. Try (reply_err r))))"

section \<open>The public operations\<close>

definition WriteAt :: "'d runtime \<Rightarrow> DataStore \<Rightarrow> string \<Rightarrow> int \<Rightarrow> bytes \<Rightarrow> ('d world, unit) prog" where
  "WriteAt R s name off data =
     bnd (lift_res (stripeLayout R (stripeSize s) off data)) (\<lambda>stripes.
       go_all (map (writeStripe R s name) stripes))"

text \<open>
  The readers write into disjoint windows of \<open>dst\<close> and add to a shared counter, here one
  after the other.
\<close>

fun read_stripes ::
  "'d runtime \<Rightarrow> DataStore \<Rightarrow> string \<Rightarrow> stripeInfo list \<Rightarrow> int \<Rightarrow> bytes \<Rightarrow> ('d world, int \<times> bytes) prog" where
  "read_stripes R s name [] read dst = return (read, dst)"
| "read_stripes R s name (t # ts) read dst =
     bnd (readStripe R s name t) (\<lambda>(n, b).
       read_stripes R s name ts (i64 (read + n))
         (case si_data t of None \<Rightarrow> dst | Some sl \<Rightarrow> overwrite 0 (sl_pos sl) b dst))"

definition ReadAt :: "'d runtime \<Rightarrow> DataStore \<Rightarrow> string \<Rightarrow> int \<Rightarrow> bytes \<Rightarrow> ('d world, int \<times> bytes) prog" where
  "ReadAt R s name off dst =
     bnd (lift_res (stripeLayout R (stripeSize s) off dst)) (\<lambda>stripes.
       read_stripes R s name stripes 0 dst)"

definition max_id :: "int list \<Rightarrow> int" where
  "max_id ids = foldl (\<lambda>m i. if i > m then i else m) (-1) ids"

fun gather_max :: "'d runtime \<Rightarrow> string \<Rightarrow> string list \<Rightarrow> ('d world, int list) prog" where
  "gather_max R name [] = return []"
| "gather_max R name (c # cs) =
     bnd (do_cmd (server R) c (SMEMBERS (stripes_key name))) (\<lambda>r.
       case redis_Int64s r of (ids, err) \<Rightarrow>
         bnd (Try err) (\<lambda>_. bnd (gather_max R name cs) (\<lambda>ms. return (max_id ids # ms))))"

definition searchLastStripe :: "'d runtime \<Rightarrow> DataStore \<Rightarrow> string \<Rightarrow> ('d world, int) prog" where
  "searchLastStripe R s name =
     bnd (gather_max R name (map snd (clients (redisRing s)))) (\<lambda>ms. return (max_id ms))"

definition Remove :: "'d runtime \<Rightarrow> DataStore \<Rightarrow> string \<Rightarrow> ('d world, unit) prog" where
  "Remove R s name =
     bnd (searchLastStripe R s name) (\<lambda>lastStripe.
       go_all (map (removeStripe R s name) [0..lastStripe]))"

definition GetSize :: "'d runtime \<Rightarrow> DataStore \<Rightarrow> string \<Rightarrow> ('d world, int) prog" where
  "GetSize R s name =
     bnd (searchLastStripe R s name) (\<lambda>ilast.
       if ilast < 0 then return 0
       else
         let k = key name ilast in
         bnd (with_client (redisRing s) k) (\<lambda>c.
           bnd (client_Strlen (server R) c k) (\<lambda>(l, err).
             bnd (Try err) (\<lambda>_. return (i64 (ilast * stripeSize s + l))))))"

definition lastStripeInfo :: "int \<Rightarrow> int \<Rightarrow> (int \<times> int) result" where
  "lastStripeInfo sz S =
     (case divmod sz S of
        Ok (i, len) \<Rightarrow> if len = 0 then Ok (i - 1, S) else Ok (i, len)
      | Panic e \<Rightarrow> Panic e
      | Exit n \<Rightarrow> Exit n)"

definition zero_byte_stripe :: "int \<Rightarrow> int \<Rightarrow> stripeInfo" where
  "zero_byte_stripe i off =
     \<lparr> si_id = i, si_off = off, si_data = Some \<lparr> sl_pos = 0, sl_bytes = [0] \<rparr> \<rparr>"

definition Resize :: "'d runtime \<Rightarrow> DataStore \<Rightarrow> string \<Rightarrow> int \<Rightarrow> ('d world, unit) prog" where
  "Resize R s name newSize =
     (if newSize < 0 then panic ''size must be non-negative''
      else
        bnd (GetSize R s name) (\<lambda>curSize.
        bnd (lift_res (lastStripeInfo curSize (stripeSize s))) (\<lambda>(curLastStripeID, curLastStripeLen).
        bnd (lift_res (lastStripeInfo newSize (stripeSize s))) (\<lambda>(newLastStripeID, newLastStripeLen).
          if newSize < curSize then
            go_all (map (removeStripe R s name) [newLastStripeID + 1..curLastStripeID]
                    @ [trimStripe R s name newLastStripeID newLastStripeLen])
          else if newSize > curSize then
            go_all (map (\<lambda>i. writeStripe R s name (zero_byte_stripe i (stripeSize s - 1)))
                      [curLastStripeID + 1..newLastStripeID - 1]
                    @ [writeStripe R s name (zero_byte_stripe newLastStripeID (newLastStripeLen - 1))]
                    @ (if curLastStripeLen < stripeSize s
                       then [writeStripe R s name
                               (zero_byte_stripe curLastStripeID (stripeSize s - curLastStripeLen - 1))]
                       else []))
          else return ()))))"

end
