(* ===== verification/Layout.thy ===== *)
theory Layout
  imports Store
begin

text \<open>
  What \<open>stripeLayout\<close> of \<open>src/go/redisfs/store.go\<close> computes: up to the 100 stripes its
  first slice has room for, it cuts the data at the multiples of the stripe size
  (\<open>chunks\<close>). The second half relates stripes to the flat content of a file.
\<close>

section \<open>Cutting at multiples of the stripe size\<close>

function chunks :: "nat \<Rightarrow> nat \<Rightarrow> nat \<Rightarrow> bytes \<Rightarrow> stripeInfo list" where
  "chunks S off pos data =
     (if data = [] \<or> S = 0 then []
      else
        let n = min (length data) (S - off mod S)
        in \<lparr> si_id = int (off div S), si_off = int (off mod S),
             si_data = Some \<lparr> sl_pos = pos, sl_bytes = take n data \<rparr> \<rparr>
           # chunks S (off + n) (pos + n) (drop n data))"
  by pat_completeness auto
termination
proof (relation "measure (\<lambda>(S, off, pos, data). length data)", goal_cases)
  case (2 S off pos data n)
  then have "0 < n" by simp
  with 2 show ?case by simp
qed simp

declare chunks.simps [simp del]

lemma chunks_Nil [simp]: "chunks S off pos [] = []"
  by (simp add: chunks.simps)

text \<open>The step of the cut, as the proofs use it: one chunk, then the rest.\<close>

lemma chunks_step:
  assumes "data \<noteq> []" and "0 < S"
  obtains d rest where "d \<noteq> []" "data = d @ rest" "off mod S + length d \<le> S"
    "rest = [] \<or> (off + length d) mod S = 0 \<and> (off + length d) div S = off div S + 1"
    "chunks S off pos data =
       \<lparr> si_id = int (off div S), si_off = int (off mod S),
         si_data = Some \<lparr> sl_pos = pos, sl_bytes = d \<rparr> \<rparr>
       # chunks S (off + length d) (pos + length d) rest"
proof -
  define n where "n = min (length data) (S - off mod S)"
  have m: "off mod S < S" using assms(2) by simp
  with assms have n: "0 < n" "n \<le> length data" by (simp_all add: n_def)
  have "drop n data = [] \<or> off mod S + n = S" using m by (auto simp: n_def min_def)
  moreover have "(off + n) mod S = 0 \<and> (off + n) div S = off div S + 1" if "off mod S + n = S"
  proof -
    have "off div S * S + off mod S = off" by simp
    then have "off + n = (off div S + 1) * S"
      unfolding distrib_right using that by linarith
    with assms(2) show ?thesis by simp
  qed
  ultimately show ?thesis
    using assms n m
    by (intro that [of "take n data" "drop n data"])
      (auto simp: chunks.simps [of S off pos data] Let_def min_absorb2 simp flip: n_def,
       simp_all add: n_def)
qed

lemma length_chunks:
  "0 < S \<Longrightarrow> data \<noteq> [] \<Longrightarrow>
     length (chunks S off pos data) = (off + length data - 1) div S - off div S + 1"
proof (induction "length data" arbitrary: off pos data rule: less_induct)
  case less
  obtain d rest where d: "d \<noteq> []" "data = d @ rest" "off mod S + length d \<le> S"
    "rest = [] \<or> (off + length d) mod S = 0 \<and> (off + length d) div S = off div S + 1"
    "chunks S off pos data =
       \<lparr> si_id = int (off div S), si_off = int (off mod S),
         si_data = Some \<lparr> sl_pos = pos, sl_bytes = d \<rparr> \<rparr>
       # chunks S (off + length d) (pos + length d) rest"
    by (rule chunks_step [OF less.prems(2,1)])
  show ?case
  proof (cases "rest = []")
    case True
    have le: "S * (off div S) \<le> off" by simp
    have pos: "0 < length d" using d(1) by simp
    have off: "S * (off div S) + off mod S = off" by simp
    have "(off + length d - 1) div S = off div S"
    proof (rule div_nat_eqI)
      show "S * (off div S) \<le> off + length d - 1" using le pos by linarith
      show "off + length d - 1 < S * Suc (off div S)"
        unfolding mult_Suc_right using d(3) pos off by linarith
    qed
    with True d show ?thesis by simp
  next
    case False
    with d have "length rest < length data" by simp
    from less.hyps [OF this less.prems(1) False, of "off + length d" "pos + length d"]
    have "length (chunks S (off + length d) (pos + length d) rest) =
        (off + length d + length rest - 1) div S - (off div S + 1) + 1"
      using d(4) False by simp
    moreover have "off div S + 1 \<le> (off + length d + length rest - 1) div S"
    proof -
      have "off + length d \<le> off + length d + length rest - 1" using False by (cases rest) auto
      from div_le_mono [OF this, of S] show ?thesis using d(4) False by simp
    qed
    ultimately show ?thesis using d by (simp add: add.assoc)
  qed
qed

lemma chunks_ids:
  "0 < S \<Longrightarrow> t \<in> set (chunks S off pos data) \<Longrightarrow> int (off div S) \<le> si_id t"
proof (induction "length data" arbitrary: off pos data rule: less_induct)
  case less
  then have "data \<noteq> []" by auto
  from chunks_step [OF this less.prems(1), of off pos]
  obtain d rest where d: "d \<noteq> []" "data = d @ rest"
    "chunks S off pos data =
       \<lparr> si_id = int (off div S), si_off = int (off mod S),
         si_data = Some \<lparr> sl_pos = pos, sl_bytes = d \<rparr> \<rparr>
       # chunks S (off + length d) (pos + length d) rest"
    by metis
  show ?case
  proof (cases "t \<in> set (chunks S (off + length d) (pos + length d) rest)")
    case True
    with d have "int ((off + length d) div S) \<le> si_id t"
      by (intro less.hyps [OF _ less.prems(1) True]) simp
    moreover have "off div S \<le> (off + length d) div S" by (simp add: div_le_mono)
    ultimately show ?thesis by linarith
  next
    case False
    with d less.prems(2) show ?thesis by simp
  qed
qed

text \<open>Every chunk lies inside its stripe, and no stripe is cut twice.\<close>

lemma chunks_bounds:
  "0 < S \<Longrightarrow> t \<in> set (chunks S off pos data) \<Longrightarrow>
     0 \<le> si_off t \<and> si_off t + int (length (si_bytes t)) \<le> int S \<and> si_bytes t \<noteq> []
     \<and> 0 \<le> si_id t \<and> si_id t * int S + si_off t < int (off + length data)"
proof (induction "length data" arbitrary: off pos data rule: less_induct)
  case less
  then have "data \<noteq> []" by auto
  from chunks_step [OF this less.prems(1), of off pos]
  obtain d rest where d: "d \<noteq> []" "data = d @ rest" "off mod S + length d \<le> S"
    "chunks S off pos data =
       \<lparr> si_id = int (off div S), si_off = int (off mod S),
         si_data = Some \<lparr> sl_pos = pos, sl_bytes = d \<rparr> \<rparr>
       # chunks S (off + length d) (pos + length d) rest"
    by metis
  show ?case
  proof (cases "t \<in> set (chunks S (off + length d) (pos + length d) rest)")
    case True
    from d have "length rest < length data" by simp
    from less.hyps [OF this less.prems(1) True] d(2) show ?thesis
      by (simp add: add.assoc)
  next
    case False
    with d less.prems(2) have t: "t = \<lparr> si_id = int (off div S), si_off = int (off mod S),
         si_data = Some \<lparr> sl_pos = pos, sl_bytes = d \<rparr> \<rparr>" by simp
    have "int (off div S) * int S + int (off mod S) = int off"
      by (metis div_mult_mod_eq of_nat_add of_nat_mult)
    moreover have "0 < length d" using d(1) by simp
    ultimately have "int (off div S) * int S + int (off mod S) < int (off + length data)"
      unfolding d(2) length_append by linarith
    with t d show ?thesis by (simp add: si_bytes_def)
  qed
qed

lemma chunks_distinct: "0 < S \<Longrightarrow> distinct (map si_id (chunks S off pos data))"
proof (induction "length data" arbitrary: off pos data rule: less_induct)
  case less
  show ?case
  proof (cases "data = []")
    case False
    obtain d rest where d: "d \<noteq> []" "data = d @ rest"
      "rest = [] \<or> (off + length d) mod S = 0 \<and> (off + length d) div S = off div S + 1"
      "chunks S off pos data =
         \<lparr> si_id = int (off div S), si_off = int (off mod S),
           si_data = Some \<lparr> sl_pos = pos, sl_bytes = d \<rparr> \<rparr>
         # chunks S (off + length d) (pos + length d) rest"
      by (rule chunks_step [OF False less.prems, of off pos])
    have "int (off div S) \<notin> set (map si_id (chunks S (off + length d) (pos + length d) rest))"
    proof
      assume "int (off div S) \<in> set (map si_id (chunks S (off + length d) (pos + length d) rest))"
      then obtain t where t: "t \<in> set (chunks S (off + length d) (pos + length d) rest)"
        "si_id t = int (off div S)" by auto
      with d(3) have "int (off div S) + 1 \<le> si_id t"
        using chunks_ids [OF less.prems t(1)] by auto
      with t(2) show False by simp
    qed
    with d less.hyps [OF _ less.prems, of rest] show ?thesis by simp
  qed simp
qed

lemma chunks_concat: "0 < S \<Longrightarrow> concat (map si_bytes (chunks S off pos data)) = data"
proof (induction "length data" arbitrary: off pos data rule: less_induct)
  case less
  show ?case
  proof (cases "data = []")
    case False
    obtain d rest where d: "d \<noteq> []" "data = d @ rest"
      "chunks S off pos data =
         \<lparr> si_id = int (off div S), si_off = int (off mod S),
           si_data = Some \<lparr> sl_pos = pos, sl_bytes = d \<rparr> \<rparr>
         # chunks S (off + length d) (pos + length d) rest"
      by (rule chunks_step [OF False less.prems, of off pos])
    with less.hyps [OF _ less.prems, of rest] show ?thesis by (simp add: si_bytes_def)
  qed simp
qed

section \<open>The loop computes the cut\<close>

lemma layout_loop_chunks:
  assumes "0 < S" and "off + length data < 2 ^ 63" and "pos \<le> length data"
    and "length stripes + length (chunks S (off + pos) pos (drop pos data)) \<le> cap"
  shows "layout_loop grow (int S) (int off) data (int pos) cap stripes =
    Ok (stripes @ chunks S (off + pos) pos (drop pos data))"
  using assms(3,4)
proof (induction "length data - pos" arbitrary: pos stripes rule: less_induct)
  case less
  show ?case
  proof (cases "pos = length data")
    case True
    then show ?thesis by (simp add: layout_loop.simps)
  next
    case False
    with less.prems(1) have pos: "pos < length data" by simp
    then have "drop pos data \<noteq> []" by simp
    from chunks_step [OF this assms(1), of "off + pos" pos]
    obtain d rest where d: "d \<noteq> []" "drop pos data = d @ rest" "(off + pos) mod S + length d \<le> S"
      "rest = [] \<or> (off + pos + length d) mod S = 0 \<and> (off + pos + length d) div S = (off + pos) div S + 1"
      "chunks S (off + pos) pos (drop pos data) =
         \<lparr> si_id = int ((off + pos) div S), si_off = int ((off + pos) mod S),
           si_data = Some \<lparr> sl_pos = pos, sl_bytes = d \<rparr> \<rparr>
         # chunks S (off + pos + length d) (pos + length d) rest"
      by metis
    have rest: "rest = drop (pos + length d) data"
      by (metis add.commute append_eq_conv_conj d(2) drop_drop)
    have room: "length stripes < cap" using less.prems(2) d(5) by simp
    have len: "length d + length rest = length data - pos"
      using d(2) by (metis length_append length_drop)
    have wrap: "i64 (int off + int pos) = int (off + pos)"
      using assms(2) pos by (simp add: i64_nonneg)
    have dm: "divmod (i64 (int off + int pos)) (int S) =
        Ok (int ((off + pos) div S), int ((off + pos) mod S))"
      unfolding wrap using assms(1) by (simp add: divmod_def sdiv_nonneg smod_nonneg zdiv_int zmod_int)
    have step: "(if int S - int ((off + pos) mod S) < int (length data) - int pos
        then int S - int ((off + pos) mod S) else int (length data) - int pos) = int (length d)"
    proof (cases "rest = []")
      case True
      with len pos d(3) show ?thesis by auto
    next
      case False
      with d(4) have z: "(off + pos + length d) mod S = 0" by simp
      have "length d + (off + pos) mod S = S"
      proof (rule ccontr)
        assume "length d + (off + pos) mod S \<noteq> S"
        with d(3) have "length d + (off + pos) mod S < S" by simp
        then have "(off + pos + length d) mod S = length d + (off + pos) mod S"
          by (metis add.commute mod_add_left_eq mod_less)
        with z d(1) show False by simp
      qed
      with len pos False show ?thesis by (auto simp: of_nat_diff)
    qed
    have take: "take (length d) (drop pos data) = d" using d(2) by simp
    have "\<not> length stripes \<ge> cap" and "\<not> int pos \<ge> int (length data)" and "\<not> int (length d) < 0"
      using room pos by simp_all
    note guards = this
    have unfold: "layout_loop grow (int S) (int off) data (int pos) cap stripes =
        layout_loop grow (int S) (int off) data (int (pos + length d)) cap
          (stripes @ [\<lparr> si_id = int ((off + pos) div S), si_off = int ((off + pos) mod S),
             si_data = Some \<lparr> sl_pos = pos, sl_bytes = d \<rparr> \<rparr>])"
      unfolding layout_loop.simps [of grow "int S" "int off" data "int pos" cap stripes]
      by (simp only: guards room if_False if_True Let_def prod.case dm result.case step nat_int take
          of_nat_add simp_thms)
    show ?thesis
    proof (cases "pos + length d = length data")
      case True
      with rest d(5) show ?thesis unfolding unfold by (simp add: layout_loop.simps)
    next
      case False
      have "length data - (pos + length d) < length data - pos" using d(1) pos by (cases d) auto
      moreover have "pos + length d \<le> length data" using len pos by simp
      ultimately show ?thesis
        unfolding unfold using less.hyps [of "pos + length d"] less.prems(2) d(5) rest
        by (simp add: add.assoc)
    qed
  qed
qed

text \<open>
  \<open>few_stripes\<close>: the range touches at most 100 stripes, the room of the slice that
  \<open>stripeLayout\<close> starts with. With the default stripes of 50MB that is 5GB in one call.
\<close>

definition few_stripes :: "nat \<Rightarrow> nat \<Rightarrow> nat \<Rightarrow> bool" where
  "few_stripes S off n \<longleftrightarrow> (off + n - 1) div S - off div S < 100"

lemma stripeLayout_chunks:
  assumes "0 < S" and "off + length data < 2 ^ 63" and "few_stripes S off (length data)"
  shows "stripeLayout R (int S) (int off) data = Ok (chunks S off 0 data)"
proof -
  have "length (chunks S off 0 data) \<le> 100"
    using assms(3) length_chunks [OF assms(1), of data off 0]
    by (cases "data = []") (simp_all add: few_stripes_def)
  then show ?thesis
    using layout_loop_chunks [OF assms(1,2), of 0 "[]" 100 "append_cap R"]
    by (simp add: stripeLayout_def)
qed

section \<open>Stripes and the flat content of a file\<close>

text \<open>
  \<open>holds S st c\<close>: the stripes \<open>st\<close> hold exactly the bytes \<open>c\<close>. All stripes but the
  last are full, and there is none beyond the last.
\<close>

definition holds :: "nat \<Rightarrow> (int \<Rightarrow> bytes option) \<Rightarrow> bytes \<Rightarrow> bool" where
  "holds S st c \<longleftrightarrow>
     (\<forall>i. st (int i) = (if i * S < length c then Some (take S (drop (i * S) c)) else None))"

definition old_bytes :: "(int \<Rightarrow> bytes option) \<Rightarrow> int \<Rightarrow> bytes" where
  "old_bytes st i = (case st i of None \<Rightarrow> [] | Some b \<Rightarrow> b)"

text \<open>Writing and reading one stripe.\<close>

definition put :: "stripeInfo \<Rightarrow> (int \<Rightarrow> bytes option) \<Rightarrow> (int \<Rightarrow> bytes option)" where
  "put t st = st(si_id t \<mapsto> overwrite 0 (nat (si_off t)) (si_bytes t) (old_bytes st (si_id t)))"

definition got :: "stripeInfo \<Rightarrow> (int \<Rightarrow> bytes option) \<Rightarrow> bytes" where
  "got t st = take (length (si_bytes t)) (drop (nat (si_off t)) (old_bytes st (si_id t)))"

lemma holds_old_bytes: "holds S st c \<Longrightarrow> old_bytes st (int i) = take S (drop (i * S) c)"
  by (simp add: holds_def old_bytes_def)

lemma holds_empty: "holds S (\<lambda>_. None) []"
  by (simp add: holds_def)

lemma holds_unique:
  assumes "holds S st c" and "holds S st c'" and "0 < S"
  shows "c = c'"
proof -
  have eq: "take S (drop (i * S) c) = take S (drop (i * S) c')" for i
    using holds_old_bytes [OF assms(1), of i] holds_old_bytes [OF assms(2), of i] by simp
  have "take (i * S) c = take (i * S) c'" for i
  proof (induction i)
    case (Suc i)
    have "take (i * S + S) x = take (i * S) x @ take S (drop (i * S) x)" for x :: bytes
      by (rule take_add)
    with Suc eq [of i] show ?case by (simp add: add.commute)
  qed simp
  moreover have "x \<le> x * S" for x :: nat using assms(3) by simp
  then have "length c \<le> (length c + length c') * S" "length c' \<le> (length c + length c') * S"
    by (meson le_add1 le_add2 le_trans)+
  ultimately show ?thesis by (metis take_all)
qed

lemma take_drop_overwrite:
  assumes "off = i * S + k" and "k + length d \<le> S" and "off \<le> length c"
  shows "take S (drop (i * S) (overwrite 0 off d c)) = overwrite 0 k d (take S (drop (i * S) c))"
    (is "?l = ?r")
proof (rule nth_equalityI)
  show "length ?l = length ?r" using assms by (auto simp: min_def max_def)
next
  fix j
  assume "j < length ?l"
  then have j: "j < S" "i * S + j < length (overwrite 0 off d c)" by auto
  from j assms show "?l ! j = ?r ! j"
    by (auto simp: nth_overwrite)
qed

lemma take_drop_overwrite_outside:
  assumes "i * S + S \<le> off \<or> off + length d \<le> i * S" and "off \<le> length c"
  shows "take S (drop (i * S) (overwrite 0 off d c)) = take S (drop (i * S) c)"
    (is "?l = ?r")
proof (rule nth_equalityI)
  show "length ?l = length ?r" using assms by (auto simp: min_def max_def)
next
  fix j
  assume "j < length ?l"
  then have j: "j < S" "i * S + j < length (overwrite 0 off d c)" by auto
  with assms have "\<not> (off \<le> i * S + j \<and> i * S + j < off + length d)" by auto
  with j assms show "?l ! j = ?r ! j"
    by (auto simp: nth_overwrite max_def split: if_splits)
qed

lemma holds_put:
  assumes "holds S st c" and "0 < S" and "d \<noteq> []" and "off mod S + length d \<le> S"
    and "off \<le> length c"
    and t: "si_id t = int (off div S)" "si_off t = int (off mod S)" "si_bytes t = d"
  shows "holds S (put t st) (overwrite 0 off d c)"
  unfolding holds_def
proof
  fix i
  let ?i = "off div S"
  have off: "off = ?i * S + off mod S" by simp
  have dpos: "0 < length d" using assms(3) by simp
  show "put t st (int i) = (if i * S < length (overwrite 0 off d c)
      then Some (take S (drop (i * S) (overwrite 0 off d c))) else None)"
  proof (cases "i = ?i")
    case True
    have "?i * S < length (overwrite 0 off d c)"
      unfolding length_overwrite using off dpos by linarith
    with True show ?thesis
      using take_drop_overwrite [OF off assms(4,5)] holds_old_bytes [OF assms(1), of ?i]
      by (simp add: put_def t)
  next
    case False
    have outside: "i * S + S \<le> off \<or> off + length d \<le> i * S"
    proof (cases "i < ?i")
      case True
      then have "Suc i * S \<le> ?i * S" by (simp only: mult_le_mono1 Suc_leI)
      with off show ?thesis unfolding mult_Suc by linarith
    next
      case False
      with \<open>i \<noteq> ?i\<close> have "Suc ?i * S \<le> i * S" by (simp only: mult_le_mono1 Suc_leI)
      with off assms(4) show ?thesis unfolding mult_Suc by linarith
    qed
    then have "take S (drop (i * S) (overwrite 0 off d c)) = take S (drop (i * S) c)"
      using assms(5) by (rule take_drop_overwrite_outside)
    moreover have "i * S < length (overwrite 0 off d c) \<longleftrightarrow> i * S < length c"
      using outside assms(2,5) by auto
    ultimately show ?thesis
      using assms(1) False by (simp add: put_def t holds_def)
  qed
qed

lemma holds_write:
  "0 < S \<Longrightarrow> holds S st c \<Longrightarrow> off \<le> length c \<Longrightarrow>
     holds S (fold put (chunks S off pos data) st) (overwrite 0 off data c)"
proof (induction "length data" arbitrary: off pos data st c rule: less_induct)
  case less
  show ?case
  proof (cases "data = []")
    case True
    with less.prems show ?thesis by (simp add: overwrite_Nil_inside)
  next
    case False
    obtain d rest where d: "d \<noteq> []" "data = d @ rest" "off mod S + length d \<le> S"
      "chunks S off pos data =
         \<lparr> si_id = int (off div S), si_off = int (off mod S),
           si_data = Some \<lparr> sl_pos = pos, sl_bytes = d \<rparr> \<rparr>
         # chunks S (off + length d) (pos + length d) rest"
      by (rule chunks_step [OF False less.prems(1), of off pos])
    let ?t = "\<lparr> si_id = int (off div S), si_off = int (off mod S),
         si_data = Some \<lparr> sl_pos = pos, sl_bytes = d \<rparr> \<rparr>"
    have "holds S (put ?t st) (overwrite 0 off d c)"
      using less.prems d by (intro holds_put) (simp_all add: si_bytes_def)
    moreover have "length rest < length data" using d by simp
    ultimately have "holds S (fold put (chunks S (off + length d) (pos + length d) rest) (put ?t st))
        (overwrite 0 (off + length d) rest (overwrite 0 off d c))"
      using less.hyps [of rest "put ?t st" "overwrite 0 off d c" "off + length d" "pos + length d"]
        less.prems(1) by simp
    then show ?thesis using d by (simp add: overwrite_append)
  qed
qed

fun read_abs :: "stripeInfo list \<Rightarrow> (int \<Rightarrow> bytes option) \<Rightarrow> nat \<Rightarrow> bytes \<Rightarrow> nat \<times> bytes" where
  "read_abs [] st n dst = (n, dst)"
| "read_abs (t # ts) st n dst =
     read_abs ts st (n + length (got t st))
       (case si_data t of None \<Rightarrow> dst | Some sl \<Rightarrow> overwrite 0 (sl_pos sl) (got t st) dst)"

lemma holds_got:
  assumes "holds S st c" and "off mod S + length d \<le> S"
    and t: "si_id t = int (off div S)" "si_off t = int (off mod S)" "si_bytes t = d"
  shows "got t st = take (length d) (drop off c)"
proof -
  have "got t st = take (length d) (drop (off mod S) (take S (drop (off div S * S) c)))"
    using holds_old_bytes [OF assms(1), of "off div S"] by (simp add: got_def t)
  also have "\<dots> = take (min (length d) (S - off mod S)) (drop (off div S * S + off mod S) c)"
    by (simp add: drop_take min.commute add.commute)
  finally show ?thesis using assms(2) by (simp add: min_absorb1)
qed

lemma holds_read:
  "0 < S \<Longrightarrow> holds S st c \<Longrightarrow> pos + length buf \<le> length dst \<Longrightarrow>
     read_abs (chunks S off pos buf) st n dst =
       (n + min (length buf) (length c - off),
        overwrite 0 pos (take (length buf) (drop off c)) dst)"
proof (induction "length buf" arbitrary: off pos buf n dst rule: less_induct)
  case less
  show ?case
  proof (cases "buf = []")
    case True
    with less.prems(3) show ?thesis by (simp add: overwrite_Nil_inside)
  next
    case False
    obtain d rest where d: "d \<noteq> []" "buf = d @ rest" "off mod S + length d \<le> S"
      "chunks S off pos buf =
         \<lparr> si_id = int (off div S), si_off = int (off mod S),
           si_data = Some \<lparr> sl_pos = pos, sl_bytes = d \<rparr> \<rparr>
         # chunks S (off + length d) (pos + length d) rest"
      by (rule chunks_step [OF False less.prems(1), of off pos])
    let ?t = "\<lparr> si_id = int (off div S), si_off = int (off mod S),
         si_data = Some \<lparr> sl_pos = pos, sl_bytes = d \<rparr> \<rparr>"
    let ?g = "take (length d) (drop off c)"
    have g: "got ?t st = ?g"
      using holds_got [OF less.prems(2) d(3), of ?t] by (simp add: si_bytes_def)
    have "length rest < length buf" using d by simp
    then have IH: "read_abs (chunks S (off + length d) (pos + length d) rest) st (n + length ?g)
          (overwrite 0 pos ?g dst) =
        (n + length ?g + min (length rest) (length c - (off + length d)),
         overwrite 0 (pos + length d) (take (length rest) (drop (off + length d) c))
           (overwrite 0 pos ?g dst))"
      using less.prems d(2) by (intro less.hyps) auto
    have "overwrite 0 (pos + length d) (take (length rest) (drop (off + length d) c))
        (overwrite 0 pos ?g dst) = overwrite 0 pos (take (length buf) (drop off c)) dst"
    proof (cases "off + length d \<le> length c")
      case True
      then have "take (length buf) (drop off c) = ?g @ take (length rest) (drop (off + length d) c)"
        by (simp add: d(2) take_add add.commute)
      moreover have "length ?g = length d" using True by simp
      ultimately show ?thesis by (simp add: overwrite_append)
    next
      case False
      with less.prems(3) d(2) show ?thesis by (simp add: overwrite_Nil_inside)
    qed
    moreover have "length ?g + min (length rest) (length c - (off + length d)) =
        min (length buf) (length c - off)"
      by (simp add: d(2))
    ultimately show ?thesis
      by (simp only: d(4) read_abs.simps g stripeInfo.select_convs slice.select_convs option.case
          IH add.assoc)
  qed
qed

end
