(* ===== verification/StoreCorrect.thy ===== *)
theory StoreCorrect
  imports Layout
begin

text \<open>
  What the operations of \<open>store.go\<close> do to the stripes of a file, for any servers that
  behave as Redis documents. \<open>file_ok\<close> is the invariant of one file over all instances;
  \<open>stripes\<close> is the abstraction to stripes, and \<open>holds\<close> of \<open>Layout\<close> the one to a flat
  byte string.
\<close>

section \<open>Keys\<close>

lemma append_colon_inj:
  assumes "a @ CHR '':'' # x = b @ CHR '':'' # y" and "CHR '':'' \<notin> set x" and "CHR '':'' \<notin> set y"
  shows "a = b \<and> x = y"
proof -
  have t: "takeWhile (\<lambda>c. c \<noteq> CHR '':'') (rev (a @ CHR '':'' # x)) = rev x"
    if "CHR '':'' \<notin> set x" for a x
  proof -
    have "takeWhile (\<lambda>c. c \<noteq> CHR '':'') (rev x @ CHR '':'' # rev a) = rev x"
      using that by (subst takeWhile_append2) auto
    then show ?thesis by simp
  qed
  have "rev x = rev y" using t [OF assms(2), of a] t [OF assms(3), of b] assms(1) by simp
  with assms(1) show ?thesis by simp
qed

lemma key_inj [simp]: "key n i = key m j \<longleftrightarrow> n = m \<and> i = j"
  using append_colon_inj [of n "itoa i" m "itoa j"] colon_notin_itoa itoa_inj
  by (auto simp: key_def)

lemma stripes_key_inj [simp]: "stripes_key n = stripes_key m \<longleftrightarrow> n = m"
  by (simp add: stripes_key_def)

lemma set_itoa: "c \<in> set (itoa i) \<Longrightarrow> is_digit c \<or> c = CHR ''-''"
  by (auto simp: itoa_def dest!: natoa_digits dest: digit_props split: if_splits)

lemma stripes_not_itoa: "''stripes'' \<noteq> itoa i"
proof
  assume "''stripes'' = itoa i"
  then have "CHR ''s'' \<in> set (itoa i)" by (metis list.set_intros(1))
  then show False by (auto dest!: set_itoa simp: is_digit_def)
qed

lemma key_not_stripes_key [simp]: "key n i \<noteq> stripes_key m" "stripes_key m \<noteq> key n i"
  using append_colon_inj [of n "itoa i" m "''stripes''"] colon_notin_itoa stripes_not_itoa
  by (auto simp: key_def stripes_key_def) metis+

section \<open>The state of a file over the instances\<close>

definition wview :: "('d \<Rightarrow> keyspace) \<Rightarrow> 'd world \<Rightarrow> string \<Rightarrow> keyspace" where
  "wview view w = (\<lambda>a. view (w a))"

definition addrs :: "DataStore \<Rightarrow> string set" where
  "addrs s = set (map snd (clients (redisRing s)))"

text \<open>Every key has a client, as \<open>NewRedisRing_client\<close> shows for a ring of at least one.\<close>

definition ring_total :: "DataStore \<Rightarrow> bool" where
  "ring_total s \<longleftrightarrow> (\<forall>k. \<exists>c \<in> addrs s. GetClient (redisRing s) k = Some c)"

definition home :: "DataStore \<Rightarrow> string \<Rightarrow> string" where
  "home s k = (case GetClient (redisRing s) k of None \<Rightarrow> '''' | Some c \<Rightarrow> c)"

definition stripes :: "DataStore \<Rightarrow> (string \<Rightarrow> keyspace) \<Rightarrow> string \<Rightarrow> int \<Rightarrow> bytes option" where
  "stripes s v name i =
     (case v (home s (key name i)) (key name i) of Some (RStr b) \<Rightarrow> Some b | _ \<Rightarrow> None)"

definition present :: "DataStore \<Rightarrow> (string \<Rightarrow> keyspace) \<Rightarrow> string \<Rightarrow> string \<Rightarrow> int set" where
  "present s v name c =
     {i. 0 \<le> i \<and> home s (key name i) = c \<and> stripes s v name i \<noteq> None}"

definition file_ok :: "DataStore \<Rightarrow> (string \<Rightarrow> keyspace) \<Rightarrow> string \<Rightarrow> bool" where
  "file_ok s v name \<longleftrightarrow>
     (\<forall>i. \<exists>b. str_at (v (home s (key name i))) (key name i) = Some b \<and>
              int (length b) \<le> stripeSize s) \<and>
     (\<forall>c \<in> addrs s. set_at (v c) (stripes_key name) = Some (itoa ` present s v name c)) \<and>
     (\<forall>i. 0 \<le> i \<and> stripes s v name i \<noteq> None \<longrightarrow> in_i64 i)"

text \<open>Nothing but the keys of \<open>name\<close> differs.\<close>

definition same_except :: "string \<Rightarrow> (string \<Rightarrow> keyspace) \<Rightarrow> (string \<Rightarrow> keyspace) \<Rightarrow> bool" where
  "same_except name v v' \<longleftrightarrow>
     (\<forall>a k. k \<noteq> stripes_key name \<and> (\<forall>i. k \<noteq> key name i) \<longrightarrow> v' a k = v a k)"

lemma same_except_refl [simp]: "same_except name v v"
  by (simp add: same_except_def)

lemma same_except_trans:
  "same_except name v v' \<Longrightarrow> same_except name v' v'' \<Longrightarrow> same_except name v v''"
  by (simp add: same_except_def)

lemma same_except_stripes:
  "same_except name v v' \<Longrightarrow> m \<noteq> name \<Longrightarrow> stripes s v' m = stripes s v m"
  by (rule ext) (simp add: same_except_def stripes_def)

lemma same_except_file_ok:
  assumes "same_except name v v'" and "m \<noteq> name" and "file_ok s v m"
  shows "file_ok s v' m"
proof -
  have k: "v' a (key m i) = v a (key m i)" "v' a (stripes_key m) = v a (stripes_key m)" for a i
    using assms(1,2) by (simp_all add: same_except_def)
  have "str_at (v' a) (key m i) = str_at (v a) (key m i)"
    "set_at (v' a) (stripes_key m) = set_at (v a) (stripes_key m)" for a i
    by (simp_all add: str_at_def set_at_def k)
  with assms(3) same_except_stripes [OF assms(1,2)] show ?thesis
    by (simp add: file_ok_def present_def)
qed

lemma home_in: "ring_total s \<Longrightarrow> home s k \<in> addrs s"
  unfolding ring_total_def home_def by (metis option.simps(5))

lemma with_client_home:
  "ring_total s \<Longrightarrow> with_client (redisRing s) k = return (home s k)"
  unfolding ring_total_def home_def with_client_def by (metis option.simps(5))

text \<open>The views after one stripe was written, and after one was removed.\<close>

definition vput :: "DataStore \<Rightarrow> string \<Rightarrow> stripeInfo \<Rightarrow> (string \<Rightarrow> keyspace) \<Rightarrow> string \<Rightarrow> keyspace" where
  "vput s name t v =
     (let h = home s (key name (si_id t)) in
      v(h := (v h)(stripes_key name \<mapsto> RSet (insert (itoa (si_id t)) (itoa ` present s v name h)),
                   key name (si_id t) \<mapsto>
                     RStr (overwrite 0 (nat (si_off t)) (si_bytes t)
                       (old_bytes (stripes s v name) (si_id t))))))"

definition vdel :: "DataStore \<Rightarrow> string \<Rightarrow> int \<Rightarrow> (string \<Rightarrow> keyspace) \<Rightarrow> string \<Rightarrow> keyspace" where
  "vdel s name i v =
     (let h = home s (key name i) in
      v(h := (v h)(stripes_key name := set_entry (itoa ` present s v name h - {itoa i}),
                   key name i := None)))"

lemma stripes_vput: "stripes s (vput s name t v) name = put t (stripes s v name)"
  by (rule ext) (auto simp: stripes_def vput_def put_def Let_def)

lemma stripes_vdel: "stripes s (vdel s name i v) name = (stripes s v name)(i := None)"
  by (rule ext) (auto simp: stripes_def vdel_def Let_def)

lemma same_except_vput: "same_except name v (vput s name t v)"
  by (simp add: same_except_def vput_def Let_def)

lemma same_except_vdel: "same_except name v (vdel s name i v)"
  by (simp add: same_except_def vdel_def Let_def)

lemma str_at_old_bytes:
  "str_at (v (home s (key name i))) (key name i) = Some b \<Longrightarrow> old_bytes (stripes s v name) i = b"
  by (auto simp: str_at_def old_bytes_def stripes_def split: option.splits rvalue.splits)

lemma stripes_length:
  "file_ok s v name \<Longrightarrow> int (length (old_bytes (stripes s v name) i)) \<le> stripeSize s"
  unfolding file_ok_def by (metis str_at_old_bytes)

lemma file_ok_str:
  "file_ok s v name \<Longrightarrow>
     str_at (v (home s (key name i))) (key name i) = Some (old_bytes (stripes s v name) i)"
  unfolding file_ok_def by (metis str_at_old_bytes)

lemma file_ok_set:
  "file_ok s v name \<Longrightarrow> c \<in> addrs s \<Longrightarrow>
     set_at (v c) (stripes_key name) = Some (itoa ` present s v name c)"
  by (simp add: file_ok_def)

text \<open>A stripe that fits: it lies in its stripe and has something to write.\<close>

definition fits :: "DataStore \<Rightarrow> stripeInfo \<Rightarrow> bool" where
  "fits s t \<longleftrightarrow> 0 \<le> si_off t \<and> si_off t + int (length (si_bytes t)) \<le> stripeSize s \<and>
     si_bytes t \<noteq> [] \<and> 0 \<le> si_id t \<and> in_i64 (si_id t)"

lemma itoa_image [simp]: "itoa i \<in> itoa ` A \<longleftrightarrow> i \<in> A"
  using itoa_inj by auto

lemma itoa_image_eq: "itoa ` A = itoa ` B \<longleftrightarrow> A = B"
  using itoa_inj by (metis inj_image_eq_iff injI)

lemma file_ok_vput:
  assumes ok: "file_ok s v name" and fits: "fits s t"
  shows "file_ok s (vput s name t v) name"
proof -
  let ?v = "vput s name t v" and ?h = "home s (key name (si_id t))"
  have str: "\<exists>b. str_at (?v (home s (key name i))) (key name i) = Some b \<and>
      int (length b) \<le> stripeSize s" for i
  proof (cases "i = si_id t")
    case True
    then show ?thesis
      using fits stripes_length [OF ok, of i] by (auto simp: vput_def Let_def str_at_def fits_def)
  next
    case False
    then have "?v a (key name i) = v a (key name i)" for a by (simp add: vput_def Let_def)
    with ok show ?thesis by (simp add: file_ok_def str_at_def)
  qed
  have pres: "present s ?v name c = (if c = ?h then insert (si_id t) (present s v name c)
      else present s v name c)" for c
    using fits by (auto simp: present_def stripes_vput put_def fits_def)
  have "set_at (?v c) (stripes_key name) = Some (itoa ` present s ?v name c)" if "c \<in> addrs s" for c
  proof (cases "c = ?h")
    case True
    then show ?thesis by (simp add: pres) (simp add: vput_def Let_def set_at_def)
  next
    case False
    then have "?v c = v c" by (simp add: vput_def Let_def)
    with ok that False show ?thesis by (simp add: pres file_ok_def)
  qed
  with str ok fits show ?thesis
    by (auto simp: file_ok_def stripes_vput put_def fits_def split: if_splits)
qed

lemma file_ok_vdel:
  assumes ok: "file_ok s v name"
  shows "file_ok s (vdel s name i v) name"
proof -
  let ?v = "vdel s name i v" and ?h = "home s (key name i)"
  have str: "\<exists>b. str_at (?v (home s (key name j))) (key name j) = Some b \<and>
      int (length b) \<le> stripeSize s" for j
  proof (cases "j = i")
    case True
    have "0 \<le> stripeSize s" using stripes_length [OF ok, of i] by linarith
    with True show ?thesis by (simp add: vdel_def Let_def str_at_def)
  next
    case False
    then have "?v a (key name j) = v a (key name j)" for a by (simp add: vdel_def Let_def)
    with ok show ?thesis by (simp add: file_ok_def str_at_def)
  qed
  have pres: "present s ?v name ?h = present s v name ?h - {i}"
    by (auto simp: present_def stripes_vdel)
  have pres': "present s ?v name c = present s v name c" if "c \<noteq> ?h" for c
    using that by (auto simp: present_def stripes_vdel)
  have diff: "itoa ` present s v name ?h - {itoa i} = itoa ` (present s v name ?h - {i})"
    using itoa_inj by auto
  have "set_at (?v c) (stripes_key name) = Some (itoa ` present s ?v name c)" if "c \<in> addrs s" for c
  proof (cases "c = ?h")
    case True
    then have "?v c (stripes_key name) = set_entry (itoa ` (present s v name ?h - {i}))"
      by (simp add: vdel_def Let_def diff)
    with True show ?thesis by (simp add: pres set_at_def set_entry_def)
  next
    case False
    then have "?v c = v c" by (simp add: vdel_def Let_def)
    with ok that show ?thesis by (simp add: pres' [OF False] file_ok_def)
  qed
  with str ok show ?thesis
    by (auto simp: file_ok_def stripes_vdel)
qed

lemma getrange_window:
  assumes "x \<noteq> []" and "0 \<le> off"
  shows "getrange b off (off + int (length x) - 1) = take (length x) (drop (nat off) b)"
proof -
  obtain o' where o': "off = int o'" using assms(2) nonneg_int_cases by blast
  have pos: "0 < length x" using assms(1) by simp
  have e: "\<not> off + int (length x) - 1 < 0" "\<not> off < 0" using assms(2) pos by linarith+
  show ?thesis
  proof (cases "length b \<le> o'")
    case True
    with e show ?thesis by (simp add: getrange_def Let_def o')
  next
    case False
    then have "\<not> (int (length b) = 0 \<or> max 0 off > min (int (length b) - 1) (max 0 (off + int (length x) - 1)))"
      using pos unfolding o' by linarith
    moreover have "take (nat (min (int (length b) - 1) (max 0 (off + int (length x) - 1)) - max 0 off + 1))
        (drop (nat (max 0 off)) b) = take (length x) (drop o' b)"
    proof (cases "o' + length x \<le> length b")
      case True
      then have "min (int (length b) - 1) (max 0 (off + int (length x) - 1)) - max 0 off + 1 = int (length x)"
        using pos unfolding o' by linarith
      then show ?thesis by (simp add: o')
    next
      case False
      then show ?thesis using pos by (simp add: o')
    qed
    ultimately show ?thesis
      unfolding getrange_def Let_def if_not_P [OF e(1)] if_not_P [OF e(2)] by (simp add: o')
  qed
qed

section \<open>One stripe on a Redis server\<close>

context redis_server
begin

lemma do_cmd_run:
  "do_cmd srv c x w = Ok (fst (srv (w c) x), w(c := snd (srv (w c) x)))"
  by (simp add: do_cmd_def split: prod.splits)

lemma wview_upd: "wview view (w(c := d)) = (wview view w)(c := view d)"
  by (simp add: wview_def fun_eq_iff)

lemma Pipe_Flush_run:
  assumes "plain c1" and "plain c2"
  shows "\<exists>d. Pipe_Flush srv (Pipe_Do (Pipe_Do (Pipeline c) c1) c2) w = Ok ((), w(c := d)) \<and>
    view d = view (snd (srv (snd (srv (w c) c1)) c2))"
proof -
  have "list_all plain [c1, c2]" using assms by simp
  then obtain rs where "fst (srv (w c) (EXEC [c1, c2])) = RArray rs"
    using EXEC_reply by blast
  then show ?thesis
    using EXEC2_view [OF assms, of "w c"]
    by (intro exI [of _ "snd (srv (w c) (EXEC [c1, c2]))"])
      (simp add: pipe_defs bnd_def do_cmd_run reply_err_def return_def)
qed

lemma plain_simps [simp]:
  "plain (SADD k m)" "plain (SREM k m)" "plain (SET k v)" "plain (SETRANGE k off v)"
  "plain (UNLINK ks)"
  by (simp_all add: plain_def)

lemma view_two_keys:
  assumes "k1 \<noteq> k2" and "str_at (view d) k2 = Some b"
    and "view d' = (view d)(k1 \<mapsto> RSet S)"
  shows "str_at (view d') k2 = Some b"
  using assms by (simp add: str_at_def)

lemma writeStripe_view:
  assumes R: "server R = srv" and ring: "ring_total s" and max: "stripeSize s \<le> max_redis_string"
    and ok: "file_ok s (wview view w) name" and fits: "fits s t"
  shows "\<exists>w'. writeStripe R s name t w = Ok ((), w') \<and>
    wview view w' = vput s name t (wview view w)"
proof -
  define k where "k = key name (si_id t)"
  define h where "h = home s k"
  define b where "b = old_bytes (stripes s (wview view w) name) (si_id t)"
  define d1 where "d1 = snd (srv (w h) (SADD (stripes_key name) (itoa (si_id t))))"
  have b: "str_at (view (w h)) k = Some b"
    using file_ok_str [OF ok] by (simp add: b_def h_def k_def wview_def)
  have S: "set_at (view (w h)) (stripes_key name) =
      Some (itoa ` present s (wview view w) name h)"
    using file_ok_set [OF ok home_in [OF ring]] by (simp add: wview_def h_def)
  have d1: "view d1 = (view (w h))(stripes_key name \<mapsto>
      RSet (insert (itoa (si_id t)) (itoa ` present s (wview view w) name h)))"
    using SADD_view [OF S] by (simp add: d1_def)
  have b1: "str_at (view d1) k = Some b"
    using view_two_keys [OF _ b d1] by (simp add: k_def)
  let ?c2 = "if si_off t = 0 \<and> int (length (si_bytes t)) = stripeSize s
    then SET k (si_bytes t) else SETRANGE k (si_off t) (si_bytes t)"
  have d2: "view (snd (srv d1 ?c2)) =
      (view d1)(k \<mapsto> RStr (overwrite 0 (nat (si_off t)) (si_bytes t) b))"
  proof (cases "si_off t = 0 \<and> int (length (si_bytes t)) = stripeSize s")
    case True
    with stripes_length [OF ok, of "si_id t"] have "length b \<le> length (si_bytes t)"
      by (simp add: b_def)
    with True show ?thesis by (simp add: SET_view overwrite_all)
  next
    case False
    then have "?c2 = SETRANGE k (si_off t) (si_bytes t)" by (rule if_not_P)
    then show ?thesis
      using SETRANGE_view [OF b1, of "si_off t" "si_bytes t"] fits max
      by (simp add: fits_def)
  qed
  have "plain ?c2" by simp
  then obtain d where d: "Pipe_Flush srv (Pipe_Do (Pipe_Do (Pipeline h)
        (SADD (stripes_key name) (itoa (si_id t)))) ?c2) w = Ok ((), w(h := d))"
      "view d = view (snd (srv d1 ?c2))"
    using Pipe_Flush_run [of "SADD (stripes_key name) (itoa (si_id t))" ?c2 h w]
    unfolding d1_def by (metis plain_simps(1))
  have "writeStripe R s name t w = Ok ((), w(h := d))"
    using d(1) by (cases "si_off t = 0 \<and> int (length (si_bytes t)) = stripeSize s")
      (auto simp: writeStripe_def Let_def R with_client_home [OF ring] simp flip: h_def k_def)
  moreover have "wview view (w(h := d)) = vput s name t (wview view w)"
    by (simp add: wview_upd d(2) d2 d1 vput_def Let_def flip: h_def k_def b_def)
      (simp add: wview_def)
  ultimately show ?thesis by blast
qed

lemma removeStripe_view:
  assumes R: "server R = srv" and ring: "ring_total s" and ok: "file_ok s (wview view w) name"
  shows "\<exists>w'. removeStripe R s name i w = Ok ((), w') \<and>
    wview view w' = vdel s name i (wview view w)"
proof -
  define k where "k = key name i"
  define h where "h = home s k"
  define d1 where "d1 = snd (srv (w h) (SREM (stripes_key name) (itoa i)))"
  have S: "set_at (view (w h)) (stripes_key name) =
      Some (itoa ` present s (wview view w) name h)"
    using file_ok_set [OF ok home_in [OF ring]] by (simp add: wview_def h_def)
  have d1: "view d1 = (view (w h))(stripes_key name :=
      set_entry (itoa ` present s (wview view w) name h - {itoa i}))"
    using SREM_view [OF S] by (simp add: d1_def)
  have d2: "view (snd (srv d1 (UNLINK [k]))) = (view d1)(k := None)"
    by (simp add: UNLINK_view fun_eq_iff)
  obtain d where d: "Pipe_Flush srv (Pipe_Do (Pipe_Do (Pipeline h)
        (SREM (stripes_key name) (itoa i))) (UNLINK [k])) w = Ok ((), w(h := d))"
      "view d = view (snd (srv d1 (UNLINK [k])))"
    using Pipe_Flush_run [of "SREM (stripes_key name) (itoa i)" "UNLINK [k]" h w]
    by (auto simp: d1_def)
  have "removeStripe R s name i w = Ok ((), w(h := d))"
    using d(1) by (simp add: removeStripe_def Let_def R with_client_home [OF ring] h_def k_def)
  moreover have "wview view (w(h := d)) = vdel s name i (wview view w)"
    by (simp add: wview_upd d(2) d2 d1 vdel_def Let_def flip: h_def k_def)
      (simp add: wview_def)
  ultimately show ?thesis by blast
qed

section \<open>All stripes of a call\<close>

text \<open>
  The result of a file operation on the world \<open>w\<close>: the invariant of the file holds again,
  its stripes are \<open>st\<close>, and no key of another file or directory has changed.
\<close>

lemma writeStripes_run:
  assumes R: "server R = srv" and ring: "ring_total s" and max: "stripeSize s \<le> max_redis_string"
  shows "file_ok s (wview view w) name \<Longrightarrow> \<forall>t \<in> set ts. fits s t \<Longrightarrow>
    \<exists>w'. go_all (map (writeStripe R s name) ts) w = Ok ((), w') \<and>
      file_ok s (wview view w') name \<and>
      stripes s (wview view w') name = fold put ts (stripes s (wview view w) name) \<and>
      same_except name (wview view w) (wview view w')"
proof (induction ts arbitrary: w)
  case Nil
  then show ?case by (simp add: return_def)
next
  case (Cons t ts)
  from Cons.prems obtain w1 where w1: "writeStripe R s name t w = Ok ((), w1)"
    "wview view w1 = vput s name t (wview view w)"
    using writeStripe_view [OF R ring max Cons.prems(1)] by auto
  with Cons.prems have "file_ok s (wview view w1) name" by (simp add: file_ok_vput)
  with Cons.IH [of w1] Cons.prems(2) obtain w' where
    "go_all (map (writeStripe R s name) ts) w1 = Ok ((), w')"
    "file_ok s (wview view w') name"
    "stripes s (wview view w') name = fold put ts (stripes s (wview view w1) name)"
    "same_except name (wview view w1) (wview view w')"
    by auto
  with w1 show ?case
    using same_except_trans [OF same_except_vput]
    by (simp add: bnd_def stripes_vput)
qed

lemma removeStripes_run:
  assumes R: "server R = srv" and ring: "ring_total s"
  shows "file_ok s (wview view w) name \<Longrightarrow>
    \<exists>w'. go_all (map (removeStripe R s name) is) w = Ok ((), w') \<and>
      file_ok s (wview view w') name \<and>
      stripes s (wview view w') name =
        (\<lambda>i. if i \<in> set is then None else stripes s (wview view w) name i) \<and>
      same_except name (wview view w) (wview view w')"
proof (induction "is" arbitrary: w)
  case Nil
  then show ?case by (simp add: return_def)
next
  case (Cons i "is")
  obtain w1 where w1: "removeStripe R s name i w = Ok ((), w1)"
    "wview view w1 = vdel s name i (wview view w)"
    using removeStripe_view [OF R ring Cons.prems] by auto
  with Cons.prems have "file_ok s (wview view w1) name" by (simp add: file_ok_vdel)
  with Cons.IH [of w1] obtain w' where
    "go_all (map (removeStripe R s name) is) w1 = Ok ((), w')"
    "file_ok s (wview view w') name"
    "stripes s (wview view w') name =
       (\<lambda>i. if i \<in> set is then None else stripes s (wview view w1) name i)"
    "same_except name (wview view w1) (wview view w')"
    by auto
  with w1 show ?case
    using same_except_trans [OF same_except_vdel]
    by (auto simp: bnd_def stripes_vdel)
qed

text \<open>Reads leave the keyspace as it is.\<close>

lemma readStripe_view:
  assumes R: "server R = srv" and ring: "ring_total s"
    and ok: "file_ok s (wview view w) name" and fits: "fits s t" and sl: "si_data t = Some sl"
  shows "\<exists>w'. readStripe R s name t w =
      Ok ((int (length (got t (stripes s (wview view w) name))),
           got t (stripes s (wview view w) name)), w') \<and>
    wview view w' = wview view w"
proof -
  define k where "k = key name (si_id t)"
  define h where "h = home s k"
  define b where "b = old_bytes (stripes s (wview view w) name) (si_id t)"
  have b: "str_at (view (w h)) k = Some b"
    using file_ok_str [OF ok] by (simp add: b_def h_def k_def wview_def)
  have lb: "int (length b) \<le> stripeSize s" using stripes_length [OF ok] by (simp add: b_def)
  have bytes: "si_bytes t = sl_bytes sl" by (simp add: si_bytes_def sl)
  let ?g = "got t (stripes s (wview view w) name)"
  have g: "?g = take (length (si_bytes t)) (drop (nat (si_off t)) b)"
    by (simp add: got_def b_def)
  show ?thesis
  proof (cases "si_off t = 0 \<and> int (length (si_bytes t)) = stripeSize s")
    case True
    with lb have gb: "?g = b" by (simp add: g)
    let ?w = "w(h := snd (srv (w h) (GET k)))"
    have "client_GetInto srv h k (Some (length (sl_bytes sl))) w =
        Ok (if view (w h) k = None then (0, [], Some ErrRedisKeyNotFound)
            else (int (length b), b, None), ?w)"
      using GET_reply [OF b] lb True
      by (simp add: client_GetInto_def bnd_def do_cmd_run read_into_def return_def bytes)
    moreover have "view (w h) k = None \<Longrightarrow> b = []" using b by (simp add: str_at_def)
    ultimately have "readStripe R s name t w = Ok ((int (length ?g), ?g), ?w)"
      using True by (auto simp: readStripe_def Let_def R with_client_home [OF ring] sl bytes gb
          bnd_def return_def simp flip: h_def k_def)
    moreover have "wview view ?w = wview view w"
      by (simp add: wview_upd GET_view) (simp add: wview_def fun_eq_iff)
    ultimately show ?thesis by blast
  next
    case False
    let ?w = "w(h := snd (srv (w h) (GETRANGE k (si_off t) (si_off t + int (length (si_bytes t)) - 1))))"
    have rng: "getrange b (si_off t) (si_off t + int (length (si_bytes t)) - 1) = ?g"
      using fits getrange_window [of "si_bytes t" "si_off t" b] by (simp add: g fits_def)
    have "client_GetRangeInto srv h k (si_off t) (si_off t + int (length (si_bytes t)) - 1)
          (Some (length (sl_bytes sl))) w = Ok ((int (length ?g), ?g, None), ?w)"
      using GETRANGE_reply [OF b]
      by (simp add: client_GetRangeInto_def bnd_def do_cmd_run read_into_def return_def rng)
        (simp add: g bytes)
    then have "readStripe R s name t w = Ok ((int (length ?g), ?g), ?w)"
      using False by (auto simp: readStripe_def Let_def R with_client_home [OF ring] sl
          bnd_def return_def bytes simp flip: h_def k_def)
    moreover have "wview view ?w = wview view w"
      by (simp add: wview_upd GETRANGE_view) (simp add: wview_def fun_eq_iff)
    ultimately show ?thesis by blast
  qed
qed

section \<open>The last stripe and the size\<close>

lemma readStripes_run:
  assumes R: "server R = srv" and ring: "ring_total s"
  shows "file_ok s (wview view w) name \<Longrightarrow> \<forall>t \<in> set ts. fits s t \<and> si_data t \<noteq> None \<Longrightarrow>
    int n + sum_list (map (\<lambda>t. int (length (si_bytes t))) ts) < 2 ^ 63 \<Longrightarrow>
    \<exists>w'. read_stripes R s name ts (int n) dst w =
        Ok (case read_abs ts (stripes s (wview view w) name) n dst of (m, d) \<Rightarrow> (int m, d), w') \<and>
      wview view w' = wview view w"
proof (induction ts arbitrary: w n dst)
  case Nil
  then show ?case by (simp add: return_def)
next
  case (Cons t ts)
  let ?g = "got t (stripes s (wview view w) name)"
  from Cons.prems(2) obtain sl where sl: "si_data t = Some sl" by auto
  with Cons.prems(2) obtain w1 where w1: "readStripe R s name t w = Ok ((int (length ?g), ?g), w1)"
    "wview view w1 = wview view w"
    using readStripe_view [OF R ring Cons.prems(1), of t sl] by auto
  have lg: "length ?g \<le> length (si_bytes t)" by (simp add: got_def)
  have pos: "0 \<le> sum_list (map (\<lambda>t. int (length (si_bytes t))) ts)"
    by (rule sum_list_nonneg) auto
  have sum: "int n + int (length (si_bytes t)) +
      sum_list (map (\<lambda>t. int (length (si_bytes t))) ts) < 2 ^ 63"
    using Cons.prems(3) by simp
  have wrap: "i64 (int n + int (length ?g)) = int (n + length ?g)"
    using lg pos sum by (subst i64_nonneg) auto
  have "int (n + length ?g) + sum_list (map (\<lambda>t. int (length (si_bytes t))) ts) < 2 ^ 63"
    using lg sum by simp
  with Cons.IH [of w1 "n + length ?g" "overwrite 0 (sl_pos sl) ?g dst"] Cons.prems w1(2)
  obtain w' where "read_stripes R s name ts (int (n + length ?g)) (overwrite 0 (sl_pos sl) ?g dst) w1 =
      Ok (case read_abs ts (stripes s (wview view w) name) (n + length ?g)
            (overwrite 0 (sl_pos sl) ?g dst) of (m, d) \<Rightarrow> (int m, d), w')"
    "wview view w' = wview view w"
    by auto
  with w1 show ?case by (auto simp: bnd_def sl wrap)
qed

lemma SMEMBERS_run:
  assumes ok: "file_ok s (wview view w) name" and c: "c \<in> addrs s"
  shows "\<exists>ids w'. do_cmd srv c (SMEMBERS (stripes_key name)) w = Ok (RMembers (map itoa ids), w') \<and>
    set ids = present s (wview view w) name c \<and> wview view w' = wview view w"
proof -
  from file_ok_set [OF ok c]
  have "set_at (view (w c)) (stripes_key name) = Some (itoa ` present s (wview view w) name c)"
    by (simp add: wview_def)
  from SMEMBERS_reply [OF this] obtain l where l: "fst (srv (w c) (SMEMBERS (stripes_key name))) = RMembers l"
    "set l = itoa ` present s (wview view w) name c" by blast
  then have "set l \<subseteq> range itoa" by auto
  then obtain ids where ids: "l = map itoa ids"
    by (metis ex_map_conv rangeE subsetD)
  with l(2) have "itoa ` set ids = itoa ` present s (wview view w) name c" by simp
  then have "set ids = present s (wview view w) name c" by (simp add: itoa_image_eq)
  moreover have "wview view (w(c := snd (srv (w c) (SMEMBERS (stripes_key name))))) = wview view w"
    by (simp add: wview_upd SMEMBERS_view) (simp add: wview_def fun_eq_iff)
  ultimately show ?thesis using l(1) ids by (simp add: do_cmd_run) blast
qed

end

lemma parse_ints_itoa: "\<forall>i \<in> set ids. in_i64 i \<Longrightarrow> parse_ints (map itoa ids) = (ids, None)"
  by (induction ids) (simp_all add: parse_int_itoa)

lemma max_id_Max: "max_id ids = Max (insert (- 1) (set ids))"
proof -
  have "foldl (\<lambda>m i. if i > m then i else m) a ids = Max (insert a (set ids))" for a
  proof (induction ids arbitrary: a)
    case (Cons x ids)
    have "(if x > a then x else a) = max a x" by auto
    with Cons show ?case
      by (cases "ids = []") (simp_all add: insert_commute max.assoc)
  qed simp
  then show ?thesis by (simp add: max_id_def)
qed

text \<open>The largest stripe of a file, \<open>-1\<close> if it has none.\<close>

definition last_stripe :: "(int \<Rightarrow> bytes option) \<Rightarrow> int" where
  "last_stripe st = Max (insert (- 1) {i. 0 \<le> i \<and> st i \<noteq> None})"

context redis_server
begin

lemma gather_max_run:
  assumes R: "server R = srv"
  shows "file_ok s (wview view w) name \<Longrightarrow> set cs \<subseteq> addrs s \<Longrightarrow>
    \<exists>w'. gather_max R name cs w =
        Ok (map (\<lambda>c. Max (insert (- 1) (present s (wview view w) name c))) cs, w') \<and>
      wview view w' = wview view w \<and> (\<forall>c \<in> set cs. finite (present s (wview view w) name c))"
proof (induction cs arbitrary: w)
  case Nil
  then show ?case by (simp add: return_def)
next
  case (Cons c cs)
  then obtain ids w1 where w1: "do_cmd srv c (SMEMBERS (stripes_key name)) w = Ok (RMembers (map itoa ids), w1)"
    "set ids = present s (wview view w) name c" "wview view w1 = wview view w"
    using SMEMBERS_run [of s w name c] by auto
  have "\<forall>i \<in> set ids. in_i64 i"
    using Cons.prems(1) by (auto simp: w1(2) present_def file_ok_def)
  then have ids: "redis_Int64s (RMembers (map itoa ids)) = (ids, None)"
    by (simp add: redis_Int64s_def parse_ints_itoa)
  from Cons.IH [of w1] Cons.prems w1(3) obtain w' where
    "gather_max R name cs w1 =
        Ok (map (\<lambda>c. Max (insert (- 1) (present s (wview view w) name c))) cs, w')"
    "wview view w' = wview view w" "\<forall>c \<in> set cs. finite (present s (wview view w) name c)"
    by auto
  moreover have "finite (present s (wview view w) name c)"
    by (simp flip: w1(2))
  ultimately show ?case
    by (simp add: R w1(1) ids bnd_def return_def max_id_Max w1(2))
qed

lemma searchLastStripe_run:
  assumes R: "server R = srv" and ring: "ring_total s" and ok: "file_ok s (wview view w) name"
  shows "\<exists>w'. searchLastStripe R s name w = Ok (last_stripe (stripes s (wview view w) name), w') \<and>
    wview view w' = wview view w"
proof -
  let ?cs = "map snd (clients (redisRing s))"
  let ?P = "present s (wview view w) name"
  have cs: "set ?cs = addrs s" by (simp add: addrs_def)
  then obtain w' where w': "gather_max R name ?cs w =
      Ok (map (\<lambda>c. Max (insert (- 1) (?P c))) ?cs, w')"
    "wview view w' = wview view w" and fin: "\<forall>c \<in> addrs s. finite (?P c)"
    using gather_max_run [OF R ok, of ?cs] by auto
  have all: "(\<Union>c \<in> addrs s. ?P c) = {i. 0 \<le> i \<and> stripes s (wview view w) name i \<noteq> None}"
    using home_in [OF ring] by (auto simp: present_def)
  have finA: "finite (addrs s)" by (simp add: addrs_def)
  have "Max (insert (- 1) ((\<lambda>c. Max (insert (- 1) (?P c))) ` addrs s)) =
      Max (insert (- 1) (\<Union>c \<in> addrs s. ?P c))" (is "?l = ?r")
  proof (rule antisym)
    show "?l \<le> ?r" using finA fin
      by (subst Max_le_iff) (auto intro!: Max_ge)
    have "x \<le> ?l" if "c \<in> addrs s" "x \<in> ?P c" for c x
    proof -
      have "x \<le> Max (insert (- 1) (?P c))" using that fin by (intro Max_ge) auto
      also have "\<dots> \<le> ?l" using that finA by (intro Max_ge) auto
      finally show ?thesis .
    qed
    moreover have "- 1 \<le> ?l" using finA by (intro Max_ge) auto
    ultimately show "?r \<le> ?l" using finA fin by (subst Max_le_iff) auto
  qed
  moreover have "set (map (\<lambda>c. Max (insert (- 1) (?P c))) ?cs) =
      (\<lambda>c. Max (insert (- 1) (?P c))) ` addrs s"
    unfolding cs [symmetric] by (rule set_map)
  ultimately have "max_id (map (\<lambda>c. Max (insert (- 1) (?P c))) ?cs) =
      last_stripe (stripes s (wview view w) name)"
    unfolding max_id_Max last_stripe_def all by simp
  with w' show ?thesis
    by (simp add: searchLastStripe_def bnd_def return_def)
qed

end

section \<open>Files as byte strings\<close>

text \<open>
  \<open>file_holds s v name c\<close>: on the instances \<open>v\<close>, the file \<open>name\<close> is well formed and its
  content is \<open>c\<close>, with no hole.
\<close>

definition file_holds :: "DataStore \<Rightarrow> (string \<Rightarrow> keyspace) \<Rightarrow> string \<Rightarrow> bytes \<Rightarrow> bool" where
  "file_holds s v name c \<longleftrightarrow>
     file_ok s v name \<and> holds (nat (stripeSize s)) (stripes s v name) c"

text \<open>What every store operation needs: a total ring and a usable stripe size.\<close>

definition store_ok :: "DataStore \<Rightarrow> bool" where
  "store_ok s \<longleftrightarrow> ring_total s \<and> 0 < stripeSize s \<and> stripeSize s \<le> max_redis_string"

lemma file_holds_unique:
  "store_ok s \<Longrightarrow> file_holds s v name c \<Longrightarrow> file_holds s v name c' \<Longrightarrow> c = c'"
  by (auto simp: file_holds_def store_ok_def intro: holds_unique)

lemma file_holds_other:
  "same_except name v v' \<Longrightarrow> m \<noteq> name \<Longrightarrow> file_holds s v m c \<Longrightarrow> file_holds s v' m c"
  by (auto simp: file_holds_def same_except_stripes intro: same_except_file_ok)

text \<open>A file nobody wrote: no key of its own anywhere.\<close>

lemma file_holds_fresh:
  assumes "store_ok s" and "\<And>a i. v a (key name i) = None" and "\<And>a. v a (stripes_key name) = None"
  shows "file_holds s v name []"
  using assms
  by (auto simp: file_holds_def file_ok_def holds_def stripes_def present_def str_at_def set_at_def
      store_ok_def)

lemma last_stripe_holds:
  assumes "0 < S" and "holds S st c"
  shows "last_stripe st = (if c = [] then - 1 else int ((length c - 1) div S))"
proof -
  have pres: "{i. 0 \<le> i \<and> st i \<noteq> None} = int ` {i. i * S < length c}"
  proof -
    have "st (int i) \<noteq> None \<longleftrightarrow> i * S < length c" for i
      using assms(2) by (simp add: holds_def)
    then show ?thesis by (auto simp: image_def) (metis nonneg_int_cases option.distinct(1))+
  qed
  show ?thesis
  proof (cases "c = []")
    case True
    then show ?thesis unfolding last_stripe_def pres by simp
  next
    case False
    have "{i. i * S < length c} = {..(length c - 1) div S}"
    proof -
      have "i * S < length c \<longleftrightarrow> i \<le> (length c - 1) div S" for i
      proof -
        have "i * S < length c \<longleftrightarrow> i * S \<le> length c - 1" using False by (cases c) auto
        also have "\<dots> \<longleftrightarrow> i \<le> (length c - 1) div S"
          using assms(1) by (simp add: less_eq_div_iff_mult_less_eq)
        finally show ?thesis .
      qed
      then show ?thesis by auto
    qed
    moreover have "Max (insert (- 1) (int ` {..n})) = int n" for n
      by (rule Max_eqI) auto
    ultimately show ?thesis unfolding last_stripe_def pres using False by simp
  qed
qed

text \<open>The stripes of a cut fit their stripes, and have numbers that fit an \<open>int64\<close>.\<close>

lemma chunks_fits:
  assumes "store_ok s" and "off + length data < 2 ^ 63"
    and t: "t \<in> set (chunks (nat (stripeSize s)) off pos data)"
  shows "fits s t \<and> si_data t \<noteq> None"
proof -
  let ?S = "nat (stripeSize s)"
  have S: "0 < ?S" "int ?S = stripeSize s" using assms(1) by (auto simp: store_ok_def)
  note b = chunks_bounds [OF S(1) t]
  have "si_id t * 1 \<le> si_id t * int ?S" using b S(1) by (intro mult_left_mono) auto
  with b have "si_id t < int (off + length data)" by linarith
  with assms(2) have "in_i64 (si_id t)" using b by (simp add: in_i64_def)
  with b S(2) show ?thesis by (auto simp: fits_def si_bytes_def split: option.splits)
qed

context redis_server
begin

lemma WriteAt_run:
  assumes R: "server R = srv" and s: "store_ok s" and c: "file_holds s (wview view w) name c"
    and off: "off \<le> length c" and range: "off + length data < 2 ^ 63"
    and few: "few_stripes (nat (stripeSize s)) off (length data)"
  shows "\<exists>w'. WriteAt R s name (int off) data w = Ok ((), w') \<and>
    file_holds s (wview view w') name (overwrite 0 off data c) \<and>
    same_except name (wview view w) (wview view w')"
proof -
  let ?S = "nat (stripeSize s)"
  let ?ts = "chunks ?S off 0 data"
  have S: "0 < ?S" "int ?S = stripeSize s" and ring: "ring_total s"
    and max: "stripeSize s \<le> max_redis_string"
    using s by (auto simp: store_ok_def)
  have layout: "stripeLayout R (stripeSize s) (int off) data = Ok ?ts"
    using stripeLayout_chunks [OF S(1) range few, of R] unfolding S(2) .
  have "\<forall>t \<in> set ?ts. fits s t" using chunks_fits [OF s range] by blast
  with writeStripes_run [OF R ring max] c obtain w' where
    "go_all (map (writeStripe R s name) ?ts) w = Ok ((), w')"
    "file_ok s (wview view w') name"
    "stripes s (wview view w') name = fold put ?ts (stripes s (wview view w) name)"
    "same_except name (wview view w) (wview view w')"
    unfolding file_holds_def by blast
  then show ?thesis
    using c holds_write [OF S(1) _ off]
    by (simp add: WriteAt_def layout lift_res_def bnd_def file_holds_def)
qed

lemma sum_list_chunks:
  "0 < S \<Longrightarrow> sum_list (map (\<lambda>t. int (length (si_bytes t))) (chunks S off pos data)) = int (length data)"
proof -
  assume "0 < S"
  then have "length (concat (map si_bytes (chunks S off pos data))) = length data"
    by (simp add: chunks_concat)
  moreover have "sum_list (map (\<lambda>t. int (length (si_bytes t))) ts) =
      int (length (concat (map si_bytes ts)))" for ts
    by (induction ts) simp_all
  ultimately show ?thesis by simp
qed

lemma ReadAt_run:
  assumes R: "server R = srv" and s: "store_ok s" and c: "file_holds s (wview view w) name c"
    and range: "off + length dst < 2 ^ 63"
    and few: "few_stripes (nat (stripeSize s)) off (length dst)"
  shows "\<exists>w'. ReadAt R s name (int off) dst w =
      Ok ((int (min (length dst) (length c - off)),
           overwrite 0 0 (take (length dst) (drop off c)) dst), w') \<and>
    wview view w' = wview view w"
proof -
  let ?S = "nat (stripeSize s)"
  let ?ts = "chunks ?S off 0 dst"
  have S: "0 < ?S" "int ?S = stripeSize s" and ring: "ring_total s"
    using s by (auto simp: store_ok_def)
  have layout: "stripeLayout R (stripeSize s) (int off) dst = Ok ?ts"
    using stripeLayout_chunks [OF S(1) range few, of R] unfolding S(2) .
  have "\<forall>t \<in> set ?ts. fits s t \<and> si_data t \<noteq> None" using chunks_fits [OF s range] by blast
  moreover have "int 0 + sum_list (map (\<lambda>t. int (length (si_bytes t))) ?ts) < 2 ^ 63"
    using range sum_list_chunks [OF S(1), of off 0 dst] by simp
  ultimately obtain w' where w': "read_stripes R s name ?ts (int 0) dst w =
      Ok (case read_abs ?ts (stripes s (wview view w) name) 0 dst of (m, d) \<Rightarrow> (int m, d), w')"
    "wview view w' = wview view w"
    using readStripes_run [OF R ring] c unfolding file_holds_def by blast
  have "read_abs ?ts (stripes s (wview view w) name) 0 dst =
      (min (length dst) (length c - off), overwrite 0 0 (take (length dst) (drop off c)) dst)"
    using holds_read [OF S(1), of "stripes s (wview view w) name" c 0 dst dst off 0] c
    by (simp add: file_holds_def)
  with w' show ?thesis
    by (simp add: ReadAt_def layout lift_res_def bnd_def)
qed

lemma GetSize_run:
  assumes R: "server R = srv" and s: "store_ok s" and c: "file_holds s (wview view w) name c"
    and range: "length c < 2 ^ 63"
  shows "\<exists>w'. GetSize R s name w = Ok (int (length c), w') \<and> wview view w' = wview view w"
proof -
  let ?S = "nat (stripeSize s)"
  let ?st = "stripes s (wview view w) name"
  have S: "0 < ?S" "int ?S = stripeSize s" and ring: "ring_total s"
    using s by (auto simp: store_ok_def)
  have ok: "file_ok s (wview view w) name" and holds: "holds ?S ?st c"
    using c by (auto simp: file_holds_def)
  obtain w1 where w1: "searchLastStripe R s name w = Ok (last_stripe ?st, w1)"
    "wview view w1 = wview view w"
    using searchLastStripe_run [OF R ring ok] by blast
  show ?thesis
  proof (cases "c = []")
    case True
    with w1 show ?thesis
      by (simp add: GetSize_def bnd_def return_def last_stripe_holds [OF S(1) holds])
  next
    case False
    define i where "i = (length c - 1) div ?S"
    define k where "k = key name (int i)"
    define h where "h = home s k"
    define l where "l = length (take ?S (drop (i * ?S) c))"
    have last: "last_stripe ?st = int i"
      using False last_stripe_holds [OF S(1) holds] by (simp add: i_def)
    have b: "str_at (view (w1 h)) k = Some (take ?S (drop (i * ?S) c))"
      using file_ok_str [OF ok, of "int i"] holds_old_bytes [OF holds, of i] w1(2)
      by (simp add: h_def k_def) (metis wview_def)
    have le: "i * ?S \<le> length c - 1" by (simp add: i_def)
    have lt: "length c - 1 < i * ?S + ?S"
      using mod_less_divisor [OF S(1), of "length c - 1"]
        div_mult_mod_eq [of "length c - 1" ?S] unfolding i_def by linarith
    have sz: "i * ?S + l = length c"
    proof -
      have "length c - i * ?S \<le> ?S" and "i * ?S \<le> length c" using le lt by linarith+
      then show ?thesis by (simp add: l_def)
    qed
    have "int i * stripeSize s + int l = int (length c)"
      using arg_cong [OF sz, of int] by (simp only: of_nat_add of_nat_mult S(2))
    then have wrap: "i64 (int i * stripeSize s + int l) = int (length c)"
      using range by (simp only: i64_nonneg of_nat_0_le_iff) (simp add: i64_nonneg)
    let ?w = "w1(h := snd (srv (w1 h) (STRLEN k)))"
    have "client_Strlen srv h k w1 = Ok ((int l, None), ?w)"
      using STRLEN_reply [OF b] unfolding l_def
      by (simp add: client_Strlen_def bnd_def do_cmd_run return_def redis_Int_def not_found_def)
    then have "GetSize R s name w = Ok (int (length c), ?w)"
      using w1(1) wrap by (simp add: GetSize_def bnd_def return_def last Let_def R
          with_client_home [OF ring] flip: k_def h_def)
    moreover have "wview view ?w = wview view w"
      by (simp add: wview_upd STRLEN_view w1(2) [symmetric]) (simp add: wview_def fun_eq_iff)
    ultimately show ?thesis by blast
  qed
qed

lemma Remove_run:
  assumes R: "server R = srv" and s: "store_ok s" and c: "file_holds s (wview view w) name c"
  shows "\<exists>w'. Remove R s name w = Ok ((), w') \<and>
    file_holds s (wview view w') name [] \<and> same_except name (wview view w) (wview view w')"
proof -
  let ?S = "nat (stripeSize s)"
  let ?st = "stripes s (wview view w) name"
  have S: "0 < ?S" and ring: "ring_total s" using s by (auto simp: store_ok_def)
  have ok: "file_ok s (wview view w) name" and holds: "holds ?S ?st c"
    using c by (auto simp: file_holds_def)
  obtain w1 where w1: "searchLastStripe R s name w = Ok (last_stripe ?st, w1)"
    "wview view w1 = wview view w"
    using searchLastStripe_run [OF R ring ok] by blast
  with ok have "file_ok s (wview view w1) name" by simp
  from removeStripes_run [OF R ring this, of "[0..last_stripe ?st]", unfolded w1(2)]
  obtain w' where w':
    "go_all (map (removeStripe R s name) [0..last_stripe ?st]) w1 = Ok ((), w')"
    "file_ok s (wview view w') name"
    "stripes s (wview view w') name =
       (\<lambda>i. if i \<in> set [0..last_stripe ?st] then None else ?st i)"
    "same_except name (wview view w) (wview view w')"
    by blast
  have "?st (int i) = None" if "int i > last_stripe ?st" for i
  proof -
    have "\<not> i * ?S < length c"
    proof (cases "c = []")
      case False
      with that have "(length c - 1) div ?S < i" using last_stripe_holds [OF S holds] by simp
      then have "length c - 1 < i * ?S" using S by (simp add: div_less_iff_less_mult)
      then show ?thesis by simp
    qed simp
    then show ?thesis using holds by (simp add: holds_def)
  qed
  then have "holds ?S (stripes s (wview view w') name) []"
    by (auto simp: w'(3) holds_def)
  with w' w1(1) show ?thesis
    by (simp add: Remove_def bnd_def file_holds_def)
qed

end

end
