(* ===== verification/StoreResize.thy ===== *)
theory StoreResize
  imports StoreCorrect
begin

text \<open>
  \<open>Resize\<close> of \<open>src/go/redisfs/store.go\<close>, and the schedules of the goroutines that the
  store's operations start.
\<close>

section \<open>The order of the goroutines does not matter\<close>

lemma fold_put_other:
  "i \<notin> si_id ` set ts \<Longrightarrow> fold put ts st i = st i"
  by (induction ts arbitrary: st) (auto simp: put_def)

lemma fold_put_at:
  "distinct (map si_id ts) \<Longrightarrow> t \<in> set ts \<Longrightarrow> fold put ts st (si_id t) = put t st (si_id t)"
proof (induction ts arbitrary: st)
  case (Cons u ts)
  show ?case
  proof (cases "t = u")
    case True
    with Cons.prems show ?thesis by (simp add: fold_put_other)
  next
    case False
    with Cons.prems have t: "t \<in> set ts" by simp
    have ne: "si_id t \<noteq> si_id u"
    proof
      assume "si_id t = si_id u"
      with t have "si_id u \<in> set (map si_id ts)" by (metis imageI set_map)
      with Cons.prems(1) show False by simp
    qed
    from t Cons.IH [of "put u st"] Cons.prems
    have "fold put ts (put u st) (si_id t) = put t (put u st) (si_id t)" by simp
    also have "\<dots> = put t st (si_id t)" using ne by (simp add: put_def old_bytes_def)
    finally show ?thesis by simp
  qed
qed simp

lemma fold_put_mset:
  assumes "mset ts' = mset ts" and "distinct (map si_id ts)"
  shows "fold put ts' st = fold put ts st"
proof
  fix i
  have set: "set ts' = set ts" using assms(1) by (rule mset_eq_setD)
  have d: "distinct (map si_id ts')"
    using assms by (metis mset_map distinct_count_atmost_1 mset_eq_imp_distinct_iff)
  show "fold put ts' st i = fold put ts st i"
  proof (cases "i \<in> si_id ` set ts")
    case True
    then obtain t where "t \<in> set ts" "i = si_id t" by auto
    with set d assms(2) show ?thesis by (simp add: fold_put_at)
  next
    case False
    with set show ?thesis by (simp add: fold_put_other)
  qed
qed

lemma mset_map_schedule: "mset qs = mset (map f ts) \<Longrightarrow> \<exists>ts'. qs = map f ts' \<and> mset ts' = mset ts"
proof (induction qs arbitrary: ts)
  case (Cons q qs)
  then have "q \<in> set (map f ts)" by (metis list.set_intros(1) mset_eq_setD)
  then obtain t where t: "t \<in> set ts" "q = f t" by auto
  then obtain a b where ab: "ts = a @ t # b" by (meson split_list)
  with Cons.prems t have "mset qs = mset (map f (a @ b))" by simp
  from Cons.IH [OF this] obtain ts' where "qs = map f ts'" "mset ts' = mset (a @ b)" by blast
  then show ?case using ab t by (intro exI [of _ "t # ts'"]) simp
qed simp

context redis_server
begin

lemma WriteAt_schedules:
  assumes R: "server R = srv" and s: "store_ok s" and c: "file_holds s (wview view w) name c"
    and off: "off \<le> length c" and range: "off + length data < 2 ^ 63"
    and run: "par (map (writeStripe R s name) (chunks (nat (stripeSize s)) off 0 data)) w w'"
  shows "file_holds s (wview view w') name (overwrite 0 off data c) \<and>
    same_except name (wview view w) (wview view w')"
proof -
  let ?S = "nat (stripeSize s)"
  let ?ts = "chunks ?S off 0 data"
  have S: "0 < ?S" and ring: "ring_total s" and max: "stripeSize s \<le> max_redis_string"
    using s by (auto simp: store_ok_def)
  from par_schedule [OF run] mset_map_schedule
  obtain ts' where ts': "mset ts' = mset ?ts" "go_all (map (writeStripe R s name) ts') w = Ok ((), w')"
    by blast
  then have "\<forall>t \<in> set ts'. fits s t"
    using chunks_fits [OF s range] by (metis mset_eq_setD)
  with writeStripes_run [OF R ring max] c ts'(2)
  have "file_ok s (wview view w') name"
    and st: "stripes s (wview view w') name = fold put ts' (stripes s (wview view w) name)"
    and "same_except name (wview view w) (wview view w')"
    unfolding file_holds_def by fastforce+
  moreover have "fold put ts' st = fold put ?ts st" for st
    by (rule fold_put_mset [OF ts'(1) chunks_distinct [OF S]])
  ultimately show ?thesis
    using c holds_write [OF S _ off] by (simp add: file_holds_def)
qed

end

section \<open>Shrinking\<close>

lemma lastStripeInfo_pos:
  assumes "0 < n" and "0 < S"
  shows "lastStripeInfo (int n) (int S) =
    Ok (int ((n - 1) div S), int (n - (n - 1) div S * S))"
proof (cases "n mod S = 0")
  case True
  then obtain q where q: "n = q * S" by (metis mod_0_imp_dvd dvd_def mult.commute)
  with assms have "0 < q" by simp
  have "(n - 1) div S = q - 1"
  proof (rule div_nat_eqI)
    show "S * (q - 1) \<le> n - 1" using \<open>0 < q\<close> assms q by (cases q) (auto simp: algebra_simps)
    show "n - 1 < S * Suc (q - 1)" using \<open>0 < q\<close> assms q by (simp add: mult.commute)
  qed
  with q assms \<open>0 < q\<close> True show ?thesis
    by (simp add: lastStripeInfo_def divmod_def sdiv_nonneg smod_nonneg zdiv_int zmod_int
        of_nat_diff algebra_simps diff_mult_distrib)
next
  case False
  have "(n - 1) div S = n div S"
  proof (rule div_nat_eqI)
    have "0 < n mod S" using False by simp
    then show "S * (n div S) \<le> n - 1" using mult_div_mod_eq [of S n] by linarith
    show "n - 1 < S * Suc (n div S)"
      using mult_div_mod_eq [of S n] mod_less_divisor [OF assms(2), of n] unfolding mult_Suc_right
      by linarith
  qed
  moreover have "n - n div S * S = n mod S" by (simp add: minus_div_mult_eq_mod)
  ultimately show ?thesis
    using False assms
    by (simp add: lastStripeInfo_def divmod_def sdiv_nonneg smod_nonneg flip: zdiv_int zmod_int)
qed

lemma lastStripeInfo_0: "0 < S \<Longrightarrow> lastStripeInfo 0 (int S) = Ok (- 1, int S)"
  by (simp add: lastStripeInfo_def divmod_def sdiv_nonneg smod_nonneg)

definition vtrim :: "DataStore \<Rightarrow> string \<Rightarrow> int \<Rightarrow> nat \<Rightarrow> (string \<Rightarrow> keyspace) \<Rightarrow> string \<Rightarrow> keyspace" where
  "vtrim s name i n v =
     (let h = home s (key name i) in
      v(h := (v h)(key name i \<mapsto> RStr (take n (old_bytes (stripes s v name) i)))))"

lemma stripes_vtrim:
  "stripes s (vtrim s name i n v) name =
     (stripes s v name)(i \<mapsto> take n (old_bytes (stripes s v name) i))"
  by (rule ext) (auto simp: stripes_def vtrim_def Let_def)

lemma same_except_vtrim: "same_except name v (vtrim s name i n v)"
  by (simp add: same_except_def vtrim_def Let_def)

lemma file_ok_vtrim:
  assumes ok: "file_ok s v name" and i: "i < 0 \<or> stripes s v name i \<noteq> None"
  shows "file_ok s (vtrim s name i n v) name"
proof -
  let ?v = "vtrim s name i n v"
  have str: "\<exists>b. str_at (?v (home s (key name j))) (key name j) = Some b \<and>
      int (length b) \<le> stripeSize s" for j
  proof (cases "j = i")
    case True
    then show ?thesis
      using stripes_length [OF ok, of i] by (auto simp: vtrim_def Let_def str_at_def)
  next
    case False
    then have "?v a (key name j) = v a (key name j)" for a by (simp add: vtrim_def Let_def)
    with ok show ?thesis by (simp add: file_ok_def str_at_def)
  qed
  have pres: "present s ?v name c = present s v name c" for c
    using i by (auto simp: present_def stripes_vtrim)
  have "set_at (?v c) (stripes_key name) = set_at (v c) (stripes_key name)" for c
    by (simp add: vtrim_def Let_def set_at_def)
  with str ok i show ?thesis
    by (auto simp: file_ok_def pres stripes_vtrim)
qed

lemma getrange_take: "0 < n \<Longrightarrow> getrange b 0 (int n - 1) = take n b"
  using getrange_window [of "replicate n 0" 0 b] by simp

context redis_server
begin

lemma trimStripe_view:
  assumes R: "server R = srv" and ring: "ring_total s" and ok: "file_ok s (wview view w) name"
    and n: "0 < n"
  shows "\<exists>w'. trimStripe R s name i (int n) w = Ok ((), w') \<and>
    wview view w' = vtrim s name i n (wview view w)"
proof -
  define k where "k = key name i"
  define h where "h = home s k"
  have b: "str_at (view (w h)) k = Some (old_bytes (stripes s (wview view w) name) i)"
    using file_ok_str [OF ok] by (simp add: h_def k_def wview_def)
  let ?w = "w(h := snd (srv (w h) (EVAL_TRIM k (int n - 1))))"
  have "trimStripe R s name i (int n) w = Ok ((), ?w)"
    using n EVAL_TRIM_reply [OF b]
    by (simp add: trimStripe_def Let_def R with_client_home [OF ring] bnd_def do_cmd_run
        reply_err_def return_def flip: k_def h_def)
  moreover have "wview view ?w = vtrim s name i n (wview view w)"
    using EVAL_TRIM_view [OF b] n
    by (simp add: wview_upd vtrim_def Let_def getrange_take flip: k_def h_def) (simp add: wview_def)
  ultimately show ?thesis by blast
qed

lemma go_all_append:
  "go_all ps w = Ok ((), w1) \<Longrightarrow> go_all (ps @ qs) w = go_all qs w1"
  by (induction ps arbitrary: w) (auto simp: return_def bnd_def split: result.splits)

lemma Resize_shrink_run:
  assumes R: "server R = srv" and s: "store_ok s" and c: "file_holds s (wview view w) name c"
    and range: "length c < 2 ^ 63" and n: "n < length c"
  shows "\<exists>w'. Resize R s name (int n) w = Ok ((), w') \<and>
    file_holds s (wview view w') name (take n c) \<and> same_except name (wview view w) (wview view w')"
proof -
  define S where "S = nat (stripeSize s)"
  have S: "0 < S" "stripeSize s = int S" and ring: "ring_total s"
    using s by (auto simp: store_ok_def S_def)
  let ?st = "stripes s (wview view w) name"
  have ok: "file_ok s (wview view w) name" and holds: "holds S ?st c"
    using c by (auto simp: file_holds_def S_def)
  obtain w1 where w1: "GetSize R s name w = Ok (int (length c), w1)" "wview view w1 = wview view w"
    using GetSize_run [OF R s c range] by blast
  define cur where "cur = (length c - 1) div S"
  define i where "i = (if n = 0 then - 1 else int ((n - 1) div S))"
  define l where "l = (if n = 0 then S else n - (n - 1) div S * S)"
  have cur: "lastStripeInfo (int (length c)) (int S) =
      Ok (int cur, int (length c - cur * S))"
    unfolding cur_def using n S(1) by (intro lastStripeInfo_pos) auto
  have new: "lastStripeInfo (int n) (int S) = Ok (i, int l)"
    using S(1) lastStripeInfo_pos [of n S] by (simp add: i_def l_def lastStripeInfo_0)
  have lpos: "0 < l"
  proof (cases "n = 0")
    case False
    have "(n - 1) div S * S \<le> n - 1" by simp
    with False have "(n - 1) div S * S < n" by linarith
    with False show ?thesis by (simp add: l_def)
  qed (simp add: l_def S)
  from ok w1(2) have "file_ok s (wview view w1) name" by simp
  from removeStripes_run [OF R ring this, of "[i + 1..int cur]", unfolded w1(2)]
  obtain w2 where w2: "go_all (map (removeStripe R s name) [i + 1..int cur]) w1 = Ok ((), w2)"
    "file_ok s (wview view w2) name"
    "stripes s (wview view w2) name =
       (\<lambda>j. if j \<in> set [i + 1..int cur] then None else ?st j)"
    "same_except name (wview view w) (wview view w2)"
    by blast
  from trimStripe_view [OF R ring w2(2) lpos, of i] obtain w3 where
    w3: "trimStripe R s name i (int l) w2 = Ok ((), w3)"
    "wview view w3 = vtrim s name i l (wview view w2)" by blast
  have st2: "stripes s (wview view w2) name i = ?st i" by (simp add: w2(3))
  have "i < 0 \<or> ?st i \<noteq> None"
  proof (cases "n = 0")
    case False
    have "(n - 1) div S * S \<le> n - 1" by simp
    with n have "(n - 1) div S * S < length c" by linarith
    with holds False show ?thesis by (simp add: i_def holds_def)
  qed (simp add: i_def)
  with file_ok_vtrim [OF w2(2)] have ok3: "file_ok s (wview view w3) name"
    by (simp add: w3(2) st2)
  have st3: "stripes s (wview view w3) name =
      (\<lambda>j. if j = i then Some (take l (old_bytes ?st i))
           else if i < j \<and> j \<le> int cur then None else ?st j)"
    by (rule ext) (simp add: w3(2) stripes_vtrim old_bytes_def w2(3))
  have "holds S (stripes s (wview view w3) name) (take n c)"
    unfolding holds_def
  proof
    fix j
    have jS: "j * S < length c \<longleftrightarrow> j \<le> cur"
      using n S(1) unfolding cur_def
      by (metis Suc_pred' gr_implies_not0 less_Suc_eq_le less_eq_div_iff_mult_less_eq not_gr_zero)
    have jn: "j * S < n \<longleftrightarrow> int j \<le> i"
    proof (cases "n = 0")
      case False
      then have "j * S < n \<longleftrightarrow> j * S \<le> n - 1" by linarith
      also have "\<dots> \<longleftrightarrow> j \<le> (n - 1) div S" using S(1) by (simp add: less_eq_div_iff_mult_less_eq)
      finally show ?thesis using False by (simp add: i_def)
    qed (simp add: i_def)
    show "stripes s (wview view w3) name (int j) =
        (if j * S < length (take n c) then Some (take S (drop (j * S) (take n c))) else None)"
    proof (cases "int j = i")
      case True
      then have "0 < n" by (auto simp: i_def split: if_splits)
      with True have j: "j = (n - 1) div S" by (simp add: i_def)
      have "l = n - j * S" using \<open>0 < n\<close> by (simp add: l_def j)
      moreover have "n - j * S \<le> S"
        using mod_less_divisor [OF S(1), of "n - 1"] div_mult_mod_eq [of "n - 1" S] \<open>0 < n\<close>
        unfolding j by linarith
      ultimately show ?thesis
        using True jn n holds_old_bytes [OF holds, of j]
        by (simp add: st3 drop_take min_absorb1 min_absorb2 flip: True)
    next
      case False
      show ?thesis
      proof (cases "int j < i")
        case True
        then have lt: "(j + 1) * S < n"
        proof -
          have n0: "n \<noteq> 0" using True by (cases "n = 0") (auto simp: i_def)
          with True have "j + 1 \<le> (n - 1) div S" by (simp add: i_def)
          then have "(j + 1) * S \<le> n - 1" using S(1) by (simp add: less_eq_div_iff_mult_less_eq)
          with n0 show ?thesis by linarith
        qed
        then have "take S (drop (j * S) (take n c)) = take S (drop (j * S) c)"
          by (simp add: drop_take min_def)
        with True lt n holds show ?thesis by (simp add: st3 holds_def)
      next
        case ge: False
        with False have gt: "i < int j" by simp
        with jn have "\<not> j * S < n" by simp
        moreover have "stripes s (wview view w3) name (int j) = None"
          using gt jS holds by (auto simp: st3 holds_def)
        ultimately show ?thesis by simp
      qed
    qed
  qed
  moreover have "Resize R s name (int n) w = Ok ((), w3)"
  proof -
    have "go_all (map (removeStripe R s name) [i + 1..int cur] @ [trimStripe R s name i (int l)]) w1 =
        Ok ((), w3)"
      using w3(1) by (simp add: go_all_append [OF w2(1)] bnd_def return_def)
    then show ?thesis
      using n w1(1) cur new by (simp add: Resize_def bnd_def lift_res_def S(2))
  qed
  moreover have "same_except name (wview view w) (wview view w3)"
    using same_except_trans [OF w2(4) same_except_vtrim] by (simp add: w3(2))
  ultimately show ?thesis using ok3 by (auto simp: file_holds_def S_def)
qed

end

section \<open>Growing\<close>

text \<open>
  Growing writes one zero byte at the end of every new stripe, which Redis pads with zeros.
  It is right when the present last stripe is full.
\<close>

lemma put_zero_byte:
  "0 \<le> off \<Longrightarrow> old_bytes st i = [] \<Longrightarrow>
     put (zero_byte_stripe i off) st = st(i \<mapsto> replicate (nat off + 1) 0)"
  by (simp add: put_def zero_byte_stripe_def si_bytes_def overwrite_def replicate_append_same)

lemma fold_put_full:
  "distinct is \<Longrightarrow> \<forall>i \<in> set is. old_bytes st i = [] \<Longrightarrow> 0 < S \<Longrightarrow>
     fold put (map (\<lambda>i. zero_byte_stripe i (int S - 1)) is) st =
       (\<lambda>i. if i \<in> set is then Some (replicate S 0) else st i)"
proof (induction "is" arbitrary: st)
  case (Cons i "is")
  have p: "put (zero_byte_stripe i (int S - 1)) st = st(i \<mapsto> replicate S 0)"
    using Cons.prems by (simp add: put_zero_byte nat_diff_distrib)
  have old: "\<forall>j \<in> set is. old_bytes (st(i \<mapsto> replicate S 0)) j = []"
    using Cons.prems by (auto simp: old_bytes_def)
  have "fold put (map (\<lambda>i. zero_byte_stripe i (int S - 1)) is) (st(i \<mapsto> replicate S 0)) =
      (\<lambda>j. if j \<in> set is then Some (replicate S 0) else (st(i \<mapsto> replicate S 0)) j)"
    by (rule Cons.IH) (use Cons.prems in \<open>simp_all del: fun_upd_apply add: old\<close>)
  with Cons.prems show ?case by (simp add: p fun_eq_iff del: fun_upd_apply) simp
qed simp

lemma holds_grow:
  assumes S: "0 < S" and holds: "holds S st c" and full: "length c = q * S"
    and n: "length c < n" and m: "m = (n - 1) div S"
  shows "holds S (\<lambda>i. if i = int m then Some (replicate (n - m * S) 0)
      else if int q \<le> i \<and> i < int m then Some (replicate S 0) else st i)
    (c @ replicate (n - length c) 0)"
  unfolding holds_def
proof
  fix j
  have mn: "m * S < n" "n \<le> m * S + S"
  proof -
    have "m * S \<le> n - 1" by (simp add: m)
    with n show "m * S < n" by linarith
    show "n \<le> m * S + S"
      using mod_less_divisor [OF S, of "n - 1"] div_mult_mod_eq [of "n - 1" S] n
      unfolding m by linarith
  qed
  have qm: "q \<le> m"
  proof -
    have "q * S \<le> n - 1" using n full by simp
    then show ?thesis using S by (simp add: m less_eq_div_iff_mult_less_eq)
  qed
  consider "j < q" | "q \<le> j" "j < m" | "j = m" | "m < j" by linarith
  then show "(if int j = int m then Some (replicate (n - m * S) 0)
      else if int q \<le> int j \<and> int j < int m then Some (replicate S 0) else st (int j)) =
    (if j * S < length (c @ replicate (n - length c) 0)
     then Some (take S (drop (j * S) (c @ replicate (n - length c) 0))) else None)"
  proof cases
    case 1
    then have "Suc j * S \<le> q * S" by (simp only: mult_le_mono1 Suc_leI)
    then have le: "j * S + S \<le> length c" using full by simp
    with 1 qm S n holds show ?thesis by (simp add: holds_def drop_append)
  next
    case 2
    then have "q * S \<le> j * S" and "Suc j * S \<le> m * S"
      by (simp_all only: mult_le_mono1 Suc_leI)
    with 2 mn full show ?thesis by (simp add: drop_append)
  next
    case 3
    with qm mn full have "length c \<le> j * S" by simp
    with 3 mn full show ?thesis by (simp add: drop_append)
  next
    case 4
    then have "Suc m * S \<le> j * S" by (simp only: mult_le_mono1 Suc_leI)
    with mn have nj: "n \<le> j * S" by simp
    with n holds have "st (int j) = None" by (simp add: holds_def)
    with 4 nj n show ?thesis by simp
  qed
qed

context redis_server
begin

lemma Resize_grow_run:
  assumes R: "server R = srv" and s: "store_ok s" and c: "file_holds s (wview view w) name c"
    and range: "n < 2 ^ 63" and n: "length c < n"
    and full: "length c mod nat (stripeSize s) = 0"
  shows "\<exists>w'. Resize R s name (int n) w = Ok ((), w') \<and>
    file_holds s (wview view w') name (c @ replicate (n - length c) 0) \<and>
    same_except name (wview view w) (wview view w')"
proof -
  define S where "S = nat (stripeSize s)"
  have S: "0 < S" "stripeSize s = int S" and ring: "ring_total s"
    and max: "stripeSize s \<le> max_redis_string"
    using s by (auto simp: store_ok_def S_def)
  let ?st = "stripes s (wview view w) name"
  have ok: "file_ok s (wview view w) name" and holds: "holds S ?st c"
    using c by (auto simp: file_holds_def S_def)
  have rc: "length c < 2 ^ 63" using range n by simp
  obtain w1 where w1: "GetSize R s name w = Ok (int (length c), w1)" "wview view w1 = wview view w"
    using GetSize_run [OF R s c rc] by blast
  obtain q where q: "length c = q * S"
    using full unfolding S_def [symmetric] by (metis mod_0_imp_dvd dvd_def mult.commute)
  define m where "m = (n - 1) div S"
  have cur: "lastStripeInfo (int (length c)) (int S) = Ok (int q - 1, int S)"
  proof (cases "q = 0")
    case True
    with q S(1) show ?thesis by (simp add: lastStripeInfo_0)
  next
    case False
    with q S(1) show ?thesis
      by (simp add: lastStripeInfo_def divmod_def sdiv_nonneg smod_nonneg)
  qed
  have new: "lastStripeInfo (int n) (int S) = Ok (int m, int (n - m * S))"
    unfolding m_def using n S(1) by (intro lastStripeInfo_pos) auto
  have mS: "m * S \<le> n - 1" by (simp add: m_def)
  then have l: "0 < n - m * S" using n by linarith
  have lS: "n - m * S \<le> S"
    using mod_less_divisor [OF S(1), of "n - 1"] div_mult_mod_eq [of "n - 1" S] n
    unfolding m_def by linarith
  have mi: "in_i64 (int i)" if "i \<le> m" for i
  proof -
    have "m * 1 \<le> m * S" using S(1) by (intro mult_le_mono2) simp
    with mS that range n have "i < 2 ^ 63" by linarith
    then have "int i < int (2 ^ 63)" by (simp only: of_nat_less_iff)
    then show ?thesis by (simp add: in_i64_def)
  qed
  let ?ts = "map (\<lambda>i. zero_byte_stripe i (int S - 1)) [int q..int m - 1]
    @ [zero_byte_stripe (int m) (int (n - m * S) - 1)]"
  have fit: "fits s (zero_byte_stripe (int i) (int k - 1))" if "i \<le> m" "0 < k" "k \<le> S" for i k
    using that mi by (simp add: fits_def zero_byte_stripe_def si_bytes_def S(2))
  have "\<forall>t \<in> set ?ts. fits s t"
  proof
    fix t
    assume "t \<in> set ?ts"
    then consider i where "t = zero_byte_stripe i (int S - 1)" "int q \<le> i" "i \<le> int m - 1"
      | "t = zero_byte_stripe (int m) (int (n - m * S) - 1)" by auto
    then show "fits s t"
    proof cases
      case 1
      then have "i = int (nat i)" "nat i \<le> m" by linarith+
      with fit [of "nat i" S] 1(1) S(1) show ?thesis by simp
    next
      case 2
      with l lS fit [of m "n - m * S"] show ?thesis by simp
    qed
  qed
  moreover from ok w1(2) have "file_ok s (wview view w1) name" by simp
  ultimately obtain w2 where w2: "go_all (map (writeStripe R s name) ?ts) w1 = Ok ((), w2)"
    "file_ok s (wview view w2) name" "stripes s (wview view w2) name = fold put ?ts ?st"
    "same_except name (wview view w) (wview view w2)"
    using writeStripes_run [OF R ring max, of w1 name ?ts, unfolded w1(2)] ok by blast
  have old: "old_bytes ?st i = []" if "int q \<le> i" for i
  proof -
    have i: "i = int (nat i)" "q \<le> nat i" using that by linarith+
    then have "q * S \<le> nat i * S" by (simp only: mult_le_mono1)
    then have "old_bytes ?st (int (nat i)) = []" using holds_old_bytes [OF holds, of "nat i"] q by simp
    then show ?thesis by (simp only: i(1) [symmetric])
  qed
  have qm: "int q \<le> int m"
  proof -
    have "q * S \<le> n - 1" using n q by simp
    then show ?thesis using S(1) by (simp add: m_def less_eq_div_iff_mult_less_eq)
  qed
  have fold: "fold put ?ts ?st = (\<lambda>i. if i = int m then Some (replicate (n - m * S) 0)
      else if int q \<le> i \<and> i < int m then Some (replicate S 0) else ?st i)"
  proof -
    let ?st1 = "\<lambda>i. if i \<in> set [int q..int m - 1] then Some (replicate S 0) else ?st i"
    have "fold put (map (\<lambda>i. zero_byte_stripe i (int S - 1)) [int q..int m - 1]) ?st = ?st1"
      using S(1) old by (intro fold_put_full) auto
    moreover have "old_bytes ?st1 (int m) = []" using old [OF qm] by (simp add: old_bytes_def)
    moreover have "put (zero_byte_stripe (int m) (int (n - m * S) - 1)) ?st1 =
        ?st1(int m \<mapsto> replicate (nat (int (n - m * S) - 1) + 1) 0)"
      using calculation(2) l by (intro put_zero_byte) linarith+
    moreover have "nat (int (n - m * S) - 1) + 1 = n - m * S" using l by linarith
    ultimately have "fold put ?ts ?st = ?st1(int m \<mapsto> replicate (n - m * S) 0)"
      by (simp only: fold_append comp_apply fold.simps id_apply list.map)
    then show ?thesis by (simp only:) (rule ext, simp)
  qed
  have "holds S (stripes s (wview view w2) name) (c @ replicate (n - length c) 0)"
    unfolding w2(3) fold by (rule holds_grow [OF S(1) holds q n m_def])
  moreover have "Resize R s name (int n) w = Ok ((), w2)"
  proof -
    have "map (\<lambda>i. writeStripe R s name (zero_byte_stripe i (int S - 1))) [int q..int m - 1]
        @ [writeStripe R s name (zero_byte_stripe (int m) (int (n - m * S) - 1))] =
        map (writeStripe R s name) ?ts" by simp
    then show ?thesis
      using w2(1) n by (simp add: Resize_def bnd_def w1(1) lift_res_def S(2) cur new comp_def)
  qed
  ultimately show ?thesis using w2 by (auto simp: file_holds_def S_def)
qed

end

end
