(* ===== verification/StoreProps.thy ===== *)
theory StoreProps
  imports StoreResize
begin

text \<open>
  What \<open>redisfs/store.go\<close> promises, stated for every Redis server that keeps the laws of
  \<open>redis_server\<close>: the striped store implements a plain byte array per file. The
  predicate \<open>file_holds s v name c\<close> says that the stripes of \<open>name\<close>, spread over the
  instances whose contents are \<open>v\<close>, are those of the byte array \<open>c\<close>. Every property is
  shown to apply on the reference server with two instances and stripes of four bytes.
\<close>

section \<open>A concrete store\<close>

definition demo_runtime :: "ref_db runtime" where
  "demo_runtime = \<lparr> server = redis_ref, append_cap = (\<lambda>n. 2 * n) \<rparr>"

definition demo_store :: DataStore where
  "demo_store = \<lparr> redisRing = NewRedisRing [''a:6379'', ''b:6379''], stripeSize = 4 \<rparr>"

definition demo_world :: "ref_db world" where
  "demo_world = (\<lambda>_ _. None)"

lemma demo_server: "redis_server (server demo_runtime) ref_view"
  by (simp add: demo_runtime_def ref.redis_server_axioms)

lemma demo_store_ok: "store_ok demo_store"
proof -
  have "ring_total demo_store"
    using NewRedisRing_client [of "[''a:6379'', ''b:6379'']"]
    by (auto simp: ring_total_def addrs_def demo_store_def NewRedisRing_def)
  then show ?thesis by (simp add: store_ok_def demo_store_def max_redis_string_def)
qed

lemma demo_stripeSize [simp]: "stripeSize demo_store = 4"
  by (simp add: demo_store_def)

lemma demo_fresh: "file_holds demo_store (wview ref_view demo_world) name []"
  by (rule file_holds_fresh [OF demo_store_ok])
    (simp_all add: wview_def demo_world_def ref_view_def)

lemma demo_file:
  assumes "length c \<le> 60"
  shows "\<exists>w. file_holds demo_store (wview ref_view w) name c"
proof -
  have "few_stripes (nat (stripeSize demo_store)) 0 (length c)"
    using assms by (simp add: few_stripes_def)
  with redis_server.WriteAt_run [OF demo_server refl demo_store_ok demo_fresh, of 0 c name] assms
  obtain w where "file_holds demo_store (wview ref_view w) name (overwrite 0 0 c [])"
    by auto
  then show ?thesis by (auto simp: overwrite_def)
qed

section \<open>Reading and writing\<close>

text \<open>
  C8. Writing refines overwriting a byte array: on a file that holds \<open>c\<close>, \<open>WriteAt\<close> of at
  most 100 stripes at an offset inside or at the end of the file succeeds on every lawful Redis,
  leaves the file holding \<open>c\<close> with the data in place, and touches no key of another file.
\<close>

theorem WriteAt_refines:
  assumes "redis_server (server R) view" and "store_ok s"
    and "file_holds s (wview view w) name c"
    and "off \<le> length c" and "off + length data < 2 ^ 63"
    and "few_stripes (nat (stripeSize s)) off (length data)"
  shows "\<exists>w'. WriteAt R s name (int off) data w = Ok ((), w') \<and>
    file_holds s (wview view w') name (overwrite 0 off data c) \<and>
    same_except name (wview view w) (wview view w')"
  using redis_server.WriteAt_run [OF assms(1) refl assms(2-6)] .

lemma WriteAt_refines_witness:
  "\<exists>w w'. file_holds demo_store (wview ref_view w) ''f'' [1, 2, 3, 4, 5] \<and>
    WriteAt demo_runtime demo_store ''f'' 3 [9, 9, 9] w = Ok ((), w') \<and>
    file_holds demo_store (wview ref_view w') ''f'' [1, 2, 3, 9, 9, 9]"
proof -
  obtain w where w: "file_holds demo_store (wview ref_view w) ''f'' [1, 2, 3, 4, 5]"
    using demo_file [of "[1, 2, 3, 4, 5]"] by auto
  from WriteAt_refines [OF demo_server demo_store_ok w, of 3 "[9, 9, 9]"] w
  show ?thesis by (auto simp: few_stripes_def overwrite_def)
qed

text \<open>
  C9. Reading refines a slice of the byte array: \<open>ReadAt\<close> returns how many bytes the file has
  in the asked range, puts exactly these bytes at the start of the buffer, leaves the rest of the
  buffer alone and changes no key.
\<close>

theorem ReadAt_refines:
  assumes "redis_server (server R) view" and "store_ok s"
    and "file_holds s (wview view w) name c"
    and "off + length dst < 2 ^ 63"
    and "few_stripes (nat (stripeSize s)) off (length dst)"
  shows "\<exists>w'. ReadAt R s name (int off) dst w =
      Ok ((int (min (length dst) (length c - off)),
           overwrite 0 0 (take (length dst) (drop off c)) dst), w') \<and>
    wview view w' = wview view w"
  using redis_server.ReadAt_run [OF assms(1) refl assms(2-5)] .

lemma ReadAt_refines_witness:
  "\<exists>w w'. file_holds demo_store (wview ref_view w) ''f'' [1, 2, 3, 4, 5, 6] \<and>
    ReadAt demo_runtime demo_store ''f'' 2 [7, 7, 7, 7, 7] w = Ok ((4, [3, 4, 5, 6, 7]), w')"
proof -
  obtain w where w: "file_holds demo_store (wview ref_view w) ''f'' [1, 2, 3, 4, 5, 6]"
    using demo_file [of "[1, 2, 3, 4, 5, 6]"] by auto
  from ReadAt_refines [OF demo_server demo_store_ok w, of 2 "[7, 7, 7, 7, 7]"] w
  show ?thesis by (auto simp: few_stripes_def overwrite_def)
qed

text \<open>
  What is written is read back: a write followed by a read of the same range returns the
  whole length and the very bytes written, whatever the file held before.
\<close>

theorem write_read_back:
  assumes server: "redis_server (server R) view" and s: "store_ok s"
    and c: "file_holds s (wview view w) name c"
    and off: "off \<le> length c" and range: "off + length data < 2 ^ 63"
    and few: "few_stripes (nat (stripeSize s)) off (length data)"
    and dst: "length dst = length data"
  shows "\<exists>w'. bnd (WriteAt R s name (int off) data) (\<lambda>_. ReadAt R s name (int off) dst) w =
    Ok ((int (length data), data), w')"
proof -
  from redis_server.WriteAt_run [OF server refl s c off range few]
  obtain w1 where w1: "WriteAt R s name (int off) data w = Ok ((), w1)"
    and c1: "file_holds s (wview view w1) name (overwrite 0 off data c)" by blast
  have "take (length dst) (drop off (overwrite 0 off data c)) = data"
    using off dst by (simp add: overwrite_def)
  with redis_server.ReadAt_run [OF server refl s c1, of off dst] range few dst
  show ?thesis by (auto simp: bnd_Ok [of _ _ _ _ ] w1 bnd_def overwrite_all)
qed

lemma write_read_back_witness:
  "\<exists>w'. bnd (WriteAt demo_runtime demo_store ''f'' 0 [1, 2, 3, 4, 5, 6])
      (\<lambda>_. ReadAt demo_runtime demo_store ''f'' 0 [0, 0, 0, 0, 0, 0]) demo_world =
    Ok ((6, [1, 2, 3, 4, 5, 6]), w')"
  using write_read_back [OF demo_server demo_store_ok demo_fresh, of 0 "[1, 2, 3, 4, 5, 6]"
      "[0, 0, 0, 0, 0, 0]" "''f''"]
  by (simp add: few_stripes_def)

text \<open>
  C10. The goroutines of a write may run in any order: every interleaving of the stripe writers
  leaves the same byte array, so the unordered \<open>go\<close> statements are harmless.
\<close>

theorem WriteAt_any_order:
  assumes "redis_server (server R) view" and "store_ok s"
    and "file_holds s (wview view w) name c"
    and "off \<le> length c" and "off + length data < 2 ^ 63"
    and "stripeLayout R (stripeSize s) (int off) data = Ok ts"
    and "few_stripes (nat (stripeSize s)) off (length data)"
    and "par (map (writeStripe R s name) ts) w w'"
  shows "file_holds s (wview view w') name (overwrite 0 off data c) \<and>
    same_except name (wview view w) (wview view w')"
proof -
  have S: "0 < nat (stripeSize s)" "int (nat (stripeSize s)) = stripeSize s"
    using assms(2) by (auto simp: store_ok_def)
  have "Ok ts = Ok (chunks (nat (stripeSize s)) off 0 data)"
    using stripeLayout_chunks [OF S(1) assms(5,7), of R] assms(6) unfolding S(2) by simp
  then have "ts = chunks (nat (stripeSize s)) off 0 data" by simp
  with assms(8) have "par (map (writeStripe R s name) (chunks (nat (stripeSize s)) off 0 data)) w w'"
    by simp
  then show ?thesis
    by (rule redis_server.WriteAt_schedules [OF assms(1) refl assms(2-5)])
qed

lemma WriteAt_any_order_witness:
  "\<exists>t u w'. stripeLayout demo_runtime (stripeSize demo_store) 0 [1, 2, 3, 4, 5, 6] = Ok [t, u] \<and>
    go_all (map (writeStripe demo_runtime demo_store ''f'') [u, t]) demo_world = Ok ((), w') \<and>
    file_holds demo_store (wview ref_view w') ''f'' [1, 2, 3, 4, 5, 6]"
proof -
  let ?d = "[1, 2, 3, 4, 5, 6] :: bytes"
  let ?W = "writeStripe demo_runtime demo_store ''f''"
  define t where "t = \<lparr> si_id = 0, si_off = 0, si_data = Some \<lparr> sl_pos = 0, sl_bytes = [1, 2, 3, 4 :: byte] \<rparr> \<rparr>"
  define u where "u = \<lparr> si_id = 1, si_off = 0, si_data = Some \<lparr> sl_pos = 4, sl_bytes = [5, 6 :: byte] \<rparr> \<rparr>"
  have few: "few_stripes (nat (stripeSize demo_store)) 0 (length ?d)"
    by (simp add: few_stripes_def)
  have ch: "chunks 4 0 0 ?d = [t, u]"
    by (simp add: chunks.simps t_def u_def)
  have lay: "stripeLayout demo_runtime (stripeSize demo_store) (int 0) ?d = Ok [t, u]"
    using stripeLayout_chunks [of 4 0 ?d demo_runtime] few ch by simp
  have ok: "file_ok demo_store (wview ref_view demo_world) ''f''"
    using demo_fresh [of "''f''"] by (simp add: file_holds_def)
  have fit: "\<forall>x \<in> set [u, t]. fits demo_store x"
    by (simp add: fits_def t_def u_def si_bytes_def in_i64_def)
  obtain w' where run: "go_all (map ?W [u, t]) demo_world = Ok ((), w')"
    using redis_server.writeStripes_run [OF demo_server refl _ _ ok fit] demo_store_ok
    by (auto simp: store_ok_def)
  have par: "par (map ?W [t, u]) demo_world w'"
    by (rule go_all_any_order [OF run]) (simp add: add_mset_commute)
  have "file_holds demo_store (wview ref_view w') ''f'' (overwrite 0 0 ?d [])"
    using WriteAt_any_order [OF demo_server demo_store_ok demo_fresh _ _ lay few par] by simp
  with lay run show ?thesis by (auto simp: overwrite_def)
qed

text \<open>
  Files are isolated: a write to one file leaves what any other file holds as it was, even
  though both share the instances and the key space.
\<close>

theorem WriteAt_other_file:
  assumes server: "redis_server (server R) view" and s: "store_ok s"
    and c: "file_holds s (wview view w) name c"
    and "off \<le> length c" and "off + length data < 2 ^ 63"
    and "few_stripes (nat (stripeSize s)) off (length data)"
    and run: "WriteAt R s name (int off) data w = Ok ((), w')"
    and other: "file_holds s (wview view w) other d" and ne: "other \<noteq> name"
  shows "file_holds s (wview view w') other d"
  using redis_server.WriteAt_run [OF server refl s c assms(4-6)] run
    file_holds_other [OF _ ne other] by auto

lemma WriteAt_other_file_witness:
  "\<exists>w w'. file_holds demo_store (wview ref_view w) ''g'' [1, 2, 3] \<and>
    WriteAt demo_runtime demo_store ''f'' 0 [7, 7] w = Ok ((), w') \<and>
    file_holds demo_store (wview ref_view w') ''g'' [1, 2, 3]"
proof -
  have few: "few_stripes (nat (stripeSize demo_store)) 0 (length [1, 2, 3])"
    "few_stripes (nat (stripeSize demo_store)) 0 (length [7, 7 :: byte])"
    by (simp_all add: few_stripes_def)
  obtain w where w: "file_holds demo_store (wview ref_view w) ''g'' [1, 2, 3]"
    and same: "same_except ''g'' (wview ref_view demo_world) (wview ref_view w)"
    using redis_server.WriteAt_run [OF demo_server refl demo_store_ok demo_fresh, of 0 "[1, 2, 3]" "''g''"] few
    by (auto simp: overwrite_def)
  have f: "file_holds demo_store (wview ref_view w) ''f'' []"
    using file_holds_other [OF same _ demo_fresh, of "''f''"] by simp
  obtain w' where "WriteAt demo_runtime demo_store ''f'' (int 0) [7, 7] w = Ok ((), w')"
    using redis_server.WriteAt_run [OF demo_server refl demo_store_ok f, of 0 "[7, 7]"] few by auto
  with WriteAt_other_file [OF demo_server demo_store_ok f _ _ few(2) this w] w show ?thesis by auto
qed

section \<open>Size, removal, resizing\<close>

text \<open>
  \<open>GetSize\<close>, which asks every instance for its stripe numbers and then for the length of
  the last stripe, returns the length of the byte array, and changes no key.
\<close>

theorem GetSize_refines:
  assumes "redis_server (server R) view" and "store_ok s"
    and "file_holds s (wview view w) name c" and "length c < 2 ^ 63"
  shows "\<exists>w'. GetSize R s name w = Ok (int (length c), w') \<and> wview view w' = wview view w"
  using redis_server.GetSize_run [OF assms(1) refl assms(2-4)] .

lemma GetSize_refines_witness:
  "\<exists>w w'. file_holds demo_store (wview ref_view w) ''f'' [1, 2, 3, 4, 5] \<and>
    GetSize demo_runtime demo_store ''f'' w = Ok (5, w')"
proof -
  obtain w where w: "file_holds demo_store (wview ref_view w) ''f'' [1, 2, 3, 4, 5]"
    using demo_file [of "[1, 2, 3, 4, 5]"] by auto
  from GetSize_refines [OF demo_server demo_store_ok w] w show ?thesis by auto
qed

text \<open>
  C12. \<open>Remove\<close> empties the file: every stripe and every stripe number goes, and no other file
  is touched.
\<close>

theorem Remove_refines:
  assumes "redis_server (server R) view" and "store_ok s"
    and "file_holds s (wview view w) name c"
  shows "\<exists>w'. Remove R s name w = Ok ((), w') \<and>
    file_holds s (wview view w') name [] \<and> same_except name (wview view w) (wview view w')"
  using redis_server.Remove_run [OF assms(1) refl assms(2-3)] .

lemma Remove_refines_witness:
  "\<exists>w w'. file_holds demo_store (wview ref_view w) ''f'' [1, 2, 3, 4, 5] \<and>
    Remove demo_runtime demo_store ''f'' w = Ok ((), w') \<and>
    file_holds demo_store (wview ref_view w') ''f'' []"
proof -
  obtain w where w: "file_holds demo_store (wview ref_view w) ''f'' [1, 2, 3, 4, 5]"
    using demo_file [of "[1, 2, 3, 4, 5]"] by auto
  from Remove_refines [OF demo_server demo_store_ok w] w show ?thesis by auto
qed

text \<open>
  C11. Truncating to a smaller size keeps exactly the leading bytes: the stripes beyond the new
  end go, the last one is trimmed on the server.
\<close>

theorem Resize_shrink_refines:
  assumes "redis_server (server R) view" and "store_ok s"
    and "file_holds s (wview view w) name c" and "length c < 2 ^ 63" and "n < length c"
  shows "\<exists>w'. Resize R s name (int n) w = Ok ((), w') \<and>
    file_holds s (wview view w') name (take n c) \<and> same_except name (wview view w) (wview view w')"
  using redis_server.Resize_shrink_run [OF assms(1) refl assms(2-5)] .

lemma Resize_shrink_refines_witness:
  "\<exists>w w'. file_holds demo_store (wview ref_view w) ''f'' [1, 2, 3, 4, 5, 6] \<and>
    Resize demo_runtime demo_store ''f'' 3 w = Ok ((), w') \<and>
    file_holds demo_store (wview ref_view w') ''f'' [1, 2, 3]"
proof -
  obtain w where w: "file_holds demo_store (wview ref_view w) ''f'' [1, 2, 3, 4, 5, 6]"
    using demo_file [of "[1, 2, 3, 4, 5, 6]"] by auto
  from Resize_shrink_refines [OF demo_server demo_store_ok w, of 3] w show ?thesis by auto
qed

text \<open>
  Truncating to a larger size pads with zeros, when the present size is a multiple of the
  stripe size (or zero). For other sizes see \<open>Resize_grow_partial_stripe\<close>.
\<close>

theorem Resize_grow_refines:
  assumes "redis_server (server R) view" and "store_ok s"
    and "file_holds s (wview view w) name c" and "n < 2 ^ 63" and "length c < n"
    and "length c mod nat (stripeSize s) = 0"
  shows "\<exists>w'. Resize R s name (int n) w = Ok ((), w') \<and>
    file_holds s (wview view w') name (c @ replicate (n - length c) 0) \<and>
    same_except name (wview view w) (wview view w')"
  using redis_server.Resize_grow_run [OF assms(1) refl assms(2-6)] .

lemma Resize_grow_refines_witness:
  "\<exists>w w'. file_holds demo_store (wview ref_view w) ''f'' [1, 2, 3, 4] \<and>
    Resize demo_runtime demo_store ''f'' 10 w = Ok ((), w') \<and>
    file_holds demo_store (wview ref_view w') ''f'' [1, 2, 3, 4, 0, 0, 0, 0, 0, 0]"
proof -
  obtain w where w: "file_holds demo_store (wview ref_view w) ''f'' [1, 2, 3, 4]"
    using demo_file [of "[1, 2, 3, 4]"] by auto
  have "[1, 2, 3, 4] @ replicate (10 - length [1, 2, 3, 4 :: byte]) 0 =
      ([1, 2, 3, 4, 0, 0, 0, 0, 0, 0] :: bytes)"
    by (simp add: numeral_eq_Suc)
  with Resize_grow_refines [OF demo_server demo_store_ok w, of 10] w
  show ?thesis by auto
qed

section \<open>Placement\<close>

text \<open>
  C39. The layout is a partition: at most 100 stripes, and the windows carry the data in order,
  each stripe number once, none of them beyond its stripe.
\<close>

theorem stripeLayout_partition:
  assumes "0 < S" and "off + length data < 2 ^ 63" and "few_stripes S off (length data)"
  shows "\<exists>ts. stripeLayout R (int S) (int off) data = Ok ts \<and> length ts \<le> 100 \<and>
    concat (map si_bytes ts) = data \<and> distinct (map si_id ts) \<and>
    (\<forall>t \<in> set ts. 0 \<le> si_off t \<and> si_off t + int (length (si_bytes t)) \<le> int S \<and> si_bytes t \<noteq> [])"
proof -
  have "length (chunks S off 0 data) \<le> 100"
    using assms(3) length_chunks [OF assms(1), of data off 0]
    by (cases "data = []") (simp_all add: few_stripes_def)
  moreover have "\<forall>t \<in> set (chunks S off 0 data).
      0 \<le> si_off t \<and> si_off t + int (length (si_bytes t)) \<le> int S \<and> si_bytes t \<noteq> []"
    using chunks_bounds [OF assms(1)] by blast
  ultimately show ?thesis
    using stripeLayout_chunks [OF assms] chunks_concat [OF assms(1)] chunks_distinct [OF assms(1)]
    by blast
qed

lemma stripeLayout_partition_witness:
  "\<exists>ts. stripeLayout demo_runtime 4 3 [1, 2, 3, 4, 5, 6] = Ok ts \<and>
    concat (map si_bytes ts) = [1, 2, 3, 4, 5, 6]"
  using stripeLayout_partition [of 4 3 "[1, 2, 3, 4, 5, 6]" demo_runtime]
  by (auto simp: few_stripes_def)

text \<open>
  A ring built on at least one address always finds a client, and only one of its
  addresses: no key makes \<open>GetClient\<close> return nil.
\<close>

theorem NewRedisRing_total:
  assumes "nodes \<noteq> []"
  shows "\<exists>c \<in> set nodes. GetClient (NewRedisRing nodes) k = Some c"
  using NewRedisRing_client [OF assms] .

lemma NewRedisRing_total_witness:
  "\<exists>c. GetClient (NewRedisRing [''a'', ''b'']) ''k'' = Some c \<and> c \<in> {''a'', ''b''}"
  using NewRedisRing_total [of "[''a'', ''b'']" "''k''"] by auto

text \<open>
  Consistent hashing: after adding nodes to a ring, a key belongs to the node of the first
  point clockwise from the hash of the key, the smallest point when there is none above it.
\<close>

theorem Get_clockwise:
  assumes "ring_ok m" and "ks \<noteq> []" and "0 < replicas m"
  shows "ring_ok (Add ks m) \<and>
    hashMap (Add ks m) (successor (Add ks m) (uint (ch_hash (Add ks m) k))) =
      Some (Get (Add ks m) k)"
  using Add_ring_ok [OF assms(1)] Get_successor [OF _ Add_keys_nonempty [OF assms(2,3)]]
  by blast

lemma Get_clockwise_witness:
  "hashMap (Add [''n''] (NewConsistentHash 3 None))
     (successor (Add [''n''] (NewConsistentHash 3 None))
       (uint (ch_hash (Add [''n''] (NewConsistentHash 3 None)) ''k''))) =
   Some (Get (Add [''n''] (NewConsistentHash 3 None)) ''k'')"
proof -
  have r: "0 < replicas (NewConsistentHash 3 None)" by (simp add: NewConsistentHash_def)
  show ?thesis
    by (rule conjunct2 [OF Get_clockwise [OF ring_ok_New _ r]]) simp
qed

section \<open>Where the store departs from a byte array\<close>


text \<open>
  Beyond 100 stripes the layout is no partition: when the slice of stripes is full it is
  copied into one of twice its capacity as its length, so that 100 zero values come between the
  stripes 99 and 100, each read or written as an empty window of stripe 0.
\<close>

theorem stripeLayout_over_100:
  "(case stripeLayout demo_runtime 1 0 (replicate 101 5) of
      Ok ts \<Rightarrow> length ts = 201 \<and> take 100 (drop 100 ts) = replicate 100 zero_stripe
    | _ \<Rightarrow> False)"
  by code_simp

end
