(* ===== verification/Paths.thy ===== *)
theory Paths
  imports Prelude
begin

text \<open>
  Lexical path names: what Go's \<open>path/filepath\<close> promises of \<open>Clean\<close>, \<open>Abs\<close> and \<open>Dir\<close>
  (on Unix), over the components of a path. The C function \<open>abspath\<close> of \<open>Abspath\<close> is
  compared with them.
\<close>

abbreviation slash :: char where
  "slash \<equiv> CHR ''/''"

section \<open>Components\<close>

fun split_on :: "'a \<Rightarrow> 'a list \<Rightarrow> 'a list list" where
  "split_on c [] = [[]]"
| "split_on c (x # xs) =
     (if x = c then [] # split_on c xs
      else (case split_on c xs of [] \<Rightarrow> [[x]] | w # ws \<Rightarrow> (x # w) # ws))"

fun join_with :: "'a \<Rightarrow> 'a list list \<Rightarrow> 'a list" where
  "join_with c [] = []"
| "join_with c [w] = w"
| "join_with c (w # v # ws) = w @ c # join_with c (v # ws)"

definition components :: "string \<Rightarrow> string list" where
  "components p = filter (\<lambda>c. c \<noteq> [] \<and> c \<noteq> ''.'') (split_on slash p)"

definition rooted :: "string \<Rightarrow> bool" where
  "rooted p \<longleftrightarrow> (case p of [] \<Rightarrow> False | c # _ \<Rightarrow> c = slash)"

definition clean_step :: "bool \<Rightarrow> string list \<Rightarrow> string \<Rightarrow> string list" where
  "clean_step r st c =
     (if c = ''..''
      then (if st \<noteq> [] \<and> last st \<noteq> ''..'' then butlast st
            else if r then st else st @ [''..''])
      else st @ [c])"

definition filepath_Clean :: "string \<Rightarrow> string" where
  "filepath_Clean p =
     (let out = (if rooted p then [slash] else []) @
            join_with slash (foldl (clean_step (rooted p)) [] (components p))
      in if out = [] then ''.'' else out)"

definition filepath_Abs :: "string \<Rightarrow> string \<Rightarrow> string" where
  "filepath_Abs cwd p = (if rooted p then filepath_Clean p
     else filepath_Clean (if p = [] then cwd else cwd @ slash # p))"

text \<open>\<open>Dir\<close> of the part up to and including the last separator.\<close>

definition filepath_Dir :: "string \<Rightarrow> string" where
  "filepath_Dir p = filepath_Clean (rev (dropWhile (\<lambda>c. c \<noteq> slash) (rev p)))"

section \<open>Absolute names\<close>

text \<open>The normal form of an absolute name: its components, none of them special.\<close>

definition proper :: "string \<Rightarrow> bool" where
  "proper c \<longleftrightarrow> c \<noteq> [] \<and> c \<noteq> ''.'' \<and> c \<noteq> ''..'' \<and> slash \<notin> set c"

definition render :: "string list \<Rightarrow> string" where
  "render cs = slash # join_with slash cs"

definition walk :: "string list \<Rightarrow> string list \<Rightarrow> string list" where
  "walk st cs = foldl (\<lambda>st c. if c = ''..'' then butlast st else st @ [c]) st cs"

lemma split_on_Nil_iff [simp]: "split_on c xs \<noteq> []"
  by (induction xs) (auto split: list.splits)

lemma split_on_append: "split_on c (xs @ c # ys) = split_on c xs @ split_on c ys"
  by (induction xs) (auto split: list.splits)

lemma split_on_word: "c \<notin> set xs \<Longrightarrow> split_on c xs = [xs]"
  by (induction xs) auto

lemma split_on_mem: "w \<in> set (split_on c xs) \<Longrightarrow> c \<notin> set w"
proof (induction xs arbitrary: w)
  case (Cons x xs)
  then show ?case by (cases "split_on c xs") (auto split: if_splits)
qed simp

lemma split_join: "ws \<noteq> [] \<Longrightarrow> \<forall>w \<in> set ws. c \<notin> set w \<Longrightarrow> split_on c (join_with c ws) = ws"
  by (induction c ws rule: join_with.induct) (auto simp: split_on_append split_on_word)

lemma join_with_snoc: "ws \<noteq> [] \<Longrightarrow> join_with c (ws @ [w]) = join_with c ws @ c # w"
  by (induction c ws rule: join_with.induct) auto

lemma components_append: "components (p @ slash # q) = components p @ components q"
  by (simp add: components_def split_on_append)

lemma components_Nil [simp]: "components [] = []"
  by (simp add: components_def)

lemma components_slash [simp]: "components (slash # p) = components p"
  by (simp add: components_def)

lemma components_mem: "c \<in> set (components p) \<Longrightarrow> c \<noteq> [] \<and> c \<noteq> ''.'' \<and> slash \<notin> set c"
  by (auto simp: components_def dest: split_on_mem)

lemma components_word: "slash \<notin> set w \<Longrightarrow> components w = (if w = [] \<or> w = ''.'' then [] else [w])"
  by (simp add: components_def split_on_word)

lemma components_render:
  assumes "\<forall>c \<in> set cs. proper c"
  shows "components (render cs) = cs"
proof (cases "cs = []")
  case False
  have "components (render cs) = filter (\<lambda>c. c \<noteq> [] \<and> c \<noteq> ''.'') cs"
    using split_join [OF False, of slash] assms
    by (simp add: components_def render_def proper_def)
  also have "\<dots> = cs" using assms by (simp add: proper_def)
  finally show ?thesis .
qed (simp add: render_def)

lemma walk_simps [simp]:
  "walk st [] = st"
  "walk st (c # cs) = walk (if c = ''..'' then butlast st else st @ [c]) cs"
  by (simp_all add: walk_def)

lemma walk_append: "walk st (cs @ ds) = walk (walk st cs) ds"
  by (simp add: walk_def)

lemma walk_proper:
  "\<forall>c \<in> set st. proper c \<Longrightarrow> \<forall>c \<in> set cs. c \<noteq> [] \<and> c \<noteq> ''.'' \<and> slash \<notin> set c \<Longrightarrow>
     \<forall>c \<in> set (walk st cs). proper c"
proof (induction cs arbitrary: st)
  case (Cons c cs)
  show ?case
  proof (cases "c = ''..''")
    case True
    have "\<forall>c \<in> set (butlast st). proper c" using Cons.prems(1) by (meson in_set_butlastD)
    with Cons True show ?thesis by simp
  next
    case False
    with Cons.prems have "\<forall>c \<in> set (st @ [c]). proper c" by (auto simp: proper_def)
    from Cons.IH [OF this] Cons.prems(2) False show ?thesis by simp
  qed
qed simp

lemma walk_id: "\<forall>c \<in> set cs. proper c \<Longrightarrow> walk st cs = st @ cs"
  by (induction cs arbitrary: st) (auto simp: proper_def)

lemma clean_walk:
  "\<forall>c \<in> set st. proper c \<Longrightarrow> \<forall>c \<in> set cs. c \<noteq> [] \<and> c \<noteq> ''.'' \<and> slash \<notin> set c \<Longrightarrow>
     foldl (clean_step True) st cs = walk st cs"
proof (induction cs arbitrary: st)
  case (Cons c cs)
  show ?case
  proof (cases "c = ''..''")
    case True
    have "st \<noteq> [] \<Longrightarrow> last st \<noteq> ''..''" using Cons.prems(1) by (auto simp: proper_def)
    moreover have "\<forall>c \<in> set (butlast st). proper c" using Cons.prems(1) by (meson in_set_butlastD)
    ultimately show ?thesis using Cons True by (cases "st = []") (simp_all add: clean_step_def)
  next
    case False
    with Cons.prems have "\<forall>c \<in> set (st @ [c]). proper c" by (auto simp: proper_def)
    with Cons False show ?thesis by (simp add: clean_step_def)
  qed
qed simp

text \<open>Cleaning a rooted name walks its components.\<close>

lemma Clean_rooted: "rooted p \<Longrightarrow> filepath_Clean p = render (walk [] (components p))"
  using clean_walk [of "[]" "components p"] components_mem
  by (simp add: filepath_Clean_def render_def)

definition absolute :: "string \<Rightarrow> bool" where
  "absolute p \<longleftrightarrow> (\<exists>cs. (\<forall>c \<in> set cs. proper c) \<and> p = render cs)"

lemma rooted_render [simp]: "rooted (render cs)"
  by (simp add: rooted_def render_def)

lemma Abs_walk:
  assumes "\<forall>c \<in> set cs. proper c"
  shows "filepath_Abs (render cs) p = render (walk (if rooted p then [] else cs) (components p))"
proof (cases "rooted p")
  case False
  have "rooted (if p = [] then render cs else render cs @ slash # p)"
    by (simp add: rooted_def render_def)
  with False show ?thesis
    using components_render [OF assms] walk_id [OF assms, of "[]"]
    by (auto simp: filepath_Abs_def Clean_rooted components_append walk_append)
qed (simp add: filepath_Abs_def Clean_rooted)

lemma Abs_absolute:
  assumes "absolute cwd"
  shows "absolute (filepath_Abs cwd p)"
proof -
  obtain cs where cs: "\<forall>c \<in> set cs. proper c" "cwd = render cs"
    using assms by (auto simp: absolute_def)
  have "\<forall>c \<in> set (walk (if rooted p then [] else cs) (components p)). proper c"
    using cs(1) components_mem by (intro walk_proper) auto
  then show ?thesis unfolding absolute_def cs(2) Abs_walk [OF cs(1)] by blast
qed

lemma Abs_idem:
  assumes "absolute p"
  shows "filepath_Abs cwd p = p"
proof -
  obtain cs where "\<forall>c \<in> set cs. proper c" "p = render cs"
    using assms by (auto simp: absolute_def)
  then show ?thesis
    using walk_id [of cs "[]"] by (simp add: filepath_Abs_def Clean_rooted components_render)
qed

end
