(* ===== verification/Abspath.thy ===== *)
theory Abspath
  imports Paths
begin

text \<open>
  \<open>src/c/utils.c\<close>: \<open>abspath\<close>, the lexical \<open>realpath\<close> with which the C layer decides
  whether a path lies under a mount point. The buffer \<open>rpath\<close> is the string up to \<open>dest\<close>
  with its allocated size, and every store into it is checked against that size: a store beyond
  it is the outcome \<open>Panic\<close>.
\<close>

definition PATH_MAX :: nat where
  "PATH_MAX = 4096"

definition EINVAL :: int where "EINVAL = 22"
definition ENOENT :: int where "ENOENT = 2"
definition ENOMEM :: int where "ENOMEM = 12"

text \<open>\<open>*dest++ = c\<close>, and the \<open>*dest = 0\<close> that needs a free byte at \<open>dest\<close>.\<close>

definition store_char :: "nat \<Rightarrow> string \<Rightarrow> char \<Rightarrow> string result" where
  "store_char cap r c =
     (if length r < cap then Ok (r @ [c]) else Panic ''heap buffer overflow'')"

definition store_nul :: "nat \<Rightarrow> string \<Rightarrow> string result" where
  "store_nul cap r = (if length r < cap then Ok r else Panic ''heap buffer overflow'')"

text \<open>\<open>while ((--dest)[-1] != '/');\<close>\<close>

fun back_up :: "string \<Rightarrow> string result" where
  "back_up r =
     (if length r \<le> 1 then Panic ''read before the buffer''
      else if last (butlast r) = slash then Ok (butlast r)
      else back_up (butlast r))"

declare back_up.simps [simp del]

definition then_r :: "'a result \<Rightarrow> ('a \<Rightarrow> 'b result) \<Rightarrow> 'b result" where
  "then_r m f = (case m of Ok x \<Rightarrow> f x | Panic e \<Rightarrow> Panic e | Exit n \<Rightarrow> Exit n)"

text \<open>
  Appending a component: a separator when there is none, more room when the component would
  reach the limit, then the copy. \<open>None\<close> when \<open>realloc\<close> fails.
\<close>

definition append_component ::
  "(nat \<Rightarrow> bool) \<Rightarrow> string \<Rightarrow> nat \<Rightarrow> string \<Rightarrow> (string \<times> nat) option result" where
  "append_component mem_ok r cap w =
     (if r = [] then Panic ''read before the buffer''
      else
      then_r (if last r \<noteq> slash then store_char cap r slash else Ok r) (\<lambda>r.
        let grow = length r + length w \<ge> cap;
            new_size = cap + (if length w + 1 > PATH_MAX then length w + 1 else PATH_MAX)
        in if grow \<and> \<not> mem_ok new_size then Ok None
           else
             let cap = (if grow then new_size else cap)
             in if length r + length w > cap then Panic ''heap buffer overflow''
                else then_r (store_nul cap (r @ w)) (\<lambda>r. Ok (Some (r, cap)))))"

lemma rest_shorter:
  assumes "takeWhile (\<lambda>c. c \<noteq> slash) (dropWhile (\<lambda>c. c = slash) s) \<noteq> []"
  shows "length (dropWhile (\<lambda>c. c \<noteq> slash) (dropWhile (\<lambda>c. c = slash) s)) < length s"
proof -
  let ?t = "dropWhile (\<lambda>c. c = slash) s"
  have "length ?t = length (takeWhile (\<lambda>c. c \<noteq> slash) ?t) + length (dropWhile (\<lambda>c. c \<noteq> slash) ?t)"
    by (metis length_append takeWhile_dropWhile_id)
  moreover have "length ?t \<le> length s" by (rule length_dropWhile_le)
  moreover have "0 < length (takeWhile (\<lambda>c. c \<noteq> slash) ?t)" using assms by simp
  ultimately show ?thesis by linarith
qed

text \<open>The loop over the name: \<open>s\<close> is what is left of it.\<close>

function abspath_loop ::
  "(nat \<Rightarrow> bool) \<Rightarrow> string \<Rightarrow> nat \<Rightarrow> string \<Rightarrow> (string \<times> nat) option result" where
  "abspath_loop mem_ok r cap s =
     (if s = [] then Ok (Some (r, cap))
      else
        let start = dropWhile (\<lambda>c. c = slash) s;
            w = takeWhile (\<lambda>c. c \<noteq> slash) start;
            rest = dropWhile (\<lambda>c. c \<noteq> slash) start
        in if w = [] then Ok (Some (r, cap))
           else if w = ''.'' then abspath_loop mem_ok r cap rest
           else if w = ''..'' then
             (if length r > 1
              then (case back_up r of
                      Ok r \<Rightarrow> abspath_loop mem_ok r cap rest
                    | Panic e \<Rightarrow> Panic e
                    | Exit n \<Rightarrow> Exit n)
              else abspath_loop mem_ok r cap rest)
           else (case append_component mem_ok r cap w of
                   Ok None \<Rightarrow> Ok None
                 | Ok (Some (r, cap)) \<Rightarrow> abspath_loop mem_ok r cap rest
                 | Panic e \<Rightarrow> Panic e
                 | Exit n \<Rightarrow> Exit n))"
  by pat_completeness auto

termination
  by (relation "measure (\<lambda>(_, _, _, s). length s)") (simp_all add: rest_shorter)

declare abspath_loop.simps [simp del]

text \<open>
  \<open>mem_ok n\<close> says whether an allocation of \<open>n\<close> bytes succeeds; \<open>cwd\<close> is what
  \<open>getcwd\<close> returns, or the error it sets. The result is the new string or \<open>NULL\<close>, with the
  value the call leaves in \<open>errno\<close> when it sets one.
\<close>

definition abspath ::
  "(nat \<Rightarrow> bool) \<Rightarrow> int + string \<Rightarrow> string option \<Rightarrow> (string option \<times> int option) result" where
  "abspath mem_ok cwd name =
     (case name of
        None \<Rightarrow> Ok (None, Some EINVAL)
      | Some name \<Rightarrow>
          if name = [] then Ok (None, Some ENOENT)
          else if \<not> mem_ok PATH_MAX then Ok (None, Some ENOMEM)
          else
            (let start = (if hd name \<noteq> slash then cwd else Inr [slash])
             in case start of
                  Inl e \<Rightarrow> Ok (None, Some e)
                | Inr r \<Rightarrow>
                    then_r (abspath_loop mem_ok r PATH_MAX name) (\<lambda>x.
                      case x of
                        None \<Rightarrow> Ok (None, Some ENOMEM)
                      | Some (r, cap) \<Rightarrow>
                          then_r (store_nul cap (if length r > 1 \<and> last r = slash then butlast r else r))
                            (\<lambda>r. Ok (Some r, None)))))"

section \<open>The buffer holds the components walked so far\<close>

definition rep :: "string \<Rightarrow> string list \<Rightarrow> bool" where
  "rep r cs \<longleftrightarrow> (\<forall>c \<in> set cs. proper c) \<and> (r = render cs \<or> cs \<noteq> [] \<and> r = render cs @ [slash])"

lemma render_snoc: "render (cs @ [w]) = (if cs = [] then slash # w else render cs @ slash # w)"
  by (simp add: render_def join_with_snoc)

lemma render_last: "cs \<noteq> [] \<Longrightarrow> \<forall>c \<in> set cs. proper c \<Longrightarrow> last (render cs) \<noteq> slash"
proof (induction cs rule: rev_induct)
  case (snoc w cs)
  then have "w \<noteq> []" "slash \<notin> set w" by (auto simp: proper_def)
  moreover from this have "last w \<noteq> slash" by (metis last_in_set)
  ultimately show ?case by (auto simp: render_snoc)
qed simp

lemma render_length: "1 \<le> length (render cs)"
  by (simp add: render_def)

lemma back_up_word:
  "w \<noteq> [] \<Longrightarrow> slash \<notin> set w \<Longrightarrow> back_up (x @ slash # w) = Ok (x @ [slash])"
proof (induction w rule: rev_induct)
  case (snoc c w)
  show ?case
  proof (cases "w = []")
    case True
    then show ?thesis by (subst back_up.simps) (simp add: butlast_append)
  next
    case False
    with snoc.prems have "last w \<noteq> slash" by (metis in_set_conv_decomp last_in_set Un_iff set_append)
    with False snoc show ?thesis by (subst back_up.simps) (simp add: butlast_append)
  qed
qed simp

lemma back_up_slash:
  assumes "w \<noteq> []" and "slash \<notin> set w"
  shows "back_up (x @ slash # w @ [slash]) = Ok (x @ [slash])"
proof -
  have "last w \<noteq> slash" using assms by (metis last_in_set)
  with assms back_up_word [OF assms, of x] show ?thesis
    by (subst back_up.simps) (simp add: butlast_append)
qed

lemma back_up_rep:
  assumes "rep r cs" and "1 < length r"
  shows "\<exists>r'. back_up r = Ok r' \<and> rep r' (butlast cs) \<and> length r' \<le> length r"
proof -
  have "cs \<noteq> []" using assms by (auto simp: rep_def render_def)
  then obtain ds w where cs: "cs = ds @ [w]" by (meson rev_exhaust)
  have w: "w \<noteq> []" "slash \<notin> set w" and ds: "\<forall>c \<in> set ds. proper c"
    using assms(1) by (auto simp: rep_def cs proper_def)
  let ?x = "if ds = [] then [] else render ds"
  have r: "r = ?x @ slash # w \<or> r = ?x @ slash # w @ [slash]"
    using assms(1) by (auto simp: rep_def cs render_snoc split: if_splits)
  have "rep (?x @ [slash]) ds" using ds by (auto simp: rep_def render_def)
  with r back_up_word [OF w, of ?x] back_up_slash [OF w, of ?x] show ?thesis
    unfolding cs by (intro exI [of _ "?x @ [slash]"]) (auto simp del: append.simps)
qed

lemma rep_long:
  assumes "rep r cs" and "cs \<noteq> []"
  shows "1 < length r"
proof -
  obtain ds w where cs: "cs = ds @ [w]" using assms(2) by (meson rev_exhaust)
  then have "w \<noteq> []" using assms(1) by (auto simp: rep_def proper_def)
  then show ?thesis using assms(1) by (auto simp: rep_def cs render_snoc Suc_less_eq2)
qed

lemma append_component_rep:
  assumes "rep r cs" and "length r < cap" and w: "proper w"
  shows "append_component mem_ok r cap w = Ok None \<and> (\<exists>n. \<not> mem_ok n) \<or>
    (\<exists>cap'. append_component mem_ok r cap w = Ok (Some (render (cs @ [w]), cap')) \<and>
       length (render (cs @ [w])) < cap')"
proof -
  have ne: "r \<noteq> []" using assms(1) by (auto simp: rep_def render_def)
  define q where "q = (if last r \<noteq> slash then r @ [slash] else r)"
  define new where "new = cap + (if length w + 1 > PATH_MAX then length w + 1 else PATH_MAX)"
  define cap' where "cap' = (if cap \<le> length q + length w then new else cap)"
  have q: "q @ w = render (cs @ [w])"
    using assms(1) render_last [of cs] w
    by (auto simp: rep_def render_snoc q_def) (auto simp: render_def)
  have "length q \<le> cap" using assms(2) by (simp add: q_def)
  then have len: "length (q @ w) < cap'" by (auto simp: cap'_def new_def PATH_MAX_def)
  have sep: "(if last r \<noteq> slash then store_char cap r slash else Ok r) = Ok q"
    using assms(2) by (simp add: store_char_def q_def)
  have "append_component mem_ok r cap w =
      (if cap \<le> length q + length w \<and> \<not> mem_ok new then Ok None else Ok (Some (q @ w, cap')))"
    using ne len unfolding append_component_def sep then_r_def result.case Let_def
      new_def [symmetric] cap'_def [symmetric] store_nul_def
    by (simp only: if_not_P if_True length_append not_less) simp
  with len show ?thesis unfolding q by auto
qed

section \<open>The loop walks the components\<close>

lemma components_all_slashes: "dropWhile (\<lambda>c. c = slash) s = [] \<Longrightarrow> components s = []"
  by (induction s) (auto split: if_splits)

lemma components_skip: "components (dropWhile (\<lambda>c. c = slash) s) = components s"
  by (induction s) auto

lemma components_word_rest:
  fixes t :: string
  defines "w \<equiv> takeWhile (\<lambda>c. c \<noteq> slash) t" and "rest \<equiv> dropWhile (\<lambda>c. c \<noteq> slash) t"
  shows "components t = components w @ components rest"
proof -
  have t: "t = w @ rest" by (simp add: w_def rest_def)
  show ?thesis
  proof (cases rest)
    case Nil
    with t show ?thesis by simp
  next
    case (Cons c u)
    then have "c = slash" by (auto simp: rest_def dropWhile_eq_Cons_conv)
    with Cons have "w @ rest = w @ slash # u" by simp
    then show ?thesis unfolding t using Cons \<open>c = slash\<close> by (simp add: components_append)
  qed
qed

lemma components_next:
  fixes s :: string
  defines "w \<equiv> takeWhile (\<lambda>c. c \<noteq> slash) (dropWhile (\<lambda>c. c = slash) s)"
    and "rest \<equiv> dropWhile (\<lambda>c. c \<noteq> slash) (dropWhile (\<lambda>c. c = slash) s)"
  shows "w = [] \<Longrightarrow> components s = []"
    and "w \<noteq> [] \<Longrightarrow> components s = (if w = ''.'' then [] else [w]) @ components rest"
proof -
  have no: "slash \<notin> set w" unfolding w_def by (auto dest: set_takeWhileD)
  show "components s = []" if "w = []"
  proof -
    have "dropWhile (\<lambda>c. c = slash) s = []"
      using that unfolding w_def by (metis hd_dropWhile takeWhile_eq_Nil_iff)
    then show ?thesis by (rule components_all_slashes)
  qed
  show "components s = (if w = ''.'' then [] else [w]) @ components rest" if "w \<noteq> []"
    using components_word_rest [of "dropWhile (\<lambda>c. c = slash) s"] components_skip [of s]
      components_word [OF no] that by (simp add: w_def rest_def)
qed

lemma abspath_loop_rep:
  assumes "rep r cs" and "length r < cap"
  shows "abspath_loop mem_ok r cap s = Ok None \<and> (\<exists>n. \<not> mem_ok n) \<or>
    (\<exists>r' cap'. abspath_loop mem_ok r cap s = Ok (Some (r', cap')) \<and>
       rep r' (walk cs (components s)) \<and> length r' < cap')"
  using assms
proof (induction "length s" arbitrary: r cs cap s rule: less_induct)
  case less
  let ?w = "takeWhile (\<lambda>c. c \<noteq> slash) (dropWhile (\<lambda>c. c = slash) s)"
  let ?rest = "dropWhile (\<lambda>c. c \<noteq> slash) (dropWhile (\<lambda>c. c = slash) s)"
  note step = abspath_loop.simps [of mem_ok r cap s]
  note comps = components_next [of s]
  show ?case
  proof (cases "?w = []")
    case True
    then have "abspath_loop mem_ok r cap s = Ok (Some (r, cap))" using step by auto
    with less.prems comps(1) [OF True] show ?thesis by simp
  next
    case False
    note IH = less.hyps [OF rest_shorter [OF False]]
    have s: "s \<noteq> []" using False by auto
    have no: "slash \<notin> set ?w" by (auto dest: set_takeWhileD)
    consider "?w = ''.''" | "?w = ''..''" "1 < length r" | "?w = ''..''" "\<not> 1 < length r" | "proper ?w"
      using False no by (auto simp: proper_def)
    then show ?thesis
    proof cases
      case 1
      have "abspath_loop mem_ok r cap s = abspath_loop mem_ok r cap ?rest"
        using step s False 1 by (simp add: Let_def)
      moreover have "components s = components ?rest" using comps(2) [OF False] 1 by simp
      ultimately show ?thesis using IH [OF less.prems] by simp
    next
      case 2
      then obtain r' where r': "back_up r = Ok r'" "rep r' (butlast cs)" "length r' \<le> length r"
        using back_up_rep [OF less.prems(1)] by blast
      have "abspath_loop mem_ok r cap s = abspath_loop mem_ok r' cap ?rest"
        using step s False 2 r'(1) by (simp add: Let_def)
      moreover have "components s = ''..'' # components ?rest" using comps(2) [OF False] 2(1) by simp
      ultimately show ?thesis using IH [OF r'(2)] r'(3) less.prems(2) by simp
    next
      case 3
      have "cs = []" using rep_long [OF less.prems(1)] 3(2) by auto
      have "abspath_loop mem_ok r cap s = abspath_loop mem_ok r cap ?rest"
        using step s False 3 by (simp add: Let_def)
      moreover have "components s = ''..'' # components ?rest" using comps(2) [OF False] 3(1) by simp
      ultimately show ?thesis using IH [OF less.prems] \<open>cs = []\<close> by simp
    next
      case 4
      have c: "components s = ?w # components ?rest" and w: "?w \<noteq> ''.''" "?w \<noteq> ''..''"
        using comps(2) [OF False] 4 by (simp_all add: proper_def)
      from append_component_rep [OF less.prems 4, of mem_ok] consider
          "append_component mem_ok r cap ?w = Ok None" "\<exists>n. \<not> mem_ok n"
        | cap' where "append_component mem_ok r cap ?w = Ok (Some (render (cs @ [?w]), cap'))"
          "length (render (cs @ [?w])) < cap'"
        by blast
      then show ?thesis
      proof cases
        case 1
        then have "abspath_loop mem_ok r cap s = Ok None"
          using step s False w by (simp add: Let_def)
        with 1 show ?thesis by blast
      next
        case (2 cap')
        have "abspath_loop mem_ok r cap s = abspath_loop mem_ok (render (cs @ [?w])) cap' ?rest"
          using step s False w 2(1) by (simp add: Let_def)
        moreover have "rep (render (cs @ [?w])) (cs @ [?w])"
          using less.prems(1) 4 by (simp add: rep_def)
        ultimately show ?thesis using IH 2(2) c w by simp
      qed
    qed
  qed
qed

lemma abspath_run:
  assumes "absolute cwd" and "length cwd < PATH_MAX" and "name \<noteq> []"
  shows "abspath mem_ok (Inr cwd) (Some name) = Ok (Some (filepath_Abs cwd name), None) \<or>
    abspath mem_ok (Inr cwd) (Some name) = Ok (None, Some ENOMEM) \<and> (\<exists>n. \<not> mem_ok n)"
proof -
  obtain cs where cs: "\<forall>c \<in> set cs. proper c" "cwd = render cs"
    using assms(1) by (auto simp: absolute_def)
  let ?cs = "if rooted name then [] else cs"
  let ?r = "if hd name \<noteq> slash then cwd else [slash]"
  have root: "rooted name \<longleftrightarrow> hd name = slash" using assms(3) by (cases name) (auto simp: rooted_def)
  have "rep ?r ?cs" using cs root by (auto simp: rep_def render_def)
  moreover have "length ?r < PATH_MAX" using assms(2) by (simp add: PATH_MAX_def)
  ultimately consider "abspath_loop mem_ok ?r PATH_MAX name = Ok None" "\<exists>n. \<not> mem_ok n"
    | r cap where "abspath_loop mem_ok ?r PATH_MAX name = Ok (Some (r, cap))"
      "rep r (walk ?cs (components name))" "length r < cap"
    using abspath_loop_rep by meson
  note loop = this
  have run: "abspath mem_ok (Inr cwd) (Some name) =
      (if \<not> mem_ok PATH_MAX then Ok (None, Some ENOMEM)
       else then_r (abspath_loop mem_ok ?r PATH_MAX name) (\<lambda>x. case x of
           None \<Rightarrow> Ok (None, Some ENOMEM)
         | Some (r, cap) \<Rightarrow> then_r (store_nul cap (if length r > 1 \<and> last r = slash then butlast r else r))
             (\<lambda>r. Ok (Some r, None))))"
    using assms(3) by (simp add: abspath_def)
  from loop show ?thesis
  proof cases
    case 1
    then show ?thesis unfolding run by (simp only: then_r_def result.case option.case) simp
  next
    case 2
    let ?out = "if 1 < length r \<and> last r = slash then butlast r else r"
    have "?out = render (walk ?cs (components name))"
    proof (cases "walk ?cs (components name) = []")
      case True
      with 2(2) have "r = [slash]" by (simp add: rep_def render_def)
      with True show ?thesis by (simp add: render_def)
    next
      case False
      have "\<forall>c \<in> set (walk ?cs (components name)). proper c" using 2(2) by (simp add: rep_def)
      from render_last [OF False this] 2(2) False render_length [of "walk ?cs (components name)"]
      show ?thesis by (auto simp: rep_def)
    qed
    also have "\<dots> = filepath_Abs cwd name"
      unfolding cs(2) by (rule Abs_walk [OF cs(1), symmetric])
    finally have out: "?out = filepath_Abs cwd name" .
    have "length ?out < cap" using 2(3) by auto
    then have "then_r (abspath_loop mem_ok ?r PATH_MAX name) (\<lambda>x. case x of
           None \<Rightarrow> Ok (None, Some ENOMEM)
         | Some (r, cap) \<Rightarrow> then_r (store_nul cap (if length r > 1 \<and> last r = slash then butlast r else r))
             (\<lambda>r. Ok (Some r, None))) = Ok (Some (filepath_Abs cwd name), None)"
      unfolding 2(1) then_r_def result.case option.case prod.case store_nul_def out
      by simp
    then show ?thesis unfolding run by (cases "mem_ok PATH_MAX") (simp_all only: simp_thms if_True if_False, blast)
  qed
qed

end
