(* ===== verification/Cworld.thy ===== *)
theory Cworld
  imports Abspath
begin

unbundle bit_operations_syntax

text \<open>
  The process the C layer lives in: its memory and streams, the C library behind it, the Go
  layer beside it, and the file-scope variables of \<open>src/c/pdwfs.c\<close> and \<open>src/c/libc.c\<close>.
  The library and the Go layer are parameters (\<open>cenv\<close> and \<open>golayer\<close>), the latter given
  later by the model of \<open>src/go/pdwfs.go\<close>.
\<close>

named_theorems c_simps \<open>unfolding of the C layer's building blocks\<close>

section \<open>Machine integers of C\<close>

text \<open>A plain \<open>char\<close>, signed on the platforms the library is built for.\<close>

definition char_to_int :: "byte \<Rightarrow> int" where
  "char_to_int b = sint b"

definition EOF :: int where "EOF = - 1"
definition SEEK_SET :: int where "SEEK_SET = 0"
definition SEEK_CUR :: int where "SEEK_CUR = 1"
definition SEEK_END :: int where "SEEK_END = 2"
definition BUFSIZ :: nat where "BUFSIZ = 8192"
definition EOPNOTSUPP :: int where "EOPNOTSUPP = 95"

section \<open>Memory, streams, structs\<close>

text \<open>
  A pointer into the heap is a block and an offset. The streams are the \<open>FILE\<close> objects; the
  fields \<open>eof_seen\<close> and \<open>err_seen\<close> are the bits \<open>_IO_EOF_SEEN\<close> and \<open>_IO_ERR_SEEN\<close>
  of \<open>_flags\<close>. Stream 0 is \<open>NULL\<close>. The variables of type \<open>char *\<close> and \<open>size_t\<close> whose
  address is passed to a function are numbered, number 0 being the locals of \<open>fgets\<close>.
\<close>

datatype cptr = Null | At nat nat

record FILE =
  fno :: int
  eof_seen :: bool
  err_seen :: bool

record cstat =
  st_mode :: int
  st_size :: int

record cstatfs =
  f_type :: int
  f_bsize :: int
  f_blocks :: int
  f_bfree :: int
  f_bavail :: int
  f_files :: int
  f_ffree :: int

record 's osw =
  errno :: int
  heap :: "nat \<Rightarrow> bytes option"
  next_block :: nat
  streams :: "nat \<Rightarrow> FILE option"
  ptr_vars :: "nat \<Rightarrow> cptr"
  size_vars :: "nat \<Rightarrow> nat"
  stats :: "nat \<Rightarrow> cstat"
  statfss :: "nat \<Rightarrow> cstatfs"
  sys :: 's

type_synonym iovec = "cptr \<times> nat"

text \<open>
  The arguments and results of C functions. \<open>COpaque\<close> is a pointer nothing in this library
  looks through (\<open>fpos_t *\<close>, the \<open>argp\<close> of \<open>ioctl\<close>, \<open>DIR *\<close>).
\<close>

datatype cval =
    CInt int
  | CStr "string option"
  | CPtr cptr
  | CStream nat

  | CIov "iovec list"
  | CStat nat
  | CPtrVar nat
  | CSizeVar nat
  | COpaque nat
  | CVoid

definition as_int :: "cval \<Rightarrow> int" where
  "as_int v = (case v of CInt n \<Rightarrow> n | _ \<Rightarrow> 0)"

lemma as_int_CInt [simp]: "as_int (CInt n) = n"
  by (simp add: as_int_def)

section \<open>The library behind, and the Go layer beside\<close>

datatype dlsym_result = DlError string | DlNull | DlFound

text \<open>
  \<open>next symb args\<close> is the function \<open>symb\<close> of the library the process would use without
  pdwfs, the one \<open>dlsym(RTLD_NEXT, symb)\<close> finds. \<open>tmpfile\<close> returns a stream.
\<close>

record 's cenv =
  env_ctraces :: bool
  getcwd :: "int + string"
  malloc_ok :: "nat \<Rightarrow> bool"
  dlsym :: "string \<Rightarrow> dlsym_result"
  call_next :: "string \<Rightarrow> cval list \<Rightarrow> 's osw \<Rightarrow> cval \<times> 's osw"
  tmpfile :: "'s osw \<Rightarrow> nat \<times> 's osw"

text \<open>
  The functions the Go layer exports to C, by name. A slice the callee fills is passed with its
  contents and comes back with the new ones; a \<open>struct\<close> it fills comes back when it did.
\<close>

record 'g golayer =
  InitPdwfs_go :: "('g, string list) prog"
  FinalizePdwfs_go :: "('g, unit) prog"
  GetErrno_go :: "'g \<Rightarrow> int"
  Open_go :: "string \<Rightarrow> int \<Rightarrow> int \<Rightarrow> int \<Rightarrow> ('g, int) prog"
  Fopen_go :: "string \<Rightarrow> string \<Rightarrow> int \<Rightarrow> ('g, int) prog"
  Close_go :: "int \<Rightarrow> ('g, int) prog"
  Write_go :: "int \<Rightarrow> bytes \<Rightarrow> ('g, int) prog"
  Pwrite_go :: "int \<Rightarrow> bytes \<Rightarrow> int \<Rightarrow> ('g, int) prog"
  Writev_go :: "int \<Rightarrow> bytes list \<Rightarrow> ('g, int) prog"
  Pwritev_go :: "int \<Rightarrow> bytes list \<Rightarrow> int \<Rightarrow> ('g, int) prog"
  Read_go :: "int \<Rightarrow> bytes \<Rightarrow> ('g, int \<times> bytes) prog"
  Pread_go :: "int \<Rightarrow> bytes \<Rightarrow> int \<Rightarrow> ('g, int \<times> bytes) prog"
  Readv_go :: "int \<Rightarrow> bytes list \<Rightarrow> ('g, int \<times> bytes list) prog"
  Preadv_go :: "int \<Rightarrow> bytes list \<Rightarrow> int \<Rightarrow> ('g, int \<times> bytes list) prog"
  Lseek_go :: "int \<Rightarrow> int \<Rightarrow> int \<Rightarrow> ('g, int) prog"
  Ftruncate_go :: "int \<Rightarrow> int \<Rightarrow> ('g, int) prog"
  Unlink_go :: "string \<Rightarrow> ('g, int) prog"
  Mkdir_go :: "string \<Rightarrow> int \<Rightarrow> ('g, int) prog"
  Rmdir_go :: "string \<Rightarrow> ('g, int) prog"
  Access_go :: "string \<Rightarrow> int \<Rightarrow> ('g, int) prog"
  Stat_go :: "string \<Rightarrow> ('g, int \<times> cstat option) prog"
  Stat64_go :: "string \<Rightarrow> ('g, int \<times> cstat option) prog"
  Lstat_go :: "string \<Rightarrow> ('g, int \<times> cstat option) prog"
  Lstat64_go :: "string \<Rightarrow> ('g, int \<times> cstat option) prog"
  Fstat_go :: "int \<Rightarrow> ('g, int \<times> cstat option) prog"
  Fstat64_go :: "int \<Rightarrow> ('g, int \<times> cstat option) prog"
  Statfs_go :: "string \<Rightarrow> ('g, int \<times> cstatfs) prog"
  Statfs64_go :: "string \<Rightarrow> ('g, int \<times> cstatfs) prog"
  Statvfs_go :: "string \<Rightarrow> ('g, int \<times> int) prog"
  Statvfs64_go :: "string \<Rightarrow> ('g, int \<times> int) prog"
  Fadvise_go :: "int \<Rightarrow> int \<Rightarrow> int \<Rightarrow> int \<Rightarrow> ('g, int) prog"
  Fflush_go :: "nat \<Rightarrow> ('g, int) prog"

section \<open>The state of the C layer\<close>

text \<open>
  \<open>trace_libc\<close> and \<open>trace_pdwfs\<close> are the two variables \<open>g_do_trace\<close>; \<open>ptrs\<close> are the
  symbols whose \<open>ptr_\<close> variable is not \<open>NULL\<close>; \<open>stderr_log\<close> are the messages written
  to the standard error, each by the function or symbol it names.
\<close>

record ('g, 's) cstate =
  pdwfs_initialized :: bool
  mount_register :: "string list"
  fd_register :: "int list"
  trace_pdwfs :: int
  trace_libc :: int
  ptrs :: "string list"
  stderr_log :: "string list"
  golang :: 'g
  os :: "'s osw"

definition upd_os :: "('s osw \<Rightarrow> 's osw) \<Rightarrow> (('g, 's) cstate, unit) prog" where
  "upd_os f = modify (\<lambda>s. s\<lparr> os := f (os s) \<rparr>)"

definition set_errno :: "int \<Rightarrow> (('g, 's) cstate, unit) prog" where
  "set_errno e = upd_os (\<lambda>w. w\<lparr> errno := e \<rparr>)"

text \<open>Running Go code from C.\<close>

definition go_call :: "('g, 'a) prog \<Rightarrow> (('g, 's) cstate, 'a) prog" where
  "go_call m = (\<lambda>s. case m (golang s) of
       Ok (x, g) \<Rightarrow> Ok (x, s\<lparr> golang := g \<rparr>)
     | Panic e \<Rightarrow> Panic e
     | Exit n \<Rightarrow> Exit n)"

definition segfault :: "(('g, 's) cstate, 'a) prog" where
  "segfault = panic ''Segmentation fault''"

definition load :: "cptr \<Rightarrow> nat \<Rightarrow> (('g, 's) cstate, bytes) prog" where
  "load p n = (if n = 0 then return [] else
     case p of
       Null \<Rightarrow> segfault
     | At b off \<Rightarrow> (\<lambda>s. case heap (os s) b of
           None \<Rightarrow> segfault s
         | Some v \<Rightarrow> if off + n \<le> length v then Ok (take n (drop off v), s) else segfault s))"

definition store :: "cptr \<Rightarrow> bytes \<Rightarrow> (('g, 's) cstate, unit) prog" where
  "store p d = (if d = [] then return () else
     case p of
       Null \<Rightarrow> segfault
     | At b off \<Rightarrow> (\<lambda>s. case heap (os s) b of
           None \<Rightarrow> segfault s
         | Some v \<Rightarrow> if off + length d \<le> length v
             then upd_os (\<lambda>w. w\<lparr> heap := (heap w)(b \<mapsto> overwrite 0 off d v) \<rparr>) s
             else segfault s))"

definition ptr_add :: "cptr \<Rightarrow> nat \<Rightarrow> cptr" where
  "ptr_add p n = (case p of Null \<Rightarrow> Null | At b off \<Rightarrow> At b (off + n))"

text \<open>
  \<open>malloc\<close> and \<open>realloc\<close>. The bytes of a new block are whatever the model puts there (zero);
  no code reads them before writing them. \<open>realloc\<close> wants the start of a live block.
\<close>

definition malloc :: "'s cenv \<Rightarrow> nat \<Rightarrow> (('g, 's) cstate, cptr) prog" where
  "malloc E n = (if \<not> malloc_ok E n then return Null else
     (\<lambda>s. let b = next_block (os s) in
        bnd (upd_os (\<lambda>w. w\<lparr> heap := (heap w)(b \<mapsto> replicate n 0), next_block := b + 1 \<rparr>))
          (\<lambda>_. return (At b 0)) s))"

definition realloc :: "'s cenv \<Rightarrow> cptr \<Rightarrow> nat \<Rightarrow> (('g, 's) cstate, cptr) prog" where
  "realloc E p n = (if \<not> malloc_ok E n then return Null else
     case p of
       Null \<Rightarrow> malloc E n
     | At old off \<Rightarrow> (\<lambda>s. case heap (os s) old of
           None \<Rightarrow> panic ''realloc(): invalid pointer'' s
         | Some v \<Rightarrow>
             if off \<noteq> 0 then panic ''realloc(): invalid pointer'' s
             else let b = next_block (os s) in
               bnd (upd_os (\<lambda>w. w\<lparr> heap := (heap w)(old := None, b \<mapsto> take n (v @ replicate n 0)),
                     next_block := b + 1 \<rparr>))
                 (\<lambda>_. return (At b 0)) s))"

text \<open>A field of the stream a pointer refers to.\<close>

definition stream :: "nat \<Rightarrow> (('g, 's) cstate, FILE) prog" where
  "stream fp = (\<lambda>s. case streams (os s) fp of None \<Rightarrow> segfault s | Some f \<Rightarrow> Ok (f, s))"

definition fileno :: "nat \<Rightarrow> (('g, 's) cstate, int) prog" where
  "fileno fp = bnd (stream fp) (\<lambda>f. return (fno f))"

definition upd_stream :: "nat \<Rightarrow> (FILE \<Rightarrow> FILE) \<Rightarrow> (('g, 's) cstate, unit) prog" where
  "upd_stream fp f = upd_os (\<lambda>w. w\<lparr> streams := (streams w)(fp := map_option f (streams w fp)) \<rparr>)"

definition set_eof :: "nat \<Rightarrow> (('g, 's) cstate, unit) prog" where
  "set_eof fp = upd_stream fp (\<lambda>f. f\<lparr> eof_seen := True \<rparr>)"

definition set_err :: "nat \<Rightarrow> (('g, 's) cstate, unit) prog" where
  "set_err fp = upd_stream fp (\<lambda>f. f\<lparr> err_seen := True \<rparr>)"

section \<open>Tracing and leaving\<close>

definition log_msg :: "string \<Rightarrow> (('g, 's) cstate, unit) prog" where
  "log_msg m = modify (\<lambda>s. s\<lparr> stderr_log := stderr_log s @ [m] \<rparr>)"

text \<open>
  The macro \<open>TRACE\<close>: the environment is asked once; the message is reduced to the function
  it names.
\<close>

definition TRACE :: "'s cenv \<Rightarrow> string \<Rightarrow> (('g, 's) cstate, unit) prog" where
  "TRACE E m = bnd (modify (\<lambda>s. if trace_pdwfs s < 0
       then s\<lparr> trace_pdwfs := (if env_ctraces E then 1 else 0) \<rparr> else s)) (\<lambda>_.
     bnd (gets trace_pdwfs) (\<lambda>t. if t \<noteq> 0 then log_msg m else return ()))"

text \<open>The macro \<open>NOT_IMPLEMENTED\<close> leaves the process with \<open>EXIT_FAILURE\<close>.\<close>

definition NOT_IMPLEMENTED :: "string \<Rightarrow> (('g, 's) cstate, cval) prog" where
  "NOT_IMPLEMENTED symb = bnd (log_msg symb) (\<lambda>_. exit_with 1)"

text \<open>
  The macro \<open>CALL_NEXT\<close> of \<open>libc.c\<close>: find the symbol the first time, keep it, call it.
\<close>

definition resolve :: "'s cenv \<Rightarrow> string \<Rightarrow> (('g, 's) cstate, unit) prog" where
  "resolve E symb = bnd (gets ptrs) (\<lambda>ps.
     if symb \<in> set ps then return ()
     else (case dlsym E symb of
             DlError e \<Rightarrow> bnd (log_msg e) (\<lambda>_. exit_with 1)
           | DlNull \<Rightarrow> bnd (log_msg symb) (\<lambda>_. exit_with 1)
           | DlFound \<Rightarrow> modify (\<lambda>s. s\<lparr> ptrs := symb # ptrs s \<rparr>)))"

definition CALL_NEXT :: "'s cenv \<Rightarrow> string \<Rightarrow> cval list \<Rightarrow> (('g, 's) cstate, cval) prog" where
  "CALL_NEXT E symb args =
     bnd (modify (\<lambda>s. if trace_libc s < 0
         then s\<lparr> trace_libc := (if env_ctraces E then 1 else 0) \<rparr> else s)) (\<lambda>_.
     bnd (gets trace_libc) (\<lambda>t.
     bnd (if t \<noteq> 0 then log_msg symb else return ()) (\<lambda>_.
     bnd (resolve E symb) (\<lambda>_.
       (\<lambda>s. case call_next E symb args (os s) of (r, w) \<Rightarrow> Ok (r, s\<lparr> os := w \<rparr>))))))"

end
