(* ===== verification/Libc.thy ===== *)
theory Libc
  imports Cworld
begin

text \<open>
  \<open>src/c/libc.c\<close>: one wrapper per function of the C library, each an instance of the macro
  \<open>CALL_NEXT\<close> with its own symbol and argument list. A \<open>NULL\<close>-terminated string argument
  is its value or \<open>NULL\<close>; a structure is named by its address.
\<close>

section \<open>The symbols\<close>

text \<open>The variables \<open>ptr_...\<close> of the file, all \<open>NULL\<close> at the start.\<close>

definition libc_symbols :: "string list" where
  "libc_symbols =
    [''open'', ''close'', ''write'', ''read'', ''open64'', ''creat'', ''creat64'',
     ''fdatasync'', ''fsync'', ''ftruncate64'', ''ftruncate'', ''truncate64'', ''truncate'',
     ''lseek64'', ''lseek'', ''pread'', ''pread64'', ''preadv'', ''preadv64'', ''pwrite'',
     ''pwrite64'', ''pwritev'', ''pwritev64'', ''readv'', ''writev'', ''ioctl'', ''access'',
     ''unlink'', ''__xstat'', ''__xstat64'', ''__lxstat'', ''__lxstat64'', ''__fxstat'',
     ''__fxstat64'', ''statfs'', ''statfs64'', ''fstatfs'', ''fstatfs64'', ''fdopen'',
     ''fopen'', ''fopen64'', ''freopen'', ''freopen64'', ''fclose'', ''fflush'', ''fputc'',
     ''fgets'', ''fgetc'', ''fgetpos'', ''fgetpos64'', ''fseek'', ''fseeko'', ''fseeko64'',
     ''fsetpos'', ''fsetpos64'', ''fputs'', ''putc'', ''getc'', ''ungetc'', ''ftell'',
     ''ftello'', ''ftello64'', ''fread'', ''fwrite'', ''rewind'', ''dup2'', ''unlinkat'',
     ''openat'', ''faccessat'', ''__fxstatat'', ''__fxstatat64'', ''mkdir'', ''mkdirat'',
     ''rmdir'', ''rename'', ''renameat'', ''renameat2'', ''posix_fadvise'',
     ''posix_fadvise64'', ''statvfs'', ''statvfs64'', ''fstatvfs'', ''fstatvfs64'',
     ''getdelim'', ''getline'', ''opendir'', ''feof'', ''ferror'', ''clearerr'',
     ''getxattr'']"

section \<open>The wrappers\<close>

definition libc_open :: "'s cenv \<Rightarrow> string option \<Rightarrow> int \<Rightarrow> int \<Rightarrow> (('g, 's) cstate, cval) prog" where
  "libc_open E pathname flags mode =
     CALL_NEXT E ''open'' [CStr pathname, CInt flags, CInt mode]"

definition libc_close :: "'s cenv \<Rightarrow> int \<Rightarrow> (('g, 's) cstate, cval) prog" where
  "libc_close E fd =
     CALL_NEXT E ''close'' [CInt fd]"

definition libc_write :: "'s cenv \<Rightarrow> int \<Rightarrow> cptr \<Rightarrow> int \<Rightarrow> (('g, 's) cstate, cval) prog" where
  "libc_write E fd buf nbyte =
     CALL_NEXT E ''write'' [CInt fd, CPtr buf, CInt nbyte]"

definition libc_read :: "'s cenv \<Rightarrow> int \<Rightarrow> cptr \<Rightarrow> int \<Rightarrow> (('g, 's) cstate, cval) prog" where
  "libc_read E fd buf nbyte =
     CALL_NEXT E ''read'' [CInt fd, CPtr buf, CInt nbyte]"

definition libc_open64 :: "'s cenv \<Rightarrow> string option \<Rightarrow> int \<Rightarrow> int \<Rightarrow> (('g, 's) cstate, cval) prog" where
  "libc_open64 E pathname flags mode =
     CALL_NEXT E ''open64'' [CStr pathname, CInt flags, CInt mode]"

definition libc_creat :: "'s cenv \<Rightarrow> string option \<Rightarrow> int \<Rightarrow> (('g, 's) cstate, cval) prog" where
  "libc_creat E pathname mode =
     CALL_NEXT E ''creat'' [CStr pathname, CInt mode]"

definition libc_creat64 :: "'s cenv \<Rightarrow> string option \<Rightarrow> int \<Rightarrow> (('g, 's) cstate, cval) prog" where
  "libc_creat64 E pathname mode =
     CALL_NEXT E ''creat64'' [CStr pathname, CInt mode]"

definition libc_fdatasync :: "'s cenv \<Rightarrow> int \<Rightarrow> (('g, 's) cstate, cval) prog" where
  "libc_fdatasync E fd =
     CALL_NEXT E ''fdatasync'' [CInt fd]"

definition libc_fsync :: "'s cenv \<Rightarrow> int \<Rightarrow> (('g, 's) cstate, cval) prog" where
  "libc_fsync E fd =
     CALL_NEXT E ''fsync'' [CInt fd]"

definition libc_ftruncate64 :: "'s cenv \<Rightarrow> int \<Rightarrow> int \<Rightarrow> (('g, 's) cstate, cval) prog" where
  "libc_ftruncate64 E fd len =
     CALL_NEXT E ''ftruncate64'' [CInt fd, CInt len]"

definition libc_ftruncate :: "'s cenv \<Rightarrow> int \<Rightarrow> int \<Rightarrow> (('g, 's) cstate, cval) prog" where
  "libc_ftruncate E fd len =
     CALL_NEXT E ''ftruncate'' [CInt fd, CInt len]"

definition libc_truncate64 :: "'s cenv \<Rightarrow> string option \<Rightarrow> int \<Rightarrow> (('g, 's) cstate, cval) prog" where
  "libc_truncate64 E path len =
     CALL_NEXT E ''truncate64'' [CStr path, CInt len]"

definition libc_truncate :: "'s cenv \<Rightarrow> string option \<Rightarrow> int \<Rightarrow> (('g, 's) cstate, cval) prog" where
  "libc_truncate E path len =
     CALL_NEXT E ''truncate'' [CStr path, CInt len]"

definition libc_lseek64 :: "'s cenv \<Rightarrow> int \<Rightarrow> int \<Rightarrow> int \<Rightarrow> (('g, 's) cstate, cval) prog" where
  "libc_lseek64 E fd offset whence =
     CALL_NEXT E ''lseek64'' [CInt fd, CInt offset, CInt whence]"

definition libc_lseek :: "'s cenv \<Rightarrow> int \<Rightarrow> int \<Rightarrow> int \<Rightarrow> (('g, 's) cstate, cval) prog" where
  "libc_lseek E fd offset whence =
     CALL_NEXT E ''lseek'' [CInt fd, CInt offset, CInt whence]"

definition libc_pread :: "'s cenv \<Rightarrow> int \<Rightarrow> cptr \<Rightarrow> int \<Rightarrow> int \<Rightarrow> (('g, 's) cstate, cval) prog" where
  "libc_pread E fd buf nbyte offset =
     CALL_NEXT E ''pread'' [CInt fd, CPtr buf, CInt nbyte, CInt offset]"

definition libc_pread64 :: "'s cenv \<Rightarrow> int \<Rightarrow> cptr \<Rightarrow> int \<Rightarrow> int \<Rightarrow> (('g, 's) cstate, cval) prog" where
  "libc_pread64 E fd buf nbyte offset =
     CALL_NEXT E ''pread64'' [CInt fd, CPtr buf, CInt nbyte, CInt offset]"

definition libc_preadv :: "'s cenv \<Rightarrow> int \<Rightarrow> iovec list \<Rightarrow> int \<Rightarrow> int \<Rightarrow> (('g, 's) cstate, cval) prog" where
  "libc_preadv E fd iov iovcnt offset =
     CALL_NEXT E ''preadv'' [CInt fd, CIov iov, CInt iovcnt, CInt offset]"

definition libc_preadv64 :: "'s cenv \<Rightarrow> int \<Rightarrow> iovec list \<Rightarrow> int \<Rightarrow> int \<Rightarrow> (('g, 's) cstate, cval) prog" where
  "libc_preadv64 E fd iov iovcnt offset =
     CALL_NEXT E ''preadv64'' [CInt fd, CIov iov, CInt iovcnt, CInt offset]"

definition libc_pwrite :: "'s cenv \<Rightarrow> int \<Rightarrow> cptr \<Rightarrow> int \<Rightarrow> int \<Rightarrow> (('g, 's) cstate, cval) prog" where
  "libc_pwrite E fd buf nbyte offset =
     CALL_NEXT E ''pwrite'' [CInt fd, CPtr buf, CInt nbyte, CInt offset]"

definition libc_pwrite64 :: "'s cenv \<Rightarrow> int \<Rightarrow> cptr \<Rightarrow> int \<Rightarrow> int \<Rightarrow> (('g, 's) cstate, cval) prog" where
  "libc_pwrite64 E fd buf nbyte offset =
     CALL_NEXT E ''pwrite64'' [CInt fd, CPtr buf, CInt nbyte, CInt offset]"

definition libc_pwritev :: "'s cenv \<Rightarrow> int \<Rightarrow> iovec list \<Rightarrow> int \<Rightarrow> int \<Rightarrow> (('g, 's) cstate, cval) prog" where
  "libc_pwritev E fd iov iovcnt offset =
     CALL_NEXT E ''pwritev'' [CInt fd, CIov iov, CInt iovcnt, CInt offset]"

definition libc_pwritev64 :: "'s cenv \<Rightarrow> int \<Rightarrow> iovec list \<Rightarrow> int \<Rightarrow> int \<Rightarrow> (('g, 's) cstate, cval) prog" where
  "libc_pwritev64 E fd iov iovcnt offset =
     CALL_NEXT E ''pwritev64'' [CInt fd, CIov iov, CInt iovcnt, CInt offset]"

definition libc_readv :: "'s cenv \<Rightarrow> int \<Rightarrow> iovec list \<Rightarrow> int \<Rightarrow> (('g, 's) cstate, cval) prog" where
  "libc_readv E fd iov iovcnt =
     CALL_NEXT E ''readv'' [CInt fd, CIov iov, CInt iovcnt]"

definition libc_writev :: "'s cenv \<Rightarrow> int \<Rightarrow> iovec list \<Rightarrow> int \<Rightarrow> (('g, 's) cstate, cval) prog" where
  "libc_writev E fd iov iovcnt =
     CALL_NEXT E ''writev'' [CInt fd, CIov iov, CInt iovcnt]"

definition libc_ioctl :: "'s cenv \<Rightarrow> int \<Rightarrow> int \<Rightarrow> cptr \<Rightarrow> (('g, 's) cstate, cval) prog" where
  "libc_ioctl E fd request argp =
     CALL_NEXT E ''ioctl'' [CInt fd, CInt request, CPtr argp]"

definition libc_access :: "'s cenv \<Rightarrow> string option \<Rightarrow> int \<Rightarrow> (('g, 's) cstate, cval) prog" where
  "libc_access E pathname mode =
     CALL_NEXT E ''access'' [CStr pathname, CInt mode]"

definition libc_unlink :: "'s cenv \<Rightarrow> string option \<Rightarrow> (('g, 's) cstate, cval) prog" where
  "libc_unlink E pathname =
     CALL_NEXT E ''unlink'' [CStr pathname]"

definition libc__xstat :: "'s cenv \<Rightarrow> int \<Rightarrow> string option \<Rightarrow> nat \<Rightarrow> (('g, 's) cstate, cval) prog" where
  "libc__xstat E vers pathname buf =
     CALL_NEXT E ''__xstat'' [CInt vers, CStr pathname, CStat buf]"

definition libc__xstat64 :: "'s cenv \<Rightarrow> int \<Rightarrow> string option \<Rightarrow> nat \<Rightarrow> (('g, 's) cstate, cval) prog" where
  "libc__xstat64 E vers pathname buf =
     CALL_NEXT E ''__xstat64'' [CInt vers, CStr pathname, CStat buf]"

definition libc__lxstat :: "'s cenv \<Rightarrow> int \<Rightarrow> string option \<Rightarrow> nat \<Rightarrow> (('g, 's) cstate, cval) prog" where
  "libc__lxstat E vers pathname buf =
     CALL_NEXT E ''__lxstat'' [CInt vers, CStr pathname, CStat buf]"

definition libc__lxstat64 :: "'s cenv \<Rightarrow> int \<Rightarrow> string option \<Rightarrow> nat \<Rightarrow> (('g, 's) cstate, cval) prog" where
  "libc__lxstat64 E vers pathname buf =
     CALL_NEXT E ''__lxstat64'' [CInt vers, CStr pathname, CStat buf]"

definition libc__fxstat :: "'s cenv \<Rightarrow> int \<Rightarrow> int \<Rightarrow> nat \<Rightarrow> (('g, 's) cstate, cval) prog" where
  "libc__fxstat E vers fd buf =
     CALL_NEXT E ''__fxstat'' [CInt vers, CInt fd, CStat buf]"

definition libc__fxstat64 :: "'s cenv \<Rightarrow> int \<Rightarrow> int \<Rightarrow> nat \<Rightarrow> (('g, 's) cstate, cval) prog" where
  "libc__fxstat64 E vers fd buf =
     CALL_NEXT E ''__fxstat64'' [CInt vers, CInt fd, CStat buf]"

definition libc_statfs :: "'s cenv \<Rightarrow> string option \<Rightarrow> nat \<Rightarrow> (('g, 's) cstate, cval) prog" where
  "libc_statfs E path buf =
     CALL_NEXT E ''statfs'' [CStr path, CStat buf]"

definition libc_statfs64 :: "'s cenv \<Rightarrow> string option \<Rightarrow> nat \<Rightarrow> (('g, 's) cstate, cval) prog" where
  "libc_statfs64 E path buf =
     CALL_NEXT E ''statfs64'' [CStr path, CStat buf]"

definition libc_fstatfs :: "'s cenv \<Rightarrow> int \<Rightarrow> nat \<Rightarrow> (('g, 's) cstate, cval) prog" where
  "libc_fstatfs E fd buf =
     CALL_NEXT E ''fstatfs'' [CInt fd, CStat buf]"

definition libc_fstatfs64 :: "'s cenv \<Rightarrow> int \<Rightarrow> nat \<Rightarrow> (('g, 's) cstate, cval) prog" where
  "libc_fstatfs64 E fd buf =
     CALL_NEXT E ''fstatfs64'' [CInt fd, CStat buf]"

definition libc_fdopen :: "'s cenv \<Rightarrow> int \<Rightarrow> string option \<Rightarrow> (('g, 's) cstate, cval) prog" where
  "libc_fdopen E fd mode =
     CALL_NEXT E ''fdopen'' [CInt fd, CStr mode]"

definition libc_fopen :: "'s cenv \<Rightarrow> string option \<Rightarrow> string option \<Rightarrow> (('g, 's) cstate, cval) prog" where
  "libc_fopen E path mode =
     CALL_NEXT E ''fopen'' [CStr path, CStr mode]"

definition libc_fopen64 :: "'s cenv \<Rightarrow> string option \<Rightarrow> string option \<Rightarrow> (('g, 's) cstate, cval) prog" where
  "libc_fopen64 E path mode =
     CALL_NEXT E ''fopen64'' [CStr path, CStr mode]"

definition libc_freopen :: "'s cenv \<Rightarrow> string option \<Rightarrow> string option \<Rightarrow> nat \<Rightarrow> (('g, 's) cstate, cval) prog" where
  "libc_freopen E path mode fp =
     CALL_NEXT E ''freopen'' [CStr path, CStr mode, CStream fp]"

definition libc_freopen64 :: "'s cenv \<Rightarrow> string option \<Rightarrow> string option \<Rightarrow> nat \<Rightarrow> (('g, 's) cstate, cval) prog" where
  "libc_freopen64 E path mode fp =
     CALL_NEXT E ''freopen64'' [CStr path, CStr mode, CStream fp]"

definition libc_fclose :: "'s cenv \<Rightarrow> nat \<Rightarrow> (('g, 's) cstate, cval) prog" where
  "libc_fclose E fp =
     CALL_NEXT E ''fclose'' [CStream fp]"

definition libc_fflush :: "'s cenv \<Rightarrow> nat \<Rightarrow> (('g, 's) cstate, cval) prog" where
  "libc_fflush E fp =
     CALL_NEXT E ''fflush'' [CStream fp]"

definition libc_fputc :: "'s cenv \<Rightarrow> int \<Rightarrow> nat \<Rightarrow> (('g, 's) cstate, cval) prog" where
  "libc_fputc E c fp =
     CALL_NEXT E ''fputc'' [CInt c, CStream fp]"

definition libc_fgets :: "'s cenv \<Rightarrow> cptr \<Rightarrow> int \<Rightarrow> nat \<Rightarrow> (('g, 's) cstate, cval) prog" where
  "libc_fgets E dst n fp =
     CALL_NEXT E ''fgets'' [CPtr dst, CInt n, CStream fp]"

definition libc_fgetc :: "'s cenv \<Rightarrow> nat \<Rightarrow> (('g, 's) cstate, cval) prog" where
  "libc_fgetc E fp =
     CALL_NEXT E ''fgetc'' [CStream fp]"

definition libc_fgetpos :: "'s cenv \<Rightarrow> nat \<Rightarrow> nat \<Rightarrow> (('g, 's) cstate, cval) prog" where
  "libc_fgetpos E fp pos =
     CALL_NEXT E ''fgetpos'' [CStream fp, COpaque pos]"

definition libc_fgetpos64 :: "'s cenv \<Rightarrow> nat \<Rightarrow> nat \<Rightarrow> (('g, 's) cstate, cval) prog" where
  "libc_fgetpos64 E fp pos =
     CALL_NEXT E ''fgetpos64'' [CStream fp, COpaque pos]"

definition libc_fseek :: "'s cenv \<Rightarrow> nat \<Rightarrow> int \<Rightarrow> int \<Rightarrow> (('g, 's) cstate, cval) prog" where
  "libc_fseek E fp offset whence =
     CALL_NEXT E ''fseek'' [CStream fp, CInt offset, CInt whence]"

definition libc_fseeko :: "'s cenv \<Rightarrow> nat \<Rightarrow> int \<Rightarrow> int \<Rightarrow> (('g, 's) cstate, cval) prog" where
  "libc_fseeko E fp offset whence =
     CALL_NEXT E ''fseeko'' [CStream fp, CInt offset, CInt whence]"

definition libc_fseeko64 :: "'s cenv \<Rightarrow> nat \<Rightarrow> int \<Rightarrow> int \<Rightarrow> (('g, 's) cstate, cval) prog" where
  "libc_fseeko64 E fp offset whence =
     CALL_NEXT E ''fseeko64'' [CStream fp, CInt offset, CInt whence]"

definition libc_fsetpos :: "'s cenv \<Rightarrow> nat \<Rightarrow> nat \<Rightarrow> (('g, 's) cstate, cval) prog" where
  "libc_fsetpos E fp pos =
     CALL_NEXT E ''fsetpos'' [CStream fp, COpaque pos]"

definition libc_fsetpos64 :: "'s cenv \<Rightarrow> nat \<Rightarrow> nat \<Rightarrow> (('g, 's) cstate, cval) prog" where
  "libc_fsetpos64 E fp pos =
     CALL_NEXT E ''fsetpos64'' [CStream fp, COpaque pos]"

definition libc_fputs :: "'s cenv \<Rightarrow> cptr \<Rightarrow> nat \<Rightarrow> (('g, 's) cstate, cval) prog" where
  "libc_fputs E str fp =
     CALL_NEXT E ''fputs'' [CPtr str, CStream fp]"

definition libc_putc :: "'s cenv \<Rightarrow> int \<Rightarrow> nat \<Rightarrow> (('g, 's) cstate, cval) prog" where
  "libc_putc E c fp =
     CALL_NEXT E ''putc'' [CInt c, CStream fp]"

definition libc_getc :: "'s cenv \<Rightarrow> nat \<Rightarrow> (('g, 's) cstate, cval) prog" where
  "libc_getc E fp =
     CALL_NEXT E ''getc'' [CStream fp]"

definition libc_ungetc :: "'s cenv \<Rightarrow> int \<Rightarrow> nat \<Rightarrow> (('g, 's) cstate, cval) prog" where
  "libc_ungetc E c fp =
     CALL_NEXT E ''ungetc'' [CInt c, CStream fp]"

definition libc_ftell :: "'s cenv \<Rightarrow> nat \<Rightarrow> (('g, 's) cstate, cval) prog" where
  "libc_ftell E fp =
     CALL_NEXT E ''ftell'' [CStream fp]"

definition libc_ftello :: "'s cenv \<Rightarrow> nat \<Rightarrow> (('g, 's) cstate, cval) prog" where
  "libc_ftello E fp =
     CALL_NEXT E ''ftello'' [CStream fp]"

definition libc_ftello64 :: "'s cenv \<Rightarrow> nat \<Rightarrow> (('g, 's) cstate, cval) prog" where
  "libc_ftello64 E fp =
     CALL_NEXT E ''ftello64'' [CStream fp]"

definition libc_fread :: "'s cenv \<Rightarrow> cptr \<Rightarrow> int \<Rightarrow> int \<Rightarrow> nat \<Rightarrow> (('g, 's) cstate, cval) prog" where
  "libc_fread E ptr sz nmemb fp =
     CALL_NEXT E ''fread'' [CPtr ptr, CInt sz, CInt nmemb, CStream fp]"

definition libc_fwrite :: "'s cenv \<Rightarrow> cptr \<Rightarrow> int \<Rightarrow> int \<Rightarrow> nat \<Rightarrow> (('g, 's) cstate, cval) prog" where
  "libc_fwrite E ptr sz nmemb fp =
     CALL_NEXT E ''fwrite'' [CPtr ptr, CInt sz, CInt nmemb, CStream fp]"

definition libc_rewind :: "'s cenv \<Rightarrow> nat \<Rightarrow> (('g, 's) cstate, cval) prog" where
  "libc_rewind E fp =
     CALL_NEXT E ''rewind'' [CStream fp]"

definition libc_dup2 :: "'s cenv \<Rightarrow> int \<Rightarrow> int \<Rightarrow> (('g, 's) cstate, cval) prog" where
  "libc_dup2 E oldfd newfd =
     CALL_NEXT E ''dup2'' [CInt oldfd, CInt newfd]"

definition libc_unlinkat :: "'s cenv \<Rightarrow> int \<Rightarrow> string option \<Rightarrow> int \<Rightarrow> (('g, 's) cstate, cval) prog" where
  "libc_unlinkat E dirfd pathname flags =
     CALL_NEXT E ''unlinkat'' [CInt dirfd, CStr pathname, CInt flags]"

definition libc_faccessat :: "'s cenv \<Rightarrow> int \<Rightarrow> string option \<Rightarrow> int \<Rightarrow> int \<Rightarrow> (('g, 's) cstate, cval) prog" where
  "libc_faccessat E dirfd pathname mode flags =
     CALL_NEXT E ''faccessat'' [CInt dirfd, CStr pathname, CInt mode, CInt flags]"

definition libc__fxstatat :: "'s cenv \<Rightarrow> int \<Rightarrow> int \<Rightarrow> string option \<Rightarrow> nat \<Rightarrow> int \<Rightarrow> (('g, 's) cstate, cval) prog" where
  "libc__fxstatat E vers dirfd pathname buf flags =
     CALL_NEXT E ''__fxstatat'' [CInt vers, CInt dirfd, CStr pathname, CStat buf, CInt flags]"

definition libc__fxstatat64 :: "'s cenv \<Rightarrow> int \<Rightarrow> int \<Rightarrow> string option \<Rightarrow> nat \<Rightarrow> int \<Rightarrow> (('g, 's) cstate, cval) prog" where
  "libc__fxstatat64 E vers dirfd pathname buf flags =
     CALL_NEXT E ''__fxstatat64'' [CInt vers, CInt dirfd, CStr pathname, CStat buf, CInt flags]"

definition libc_openat :: "'s cenv \<Rightarrow> int \<Rightarrow> string option \<Rightarrow> int \<Rightarrow> int \<Rightarrow> (('g, 's) cstate, cval) prog" where
  "libc_openat E dirfd pathname flags mode =
     CALL_NEXT E ''openat'' [CInt dirfd, CStr pathname, CInt flags, CInt mode]"

definition libc_mkdir :: "'s cenv \<Rightarrow> string option \<Rightarrow> int \<Rightarrow> (('g, 's) cstate, cval) prog" where
  "libc_mkdir E pathname mode =
     CALL_NEXT E ''mkdir'' [CStr pathname, CInt mode]"

definition libc_mkdirat :: "'s cenv \<Rightarrow> int \<Rightarrow> string option \<Rightarrow> int \<Rightarrow> (('g, 's) cstate, cval) prog" where
  "libc_mkdirat E dirfd pathname mode =
     CALL_NEXT E ''mkdirat'' [CInt dirfd, CStr pathname, CInt mode]"

definition libc_rmdir :: "'s cenv \<Rightarrow> string option \<Rightarrow> (('g, 's) cstate, cval) prog" where
  "libc_rmdir E pathname =
     CALL_NEXT E ''rmdir'' [CStr pathname]"

definition libc_rename :: "'s cenv \<Rightarrow> string option \<Rightarrow> string option \<Rightarrow> (('g, 's) cstate, cval) prog" where
  "libc_rename E oldpath newpath =
     CALL_NEXT E ''rename'' [CStr oldpath, CStr newpath]"

definition libc_renameat :: "'s cenv \<Rightarrow> int \<Rightarrow> string option \<Rightarrow> int \<Rightarrow> string option \<Rightarrow> (('g, 's) cstate, cval) prog" where
  "libc_renameat E olddirfd oldpath newdirfd newpath =
     CALL_NEXT E ''renameat'' [CInt olddirfd, CStr oldpath, CInt newdirfd, CStr newpath]"

definition libc_renameat2 :: "'s cenv \<Rightarrow> int \<Rightarrow> string option \<Rightarrow> int \<Rightarrow> string option \<Rightarrow> int \<Rightarrow> (('g, 's) cstate, cval) prog" where
  "libc_renameat2 E olddirfd oldpath newdirfd newpath flags =
     CALL_NEXT E ''renameat2'' [CInt olddirfd, CStr oldpath, CInt newdirfd, CStr newpath, CInt flags]"

definition libc_posix_fadvise :: "'s cenv \<Rightarrow> int \<Rightarrow> int \<Rightarrow> int \<Rightarrow> int \<Rightarrow> (('g, 's) cstate, cval) prog" where
  "libc_posix_fadvise E fd offset len advice =
     CALL_NEXT E ''posix_fadvise'' [CInt fd, CInt offset, CInt len, CInt advice]"

definition libc_posix_fadvise64 :: "'s cenv \<Rightarrow> int \<Rightarrow> int \<Rightarrow> int \<Rightarrow> int \<Rightarrow> (('g, 's) cstate, cval) prog" where
  "libc_posix_fadvise64 E fd offset len advice =
     CALL_NEXT E ''posix_fadvise64'' [CInt fd, CInt offset, CInt len, CInt advice]"

definition libc_statvfs :: "'s cenv \<Rightarrow> string option \<Rightarrow> nat \<Rightarrow> (('g, 's) cstate, cval) prog" where
  "libc_statvfs E pathname buf =
     CALL_NEXT E ''statvfs'' [CStr pathname, CStat buf]"

definition libc_statvfs64 :: "'s cenv \<Rightarrow> string option \<Rightarrow> nat \<Rightarrow> (('g, 's) cstate, cval) prog" where
  "libc_statvfs64 E pathname buf =
     CALL_NEXT E ''statvfs64'' [CStr pathname, CStat buf]"

definition libc_fstatvfs :: "'s cenv \<Rightarrow> int \<Rightarrow> nat \<Rightarrow> (('g, 's) cstate, cval) prog" where
  "libc_fstatvfs E fd buf =
     CALL_NEXT E ''fstatvfs'' [CInt fd, CStat buf]"

definition libc_fstatvfs64 :: "'s cenv \<Rightarrow> int \<Rightarrow> nat \<Rightarrow> (('g, 's) cstate, cval) prog" where
  "libc_fstatvfs64 E fd buf =
     CALL_NEXT E ''fstatvfs64'' [CInt fd, CStat buf]"

definition libc_getdelim :: "'s cenv \<Rightarrow> nat \<Rightarrow> nat \<Rightarrow> int \<Rightarrow> nat \<Rightarrow> (('g, 's) cstate, cval) prog" where
  "libc_getdelim E buf bufsiz delimiter fp =
     CALL_NEXT E ''getdelim'' [CPtrVar buf, CSizeVar bufsiz, CInt delimiter, CStream fp]"

definition libc_getline :: "'s cenv \<Rightarrow> nat \<Rightarrow> nat \<Rightarrow> nat \<Rightarrow> (('g, 's) cstate, cval) prog" where
  "libc_getline E buf bufsiz fp =
     CALL_NEXT E ''getline'' [CPtrVar buf, CSizeVar bufsiz, CStream fp]"

definition libc_opendir :: "'s cenv \<Rightarrow> string option \<Rightarrow> (('g, 's) cstate, cval) prog" where
  "libc_opendir E path =
     CALL_NEXT E ''opendir'' [CStr path]"

definition libc_feof :: "'s cenv \<Rightarrow> nat \<Rightarrow> (('g, 's) cstate, cval) prog" where
  "libc_feof E fp =
     CALL_NEXT E ''feof'' [CStream fp]"

definition libc_ferror :: "'s cenv \<Rightarrow> nat \<Rightarrow> (('g, 's) cstate, cval) prog" where
  "libc_ferror E fp =
     CALL_NEXT E ''ferror'' [CStream fp]"

definition libc_clearerr :: "'s cenv \<Rightarrow> nat \<Rightarrow> (('g, 's) cstate, cval) prog" where
  "libc_clearerr E fp =
     CALL_NEXT E ''clearerr'' [CStream fp]"

definition libc_getxattr :: "'s cenv \<Rightarrow> string option \<Rightarrow> string option \<Rightarrow> cptr \<Rightarrow> int \<Rightarrow> (('g, 's) cstate, cval) prog" where
  "libc_getxattr E path name value sz =
     CALL_NEXT E ''getxattr'' [CStr path, CStr name, CPtr value, CInt sz]"

lemmas libc_defs =
  libc_open_def libc_close_def libc_write_def libc_read_def libc_open64_def libc_creat_def 
  libc_creat64_def libc_fdatasync_def libc_fsync_def libc_ftruncate64_def libc_ftruncate_def 
  libc_truncate64_def libc_truncate_def libc_lseek64_def libc_lseek_def libc_pread_def 
  libc_pread64_def libc_preadv_def libc_preadv64_def libc_pwrite_def libc_pwrite64_def 
  libc_pwritev_def libc_pwritev64_def libc_readv_def libc_writev_def libc_ioctl_def 
  libc_access_def libc_unlink_def libc__xstat_def libc__xstat64_def libc__lxstat_def 
  libc__lxstat64_def libc__fxstat_def libc__fxstat64_def libc_statfs_def libc_statfs64_def 
  libc_fstatfs_def libc_fstatfs64_def libc_fdopen_def libc_fopen_def libc_fopen64_def 
  libc_freopen_def libc_freopen64_def libc_fclose_def libc_fflush_def libc_fputc_def 
  libc_fgets_def libc_fgetc_def libc_fgetpos_def libc_fgetpos64_def libc_fseek_def 
  libc_fseeko_def libc_fseeko64_def libc_fsetpos_def libc_fsetpos64_def libc_fputs_def 
  libc_putc_def libc_getc_def libc_ungetc_def libc_ftell_def libc_ftello_def 
  libc_ftello64_def libc_fread_def libc_fwrite_def libc_rewind_def libc_dup2_def 
  libc_unlinkat_def libc_faccessat_def libc__fxstatat_def libc__fxstatat64_def 
  libc_openat_def libc_mkdir_def libc_mkdirat_def libc_rmdir_def libc_rename_def 
  libc_renameat_def libc_renameat2_def libc_posix_fadvise_def libc_posix_fadvise64_def 
  libc_statvfs_def libc_statvfs64_def libc_fstatvfs_def libc_fstatvfs64_def 
  libc_getdelim_def libc_getline_def libc_opendir_def libc_feof_def libc_ferror_def 
  libc_clearerr_def libc_getxattr_def

end
