(* ===== verification/Registers.thy ===== *)
theory Registers
  imports Libc
begin

text \<open>
  The two tables of \<open>src/c/pdwfs.c\<close>: \<open>mount_register\<close>, the mount points a path is checked
  against, and \<open>fd_register\<close>, the descriptors of the temporary files that stand for open pdwfs
  files, with the tests \<open>PATH_NOT_MANAGED\<close> and \<open>FD_NOT_MANAGED\<close> every intercepted function
  starts with. A GLib hash table used as a set is the list of its keys; \<open>close\<close> is here too,
  since the table of descriptors calls it when a key goes.
\<close>

section \<open>The mount register\<close>

text \<open>\<open>g_strsplit(s, "@", -1)\<close>, which gives no string at all for the empty one.\<close>

definition g_strsplit :: "string \<Rightarrow> string list" where
  "g_strsplit s = (if s = [] then [] else split_on (CHR ''@'') s)"

fun register_mounts :: "string list \<Rightarrow> string list \<Rightarrow> string list" where
  "register_mounts reg [] = reg"
| "register_mounts reg (m # ms) =
     register_mounts (if m \<noteq> [] then List.insert m reg else reg) ms"

definition finder :: "string \<Rightarrow> string \<Rightarrow> bool" where
  "finder mount apath = prefix mount apath"

definition contains_path :: "'s cenv \<Rightarrow> string option \<Rightarrow> (('g, 's) cstate, bool) prog" where
  "contains_path E path =
     bnd (lift_res (abspath (malloc_ok E) (getcwd E) path)) (\<lambda>(apath, e).
     bnd (case e of None \<Rightarrow> return () | Some e \<Rightarrow> set_errno e) (\<lambda>_.
     bnd (gets mount_register) (\<lambda>reg.
       return (case apath of None \<Rightarrow> False | Some a \<Rightarrow> list_ex (\<lambda>m. finder m a) reg))))"

definition PATH_NOT_MANAGED :: "'s cenv \<Rightarrow> string option \<Rightarrow> (('g, 's) cstate, bool) prog" where
  "PATH_NOT_MANAGED E path =
     bnd (gets pdwfs_initialized) (\<lambda>init.
       if \<not> init then return True else bnd (contains_path E path) (\<lambda>b. return (\<not> b)))"

section \<open>The descriptor register\<close>

definition IS_STD_FD :: "int \<Rightarrow> bool" where
  "IS_STD_FD fd \<longleftrightarrow> fd = 0 \<or> fd = 1 \<or> fd = 2"

definition contains_fd :: "int \<Rightarrow> (('g, 's) cstate, bool) prog" where
  "contains_fd fd = gets (\<lambda>s. fd \<in> set (fd_register s))"

definition fd_managed :: "('g, 's) cstate \<Rightarrow> int \<Rightarrow> bool" where
  "fd_managed s fd \<longleftrightarrow> pdwfs_initialized s \<and> \<not> IS_STD_FD fd \<and> fd \<in> set (fd_register s)"

definition FD_NOT_MANAGED :: "int \<Rightarrow> (('g, 's) cstate, bool) prog" where
  "FD_NOT_MANAGED fd = gets (\<lambda>s. \<not> fd_managed s fd)"

definition STREAM_NOT_MANAGED :: "nat \<Rightarrow> (('g, 's) cstate, bool) prog" where
  "STREAM_NOT_MANAGED fp = bnd (fileno fp) FD_NOT_MANAGED"

text \<open>
  Removing a key takes it out of the table and then calls \<open>close\<close> on it, the intercepted one.
  \<open>remove_fd_with\<close> is given that \<open>close\<close>. The calls nest: \<open>close\<close> of a managed
  descriptor removes it, which calls \<open>close\<close> again, by then unmanaged. Two levels are enough
  (\<open>close_fuel\<close>).
\<close>

definition remove_fd_with ::
  "(int \<Rightarrow> (('g, 's) cstate, cval) prog) \<Rightarrow> int \<Rightarrow> (('g, 's) cstate, unit) prog" where
  "remove_fd_with cl fd =
     bnd (contains_fd fd) (\<lambda>b.
       if b then
         bnd (modify (\<lambda>s. s\<lparr> fd_register := remove1 fd (fd_register s) \<rparr>)) (\<lambda>_.
         bnd (cl fd) (\<lambda>_. return ()))
       else return ())"

fun close_n :: "nat \<Rightarrow> 's cenv \<Rightarrow> 'g golayer \<Rightarrow> int \<Rightarrow> (('g, 's) cstate, cval) prog" where
  "close_n 0 E G fd = panic ''stack overflow''"
| "close_n (Suc n) E G fd =
     bnd (TRACE E ''close'') (\<lambda>_.
     bnd (FD_NOT_MANAGED fd) (\<lambda>nm.
       if nm then libc_close E fd
       else
         bnd (go_call (Close_go G fd)) (\<lambda>ret.
         bnd (remove_fd_with (close_n n E G) fd) (\<lambda>_.
           return (CInt (i32 ret))))))"

definition c_close :: "'s cenv \<Rightarrow> 'g golayer \<Rightarrow> int \<Rightarrow> (('g, 's) cstate, cval) prog" where
  "c_close E G fd = close_n 2 E G fd"

definition fd_key_removed :: "'s cenv \<Rightarrow> 'g golayer \<Rightarrow> int \<Rightarrow> (('g, 's) cstate, unit) prog" where
  "fd_key_removed E G fd = bnd (c_close E G fd) (\<lambda>_. return ())"

definition remove_fd :: "'s cenv \<Rightarrow> 'g golayer \<Rightarrow> int \<Rightarrow> (('g, 's) cstate, unit) prog" where
  "remove_fd E G fd = remove_fd_with (c_close E G) fd"

text \<open>
  \<open>g_hash_table_insert\<close>: a key that is there already stays, and the key passed is the one the
  destructor is called on.
\<close>

definition insert_fd :: "'s cenv \<Rightarrow> 'g golayer \<Rightarrow> int \<Rightarrow> (('g, 's) cstate, unit) prog" where
  "insert_fd E G fd =
     bnd (contains_fd fd) (\<lambda>b.
       if b then fd_key_removed E G fd
       else modify (\<lambda>s. s\<lparr> fd_register := fd # fd_register s \<rparr>))"

definition call_tmpfile :: "'s cenv \<Rightarrow> (('g, 's) cstate, nat) prog" where
  "call_tmpfile E = (\<lambda>s. case tmpfile E (os s) of (fp, w) \<Rightarrow> Ok (fp, s\<lparr> os := w \<rparr>))"

definition get_new_stream :: "'s cenv \<Rightarrow> 'g golayer \<Rightarrow> (('g, 's) cstate, nat) prog" where
  "get_new_stream E G =
     bnd (call_tmpfile E) (\<lambda>fp.
     bnd (fileno fp) (\<lambda>fd.
     bnd (insert_fd E G fd) (\<lambda>_. return fp)))"

definition get_new_fd :: "'s cenv \<Rightarrow> 'g golayer \<Rightarrow> (('g, 's) cstate, int) prog" where
  "get_new_fd E G = bnd (get_new_stream E G) fileno"

fun destroy_fds :: "'s cenv \<Rightarrow> 'g golayer \<Rightarrow> int list \<Rightarrow> (('g, 's) cstate, unit) prog" where
  "destroy_fds E G [] = return ()"
| "destroy_fds E G (fd # fds) = bnd (fd_key_removed E G fd) (\<lambda>_. destroy_fds E G fds)"

text \<open>\<open>g_hash_table_destroy\<close> empties the table before it calls the destructor on the keys.\<close>

definition free_fd_register :: "'s cenv \<Rightarrow> 'g golayer \<Rightarrow> (('g, 's) cstate, unit) prog" where
  "free_fd_register E G =
     bnd (gets fd_register) (\<lambda>fds.
     bnd (modify (\<lambda>s. s\<lparr> fd_register := [] \<rparr>)) (\<lambda>_. destroy_fds E G fds))"

definition free_mount_register :: "(('g, 's) cstate, unit) prog" where
  "free_mount_register = modify (\<lambda>s. s\<lparr> mount_register := [] \<rparr>)"

section \<open>Loading and unloading the library\<close>

text \<open>
  \<open>InitPdwfs\<close> writes the mount points into the buffer of 1024 bytes it is given, each followed
  by a separator, and a final NUL, through a \<open>bytes.Buffer\<close>: a piece that does not fit makes the
  buffer move to an array of its own, and nothing more reaches the C side. Reading a buffer without
  a NUL runs into bytes nobody set.
\<close>

fun fill_buf :: "nat \<Rightarrow> string \<Rightarrow> string list \<Rightarrow> string" where
  "fill_buf cap out [] = out"
| "fill_buf cap out (p # ps) =
     (if length out + length p \<le> cap then fill_buf cap (out @ p) ps else out)"

definition NUL :: char where "NUL = CHR 0x00"

definition c_string :: "string \<Rightarrow> string result" where
  "c_string b = (if NUL \<in> set b then Ok (takeWhile (\<lambda>c. c \<noteq> NUL) b)
     else Panic ''read of uninitialised memory'')"

definition init_pdwfs :: "'g golayer \<Rightarrow> (('g, 's) cstate, unit) prog" where
  "init_pdwfs G =
     bnd (go_call (InitPdwfs_go G)) (\<lambda>pieces.
     bnd (lift_res (c_string (fill_buf 1024 [] pieces))) (\<lambda>mounts_buf.
       modify (\<lambda>s. s\<lparr> mount_register := register_mounts [] (g_strsplit mounts_buf),
                      fd_register := [], pdwfs_initialized := True \<rparr>)))"

definition finalize_pdwfs :: "'s cenv \<Rightarrow> 'g golayer \<Rightarrow> (('g, 's) cstate, unit) prog" where
  "finalize_pdwfs E G =
     bnd (go_call (FinalizePdwfs_go G)) (\<lambda>_.
     bnd (free_fd_register E G) (\<lambda>_. free_mount_register))"

end
