(* ===== verification/Intercept.thy ===== *)
theory Intercept
  imports Registers
begin

text \<open>
  \<open>src/c/pdwfs.c\<close>: the intercepted functions on paths and descriptors. Each one traces its
  name, hands calls on unmanaged paths and descriptors to the C library, and otherwise calls the Go
  layer or, where pdwfs has no such operation, leaves the process. A function and its \<open>c_\<close>
  name differ in that prefix only. Conversions between C's \<open>int\<close>, \<open>size_t\<close> and Go's \<open>int\<close>
  are written out where they can change a value.
\<close>

section \<open>Arguments for the Go layer\<close>

definition strdup :: "string option \<Rightarrow> (('g, 's) cstate, string) prog" where
  "strdup p = (case p of None \<Rightarrow> segfault | Some s \<Rightarrow> return s)"

text \<open>The array of slices for a vector call: as many as \<open>iovcnt\<close> says, from the array given.\<close>

fun load_vec :: "iovec list \<Rightarrow> (('g, 's) cstate, bytes list) prog" where
  "load_vec [] = return []"
| "load_vec ((p, n) # iov) =
     bnd (load p n) (\<lambda>b. bnd (load_vec iov) (\<lambda>bs. return (b # bs)))"

fun store_vec :: "iovec list \<Rightarrow> bytes list \<Rightarrow> (('g, 's) cstate, unit) prog" where
  "store_vec ((p, n) # iov) (b # bs) = bnd (store p b) (\<lambda>_. store_vec iov bs)"
| "store_vec _ _ = return ()"

definition go_iov :: "iovec list \<Rightarrow> int \<Rightarrow> (('g, 's) cstate, bytes list) prog" where
  "go_iov iov iovcnt =
     (if iovcnt < 0 \<or> nat iovcnt > length iov then segfault else load_vec (take (nat iovcnt) iov))"

definition go_int :: "('g, int) prog \<Rightarrow> (('g, 's) cstate, cval) prog" where
  "go_int m = bnd (go_call m) (\<lambda>r. return (CInt r))"

definition go_int32 :: "('g, int) prog \<Rightarrow> (('g, 's) cstate, cval) prog" where
  "go_int32 m = bnd (go_call m) (\<lambda>r. return (CInt (i32 r)))"

text \<open>A buffer the Go layer fills.\<close>

definition go_fill :: "cptr \<Rightarrow> int \<Rightarrow> (bytes \<Rightarrow> ('g, int \<times> bytes) prog) \<Rightarrow> (('g, 's) cstate, cval) prog" where
  "go_fill buf n m =
     bnd (load buf (nat n)) (\<lambda>b.
     bnd (go_call (m b)) (\<lambda>(r, b).
     bnd (store buf b) (\<lambda>_. return (CInt r))))"

definition go_fill_vec ::
  "iovec list \<Rightarrow> int \<Rightarrow> (bytes list \<Rightarrow> ('g, int \<times> bytes list) prog) \<Rightarrow> (('g, 's) cstate, cval) prog" where
  "go_fill_vec iov iovcnt m =
     bnd (go_iov iov iovcnt) (\<lambda>bs.
     bnd (go_call (m bs)) (\<lambda>(r, bs).
     bnd (store_vec (take (nat iovcnt) iov) bs) (\<lambda>_. return (CInt r))))"

text \<open>A structure the Go layer fills when it succeeds.\<close>

definition go_stat :: "nat \<Rightarrow> ('g, int \<times> cstat option) prog \<Rightarrow> (('g, 's) cstate, cval) prog" where
  "go_stat buf m =
     bnd (go_call m) (\<lambda>(r, st).
     bnd (case st of None \<Rightarrow> return ()
          | Some st \<Rightarrow> upd_os (\<lambda>w. w\<lparr> stats := (stats w)(buf := st) \<rparr>)) (\<lambda>_.
       return (CInt (i32 r))))"

definition go_statfs :: "nat \<Rightarrow> ('g, int \<times> cstatfs) prog \<Rightarrow> (('g, 's) cstate, cval) prog" where
  "go_statfs buf m =
     bnd (go_call m) (\<lambda>(r, st).
     bnd (upd_os (\<lambda>w. w\<lparr> statfss := (statfss w)(buf := st) \<rparr>)) (\<lambda>_. return (CInt (i32 r))))"

definition go_statvfs :: "nat \<Rightarrow> ('g, int \<times> int) prog \<Rightarrow> (('g, 's) cstate, cval) prog" where
  "go_statvfs buf m =
     bnd (go_call m) (\<lambda>(r, bs).
     bnd (upd_os (\<lambda>w. w\<lparr> statfss := (statfss w)(buf := (statfss w buf)\<lparr> f_bsize := bs \<rparr>) \<rparr>)) (\<lambda>_.
       return (CInt (i32 r))))"

text \<open>\<open>__OPEN_NEEDS_MODE\<close> of the C library's headers.\<close>

definition O_CREAT :: int where "O_CREAT = 64"
definition O_TMPFILE :: int where "O_TMPFILE = 4259840"

definition OPEN_NEEDS_MODE :: "int \<Rightarrow> bool" where
  "OPEN_NEEDS_MODE flags \<longleftrightarrow> flags AND O_CREAT \<noteq> 0 \<or> flags AND O_TMPFILE = O_TMPFILE"

section \<open>Opening\<close>

definition c_open ::
  "'s cenv \<Rightarrow> 'g golayer \<Rightarrow> string option \<Rightarrow> int \<Rightarrow> int \<Rightarrow> (('g, 's) cstate, cval) prog" where
  "c_open E G pathname flags arg =
     (let mode = (if OPEN_NEEDS_MODE flags then arg else 0) in
     bnd (TRACE E ''open'') (\<lambda>_.
     bnd (PATH_NOT_MANAGED E pathname) (\<lambda>nm.
       if nm then libc_open E pathname flags mode
       else
         bnd (strdup pathname) (\<lambda>filename.
         bnd (get_new_fd E G) (\<lambda>fd.
         bnd (go_call (Open_go G filename flags mode fd)) (\<lambda>r.
         let ret = i32 r in
         if ret < 0 then
           bnd (gets (\<lambda>s. GetErrno_go G (golang s))) (\<lambda>e.
           bnd (set_errno e) (\<lambda>_.
           bnd (remove_fd E G fd) (\<lambda>_. return (CInt ret))))
         else return (CInt ret)))))))"

definition c_open64 ::
  "'s cenv \<Rightarrow> 'g golayer \<Rightarrow> string option \<Rightarrow> int \<Rightarrow> int \<Rightarrow> (('g, 's) cstate, cval) prog" where
  "c_open64 E G pathname flags arg =
     c_open E G pathname flags arg"

definition c_creat ::
  "'s cenv \<Rightarrow> 'g golayer \<Rightarrow> string option \<Rightarrow> int \<Rightarrow> (('g, 's) cstate, cval) prog" where
  "c_creat E G pathname mode =
     bnd (TRACE E ''creat'') (\<lambda>_.
     bnd (PATH_NOT_MANAGED E pathname) (\<lambda>nm.
       if nm then libc_creat E pathname mode
       else NOT_IMPLEMENTED ''creat''))"

definition c_creat64 ::
  "'s cenv \<Rightarrow> 'g golayer \<Rightarrow> string option \<Rightarrow> int \<Rightarrow> (('g, 's) cstate, cval) prog" where
  "c_creat64 E G pathname mode =
     c_creat E G pathname mode"

section \<open>Reading and writing\<close>

definition c_write ::
  "'s cenv \<Rightarrow> 'g golayer \<Rightarrow> int \<Rightarrow> cptr \<Rightarrow> int \<Rightarrow> (('g, 's) cstate, cval) prog" where
  "c_write E G fd buf nbyte =
     bnd (TRACE E ''write'') (\<lambda>_.
     bnd (FD_NOT_MANAGED fd) (\<lambda>nm.
       if nm then libc_write E fd buf nbyte
       else bnd (load buf (nat nbyte)) (\<lambda>b. go_int (Write_go G fd b))))"

definition c_read ::
  "'s cenv \<Rightarrow> 'g golayer \<Rightarrow> int \<Rightarrow> cptr \<Rightarrow> int \<Rightarrow> (('g, 's) cstate, cval) prog" where
  "c_read E G fd buf nbyte =
     bnd (TRACE E ''read'') (\<lambda>_.
     bnd (FD_NOT_MANAGED fd) (\<lambda>nm.
       if nm then libc_read E fd buf nbyte
       else go_fill buf nbyte (Read_go G fd)))"

definition c_pread ::
  "'s cenv \<Rightarrow> 'g golayer \<Rightarrow> int \<Rightarrow> cptr \<Rightarrow> int \<Rightarrow> int \<Rightarrow> (('g, 's) cstate, cval) prog" where
  "c_pread E G fd buf nbyte offset =
     bnd (TRACE E ''pread'') (\<lambda>_.
     bnd (FD_NOT_MANAGED fd) (\<lambda>nm.
       if nm then libc_pread E fd buf nbyte offset
       else go_fill buf nbyte (\<lambda>b. Pread_go G fd b offset)))"

definition c_pread64 ::
  "'s cenv \<Rightarrow> 'g golayer \<Rightarrow> int \<Rightarrow> cptr \<Rightarrow> int \<Rightarrow> int \<Rightarrow> (('g, 's) cstate, cval) prog" where
  "c_pread64 E G fd buf nbyte offset =
     bnd (TRACE E ''pread64'') (\<lambda>_.
     bnd (FD_NOT_MANAGED fd) (\<lambda>nm.
       if nm then libc_pread64 E fd buf nbyte offset
       else go_fill buf nbyte (\<lambda>b. Pread_go G fd b offset)))"

definition c_preadv ::
  "'s cenv \<Rightarrow> 'g golayer \<Rightarrow> int \<Rightarrow> iovec list \<Rightarrow> int \<Rightarrow> int \<Rightarrow> (('g, 's) cstate, cval) prog" where
  "c_preadv E G fd iov iovcnt offset =
     bnd (TRACE E ''preadv'') (\<lambda>_.
     bnd (FD_NOT_MANAGED fd) (\<lambda>nm.
       if nm then libc_preadv E fd iov iovcnt offset
       else go_fill_vec iov iovcnt (\<lambda>v. Preadv_go G fd v offset)))"

definition c_preadv64 ::
  "'s cenv \<Rightarrow> 'g golayer \<Rightarrow> int \<Rightarrow> iovec list \<Rightarrow> int \<Rightarrow> int \<Rightarrow> (('g, 's) cstate, cval) prog" where
  "c_preadv64 E G fd iov iovcnt offset =
     bnd (TRACE E ''preadv64'') (\<lambda>_.
     bnd (FD_NOT_MANAGED fd) (\<lambda>nm.
       if nm then libc_preadv64 E fd iov iovcnt offset
       else go_fill_vec iov iovcnt (\<lambda>v. Preadv_go G fd v offset)))"

definition c_pwrite ::
  "'s cenv \<Rightarrow> 'g golayer \<Rightarrow> int \<Rightarrow> cptr \<Rightarrow> int \<Rightarrow> int \<Rightarrow> (('g, 's) cstate, cval) prog" where
  "c_pwrite E G fd buf nbyte offset =
     bnd (TRACE E ''pwrite'') (\<lambda>_.
     bnd (FD_NOT_MANAGED fd) (\<lambda>nm.
       if nm then libc_pwrite E fd buf nbyte offset
       else bnd (load buf (nat nbyte)) (\<lambda>b. go_int (Pwrite_go G fd b offset))))"

definition c_pwrite64 ::
  "'s cenv \<Rightarrow> 'g golayer \<Rightarrow> int \<Rightarrow> cptr \<Rightarrow> int \<Rightarrow> int \<Rightarrow> (('g, 's) cstate, cval) prog" where
  "c_pwrite64 E G fd buf nbyte offset =
     bnd (TRACE E ''pwrite64'') (\<lambda>_.
     bnd (FD_NOT_MANAGED fd) (\<lambda>nm.
       if nm then libc_pwrite64 E fd buf nbyte offset
       else bnd (load buf (nat nbyte)) (\<lambda>b. go_int (Pwrite_go G fd b offset))))"

definition c_pwritev ::
  "'s cenv \<Rightarrow> 'g golayer \<Rightarrow> int \<Rightarrow> iovec list \<Rightarrow> int \<Rightarrow> int \<Rightarrow> (('g, 's) cstate, cval) prog" where
  "c_pwritev E G fd iov iovcnt offset =
     bnd (TRACE E ''pwritev'') (\<lambda>_.
     bnd (FD_NOT_MANAGED fd) (\<lambda>nm.
       if nm then libc_pwritev E fd iov iovcnt offset
       else bnd (go_iov iov iovcnt) (\<lambda>v. go_int (Pwritev_go G fd v offset))))"

definition c_pwritev64 ::
  "'s cenv \<Rightarrow> 'g golayer \<Rightarrow> int \<Rightarrow> iovec list \<Rightarrow> int \<Rightarrow> int \<Rightarrow> (('g, 's) cstate, cval) prog" where
  "c_pwritev64 E G fd iov iovcnt offset =
     bnd (TRACE E ''pwritev64'') (\<lambda>_.
     bnd (FD_NOT_MANAGED fd) (\<lambda>nm.
       if nm then libc_pwritev64 E fd iov iovcnt offset
       else bnd (go_iov iov iovcnt) (\<lambda>v. go_int (Pwritev_go G fd v offset))))"

definition c_readv ::
  "'s cenv \<Rightarrow> 'g golayer \<Rightarrow> int \<Rightarrow> iovec list \<Rightarrow> int \<Rightarrow> (('g, 's) cstate, cval) prog" where
  "c_readv E G fd iov iovcnt =
     bnd (TRACE E ''readv'') (\<lambda>_.
     bnd (FD_NOT_MANAGED fd) (\<lambda>nm.
       if nm then libc_readv E fd iov iovcnt
       else go_fill_vec iov iovcnt (Readv_go G fd)))"

definition c_writev ::
  "'s cenv \<Rightarrow> 'g golayer \<Rightarrow> int \<Rightarrow> iovec list \<Rightarrow> int \<Rightarrow> (('g, 's) cstate, cval) prog" where
  "c_writev E G fd iov iovcnt =
     bnd (TRACE E ''writev'') (\<lambda>_.
     bnd (FD_NOT_MANAGED fd) (\<lambda>nm.
       if nm then libc_writev E fd iov iovcnt
       else bnd (go_iov iov iovcnt) (\<lambda>v. go_int (Writev_go G fd v))))"

section \<open>Descriptors\<close>

definition c_fdatasync ::
  "'s cenv \<Rightarrow> 'g golayer \<Rightarrow> int \<Rightarrow> (('g, 's) cstate, cval) prog" where
  "c_fdatasync E G fd =
     bnd (TRACE E ''fdatasync'') (\<lambda>_.
     bnd (FD_NOT_MANAGED fd) (\<lambda>nm.
       if nm then libc_fdatasync E fd
       else NOT_IMPLEMENTED ''fdatasync''))"

definition c_fsync ::
  "'s cenv \<Rightarrow> 'g golayer \<Rightarrow> int \<Rightarrow> (('g, 's) cstate, cval) prog" where
  "c_fsync E G fd =
     bnd (TRACE E ''fsync'') (\<lambda>_.
     bnd (FD_NOT_MANAGED fd) (\<lambda>nm.
       if nm then libc_fsync E fd
       else NOT_IMPLEMENTED ''fsync''))"

definition c_ftruncate64 ::
  "'s cenv \<Rightarrow> 'g golayer \<Rightarrow> int \<Rightarrow> int \<Rightarrow> (('g, 's) cstate, cval) prog" where
  "c_ftruncate64 E G fd len =
     bnd (TRACE E ''ftrunctate64'') (\<lambda>_.
     bnd (FD_NOT_MANAGED fd) (\<lambda>nm.
       if nm then libc_ftruncate64 E fd len
       else go_int32 (Ftruncate_go G fd len)))"

definition c_ftruncate ::
  "'s cenv \<Rightarrow> 'g golayer \<Rightarrow> int \<Rightarrow> int \<Rightarrow> (('g, 's) cstate, cval) prog" where
  "c_ftruncate E G fd len =
     bnd (TRACE E ''ftruncate'') (\<lambda>_.
     bnd (FD_NOT_MANAGED fd) (\<lambda>nm.
       if nm then libc_ftruncate E fd len
       else go_int32 (Ftruncate_go G fd len)))"

definition c_lseek64 ::
  "'s cenv \<Rightarrow> 'g golayer \<Rightarrow> int \<Rightarrow> int \<Rightarrow> int \<Rightarrow> (('g, 's) cstate, cval) prog" where
  "c_lseek64 E G fd offset whence =
     bnd (TRACE E ''lseek64'') (\<lambda>_.
     bnd (FD_NOT_MANAGED fd) (\<lambda>nm.
       if nm then libc_lseek64 E fd offset whence
       else go_int (Lseek_go G fd offset whence)))"

definition c_lseek ::
  "'s cenv \<Rightarrow> 'g golayer \<Rightarrow> int \<Rightarrow> int \<Rightarrow> int \<Rightarrow> (('g, 's) cstate, cval) prog" where
  "c_lseek E G fd offset whence =
     bnd (TRACE E ''lseek'') (\<lambda>_.
     bnd (FD_NOT_MANAGED fd) (\<lambda>nm.
       if nm then libc_lseek E fd offset whence
       else go_int (Lseek_go G fd offset whence)))"

definition c_ioctl ::
  "'s cenv \<Rightarrow> 'g golayer \<Rightarrow> int \<Rightarrow> int \<Rightarrow> cptr \<Rightarrow> (('g, 's) cstate, cval) prog" where
  "c_ioctl E G fd request argp =
     bnd (TRACE E ''ioctl'') (\<lambda>_.
     bnd (FD_NOT_MANAGED fd) (\<lambda>nm.
       if nm then libc_ioctl E fd request argp
       else NOT_IMPLEMENTED ''ioctl''))"

definition c_dup2 ::
  "'s cenv \<Rightarrow> 'g golayer \<Rightarrow> int \<Rightarrow> int \<Rightarrow> (('g, 's) cstate, cval) prog" where
  "c_dup2 E G oldfd newfd =
     bnd (TRACE E ''dup2'') (\<lambda>_.
     bnd (FD_NOT_MANAGED oldfd) (\<lambda>nm_old.
     bnd (FD_NOT_MANAGED newfd) (\<lambda>nm_new.
       if nm_old \<and> nm_new then libc_dup2 E oldfd newfd
       else NOT_IMPLEMENTED ''dup2'')))"

definition c_posix_fadvise ::
  "'s cenv \<Rightarrow> 'g golayer \<Rightarrow> int \<Rightarrow> int \<Rightarrow> int \<Rightarrow> int \<Rightarrow> (('g, 's) cstate, cval) prog" where
  "c_posix_fadvise E G fd offset len advice =
     bnd (TRACE E ''posix_fadvise'') (\<lambda>_.
     bnd (FD_NOT_MANAGED fd) (\<lambda>nm.
       if nm then libc_posix_fadvise E fd offset len advice
       else go_int32 (Fadvise_go G fd offset len advice)))"

definition c_posix_fadvise64 ::
  "'s cenv \<Rightarrow> 'g golayer \<Rightarrow> int \<Rightarrow> int \<Rightarrow> int \<Rightarrow> int \<Rightarrow> (('g, 's) cstate, cval) prog" where
  "c_posix_fadvise64 E G fd offset len advice =
     bnd (TRACE E ''posix_fadvise64'') (\<lambda>_.
     bnd (FD_NOT_MANAGED fd) (\<lambda>nm.
       if nm then libc_posix_fadvise64 E fd offset len advice
       else go_int32 (Fadvise_go G fd offset len advice)))"

section \<open>Paths\<close>

definition c_truncate64 ::
  "'s cenv \<Rightarrow> 'g golayer \<Rightarrow> string option \<Rightarrow> int \<Rightarrow> (('g, 's) cstate, cval) prog" where
  "c_truncate64 E G path len =
     bnd (TRACE E ''truncate64'') (\<lambda>_.
     bnd (PATH_NOT_MANAGED E path) (\<lambda>nm.
       if nm then libc_truncate64 E path len
       else NOT_IMPLEMENTED ''truncate64''))"

definition c_truncate ::
  "'s cenv \<Rightarrow> 'g golayer \<Rightarrow> string option \<Rightarrow> int \<Rightarrow> (('g, 's) cstate, cval) prog" where
  "c_truncate E G path len =
     bnd (TRACE E ''truncate'') (\<lambda>_.
     bnd (PATH_NOT_MANAGED E path) (\<lambda>nm.
       if nm then libc_truncate E path len
       else NOT_IMPLEMENTED ''truncate''))"

definition c_access ::
  "'s cenv \<Rightarrow> 'g golayer \<Rightarrow> string option \<Rightarrow> int \<Rightarrow> (('g, 's) cstate, cval) prog" where
  "c_access E G pathname mode =
     bnd (TRACE E ''access'') (\<lambda>_.
     bnd (PATH_NOT_MANAGED E pathname) (\<lambda>nm.
       if nm then libc_access E pathname mode
       else bnd (strdup pathname) (\<lambda>filename.
         go_int32 (Access_go G filename mode))))"

definition c_unlink ::
  "'s cenv \<Rightarrow> 'g golayer \<Rightarrow> string option \<Rightarrow> (('g, 's) cstate, cval) prog" where
  "c_unlink E G pathname =
     bnd (TRACE E ''unlink'') (\<lambda>_.
     bnd (PATH_NOT_MANAGED E pathname) (\<lambda>nm.
       if nm then libc_unlink E pathname
       else bnd (strdup pathname) (\<lambda>filename.
         bnd (go_call (Unlink_go G filename)) (\<lambda>r.
         let ret = i32 r in
         if ret < 0 then
           bnd (gets (\<lambda>s. GetErrno_go G (golang s))) (\<lambda>e.
           bnd (set_errno e) (\<lambda>_. return (CInt ret)))
         else return (CInt ret)))))"

definition c_mkdir ::
  "'s cenv \<Rightarrow> 'g golayer \<Rightarrow> string option \<Rightarrow> int \<Rightarrow> (('g, 's) cstate, cval) prog" where
  "c_mkdir E G pathname mode =
     bnd (TRACE E ''mkdir'') (\<lambda>_.
     bnd (PATH_NOT_MANAGED E pathname) (\<lambda>nm.
       if nm then libc_mkdir E pathname mode
       else bnd (strdup pathname) (\<lambda>filename.
         go_int32 (Mkdir_go G filename mode))))"

definition c_rmdir ::
  "'s cenv \<Rightarrow> 'g golayer \<Rightarrow> string option \<Rightarrow> (('g, 's) cstate, cval) prog" where
  "c_rmdir E G pathname =
     bnd (TRACE E ''rmdir'') (\<lambda>_.
     bnd (PATH_NOT_MANAGED E pathname) (\<lambda>nm.
       if nm then libc_rmdir E pathname
       else bnd (strdup pathname) (\<lambda>filename.
         go_int32 (Rmdir_go G filename))))"

definition c_rename ::
  "'s cenv \<Rightarrow> 'g golayer \<Rightarrow> string option \<Rightarrow> string option \<Rightarrow> (('g, 's) cstate, cval) prog" where
  "c_rename E G oldpath newpath =
     bnd (TRACE E ''rename'') (\<lambda>_.
     bnd (PATH_NOT_MANAGED E oldpath) (\<lambda>nm_old.
     bnd (if nm_old then PATH_NOT_MANAGED E newpath else return False) (\<lambda>nm.
       if nm then libc_rename E oldpath newpath
       else NOT_IMPLEMENTED ''rename'')))"

definition c_opendir ::
  "'s cenv \<Rightarrow> 'g golayer \<Rightarrow> string option \<Rightarrow> (('g, 's) cstate, cval) prog" where
  "c_opendir E G path =
     bnd (TRACE E ''opendir'') (\<lambda>_.
     bnd (PATH_NOT_MANAGED E path) (\<lambda>nm.
       if nm then libc_opendir E path
       else NOT_IMPLEMENTED ''opendir''))"

definition c_getxattr ::
  "'s cenv \<Rightarrow> 'g golayer \<Rightarrow> string option \<Rightarrow> string option \<Rightarrow> cptr \<Rightarrow> int \<Rightarrow> (('g, 's) cstate, cval) prog" where
  "c_getxattr E G path name value sz =
     bnd (TRACE E ''getxattr'') (\<lambda>_.
     bnd (PATH_NOT_MANAGED E path) (\<lambda>nm.
       if nm then libc_getxattr E path name value sz
       else bnd (set_errno EOPNOTSUPP) (\<lambda>_. return (CInt (- 1)))))"

section \<open>Metadata\<close>

definition c_xstat ::
  "'s cenv \<Rightarrow> 'g golayer \<Rightarrow> int \<Rightarrow> string option \<Rightarrow> nat \<Rightarrow> (('g, 's) cstate, cval) prog" where
  "c_xstat E G vers pathname st =
     bnd (TRACE E ''__xstat'') (\<lambda>_.
     bnd (PATH_NOT_MANAGED E pathname) (\<lambda>nm.
       if nm then libc__xstat E vers pathname st
       else bnd (strdup pathname) (\<lambda>filename.
         go_stat st (Stat_go G filename))))"

definition c_xstat64 ::
  "'s cenv \<Rightarrow> 'g golayer \<Rightarrow> int \<Rightarrow> string option \<Rightarrow> nat \<Rightarrow> (('g, 's) cstate, cval) prog" where
  "c_xstat64 E G vers pathname st =
     bnd (TRACE E ''__xstat64'') (\<lambda>_.
     bnd (PATH_NOT_MANAGED E pathname) (\<lambda>nm.
       if nm then libc__xstat64 E vers pathname st
       else bnd (strdup pathname) (\<lambda>filename.
         go_stat st (Stat64_go G filename))))"

definition c_lxstat ::
  "'s cenv \<Rightarrow> 'g golayer \<Rightarrow> int \<Rightarrow> string option \<Rightarrow> nat \<Rightarrow> (('g, 's) cstate, cval) prog" where
  "c_lxstat E G vers pathname st =
     bnd (TRACE E ''__lxstat'') (\<lambda>_.
     bnd (PATH_NOT_MANAGED E pathname) (\<lambda>nm.
       if nm then libc__lxstat E vers pathname st
       else bnd (strdup pathname) (\<lambda>filename.
         go_stat st (Lstat_go G filename))))"

definition c_lxstat64 ::
  "'s cenv \<Rightarrow> 'g golayer \<Rightarrow> int \<Rightarrow> string option \<Rightarrow> nat \<Rightarrow> (('g, 's) cstate, cval) prog" where
  "c_lxstat64 E G vers pathname st =
     bnd (TRACE E ''__lxstat64'') (\<lambda>_.
     bnd (PATH_NOT_MANAGED E pathname) (\<lambda>nm.
       if nm then libc__lxstat64 E vers pathname st
       else bnd (strdup pathname) (\<lambda>filename.
         go_stat st (Lstat64_go G filename))))"

definition c_fxstat ::
  "'s cenv \<Rightarrow> 'g golayer \<Rightarrow> int \<Rightarrow> int \<Rightarrow> nat \<Rightarrow> (('g, 's) cstate, cval) prog" where
  "c_fxstat E G vers fd st =
     bnd (TRACE E ''__fxstat'') (\<lambda>_.
     bnd (FD_NOT_MANAGED fd) (\<lambda>nm.
       if nm then libc__fxstat E vers fd st
       else go_stat st (Fstat_go G fd)))"

definition c_fxstat64 ::
  "'s cenv \<Rightarrow> 'g golayer \<Rightarrow> int \<Rightarrow> int \<Rightarrow> nat \<Rightarrow> (('g, 's) cstate, cval) prog" where
  "c_fxstat64 E G vers fd st =
     bnd (TRACE E ''__fxstat64'') (\<lambda>_.
     bnd (FD_NOT_MANAGED fd) (\<lambda>nm.
       if nm then libc__fxstat64 E vers fd st
       else go_stat st (Fstat64_go G fd)))"

definition c_statfs ::
  "'s cenv \<Rightarrow> 'g golayer \<Rightarrow> string option \<Rightarrow> nat \<Rightarrow> (('g, 's) cstate, cval) prog" where
  "c_statfs E G path st =
     bnd (TRACE E ''statfs'') (\<lambda>_.
     bnd (PATH_NOT_MANAGED E path) (\<lambda>nm.
       if nm then libc_statfs E path st
       else bnd (strdup path) (\<lambda>filename.
         go_statfs st (Statfs_go G filename))))"

definition c_statfs64 ::
  "'s cenv \<Rightarrow> 'g golayer \<Rightarrow> string option \<Rightarrow> nat \<Rightarrow> (('g, 's) cstate, cval) prog" where
  "c_statfs64 E G path st =
     bnd (TRACE E ''statfs64'') (\<lambda>_.
     bnd (PATH_NOT_MANAGED E path) (\<lambda>nm.
       if nm then libc_statfs64 E path st
       else bnd (strdup path) (\<lambda>filename.
         go_statfs st (Statfs64_go G filename))))"

definition c_fstatfs ::
  "'s cenv \<Rightarrow> 'g golayer \<Rightarrow> int \<Rightarrow> nat \<Rightarrow> (('g, 's) cstate, cval) prog" where
  "c_fstatfs E G fd st =
     bnd (TRACE E ''fstatfs'') (\<lambda>_.
     bnd (FD_NOT_MANAGED fd) (\<lambda>nm.
       if nm then libc_fstatfs E fd st
       else NOT_IMPLEMENTED ''fstatfs''))"

definition c_fstatfs64 ::
  "'s cenv \<Rightarrow> 'g golayer \<Rightarrow> int \<Rightarrow> nat \<Rightarrow> (('g, 's) cstate, cval) prog" where
  "c_fstatfs64 E G fd st =
     bnd (TRACE E ''fstatfs64'') (\<lambda>_.
     bnd (FD_NOT_MANAGED fd) (\<lambda>nm.
       if nm then libc_fstatfs64 E fd st
       else NOT_IMPLEMENTED ''fstatfs64''))"

definition c_statvfs ::
  "'s cenv \<Rightarrow> 'g golayer \<Rightarrow> string option \<Rightarrow> nat \<Rightarrow> (('g, 's) cstate, cval) prog" where
  "c_statvfs E G pathname st =
     bnd (TRACE E ''statvfs'') (\<lambda>_.
     bnd (PATH_NOT_MANAGED E pathname) (\<lambda>nm.
       if nm then libc_statvfs E pathname st
       else bnd (strdup pathname) (\<lambda>filename.
         go_statvfs st (Statvfs_go G filename))))"

definition c_statvfs64 ::
  "'s cenv \<Rightarrow> 'g golayer \<Rightarrow> string option \<Rightarrow> nat \<Rightarrow> (('g, 's) cstate, cval) prog" where
  "c_statvfs64 E G pathname st =
     bnd (TRACE E ''statvfs64'') (\<lambda>_.
     bnd (PATH_NOT_MANAGED E pathname) (\<lambda>nm.
       if nm then libc_statvfs64 E pathname st
       else bnd (strdup pathname) (\<lambda>filename.
         go_statvfs st (Statvfs64_go G filename))))"

definition c_fstatvfs ::
  "'s cenv \<Rightarrow> 'g golayer \<Rightarrow> int \<Rightarrow> nat \<Rightarrow> (('g, 's) cstate, cval) prog" where
  "c_fstatvfs E G fd st =
     bnd (TRACE E ''fstatvfs'') (\<lambda>_.
     bnd (FD_NOT_MANAGED fd) (\<lambda>nm.
       if nm then libc_fstatvfs E fd st
       else NOT_IMPLEMENTED ''fstatvfs''))"

definition c_fstatvfs64 ::
  "'s cenv \<Rightarrow> 'g golayer \<Rightarrow> int \<Rightarrow> nat \<Rightarrow> (('g, 's) cstate, cval) prog" where
  "c_fstatvfs64 E G fd st =
     bnd (TRACE E ''fstatvfs64'') (\<lambda>_.
     bnd (FD_NOT_MANAGED fd) (\<lambda>nm.
       if nm then libc_fstatvfs64 E fd st
       else NOT_IMPLEMENTED ''fstatvfs64''))"

section \<open>Functions that only pass through\<close>

definition c_unlinkat ::
  "'s cenv \<Rightarrow> 'g golayer \<Rightarrow> int \<Rightarrow> string option \<Rightarrow> int \<Rightarrow> (('g, 's) cstate, cval) prog" where
  "c_unlinkat E G dirfd pathname flags =
     bnd (TRACE E ''unlinkat'') (\<lambda>_.
       libc_unlinkat E dirfd pathname flags)"

definition c_faccessat ::
  "'s cenv \<Rightarrow> 'g golayer \<Rightarrow> int \<Rightarrow> string option \<Rightarrow> int \<Rightarrow> int \<Rightarrow> (('g, 's) cstate, cval) prog" where
  "c_faccessat E G dirfd pathname mode flags =
     bnd (TRACE E ''faccessat'') (\<lambda>_.
       libc_faccessat E dirfd pathname mode flags)"

definition c_fxstatat ::
  "'s cenv \<Rightarrow> 'g golayer \<Rightarrow> int \<Rightarrow> int \<Rightarrow> string option \<Rightarrow> nat \<Rightarrow> int \<Rightarrow> (('g, 's) cstate, cval) prog" where
  "c_fxstatat E G vers dirfd pathname st flags =
     bnd (TRACE E ''__fxstatat'') (\<lambda>_.
       libc__fxstatat E vers dirfd pathname st flags)"

definition c_fxstatat64 ::
  "'s cenv \<Rightarrow> 'g golayer \<Rightarrow> int \<Rightarrow> int \<Rightarrow> string option \<Rightarrow> nat \<Rightarrow> int \<Rightarrow> (('g, 's) cstate, cval) prog" where
  "c_fxstatat64 E G vers dirfd pathname st flags =
     bnd (TRACE E ''__fxstatat64'') (\<lambda>_.
       libc__fxstatat64 E vers dirfd pathname st flags)"

definition c_openat ::
  "'s cenv \<Rightarrow> 'g golayer \<Rightarrow> int \<Rightarrow> string option \<Rightarrow> int \<Rightarrow> int \<Rightarrow> (('g, 's) cstate, cval) prog" where
  "c_openat E G dirfd pathname flags arg =
     (let mode = (if OPEN_NEEDS_MODE flags then arg else 0) in
     bnd (TRACE E ''openat'') (\<lambda>_.
       libc_openat E dirfd pathname flags mode))"

definition c_mkdirat ::
  "'s cenv \<Rightarrow> 'g golayer \<Rightarrow> int \<Rightarrow> string option \<Rightarrow> int \<Rightarrow> (('g, 's) cstate, cval) prog" where
  "c_mkdirat E G dirfd pathname mode =
     bnd (TRACE E ''mkdirat'') (\<lambda>_.
       libc_mkdirat E dirfd pathname mode)"

definition c_renameat ::
  "'s cenv \<Rightarrow> 'g golayer \<Rightarrow> int \<Rightarrow> string option \<Rightarrow> int \<Rightarrow> string option \<Rightarrow> (('g, 's) cstate, cval) prog" where
  "c_renameat E G olddirfd oldpath newdirfd newpath =
     bnd (TRACE E ''renameat'') (\<lambda>_.
       libc_renameat E olddirfd oldpath newdirfd newpath)"

definition c_renameat2 ::
  "'s cenv \<Rightarrow> 'g golayer \<Rightarrow> int \<Rightarrow> string option \<Rightarrow> int \<Rightarrow> string option \<Rightarrow> int \<Rightarrow> (('g, 's) cstate, cval) prog" where
  "c_renameat2 E G olddirfd oldpath newdirfd newpath flags =
     bnd (TRACE E ''renameat2'') (\<lambda>_.
       libc_renameat2 E olddirfd oldpath newdirfd newpath flags)"

end
