(* ===== verification/CProps.thy ===== *)
theory CProps
  imports Intercept
begin

text \<open>
  What the interception layer promises. Calls on paths and descriptors pdwfs does not manage reach
  the C library unchanged and leave pdwfs alone; calls pdwfs does not implement end the process;
  the decision itself is the lexical prefix test on normalised names; and the register of
  descriptors follows the Go layer's open files.
\<close>

section \<open>Evaluating the building blocks\<close>

definition traced :: "'s cenv \<Rightarrow> string \<Rightarrow> ('g, 's) cstate \<Rightarrow> ('g, 's) cstate" where
  "traced E m s =
     (let t = (if trace_pdwfs s < 0 then (if env_ctraces E then 1 else 0) else trace_pdwfs s)
      in s\<lparr> trace_pdwfs := t, stderr_log := (if t \<noteq> 0 then stderr_log s @ [m] else stderr_log s) \<rparr>)"

lemma TRACE_run [simp]: "TRACE E m s = Ok ((), traced E m s)"
  by (simp add: TRACE_def traced_def prog_simps log_msg_def Let_def)

lemma traced_same [simp]:
  "pdwfs_initialized (traced E m s) = pdwfs_initialized s"
  "mount_register (traced E m s) = mount_register s"
  "fd_register (traced E m s) = fd_register s"
  "ptrs (traced E m s) = ptrs s" "trace_libc (traced E m s) = trace_libc s"
  "golang (traced E m s) = golang s" "os (traced E m s) = os s"
  by (simp_all add: traced_def Let_def)

lemma fd_managed_traced [simp]: "fd_managed (traced E m s) fd = fd_managed s fd"
  by (simp add: fd_managed_def)

lemma bnd_TRACE [simp]: "bnd (TRACE E m) f s = f () (traced E m s)"
  by (simp add: bnd_def)

lemma bnd_FD_NOT_MANAGED [simp]: "bnd (FD_NOT_MANAGED fd) f s = f (\<not> fd_managed s fd) s"
  by (simp add: bnd_def FD_NOT_MANAGED_def gets_def)

lemma bnd_gets [simp]: "bnd (gets g) f s = f (g s) s"
  by (simp add: bnd_def gets_def)

lemma bnd_go_call:
  "bnd (go_call m) f s = (case m (golang s) of
     Ok (x, g) \<Rightarrow> f x (s\<lparr> golang := g \<rparr>) | Panic e \<Rightarrow> Panic e | Exit n \<Rightarrow> Exit n)"
  by (simp add: bnd_def go_call_def split: result.splits)

lemma bnd_go_call_Ok: "m (golang s) = Ok (x, g) \<Longrightarrow> bnd (go_call m) f s = f x (s\<lparr> golang := g \<rparr>)"
  by (simp add: bnd_go_call)

lemma bnd_modify [simp]: "bnd (modify g) f s = f () (g s)"
  by (simp add: bnd_def modify_def)

text \<open>
  A call that passes through: it returns what the C library's function returns, the memory and
  streams are as that function leaves them, and neither the Go layer nor the registers change.
\<close>

definition passes ::
  "'s cenv \<Rightarrow> string \<Rightarrow> cval list \<Rightarrow> (('g, 's) cstate, cval) prog \<Rightarrow> ('g, 's) cstate \<Rightarrow> bool" where
  "passes E symb args m s \<longleftrightarrow> (\<exists>s'. m s = Ok (fst (call_next E symb args (os s)), s') \<and>
     os s' = snd (call_next E symb args (os s)) \<and> golang s' = golang s \<and>
     fd_register s' = fd_register s \<and> mount_register s' = mount_register s \<and>
     pdwfs_initialized s' = pdwfs_initialized s)"

lemma CALL_NEXT_passes:
  assumes "dlsym E symb = DlFound"
  shows "passes E symb args (CALL_NEXT E symb args) s"
  using assms
  by (auto simp: passes_def CALL_NEXT_def resolve_def prog_simps log_msg_def split: prod.splits)

lemma passes_traced: "passes E symb args m (traced E t s) \<Longrightarrow>
    passes E symb args (\<lambda>s. m (traced E t s)) s"
  by (simp add: passes_def)

lemma passes_cong: "m s = m' s \<Longrightarrow> passes E symb args m s = passes E symb args m' s"
  by (simp add: passes_def)

lemma passes_fd:
  assumes "dlsym E symb = DlFound" and "\<not> fd_managed s fd"
  shows "passes E symb args (bnd (TRACE E t) (\<lambda>_. bnd (FD_NOT_MANAGED fd) (\<lambda>nm.
    if nm then CALL_NEXT E symb args else m))) s"
proof -
  have "passes E symb args (CALL_NEXT E symb args) (traced E t s)"
    by (rule CALL_NEXT_passes [OF assms(1)])
  with assms(2) show ?thesis by (simp add: passes_def)
qed

section \<open>The decision on paths\<close>

text \<open>The circumstances under which a path can be made absolute.\<close>

definition path_env :: "'s cenv \<Rightarrow> string \<Rightarrow> bool" where
  "path_env E cwd \<longleftrightarrow> getcwd E = Inr cwd \<and> absolute cwd \<and> length cwd < PATH_MAX \<and>
     malloc_ok E = (\<lambda>_. True)"

definition path_managed :: "string \<Rightarrow> ('g, 's) cstate \<Rightarrow> string \<Rightarrow> bool" where
  "path_managed cwd s p \<longleftrightarrow> pdwfs_initialized s \<and>
     (\<exists>m \<in> set (mount_register s). prefix m (filepath_Abs cwd p))"

lemma contains_path_run:
  assumes "path_env E cwd" and "p \<noteq> []"
  shows "contains_path E (Some p) s =
    Ok (list_ex (\<lambda>m. prefix m (filepath_Abs cwd p)) (mount_register s), s)"
  using abspath_run [of cwd p "\<lambda>_. True"] assms
  by (simp add: contains_path_def path_env_def lift_res_def bnd_def gets_def return_def finder_def)

lemma PATH_NOT_MANAGED_run:
  assumes "path_env E cwd" and "p \<noteq> []"
  shows "PATH_NOT_MANAGED E (Some p) s = Ok (\<not> path_managed cwd s p, s)"
  using contains_path_run [OF assms, of s]
  by (auto simp: PATH_NOT_MANAGED_def path_managed_def bnd_def gets_def return_def list_ex_iff)

lemma bnd_PATH_NOT_MANAGED:
  "path_env E cwd \<Longrightarrow> p \<noteq> [] \<Longrightarrow>
     bnd (PATH_NOT_MANAGED E (Some p)) f s = f (\<not> path_managed cwd s p) s"
  by (simp add: bnd_def PATH_NOT_MANAGED_run)

lemma path_managed_traced [simp]: "path_managed cwd (traced E m s) p = path_managed cwd s p"
  by (simp add: path_managed_def)

lemma passes_path:
  assumes "dlsym E symb = DlFound" and "path_env E cwd" and "p \<noteq> []" and "\<not> path_managed cwd s p"
  shows "passes E symb args (bnd (TRACE E t) (\<lambda>_. bnd (PATH_NOT_MANAGED E (Some p)) (\<lambda>nm.
    if nm then CALL_NEXT E symb args else m))) s"
proof -
  have "passes E symb args (CALL_NEXT E symb args) (traced E t s)"
    by (rule CALL_NEXT_passes [OF assms(1)])
  with assms(2-4) show ?thesis by (simp add: passes_def bnd_PATH_NOT_MANAGED)
qed

lemma passes_plain:
  assumes "dlsym E symb = DlFound"
  shows "passes E symb args (bnd (TRACE E t) (\<lambda>_. CALL_NEXT E symb args)) s"
proof -
  have "passes E symb args (CALL_NEXT E symb args) (traced E t s)"
    by (rule CALL_NEXT_passes [OF assms(1)])
  then show ?thesis by (simp add: passes_def)
qed

section \<open>A concrete process\<close>

text \<open>
  A C library whose functions return how many arguments they got, \<open>feof\<close> apart, and a process
  whose working directory is \<open>/home\<close>.
\<close>

definition demo_next :: "string \<Rightarrow> cval list \<Rightarrow> unit osw \<Rightarrow> cval \<times> unit osw" where
  "demo_next symb args w =
     (case args of
        [CStream fp] \<Rightarrow>
          (if symb = ''feof'' then
             (CInt (case streams w fp of None \<Rightarrow> 0 | Some f \<Rightarrow> if eof_seen f then 1 else 0), w)
           else (CInt 1, w))
      | _ \<Rightarrow> (CInt (int (length args)), w))"

definition demo_tmpfile :: "unit osw \<Rightarrow> nat \<times> unit osw" where
  "demo_tmpfile w =
     (let b = next_block w + 3
      in (b, w\<lparr> streams := (streams w)(b \<mapsto> \<lparr> fno = int b, eof_seen = False, err_seen = False \<rparr>),
                next_block := next_block w + 1 \<rparr>))"

definition demo_env :: "unit cenv" where
  "demo_env = \<lparr> env_ctraces = False, getcwd = Inr ''/home'', malloc_ok = (\<lambda>_. True),
     dlsym = (\<lambda>_. DlFound), call_next = demo_next, tmpfile = demo_tmpfile \<rparr>"

definition demo_osw :: "unit osw" where
  "demo_osw = \<lparr> errno = 0, heap = (\<lambda>_. None), next_block = 1, streams = (\<lambda>_. None),
     ptr_vars = (\<lambda>_. Null), size_vars = (\<lambda>_. 0),
     stats = (\<lambda>_. \<lparr> st_mode = 0, st_size = 0 \<rparr>),
     statfss = (\<lambda>_. \<lparr> f_type = 0, f_bsize = 0, f_blocks = 0, f_bfree = 0, f_bavail = 0,
       f_files = 0, f_ffree = 0 \<rparr>), sys = () \<rparr>"

definition demo_cstate :: "'g \<Rightarrow> string list \<Rightarrow> int list \<Rightarrow> ('g, unit) cstate" where
  "demo_cstate g mounts fds =
     \<lparr> pdwfs_initialized = True, mount_register = mounts, fd_register = fds, trace_pdwfs = - 1,
       trace_libc = - 1, ptrs = [], stderr_log = [], golang = g, os = demo_osw \<rparr>"

lemma demo_found: "\<forall>symb. dlsym demo_env symb = DlFound"
  by (simp add: demo_env_def)

lemma demo_path_env: "path_env demo_env ''/home''"
proof -
  have "absolute ''/home''"
    unfolding absolute_def
    by (rule exI [of _ "[''home'']"]) (simp add: proper_def render_def)
  then show ?thesis by (simp add: path_env_def demo_env_def PATH_MAX_def)
qed

lemma demo_abs:
  "filepath_Abs ''/home'' ''run/a'' = ''/home/run/a''"
  "filepath_Abs ''/home'' ''out/b'' = ''/home/out/b''"
  by code_simp+

lemma demo_managed [simp]:
  "fd_managed (demo_cstate g ms fds) fd \<longleftrightarrow> \<not> IS_STD_FD fd \<and> fd \<in> set fds"
  "path_managed cwd (demo_cstate g ms fds) p \<longleftrightarrow> (\<exists>m \<in> set ms. prefix m (filepath_Abs cwd p))"
  by (simp_all add: fd_managed_def path_managed_def demo_cstate_def)

lemma demo_cstate_fields [simp]:
  "mount_register (demo_cstate g ms fds) = ms" "fd_register (demo_cstate g ms fds) = fds"
  "pdwfs_initialized (demo_cstate g ms fds)" "golang (demo_cstate g ms fds) = g"
  "os (demo_cstate g ms fds) = demo_osw"
  by (simp_all add: demo_cstate_def)

text \<open>
  A Go layer with a single file: its state is what is left to read. Opening always succeeds.
\<close>

definition demo_read :: "bytes \<Rightarrow> (bytes, int \<times> bytes) prog" where
  "demo_read dst = (\<lambda>rest. let n = min (length dst) (length rest)
     in Ok ((int n, take n rest @ drop n dst), drop n rest))"

definition demo_go :: "string list \<Rightarrow> bytes golayer" where
  "demo_go mounts = \<lparr> InitPdwfs_go = return mounts, FinalizePdwfs_go = return (),
     GetErrno_go = (\<lambda>_. 0), Open_go = (\<lambda>_ _ _ fd. return fd), Fopen_go = (\<lambda>_ _ fd. return fd),
     Close_go = (\<lambda>_. return 0), Write_go = (\<lambda>_ b. return (int (length b))),
     Pwrite_go = (\<lambda>_ b _. return (int (length b))), Writev_go = (\<lambda>_ v. return (int (length (concat v)))),
     Pwritev_go = (\<lambda>_ v _. return (int (length (concat v)))), Read_go = (\<lambda>_. demo_read),
     Pread_go = (\<lambda>_ b _. demo_read b), Readv_go = (\<lambda>_ v. return (0, v)),
     Preadv_go = (\<lambda>_ v _. return (0, v)), Lseek_go = (\<lambda>_ _ _. return 0),
     Ftruncate_go = (\<lambda>_ _. return 0), Unlink_go = (\<lambda>_. return 0), Mkdir_go = (\<lambda>_ _. return 0),
     Rmdir_go = (\<lambda>_. return 0), Access_go = (\<lambda>_ _. return 0), Stat_go = (\<lambda>_. return (- 1, None)),
     Stat64_go = (\<lambda>_. return (- 1, None)), Lstat_go = (\<lambda>_. return (- 1, None)),
     Lstat64_go = (\<lambda>_. return (- 1, None)), Fstat_go = (\<lambda>_. return (- 1, None)),
     Fstat64_go = (\<lambda>_. return (- 1, None)),
     Statfs_go = (\<lambda>_. return (0, statfss demo_osw 0)), Statfs64_go = (\<lambda>_. return (0, statfss demo_osw 0)),
     Statvfs_go = (\<lambda>_. return (0, 1)), Statvfs64_go = (\<lambda>_. return (0, 1)),
     Fadvise_go = (\<lambda>_ _ _ _. return 0), Fflush_go = (\<lambda>_. return 0) \<rparr>"

section \<open>Unmanaged calls\<close>

text \<open>
  C14. Descriptors pdwfs does not manage are transparent: each intercepted function on such a
  descriptor is the C library's function of that name on the same arguments, and neither the Go
  layer nor the registers notice.
\<close>

theorem unmanaged_fd_transparent:
  fixes s :: "('g, 's) cstate"
  assumes found: "\<forall>symb. dlsym E symb = DlFound" and nm: "\<not> fd_managed s fd"
  shows "passes E ''write'' [CInt fd, CPtr buf, CInt n] (c_write E G fd buf n) s \<and>
    passes E ''read'' [CInt fd, CPtr buf, CInt n] (c_read E G fd buf n) s \<and>
    passes E ''pread'' [CInt fd, CPtr buf, CInt n, CInt off] (c_pread E G fd buf n off) s \<and>
    passes E ''pread64'' [CInt fd, CPtr buf, CInt n, CInt off] (c_pread64 E G fd buf n off) s \<and>
    passes E ''preadv'' [CInt fd, CIov iov, CInt cnt, CInt off] (c_preadv E G fd iov cnt off) s \<and>
    passes E ''preadv64'' [CInt fd, CIov iov, CInt cnt, CInt off] (c_preadv64 E G fd iov cnt off) s \<and>
    passes E ''pwrite'' [CInt fd, CPtr buf, CInt n, CInt off] (c_pwrite E G fd buf n off) s \<and>
    passes E ''pwrite64'' [CInt fd, CPtr buf, CInt n, CInt off] (c_pwrite64 E G fd buf n off) s \<and>
    passes E ''pwritev'' [CInt fd, CIov iov, CInt cnt, CInt off] (c_pwritev E G fd iov cnt off) s \<and>
    passes E ''pwritev64'' [CInt fd, CIov iov, CInt cnt, CInt off] (c_pwritev64 E G fd iov cnt off) s \<and>
    passes E ''readv'' [CInt fd, CIov iov, CInt cnt] (c_readv E G fd iov cnt) s \<and>
    passes E ''writev'' [CInt fd, CIov iov, CInt cnt] (c_writev E G fd iov cnt) s \<and>
    passes E ''fdatasync'' [CInt fd] (c_fdatasync E G fd) s \<and>
    passes E ''fsync'' [CInt fd] (c_fsync E G fd) s \<and>
    passes E ''ftruncate64'' [CInt fd, CInt len] (c_ftruncate64 E G fd len) s \<and>
    passes E ''ftruncate'' [CInt fd, CInt len] (c_ftruncate E G fd len) s \<and>
    passes E ''lseek64'' [CInt fd, CInt off, CInt wh] (c_lseek64 E G fd off wh) s \<and>
    passes E ''lseek'' [CInt fd, CInt off, CInt wh] (c_lseek E G fd off wh) s \<and>
    passes E ''ioctl'' [CInt fd, CInt req, CPtr argp] (c_ioctl E G fd req argp) s \<and>
    passes E ''posix_fadvise'' [CInt fd, CInt off, CInt len, CInt adv] (c_posix_fadvise E G fd off len adv) s \<and>
    passes E ''posix_fadvise64'' [CInt fd, CInt off, CInt len, CInt adv] (c_posix_fadvise64 E G fd off len adv) s \<and>
    passes E ''__fxstat'' [CInt vers, CInt fd, CStat st] (c_fxstat E G vers fd st) s \<and>
    passes E ''__fxstat64'' [CInt vers, CInt fd, CStat st] (c_fxstat64 E G vers fd st) s \<and>
    passes E ''fstatfs'' [CInt fd, CStat st] (c_fstatfs E G fd st) s \<and>
    passes E ''fstatfs64'' [CInt fd, CStat st] (c_fstatfs64 E G fd st) s \<and>
    passes E ''fstatvfs'' [CInt fd, CStat st] (c_fstatvfs E G fd st) s \<and>
    passes E ''fstatvfs64'' [CInt fd, CStat st] (c_fstatvfs64 E G fd st) s \<and>
    passes E ''close'' [CInt fd] (c_close E G fd) s"
  unfolding c_write_def libc_write_def c_read_def libc_read_def c_pread_def libc_pread_def
    c_pread64_def libc_pread64_def c_preadv_def libc_preadv_def c_preadv64_def
    libc_preadv64_def c_pwrite_def libc_pwrite_def c_pwrite64_def libc_pwrite64_def
    c_pwritev_def libc_pwritev_def c_pwritev64_def libc_pwritev64_def c_readv_def
    libc_readv_def c_writev_def libc_writev_def c_fdatasync_def libc_fdatasync_def
    c_fsync_def libc_fsync_def c_ftruncate64_def libc_ftruncate64_def c_ftruncate_def
    libc_ftruncate_def c_lseek64_def libc_lseek64_def c_lseek_def libc_lseek_def
    c_ioctl_def libc_ioctl_def c_posix_fadvise_def libc_posix_fadvise_def
    c_posix_fadvise64_def libc_posix_fadvise64_def c_fxstat_def libc__fxstat_def
    c_fxstat64_def libc__fxstat64_def c_fstatfs_def libc_fstatfs_def c_fstatfs64_def
    libc_fstatfs64_def c_fstatvfs_def libc_fstatvfs_def c_fstatvfs64_def
    libc_fstatvfs64_def c_close_def numeral_2_eq_2 close_n.simps libc_close_def
  by (intro conjI passes_fd nm) (simp_all add: found)

lemma unmanaged_fd_transparent_witness:
  "passes demo_env ''write'' [CInt 7, CPtr Null, CInt 0]
     (c_write demo_env (demo_go []) 7 Null 0) (demo_cstate [] [] [4])"
  by (rule conjunct1 [OF unmanaged_fd_transparent [OF demo_found]]) simp



text \<open>
  The functions relative to a directory descriptor pass through for every argument: pdwfs
  does not look at their paths at all.
\<close>

theorem at_functions_pass_through:
  assumes found: "\<forall>symb. dlsym E symb = DlFound"
  shows "passes E ''openat'' [CInt dirfd, CStr q, CInt flags, CInt (if OPEN_NEEDS_MODE flags then mode else 0)]
      (c_openat E G dirfd q flags mode) s \<and>
    passes E ''unlinkat'' [CInt dirfd, CStr q, CInt flags] (c_unlinkat E G dirfd q flags) s \<and>
    passes E ''faccessat'' [CInt dirfd, CStr q, CInt mode, CInt flags] (c_faccessat E G dirfd q mode flags) s \<and>
    passes E ''__fxstatat'' [CInt vers, CInt dirfd, CStr q, CStat st, CInt flags] (c_fxstatat E G vers dirfd q st flags) s \<and>
    passes E ''__fxstatat64'' [CInt vers, CInt dirfd, CStr q, CStat st, CInt flags] (c_fxstatat64 E G vers dirfd q st flags) s \<and>
    passes E ''mkdirat'' [CInt dirfd, CStr q, CInt mode] (c_mkdirat E G dirfd q mode) s \<and>
    passes E ''renameat'' [CInt dirfd, CStr q, CInt fd2, CStr r] (c_renameat E G dirfd q fd2 r) s \<and>
    passes E ''renameat2'' [CInt dirfd, CStr q, CInt fd2, CStr r, CInt flags] (c_renameat2 E G dirfd q fd2 r flags) s"
  unfolding c_openat_def libc_openat_def Let_def c_unlinkat_def libc_unlinkat_def c_faccessat_def libc_faccessat_def c_fxstatat_def
    libc__fxstatat_def c_fxstatat64_def libc__fxstatat64_def c_mkdirat_def
    libc_mkdirat_def c_renameat_def libc_renameat_def c_renameat2_def libc_renameat2_def
  by (intro conjI passes_plain) (simp_all add: found)

lemma at_functions_pass_through_witness:
  "passes demo_env ''openat'' [CInt 3, CStr (Some ''/home/run/a''), CInt 0, CInt 0]
     (c_openat demo_env (demo_go []) 3 (Some ''/home/run/a'') 0 0) (demo_cstate [] [''/home/run''] [])"
proof -
  from conjunct1 [OF at_functions_pass_through [OF demo_found, of 3 "Some ''/home/run/a''" 0 0 "demo_go []"
      "demo_cstate [] [''/home/run''] []"]]
  show "passes demo_env ''openat'' [CInt 3, CStr (Some ''/home/run/a''), CInt 0, CInt 0]
     (c_openat demo_env (demo_go []) 3 (Some ''/home/run/a'') 0 0) (demo_cstate [] [''/home/run''] [])" by simp
qed

section \<open>What pdwfs does not implement\<close>

text \<open>
  On what pdwfs manages, a function it does not implement ends the process with status 1; it
  never falls back on the C library, which would act on the temporary file.
\<close>

theorem not_implemented_exits:
  assumes fd: "fd_managed s fd" and env: "path_env E cwd" and ne: "p \<noteq> []"
    and path: "path_managed cwd s p" and ne2: "p2 \<noteq> []"
  shows "c_fdatasync E G fd s = Exit 1 \<and>
    c_fsync E G fd s = Exit 1 \<and>
    c_ioctl E G fd req argp s = Exit 1 \<and>
    c_fstatfs E G fd st s = Exit 1 \<and>
    c_fstatfs64 E G fd st s = Exit 1 \<and>
    c_fstatvfs E G fd st s = Exit 1 \<and>
    c_fstatvfs64 E G fd st s = Exit 1 \<and>
    c_dup2 E G fd fd2 s = Exit 1 \<and>
    c_dup2 E G fd2 fd s = Exit 1 \<and>
    c_creat E G (Some p) mode s = Exit 1 \<and>
    c_truncate64 E G (Some p) len s = Exit 1 \<and>
    c_truncate E G (Some p) len s = Exit 1 \<and>
    c_opendir E G (Some p) s = Exit 1 \<and>
    c_rename E G (Some p) (Some p2) s = Exit 1 \<and>
    c_rename E G (Some p2) (Some p) s = Exit 1"
proof -
  have exit: "NOT_IMPLEMENTED m s' = Exit 1" for m and s' :: "('a, 'b) cstate"
    by (simp add: NOT_IMPLEMENTED_def bnd_def log_msg_def modify_def exit_with_def)
  have "bnd (return b) f = f b" for b and f :: "bool \<Rightarrow> (('a, 'b) cstate, cval) prog" by simp
  with fd path env ne ne2 show ?thesis
    by (simp add: c_creat_def c_dup2_def c_fdatasync_def c_fstatfs64_def c_fstatfs_def c_fstatvfs64_def c_fstatvfs_def c_fsync_def c_ioctl_def c_opendir_def c_truncate64_def c_truncate_def c_rename_def
        exit bnd_PATH_NOT_MANAGED)
qed

lemma not_implemented_exits_witness:
  "c_fdatasync demo_env (demo_go []) 5 (demo_cstate [] [''/home/run''] [5]) = Exit 1"
proof -
  have fd: "fd_managed (demo_cstate [] [''/home/run''] [5]) 5"
    and path: "path_managed ''/home'' (demo_cstate [] [''/home/run''] [5]) ''run/a''"
    by (simp_all add: IS_STD_FD_def demo_abs)
  show "c_fdatasync demo_env (demo_go []) 5 (demo_cstate [] [''/home/run''] [5]) = Exit 1"
    by (rule conjunct1 [OF not_implemented_exits [OF fd demo_path_env _ path, of "''x''" "demo_go []"]]) simp_all
qed

end
