(* ===== verification/Lifecycle.thy ===== *)
theory Lifecycle
  imports CProps
begin

text \<open>
  The life of a managed file in the C layer: the mount points handed over at load time, the
  decision on a path, the temporary file that stands for the open file, and its closing, during
  which the intercepted \<open>close\<close> calls itself through the destructor of the register.
\<close>

section \<open>Mount points\<close>

lemma set_register_mounts: "set (register_mounts reg ms) = set reg \<union> (set ms - {[]})"
  by (induction reg ms rule: register_mounts.induct) auto

definition mount_pieces :: "string list \<Rightarrow> string list" where
  "mount_pieces ms = concat (map (\<lambda>m. [m, ''@'']) ms) @ [[NUL]]"

lemma fill_buf_fits:
  "length out + length (concat ps) \<le> cap \<Longrightarrow> fill_buf cap out ps = out @ concat ps"
  by (induction ps arbitrary: out) auto

lemma mount_pieces_concat: "concat (mount_pieces ms) = concat (map (\<lambda>m. m @ ''@'') ms) @ [NUL]"
  by (induction ms) (simp_all add: mount_pieces_def)

lemma split_mounts:
  "\<forall>m \<in> set ms. CHR ''@'' \<notin> set m \<Longrightarrow>
     split_on (CHR ''@'') (concat (map (\<lambda>m. m @ ''@'') ms)) = ms @ [[]]"
  by (induction ms) (auto simp: split_on_append split_on_word)

lemma c_string_pieces:
  assumes "\<forall>m \<in> set ms. NUL \<notin> set m"
  shows "c_string (concat (mount_pieces ms)) = Ok (concat (map (\<lambda>m. m @ ''@'') ms))"
proof -
  have "takeWhile (\<lambda>c. c \<noteq> NUL) (concat (map (\<lambda>m. m @ ''@'') ms) @ [NUL]) =
      concat (map (\<lambda>m. m @ ''@'') ms) @ takeWhile (\<lambda>c. c \<noteq> NUL) [NUL]"
    by (rule takeWhile_append2) (use assms in \<open>auto simp: NUL_def split: if_splits\<close>)
  then show ?thesis by (simp add: c_string_def mount_pieces_concat)
qed

lemma init_pdwfs_run:
  assumes "\<forall>m \<in> set ms. CHR ''@'' \<notin> set m \<and> NUL \<notin> set m \<and> m \<noteq> []"
    and "length (concat (mount_pieces ms)) \<le> 1024"
    and go: "InitPdwfs_go G (golang s) = Ok (mount_pieces ms, g)"
  shows "\<exists>s'. init_pdwfs G s = Ok ((), s') \<and> set (mount_register s') = set ms \<and>
    fd_register s' = [] \<and> pdwfs_initialized s' \<and> golang s' = g \<and> os s' = os s"
proof -
  let ?b = "concat (map (\<lambda>m. m @ ''@'') ms)"
  have buf: "c_string (fill_buf 1024 [] (mount_pieces ms)) = Ok ?b"
    using fill_buf_fits [of "[]" "mount_pieces ms" 1024] assms(1,2) c_string_pieces [of ms] by simp
  have "set (register_mounts [] (g_strsplit ?b)) = set ms"
  proof (cases "ms = []")
    case True
    then show ?thesis by (simp add: g_strsplit_def)
  next
    case False
    then have "g_strsplit ?b = ms @ [[]]"
      using split_mounts [of ms] assms(1) by (cases ms) (auto simp: g_strsplit_def)
    with assms(1) show ?thesis by (auto simp: set_register_mounts)
  qed
  with go buf show ?thesis by (simp add: init_pdwfs_def bnd_def go_call_def lift_res_def modify_def)
qed

text \<open>
  The list of mount points survives its trip through the 1024-byte buffer: when the paths have
  neither the separator nor a NUL and fit, the register of the C layer holds exactly the mount
  points of the Go layer, and the layer is initialised with no open descriptor.
\<close>

theorem init_registers_mounts:
  assumes "\<forall>m \<in> set ms. CHR ''@'' \<notin> set m \<and> NUL \<notin> set m \<and> m \<noteq> []"
    and "length (concat (mount_pieces ms)) \<le> 1024"
    and "InitPdwfs_go G (golang s) = Ok (mount_pieces ms, g)"
  shows "\<exists>s'. init_pdwfs G s = Ok ((), s') \<and> set (mount_register s') = set ms \<and>
    fd_register s' = [] \<and> pdwfs_initialized s' \<and> golang s' = g \<and> os s' = os s"
  by (rule init_pdwfs_run [OF assms])

lemma init_registers_mounts_witness:
  "\<exists>s'. init_pdwfs (demo_go (mount_pieces [''/a'', ''/b/c''])) (demo_cstate [] [] []) = Ok ((), s') \<and>
     set (mount_register s') = {''/a'', ''/b/c''}"
proof -
  let ?G = "demo_go (mount_pieces [''/a'', ''/b/c''])"
  have ok: "\<forall>m \<in> set [''/a'', ''/b/c'']. CHR ''@'' \<notin> set m \<and> NUL \<notin> set m \<and> m \<noteq> []"
    by (simp add: NUL_def)
  have len: "length (concat (mount_pieces [''/a'', ''/b/c''])) \<le> 1024"
    by (simp add: mount_pieces_def)
  have go: "InitPdwfs_go ?G (golang (demo_cstate [] [] [])) = Ok (mount_pieces [''/a'', ''/b/c''], [])"
    by (simp add: demo_go_def demo_cstate_def return_def)
  from init_registers_mounts [OF ok len go] show ?thesis by auto
qed

text \<open>
  A path is pdwfs's exactly when its normalised absolute form has a registered mount point as
  a prefix; asking changes nothing.
\<close>

theorem contains_path_decision:
  assumes "path_env E cwd" and "p \<noteq> []"
  shows "contains_path E (Some p) s =
    Ok (\<exists>m \<in> set (mount_register s). prefix m (filepath_Abs cwd p), s)"
  using contains_path_run [OF assms, of s] by (simp add: list_ex_iff)

lemma contains_path_decision_witness:
  "contains_path demo_env (Some ''run/a'') (demo_cstate () [''/home/run''] []) =
    Ok (True, demo_cstate () [''/home/run''] [])"
proof -
  have "mount_register (demo_cstate () [''/home/run''] []) = [''/home/run'']"
    by (simp add: demo_cstate_def)
  with contains_path_decision [OF demo_path_env, of "''run/a''" "demo_cstate () [''/home/run''] []"]
  show ?thesis by (simp add: demo_abs)
qed

text \<open>
  The prefix test knows no component boundary: with \<open>/home/run\<close> mounted, the sibling file
  \<open>/home/runner\<close> is taken for pdwfs's, although it is not under the mount point.
\<close>

theorem sibling_of_mount_managed:
  "contains_path demo_env (Some ''runner'') (demo_cstate () [''/home/run''] []) =
     Ok (True, demo_cstate () [''/home/run''] []) \<and>
   components (filepath_Abs ''/home'' ''runner'') = [''home'', ''runner'']"
proof -
  have abs: "filepath_Abs ''/home'' ''runner'' = ''/home/runner''" by code_simp
  have "mount_register (demo_cstate () [''/home/run''] []) = [''/home/run'']"
    by (simp add: demo_cstate_def)
  with contains_path_run [OF demo_path_env, of "''runner''" "demo_cstate () [''/home/run''] []"] abs
  have "contains_path demo_env (Some ''runner'') (demo_cstate () [''/home/run''] []) =
     Ok (True, demo_cstate () [''/home/run''] [])" by simp
  moreover have "components ''/home/runner'' = [''home'', ''runner'']" by code_simp
  ultimately show ?thesis unfolding abs by blast
qed

section \<open>Making names absolute\<close>

text \<open>
  C15. \<open>abspath\<close> computes the same name as Go's \<open>filepath.Abs\<close>, whatever the length and the
  shape of the path, never writes outside its buffer, and fails only when memory runs out; and the
  name is absolute and clean, so that doing it again changes nothing.
\<close>

theorem abspath_is_Abs:
  assumes "absolute cwd" and "length cwd < PATH_MAX" and "name \<noteq> []"
  shows "(abspath mem_ok (Inr cwd) (Some name) = Ok (Some (filepath_Abs cwd name), None) \<or>
      abspath mem_ok (Inr cwd) (Some name) = Ok (None, Some ENOMEM) \<and> (\<exists>n. \<not> mem_ok n)) \<and>
    absolute (filepath_Abs cwd name) \<and>
    filepath_Abs cwd (filepath_Abs cwd name) = filepath_Abs cwd name"
  using abspath_run [OF assms] Abs_absolute [OF assms(1)] Abs_idem by blast

lemma abspath_is_Abs_witness:
  "abspath (\<lambda>_. True) (Inr ''/home'') (Some ''./a//../b/'') = Ok (Some ''/home/b'', None)"
proof -
  have cwd: "absolute ''/home''" and len: "length ''/home'' < PATH_MAX"
    using demo_path_env by (simp_all add: path_env_def demo_env_def)
  have "filepath_Abs ''/home'' ''./a//../b/'' = ''/home/b''" by code_simp
  with abspath_is_Abs [OF cwd len, of "''./a//../b/''" "\<lambda>_. True"] show ?thesis by auto
qed

section \<open>Opening and closing a managed file\<close>

lemma CALL_NEXT_run:
  assumes "\<forall>symb. dlsym E symb = DlFound"
  obtains s' where "CALL_NEXT E symb args s = Ok (fst (call_next E symb args (os s)), s')"
    and "os s' = snd (call_next E symb args (os s))" and "golang s' = golang s"
    and "fd_register s' = fd_register s" and "mount_register s' = mount_register s"
    and "pdwfs_initialized s' = pdwfs_initialized s"
  using CALL_NEXT_passes [of E symb args s] assms by (auto simp: passes_def)

text \<open>Closing what is not in the register closes the descriptor itself.\<close>

lemma close_n_unmanaged:
  assumes "\<forall>symb. dlsym E symb = DlFound" and "\<not> fd_managed s fd"
  shows "passes E ''close'' [CInt fd] (close_n (Suc n) E G fd) s"
  using passes_fd [of E "''close''" s fd "[CInt fd]" "''close''"] assms
  unfolding close_n.simps libc_close_def by blast

lemma remove_fd_with_run:
  assumes found: "\<forall>symb. dlsym E symb = DlFound" and dist: "distinct (fd_register s)"
    and fd: "fd \<in> set (fd_register s)"
  shows "\<exists>s'. remove_fd_with (close_n (Suc n) E G) fd s = Ok ((), s') \<and>
    golang s' = golang s \<and> fd_register s' = remove1 fd (fd_register s) \<and>
    mount_register s' = mount_register s \<and> pdwfs_initialized s' = pdwfs_initialized s \<and>
    os s' = snd (call_next E ''close'' [CInt fd] (os s))"
proof -
  let ?s = "s\<lparr> fd_register := remove1 fd (fd_register s) \<rparr>"
  have "\<not> fd_managed ?s fd" using dist by (simp add: fd_managed_def)
  from close_n_unmanaged [OF found this, of n G] obtain s' where
      "close_n (Suc n) E G fd ?s = Ok (fst (call_next E ''close'' [CInt fd] (os ?s)), s')"
      "os s' = snd (call_next E ''close'' [CInt fd] (os ?s))" "golang s' = golang ?s"
      "fd_register s' = fd_register ?s" "mount_register s' = mount_register ?s"
      "pdwfs_initialized s' = pdwfs_initialized ?s"
    by (auto simp: passes_def)
  with fd show ?thesis
    by (simp add: remove_fd_with_def contains_fd_def bnd_def gets_def modify_def return_def)
qed

text \<open>Two levels of \<open>close\<close> are enough: with more, nothing changes.\<close>

lemma close_fuel:
  assumes "distinct (fd_register s)"
  shows "close_n (Suc (Suc n)) E G fd s = c_close E G fd s"
proof (cases "fd_managed s fd")
  case False
  then show ?thesis by (simp add: c_close_def numeral_2_eq_2)
next
  case True
  have eq: "remove_fd_with (close_n (Suc n) E G) fd t = remove_fd_with (close_n (Suc 0) E G) fd t"
    if "distinct (fd_register t)" for t
    using that
    by (simp add: remove_fd_with_def contains_fd_def bnd_def gets_def modify_def fd_managed_def
        FD_NOT_MANAGED_def)
  show ?thesis
    using True assms
    unfolding c_close_def numeral_2_eq_2 close_n.simps(2) [of "Suc n"] close_n.simps(2) [of "Suc 0"]
    by (auto simp: bnd_go_call simp del: close_n.simps intro!: bnd_cong_state eq split: result.splits)
qed

lemma c_close_managed_run:
  assumes found: "\<forall>symb. dlsym E symb = DlFound" and dist: "distinct (fd_register s)"
    and fd: "fd_managed s fd" and go: "Close_go G fd (golang s) = Ok (r, g)"
  shows "\<exists>s'. c_close E G fd s = Ok (CInt (i32 r), s') \<and> golang s' = g \<and>
    fd_register s' = remove1 fd (fd_register s) \<and> mount_register s' = mount_register s \<and>
    pdwfs_initialized s' = pdwfs_initialized s \<and>
    os s' = snd (call_next E ''close'' [CInt fd] (os s))"
proof -
  let ?t = "(traced E ''close'' s)\<lparr> golang := g \<rparr>"
  have "distinct (fd_register ?t)" and "fd \<in> set (fd_register ?t)"
    using dist fd by (simp_all add: fd_managed_def)
  from remove_fd_with_run [OF found this, of 0 G] obtain s' where
      "remove_fd_with (close_n (Suc 0) E G) fd ?t = Ok ((), s')" "golang s' = g"
      "fd_register s' = remove1 fd (fd_register s)" "mount_register s' = mount_register s"
      "pdwfs_initialized s' = pdwfs_initialized s"
      "os s' = snd (call_next E ''close'' [CInt fd] (os s))" by auto
  with fd go show ?thesis
    by (simp add: c_close_def numeral_2_eq_2 bnd_go_call_Ok [of _ _ r g] bnd_Ok [of _ _ "()" s']
        return_def)
qed

text \<open>
  C17. Closing a managed file: the Go layer's \<open>Close\<close> runs once, the descriptor leaves the
  register, and the temporary file's descriptor is closed by the C library, once, although
  \<open>close\<close> is called again from within by the register.
\<close>

theorem close_managed:
  assumes "\<forall>symb. dlsym E symb = DlFound" and "distinct (fd_register s)"
    and "fd_managed s fd" and "Close_go G fd (golang s) = Ok (0, g)"
  shows "\<exists>s'. c_close E G fd s = Ok (CInt 0, s') \<and> golang s' = g \<and>
    fd_register s' = remove1 fd (fd_register s) \<and>
    os s' = snd (call_next E ''close'' [CInt fd] (os s)) \<and> \<not> fd_managed s' fd"
  using c_close_managed_run [OF assms] assms(2) by (auto simp: i32_def fd_managed_def)

lemma close_managed_witness:
  "\<exists>s'. c_close demo_env (demo_go []) 5 (demo_cstate [] [] [4, 5]) = Ok (CInt 0, s') \<and>
    fd_register s' = [4] \<and> \<not> fd_managed s' 5"
proof -
  have dist: "distinct (fd_register (demo_cstate [] [] [4, 5]))"
    and fd: "fd_managed (demo_cstate [] [] [4, 5]) 5" by (simp_all add: IS_STD_FD_def)
  have go: "Close_go (demo_go []) 5 (golang (demo_cstate [] [] [4, 5])) = Ok (0, [])"
    by (simp add: demo_go_def demo_cstate_def return_def)
  from close_managed [OF demo_found dist fd go] show ?thesis by auto
qed

text \<open>The temporary file of a new descriptor.\<close>

definition new_twin :: "'s cenv \<Rightarrow> ('g, 's) cstate \<Rightarrow> nat \<Rightarrow> int \<Rightarrow> 's osw \<Rightarrow> bool" where
  "new_twin E s fp fd w \<longleftrightarrow> tmpfile E (os s) = (fp, w) \<and>
     (\<exists>f. streams w fp = Some f \<and> fno f = fd) \<and> fd \<notin> set (fd_register s)"

lemma new_twin_traced [simp]: "new_twin E (traced E m s) fp fd w = new_twin E s fp fd w"
  by (simp add: new_twin_def)

lemma get_new_stream_run:
  assumes "new_twin E s fp fd w"
  shows "get_new_stream E G s = Ok (fp, s\<lparr> os := w, fd_register := fd # fd_register s \<rparr>)"
  using assms
  by (auto simp: get_new_stream_def new_twin_def call_tmpfile_def bnd_def fileno_def stream_def
      return_def insert_fd_def contains_fd_def gets_def modify_def)

lemma get_new_fd_run:
  assumes "new_twin E s fp fd w"
  shows "get_new_fd E G s = Ok (fd, s\<lparr> os := w, fd_register := fd # fd_register s \<rparr>)"
  using assms get_new_stream_run [OF assms, of G]
  by (auto simp: get_new_fd_def new_twin_def bnd_def fileno_def stream_def return_def)

lemma strdup_Some [simp]: "strdup (Some p) = return p"
  by (simp add: strdup_def)

lemma return_run: "return x s = Ok (x, s)"
  by (simp add: return_def)

lemma c_close_levels: "c_close E G = close_n (Suc (Suc 0)) E G"
  by (rule ext) (simp add: c_close_def numeral_2_eq_2)

lemma c_open_managed:
  assumes "path_env E cwd" and "p \<noteq> []" and "path_managed cwd s p" and "new_twin E s fp fd w"
    and "Open_go G p flags (if OPEN_NEEDS_MODE flags then mode else 0) fd (golang s) = Ok (r, g)"
  shows "c_open E G (Some p) flags mode s =
    (let t = (traced E ''open'' s)\<lparr> os := w, fd_register := fd # fd_register s, golang := g \<rparr>
     in if i32 r < 0 then bnd (set_errno (GetErrno_go G g)) (\<lambda>_. bnd (remove_fd E G fd) (\<lambda>_. return (CInt (i32 r)))) t
        else Ok (CInt (i32 r), t))"
proof -
  define md where "md = (if OPEN_NEEDS_MODE flags then mode else 0)"
  show ?thesis
    using assms get_new_fd_run [of E "traced E ''open'' s" fp fd w G]
    unfolding c_open_def md_def [symmetric]
    by (simp add: Let_def bnd_PATH_NOT_MANAGED bnd_Ok [of "get_new_fd E G"]
      bnd_go_call_Ok [of _ _ r g] return_run)
qed

text \<open>
  Opening a managed path: the Go layer opens it under the descriptor of a fresh temporary
  file, that descriptor is registered and returned, and \<open>errno\<close> is as the temporary file left it.
\<close>

theorem open_managed_success:
  assumes "path_env E cwd" and "p \<noteq> []" and "path_managed cwd s p" and "new_twin E s fp fd w"
    and "Open_go G p flags (if OPEN_NEEDS_MODE flags then mode else 0) fd (golang s) = Ok (fd, g)"
    and "3 \<le> fd" and "fd < 2 ^ 31"
  shows "\<exists>s'. c_open E G (Some p) flags mode s = Ok (CInt fd, s') \<and> golang s' = g \<and> os s' = w \<and>
    fd_register s' = fd # fd_register s \<and> fd_managed s' fd"
proof -
  have "i32 fd = fd" using assms(6,7) by (intro i32_id) simp_all
  then show ?thesis
    using assms(3,6) c_open_managed [OF assms(1-5)]
    by (simp add: fd_managed_def path_managed_def IS_STD_FD_def)
qed

lemma open_managed_success_witness:
  "\<exists>s'. c_open demo_env (demo_go []) (Some ''run/a'') 66 384 (demo_cstate [] [''/home/run''] []) =
    Ok (CInt 4, s') \<and> fd_register s' = [4] \<and> fd_managed s' 4"
proof -
  let ?s = "demo_cstate [] [''/home/run''] [] :: (bytes, unit) cstate"
  have m: "path_managed ''/home'' ?s ''run/a''" by (simp add: demo_abs)
  have t: "new_twin demo_env ?s 4 4 (snd (demo_tmpfile demo_osw))"
    by (simp add: new_twin_def demo_env_def demo_tmpfile_def Let_def demo_osw_def)
  have g: "Open_go (demo_go []) ''run/a'' 66 (if OPEN_NEEDS_MODE 66 then 384 else 0) 4 (golang ?s) = Ok (4, [])"
    by (simp add: demo_go_def return_def)
  from open_managed_success [OF demo_path_env _ m t g] show ?thesis by auto
qed

text \<open>
  C16. A failed open leaves no trace: it returns -1, the temporary file's descriptor is taken back
  out of the register and closed, and \<open>errno\<close> is the Go layer's error when that happens.
\<close>

theorem open_managed_failure:
  assumes found: "\<forall>symb. dlsym E symb = DlFound" and dist: "distinct (fd_register s)"
    and "path_env E cwd" and "p \<noteq> []" and "path_managed cwd s p" and twin: "new_twin E s fp fd w"
    and "Open_go G p flags (if OPEN_NEEDS_MODE flags then mode else 0) fd (golang s) = Ok (- 1, g)"
  shows "\<exists>s'. c_open E G (Some p) flags mode s = Ok (CInt (- 1), s') \<and> golang s' = g \<and>
    fd_register s' = fd_register s \<and>
    os s' = snd (call_next E ''close'' [CInt fd] (w\<lparr> errno := GetErrno_go G g \<rparr>))"
proof -
  let ?t = "(traced E ''open'' s)\<lparr> fd_register := fd # fd_register s, golang := g,
    os := w\<lparr> errno := GetErrno_go G g \<rparr> \<rparr>"
  have "distinct (fd_register ?t)" and "fd \<in> set (fd_register ?t)"
    using dist twin by (auto simp: new_twin_def)
  from remove_fd_with_run [OF found this, of 1 G] obtain s' where
      s': "remove_fd E G fd ?t = Ok ((), s')" "golang s' = g" "fd_register s' = fd_register s"
      "os s' = snd (call_next E ''close'' [CInt fd] (w\<lparr> errno := GetErrno_go G g \<rparr>))"
    by (auto simp: remove_fd_def c_close_levels)
  have "i32 (- 1) = - 1" by (simp add: i32_def)
  with c_open_managed [OF assms(3-7)]
  have "c_open E G (Some p) flags mode s = bnd (remove_fd E G fd) (\<lambda>_. return (CInt (- 1))) ?t"
    by (simp add: Let_def set_errno_def upd_os_def)
  also have "\<dots> = Ok (CInt (- 1), s')" using s'(1) by (simp add: bnd_def return_def)
  finally show ?thesis using s'(2-4) by blast
qed

lemma open_managed_failure_witness:
  "\<exists>s'. c_open demo_env ((demo_go [])\<lparr> Open_go := \<lambda>_ _ _ _. return (- 1) \<rparr>) (Some ''run/a'') 0 0
      (demo_cstate [] [''/home/run''] [5]) = Ok (CInt (- 1), s') \<and> fd_register s' = [5]"
proof -
  let ?s = "demo_cstate [] [''/home/run''] [5] :: (bytes, unit) cstate"
  let ?G = "(demo_go [])\<lparr> Open_go := \<lambda>_ _ _ _. return (- 1) \<rparr>"
  have d: "distinct (fd_register ?s)" and p: "''run/a'' \<noteq> []" by simp_all
  have m: "path_managed ''/home'' ?s ''run/a''" by (simp add: demo_abs)
  have t: "new_twin demo_env ?s 4 4 (snd (demo_tmpfile demo_osw))"
    by (simp add: new_twin_def demo_env_def demo_tmpfile_def Let_def demo_osw_def)
  have g: "Open_go ?G ''run/a'' 0 (if OPEN_NEEDS_MODE 0 then 0 else 0) 4 (golang ?s) = Ok (- 1, [])"
    by (simp add: return_def)
  from open_managed_failure [OF demo_found d demo_path_env p m t g] show ?thesis by auto
qed

end
