(* ===== verification/Stdio.thy ===== *)
theory Stdio
  imports Intercept
begin

text \<open>
  \<open>src/c/pdwfs.c\<close>: the intercepted functions on streams. A managed stream is the \<open>FILE\<close> of
  a temporary file; its own buffer is never used, only its descriptor and the two bits of
  \<open>_flags\<close>. \<open>getdelim\<close> and its callers take the number of rounds the loop may make, since a
  file that never ends is read for ever; \<open>getdelim_delivers\<close> in \<open>Lines\<close> says how many are
  enough.
\<close>

definition free_block :: "cptr \<Rightarrow> (('g, 's) cstate, unit) prog" where
  "free_block p = (case p of Null \<Rightarrow> return ()
     | At b off \<Rightarrow> upd_os (\<lambda>w. w\<lparr> heap := (heap w)(b := None) \<rparr>))"

definition strlen :: "cptr \<Rightarrow> (('g, 's) cstate, nat) prog" where
  "strlen p = (case p of
       Null \<Rightarrow> segfault
     | At b off \<Rightarrow> (\<lambda>s. case heap (os s) b of
           None \<Rightarrow> segfault s
         | Some v \<Rightarrow> if 0 \<in> set (drop off v)
             then Ok (length (takeWhile (\<lambda>x. x \<noteq> 0) (drop off v)), s) else segfault s))"

definition get_errno :: "'g golayer \<Rightarrow> (('g, 's) cstate, unit) prog" where
  "get_errno G = bnd (gets (\<lambda>s. GetErrno_go G (golang s))) set_errno"

section \<open>Opening and closing\<close>

definition c_fdopen ::
  "'s cenv \<Rightarrow> 'g golayer \<Rightarrow> int \<Rightarrow> string option \<Rightarrow> (('g, 's) cstate, cval) prog" where
  "c_fdopen E G fd mode =
     bnd (TRACE E ''fdopen'') (\<lambda>_.
     bnd (FD_NOT_MANAGED fd) (\<lambda>nm.
       if nm then libc_fdopen E fd mode
       else NOT_IMPLEMENTED ''fdopen''))"

definition c_fopen ::
  "'s cenv \<Rightarrow> 'g golayer \<Rightarrow> string option \<Rightarrow> string option \<Rightarrow> (('g, 's) cstate, cval) prog" where
  "c_fopen E G path mode =
     bnd (TRACE E ''fopen'') (\<lambda>_.
     bnd (PATH_NOT_MANAGED E path) (\<lambda>nm.
       if nm then libc_fopen E path mode
       else 
         bnd (get_new_stream E G) (\<lambda>fp.
         bnd (strdup path) (\<lambda>gopath.
         bnd (strdup mode) (\<lambda>gomode.
         bnd (fileno fp) (\<lambda>fd.
         bnd (go_call (Fopen_go G gopath gomode fd)) (\<lambda>r.
         if i32 r < 0 then
           bnd (fileno fp) (\<lambda>fd.
           bnd (remove_fd E G fd) (\<lambda>_. return (CStream 0)))
         else return (CStream fp))))))))"

definition c_fopen64 ::
  "'s cenv \<Rightarrow> 'g golayer \<Rightarrow> string option \<Rightarrow> string option \<Rightarrow> (('g, 's) cstate, cval) prog" where
  "c_fopen64 E G path mode =
     c_fopen E G path mode"

definition c_freopen ::
  "'s cenv \<Rightarrow> 'g golayer \<Rightarrow> string option \<Rightarrow> string option \<Rightarrow> nat \<Rightarrow> (('g, 's) cstate, cval) prog" where
  "c_freopen E G path mode fp =
     bnd (TRACE E ''fropen'') (\<lambda>_.
     bnd (PATH_NOT_MANAGED E path) (\<lambda>nm.
       if nm then libc_freopen E path mode fp
       else NOT_IMPLEMENTED ''freopen''))"

text \<open>The alias of \<open>freopen64\<close> is \<open>fopen\<close>: the stream argument is not looked at.\<close>

definition c_freopen64 ::
  "'s cenv \<Rightarrow> 'g golayer \<Rightarrow> string option \<Rightarrow> string option \<Rightarrow> nat \<Rightarrow> (('g, 's) cstate, cval) prog" where
  "c_freopen64 E G path mode fp =
     c_fopen E G path mode"

definition c_fclose ::
  "'s cenv \<Rightarrow> 'g golayer \<Rightarrow> nat \<Rightarrow> (('g, 's) cstate, cval) prog" where
  "c_fclose E G fp =
     bnd (TRACE E ''fclose'') (\<lambda>_.
     bnd (STREAM_NOT_MANAGED fp) (\<lambda>nm.
       if nm then libc_fclose E fp
       else 
         bnd (go_call (Fflush_go G fp)) (\<lambda>_.
         bnd (fileno fp) (\<lambda>fd. c_close E G fd))))"

definition c_fflush ::
  "'s cenv \<Rightarrow> 'g golayer \<Rightarrow> nat \<Rightarrow> (('g, 's) cstate, cval) prog" where
  "c_fflush E G fp =
     bnd (TRACE E ''fflush'') (\<lambda>_.
     bnd (STREAM_NOT_MANAGED fp) (\<lambda>nm.
       if nm then libc_fflush E fp
       else go_int32 (Fflush_go G fp)))"

section \<open>Characters\<close>

definition c_fputc ::
  "'s cenv \<Rightarrow> 'g golayer \<Rightarrow> int \<Rightarrow> nat \<Rightarrow> (('g, 's) cstate, cval) prog" where
  "c_fputc E G c fp =
     bnd (TRACE E ''fputc'') (\<lambda>_.
     bnd (STREAM_NOT_MANAGED fp) (\<lambda>nm.
       if nm then libc_fputc E c fp
       else 
         bnd (fileno fp) (\<lambda>fd.
         bnd (go_call (Write_go G fd [word_of_int c])) (\<lambda>r.
         let n = i32 r in
         if n \<le> 0 then
           bnd (get_errno G) (\<lambda>_.
           bnd (set_err fp) (\<lambda>_. return (CInt EOF)))
         else return (CInt c)))))"

definition c_fgetc ::
  "'s cenv \<Rightarrow> 'g golayer \<Rightarrow> nat \<Rightarrow> (('g, 's) cstate, cval) prog" where
  "c_fgetc E G fp =
     bnd (TRACE E ''fgetc'') (\<lambda>_.
     bnd (STREAM_NOT_MANAGED fp) (\<lambda>nm.
       if nm then libc_fgetc E fp
       else 
         bnd (fileno fp) (\<lambda>fd.
         bnd (go_call (Read_go G fd [0])) (\<lambda>(r, b).
         let n = i32 r in
         if n = 0 then bnd (set_eof fp) (\<lambda>_. return (CInt EOF))
         else if n < 0 then
           bnd (get_errno G) (\<lambda>_.
           bnd (set_err fp) (\<lambda>_. return (CInt n)))
         else return (CInt (char_to_int (hd b)))))))"

definition c_putc ::
  "'s cenv \<Rightarrow> 'g golayer \<Rightarrow> int \<Rightarrow> nat \<Rightarrow> (('g, 's) cstate, cval) prog" where
  "c_putc E G c fp =
     bnd (TRACE E ''putc'') (\<lambda>_.
     bnd (STREAM_NOT_MANAGED fp) (\<lambda>nm.
       if nm then libc_putc E c fp
       else NOT_IMPLEMENTED ''putc''))"

definition c_getc ::
  "'s cenv \<Rightarrow> 'g golayer \<Rightarrow> nat \<Rightarrow> (('g, 's) cstate, cval) prog" where
  "c_getc E G fp =
     bnd (TRACE E ''getc'') (\<lambda>_.
     bnd (STREAM_NOT_MANAGED fp) (\<lambda>nm.
       if nm then libc_getc E fp
       else NOT_IMPLEMENTED ''getc''))"

definition c_ungetc ::
  "'s cenv \<Rightarrow> 'g golayer \<Rightarrow> int \<Rightarrow> nat \<Rightarrow> (('g, 's) cstate, cval) prog" where
  "c_ungetc E G c fp =
     bnd (TRACE E ''fgetc'') (\<lambda>_.
     bnd (STREAM_NOT_MANAGED fp) (\<lambda>nm.
       if nm then libc_ungetc E c fp
       else NOT_IMPLEMENTED ''ungetc''))"

section \<open>Positions and flags\<close>

definition c_fgetpos ::
  "'s cenv \<Rightarrow> 'g golayer \<Rightarrow> nat \<Rightarrow> nat \<Rightarrow> (('g, 's) cstate, cval) prog" where
  "c_fgetpos E G fp pos =
     bnd (TRACE E ''fgetpos'') (\<lambda>_.
     bnd (STREAM_NOT_MANAGED fp) (\<lambda>nm.
       if nm then libc_fgetpos E fp pos
       else NOT_IMPLEMENTED ''fgetpos''))"

definition c_fgetpos64 ::
  "'s cenv \<Rightarrow> 'g golayer \<Rightarrow> nat \<Rightarrow> nat \<Rightarrow> (('g, 's) cstate, cval) prog" where
  "c_fgetpos64 E G fp pos =
     bnd (TRACE E ''fgetpos64'') (\<lambda>_.
     bnd (STREAM_NOT_MANAGED fp) (\<lambda>nm.
       if nm then libc_fgetpos64 E fp pos
       else NOT_IMPLEMENTED ''fgetpos64''))"

definition c_fseek ::
  "'s cenv \<Rightarrow> 'g golayer \<Rightarrow> nat \<Rightarrow> int \<Rightarrow> int \<Rightarrow> (('g, 's) cstate, cval) prog" where
  "c_fseek E G fp offset whence =
     bnd (TRACE E ''fseek'') (\<lambda>_.
     bnd (STREAM_NOT_MANAGED fp) (\<lambda>nm.
       if nm then libc_fseek E fp offset whence
       else NOT_IMPLEMENTED ''fseek''))"

definition c_fseeko ::
  "'s cenv \<Rightarrow> 'g golayer \<Rightarrow> nat \<Rightarrow> int \<Rightarrow> int \<Rightarrow> (('g, 's) cstate, cval) prog" where
  "c_fseeko E G fp offset whence =
     bnd (TRACE E ''fseeko'') (\<lambda>_.
     bnd (STREAM_NOT_MANAGED fp) (\<lambda>nm.
       if nm then libc_fseeko E fp offset whence
       else NOT_IMPLEMENTED ''fseeko''))"

definition c_fseeko64 ::
  "'s cenv \<Rightarrow> 'g golayer \<Rightarrow> nat \<Rightarrow> int \<Rightarrow> int \<Rightarrow> (('g, 's) cstate, cval) prog" where
  "c_fseeko64 E G fp offset whence =
     bnd (TRACE E ''fseeko64'') (\<lambda>_.
     bnd (STREAM_NOT_MANAGED fp) (\<lambda>nm.
       if nm then libc_fseeko64 E fp offset whence
       else NOT_IMPLEMENTED ''fseeko''))"

definition c_fsetpos ::
  "'s cenv \<Rightarrow> 'g golayer \<Rightarrow> nat \<Rightarrow> nat \<Rightarrow> (('g, 's) cstate, cval) prog" where
  "c_fsetpos E G fp pos =
     bnd (TRACE E ''fsetpos'') (\<lambda>_.
     bnd (STREAM_NOT_MANAGED fp) (\<lambda>nm.
       if nm then libc_fsetpos E fp pos
       else NOT_IMPLEMENTED ''fsetpos''))"

definition c_fsetpos64 ::
  "'s cenv \<Rightarrow> 'g golayer \<Rightarrow> nat \<Rightarrow> nat \<Rightarrow> (('g, 's) cstate, cval) prog" where
  "c_fsetpos64 E G fp pos =
     bnd (TRACE E ''fsetpos64'') (\<lambda>_.
     bnd (STREAM_NOT_MANAGED fp) (\<lambda>nm.
       if nm then libc_fsetpos64 E fp pos
       else NOT_IMPLEMENTED ''fsetpos64''))"

definition c_ftell ::
  "'s cenv \<Rightarrow> 'g golayer \<Rightarrow> nat \<Rightarrow> (('g, 's) cstate, cval) prog" where
  "c_ftell E G fp =
     bnd (TRACE E ''ftell'') (\<lambda>_.
     bnd (STREAM_NOT_MANAGED fp) (\<lambda>nm.
       if nm then libc_ftell E fp
       else NOT_IMPLEMENTED ''ftell''))"

definition c_ftello ::
  "'s cenv \<Rightarrow> 'g golayer \<Rightarrow> nat \<Rightarrow> (('g, 's) cstate, cval) prog" where
  "c_ftello E G fp =
     bnd (TRACE E ''ftello'') (\<lambda>_.
     bnd (STREAM_NOT_MANAGED fp) (\<lambda>nm.
       if nm then libc_ftello E fp
       else NOT_IMPLEMENTED ''ftello''))"

definition c_ftello64 ::
  "'s cenv \<Rightarrow> 'g golayer \<Rightarrow> nat \<Rightarrow> (('g, 's) cstate, cval) prog" where
  "c_ftello64 E G fp =
     bnd (TRACE E ''ftello64'') (\<lambda>_.
     bnd (STREAM_NOT_MANAGED fp) (\<lambda>nm.
       if nm then libc_ftello64 E fp
       else NOT_IMPLEMENTED ''ftello64''))"

definition c_rewind ::
  "'s cenv \<Rightarrow> 'g golayer \<Rightarrow> nat \<Rightarrow> (('g, 's) cstate, cval) prog" where
  "c_rewind E G fp =
     bnd (TRACE E ''rewind'') (\<lambda>_.
     bnd (STREAM_NOT_MANAGED fp) (\<lambda>nm.
       if nm then libc_rewind E fp
       else NOT_IMPLEMENTED ''rewind''))"

definition c_feof ::
  "'s cenv \<Rightarrow> 'g golayer \<Rightarrow> nat \<Rightarrow> (('g, 's) cstate, cval) prog" where
  "c_feof E G fp =
     bnd (TRACE E ''feof'') (\<lambda>_.
       libc_feof E fp)"

definition c_ferror ::
  "'s cenv \<Rightarrow> 'g golayer \<Rightarrow> nat \<Rightarrow> (('g, 's) cstate, cval) prog" where
  "c_ferror E G fp =
     bnd (TRACE E ''ferror'') (\<lambda>_.
       libc_ferror E fp)"

definition c_clearerr ::
  "'s cenv \<Rightarrow> 'g golayer \<Rightarrow> nat \<Rightarrow> (('g, 's) cstate, cval) prog" where
  "c_clearerr E G fp =
     bnd (TRACE E ''clearerr'') (\<lambda>_.
       libc_clearerr E fp)"

section \<open>Blocks\<close>

definition c_fread ::
  "'s cenv \<Rightarrow> 'g golayer \<Rightarrow> cptr \<Rightarrow> int \<Rightarrow> int \<Rightarrow> nat \<Rightarrow> (('g, 's) cstate, cval) prog" where
  "c_fread E G ptr sz nmemb fp =
     bnd (TRACE E ''fread'') (\<lambda>_.
     bnd (STREAM_NOT_MANAGED fp) (\<lambda>nm.
       if nm then libc_fread E ptr sz nmemb fp
       else 
         bnd (fileno fp) (\<lambda>fd.
         bnd (load ptr (nat (u64 (sz * nmemb)))) (\<lambda>b.
         bnd (go_call (Read_go G fd b)) (\<lambda>(r, b).
         bnd (store ptr b) (\<lambda>_.
         let ret = i32 r in
         bnd (if u64 ret \<noteq> nmemb then
                bnd (get_errno G) (\<lambda>_.
                bnd (if ret = - 1 then set_err fp else return ()) (\<lambda>_.
                bnd (fileno fp) (\<lambda>fd.
                bnd (c_lseek E G fd 0 SEEK_CUR) (\<lambda>cur_off.
                bnd (c_lseek E G fd 0 SEEK_END) (\<lambda>end_off.
                bnd (if as_int cur_off = as_int end_off then set_eof fp else return ()) (\<lambda>_.
                bnd (c_lseek E G fd (as_int cur_off) SEEK_SET) (\<lambda>_. return ())))))))
              else return ()) (\<lambda>_.
           return (CInt (u64 ret)))))))))"

definition c_fwrite ::
  "'s cenv \<Rightarrow> 'g golayer \<Rightarrow> cptr \<Rightarrow> int \<Rightarrow> int \<Rightarrow> nat \<Rightarrow> (('g, 's) cstate, cval) prog" where
  "c_fwrite E G ptr sz nmemb fp =
     bnd (TRACE E ''fwrite'') (\<lambda>_.
     bnd (STREAM_NOT_MANAGED fp) (\<lambda>nm.
       if nm then libc_fwrite E ptr sz nmemb fp
       else 
         bnd (fileno fp) (\<lambda>fd.
         bnd (load ptr (nat (u64 (sz * nmemb)))) (\<lambda>b.
         bnd (go_call (Write_go G fd b)) (\<lambda>r.
         let ret = i32 r in
         bnd (if u64 ret \<noteq> nmemb then
                bnd (get_errno G) (\<lambda>_. set_err fp)
              else return ()) (\<lambda>_.
           return (CInt (u64 ret))))))))"

definition c_fputs ::
  "'s cenv \<Rightarrow> 'g golayer \<Rightarrow> cptr \<Rightarrow> nat \<Rightarrow> (('g, 's) cstate, cval) prog" where
  "c_fputs E G str fp =
     bnd (TRACE E ''fputs'') (\<lambda>_.
     bnd (STREAM_NOT_MANAGED fp) (\<lambda>nm.
       if nm then libc_fputs E str fp
       else 
         bnd (strlen str) (\<lambda>n.
         bnd (c_fwrite E G str 1 (int n) fp) (\<lambda>r.
           return (CInt ((if as_int r = int n then 1 else 0) - 1))))))"

text \<open>
  The printing functions format the message into a block of its own and print that.
  \<open>msg\<close> is what the format and its arguments give, \<open>None\<close> when \<open>vsnprintf\<close> fails.
\<close>

definition print_msg ::
  "'s cenv \<Rightarrow> 'g golayer \<Rightarrow> nat \<Rightarrow> bytes option \<Rightarrow> (('g, 's) cstate, cval) prog" where
  "print_msg E G fp msg =
     (case msg of
        None \<Rightarrow> return (CInt (- 1))
      | Some m \<Rightarrow>
          bnd (malloc E (length m + 1)) (\<lambda>p.
          if p = Null then return (CInt (- 1))
          else
            bnd (store p (m @ [0])) (\<lambda>_.
            bnd (c_fputs E G p fp) (\<lambda>ret.
            bnd (free_block p) (\<lambda>_. return (CInt (i32 (as_int ret))))))))"

definition c_fprintf_chk ::
  "'s cenv \<Rightarrow> 'g golayer \<Rightarrow> nat \<Rightarrow> int \<Rightarrow> bytes option \<Rightarrow> (('g, 's) cstate, cval) prog" where
  "c_fprintf_chk E G fp flag msg =
     bnd (TRACE E ''__fprintf_chk'') (\<lambda>_. print_msg E G fp msg)"

definition c_fprintf ::
  "'s cenv \<Rightarrow> 'g golayer \<Rightarrow> nat \<Rightarrow> bytes option \<Rightarrow> (('g, 's) cstate, cval) prog" where
  "c_fprintf E G fp msg = bnd (TRACE E ''fprintf'') (\<lambda>_. print_msg E G fp msg)"

section \<open>Lines\<close>

text \<open>
  The loop of \<open>getdelim\<close>: \<open>p\<close> is \<open>*buf\<close>, \<open>sz\<close> is \<open>*bufsiz\<close>, and \<open>i\<close> is
  \<open>ptr - *buf\<close>.
\<close>

fun getdelim_loop ::
  "nat \<Rightarrow> 's cenv \<Rightarrow> 'g golayer \<Rightarrow> nat \<Rightarrow> nat \<Rightarrow> int \<Rightarrow> nat \<Rightarrow> cptr \<Rightarrow> nat \<Rightarrow> nat \<Rightarrow>
     (('g, 's) cstate, cval) prog" where
  "getdelim_loop 0 E G buf bufsiz delimiter fp p sz i = panic ''out of fuel''"
| "getdelim_loop (Suc k) E G buf bufsiz delimiter fp p sz i =
     bnd (c_fgetc E G fp) (\<lambda>cv.
     let c = as_int cv in
     if c = - 1 then
       bnd (c_feof E G fp) (\<lambda>eof.
         if as_int eof \<noteq> 0 then return (CInt (if i = 0 then - 1 else int i))
         else return (CInt (- 1)))
     else
       bnd (store (ptr_add p i) [word_of_int c]) (\<lambda>_.
       let i = i + 1 in
       if c = delimiter then
         bnd (store (ptr_add p i) [0]) (\<lambda>_. return (CInt (int i)))
       else if i + 2 \<ge> sz then
         bnd (realloc E p (sz * 2)) (\<lambda>nbuf.
         if nbuf = Null then return (CInt (- 1))
         else
           bnd (upd_os (\<lambda>w. w\<lparr> ptr_vars := (ptr_vars w)(buf := nbuf),
                  size_vars := (size_vars w)(bufsiz := sz * 2) \<rparr>)) (\<lambda>_.
             getdelim_loop k E G buf bufsiz delimiter fp nbuf (sz * 2) i))
       else getdelim_loop k E G buf bufsiz delimiter fp p sz i))"

definition c_getdelim ::
  "nat \<Rightarrow> 's cenv \<Rightarrow> 'g golayer \<Rightarrow> nat \<Rightarrow> nat \<Rightarrow> int \<Rightarrow> nat \<Rightarrow> (('g, 's) cstate, cval) prog" where
  "c_getdelim k E G buf bufsiz delimiter fp =
     bnd (TRACE E ''getdelim'') (\<lambda>_.
     bnd (STREAM_NOT_MANAGED fp) (\<lambda>nm.
       if nm then libc_getdelim E buf bufsiz delimiter fp
       else
         bnd (gets (\<lambda>s. (ptr_vars (os s) buf, size_vars (os s) bufsiz))) (\<lambda>(p, sz).
         bnd (if p = Null \<or> sz = 0 then
                bnd (malloc E BUFSIZ) (\<lambda>p.
                bnd (upd_os (\<lambda>w. w\<lparr> ptr_vars := (ptr_vars w)(buf := p),
                       size_vars := (size_vars w)(bufsiz := BUFSIZ) \<rparr>)) (\<lambda>_. return (p, BUFSIZ)))
              else return (p, sz)) (\<lambda>(p, sz).
         if p = Null then return (CInt (- 1))
         else getdelim_loop k E G buf bufsiz delimiter fp p sz 0))))"

definition c_getline ::
  "nat \<Rightarrow> 's cenv \<Rightarrow> 'g golayer \<Rightarrow> nat \<Rightarrow> nat \<Rightarrow> nat \<Rightarrow> (('g, 's) cstate, cval) prog" where
  "c_getline k E G buf bufsiz fp =
     bnd (TRACE E ''getline'') (\<lambda>_.
     bnd (STREAM_NOT_MANAGED fp) (\<lambda>nm.
       if nm then libc_getline E buf bufsiz fp
       else c_getdelim k E G buf bufsiz 10 fp))"

definition c_fgets ::
  "nat \<Rightarrow> 's cenv \<Rightarrow> 'g golayer \<Rightarrow> cptr \<Rightarrow> int \<Rightarrow> nat \<Rightarrow> (('g, 's) cstate, cval) prog" where
  "c_fgets k E G dst m fp =
     bnd (TRACE E ''fgets'') (\<lambda>_.
     bnd (STREAM_NOT_MANAGED fp) (\<lambda>nm.
       if nm then libc_fgets E dst m fp
       else
         let n = nat (u64 m) in
         if n = 0 then return (CPtr Null)
         else if n = 1 then bnd (store dst [0]) (\<lambda>_. return (CPtr dst))
         else
           bnd (upd_os (\<lambda>w. w\<lparr> ptr_vars := (ptr_vars w)(0 := dst),
                  size_vars := (size_vars w)(0 := n - 1) \<rparr>)) (\<lambda>_.
           bnd (c_getline k E G 0 0 fp) (\<lambda>cnt.
           bnd (gets (\<lambda>s. ptr_vars (os s) 0)) (\<lambda>dst.
             if as_int cnt \<le> 0 then return (CPtr Null)
             else bnd (store (ptr_add dst (nat (as_int cnt))) [0]) (\<lambda>_. return (CPtr dst)))))))"

end
