(* ===== verification/Lines.thy ===== *)
theory Lines
  imports Stdio Lifecycle
begin

text \<open>
  Reading lines. \<open>getdelim\<close> reads a stream byte by byte through the Go layer's \<open>Read\<close>; what
  it needs of \<open>Read\<close> is the locale \<open>byte_source\<close>. The theory shows what \<open>fgetc\<close>,
  \<open>getdelim\<close> and \<open>fgets\<close> deliver, and that \<open>getdelim\<close> stays inside the buffer it
  grows.
\<close>

section \<open>The interface to the Go layer\<close>

text \<open>\<open>src g bs\<close>: reading the descriptor \<open>fd\<close> in the state \<open>g\<close> will deliver \<open>bs\<close>.\<close>

locale byte_source =
  fixes G :: "'g golayer" and fd :: int and src :: "'g \<Rightarrow> bytes \<Rightarrow> bool"
  assumes read_byte: "src g (b # bs) \<Longrightarrow> \<exists>g'. Read_go G fd [x] g = Ok ((1, [b]), g') \<and> src g' bs"
    and read_end: "src g [] \<Longrightarrow> \<exists>g'. Read_go G fd [x] g = Ok ((0, [x]), g') \<and> src g' []"

interpretation demo: byte_source "demo_go ms" fd "(=)"
  by unfold_locales (simp_all add: demo_go_def demo_read_def)

section \<open>Streams\<close>

definition stream_managed :: "('g, 's) cstate \<Rightarrow> nat \<Rightarrow> int \<Rightarrow> bool" where
  "stream_managed s fp fd \<longleftrightarrow>
     (\<exists>f. streams (os s) fp = Some f \<and> fno f = fd) \<and> fd_managed s fd"

definition keeps :: "('g, 's) cstate \<Rightarrow> ('g, 's) cstate \<Rightarrow> bool" where
  "keeps s s' \<longleftrightarrow> fd_register s' = fd_register s \<and> mount_register s' = mount_register s \<and>
     pdwfs_initialized s' = pdwfs_initialized s \<and>
     (\<forall>fp. map_option fno (streams (os s') fp) = map_option fno (streams (os s) fp))"

lemma keeps_refl [simp]: "keeps s s"
  by (simp add: keeps_def)

lemma keeps_trans: "keeps s s' \<Longrightarrow> keeps s' s'' \<Longrightarrow> keeps s s''"
  by (simp add: keeps_def)

lemma keeps_managed: "keeps s s' \<Longrightarrow> stream_managed s fp fd \<Longrightarrow> stream_managed s' fp fd"
  unfolding keeps_def stream_managed_def fd_managed_def
  by (metis (mono_tags, lifting) map_option_eq_Some)

lemma traced_keeps [simp]: "keeps s (traced E m s)"
  by (simp add: keeps_def)

lemma traced_managed [simp]: "stream_managed (traced E m s) fp fd = stream_managed s fp fd"
  by (simp add: stream_managed_def)

lemma bnd_STREAM_NOT_MANAGED:
  "stream_managed s fp fd \<Longrightarrow> bnd (STREAM_NOT_MANAGED fp) f s = f False s"
  by (auto simp: stream_managed_def STREAM_NOT_MANAGED_def fileno_def stream_def bnd_def return_def
      FD_NOT_MANAGED_def gets_def)

lemma bnd_fileno:
  "stream_managed s fp fd \<Longrightarrow> bnd (fileno fp) f s = f fd s"
  by (auto simp: stream_managed_def fileno_def stream_def bnd_def return_def)

lemma set_eof_run:
  "set_eof fp s = Ok ((), s\<lparr> os := (os s)\<lparr> streams := (streams (os s))(fp :=
     map_option (\<lambda>f. f\<lparr> eof_seen := True \<rparr>) (streams (os s) fp)) \<rparr> \<rparr>)"
  by (simp add: set_eof_def upd_stream_def upd_os_def modify_def)

lemma set_eof_keeps: "set_eof fp s = Ok ((), s') \<Longrightarrow> keeps s s'"
  by (auto simp: set_eof_run keeps_def option.map_comp comp_def)

text \<open>What is promised of the C library's \<open>feof\<close>: it reads the bit of the stream.\<close>

definition feof_ok :: "'s cenv \<Rightarrow> bool" where
  "feof_ok E \<longleftrightarrow> (\<forall>w fp f. streams w fp = Some f \<longrightarrow>
     call_next E ''feof'' [CStream fp] w = (CInt (if eof_seen f then 1 else 0), w))"

lemma demo_feof_ok: "feof_ok demo_env"
  by (simp add: feof_ok_def demo_env_def demo_next_def)

lemma c_feof_run:
  assumes "\<forall>symb. dlsym E symb = DlFound" and "feof_ok E" and "streams (os s) fp = Some f"
  shows "\<exists>s'. c_feof E G fp s = Ok (CInt (if eof_seen f then 1 else 0), s') \<and> keeps s s' \<and>
    os s' = os s \<and> golang s' = golang s"
proof -
  obtain s' where "CALL_NEXT E ''feof'' [CStream fp] (traced E ''feof'' s) =
      Ok (fst (call_next E ''feof'' [CStream fp] (os (traced E ''feof'' s))), s')"
    "os s' = snd (call_next E ''feof'' [CStream fp] (os (traced E ''feof'' s)))"
    "golang s' = golang (traced E ''feof'' s)" "fd_register s' = fd_register (traced E ''feof'' s)"
    "mount_register s' = mount_register (traced E ''feof'' s)"
    "pdwfs_initialized s' = pdwfs_initialized (traced E ''feof'' s)"
    using CALL_NEXT_run [OF assms(1)] by blast
  with assms(2,3) show ?thesis by (simp add: c_feof_def libc_feof_def feof_ok_def keeps_def)
qed

section \<open>One byte\<close>

lemma sint_eq_iff: "sint a = sint b \<longleftrightarrow> a = (b :: byte)"
  by (auto intro: signed_word_eqI)

lemma byte_i32: "i32 1 = 1" "i32 0 = 0"
  by (simp_all add: i32_def)

context byte_source
begin

lemma fgetc_byte:
  assumes m: "stream_managed s fp fd" and src: "src (golang s) (b # bs)"
  shows "\<exists>s'. c_fgetc E G fp s = Ok (CInt (sint b), s') \<and> keeps s s' \<and> os s' = os s \<and>
    src (golang s') bs"
proof -
  obtain g where g: "Read_go G fd [0] (golang s) = Ok ((1, [b]), g)" "src g bs"
    using read_byte [OF src] by blast
  have "c_fgetc E G fp s = Ok (CInt (sint b), (traced E ''fgetc'' s)\<lparr> golang := g \<rparr>)"
    using m g(1)
    by (simp add: c_fgetc_def bnd_STREAM_NOT_MANAGED bnd_fileno bnd_go_call_Ok [of _ _ "(1, [b])" g]
        byte_i32 char_to_int_def return_run)
  then show ?thesis using g(2) by (simp add: keeps_def)
qed

lemma fgetc_end:
  assumes m: "stream_managed s fp fd" and src: "src (golang s) []"
  shows "\<exists>s' f. c_fgetc E G fp s = Ok (CInt (- 1), s') \<and> keeps s s' \<and>
    streams (os s') fp = Some f \<and> eof_seen f \<and> src (golang s') [] \<and>
    heap (os s') = heap (os s) \<and> ptr_vars (os s') = ptr_vars (os s) \<and>
    size_vars (os s') = size_vars (os s)"
proof -
  obtain g where g: "Read_go G fd [0] (golang s) = Ok ((0, [0]), g)" "src g []"
    using read_end [OF src] by blast
  obtain f where f: "streams (os s) fp = Some f" using m by (auto simp: stream_managed_def)
  let ?t = "(traced E ''fgetc'' s)\<lparr> golang := g \<rparr>"
  have "c_fgetc E G fp s = bnd (set_eof fp) (\<lambda>_. return (CInt (- 1))) ?t"
    using m g(1)
    by (simp add: c_fgetc_def bnd_STREAM_NOT_MANAGED bnd_fileno bnd_go_call_Ok [of _ _ "(0, [0])" g]
        byte_i32 EOF_def)
  then show ?thesis using f g(2)
    by (simp add: bnd_def set_eof_run return_run keeps_def option.map_comp comp_def)
qed

end

section \<open>The buffer of \<open>getdelim\<close>\<close>

text \<open>
  The variables \<open>*buf\<close> and \<open>*bufsiz\<close> describe a heap block of at least that size.
\<close>

definition line_buf :: "('g, 's) cstate \<Rightarrow> nat \<Rightarrow> nat \<Rightarrow> nat \<Rightarrow> bytes \<Rightarrow> nat \<Rightarrow> bool" where
  "line_buf s buf bufsiz b v sz \<longleftrightarrow> ptr_vars (os s) buf = At b 0 \<and>
     size_vars (os s) bufsiz = sz \<and> heap (os s) b = Some v \<and> sz \<le> length v"

lemma store_byte:
  assumes "heap (os s) b = Some v" and "i < length v"
  shows "store (ptr_add (At b 0) i) [x] s =
    Ok ((), s\<lparr> os := (os s)\<lparr> heap := (heap (os s))(b \<mapsto> v[i := x]) \<rparr> \<rparr>)"
proof -
  have "overwrite 0 i [x] v = v[i := x]"
    using assms(2) by (simp add: overwrite_def upd_conv_take_nth_drop)
  with assms show ?thesis by (simp add: store_def ptr_add_def upd_os_def modify_def)
qed

lemma realloc_run:
  assumes "malloc_ok E = (\<lambda>_. True)" and "heap (os s) b = Some v"
  shows "realloc E (At b 0) n s = Ok (At (next_block (os s)) 0,
    s\<lparr> os := (os s)\<lparr> heap := (heap (os s))(b := None, next_block (os s) \<mapsto> take n (v @ replicate n 0)),
        next_block := next_block (os s) + 1 \<rparr> \<rparr>)"
  using assms by (simp add: realloc_def Let_def bnd_def upd_os_def modify_def return_def)

text \<open>
  One round that keeps a byte: it is stored, and the buffer is doubled when fewer than three bytes
  would be left.
\<close>

definition room :: "nat \<Rightarrow> nat \<Rightarrow> bool" where
  "room i sz \<longleftrightarrow> i + 1 < sz"

lemma getdelim_round:
  fixes s :: "('g, 's) cstate"
  assumes mem: "malloc_ok E = (\<lambda>_. True)" and buf: "line_buf s buf bufsiz b v sz" and i: "room i sz"
    and get: "c_fgetc E G fp s0 = Ok (CInt (sint x), s)" and c: "sint x \<noteq> - 1" "sint x \<noteq> delim"
  shows "\<exists>s' b' v' sz'. getdelim_loop (Suc k) E G buf bufsiz delim fp (At b 0) sz i s0 =
      getdelim_loop k E G buf bufsiz delim fp (At b' 0) sz' (i + 1) s' \<and>
    line_buf s' buf bufsiz b' v' sz' \<and> room (i + 1) sz' \<and> take (i + 1) v' = take i v @ [x] \<and>
    keeps s s' \<and> golang s' = golang s \<and>
    (i + 3 < sz \<longrightarrow> b' = b \<and> sz' = sz \<and>
       os s' = (os s)\<lparr> heap := (heap (os s))(b \<mapsto> v') \<rparr>)"
proof -
  have h: "heap (os s) b = Some v" and iv: "i < length v"
    using buf i by (simp_all add: line_buf_def room_def)
  let ?v = "v[i := x]"
  let ?s = "s\<lparr> os := (os s)\<lparr> heap := (heap (os s))(b \<mapsto> ?v) \<rparr> \<rparr>"
  have st: "store (ptr_add (At b 0) i) [x] s = Ok ((), ?s)"
    using store_byte [OF h iv, of x] by simp
  have tk: "take (i + 1) ?v = take i v @ [x]"
    using iv by (simp add: take_Suc_conv_app_nth)
  have step: "getdelim_loop (Suc k) E G buf bufsiz delim fp (At b 0) sz i s0 =
      (if sz \<le> i + 3 then
         bnd (realloc E (At b 0) (sz * 2)) (\<lambda>nbuf.
         if nbuf = Null then return (CInt (- 1))
         else
           bnd (upd_os (\<lambda>w. w\<lparr> ptr_vars := (ptr_vars w)(buf := nbuf),
                  size_vars := (size_vars w)(bufsiz := sz * 2) \<rparr>)) (\<lambda>_.
             getdelim_loop k E G buf bufsiz delim fp nbuf (sz * 2) (Suc i))) ?s
       else getdelim_loop k E G buf bufsiz delim fp (At b 0) sz (Suc i) ?s)"
    using c by (simp add: bnd_Ok [where m = "c_fgetc E G fp", OF get] bnd_Ok [where m = "store _ _", OF st] Let_def)
  show ?thesis
  proof (cases "sz \<le> i + 3")
    case False
    have "line_buf ?s buf bufsiz b ?v sz" using buf by (simp add: line_buf_def)
    moreover have "room (i + 1) sz" using False by (simp add: room_def)
    ultimately show ?thesis
      using False step tk
      by - (rule exI [of _ ?s], rule exI [of _ b], rule exI [of _ ?v], rule exI [of _ sz], simp add: keeps_def)
  next
    case True
    let ?nb = "next_block (os s)"
    let ?w = "take (sz * 2) (?v @ replicate (sz * 2) 0)"
    let ?r = "?s\<lparr> os := (os ?s)\<lparr> heap := (heap (os ?s))(b := None, ?nb \<mapsto> ?w), next_block := ?nb + 1 \<rparr> \<rparr>"
    let ?t = "?r\<lparr> os := (os ?r)\<lparr> ptr_vars := (ptr_vars (os s))(buf := At ?nb 0),
      size_vars := (size_vars (os s))(bufsiz := sz * 2) \<rparr> \<rparr>"
    have re: "realloc E (At b 0) (sz * 2) ?s = Ok (At ?nb 0, ?r)"
      using realloc_run [OF mem, of ?s b ?v "sz * 2"] by simp
    have len: "length ?w = sz * 2" by simp
    have "line_buf ?t buf bufsiz ?nb ?w (sz * 2)" by (simp add: line_buf_def)
    moreover have "room (i + 1) (sz * 2)" using True i unfolding room_def len by simp
    moreover have "take (i + 1) ?w = take i v @ [x]"
      using tk iv i by (simp add: room_def min_def)
    moreover have "getdelim_loop (Suc k) E G buf bufsiz delim fp (At b 0) sz i s0 =
        getdelim_loop k E G buf bufsiz delim fp (At ?nb 0) (sz * 2) (i + 1) ?t"
      using True step unfolding len
      by (simp add: bnd_Ok [where m = "realloc _ _ _", OF re] upd_os_def)
    moreover have "keeps s ?t" "golang ?t = golang s" by (simp_all add: keeps_def)
    ultimately show ?thesis using True by (meson not_less)
  qed
qed

context byte_source
begin

lemma getdelim_found:
  assumes mem: "malloc_ok E = (\<lambda>_. True)" and d: "sint d \<noteq> - 1"
  shows "stream_managed s fp fd \<Longrightarrow> src (golang s) (line @ d # tail) \<Longrightarrow>
    \<forall>x \<in> set line. x \<noteq> d \<and> sint x \<noteq> - 1 \<Longrightarrow> line_buf s buf bufsiz b v sz \<Longrightarrow> room i sz \<Longrightarrow>
    length line < k \<Longrightarrow>
    \<exists>s' b' v' sz'. getdelim_loop k E G buf bufsiz (sint d) fp (At b 0) sz i s =
        Ok (CInt (int (i + length line + 1)), s') \<and>
      line_buf s' buf bufsiz b' v' sz' \<and> i + length line + 2 \<le> sz' \<and>
      take (i + length line + 2) v' = take i v @ line @ [d, 0] \<and>
      keeps s s' \<and> src (golang s') tail \<and>
      (i + length line + 2 < sz \<longrightarrow> b' = b \<and> sz' = sz)"
proof (induction line arbitrary: s b v sz i k)
  case Nil
  then obtain k' where k: "k = Suc k'" by (cases k) auto
  obtain t where t: "c_fgetc E G fp s = Ok (CInt (sint d), t)" "keeps s t" "os t = os s"
    "src (golang t) tail" using fgetc_byte [OF Nil.prems(1), of d tail] Nil.prems(2) by auto
  have h: "heap (os t) b = Some v" and iv: "i < length v" "i + 1 < length v"
    using Nil.prems(4,5) t(3) by (simp_all add: line_buf_def room_def)
  let ?v = "v[i := d, i + 1 := 0]"
  let ?s1 = "t\<lparr> os := (os t)\<lparr> heap := (heap (os t))(b \<mapsto> v[i := d]) \<rparr> \<rparr>"
  let ?s2 = "?s1\<lparr> os := (os ?s1)\<lparr> heap := (heap (os ?s1))(b \<mapsto> ?v) \<rparr> \<rparr>"
  have st: "store (ptr_add (At b 0) i) [d] t = Ok ((), ?s1)"
    using store_byte [OF h iv(1), of d] by simp
  have "store (ptr_add (At b 0) (i + 1)) [0] ?s1 = Ok ((), ?s2)"
    by (rule store_byte) (use iv in simp_all)
  then have run: "getdelim_loop k E G buf bufsiz (sint d) fp (At b 0) sz i s =
      Ok (CInt (int (i + 1)), ?s2)"
    using d unfolding k by (simp add: bnd_Ok [where m = "c_fgetc E G fp", OF t(1)] bnd_Ok [where m = "store _ _", OF st]
        Let_def bnd_Ok return_run)
  have "take (i + 2) ?v = take i v @ [d, 0]"
    using iv by (simp add: take_Suc_conv_app_nth numeral_2_eq_2)
  moreover have "line_buf ?s2 buf bufsiz b ?v sz"
    using Nil.prems(4) t(3) by (simp add: line_buf_def)
  moreover have "keeps s ?s2" using t(2) by (simp add: keeps_def)
  ultimately show ?case
    using run t(4) iv Nil.prems(5) unfolding room_def 
      by - (rule exI [of _ ?s2], rule exI [of _ b], rule exI [of _ ?v], rule exI [of _ sz], simp)
next
  case (Cons x line)
  then obtain k' where k: "k = Suc k'" "length line < k'" by (cases k) auto
  obtain t where t: "c_fgetc E G fp s = Ok (CInt (sint x), t)" "keeps s t" "os t = os s"
    "src (golang t) (line @ d # tail)"
    using fgetc_byte [OF Cons.prems(1), of x "line @ d # tail"] Cons.prems(2) by auto
  have buf: "line_buf t buf bufsiz b v sz" using Cons.prems(4) t(3) by (simp add: line_buf_def)
  have x: "sint x \<noteq> - 1" "sint x \<noteq> sint d" using Cons.prems(3) by (simp_all add: sint_eq_iff)
  obtain s1 b1 v1 sz1 where s1: "getdelim_loop k E G buf bufsiz (sint d) fp (At b 0) sz i s =
      getdelim_loop k' E G buf bufsiz (sint d) fp (At b1 0) sz1 (i + 1) s1"
    "line_buf s1 buf bufsiz b1 v1 sz1" "room (i + 1) sz1" "take (i + 1) v1 = take i v @ [x]"
    "keeps t s1" "golang s1 = golang t"
    "i + 3 < sz \<longrightarrow> b1 = b \<and> sz1 = sz"
    using getdelim_round [OF mem buf Cons.prems(5) t(1) x, of k'] unfolding k(1) by blast
  have m: "stream_managed s1 fp fd"
    using keeps_managed [OF keeps_trans [OF t(2) s1(5)] Cons.prems(1)] .
  obtain s' b' v' sz' where s': "getdelim_loop k' E G buf bufsiz (sint d) fp (At b1 0) sz1 (i + 1) s1 =
      Ok (CInt (int (i + 1 + length line + 1)), s')" "line_buf s' buf bufsiz b' v' sz'"
    "i + 1 + length line + 2 \<le> sz'"
    "take (i + 1 + length line + 2) v' = take (i + 1) v1 @ line @ [d, 0]" "keeps s1 s'"
    "src (golang s') tail"
    "i + 1 + length line + 2 < sz1 \<longrightarrow> b' = b1 \<and> sz' = sz1"
    using Cons.IH [OF m _ _ s1(2,3) k(2)] t(4) s1(6) Cons.prems(3) by auto
  have "keeps s s'" using keeps_trans [OF keeps_trans [OF t(2) s1(5)] s'(5)] .
  moreover have "i + length (x # line) + 2 < sz \<longrightarrow> b' = b \<and> sz' = sz"
    using s'(7) s1(7) by auto
  ultimately show ?case using s' s1(1,4)
    by - (rule exI [of _ s'], rule exI [of _ b'], rule exI [of _ v'], rule exI [of _ sz'], simp)
qed

lemma getdelim_eof:
  assumes mem: "malloc_ok E = (\<lambda>_. True)" and found: "\<forall>symb. dlsym E symb = DlFound"
    and feof: "feof_ok E"
  shows "stream_managed s fp fd \<Longrightarrow> src (golang s) line \<Longrightarrow>
    \<forall>x \<in> set line. sint x \<noteq> delim \<and> sint x \<noteq> - 1 \<Longrightarrow> line_buf s buf bufsiz b v sz \<Longrightarrow> room i sz \<Longrightarrow>
    length line < k \<Longrightarrow>
    \<exists>s' b' v' sz'. getdelim_loop k E G buf bufsiz delim fp (At b 0) sz i s =
        Ok (CInt (if i + length line = 0 then - 1 else int (i + length line)), s') \<and>
      line_buf s' buf bufsiz b' v' sz' \<and> i + length line < sz' \<and>
      take (i + length line) v' = take i v @ line \<and>
      keeps s s' \<and> src (golang s') [] \<and>
      (i + length line + 2 < sz \<longrightarrow> b' = b \<and> sz' = sz)"
proof (induction line arbitrary: s b v sz i k)
  case Nil
  then obtain k' where k: "k = Suc k'" by (cases k) auto
  obtain t f where t: "c_fgetc E G fp s = Ok (CInt (- 1), t)" "keeps s t"
    "streams (os t) fp = Some f" "eof_seen f" "src (golang t) []" "heap (os t) = heap (os s)"
    "ptr_vars (os t) = ptr_vars (os s)" "size_vars (os t) = size_vars (os s)"
    using fgetc_end [OF Nil.prems(1,2)] by blast
  obtain s' where s': "c_feof E G fp t = Ok (CInt 1, s')" "keeps t s'" "os s' = os t"
    "golang s' = golang t"
    using c_feof_run [OF found feof t(3), of G] t(4) by auto
  have "getdelim_loop k E G buf bufsiz delim fp (At b 0) sz i s =
      Ok (CInt (if i = 0 then - 1 else int i), s')"
    unfolding k by (simp add: bnd_Ok [where m = "c_fgetc E G fp", OF t(1)]
        bnd_Ok [where m = "c_feof E G fp", OF s'(1)] Let_def return_run)
  moreover have "line_buf s' buf bufsiz b v sz"
    using Nil.prems(4) t s'(3) by (simp add: line_buf_def)
  ultimately show ?case
    using t(5) s'(4) Nil.prems(5) keeps_trans [OF t(2) s'(2)]
    by - (rule exI [of _ s'], rule exI [of _ b], rule exI [of _ v], rule exI [of _ sz], simp add: room_def)
next
  case (Cons x line)
  then obtain k' where k: "k = Suc k'" "length line < k'" by (cases k) auto
  obtain t where t: "c_fgetc E G fp s = Ok (CInt (sint x), t)" "keeps s t" "os t = os s"
    "src (golang t) line"
    using fgetc_byte [OF Cons.prems(1,2)] by auto
  have buf: "line_buf t buf bufsiz b v sz" using Cons.prems(4) t(3) by (simp add: line_buf_def)
  have x: "sint x \<noteq> - 1" "sint x \<noteq> delim" using Cons.prems(3) by simp_all
  obtain s1 b1 v1 sz1 where s1: "getdelim_loop k E G buf bufsiz delim fp (At b 0) sz i s =
      getdelim_loop k' E G buf bufsiz delim fp (At b1 0) sz1 (i + 1) s1"
    "line_buf s1 buf bufsiz b1 v1 sz1" "room (i + 1) sz1" "take (i + 1) v1 = take i v @ [x]"
    "keeps t s1" "golang s1 = golang t"
    "i + 3 < sz \<longrightarrow> b1 = b \<and> sz1 = sz"
    using getdelim_round [OF mem buf Cons.prems(5) t(1) x, of k'] unfolding k(1) by blast
  have m: "stream_managed s1 fp fd"
    using keeps_managed [OF keeps_trans [OF t(2) s1(5)] Cons.prems(1)] .
  obtain s' b' v' sz' where s': "getdelim_loop k' E G buf bufsiz delim fp (At b1 0) sz1 (i + 1) s1 =
      Ok (CInt (int (i + 1 + length line)), s')" "line_buf s' buf bufsiz b' v' sz'"
    "i + 1 + length line < sz'"
    "take (i + 1 + length line) v' = take (i + 1) v1 @ line" "keeps s1 s'" "src (golang s') []"
    "i + 1 + length line + 2 < sz1 \<longrightarrow> b' = b1 \<and> sz' = sz1"
    using Cons.IH [OF m _ _ s1(2,3) k(2)] t(4) s1(6) Cons.prems(3) by auto
  have "keeps s s'" using keeps_trans [OF keeps_trans [OF t(2) s1(5)] s'(5)] .
  moreover have "i + length (x # line) + 2 < sz \<longrightarrow> b' = b \<and> sz' = sz"
    using s'(7) s1(7) by auto
  ultimately show ?case using s' s1(1,4)
    by - (rule exI [of _ s'], rule exI [of _ b'], rule exI [of _ v'], rule exI [of _ sz'], simp)
qed

end

section \<open>What line input delivers\<close>

lemma getdelim_start:
  assumes "stream_managed s fp fd" and "line_buf s buf bufsiz b v sz" and "0 < sz"
  shows "c_getdelim k E G buf bufsiz delim fp s =
    getdelim_loop k E G buf bufsiz delim fp (At b 0) sz 0 (traced E ''getdelim'' s)"
  using assms
  by (simp add: c_getdelim_def bnd_STREAM_NOT_MANAGED line_buf_def)

lemma line_buf_traced [simp]:
  "line_buf (traced E m s) buf bufsiz b v sz = line_buf s buf bufsiz b v sz"
  by (simp add: line_buf_def)

text \<open>
  \<open>getdelim\<close> delivers the next piece of the input up to and including the delimiter,
  terminated by a NUL, and leaves the rest to be read; when the input ends first it delivers what
  there is, or -1. It never writes outside the buffer, which it may have grown, and one round per
  byte of input is enough. Bytes equal to \<open>0xFF\<close> are excluded.
\<close>

theorem getdelim_delivers:
  assumes source: "byte_source G fd src" and mem: "malloc_ok E = (\<lambda>_. True)"
    and found: "\<forall>symb. dlsym E symb = DlFound" and feof: "feof_ok E"
    and m: "stream_managed s fp fd" and src: "src (golang s) input"
    and buf: "line_buf s buf bufsiz b v sz" and sz: "2 \<le> sz"
    and ff: "\<forall>x \<in> set (d # input). sint x \<noteq> - 1" and k: "length input < k"
  shows "\<exists>s' b' v' sz' r. c_getdelim k E G buf bufsiz (sint d) fp s = Ok (CInt r, s') \<and>
    line_buf s' buf bufsiz b' v' sz' \<and> keeps s s' \<and>
    (if d \<in> set input
     then r = int (length (takeWhile (\<lambda>x. x \<noteq> d) input)) + 1 \<and>
       take (nat r + 1) v' = takeWhile (\<lambda>x. x \<noteq> d) input @ [d, 0] \<and> nat r + 1 \<le> sz' \<and>
       src (golang s') (drop (nat r) input)
     else r = (if input = [] then - 1 else int (length input)) \<and>
       take (length input) v' = input \<and> src (golang s') [])"
proof -
  let ?t = "traced E ''getdelim'' s"
  have start: "c_getdelim k E G buf bufsiz (sint d) fp s =
      getdelim_loop k E G buf bufsiz (sint d) fp (At b 0) sz 0 ?t"
    using getdelim_start [OF m buf] sz by simp
  have t: "stream_managed ?t fp fd" "src (golang ?t) input" "line_buf ?t buf bufsiz b v sz"
    "room 0 sz" using m src buf sz by (simp_all add: room_def)
  have keep: "keeps s s'" if "keeps ?t s'" for s' using keeps_trans [OF traced_keeps that] .
  show ?thesis
  proof (cases "d \<in> set input")
    case True
    then obtain line rest where input: "input = line @ d # rest" and line: "d \<notin> set line"
      by (meson split_list_first)
    then have "\<forall>x \<in> set line. x \<noteq> d" by blast
    with input have tw: "takeWhile (\<lambda>x. x \<noteq> d) input = line" by (simp add: takeWhile_append2)
    have src_t: "src (golang ?t) (line @ d # rest)" using t(2) input by simp
    have no: "\<forall>x \<in> set line. x \<noteq> d \<and> sint x \<noteq> - 1"
      using ff \<open>\<forall>x \<in> set line. x \<noteq> d\<close> input by simp
    have lk: "length line < k" using k input by simp
    have dn: "sint d \<noteq> - 1" using ff by simp
    from byte_source.getdelim_found [OF source mem dn t(1) src_t no t(3,4) lk]
    obtain s' b' v' sz' where run:
        "getdelim_loop k E G buf bufsiz (sint d) fp (At b 0) sz 0 ?t = Ok (CInt (int (0 + length line + 1)), s')"
        "line_buf s' buf bufsiz b' v' sz'" "0 + length line + 2 \<le> sz'"
        "take (0 + length line + 2) v' = take 0 v @ line @ [d, 0]" "keeps ?t s'"
        "src (golang s') rest" by blast
    have n: "nat (int (length line) + 1) = length line + 1" by simp
    show ?thesis
      unfolding tw using True start keep [OF run(5)] run(1-4,6)
      by - (rule exI [of _ s'], rule exI [of _ b'], rule exI [of _ v'], rule exI [of _ sz'],
        rule exI [of _ "int (length line) + 1"], simp add: n input)
  next
    case False
    have "\<forall>x \<in> set input. sint x \<noteq> sint d \<and> sint x \<noteq> - 1"
      using ff False by (auto simp: sint_eq_iff)
    then obtain s' b' v' sz' where
        "getdelim_loop k E G buf bufsiz (sint d) fp (At b 0) sz 0 ?t =
          Ok (CInt (if 0 + length input = 0 then - 1 else int (0 + length input)), s')"
        "line_buf s' buf bufsiz b' v' sz'" "take (0 + length input) v' = take 0 v @ input"
        "keeps ?t s'" "src (golang s') []"
      using byte_source.getdelim_eof [OF source mem found feof t(1,2) _ t(3,4) k] by blast
    with False start keep show ?thesis by auto
  qed
qed

text \<open>A process with one managed stream, number 7 on descriptor 5, and a block of memory.\<close>

definition demo_stream :: "'g \<Rightarrow> bytes \<Rightarrow> ('g, unit) cstate" where
  "demo_stream g v = (demo_cstate g [''/home/run''] [5])\<lparr> os := demo_osw\<lparr>
     streams := [7 \<mapsto> \<lparr> fno = 5, eof_seen = False, err_seen = False \<rparr>],
     heap := [9 \<mapsto> v], ptr_vars := (\<lambda>_. At 9 0), size_vars := (\<lambda>_. length v),
     next_block := 20 \<rparr> \<rparr>"

lemma demo_stream_managed: "stream_managed (demo_stream g v) 7 5"
  by (simp add: stream_managed_def demo_stream_def fd_managed_def demo_cstate_def IS_STD_FD_def)

lemma demo_malloc: "malloc_ok demo_env = (\<lambda>_. True)"
  by (simp add: demo_env_def)

lemma getdelim_delivers_witness:
  "\<exists>s' b' v' sz'. c_getdelim 9 demo_env (demo_go []) 1 1 (sint (10 :: byte)) 7
      (demo_stream [97, 98, 10, 99] [1, 1]) = Ok (CInt 3, s') \<and>
    line_buf s' 1 1 b' v' sz' \<and> take 4 v' = [97, 98, 10, 0] \<and> golang s' = [99]"
proof -
  let ?s = "demo_stream [97, 98, 10, 99] [1, 1]"
  have src: "golang ?s = [97, 98, 10, 99]" and buf: "line_buf ?s 1 1 9 [1, 1] 2"
    by (simp_all add: demo_stream_def demo_cstate_def line_buf_def)
  have ff: "\<forall>x \<in> set [10, 97, 98, 10, 99 :: byte]. sint x \<noteq> - 1" by simp
  from getdelim_delivers [OF demo.byte_source_axioms demo_malloc demo_found demo_feof_ok
      demo_stream_managed src buf _ ff, of 9 "[]"]
  show ?thesis by auto
qed

text \<open>
  A line that leaves at least two bytes of the caller's buffer unused is delivered by
  \<open>fgets\<close> as C wants it: the same pointer comes back, the line and a NUL are in the buffer, and
  the next read starts after the line.
\<close>

theorem fgets_short_line:
  assumes source: "byte_source G fd src" and mem: "malloc_ok E = (\<lambda>_. True)"
    and m: "stream_managed s fp fd" and src: "src (golang s) (line @ 10 # tail)"
    and no: "\<forall>x \<in> set line. x \<noteq> 10 \<and> sint x \<noteq> - 1"
    and h: "heap (os s) b = Some v" and size: "nat sz \<le> length v" "sz < 2 ^ 31"
    and short: "int (length line) + 3 < sz" and k: "length line < k"
  shows "\<exists>s' v'. c_fgets k E G (At b 0) sz fp s = Ok (CPtr (At b 0), s') \<and>
    heap (os s') b = Some v' \<and> take (length line + 2) v' = line @ [10, 0] \<and>
    src (golang s') tail \<and> keeps s s'"
proof -
  let ?t = "(traced E ''fgets'' s)\<lparr> os := (os s)\<lparr> ptr_vars := (ptr_vars (os s))(0 := At b 0),
    size_vars := (size_vars (os s))(0 := nat sz - Suc 0) \<rparr> \<rparr>"
  let ?u = "traced E ''getdelim'' (traced E ''getline'' ?t)"
  have n: "nat (u64 sz) = nat sz" "nat sz \<noteq> 0" "nat sz \<noteq> 1" using size(2) short
    by (simp_all add: u64_def)
  have u: "stream_managed ?t fp fd" "stream_managed ?u fp fd" "src (golang ?u) (line @ 10 # tail)"
    "line_buf ?u 0 0 b v (nat sz - 1)" "room 0 (nat sz - 1)" "keeps s ?u"
    using m src h size(1) short
    by (auto simp: stream_managed_def fd_managed_def line_buf_def room_def keeps_def)
  have ten: "sint (10 :: byte) = 10" "sint (10 :: byte) \<noteq> - 1" by simp_all
  from byte_source.getdelim_found [OF source mem ten(2) u(2,3) no u(4,5) k]
  obtain s1 b' v' sz' where run:
      "getdelim_loop k E G 0 0 10 fp (At b 0) (nat sz - 1) 0 ?u = Ok (CInt (int (length line + 1)), s1)"
      "line_buf s1 0 0 b' v' sz'" "length line + 2 \<le> sz'"
      "take (length line + 2) v' = line @ [10, 0]" "keeps ?u s1" "src (golang s1) tail"
      "length line + 2 < nat sz - 1 \<longrightarrow> b' = b \<and> sz' = nat sz - 1"
    unfolding ten(1) by auto
  have b: "b' = b" and hb: "heap (os s1) b = Some v'" "ptr_vars (os s1) 0 = At b 0"
    and lv: "length line + 2 \<le> length v'"
    using run(2,3,7) short by (auto simp: line_buf_def)
  have line: "c_getline k E G 0 0 fp ?t = Ok (CInt (int (length line + 1)), s1)"
    using u(1) run(1) getdelim_start [of "traced E ''getline'' ?t" fp fd 0 0 b v "nat sz - 1"] u(4) short
    by (simp add: c_getline_def bnd_STREAM_NOT_MANAGED)
  let ?s' = "s1\<lparr> os := (os s1)\<lparr> heap := (heap (os s1))(b \<mapsto> v'[Suc (length line) := 0]) \<rparr> \<rparr>"
  have st: "store (ptr_add (At b 0) (Suc (length line))) [0] s1 = Ok ((), ?s')"
    by (rule store_byte [OF hb(1)]) (use lv in simp)
  have v': "v'[Suc (length line) := 0] = v'"
  proof -
    have "v' ! (Suc (length line)) = take (length line + 2) v' ! (Suc (length line))" by simp
    also have "\<dots> = 0" unfolding run(4) by (simp add: nth_append)
    finally show ?thesis by (metis list_update_id)
  qed
  have "c_fgets k E G (At b 0) sz fp s = Ok (CPtr (At b 0), ?s')"
    using m n hb(2) st
    by (simp add: c_fgets_def bnd_STREAM_NOT_MANAGED Let_def upd_os_def return_run nat_add_distrib
        bnd_Ok [where m = "c_getline k E G 0 0 fp", OF line] bnd_Ok [where m = "store _ _", OF st])
  moreover have "keeps s ?s'" using keeps_trans [OF u(6) run(5)] by (simp add: keeps_def)
  ultimately show ?thesis using run(4,6) v' by auto
qed

lemma fgets_short_line_witness:
  "\<exists>s' v'. c_fgets 9 demo_env (demo_go []) (At 9 0) 8 7
      (demo_stream [97, 98, 10, 99] (replicate 8 1)) = Ok (CPtr (At 9 0), s') \<and>
    heap (os s') 9 = Some v' \<and> take 4 v' = [97, 98, 10, 0]"
proof -
  let ?s = "demo_stream [97, 98, 10, 99] (replicate 8 1)"
  have src: "golang ?s = [97, 98] @ 10 # [99]" and h: "heap (os ?s) 9 = Some (replicate 8 1)"
    by (simp_all add: demo_stream_def demo_cstate_def)
  have no: "\<forall>x \<in> set [97, 98 :: byte]. x \<noteq> 10 \<and> sint x \<noteq> - 1" by simp
  have sz: "nat 8 \<le> length (replicate 8 (1 :: byte))" "(8 :: int) < 2 ^ 31"
    "int (length [97, 98 :: byte]) + 3 < 8" "length [97, 98 :: byte] < 9" by simp_all
  have four: "length [97, 98 :: byte] + 2 = 4" and app: "[97, 98 :: byte] @ [10, 0] = [97, 98, 10, 0]"
    by simp_all
  show ?thesis
    using fgets_short_line [OF demo.byte_source_axioms demo_malloc demo_stream_managed src no h sz,
        unfolded four app]
    by blast
qed

text \<open>
  A longer line makes \<open>fgets\<close> reallocate the buffer of its caller: with room for four
  bytes, the line \<open>abcdef\<close> comes back in a block of its own, seven bytes of it where the caller
  allowed three, and the block the caller passed is freed.
\<close>

theorem fgets_reallocates_the_callers_buffer:
  "(case c_fgets 20 demo_env (demo_go []) (At 9 0) 4 7
      (demo_stream [97, 98, 99, 100, 101, 102, 10] [0, 0, 0, 0]) of
     Ok (CPtr p, s') \<Rightarrow> p \<noteq> At 9 0 \<and> heap (os s') 9 = None \<and>
       (case p of At b _ \<Rightarrow> map_option (take 8) (heap (os s') b) =
          Some [97, 98, 99, 100, 101, 102, 10, 0] | Null \<Rightarrow> False)
   | _ \<Rightarrow> False)"
  by code_simp

text \<open>
  A byte \<open>0xFF\<close> in the middle of a file reads as the end of it: \<open>fgetc\<close> returns the
  signed value -1, which is \<open>EOF\<close>, without setting the end-of-file bit, and a byte above
  \<open>0x7F\<close> comes back negative.
\<close>

theorem fgetc_is_signed:
  "(case c_fgetc demo_env (demo_go []) 7 (demo_stream [255, 1] []) of
     Ok (CInt c, s') \<Rightarrow> c = EOF \<and> map_option eof_seen (streams (os s') 7) = Some False
   | _ \<Rightarrow> False) \<and>
   (case c_fgetc demo_env (demo_go []) 7 (demo_stream [200] []) of
     Ok (CInt c, s') \<Rightarrow> c = - 56
   | _ \<Rightarrow> False)"
  by code_simp

text \<open>
  At the end of the input \<open>getdelim\<close> returns the bytes it has without the NUL that should
  follow them: the byte after the last one keeps its old value.
\<close>

theorem getdelim_no_nul_at_eof:
  "(case c_getdelim 20 demo_env (demo_go []) 1 1 10 7 (demo_stream [97, 98] [1, 1, 1, 1, 1, 1]) of
     Ok (CInt r, s') \<Rightarrow> r = 2 \<and> heap (os s') 9 = Some [97, 98, 1, 1, 1, 1]
   | _ \<Rightarrow> False)"
  by code_simp

end
