(* ===== verification/Blocks.thy ===== *)
theory Blocks
  imports Lines
begin

text \<open>
  Block and formatted output on streams: what \<open>fwrite\<close>, \<open>fputs\<close> and \<open>fprintf\<close> return and
  record when the Go layer takes every byte.
\<close>

lemma load_run:
  assumes "heap (os s) b = Some v" and "off + n \<le> length v"
  shows "load (At b off) n s = Ok (take n (drop off v), s)"
  using assms by (simp add: load_def return_run)

lemma c_fwrite_run:
  assumes m: "stream_managed s fp fd" and h: "heap (os s) b = Some v"
    and n: "nat (u64 (sz * nmemb)) = n" "off + n \<le> length v"
    and go: "Write_go G fd (take n (drop off v)) (golang s) = Ok (r, g)"
  shows "c_fwrite E G (At b off) sz nmemb fp s =
    (let t = (traced E ''fwrite'' s)\<lparr> golang := g \<rparr> in
     if u64 (i32 r) \<noteq> nmemb
     then bnd (get_errno G) (\<lambda>_. bnd (set_err fp) (\<lambda>_. return (CInt (u64 (i32 r))))) t
     else Ok (CInt (u64 (i32 r)), t))"
proof -
  have ld: "load (At b off) n (traced E ''fwrite'' s) = Ok (take n (drop off v), traced E ''fwrite'' s)"
    by (rule load_run) (use h n in simp_all)
  show ?thesis
    using m go
    by (simp add: c_fwrite_def bnd_STREAM_NOT_MANAGED bnd_fileno n(1) Let_def
        bnd_Ok [where m = "load (At b off) n", OF ld] bnd_go_call_Ok [of _ _ r g] bnd_assoc return_run)
qed

text \<open>
  A complete \<open>fwrite\<close> returns the number of \<^emph>\<open>bytes\<close>, not of items. With items of one
  byte that is what C asks for, and nothing else changes. With larger items a complete write is
  taken for a failed one: \<open>errno\<close> is overwritten and the error bit of the stream is set.
\<close>

theorem fwrite_complete:
  assumes m: "stream_managed s fp fd" and h: "heap (os s) b = Some v"
    and n: "0 \<le> sz" "0 \<le> nmemb" "sz * nmemb < 2 ^ 31" "off + nat (sz * nmemb) \<le> length v"
    and go: "Write_go G fd (take (nat (sz * nmemb)) (drop off v)) (golang s) = Ok (sz * nmemb, g)"
  shows "\<exists>s'. c_fwrite E G (At b off) sz nmemb fp s = Ok (CInt (sz * nmemb), s') \<and> golang s' = g \<and>
    (if sz * nmemb = nmemb then os s' = os s
     else errno (os s') = GetErrno_go G g \<and> map_option err_seen (streams (os s') fp) = Some True)"
proof -
  have pos: "0 \<le> sz * nmemb" using n by simp
  then have u: "u64 (sz * nmemb) = sz * nmemb" and i: "i32 (sz * nmemb) = sz * nmemb"
    using n(3) by (simp_all add: u64_id i32_id)
  obtain f where f: "streams (os s) fp = Some f" using m by (auto simp: stream_managed_def)
  have nn: "nat (u64 (sz * nmemb)) = nat (sz * nmemb)" by (simp only: u)
  define q where "q = sz * nmemb"
  from c_fwrite_run [where E = E, OF m h nn n(4) go, unfolded i u, folded q_def] show ?thesis
    using f unfolding q_def [symmetric] by (simp add: Let_def get_errno_def set_errno_def upd_os_def set_err_def upd_stream_def
        return_run bnd_assoc)
qed

lemma fwrite_complete_witness:
  "\<exists>s'. c_fwrite demo_env (demo_go []) (At 9 0) 4 2 7 (demo_stream [] (replicate 8 1)) =
     Ok (CInt 8, s') \<and> map_option err_seen (streams (os s') 7) = Some True"
proof -
  let ?s = "demo_stream [] (replicate 8 1) :: (bytes, unit) cstate"
  have h: "heap (os ?s) 9 = Some (replicate 8 1)" by (simp add: demo_stream_def)
  have go: "Write_go (demo_go []) 5 (take (nat (4 * 2)) (drop 0 (replicate 8 1))) (golang ?s) =
      Ok (4 * 2, [])"
    by (simp add: demo_go_def demo_stream_def demo_cstate_def return_def)
  from fwrite_complete [OF demo_stream_managed h _ _ _ _ go, of demo_env] show ?thesis by auto
qed

section \<open>Strings\<close>

lemma strlen_run:
  assumes "heap (os s) b = Some (msg @ 0 # w)" and "0 \<notin> set msg"
  shows "strlen (At b 0) s = Ok (length msg, s)"
proof -
  have "\<forall>x \<in> set msg. x \<noteq> 0" using assms(2) by auto
  then have "takeWhile (\<lambda>x. x \<noteq> 0) (msg @ 0 # w) = msg" by (simp add: takeWhile_append2)
  with assms(1) show ?thesis by (simp add: strlen_def)
qed

lemma c_fputs_run:
  assumes m: "stream_managed s fp fd" and h: "heap (os s) b = Some (msg @ 0 # w)"
    and msg: "0 \<notin> set msg" "length msg < 2 ^ 31"
    and go: "Write_go G fd msg (golang s) = Ok (int (length msg), g)"
  shows "\<exists>s'. c_fputs E G (At b 0) fp s = Ok (CInt 0, s') \<and> golang s' = g \<and> os s' = os s \<and> keeps s s'"
proof -
  let ?t = "traced E ''fputs'' s"
  have n: "nat (u64 (1 * int (length msg))) = length msg" "int (length msg) < 2 ^ 31"
    using msg(2) by (simp_all add: u64_def)
  have i: "i32 (int (length msg)) = int (length msg)" "u64 (int (length msg)) = int (length msg)"
    using n(2) by (simp_all add: i32_id u64_id)
  have hw: "heap (os ?t) b = Some (msg @ 0 # w)" "0 + length msg \<le> length (msg @ 0 # w)"
    "stream_managed ?t fp fd" using h m by simp_all
  have "Write_go G fd (take (length msg) (drop 0 (msg @ 0 # w))) (golang ?t) = Ok (int (length msg), g)"
    using go by simp
  from c_fwrite_run [where E = E, OF hw(3,1) n(1) hw(2) this, unfolded i]
  obtain s' where fw: "c_fwrite E G (At b 0) 1 (int (length msg)) fp ?t = Ok (CInt (int (length msg)), s')"
    and s': "golang s' = g" "os s' = os s" "keeps s s'" by (auto simp: keeps_def)
  have "c_fputs E G (At b 0) fp s = Ok (CInt 0, s')"
    using m strlen_run [OF hw(1) msg(1)]
    by (simp add: c_fputs_def bnd_STREAM_NOT_MANAGED return_run
        bnd_Ok [where m = "strlen (At b 0)" and s = ?t] bnd_Ok [where m = "c_fwrite E G (At b 0) 1 (int (length msg)) fp", OF fw])
  with s' show ?thesis by blast
qed

lemma print_msg_run:
  assumes mem: "malloc_ok E = (\<lambda>_. True)" and m: "stream_managed s fp fd"
    and msg: "0 \<notin> set msg" "length msg < 2 ^ 31"
    and go: "Write_go G fd msg (golang s) = Ok (int (length msg), g)"
  shows "\<exists>s'. print_msg E G fp (Some msg) s = Ok (CInt 0, s') \<and> golang s' = g \<and>
    heap (os s') = (heap (os s))(next_block (os s) := None) \<and> streams (os s') = streams (os s)"
proof -
  let ?b = "next_block (os s)"
  define z where "z = replicate (Suc (length msg)) (0 :: byte)"
  let ?t = "s\<lparr> os := (os s)\<lparr> heap := (heap (os s))(?b \<mapsto> z),
    next_block := Suc ?b \<rparr> \<rparr>"
  let ?u = "s\<lparr> os := (os s)\<lparr> next_block := Suc ?b, heap := (heap (os s))(?b \<mapsto> msg @ [0]) \<rparr> \<rparr>"
  have ma: "malloc E (Suc (length msg)) s = Ok (At ?b 0, ?t)"
    using mem by (simp add: z_def malloc_def Let_def bnd_def upd_os_def modify_def return_def)
  have "length z = Suc (length msg)" "overwrite 0 0 (msg @ [0]) z = msg @ [0]"
    unfolding z_def by (simp, rule overwrite_all, simp)
  then have st: "store (At ?b 0) (msg @ [0]) ?t = Ok ((), ?u)"
    by (simp add: store_def upd_os_def modify_def)
  have "stream_managed ?u fp fd" using m by (simp add: stream_managed_def fd_managed_def)
  from c_fputs_run [where E = E, OF this _ msg, of ?b "[]" G g] go
  obtain s' where fp: "c_fputs E G (At ?b 0) fp ?u = Ok (CInt 0, s')"
    and s': "golang s' = g" "os s' = os ?u" by auto
  show ?thesis
    using s'
    by (simp add: print_msg_def bnd_Ok [where m = "malloc _ _", OF ma] bnd_Ok [where m = "store _ _", OF st]
        bnd_Ok [where m = "c_fputs E G (At ?b 0) fp", OF fp] free_block_def upd_os_def return_run i32_def)
qed

text \<open>
  \<open>fprintf\<close> on a managed stream hands the formatted message, without its NUL, to one call of
  the Go layer's \<open>Write\<close> and frees the block it was formatted into. It then returns 0, the
  result of \<open>fputs\<close>, where C asks for the number of bytes written.
\<close>

theorem fprintf_writes_message:
  assumes "malloc_ok E = (\<lambda>_. True)" and "stream_managed s fp fd"
    and "0 \<notin> set msg" and "length msg < 2 ^ 31"
    and "Write_go G fd msg (golang s) = Ok (int (length msg), g)"
  shows "\<exists>s'. c_fprintf E G fp (Some msg) s = Ok (CInt 0, s') \<and> golang s' = g \<and>
    heap (os s') = (heap (os s))(next_block (os s) := None) \<and> streams (os s') = streams (os s)"
  using print_msg_run [OF assms(1) _ assms(3,4), of "traced E ''fprintf'' s" fp fd G g] assms(2,5)
  by (simp add: c_fprintf_def)

lemma fprintf_writes_message_witness:
  "\<exists>s'. c_fprintf demo_env (demo_go []) 7 (Some [104, 105]) (demo_stream [] []) = Ok (CInt 0, s') \<and>
    golang s' = []"
proof -
  let ?s = "demo_stream [] [] :: (bytes, unit) cstate"
  have no: "0 \<notin> set [104, 105 :: byte]" by simp
  have go: "Write_go (demo_go []) 5 [104, 105] (golang ?s) = Ok (int (length [104, 105 :: byte]), [])"
    by (simp add: demo_go_def demo_stream_def demo_cstate_def return_def)
  from fprintf_writes_message [OF demo_malloc demo_stream_managed no _ go] show ?thesis by auto
qed

end
