(* ===== verification/File.thy ===== *)
theory File
  imports StoreProps
begin

text \<open>
  \<open>src/go/redisfs/file.go\<close> and the read-only and write-only wrappers of \<open>fs.go\<close>: an open
  file is a path and an offset over the data store. The locks are not modelled: every entry point
  of \<open>pdwfs.go\<close> runs under one lock of its own. A call returns its results, the new contents of
  the buffers it fills, and the file with its new offset.
\<close>

record MemFile =
  mf_path :: string
  mf_offset :: int

datatype File_access = RdWr | RdOnly | WrOnly

section \<open>Methods of \<open>MemFile\<close>\<close>

definition NewMemFile :: "string \<Rightarrow> MemFile" where
  "NewMemFile path = \<lparr> mf_path = path, mf_offset = 0 \<rparr>"

definition MemFile_Size :: "'d runtime \<Rightarrow> DataStore \<Rightarrow> MemFile \<Rightarrow> ('d world, int) prog" where
  "MemFile_Size R s f = GetSize R s (mf_path f)"

definition MemFile_Truncate ::
  "'d runtime \<Rightarrow> DataStore \<Rightarrow> MemFile \<Rightarrow> int \<Rightarrow> ('d world, goerr option) prog" where
  "MemFile_Truncate R s f sz =
     (if sz < 0 then return (Some ErrNegativeTruncateSize)
      else bnd (Resize R s (mf_path f) sz) (\<lambda>_. return None))"

definition readAt ::
  "'d runtime \<Rightarrow> DataStore \<Rightarrow> MemFile \<Rightarrow> bytes \<Rightarrow> int \<Rightarrow> ('d world, int \<times> goerr option \<times> bytes) prog" where
  "readAt R s f dst off =
     (if off < 0 then panic ''Negative offset''
      else if dst = [] then return (0, None, dst)
      else
        bnd (ReadAt R s (mf_path f) off dst) (\<lambda>(n, dst).
          return (n, if n < int (length dst) then Some goerr.EOF else None, dst)))"

definition MemFile_Read ::
  "'d runtime \<Rightarrow> DataStore \<Rightarrow> MemFile \<Rightarrow> bytes \<Rightarrow>
     ('d world, int \<times> goerr option \<times> bytes \<times> MemFile) prog" where
  "MemFile_Read R s f dst =
     bnd (readAt R s f dst (mf_offset f)) (\<lambda>(n, err, dst).
       return (n, err, dst, f\<lparr> mf_offset := i64 (mf_offset f + n) \<rparr>))"

definition MemFile_ReadAt ::
  "'d runtime \<Rightarrow> DataStore \<Rightarrow> MemFile \<Rightarrow> bytes \<Rightarrow> int \<Rightarrow> ('d world, int \<times> goerr option \<times> bytes) prog" where
  "MemFile_ReadAt R s f dst off = readAt R s f dst off"

fun readVecAt_loop ::
  "'d runtime \<Rightarrow> DataStore \<Rightarrow> MemFile \<Rightarrow> bytes list \<Rightarrow> int \<Rightarrow> int \<Rightarrow>
     ('d world, int \<times> goerr option \<times> bytes list) prog" where
  "readVecAt_loop R s f [] off n = return (n, None, [])"
| "readVecAt_loop R s f (dst # dstv) off n =
     bnd (readAt R s f dst off) (\<lambda>(rd, err, dst).
       let n = i64 (n + rd) in
       case err of
         Some e \<Rightarrow> if e = goerr.EOF then return (n, Some goerr.EOF, dst # dstv) else panic ''error''
       | None \<Rightarrow>
           bnd (readVecAt_loop R s f dstv (i64 (off + rd)) n) (\<lambda>(n, err, dstv).
             return (n, err, dst # dstv)))"

definition readVecAt ::
  "'d runtime \<Rightarrow> DataStore \<Rightarrow> MemFile \<Rightarrow> bytes list \<Rightarrow> int \<Rightarrow>
     ('d world, int \<times> goerr option \<times> bytes list) prog" where
  "readVecAt R s f dstv off = readVecAt_loop R s f dstv off 0"

definition MemFile_ReadVec ::
  "'d runtime \<Rightarrow> DataStore \<Rightarrow> MemFile \<Rightarrow> bytes list \<Rightarrow>
     ('d world, int \<times> goerr option \<times> bytes list \<times> MemFile) prog" where
  "MemFile_ReadVec R s f dstv =
     bnd (readVecAt R s f dstv (mf_offset f)) (\<lambda>(n, err, dstv).
       return (n, err, dstv, f\<lparr> mf_offset := i64 (mf_offset f + n) \<rparr>))"

definition MemFile_ReadVecAt ::
  "'d runtime \<Rightarrow> DataStore \<Rightarrow> MemFile \<Rightarrow> bytes list \<Rightarrow> int \<Rightarrow>
     ('d world, int \<times> goerr option \<times> bytes list) prog" where
  "MemFile_ReadVecAt R s f dstv off = readVecAt R s f dstv off"

definition writeAt ::
  "'d runtime \<Rightarrow> DataStore \<Rightarrow> MemFile \<Rightarrow> bytes \<Rightarrow> int \<Rightarrow> ('d world, int) prog" where
  "writeAt R s f data off =
     (if off < 0 then panic ''Negative offset''
      else bnd (WriteAt R s (mf_path f) off data) (\<lambda>_. return (int (length data))))"

definition MemFile_Write ::
  "'d runtime \<Rightarrow> DataStore \<Rightarrow> MemFile \<Rightarrow> bytes \<Rightarrow> ('d world, int \<times> MemFile) prog" where
  "MemFile_Write R s f data =
     bnd (writeAt R s f data (mf_offset f)) (\<lambda>n.
       return (n, f\<lparr> mf_offset := i64 (mf_offset f + n) \<rparr>))"

definition MemFile_WriteAt ::
  "'d runtime \<Rightarrow> DataStore \<Rightarrow> MemFile \<Rightarrow> bytes \<Rightarrow> int \<Rightarrow> ('d world, int) prog" where
  "MemFile_WriteAt R s f data off = writeAt R s f data off"

fun writeVecAt_loop ::
  "'d runtime \<Rightarrow> DataStore \<Rightarrow> MemFile \<Rightarrow> bytes list \<Rightarrow> int \<Rightarrow> int \<Rightarrow> ('d world, int) prog" where
  "writeVecAt_loop R s f [] off n = return n"
| "writeVecAt_loop R s f (data # datav) off n =
     bnd (writeAt R s f data off) (\<lambda>wrote.
       writeVecAt_loop R s f datav (i64 (off + wrote)) (i64 (n + wrote)))"

definition writeVecAt ::
  "'d runtime \<Rightarrow> DataStore \<Rightarrow> MemFile \<Rightarrow> bytes list \<Rightarrow> int \<Rightarrow> ('d world, int) prog" where
  "writeVecAt R s f datav off = writeVecAt_loop R s f datav off 0"

definition MemFile_WriteVec ::
  "'d runtime \<Rightarrow> DataStore \<Rightarrow> MemFile \<Rightarrow> bytes list \<Rightarrow> ('d world, int \<times> MemFile) prog" where
  "MemFile_WriteVec R s f datav =
     bnd (writeVecAt R s f datav (mf_offset f)) (\<lambda>n.
       return (n, f\<lparr> mf_offset := i64 (mf_offset f + n) \<rparr>))"

definition MemFile_WriteVecAt ::
  "'d runtime \<Rightarrow> DataStore \<Rightarrow> MemFile \<Rightarrow> bytes list \<Rightarrow> int \<Rightarrow> ('d world, int) prog" where
  "MemFile_WriteVecAt R s f datav off = writeVecAt R s f datav off"

definition MemFile_Seek ::
  "'d runtime \<Rightarrow> DataStore \<Rightarrow> MemFile \<Rightarrow> int \<Rightarrow> int \<Rightarrow>
     ('d world, int \<times> goerr option \<times> MemFile) prog" where
  "MemFile_Seek R s f off whence =
     bnd (if whence = 0 then return (Some off)
          else if whence = 1 then return (Some (i64 (mf_offset f + off)))
          else if whence = 2 then bnd (MemFile_Size R s f) (\<lambda>n. return (Some (i64 (n + off))))
          else return None) (\<lambda>pos.
       case pos of
         None \<Rightarrow> return (0, Some ErrInvalidSeekWhence, f)
       | Some pos \<Rightarrow>
           if pos < 0 then return (0, Some ErrNegativeSeekLocation, f)
           else return (pos, None, f\<lparr> mf_offset := pos \<rparr>))"

section \<open>The wrappers\<close>

text \<open>\<open>roFile\<close> overrides \<open>Write\<close> only, \<open>woFile\<close> overrides \<open>Read\<close> only.\<close>

definition File_Write ::
  "'d runtime \<Rightarrow> DataStore \<Rightarrow> File_access \<Rightarrow> MemFile \<Rightarrow> bytes \<Rightarrow>
     ('d world, int \<times> goerr option \<times> MemFile) prog" where
  "File_Write R s acc f data =
     (if acc = RdOnly then return (0, Some ErrReadOnly, f)
      else bnd (MemFile_Write R s f data) (\<lambda>(n, f). return (n, None, f)))"

definition File_Read ::
  "'d runtime \<Rightarrow> DataStore \<Rightarrow> File_access \<Rightarrow> MemFile \<Rightarrow> bytes \<Rightarrow>
     ('d world, int \<times> goerr option \<times> bytes \<times> MemFile) prog" where
  "File_Read R s acc f dst =
     (if acc = WrOnly then return (0, Some ErrWriteOnly, dst, f) else MemFile_Read R s f dst)"

section \<open>The store as its clients see it\<close>

text \<open>
  What the methods need of the store: \<open>holds w n c\<close> says that the file \<open>n\<close> is the byte array
  \<open>c\<close>, and \<open>chg n w w'\<close> that nothing but the file \<open>n\<close> changed.
\<close>

locale byte_store =
  fixes R :: "'d runtime" and s :: DataStore
    and holds :: "'d world \<Rightarrow> string \<Rightarrow> bytes \<Rightarrow> bool"
    and chg :: "string \<Rightarrow> 'd world \<Rightarrow> 'd world \<Rightarrow> bool"
  assumes chg_refl: "chg n w w"
    and chg_trans: "chg n w w' \<Longrightarrow> chg n w' w'' \<Longrightarrow> chg n w w''"
    and chg_other: "chg n w w' \<Longrightarrow> m \<noteq> n \<Longrightarrow> holds w m c \<Longrightarrow> holds w' m c"
    and stripe_pos: "0 < stripeSize s"
    and write_law: "holds w n c \<Longrightarrow> off \<le> length c \<Longrightarrow> off + length d < 2 ^ 63 \<Longrightarrow>
          few_stripes (nat (stripeSize s)) off (length d) \<Longrightarrow>
          \<exists>w'. WriteAt R s n (int off) d w = Ok ((), w') \<and> holds w' n (overwrite 0 off d c) \<and> chg n w w'"
    and read_law: "holds w n c \<Longrightarrow> off + length d < 2 ^ 63 \<Longrightarrow>
          few_stripes (nat (stripeSize s)) off (length d) \<Longrightarrow>
          \<exists>w'. ReadAt R s n (int off) d w = Ok ((int (min (length d) (length c - off)),
              overwrite 0 0 (take (length d) (drop off c)) d), w') \<and> holds w' n c \<and> chg n w w'"
    and size_law: "holds w n c \<Longrightarrow> length c < 2 ^ 63 \<Longrightarrow>
          \<exists>w'. GetSize R s n w = Ok (int (length c), w') \<and> holds w' n c \<and> chg n w w'"
    and remove_law: "holds w n c \<Longrightarrow>
          \<exists>w'. Remove R s n w = Ok ((), w') \<and> holds w' n [] \<and> chg n w w'"
    and shrink_law: "holds w n c \<Longrightarrow> length c < 2 ^ 63 \<Longrightarrow> k < length c \<Longrightarrow>
          \<exists>w'. Resize R s n (int k) w = Ok ((), w') \<and> holds w' n (take k c) \<and> chg n w w'"
    and grow_law: "holds w n c \<Longrightarrow> k < 2 ^ 63 \<Longrightarrow> length c < k \<Longrightarrow>
          length c mod nat (stripeSize s) = 0 \<Longrightarrow>
          \<exists>w'. Resize R s n (int k) w = Ok ((), w') \<and> holds w' n (c @ replicate (k - length c) 0) \<and>
            chg n w w'"

text \<open>Any lawful Redis behind a well-formed store provides it.\<close>

locale redis_store = redis_server srv view for srv :: "'d server" and view +
  fixes R :: "'d runtime" and s :: DataStore
  assumes R: "server R = srv" and s: "store_ok s"

sublocale redis_store \<subseteq> byte_store R s "\<lambda>w n c. file_holds s (wview view w) n c"
    "\<lambda>n w w'. same_except n (wview view w) (wview view w')"
proof (unfold_locales, goal_cases)
  case (3 n w w' m c)
  then show ?case using file_holds_other by blast
next
  case 4
  then show ?case using s by (simp add: store_ok_def)
next
  case (5 w n c off d)
  then show ?case using WriteAt_run [OF R s] by blast
next
  case (6 w n c off d)
  from ReadAt_run [OF R s 6] obtain w' where
    "ReadAt R s n (int off) d w = Ok ((int (min (length d) (length c - off)),
       overwrite 0 0 (take (length d) (drop off c)) d), w')" "wview view w' = wview view w"
    by blast
  with 6(1) show ?case by (intro exI [of _ w']) simp
next
  case (7 w n c)
  from GetSize_run [OF R s 7] obtain w' where
    "GetSize R s n w = Ok (int (length c), w')" "wview view w' = wview view w" by blast
  with 7(1) show ?case by (intro exI [of _ w']) simp
next
  case (8 w n c)
  then show ?case using Remove_run [OF R s] by blast
next
  case (9 w n c k)
  then show ?case using Resize_shrink_run [OF R s] by blast
next
  case (10 w n c k)
  from Resize_grow_run [OF R s 10] show ?case .
qed (auto intro: same_except_trans)

interpretation demo: redis_store redis_ref ref_view demo_runtime demo_store
  by unfold_locales (simp_all add: demo_runtime_def demo_store_ok)

section \<open>An open file is a byte array with an offset\<close>

lemma few_stripes_sub:
  assumes "few_stripes S off n" and "off \<le> off'" and "off' + n' \<le> off + n"
  shows "few_stripes S off' n'"
proof -
  have "(off' + n' - 1) div S \<le> (off + n - 1) div S" using assms(3) by (intro div_le_mono) simp
  moreover have "off div S \<le> off' div S" using assms(2) by (rule div_le_mono)
  ultimately show ?thesis using assms(1) by (simp add: few_stripes_def)
qed

text \<open>Filling a vector of buffers from a byte array.\<close>

fun scatter :: "bytes \<Rightarrow> nat \<Rightarrow> bytes list \<Rightarrow> bytes list" where
  "scatter c off [] = []"
| "scatter c off (d # ds) =
     overwrite 0 0 (take (length d) (drop off c)) d # scatter c (off + length d) ds"

lemma overwrite_0_Nil [simp]: "overwrite z 0 [] d = d"
  by (simp add: overwrite_def)

lemma scatter_end: "length c \<le> off \<Longrightarrow> scatter c off ds = ds"
  by (induction ds arbitrary: off) simp_all

text \<open>Where the file has enough bytes, the buffers together receive the bytes from \<open>off\<close> on.\<close>

lemma concat_scatter:
  "off + length (concat ds) \<le> length c \<Longrightarrow>
     concat (scatter c off ds) = take (length (concat ds)) (drop off c)"
proof (induction ds arbitrary: off)
  case (Cons d ds)
  have "overwrite 0 0 (take (length d) (drop off c)) d = take (length d) (drop off c)"
    by (rule overwrite_all) (use Cons.prems in simp)
  moreover have "concat (scatter c (off + length d) ds) =
      take (length (concat ds)) (drop (off + length d) c)"
    using Cons by (simp add: add.assoc)
  ultimately show ?case by (simp add: take_add add.commute)
qed simp

context byte_store
begin

abbreviation few :: "nat \<Rightarrow> nat \<Rightarrow> bool" where
  "few \<equiv> few_stripes (nat (stripeSize s))"

lemma readAt_run:
  assumes c: "holds w (mf_path f) c" and "off + length dst < 2 ^ 63" and "few off (length dst)"
  shows "\<exists>w'. readAt R s f dst (int off) w =
      Ok ((int (min (length dst) (length c - off)),
           if length c - off < length dst then Some goerr.EOF else None,
           overwrite 0 0 (take (length dst) (drop off c)) dst), w') \<and>
    holds w' (mf_path f) c \<and> chg (mf_path f) w w'"
proof (cases "dst = []")
  case True
  then show ?thesis using c chg_refl by (intro exI [of _ w]) (simp add: readAt_def return_def)
next
  case False
  from read_law [OF assms] obtain w' where w': "ReadAt R s (mf_path f) (int off) dst w =
      Ok ((int (min (length dst) (length c - off)),
           overwrite 0 0 (take (length dst) (drop off c)) dst), w')"
    "holds w' (mf_path f) c" "chg (mf_path f) w w'" by blast
  have "length (overwrite 0 0 (take (length dst) (drop off c)) dst) = length dst" by simp
  with False w' show ?thesis
    by (intro exI [of _ w']) (simp add: readAt_def bnd_def return_def min_def)
qed

lemma readVecAt_loop_run:
  "holds w (mf_path f) c \<Longrightarrow> off + length (concat dstv) < 2 ^ 63 \<Longrightarrow> few off (length (concat dstv)) \<Longrightarrow>
     int n + int (length (concat dstv)) < 2 ^ 63 \<Longrightarrow>
   \<exists>w'. readVecAt_loop R s f dstv (int off) (int n) w =
      Ok ((int (n + min (length (concat dstv)) (length c - off)),
           if length c - off < length (concat dstv) then Some goerr.EOF else None,
           scatter c off dstv), w') \<and>
    holds w' (mf_path f) c \<and> chg (mf_path f) w w'"
proof (induction dstv arbitrary: off n w)
  case Nil
  then show ?case using chg_refl by (intro exI [of _ w]) (simp add: return_def)
next
  case (Cons dst dstv)
  have few1: "few off (length dst)" and few2: "few (off + length dst) (length (concat dstv))"
    using Cons.prems(3) by (auto elim: few_stripes_sub)
  have r1: "off + length dst < 2 ^ 63" using Cons.prems(2) by simp
  obtain w1 where w1: "readAt R s f dst (int off) w =
      Ok ((int (min (length dst) (length c - off)),
           if length c - off < length dst then Some goerr.EOF else None,
           overwrite 0 0 (take (length dst) (drop off c)) dst), w1)"
    "holds w1 (mf_path f) c" "chg (mf_path f) w w1"
    using readAt_run [OF Cons.prems(1) r1 few1] by blast
  have n1: "i64 (int n + int m) = int (n + m)" if "m \<le> length dst" for m
    using that Cons.prems(4) by (subst i64_nonneg) simp_all
  show ?case
  proof (cases "length c - off < length dst")
    case True
    then have "scatter c (off + length dst) dstv = dstv" by (intro scatter_end) simp
    with True w1 n1 [of "length c - off"] show ?thesis
      by (intro exI [of _ w1]) (simp add: bnd_def return_def Let_def min_def)
  next
    case False
    have o1: "i64 (int off + int (length dst)) = int (off + length dst)"
      using r1 by (subst i64_nonneg) simp_all
    obtain w2 where w2: "readVecAt_loop R s f dstv (int (off + length dst)) (int (n + length dst)) w1 =
        Ok ((int (n + length dst + min (length (concat dstv)) (length c - (off + length dst))),
           if length c - (off + length dst) < length (concat dstv) then Some goerr.EOF else None,
           scatter c (off + length dst) dstv), w2)"
      "holds w2 (mf_path f) c" "chg (mf_path f) w1 w2"
      using Cons.IH [OF w1(2) _ few2, of "n + length dst"] Cons.prems(2,4) by (auto simp: add.assoc)
    have e: "min (length dst) (length c - off) = length dst" using False by simp
    have "chg (mf_path f) w w2" using chg_trans w1(3) w2(3) by blast
    moreover have "min (length dst + length (concat dstv)) (length c - off) =
        length dst + min (length (concat dstv)) (length c - (off + length dst))"
      using False by linarith
    moreover have "length c - off < length dst + length (concat dstv) \<longleftrightarrow>
        length c - (off + length dst) < length (concat dstv)" using False by linarith
    ultimately show ?thesis
      using False w1(1) w2 n1 [of "length dst"] o1 unfolding e
      by (intro exI [of _ w2]) (simp add: bnd_def return_def Let_def add.assoc)
  qed
qed

lemma writeAt_run:
  assumes "holds w (mf_path f) c" and "off \<le> length c" and "off + length d < 2 ^ 63"
    and "few off (length d)"
  shows "\<exists>w'. writeAt R s f d (int off) w = Ok (int (length d), w') \<and>
    holds w' (mf_path f) (overwrite 0 off d c) \<and> chg (mf_path f) w w'"
proof -
  from write_law [OF assms] obtain w' where "WriteAt R s (mf_path f) (int off) d w = Ok ((), w')"
    "holds w' (mf_path f) (overwrite 0 off d c)" "chg (mf_path f) w w'" by blast
  then show ?thesis by (intro exI [of _ w']) (simp add: writeAt_def bnd_def return_def)
qed

lemma writeVecAt_loop_run:
  "holds w (mf_path f) c \<Longrightarrow> off \<le> length c \<Longrightarrow> off + length (concat dv) < 2 ^ 63 \<Longrightarrow>
     few off (length (concat dv)) \<Longrightarrow> int n + int (length (concat dv)) < 2 ^ 63 \<Longrightarrow>
   \<exists>w'. writeVecAt_loop R s f dv (int off) (int n) w = Ok (int (n + length (concat dv)), w') \<and>
     holds w' (mf_path f) (overwrite 0 off (concat dv) c) \<and> chg (mf_path f) w w'"
proof (induction dv arbitrary: off n w c)
  case Nil
  then show ?case using chg_refl
    by (intro exI [of _ w]) (simp add: return_def overwrite_Nil_inside)
next
  case (Cons d dv)
  have few1: "few off (length d)" and few2: "few (off + length d) (length (concat dv))"
    using Cons.prems(4) by (auto elim: few_stripes_sub)
  have r1: "off + length d < 2 ^ 63" using Cons.prems(3) by simp
  obtain w1 where w1: "writeAt R s f d (int off) w = Ok (int (length d), w1)"
    "holds w1 (mf_path f) (overwrite 0 off d c)" "chg (mf_path f) w w1"
    using writeAt_run [OF Cons.prems(1,2) r1 few1] by blast
  have o1: "i64 (int off + int (length d)) = int (off + length d)"
    "i64 (int n + int (length d)) = int (n + length d)"
    using r1 Cons.prems(5) by (subst i64_nonneg; simp)+
  obtain w2 where w2: "writeVecAt_loop R s f dv (int (off + length d)) (int (n + length d)) w1 =
      Ok (int (n + length d + length (concat dv)), w2)"
    "holds w2 (mf_path f) (overwrite 0 (off + length d) (concat dv) (overwrite 0 off d c))"
    "chg (mf_path f) w1 w2"
    using Cons.IH [OF w1(2) _ _ few2, of "n + length d"] Cons.prems(2,3,5) by (auto simp: add.assoc)
  have "chg (mf_path f) w w2" using chg_trans w1(3) w2(3) by blast
  with w1(1) w2 o1 show ?case
    by (intro exI [of _ w2]) (simp add: bnd_def return_def Let_def overwrite_append add.assoc)
qed

end

end
