(* ===== verification/Inodes.thy ===== *)
theory Inodes
  imports File Paths
begin

unbundle bit_operations_syntax

text \<open>
  \<open>src/go/redisfs/inodes.go\<close>: an inode is a path with what is cached of its metadata. The
  metadata itself is on the Redis instance of the path: the key \<open>{path}:mode\<close> exists for every
  inode, the set \<open>{path}:children\<close> for every directory. A method that fills a cache returns the
  inode with it.
\<close>

record Inode =
  i_path :: string
  i_isDir :: "bool option"
  i_mode :: "int option"

definition NewInode :: "string \<Rightarrow> Inode" where
  "NewInode path = \<lparr> i_path = path, i_isDir = None, i_mode = None \<rparr>"

definition keyPrefix :: "Inode \<Rightarrow> string" where
  "keyPrefix i = ''{'' @ i_path i @ ''}''"

definition mode_key :: "Inode \<Rightarrow> string" where
  "mode_key i = keyPrefix i @ '':mode''"

definition children_key :: "Inode \<Rightarrow> string" where
  "children_key i = keyPrefix i @ '':children''"

text \<open>A Go string as the bytes it is made of, and back.\<close>

definition str_bytes :: "string \<Rightarrow> bytes" where
  "str_bytes s = map (\<lambda>c. word_of_nat (of_char c)) s"

definition bytes_str :: "bytes \<Rightarrow> string" where
  "bytes_str b = map (\<lambda>x. char_of (unat x)) b"

section \<open>Metadata\<close>

definition inode_exists :: "'d runtime \<Rightarrow> DataStore \<Rightarrow> Inode \<Rightarrow> ('d world, bool) prog" where
  "inode_exists R s i =
     bnd (with_client (redisRing s) (keyPrefix i)) (\<lambda>c.
     bnd (client_Exists (server R) c (mode_key i)) (\<lambda>(ret, err).
     bnd (Try err) (\<lambda>_. return ret)))"

definition initMeta :: "'d runtime \<Rightarrow> DataStore \<Rightarrow> Inode \<Rightarrow> bool \<Rightarrow> int \<Rightarrow> ('d world, unit) prog" where
  "initMeta R s i isDir mode =
     bnd (with_client (redisRing s) (keyPrefix i)) (\<lambda>c.
       let p = Pipeline c;
           p = (if isDir then Pipe_Do p (SADD (children_key i) '''') else p);
           p = Pipe_Do p (SETNX (mode_key i) (str_bytes (itoa mode)))
       in Pipe_Flush (server R) p)"

definition delMeta :: "'d runtime \<Rightarrow> DataStore \<Rightarrow> Inode \<Rightarrow> ('d world, unit) prog" where
  "delMeta R s i =
     bnd (with_client (redisRing s) (keyPrefix i)) (\<lambda>c.
     bnd (client_Unlink (server R) c [children_key i, mode_key i]) Try)"

definition IsDir :: "'d runtime \<Rightarrow> DataStore \<Rightarrow> Inode \<Rightarrow> ('d world, bool \<times> Inode) prog" where
  "IsDir R s i =
     (case i_isDir i of
        Some b \<Rightarrow> return (b, i)
      | None \<Rightarrow>
          bnd (with_client (redisRing s) (keyPrefix i)) (\<lambda>c.
          bnd (client_Exists (server R) c (children_key i)) (\<lambda>(res, err).
          bnd (Try err) (\<lambda>_. return (res, i\<lparr> i_isDir := Some res \<rparr>)))))"

definition Mode :: "'d runtime \<Rightarrow> DataStore \<Rightarrow> Inode \<Rightarrow> ('d world, int \<times> Inode) prog" where
  "Mode R s i =
     (case i_mode i of
        Some m \<Rightarrow> return (m, i)
      | None \<Rightarrow>
          bnd (with_client (redisRing s) (keyPrefix i)) (\<lambda>c.
          bnd (client_Get (server R) c (mode_key i)) (\<lambda>(val, err).
          bnd (Try err) (\<lambda>_.
            case parse_int (bytes_str val) of
              None \<Rightarrow> panic ''invalid syntax''
            | Some res \<Rightarrow> return (res mod 2 ^ 32, i\<lparr> i_mode := Some (res mod 2 ^ 32) \<rparr>)))))"

definition Inode_Size :: "'d runtime \<Rightarrow> DataStore \<Rightarrow> Inode \<Rightarrow> ('d world, int \<times> Inode) prog" where
  "Inode_Size R s i =
     bnd (IsDir R s i) (\<lambda>(d, i).
       if d then return (0, i) else bnd (GetSize R s (i_path i)) (\<lambda>n. return (n, i)))"

section \<open>Children\<close>

definition setChild :: "'d runtime \<Rightarrow> DataStore \<Rightarrow> Inode \<Rightarrow> Inode \<Rightarrow> ('d world, unit) prog" where
  "setChild R s i child =
     bnd (with_client (redisRing s) (keyPrefix i)) (\<lambda>c.
     bnd (client_SAdd (server R) c (children_key i) (i_path child)) Try)"

definition removeChild :: "'d runtime \<Rightarrow> DataStore \<Rightarrow> Inode \<Rightarrow> Inode \<Rightarrow> ('d world, unit) prog" where
  "removeChild R s i child =
     bnd (with_client (redisRing s) (keyPrefix i)) (\<lambda>c.
     bnd (client_SRem (server R) c (children_key i) (i_path child)) Try)"

text \<open>
  The children set of a directory holds the empty string besides the children. \<open>make\<close> with a
  capacity of one less than the number of members panics when there is none.
\<close>

definition getChildren ::
  "'d runtime \<Rightarrow> DataStore \<Rightarrow> Inode \<Rightarrow> ('d world, (Inode list \<times> goerr option) \<times> Inode) prog" where
  "getChildren R s i =
     bnd (IsDir R s i) (\<lambda>(d, i).
       if \<not> d then return (([], Some ErrNotDirectory), i)
       else
         bnd (with_client (redisRing s) (keyPrefix i)) (\<lambda>c.
         bnd (client_SMembers (server R) c (children_key i)) (\<lambda>(paths, err).
         bnd (Try err) (\<lambda>_.
           if paths = [] then panic ''makeslice: cap out of range''
           else return ((map NewInode (filter (\<lambda>p. p \<noteq> []) paths), None), i)))))"

section \<open>Opening and removing\<close>

definition O_WRONLY :: int where "O_WRONLY = 1"
definition O_RDWR :: int where "O_RDWR = 2"
definition go_O_CREATE :: int where "go_O_CREATE = 64"
definition O_EXCL :: int where "O_EXCL = 128"
definition O_TRUNC :: int where "O_TRUNC = 512"
definition O_APPEND :: int where "O_APPEND = 1024"

definition hasFlag :: "int \<Rightarrow> int \<Rightarrow> bool" where
  "hasFlag flag flags \<longleftrightarrow> flags AND flag = flag"

definition access_of :: "int \<Rightarrow> File_access" where
  "access_of flag =
     (if hasFlag O_RDWR flag then RdWr else if hasFlag O_WRONLY flag then WrOnly else RdOnly)"

definition getFile ::
  "'d runtime \<Rightarrow> DataStore \<Rightarrow> Inode \<Rightarrow> int \<Rightarrow>
     ('d world, ((File_access \<times> MemFile) option \<times> goerr option) \<times> Inode) prog" where
  "getFile R s i flag =
     bnd (IsDir R s i) (\<lambda>(d, i).
       if d then return ((None, Some ErrIsDirectory), i)
       else
         bnd (if hasFlag O_TRUNC flag then Remove R s (i_path i) else return ()) (\<lambda>_.
         bnd (MemFile_Seek R s (NewMemFile (i_path i)) 0 (if hasFlag O_APPEND flag then 2 else 0))
           (\<lambda>(_, _, f). return ((Some (access_of flag, f), None), i))))"

text \<open>
  Removing goes down the tree through fresh inodes of the children. The number bounds the depth of
  the calls; a tree deeper than it is the outcome \<open>Panic\<close>.
\<close>

fun inode_remove :: "nat \<Rightarrow> 'd runtime \<Rightarrow> DataStore \<Rightarrow> Inode \<Rightarrow> ('d world, unit) prog"
  and remove_children :: "nat \<Rightarrow> 'd runtime \<Rightarrow> DataStore \<Rightarrow> Inode list \<Rightarrow> ('d world, unit) prog" where
  "inode_remove 0 R s i = panic ''stack overflow''"
| "inode_remove (Suc k) R s i =
     bnd (IsDir R s i) (\<lambda>(d, i).
     bnd (if \<not> d then Remove R s (i_path i)
          else bnd (getChildren R s i) (\<lambda>((children, _), _). remove_children k R s children)) (\<lambda>_.
       delMeta R s i))"
| "remove_children k R s [] = return ()"
| "remove_children k R s (i # is) =
     bnd (inode_remove k R s i) (\<lambda>_. remove_children k R s is)"

end
