(* ===== verification/Fs.thy ===== *)
theory Fs
  imports Inodes
begin

text \<open>
  \<open>src/go/redisfs/fs.go\<close>: one mounted file system. Its state is the table of the inodes seen so
  far; everything else is on Redis. Inodes are pointers in Go: the table holds the one object of a
  path, and a method called through it leaves its caches there. The working directory \<open>cwd\<close> is
  what \<open>filepath.Abs\<close> asks the process for.
\<close>

record RedisFS =
  fs_path :: string
  dataStore :: DataStore
  inodes :: "string \<Rightarrow> Inode option"

record 'd fs_state =
  fs_world :: "'d world"
  fs_self :: RedisFS

definition in_world :: "('d world, 'a) prog \<Rightarrow> ('d fs_state, 'a) prog" where
  "in_world m = (\<lambda>s. case m (fs_world s) of
       Ok (x, w) \<Rightarrow> Ok (x, s\<lparr> fs_world := w \<rparr>)
     | Panic e \<Rightarrow> Panic e
     | Exit n \<Rightarrow> Exit n)"

definition the_store :: "('d fs_state, DataStore) prog" where
  "the_store = gets (\<lambda>s. dataStore (fs_self s))"

text \<open>What a method did to the caches of an inode stays with the object in the table.\<close>

definition put_inode :: "Inode \<Rightarrow> ('d fs_state, unit) prog" where
  "put_inode i = modify (\<lambda>s. s\<lparr> fs_self := (fs_self s)\<lparr>
     inodes := (inodes (fs_self s))(i_path i \<mapsto> i) \<rparr> \<rparr>)"

definition fs_IsDir :: "'d runtime \<Rightarrow> Inode \<Rightarrow> ('d fs_state, bool) prog" where
  "fs_IsDir R i =
     bnd the_store (\<lambda>ds.
     bnd (in_world (IsDir R ds i)) (\<lambda>(d, i).
     bnd (put_inode i) (\<lambda>_. return d)))"

section \<open>Construction\<close>

definition NewRedisFS :: "'d runtime \<Rightarrow> RedisRing \<Rightarrow> string \<Rightarrow> int \<Rightarrow> ('d world, RedisFS) prog" where
  "NewRedisFS R ring path stripe =
     (let ds = \<lparr> redisRing = ring, stripeSize = stripe \<rparr>; root = NewInode path
      in bnd (initMeta R ds root True 384) (\<lambda>_.
           return \<lparr> fs_path = path, dataStore = ds, inodes = [path \<mapsto> root] \<rparr>))"

section \<open>Looking up\<close>

definition ValidatePath :: "string \<Rightarrow> string \<Rightarrow> ('d fs_state, goerr option) prog" where
  "ValidatePath cwd path =
     bnd (gets (\<lambda>s. fs_path (fs_self s))) (\<lambda>root.
       return (if \<not> prefix root (filepath_Abs cwd path) then Some ErrFileNotManaged else None))"

definition createInode ::
  "'d runtime \<Rightarrow> string \<Rightarrow> bool \<Rightarrow> int \<Rightarrow> Inode \<Rightarrow> ('d fs_state, Inode) prog" where
  "createInode R path dir mode parent =
     bnd the_store (\<lambda>ds.
     let i = NewInode path in
     bnd (in_world (initMeta R ds i dir mode)) (\<lambda>_.
     bnd (in_world (setChild R ds parent i)) (\<lambda>_.
     bnd (put_inode i) (\<lambda>_. return i))))"

definition getInode :: "'d runtime \<Rightarrow> string \<Rightarrow> ('d fs_state, Inode option) prog" where
  "getInode R path =
     bnd (gets (\<lambda>s. inodes (fs_self s) path)) (\<lambda>cached.
       case cached of
         Some i \<Rightarrow> return (Some i)
       | None \<Rightarrow>
           bnd the_store (\<lambda>ds.
           let i = NewInode path in
           bnd (in_world (inode_exists R ds i)) (\<lambda>ok.
             if \<not> ok then return None
             else bnd (put_inode i) (\<lambda>_. return (Some i)))))"

definition removeInode :: "nat \<Rightarrow> 'd runtime \<Rightarrow> Inode \<Rightarrow> ('d fs_state, unit) prog" where
  "removeInode k R i =
     bnd the_store (\<lambda>ds.
     bnd (in_world (inode_remove k R ds i)) (\<lambda>_.
       modify (\<lambda>s. s\<lparr> fs_self := (fs_self s)\<lparr>
         inodes := (inodes (fs_self s))(i_path i := None) \<rparr> \<rparr>)))"

definition root_inode :: "('d fs_state, Inode) prog" where
  "root_inode = gets (\<lambda>s. case inodes (fs_self s) (fs_path (fs_self s)) of
     Some i \<Rightarrow> i | None \<Rightarrow> NewInode (fs_path (fs_self s)))"

definition fileInfo ::
  "'d runtime \<Rightarrow> string \<Rightarrow> ('d fs_state, Inode option \<times> Inode option \<times> goerr option) prog" where
  "fileInfo R abspath =
     bnd root_inode (\<lambda>root.
       if abspath = i_path root then return (None, Some root, None)
       else
         bnd (getInode R (filepath_Dir abspath)) (\<lambda>fiParent.
         bnd (case fiParent of None \<Rightarrow> return False | Some p \<Rightarrow> fs_IsDir R p) (\<lambda>ok.
           if \<not> ok then return (None, None, Some ErrParentDirNotExist)
           else bnd (getInode R abspath) (\<lambda>fiNode. return (fiParent, fiNode, None)))))"

definition nil_deref :: "('s, 'a) prog" where
  "nil_deref = panic ''invalid memory address or nil pointer dereference''"

definition the_inode :: "Inode option \<Rightarrow> ('s, Inode) prog" where
  "the_inode i = (case i of None \<Rightarrow> nil_deref | Some i \<Rightarrow> return i)"

section \<open>Directories\<close>

definition FS_Mkdir ::
  "'d runtime \<Rightarrow> string \<Rightarrow> string \<Rightarrow> int \<Rightarrow> ('d fs_state, goerr option) prog" where
  "FS_Mkdir R cwd name perm =
     bnd (ValidatePath cwd name) (\<lambda>err.
     case err of
       Some e \<Rightarrow> return (Some (PathError ''mkdir'' name e))
     | None \<Rightarrow>
         let path = filepath_Abs cwd name in
         bnd (fileInfo R path) (\<lambda>(fiParent, fiNode, err).
         case err of
           Some e \<Rightarrow> return (Some (PathError ''mkdir'' name e))
         | None \<Rightarrow>
             bnd (gets (\<lambda>s. fs_path (fs_self s))) (\<lambda>root.
             if path = root then return None
             else if fiNode \<noteq> None then return (Some (PathError ''mkdir'' name ErrExist))
             else
               bnd (the_inode fiParent) (\<lambda>p.
               bnd (createInode R path True perm p) (\<lambda>_. return None)))))"

text \<open>Go compares strings byte by byte.\<close>

fun str_le :: "string \<Rightarrow> string \<Rightarrow> bool" where
  "str_le [] t = True"
| "str_le (a # s) [] = False"
| "str_le (a # s) (b # t) =
     ((of_char a :: nat) < of_char b \<or> a = b \<and> str_le s t)"

fun insert_by_name :: "Inode \<Rightarrow> Inode list \<Rightarrow> Inode list" where
  "insert_by_name i [] = [i]"
| "insert_by_name i (j # js) =
     (if str_le (i_path i) (i_path j) then i # j # js else j # insert_by_name i js)"

definition sort_by_name :: "Inode list \<Rightarrow> Inode list" where
  "sort_by_name is = foldr insert_by_name is []"

definition ReadDir ::
  "'d runtime \<Rightarrow> string \<Rightarrow> string \<Rightarrow> ('d fs_state, Inode list \<times> goerr option) prog" where
  "ReadDir R cwd path =
     bnd (ValidatePath cwd path) (\<lambda>err.
     case err of
       Some e \<Rightarrow> return ([], Some (PathError ''readdir'' path e))
     | None \<Rightarrow>
         let path = filepath_Abs cwd path in
         bnd (fileInfo R path) (\<lambda>(_, fi, err).
         case err of
           Some e \<Rightarrow> return ([], Some (PathError ''readdir'' path e))
         | None \<Rightarrow>
             bnd (case fi of None \<Rightarrow> return False | Some i \<Rightarrow> fs_IsDir R i) (\<lambda>dir.
             if \<not> dir then return ([], Some (PathError ''readdir'' path ErrNotDirectory))
             else
               bnd (the_inode fi) (\<lambda>i.
               bnd the_store (\<lambda>ds.
               bnd (in_world (getChildren R ds (i\<lparr> i_isDir := Some dir \<rparr>))) (\<lambda>((fis, err), _).
               case err of
                 Some e \<Rightarrow> return ([], Some (PathError ''readdir'' path e))
               | None \<Rightarrow> return (sort_by_name fis, None)))))))"

section \<open>Removing\<close>

definition FS_Remove ::
  "nat \<Rightarrow> 'd runtime \<Rightarrow> string \<Rightarrow> string \<Rightarrow> ('d fs_state, goerr option) prog" where
  "FS_Remove k R cwd name =
     bnd (ValidatePath cwd name) (\<lambda>err.
     case err of
       Some e \<Rightarrow> return (Some (PathError ''remove'' name e))
     | None \<Rightarrow>
         let path = filepath_Abs cwd name in
         bnd (fileInfo R path) (\<lambda>(fiParent, fiNode, err).
         case err of
           Some e \<Rightarrow> return (Some (PathError ''remove'' name e))
         | None \<Rightarrow>
             (case fiNode of
                None \<Rightarrow> return (Some (PathError ''remove'' name ErrNotExist))
              | Some node \<Rightarrow>
                  bnd (the_inode fiParent) (\<lambda>p.
                  bnd the_store (\<lambda>ds.
                  bnd (in_world (removeChild R ds p node)) (\<lambda>_.
                  bnd (removeInode k R node) (\<lambda>_. return None)))))))"

definition RmDir ::
  "nat \<Rightarrow> 'd runtime \<Rightarrow> string \<Rightarrow> string \<Rightarrow> ('d fs_state, goerr option) prog" where
  "RmDir k R cwd path =
     bnd (ValidatePath cwd path) (\<lambda>err.
     case err of
       Some e \<Rightarrow> return (Some (PathError ''rmdir'' path e))
     | None \<Rightarrow>
         let path = filepath_Clean path in
         bnd (ReadDir R cwd path) (\<lambda>(entries, err).
         case err of
           Some e \<Rightarrow> return (Some (PathError ''rmdir'' path e))
         | None \<Rightarrow>
             if length entries \<noteq> 0 then return (Some (PathError ''rmdir'' path ErrDirNotEmpty))
             else FS_Remove k R cwd path))"

section \<open>Files\<close>

definition OpenFile ::
  "'d runtime \<Rightarrow> string \<Rightarrow> string \<Rightarrow> int \<Rightarrow> int \<Rightarrow>
     ('d fs_state, (File_access \<times> MemFile) option \<times> goerr option) prog" where
  "OpenFile R cwd name flag perm =
     bnd (ValidatePath cwd name) (\<lambda>err.
     case err of
       Some e \<Rightarrow> return (None, Some (PathError ''open'' name e))
     | None \<Rightarrow>
         let path = filepath_Abs cwd name in
         bnd (fileInfo R path) (\<lambda>(fiParent, fiNode, err).
         case err of
           Some e \<Rightarrow> return (None, Some (PathError ''open'' name e))
         | None \<Rightarrow>
             bnd (case fiNode of
                 None \<Rightarrow>
                   if \<not> hasFlag go_O_CREATE flag
                   then return (Inl (PathError ''open'' name ErrNotExist))
                   else
                     bnd (the_inode fiParent) (\<lambda>p.
                     bnd (createInode R path False perm p) (\<lambda>i. return (Inr i)))
               | Some i \<Rightarrow>
                   if hasFlag (go_O_CREATE OR O_EXCL) flag
                   then return (Inl (PathError ''open'' name ErrExist))
                   else
                     bnd (fs_IsDir R i) (\<lambda>d.
                       if d then return (Inl (PathError ''open'' name ErrIsDirectory))
                       else return (Inr (i\<lparr> i_isDir := Some d \<rparr>)))) (\<lambda>r.
               case r of
                 Inl e \<Rightarrow> return (None, Some e)
               | Inr i \<Rightarrow>
                   bnd the_store (\<lambda>ds.
                   bnd (in_world (getFile R ds i flag)) (\<lambda>((f, err), i).
                   bnd (put_inode i) (\<lambda>_. return (f, err)))))))"

definition FS_Stat ::
  "'d runtime \<Rightarrow> string \<Rightarrow> string \<Rightarrow> ('d fs_state, Inode option \<times> goerr option) prog" where
  "FS_Stat R cwd name =
     bnd (ValidatePath cwd name) (\<lambda>err.
     case err of
       Some e \<Rightarrow> return (None, Some (PathError ''stat'' name e))
     | None \<Rightarrow>
         let path = filepath_Abs cwd name in
         bnd (fileInfo R path) (\<lambda>(_, fi, err).
         case err of
           Some e \<Rightarrow> return (None, Some (PathError ''stat'' name e))
         | None \<Rightarrow>
             (case fi of
                None \<Rightarrow> return (None, Some (PathError ''stat'' name ErrNotExist))
              | Some i \<Rightarrow> return (Some i, None))))"

definition FS_Lstat ::
  "'d runtime \<Rightarrow> string \<Rightarrow> string \<Rightarrow> ('d fs_state, Inode option \<times> goerr option) prog" where
  "FS_Lstat R cwd name = FS_Stat R cwd name"

end
