(* ===== verification/Pdwfs.thy ===== *)
theory Pdwfs
  imports Fs
begin

text \<open>
  \<open>src/go/config/config.go\<close> and \<open>src/go/pdwfs.go\<close>: the configuration, and the functions
  exported to C, which find the mount or the open file, call it, and turn its errors into \<open>errno\<close>
  or a panic. An open file is kept with the mount it belongs to. The mounts are a Go map; the list
  has them in the order the iteration happens to take.
\<close>

section \<open>Configuration\<close>

definition DefaultStripeSize :: int where "DefaultStripeSize = 50 * 1024 * 1024"
definition maxRedisString :: int where "maxRedisString = 512 * 1024 * 1024"

text \<open>
  The environment variables, the empty string when unset; \<open>conf_file\<close> is what the JSON file
  named by \<open>PDWFS_CONF\<close> gives, mounts and addresses.
\<close>

record go_env =
  conf_file :: "(string \<times> int) list \<times> string list"
  PDWFS_REDIS :: string
  PDWFS_MOUNTPATH :: string
  PDWFS_STRIPESIZE :: string

record config =
  conf_mounts :: "(string \<times> int) list"
  conf_addrs :: "string list"

definition split_addrs :: "string \<Rightarrow> string list" where
  "split_addrs a = filter (\<lambda>i. i \<noteq> []) (split_on (CHR '','') a)"

text \<open>Setting a key of a map kept as an association list.\<close>

fun set_assoc :: "'k \<Rightarrow> 'v \<Rightarrow> ('k \<times> 'v) list \<Rightarrow> ('k \<times> 'v) list" where
  "set_assoc k v [] = [(k, v)]"
| "set_assoc k v ((k', v') # xs) = (if k = k' then (k, v) # xs else (k', v') # set_assoc k v xs)"

fun normalize_mounts ::
  "string \<Rightarrow> (string \<times> int) list \<Rightarrow> (string \<times> int) list \<Rightarrow> (string \<times> int) list result" where
  "normalize_mounts cwd norm [] = Ok norm"
| "normalize_mounts cwd norm ((path, stripe) # ms) =
     (if stripe > maxRedisString then Panic ''block size is above what Redis can sustain''
      else normalize_mounts cwd (set_assoc (filepath_Abs cwd path) stripe norm) ms)"

definition config_New :: "string \<Rightarrow> go_env \<Rightarrow> config result" where
  "config_New cwd env =
     (let mounts = fst (conf_file env);
          addresses = (if PDWFS_REDIS env \<noteq> [] then split_addrs (PDWFS_REDIS env) else snd (conf_file env));
          mounts = (if PDWFS_MOUNTPATH env \<noteq> []
                    then set_assoc (PDWFS_MOUNTPATH env) DefaultStripeSize mounts else mounts);
          sized = (if PDWFS_STRIPESIZE env \<noteq> [] \<and> mounts \<noteq> []
                   then (case parse_int (PDWFS_STRIPESIZE env) of
                           None \<Rightarrow> Exit 1
                         | Some n \<Rightarrow> Ok (map (\<lambda>(p, _). (p, i64 (n * 1024 * 1024))) mounts))
                   else Ok mounts)
      in case sized of
           Ok mounts \<Rightarrow>
             (case normalize_mounts cwd [] mounts of
                Ok norm \<Rightarrow> Ok \<lparr> conf_mounts = norm, conf_addrs = addresses \<rparr>
              | Panic e \<Rightarrow> Panic e
              | Exit n \<Rightarrow> Exit n)
         | Panic e \<Rightarrow> Panic e
         | Exit n \<Rightarrow> Exit n)"

section \<open>The state of the Go layer\<close>

record open_file =
  of_mount :: string
  of_access :: File_access
  of_file :: MemFile

record 'd gostate =
  gworld :: "'d world"
  gmounts :: "(string \<times> RedisFS) list"
  fdFileMap :: "int \<Rightarrow> open_file option"
  go_errno :: int

text \<open>What the Go code asks its surroundings for: Redis, the working directory, stack depth.\<close>

record 'd goproc =
  gp_run :: "'d runtime"
  gp_cwd :: string
  gp_depth :: nat
  gp_env :: go_env

definition with_mount :: "string \<Rightarrow> ('d fs_state, 'a) prog \<Rightarrow> ('d gostate, 'a) prog" where
  "with_mount mp m = (\<lambda>s. case map_of (gmounts s) mp of
       None \<Rightarrow> nil_deref s
     | Some fs \<Rightarrow> (case m \<lparr> fs_world = gworld s, fs_self = fs \<rparr> of
           Ok (x, t) \<Rightarrow> Ok (x, s\<lparr> gworld := fs_world t, gmounts := set_assoc mp (fs_self t) (gmounts s) \<rparr>)
         | Panic e \<Rightarrow> Panic e
         | Exit n \<Rightarrow> Exit n))"

text \<open>Calling a method of an open file through its mount's store.\<close>

definition with_store :: "open_file \<Rightarrow> (DataStore \<Rightarrow> ('d world, 'a) prog) \<Rightarrow> ('d gostate, 'a) prog" where
  "with_store f m = (\<lambda>s. case map_of (gmounts s) (of_mount f) of
       None \<Rightarrow> nil_deref s
     | Some fs \<Rightarrow> (case m (dataStore fs) (gworld s) of
           Ok (x, w) \<Rightarrow> Ok (x, s\<lparr> gworld := w \<rparr>)
         | Panic e \<Rightarrow> Panic e
         | Exit n \<Rightarrow> Exit n))"

definition getMount :: "'d goproc \<Rightarrow> string \<Rightarrow> ('d gostate, string option) prog" where
  "getMount P filename =
     (if filename = [] then return None
      else
        gets (\<lambda>s. map_option fst
          (find (\<lambda>(path, _). prefix path (filepath_Abs (gp_cwd P) filename)) (gmounts s))))"

text \<open>Calling a method of the mount found: a nil mount is dereferenced by it.\<close>

definition on_mount :: "'d goproc \<Rightarrow> string \<Rightarrow> ('d fs_state, 'a) prog \<Rightarrow> ('d gostate, string \<times> 'a) prog" where
  "on_mount P filename m =
     bnd (getMount P filename) (\<lambda>mp.
       case mp of None \<Rightarrow> nil_deref | Some mp \<Rightarrow> bnd (with_mount mp m) (\<lambda>x. return (mp, x)))"

definition getFileFromFd :: "int \<Rightarrow> ('d gostate, open_file) prog" where
  "getFileFromFd fd =
     bnd (gets (\<lambda>s. fdFileMap s fd)) (\<lambda>f.
       case f of Some f \<Rightarrow> return f | None \<Rightarrow> panic ''Invalid file descriptor'')"

definition set_file :: "int \<Rightarrow> open_file \<Rightarrow> MemFile \<Rightarrow> ('d gostate, unit) prog" where
  "set_file fd f mf = modify (\<lambda>s. s\<lparr> fdFileMap := (fdFileMap s)(fd \<mapsto> f\<lparr> of_file := mf \<rparr>) \<rparr>)"

definition registerFile :: "int \<Rightarrow> open_file \<Rightarrow> ('d gostate, unit) prog" where
  "registerFile fd f =
     bnd (gets (\<lambda>s. fdFileMap s fd)) (\<lambda>old.
       if old \<noteq> None then panic ''file descriptor already used''
       else modify (\<lambda>s. s\<lparr> fdFileMap := (fdFileMap s)(fd \<mapsto> f) \<rparr>))"

definition removeFd :: "int \<Rightarrow> ('d gostate, unit) prog" where
  "removeFd fd =
     bnd (gets (\<lambda>s. fdFileMap s fd)) (\<lambda>old.
       if old = None then panic ''Invalid file descriptor''
       else modify (\<lambda>s. s\<lparr> fdFileMap := (fdFileMap s)(fd := None) \<rparr>))"

definition setErrno :: "int \<Rightarrow> ('d gostate, unit) prog" where
  "setErrno e = modify (\<lambda>s. s\<lparr> go_errno := e \<rparr>)"

definition fail_with :: "int \<Rightarrow> ('d gostate, int) prog" where
  "fail_with e = bnd (setErrno e) (\<lambda>_. return (- 1))"

definition unhandled :: "('s, 'a) prog" where
  "unhandled = panic ''unhandled error''"

definition C_EEXIST :: int where "C_EEXIST = 17"
definition C_ENOENT :: int where "C_ENOENT = 2"
definition C_EISDIR :: int where "C_EISDIR = 21"
definition C_EBADF :: int where "C_EBADF = 9"
definition C_EINVAL :: int where "C_EINVAL = 22"
definition C_ENOTEMPTY :: int where "C_ENOTEMPTY = 39"

text \<open>\<open>os.IsNotExist\<close> and \<open>os.IsExist\<close> look through a \<open>PathError\<close> for the two errors.\<close>

definition underlying :: "goerr \<Rightarrow> goerr" where
  "underlying e = (case e of PathError op p e \<Rightarrow> e | _ \<Rightarrow> e)"

definition IsNotExist :: "goerr \<Rightarrow> bool" where
  "IsNotExist e \<longleftrightarrow> underlying e = ErrNotExist"

definition IsExist :: "goerr \<Rightarrow> bool" where
  "IsExist e \<longleftrightarrow> underlying e = ErrExist"

definition path_err :: "goerr \<Rightarrow> goerr \<Rightarrow> bool" where
  "path_err e x \<longleftrightarrow> (case e of PathError op p e \<Rightarrow> e = x | _ \<Rightarrow> False)"

section \<open>Start and end\<close>

fun make_mounts :: "'d goproc \<Rightarrow> RedisRing \<Rightarrow> (string \<times> int) list \<Rightarrow> ('d world, (string \<times> RedisFS) list) prog" where
  "make_mounts P ring [] = return []"
| "make_mounts P ring ((path, stripe) # ms) =
     bnd (NewRedisFS (gp_run P) ring path stripe) (\<lambda>fs.
     bnd (make_mounts P ring ms) (\<lambda>rest. return ((path, fs) # rest)))"

definition NewPdwFS :: "'d goproc \<Rightarrow> config \<Rightarrow> ('d gostate, unit) prog" where
  "NewPdwFS P conf =
     (if conf_mounts conf = [] then panic ''No mount path specified...''
      else (\<lambda>s. case make_mounts P (NewRedisRing (conf_addrs conf)) (conf_mounts conf) (gworld s) of
          Ok (ms, w) \<Rightarrow> Ok ((), s\<lparr> gworld := w, gmounts := ms, fdFileMap := (\<lambda>_. None) \<rparr>)
        | Panic e \<Rightarrow> Panic e
        | Exit n \<Rightarrow> Exit n))"

text \<open>The pieces written into the buffer of the C layer.\<close>

definition InitPdwfs :: "'d goproc \<Rightarrow> ('d gostate, string list) prog" where
  "InitPdwfs P =
     bnd (lift_res (config_New (gp_cwd P) (gp_env P))) (\<lambda>conf.
     bnd (NewPdwFS P conf) (\<lambda>_.
     bnd (gets gmounts) (\<lambda>ms.
       return (concat (map (\<lambda>(path, _). [path, ''@'']) ms) @ [[CHR 0x00]]))))"

definition FinalizePdwfs :: "('d gostate, unit) prog" where
  "FinalizePdwfs = return ()"

definition GetErrno :: "'d gostate \<Rightarrow> int" where
  "GetErrno s = go_errno s"

end
