(* ===== verification/Exports.thy ===== *)
theory Exports
  imports Pdwfs Cworld
begin

text \<open>
  The functions \<open>src/go/pdwfs.go\<close> exports to C, and the record of them the C layer calls. Each
  runs under the lock of the one \<open>PdwFS\<close> object, so it is one step. \<open>C.perror\<close> writes to the
  standard error only. Errors without a known \<open>errno\<close> are a panic (\<open>check\<close>, \<open>panic\<close>).
\<close>

section \<open>Opening and closing\<close>

definition opened ::
  "int \<Rightarrow> string \<times> (File_access \<times> MemFile) option \<times> goerr option \<Rightarrow> ('d gostate, int) prog" where
  "opened fd res = (case res of (mp, f, err) \<Rightarrow>
     case err of
       Some e \<Rightarrow>
         if IsNotExist e then fail_with C_ENOENT
         else if IsExist e then fail_with C_EEXIST
         else if path_err e ErrIsDirectory then fail_with C_EISDIR
         else unhandled
     | None \<Rightarrow>
         (case f of
            None \<Rightarrow> nil_deref
          | Some (acc, mf) \<Rightarrow>
              bnd (registerFile fd \<lparr> of_mount = mp, of_access = acc, of_file = mf \<rparr>) (\<lambda>_. return fd)))"

definition Open :: "'d goproc \<Rightarrow> string \<Rightarrow> int \<Rightarrow> int \<Rightarrow> int \<Rightarrow> ('d gostate, int) prog" where
  "Open P filename flags mode fd =
     bnd (on_mount P filename
       (OpenFile (gp_run P) (gp_cwd P) filename flags (mode mod 2 ^ 32))) (opened fd)"

definition Fopen :: "'d goproc \<Rightarrow> string \<Rightarrow> string \<Rightarrow> int \<Rightarrow> ('d gostate, int) prog" where
  "Fopen P filename mode fd =
     bnd (if mode = ''r'' then return 0
          else if mode = ''w'' then return (O_WRONLY OR go_O_CREATE OR O_TRUNC)
          else panic ''fopen mode unknown or not implemented yet'') (\<lambda>flags.
     bnd (on_mount P filename (OpenFile (gp_run P) (gp_cwd P) filename flags 384)) (opened fd))"

definition Close :: "int \<Rightarrow> ('d gostate, int) prog" where
  "Close fd = bnd (getFileFromFd fd) (\<lambda>f. bnd (removeFd fd) (\<lambda>_. return 0))"

section \<open>Writing\<close>

definition Write :: "'d goproc \<Rightarrow> int \<Rightarrow> bytes \<Rightarrow> ('d gostate, int) prog" where
  "Write P fd buf =
     bnd (getFileFromFd fd) (\<lambda>f.
     bnd (with_store f (\<lambda>ds. File_Write (gp_run P) ds (of_access f) (of_file f) buf)) (\<lambda>(n, err, mf).
     bnd (set_file fd f mf) (\<lambda>_.
       case err of
         Some e \<Rightarrow> if e = ErrReadOnly then fail_with C_EBADF else panic ''error''
       | None \<Rightarrow> return n)))"

definition Pwrite :: "'d goproc \<Rightarrow> int \<Rightarrow> bytes \<Rightarrow> int \<Rightarrow> ('d gostate, int) prog" where
  "Pwrite P fd buf off =
     bnd (getFileFromFd fd) (\<lambda>f.
       with_store f (\<lambda>ds. MemFile_WriteAt (gp_run P) ds (of_file f) buf off))"

definition Writev :: "'d goproc \<Rightarrow> int \<Rightarrow> bytes list \<Rightarrow> ('d gostate, int) prog" where
  "Writev P fd iov =
     bnd (getFileFromFd fd) (\<lambda>f.
     bnd (with_store f (\<lambda>ds. MemFile_WriteVec (gp_run P) ds (of_file f) iov)) (\<lambda>(n, mf).
     bnd (set_file fd f mf) (\<lambda>_. return n)))"

definition Pwritev :: "'d goproc \<Rightarrow> int \<Rightarrow> bytes list \<Rightarrow> int \<Rightarrow> ('d gostate, int) prog" where
  "Pwritev P fd iov off =
     bnd (getFileFromFd fd) (\<lambda>f.
       with_store f (\<lambda>ds. MemFile_WriteVecAt (gp_run P) ds (of_file f) iov off))"

section \<open>Reading\<close>

definition not_eof :: "goerr option \<Rightarrow> bool" where
  "not_eof err \<longleftrightarrow> err \<noteq> None \<and> err \<noteq> Some goerr.EOF"

definition Read :: "'d goproc \<Rightarrow> int \<Rightarrow> bytes \<Rightarrow> ('d gostate, int \<times> bytes) prog" where
  "Read P fd buf =
     bnd (getFileFromFd fd) (\<lambda>f.
     bnd (with_store f (\<lambda>ds. File_Read (gp_run P) ds (of_access f) (of_file f) buf))
       (\<lambda>(n, err, buf, mf).
     bnd (set_file fd f mf) (\<lambda>_.
       if not_eof err
       then (if err = Some ErrWriteOnly then bnd (fail_with C_EBADF) (\<lambda>r. return (r, buf))
             else panic ''error'')
       else return (n, buf))))"

definition Pread :: "'d goproc \<Rightarrow> int \<Rightarrow> bytes \<Rightarrow> int \<Rightarrow> ('d gostate, int \<times> bytes) prog" where
  "Pread P fd buf off =
     bnd (getFileFromFd fd) (\<lambda>f.
     bnd (with_store f (\<lambda>ds. MemFile_ReadAt (gp_run P) ds (of_file f) buf off)) (\<lambda>(n, err, buf).
       if not_eof err
       then (if path_err (the err) ErrNegativeOffset
             then bnd (fail_with C_EINVAL) (\<lambda>r. return (r, buf)) else unhandled)
       else return (n, buf)))"

definition Readv :: "'d goproc \<Rightarrow> int \<Rightarrow> bytes list \<Rightarrow> ('d gostate, int \<times> bytes list) prog" where
  "Readv P fd iov =
     bnd (getFileFromFd fd) (\<lambda>f.
     bnd (with_store f (\<lambda>ds. MemFile_ReadVec (gp_run P) ds (of_file f) iov)) (\<lambda>(n, err, iov, mf).
     bnd (set_file fd f mf) (\<lambda>_.
       if not_eof err then panic ''error'' else return (n, iov))))"

definition Preadv :: "'d goproc \<Rightarrow> int \<Rightarrow> bytes list \<Rightarrow> int \<Rightarrow> ('d gostate, int \<times> bytes list) prog" where
  "Preadv P fd iov off =
     bnd (getFileFromFd fd) (\<lambda>f.
     bnd (with_store f (\<lambda>ds. MemFile_ReadVecAt (gp_run P) ds (of_file f) iov off)) (\<lambda>(n, err, iov).
       if not_eof err
       then (if path_err (the err) ErrNegativeOffset
             then bnd (fail_with C_EINVAL) (\<lambda>r. return (r, iov)) else unhandled)
       else return (n, iov)))"

section \<open>Position and size\<close>

definition Lseek :: "'d goproc \<Rightarrow> int \<Rightarrow> int \<Rightarrow> int \<Rightarrow> ('d gostate, int) prog" where
  "Lseek P fd offset whence =
     bnd (getFileFromFd fd) (\<lambda>f.
     bnd (with_store f (\<lambda>ds. MemFile_Seek (gp_run P) ds (of_file f) offset whence)) (\<lambda>(n, err, mf).
     bnd (set_file fd f mf) (\<lambda>_.
       case err of
         Some e \<Rightarrow>
           if path_err e ErrNegativeSeekLocation \<or> path_err e ErrInvalidSeekWhence
           then fail_with C_EINVAL else unhandled
       | None \<Rightarrow> return n)))"

definition Ftruncate :: "'d goproc \<Rightarrow> int \<Rightarrow> int \<Rightarrow> ('d gostate, int) prog" where
  "Ftruncate P fd len =
     bnd (getFileFromFd fd) (\<lambda>f.
     bnd (with_store f (\<lambda>ds. MemFile_Truncate (gp_run P) ds (of_file f) len)) (\<lambda>err.
     bnd (Try err) (\<lambda>_. return 0)))"

section \<open>Names\<close>

definition Unlink :: "'d goproc \<Rightarrow> string \<Rightarrow> ('d gostate, int) prog" where
  "Unlink P filename =
     bnd (on_mount P filename (FS_Remove (gp_depth P) (gp_run P) (gp_cwd P) filename)) (\<lambda>(_, err).
       case err of
         Some e \<Rightarrow> if IsNotExist e then fail_with C_ENOENT else unhandled
       | None \<Rightarrow> return 0)"

definition Mkdir :: "'d goproc \<Rightarrow> string \<Rightarrow> int \<Rightarrow> ('d gostate, int) prog" where
  "Mkdir P dirname mode =
     bnd (on_mount P dirname (FS_Mkdir (gp_run P) (gp_cwd P) dirname (mode mod 2 ^ 32))) (\<lambda>(_, err).
       case err of
         Some e \<Rightarrow> if IsNotExist e then fail_with C_ENOENT
                   else if IsExist e then fail_with C_EEXIST else unhandled
       | None \<Rightarrow> return 0)"

definition Rmdir :: "'d goproc \<Rightarrow> string \<Rightarrow> ('d gostate, int) prog" where
  "Rmdir P dirname =
     bnd (on_mount P dirname (RmDir (gp_depth P) (gp_run P) (gp_cwd P) dirname)) (\<lambda>(_, err).
       case err of
         Some e \<Rightarrow> if IsNotExist e then fail_with C_ENOENT
                   else if path_err e ErrDirNotEmpty then fail_with C_ENOTEMPTY else unhandled
       | None \<Rightarrow> return 0)"

definition Access :: "'d goproc \<Rightarrow> string \<Rightarrow> int \<Rightarrow> ('d gostate, int) prog" where
  "Access P filename mode =
     bnd (on_mount P filename (FS_Stat (gp_run P) (gp_cwd P) filename)) (\<lambda>(_, _, err).
       case err of
         Some e \<Rightarrow> if IsNotExist e then fail_with C_ENOENT else unhandled
       | None \<Rightarrow> return 0)"

section \<open>Attributes\<close>

definition S_IFDIR :: int where "S_IFDIR = 16384"
definition S_IFREG :: int where "S_IFREG = 32768"

definition inode_attr :: "'d runtime \<Rightarrow> Inode \<Rightarrow> ('d fs_state, cstat) prog" where
  "inode_attr R i =
     bnd (fs_IsDir R i) (\<lambda>d.
     bnd the_store (\<lambda>ds.
     bnd (in_world (Inode_Size R ds (i\<lparr> i_isDir := Some d \<rparr>))) (\<lambda>(n, _).
       return \<lparr> st_mode = (if d then S_IFDIR else S_IFREG), st_size = n \<rparr>)))"

definition Stat :: "'d goproc \<Rightarrow> string \<Rightarrow> ('d gostate, int \<times> cstat option) prog" where
  "Stat P filename =
     bnd (on_mount P filename (FS_Stat (gp_run P) (gp_cwd P) filename)) (\<lambda>(mp, inode, err).
       case err of
         Some e \<Rightarrow>
           if IsNotExist e then bnd (fail_with C_ENOENT) (\<lambda>r. return (r, None))
           else if path_err e ErrParentDirNotExist then bnd (fail_with C_ENOENT) (\<lambda>r. return (r, None))
           else unhandled
       | None \<Rightarrow>
           bnd (the_inode inode) (\<lambda>i.
           bnd (with_mount mp (inode_attr (gp_run P) i)) (\<lambda>st. return (0, Some st))))"

definition Stat64 :: "'d goproc \<Rightarrow> string \<Rightarrow> ('d gostate, int \<times> cstat option) prog" where
  "Stat64 P filename = Stat P filename"

definition Fstat :: "'d goproc \<Rightarrow> int \<Rightarrow> ('d gostate, int \<times> cstat option) prog" where
  "Fstat P fd = bnd (getFileFromFd fd) (\<lambda>f. Stat P (mf_path (of_file f)))"

definition Fstat64 :: "'d goproc \<Rightarrow> int \<Rightarrow> ('d gostate, int \<times> cstat option) prog" where
  "Fstat64 P fd = bnd (getFileFromFd fd) (\<lambda>f. Stat64 P (mf_path (of_file f)))"

definition Lstat :: "'d goproc \<Rightarrow> string \<Rightarrow> ('d gostate, int \<times> cstat option) prog" where
  "Lstat P filename = Stat P filename"

definition Lstat64 :: "'d goproc \<Rightarrow> string \<Rightarrow> ('d gostate, int \<times> cstat option) prog" where
  "Lstat64 P filename = Stat64 P filename"

definition go_statfs_t :: cstatfs where
  "go_statfs_t = \<lparr> f_type = 0xEF53, f_bsize = 1, f_blocks = 1, f_bfree = 1, f_bavail = 1,
     f_files = 1, f_ffree = 1 \<rparr>"

definition Statfs :: "string \<Rightarrow> ('d gostate, int \<times> cstatfs) prog" where
  "Statfs filename = return (0, go_statfs_t)"

definition Statvfs :: "string \<Rightarrow> ('d gostate, int \<times> int) prog" where
  "Statvfs filename = return (0, f_bsize go_statfs_t)"

definition Fadvise :: "int \<Rightarrow> int \<Rightarrow> int \<Rightarrow> int \<Rightarrow> ('d gostate, int) prog" where
  "Fadvise fd offset len advice = return 0"

definition Fflush :: "nat \<Rightarrow> ('d gostate, int) prog" where
  "Fflush f = return 0"

section \<open>What the C layer sees\<close>

definition pdwfs_go :: "'d goproc \<Rightarrow> 'd gostate golayer" where
  "pdwfs_go P = \<lparr>
     InitPdwfs_go = InitPdwfs P, FinalizePdwfs_go = FinalizePdwfs, GetErrno_go = GetErrno,
     Open_go = Open P, Fopen_go = Fopen P, Close_go = Close,
     Write_go = Write P, Pwrite_go = Pwrite P, Writev_go = Writev P, Pwritev_go = Pwritev P,
     Read_go = Read P, Pread_go = Pread P, Readv_go = Readv P, Preadv_go = Preadv P,
     Lseek_go = Lseek P, Ftruncate_go = Ftruncate P,
     Unlink_go = Unlink P, Mkdir_go = Mkdir P, Rmdir_go = Rmdir P, Access_go = Access P,
     Stat_go = Stat P, Stat64_go = Stat64 P, Lstat_go = Lstat P, Lstat64_go = Lstat64 P,
     Fstat_go = Fstat P, Fstat64_go = Fstat64 P,
     Statfs_go = Statfs, Statfs64_go = Statfs, Statvfs_go = Statvfs, Statvfs64_go = Statvfs,
     Fadvise_go = Fadvise, Fflush_go = Fflush \<rparr>"

end
