(* ===== verification/GoFiles.thy ===== *)
theory GoFiles
  imports Exports
begin

text \<open>
  Open files through the functions of \<open>src/go/pdwfs.go\<close>: a descriptor of the Go layer is an
  offset into a byte array, whatever Redis the array is striped over. The locale \<open>go_files\<close>
  takes the laws of Redis and of the store to the exported functions; the properties are stated
  over these.
\<close>

section \<open>What a descriptor stands for\<close>

text \<open>
  In the state \<open>g\<close>, \<open>fd\<close> is open with access \<open>acc\<close> at the offset \<open>off\<close> of the file \<open>n\<close>
  of the store \<open>ds\<close>, whose contents are \<open>c\<close>.
\<close>

definition file_at ::
  "('d \<Rightarrow> keyspace) \<Rightarrow> DataStore \<Rightarrow> int \<Rightarrow> File_access \<Rightarrow> string \<Rightarrow> nat \<Rightarrow> bytes \<Rightarrow> 'd gostate \<Rightarrow> bool" where
  "file_at view ds fd acc n off c g \<longleftrightarrow>
     (\<exists>f fs. fdFileMap g fd = Some f \<and> of_access f = acc \<and>
        of_file f = \<lparr> mf_path = n, mf_offset = int off \<rparr> \<and>
        map_of (gmounts g) (of_mount f) = Some fs \<and> dataStore fs = ds \<and>
        file_holds ds (wview view (gworld g)) n c)"

text \<open>A step on the descriptor \<open>fd\<close> of the file \<open>n\<close>: the rest of the Go layer stays.\<close>

definition only_file :: "('d \<Rightarrow> keyspace) \<Rightarrow> int \<Rightarrow> string \<Rightarrow> 'd gostate \<Rightarrow> 'd gostate \<Rightarrow> bool" where
  "only_file view fd n g g' \<longleftrightarrow> gmounts g' = gmounts g \<and> go_errno g' = go_errno g \<and>
     (\<forall>fd'. fd' \<noteq> fd \<longrightarrow> fdFileMap g' fd' = fdFileMap g fd') \<and>
     dom (fdFileMap g') = dom (fdFileMap g) \<and>
     same_except n (wview view (gworld g)) (wview view (gworld g'))"

lemma file_atE:
  assumes "file_at view ds fd acc n off c g"
  obtains f fs where "fdFileMap g fd = Some f" "of_access f = acc"
    "of_file f = \<lparr> mf_path = n, mf_offset = int off \<rparr>" "map_of (gmounts g) (of_mount f) = Some fs"
    "dataStore fs = ds" "file_holds ds (wview view (gworld g)) n c"
  using assms by (auto simp: file_at_def)

lemma bnd_gets_go [simp]: "bnd (gets h) f s = f (h s) s"
  by (simp add: bnd_def gets_def)

lemma bnd_modify_go [simp]: "bnd (modify h) f s = f () (h s)"
  by (simp add: bnd_def modify_def)

lemma bnd_getFile:
  "fdFileMap g fd = Some f \<Longrightarrow> bnd (getFileFromFd fd) k g = k f g"
  by (simp add: getFileFromFd_def bnd_assoc)

lemma bnd_with_store:
  assumes "map_of (gmounts g) (of_mount f) = Some fs" and "m (dataStore fs) (gworld g) = Ok (x, w)"
  shows "bnd (with_store f m) k g = k x (g\<lparr> gworld := w \<rparr>)"
  using assms by (simp add: with_store_def bnd_def)

lemma with_store_run:
  assumes "map_of (gmounts g) (of_mount f) = Some fs" and "m (dataStore fs) (gworld g) = Ok (x, w)"
  shows "with_store f m g = Ok (x, g\<lparr> gworld := w \<rparr>)"
  using assms by (simp add: with_store_def)

text \<open>What a call that moved the offset and changed the world leaves.\<close>

definition moved :: "int \<Rightarrow> open_file \<Rightarrow> MemFile \<Rightarrow> 'd world \<Rightarrow> 'd gostate \<Rightarrow> 'd gostate" where
  "moved fd f mf w g = g\<lparr> gworld := w, fdFileMap := (fdFileMap g)(fd \<mapsto> f\<lparr> of_file := mf \<rparr>) \<rparr>"

lemma bnd_set_file: "bnd (set_file fd f mf) k (g\<lparr> gworld := w \<rparr>) = k () (moved fd f mf w g)"
  by (simp add: set_file_def moved_def)

lemma moved_file_at:
  assumes "of_access f = acc" and "map_of (gmounts g) (of_mount f) = Some fs" and "dataStore fs = ds"
    and "file_holds ds (wview view w) n c"
  shows "file_at view ds fd acc n off c (moved fd f \<lparr> mf_path = n, mf_offset = int off \<rparr> w g)"
  using assms by (auto simp: file_at_def moved_def)

lemma moved_only:
  assumes "fdFileMap g fd = Some f" and "same_except n (wview view (gworld g)) (wview view w)"
  shows "only_file view fd n g (moved fd f mf w g)"
  using assms by (auto simp: only_file_def moved_def)

lemma same_mf: "mf = \<lparr> mf_path = n, mf_offset = int off \<rparr> \<Longrightarrow> mf_path mf = n \<and> mf_offset mf = int off"
  by simp

section \<open>The exported functions on an open file\<close>

locale go_files = redis_store "server (gp_run P)" view "gp_run P" ds
  for P :: "'d goproc" and view and ds

context go_files
begin

lemma Write_run:
  assumes f: "file_at view ds fd acc n off c g" and acc: "acc \<noteq> RdOnly"
    and range: "off \<le> length c" "off + length d < 2 ^ 63" "few off (length d)"
  shows "\<exists>g'. Write P fd d g = Ok (int (length d), g') \<and>
    file_at view ds fd acc n (off + length d) (overwrite 0 off d c) g' \<and> only_file view fd n g g'"
proof -
  from f obtain f fs where F: "fdFileMap g fd = Some f" "of_access f = acc"
    "of_file f = \<lparr> mf_path = n, mf_offset = int off \<rparr>" "map_of (gmounts g) (of_mount f) = Some fs"
    "dataStore fs = ds" "file_holds ds (wview view (gworld g)) n c" by (rule file_atE)
  obtain w where w: "writeAt (gp_run P) ds (of_file f) d (int off) (gworld g) = Ok (int (length d), w)"
    "file_holds ds (wview view w) n (overwrite 0 off d c)"
    "same_except n (wview view (gworld g)) (wview view w)"
    using writeAt_run [of "gworld g" "of_file f" c off d] F(3,6) range by auto
  let ?mf = "\<lparr> mf_path = n, mf_offset = int (off + length d) \<rparr>"
  have i: "i64 (int off + int (length d)) = int (off + length d)"
    using range(2) by (subst i64_nonneg) simp_all
  have "File_Write (gp_run P) ds (of_access f) (of_file f) d (gworld g) =
      Ok ((int (length d), None, ?mf), w)"
    using F(2,3) acc w(1) i by (simp add: File_Write_def MemFile_Write_def bnd_def return_def)
  with F(1,4,5) have "Write P fd d g = Ok (int (length d), moved fd f ?mf w g)"
    by (simp add: Write_def bnd_getFile bnd_with_store [where x = "(int (length d), None, ?mf)" and w = w]
        bnd_set_file return_def)
  moreover have "file_at view ds fd acc n (off + length d) (overwrite 0 off d c) (moved fd f ?mf w g)"
    using F w(2) by (intro moved_file_at) simp_all
  ultimately show ?thesis using moved_only [OF F(1) w(3)] by blast
qed

lemma Read_run:
  assumes f: "file_at view ds fd acc n off c g" and acc: "acc \<noteq> WrOnly"
    and range: "off + length d < 2 ^ 63" "few off (length d)"
  shows "\<exists>g'. Read P fd d g = Ok ((int (min (length d) (length c - off)),
      overwrite 0 0 (take (length d) (drop off c)) d), g') \<and>
    file_at view ds fd acc n (off + min (length d) (length c - off)) c g' \<and> only_file view fd n g g'"
proof -
  from f obtain f fs where F: "fdFileMap g fd = Some f" "of_access f = acc"
    "of_file f = \<lparr> mf_path = n, mf_offset = int off \<rparr>" "map_of (gmounts g) (of_mount f) = Some fs"
    "dataStore fs = ds" "file_holds ds (wview view (gworld g)) n c" by (rule file_atE)
  let ?k = "min (length d) (length c - off)"
  let ?e = "if length c - off < length d then Some goerr.EOF else None"
  let ?d = "overwrite 0 0 (take (length d) (drop off c)) d"
  obtain w where w: "readAt (gp_run P) ds (of_file f) d (int off) (gworld g) = Ok ((int ?k, ?e, ?d), w)"
    "file_holds ds (wview view w) n c" "same_except n (wview view (gworld g)) (wview view w)"
    using readAt_run [of "gworld g" "of_file f" c off d] F(3,6) range by auto
  let ?mf = "\<lparr> mf_path = n, mf_offset = int (off + ?k) \<rparr>"
  have i: "i64 (int off + int ?k) = int (off + ?k)"
    using range(1) by (subst i64_nonneg) simp_all
  have "File_Read (gp_run P) ds (of_access f) (of_file f) d (gworld g) = Ok ((int ?k, ?e, ?d, ?mf), w)"
    using F(2,3) acc w(1) i by (simp add: File_Read_def MemFile_Read_def bnd_def return_def)
  moreover have "\<not> not_eof ?e" by (simp add: not_eof_def)
  ultimately have "Read P fd d g = Ok ((int ?k, ?d), moved fd f ?mf w g)"
    using F(1,4,5)
    by (simp add: Read_def bnd_getFile bnd_with_store [where x = "(int ?k, ?e, ?d, ?mf)" and w = w]
        bnd_set_file return_def)
  moreover have "file_at view ds fd acc n (off + ?k) c (moved fd f ?mf w g)"
    using F w(2) by (intro moved_file_at) simp_all
  ultimately show ?thesis using moved_only [OF F(1) w(3)] by blast
qed

lemma Pwrite_run:
  assumes f: "file_at view ds fd acc n pos c g"
    and range: "off \<le> length c" "off + length d < 2 ^ 63" "few off (length d)"
  shows "\<exists>g'. Pwrite P fd d (int off) g = Ok (int (length d), g') \<and>
    file_at view ds fd acc n pos (overwrite 0 off d c) g' \<and> only_file view fd n g g'"
proof -
  from f obtain f fs where F: "fdFileMap g fd = Some f" "of_access f = acc"
    "of_file f = \<lparr> mf_path = n, mf_offset = int pos \<rparr>" "map_of (gmounts g) (of_mount f) = Some fs"
    "dataStore fs = ds" "file_holds ds (wview view (gworld g)) n c" by (rule file_atE)
  obtain w where w: "writeAt (gp_run P) ds (of_file f) d (int off) (gworld g) = Ok (int (length d), w)"
    "file_holds ds (wview view w) n (overwrite 0 off d c)"
    "same_except n (wview view (gworld g)) (wview view w)"
    using writeAt_run [of "gworld g" "of_file f" c off d] F(3,6) range by auto
  have "Pwrite P fd d (int off) g = Ok (int (length d), g\<lparr> gworld := w \<rparr>)"
    using F(1,4,5) w(1) by (simp add: Pwrite_def bnd_getFile with_store_def MemFile_WriteAt_def)
  with F w(2,3) show ?thesis by (auto simp: file_at_def only_file_def)
qed

lemma Pread_run:
  assumes f: "file_at view ds fd acc n pos c g"
    and range: "off + length d < 2 ^ 63" "few off (length d)"
  shows "\<exists>g'. Pread P fd d (int off) g = Ok ((int (min (length d) (length c - off)),
      overwrite 0 0 (take (length d) (drop off c)) d), g') \<and>
    file_at view ds fd acc n pos c g' \<and> only_file view fd n g g'"
proof -
  from f obtain f fs where F: "fdFileMap g fd = Some f" "of_access f = acc"
    "of_file f = \<lparr> mf_path = n, mf_offset = int pos \<rparr>" "map_of (gmounts g) (of_mount f) = Some fs"
    "dataStore fs = ds" "file_holds ds (wview view (gworld g)) n c" by (rule file_atE)
  let ?k = "min (length d) (length c - off)"
  let ?e = "if length c - off < length d then Some goerr.EOF else None"
  let ?d = "overwrite 0 0 (take (length d) (drop off c)) d"
  obtain w where w: "readAt (gp_run P) ds (of_file f) d (int off) (gworld g) = Ok ((int ?k, ?e, ?d), w)"
    "file_holds ds (wview view w) n c" "same_except n (wview view (gworld g)) (wview view w)"
    using readAt_run [of "gworld g" "of_file f" c off d] F(3,6) range by auto
  have "\<not> not_eof ?e" by (simp add: not_eof_def)
  then have "Pread P fd d (int off) g = Ok ((int ?k, ?d), g\<lparr> gworld := w \<rparr>)"
    using F(1,4,5) w(1)
    by (simp add: Pread_def bnd_getFile bnd_with_store [where x = "(int ?k, ?e, ?d)" and w = w]
        MemFile_ReadAt_def return_def)
  with F w(2,3) show ?thesis by (auto simp: file_at_def only_file_def)
qed

lemma Writev_run:
  assumes f: "file_at view ds fd acc n off c g"
    and range: "off \<le> length c" "off + length (concat dv) < 2 ^ 63" "few off (length (concat dv))"
  shows "\<exists>g'. Writev P fd dv g = Ok (int (length (concat dv)), g') \<and>
    file_at view ds fd acc n (off + length (concat dv)) (overwrite 0 off (concat dv) c) g' \<and>
    only_file view fd n g g'"
proof -
  from f obtain f fs where F: "fdFileMap g fd = Some f" "of_access f = acc"
    "of_file f = \<lparr> mf_path = n, mf_offset = int off \<rparr>" "map_of (gmounts g) (of_mount f) = Some fs"
    "dataStore fs = ds" "file_holds ds (wview view (gworld g)) n c" by (rule file_atE)
  let ?n = "length (concat dv)"
  have "file_holds ds (wview view (gworld g)) (mf_path (of_file f)) c" using F(3,6) by simp
  from writeVecAt_loop_run [OF this range, of 0] F(3) range(2) obtain w where
    w: "writeVecAt_loop (gp_run P) ds (of_file f) dv (int off) 0 (gworld g) = Ok (int ?n, w)"
    "file_holds ds (wview view w) n (overwrite 0 off (concat dv) c)"
    "same_except n (wview view (gworld g)) (wview view w)" by auto
  let ?mf = "\<lparr> mf_path = n, mf_offset = int (off + ?n) \<rparr>"
  have i: "i64 (int off + int ?n) = int (off + ?n)"
    using range(2) by (subst i64_nonneg) simp_all
  have "MemFile_WriteVec (gp_run P) ds (of_file f) dv (gworld g) = Ok ((int ?n, ?mf), w)"
    using F(3) w(1) i by (simp add: MemFile_WriteVec_def writeVecAt_def bnd_def return_def)
  with F(1,4,5) have "Writev P fd dv g = Ok (int ?n, moved fd f ?mf w g)"
    by (simp add: Writev_def bnd_getFile bnd_with_store [where x = "(int ?n, ?mf)" and w = w]
        bnd_set_file return_def)
  moreover have "file_at view ds fd acc n (off + ?n) (overwrite 0 off (concat dv) c) (moved fd f ?mf w g)"
    using F w(2) by (intro moved_file_at) simp_all
  ultimately show ?thesis using moved_only [OF F(1) w(3)] by blast
qed

lemma Readv_run:
  assumes f: "file_at view ds fd acc n off c g"
    and range: "off + length (concat dv) < 2 ^ 63" "few off (length (concat dv))"
  shows "\<exists>g'. Readv P fd dv g = Ok ((int (min (length (concat dv)) (length c - off)),
      scatter c off dv), g') \<and>
    file_at view ds fd acc n (off + min (length (concat dv)) (length c - off)) c g' \<and>
    only_file view fd n g g'"
proof -
  from f obtain f fs where F: "fdFileMap g fd = Some f" "of_access f = acc"
    "of_file f = \<lparr> mf_path = n, mf_offset = int off \<rparr>" "map_of (gmounts g) (of_mount f) = Some fs"
    "dataStore fs = ds" "file_holds ds (wview view (gworld g)) n c" by (rule file_atE)
  let ?k = "min (length (concat dv)) (length c - off)"
  let ?e = "if length c - off < length (concat dv) then Some goerr.EOF else None"
  have "file_holds ds (wview view (gworld g)) (mf_path (of_file f)) c" using F(3,6) by simp
  from readVecAt_loop_run [OF this range, of 0] F(3) range(1) obtain w where
    w: "readVecAt_loop (gp_run P) ds (of_file f) dv (int off) 0 (gworld g) =
        Ok ((int ?k, ?e, scatter c off dv), w)"
    "file_holds ds (wview view w) n c" "same_except n (wview view (gworld g)) (wview view w)" by auto
  let ?mf = "\<lparr> mf_path = n, mf_offset = int (off + ?k) \<rparr>"
  have i: "i64 (int off + int ?k) = int (off + ?k)"
    using range(1) by (subst i64_nonneg) simp_all
  have "MemFile_ReadVec (gp_run P) ds (of_file f) dv (gworld g) = Ok ((int ?k, ?e, scatter c off dv, ?mf), w)"
    using F(3) w(1) i by (simp add: MemFile_ReadVec_def readVecAt_def bnd_def return_def)
  moreover have "\<not> not_eof ?e" by (simp add: not_eof_def)
  ultimately have "Readv P fd dv g = Ok ((int ?k, scatter c off dv), moved fd f ?mf w g)"
    using F(1,4,5)
    by (simp add: Readv_def bnd_getFile bnd_set_file return_def
        bnd_with_store [where x = "(int ?k, ?e, scatter c off dv, ?mf)" and w = w])
  moreover have "file_at view ds fd acc n (off + ?k) c (moved fd f ?mf w g)"
    using F w(2) by (intro moved_file_at) simp_all
  ultimately show ?thesis using moved_only [OF F(1) w(3)] by blast
qed

text \<open>The position \<open>whence\<close> and \<open>offset\<close> ask for.\<close>

lemma Lseek_run:
  assumes f: "file_at view ds fd acc n off c g" and range: "length c < 2 ^ 63" "off < 2 ^ 63" "k < 2 ^ 63"
    and target: "whence = 0 \<and> offset = int k \<or> whence = 1 \<and> int off + offset = int k \<or>
      whence = 2 \<and> int (length c) + offset = int k"
  shows "\<exists>g'. Lseek P fd offset whence g = Ok (int k, g') \<and>
    file_at view ds fd acc n k c g' \<and> only_file view fd n g g'"
proof -
  from f obtain f fs where F: "fdFileMap g fd = Some f" "of_access f = acc"
    "of_file f = \<lparr> mf_path = n, mf_offset = int off \<rparr>" "map_of (gmounts g) (of_mount f) = Some fs"
    "dataStore fs = ds" "file_holds ds (wview view (gworld g)) n c" by (rule file_atE)
  let ?mf = "\<lparr> mf_path = n, mf_offset = int k \<rparr>"
  have k: "i64 (int k) = int k" using range(3) by (subst i64_nonneg) simp_all
  obtain ws where ws: "GetSize (gp_run P) ds n (gworld g) = Ok (int (length c), ws)"
    "file_holds ds (wview view ws) n c" "same_except n (wview view (gworld g)) (wview view ws)"
    using size_law [OF F(6) range(1)] by blast
  have "\<exists>w. MemFile_Seek (gp_run P) ds (of_file f) offset whence (gworld g) = Ok ((int k, None, ?mf), w) \<and>
      file_holds ds (wview view w) n c \<and> same_except n (wview view (gworld g)) (wview view w)"
    using target
  proof (elim disjE conjE)
    assume "whence = 2" "int (length c) + offset = int k"
    then show ?thesis using F(3) ws k
      by (intro exI [of _ ws]) (simp add: MemFile_Seek_def MemFile_Size_def bnd_def return_def)
  qed (use F(3,6) k in \<open>auto simp: MemFile_Seek_def bnd_def return_def\<close>)
  then obtain w where w: "MemFile_Seek (gp_run P) ds (of_file f) offset whence (gworld g) = Ok ((int k, None, ?mf), w)"
    "file_holds ds (wview view w) n c" "same_except n (wview view (gworld g)) (wview view w)" by blast
  have "Lseek P fd offset whence g = Ok (int k, moved fd f ?mf w g)"
    using F(1,4,5) w(1)
    by (simp add: Lseek_def bnd_getFile bnd_with_store [where x = "(int k, None, ?mf)" and w = w]
        bnd_set_file return_def)
  moreover have "file_at view ds fd acc n k c (moved fd f ?mf w g)"
    using F w(2) by (intro moved_file_at) simp_all
  ultimately show ?thesis using moved_only [OF F(1) w(3)] by blast
qed

lemma Ftruncate_run:
  assumes f: "file_at view ds fd acc n pos c g" and range: "length c < 2 ^ 63" "k < 2 ^ 63"
    and k: "k < length c \<or> length c < k \<and> length c mod nat (stripeSize ds) = 0"
  shows "\<exists>g'. Ftruncate P fd (int k) g = Ok (0, g') \<and>
    file_at view ds fd acc n pos (take k c @ replicate (k - length c) 0) g' \<and> only_file view fd n g g'"
proof -
  from f obtain f fs where F: "fdFileMap g fd = Some f" "of_access f = acc"
    "of_file f = \<lparr> mf_path = n, mf_offset = int pos \<rparr>" "map_of (gmounts g) (of_mount f) = Some fs"
    "dataStore fs = ds" "file_holds ds (wview view (gworld g)) n c" by (rule file_atE)
  obtain w where w: "Resize (gp_run P) ds n (int k) (gworld g) = Ok ((), w)"
    "file_holds ds (wview view w) n (take k c @ replicate (k - length c) 0)"
    "same_except n (wview view (gworld g)) (wview view w)"
    using k shrink_law [OF F(6) range(1), of k] grow_law [OF F(6) range(2)] by auto
  have "Ftruncate P fd (int k) g = Ok (0, g\<lparr> gworld := w \<rparr>)"
    using F(1,3,4,5) w(1)
    by (simp add: Ftruncate_def bnd_getFile return_def MemFile_Truncate_def
        bnd_with_store [where x = None and w = w] bnd_Ok)
  with F w(2,3) show ?thesis by (auto simp: file_at_def only_file_def)
qed

lemma Close_run:
  assumes "file_at view ds fd acc n off c g"
  shows "Close fd g = Ok (0, g\<lparr> fdFileMap := (fdFileMap g)(fd := None) \<rparr>)"
  using assms
  by (auto simp: Close_def bnd_getFile removeFd_def bnd_assoc return_def elim!: file_atE)

lemma few_one [simp]: "few off (Suc 0)"
  by (simp add: few_stripes_def)

end

text \<open>A file read byte by byte is a source of bytes for the C layer's streams.\<close>

definition positioned ::
  "('d \<Rightarrow> keyspace) \<Rightarrow> DataStore \<Rightarrow> int \<Rightarrow> string \<Rightarrow> bytes \<Rightarrow> 'd gostate \<Rightarrow> bytes \<Rightarrow> bool" where
  "positioned view ds fd n c g bs \<longleftrightarrow> length c + 1 < 2 ^ 63 \<and>
     (\<exists>acc off. acc \<noteq> WrOnly \<and> off \<le> length c \<and> file_at view ds fd acc n off c g \<and> bs = drop off c)"

end
