(* ===== verification/Stack.thy ===== *)
theory Stack
  imports GoFiles Blocks
begin

text \<open>
  The whole stack: the functions of \<open>src/c/pdwfs.c\<close> running on the Go layer of
  \<open>src/go/pdwfs.go\<close>, whose files are striped over Redis. A descriptor the C layer manages is, to
  the program, an offset into a byte array; a stream on it is a source of bytes for \<open>getdelim\<close>.
\<close>

section \<open>The Go layer as the C layer calls it\<close>

lemma pdwfs_go_sel [simp]:
  "InitPdwfs_go (pdwfs_go P) = InitPdwfs P" "GetErrno_go (pdwfs_go P) = GetErrno"
  "Open_go (pdwfs_go P) = Open P" "Fopen_go (pdwfs_go P) = Fopen P" "Close_go (pdwfs_go P) = Close"
  "Write_go (pdwfs_go P) = Write P" "Read_go (pdwfs_go P) = Read P"
  "Pwrite_go (pdwfs_go P) = Pwrite P" "Pread_go (pdwfs_go P) = Pread P"
  "Writev_go (pdwfs_go P) = Writev P" "Readv_go (pdwfs_go P) = Readv P"
  "Lseek_go (pdwfs_go P) = Lseek P" "Ftruncate_go (pdwfs_go P) = Ftruncate P"
  by (simp_all add: pdwfs_go_def)

text \<open>Reading a file to its end one byte at a time.\<close>

sublocale go_files \<subseteq> lines: byte_source "pdwfs_go P" fd "positioned view ds fd n c" for fd n c
proof unfold_locales
  fix g b bs and x :: byte
  assume "positioned view ds fd n c g (b # bs)"
  then obtain acc off where A: "length c + 1 < 2 ^ 63" "acc \<noteq> WrOnly" "off \<le> length c"
    "file_at view ds fd acc n off c g" and d: "drop off c = b # bs"
    unfolding positioned_def by metis
  have off: "off < length c" using d by (metis drop_all length_greater_0_conv list.distinct(1) not_le drop_eq_Nil)
  obtain g' where "Read P fd [x] g = Ok ((int (min 1 (length c - off)), overwrite 0 0 (take 1 (drop off c)) [x]), g')"
    and g': "file_at view ds fd acc n (off + min 1 (length c - off)) c g'"
    using Read_run [OF A(4,2), of "[x]"] A(1,3) by auto
  moreover have "min 1 (length c - off) = 1" using off by simp
  moreover have "overwrite 0 0 (take 1 (drop off c)) [x] = [b]" unfolding d by (simp add: overwrite_def)
  moreover have "bs = drop (off + 1) c" using d by (metis Suc_eq_plus1 drop_Suc drop_drop list.sel(3) plus_1_eq_Suc tl_drop)
  ultimately show "\<exists>g'. Read_go (pdwfs_go P) fd [x] g = Ok ((1, [b]), g') \<and> positioned view ds fd n c g' bs"
    using A off by (intro exI [of _ g']) (auto simp: positioned_def intro!: exI [of _ acc] exI [of _ "off + 1"])
next
  fix g and x :: byte
  assume "positioned view ds fd n c g []"
  then obtain acc off where A: "length c + 1 < 2 ^ 63" "acc \<noteq> WrOnly" "off = length c"
    "file_at view ds fd acc n off c g"
    by (auto simp: positioned_def)
  obtain g' where "Read P fd [x] g = Ok ((0, [x]), g')" "file_at view ds fd acc n off c g'"
    using Read_run [OF A(4,2), of "[x]"] A(1,3) by auto
  then show "\<exists>g'. Read_go (pdwfs_go P) fd [x] g = Ok ((0, [x]), g') \<and> positioned view ds fd n c g' []"
    using A by (intro exI [of _ g']) (auto simp: positioned_def intro!: exI [of _ acc] exI [of _ off])
qed

section \<open>Reading and writing a managed descriptor\<close>

lemma store_run:
  assumes "heap (os s) b = Some v" and "i + length d \<le> length v"
  shows "store (At b i) d s =
    Ok ((), s\<lparr> os := (os s)\<lparr> heap := (heap (os s))(b \<mapsto> overwrite 0 i d v) \<rparr> \<rparr>)"
proof (cases "d = []")
  case True
  then have "overwrite 0 i d v = v" using assms(2) by (simp add: overwrite_Nil_inside)
  with True assms(1) show ?thesis by (simp add: store_def return_def fun_upd_idem)
next
  case False
  with assms show ?thesis by (simp add: store_def upd_os_def modify_def)
qed

lemma c_write_run:
  assumes m: "fd_managed s fd" and h: "heap (os s) b = Some v" and k: "i + k \<le> length v"
    and go: "Write_go G fd (take k (drop i v)) (golang s) = Ok (r, g)"
  shows "c_write E G fd (At b i) (int k) s = Ok (CInt r, (traced E ''write'' s)\<lparr> golang := g \<rparr>)"
proof -
  have ld: "load (At b i) k (traced E ''write'' s) = Ok (take k (drop i v), traced E ''write'' s)"
    by (rule load_run) (use h k in simp_all)
  show ?thesis using m go
    by (simp add: c_write_def go_int_def bnd_Ok [where m = "load (At b i) k", OF ld]
        bnd_go_call_Ok [of _ _ r g] return_run)
qed

lemma c_read_run:
  assumes m: "fd_managed s fd" and h: "heap (os s) b = Some v" and k: "i + k \<le> length v"
    and go: "Read_go G fd (take k (drop i v)) (golang s) = Ok ((r, d), g)" and d: "length d = k"
  shows "c_read E G fd (At b i) (int k) s = Ok (CInt r, (traced E ''read'' s)\<lparr> golang := g,
    os := (os s)\<lparr> heap := (heap (os s))(b \<mapsto> overwrite 0 i d v) \<rparr> \<rparr>)"
proof -
  have ld: "load (At b i) k (traced E ''read'' s) = Ok (take k (drop i v), traced E ''read'' s)"
    by (rule load_run) (use h k in simp_all)
  have st: "store (At b i) d ((traced E ''read'' s)\<lparr> golang := g \<rparr>) =
      Ok ((), (traced E ''read'' s)\<lparr> golang := g,
        os := (os s)\<lparr> heap := (heap (os s))(b \<mapsto> overwrite 0 i d v) \<rparr> \<rparr>)"
    using store_run [of "(traced E ''read'' s)\<lparr> golang := g \<rparr>" b v i d] h k d by simp
  show ?thesis using m go
    by (simp add: c_read_def go_fill_def bnd_Ok [where m = "load (At b i) k", OF ld]
        bnd_go_call_Ok [of _ _ "(r, d)" g] bnd_Ok [where m = "store _ _", OF st] return_run)
qed

lemma c_lseek_run:
  assumes "fd_managed s fd" and "Lseek_go G fd offset whence (golang s) = Ok (r, g)"
  shows "c_lseek E G fd offset whence s = Ok (CInt r, (traced E ''lseek'' s)\<lparr> golang := g \<rparr>)"
  using assms by (simp add: c_lseek_def go_int_def bnd_go_call_Ok [of _ _ r g] return_run)

context go_files
begin

lemma stack_write:
  assumes m: "fd_managed s fd" and h: "heap (os s) b = Some v" and k: "i + k \<le> length v"
    and f: "file_at view ds fd acc n off c (golang s)" and acc: "acc \<noteq> RdOnly"
    and range: "off \<le> length c" "off + k < 2 ^ 63" "few off k"
  shows "\<exists>s'. c_write E (pdwfs_go P) fd (At b i) (int k) s = Ok (CInt (int k), s') \<and>
    file_at view ds fd acc n (off + k) (overwrite 0 off (take k (drop i v)) c) (golang s') \<and>
    only_file view fd n (golang s) (golang s') \<and> os s' = os s \<and> keeps s s'"
proof -
  have l: "length (take k (drop i v)) = k" using k by simp
  from Write_run [OF f acc range(1), of "take k (drop i v)", unfolded l, OF range(2,3)]
  obtain g where g: "Write P fd (take k (drop i v)) (golang s) = Ok (int k, g)"
    "file_at view ds fd acc n (off + k) (overwrite 0 off (take k (drop i v)) c) g"
    "only_file view fd n (golang s) g" by blast
  have "c_write E (pdwfs_go P) fd (At b i) (int k) s =
      Ok (CInt (int k), (traced E ''write'' s)\<lparr> golang := g \<rparr>)"
    by (rule c_write_run [OF m h k]) (simp add: g(1))
  with g(2,3) show ?thesis by (simp add: keeps_def)
qed

lemma stack_read:
  assumes m: "fd_managed s fd" and h: "heap (os s) b = Some v" and k: "i + k \<le> length v"
    and f: "file_at view ds fd acc n off c (golang s)" and acc: "acc \<noteq> WrOnly"
    and range: "off + k < 2 ^ 63" "few off k"
  shows "\<exists>s'. c_read E (pdwfs_go P) fd (At b i) (int k) s = Ok (CInt (int (min k (length c - off))), s') \<and>
    file_at view ds fd acc n (off + min k (length c - off)) c (golang s') \<and>
    only_file view fd n (golang s) (golang s') \<and>
    os s' = (os s)\<lparr> heap := (heap (os s))(b \<mapsto> overwrite 0 i (take k (drop off c)) v) \<rparr> \<and> keeps s s'"
proof -
  let ?d = "take k (drop i v)"
  let ?e = "overwrite 0 0 (take k (drop off c)) ?d"
  have l: "length ?d = k" using k by simp
  from Read_run [OF f acc, of ?d, unfolded l, OF range] obtain g where
    g: "Read P fd ?d (golang s) = Ok ((int (min k (length c - off)), ?e), g)"
    "file_at view ds fd acc n (off + min k (length c - off)) c g" "only_file view fd n (golang s) g" by blast
  have "length ?e = k" using k by simp
  from c_read_run [OF m h k _ this, of "pdwfs_go P" _ g E] g(1)
  have "c_read E (pdwfs_go P) fd (At b i) (int k) s = Ok (CInt (int (min k (length c - off))),
      (traced E ''read'' s)\<lparr> golang := g, os := (os s)\<lparr> heap := (heap (os s))(b \<mapsto> overwrite 0 i ?e v) \<rparr> \<rparr>)"
    by simp
  moreover have "overwrite 0 i ?e v = overwrite 0 i (take k (drop off c)) v"
  proof (rule nth_equalityI)
    fix j assume "j < length (overwrite 0 i ?e v)"
    then show "overwrite 0 i ?e v ! j = overwrite 0 i (take k (drop off c)) v ! j"
      using k by (auto simp: nth_overwrite)
  qed (use k in simp)
  ultimately show ?thesis using g(2,3) by (simp add: keeps_def)
qed

lemma file_source: "byte_source (pdwfs_go P) fd (positioned view ds fd n c)"
  by (rule lines.byte_source_axioms)

end

section \<open>A concrete stack\<close>

text \<open>
  The process of \<open>Lines\<close> on the Go layer with the mount \<open>/home/run\<close>, where descriptor 5 is
  open on \<open>/home/run/a\<close>, on two Redis instances and stripes of four bytes.
\<close>

definition demo_proc :: "ref_db goproc" where
  "demo_proc = \<lparr> gp_run = demo_runtime, gp_cwd = ''/home'', gp_depth = 10,
     gp_env = \<lparr> conf_file = ([], []), PDWFS_REDIS = ''a:6379,b:6379'', PDWFS_MOUNTPATH = ''run'',
       PDWFS_STRIPESIZE = [] \<rparr> \<rparr>"

definition demo_gostate :: "ref_db world \<Rightarrow> File_access \<Rightarrow> nat \<Rightarrow> ref_db gostate" where
  "demo_gostate w acc off = \<lparr> gworld = w,
     gmounts = [(''/home/run'', \<lparr> fs_path = ''/home/run'', dataStore = demo_store, inodes = (\<lambda>_. None) \<rparr>)],
     fdFileMap = [5 \<mapsto> \<lparr> of_mount = ''/home/run'', of_access = acc,
       of_file = \<lparr> mf_path = ''/home/run/a'', mf_offset = int off \<rparr> \<rparr>], go_errno = 0 \<rparr>"

lemma demo_run [simp]: "gp_run demo_proc = demo_runtime"
  by (simp add: demo_proc_def)

lemma go_files_of:
  "redis_server (server (gp_run P)) view \<Longrightarrow> store_ok ds \<Longrightarrow> go_files P view ds"
  by (simp add: go_files_def redis_store_def redis_store_axioms_def)

lemma demo_go_server: "redis_server (server (gp_run demo_proc)) ref_view"
  by (simp add: demo_server)

interpretation stack_demo: go_files demo_proc ref_view demo_store
  by (rule go_files_of [OF demo_go_server demo_store_ok])

lemma demo_file_at:
  "file_holds demo_store (wview ref_view w) ''/home/run/a'' c \<Longrightarrow>
     file_at ref_view demo_store 5 acc ''/home/run/a'' off c (demo_gostate w acc off)"
  by (simp add: file_at_def demo_gostate_def)

lemma demo_stream_sel [simp]:
  "golang (demo_stream g v) = g" "heap (os (demo_stream g v)) 9 = Some v"
  "fd_managed (demo_stream g v) 5"
  by (simp_all add: demo_stream_def fd_managed_def demo_cstate_def IS_STD_FD_def)

section \<open>What a program sees\<close>

text \<open>
  C2. \<open>write\<close> on a managed descriptor, through the C layer, the Go layer and the striped store:
  on every lawful Redis it returns the number of bytes asked for, the file is its old contents
  overwritten at the current offset, the offset moves behind the data, the process's memory and
  \<open>errno\<close> are untouched, and no other descriptor and no other file changes. The write starts
  inside or at the end of the file, the descriptor is not read-only, and at most 100 stripes are
  touched.
\<close>

theorem write_descriptor:
  assumes "redis_server (server (gp_run P)) view" and "store_ok ds"
    and "fd_managed s fd" and "heap (os s) b = Some v" and "i + k \<le> length v"
    and "file_at view ds fd acc n off c (golang s)" and "acc \<noteq> RdOnly"
    and "off \<le> length c" and "off + k < 2 ^ 63" and "few_stripes (nat (stripeSize ds)) off k"
  shows "\<exists>s'. c_write E (pdwfs_go P) fd (At b i) (int k) s = Ok (CInt (int k), s') \<and>
    file_at view ds fd acc n (off + k) (overwrite 0 off (take k (drop i v)) c) (golang s') \<and>
    only_file view fd n (golang s) (golang s') \<and> os s' = os s \<and> keeps s s'"
  using go_files.stack_write [OF go_files_of [OF assms(1,2)] assms(3-10)] .

lemma write_descriptor_witness:
  "\<exists>w s'. file_holds demo_store (wview ref_view w) ''/home/run/a'' [1, 2, 3, 4, 5] \<and>
    c_write demo_env (pdwfs_go demo_proc) 5 (At 9 1) 4
      (demo_stream (demo_gostate w RdWr 3) [0, 6, 7, 8, 9]) = Ok (CInt 4, s') \<and>
    file_at ref_view demo_store 5 RdWr ''/home/run/a'' 7 [1, 2, 3, 6, 7, 8, 9] (golang s')"
proof -
  obtain w where w: "file_holds demo_store (wview ref_view w) ''/home/run/a'' [1, 2, 3, 4, 5]"
    using demo_file [of "[1, 2, 3, 4, 5]"] by auto
  let ?s = "demo_stream (demo_gostate w RdWr 3) [0, 6, 7, 8, 9]"
  have f: "file_at ref_view demo_store 5 RdWr ''/home/run/a'' 3 [1, 2, 3, 4, 5] (golang ?s)"
    using demo_file_at [OF w] by simp
  have r: "RdWr \<noteq> RdOnly" "1 + 4 \<le> length [0, 6, 7, 8, 9 :: byte]" "3 \<le> length [1, 2, 3, 4, 5 :: byte]"
    "3 + (4 :: nat) < 2 ^ 63" "few_stripes (nat (stripeSize demo_store)) 3 4"
    by (simp_all add: few_stripes_def)
  have o: "overwrite 0 3 (take 4 (drop 1 [0, 6, 7, 8, 9])) [1, 2, 3, 4, 5] = [1, 2, 3, 6, 7, 8, 9 :: byte]"
    by code_simp
  from write_descriptor [OF demo_go_server demo_store_ok demo_stream_sel(3,2) r(2) f r(1,3-5),
      of demo_env, unfolded o] w
  show ?thesis by (intro exI [of _ w]) auto
qed

text \<open>
  C3. \<open>read\<close> on a managed descriptor returns how many bytes the file still has, up to the number
  asked for, puts exactly these bytes into the caller's buffer, leaves the rest of the buffer and
  of the memory alone, and advances the offset by what it returned; the file is unchanged.
\<close>

theorem read_descriptor:
  assumes "redis_server (server (gp_run P)) view" and "store_ok ds"
    and "fd_managed s fd" and "heap (os s) b = Some v" and "i + k \<le> length v"
    and "file_at view ds fd acc n off c (golang s)" and "acc \<noteq> WrOnly"
    and "off + k < 2 ^ 63" and "few_stripes (nat (stripeSize ds)) off k"
  shows "\<exists>s'. c_read E (pdwfs_go P) fd (At b i) (int k) s = Ok (CInt (int (min k (length c - off))), s') \<and>
    file_at view ds fd acc n (off + min k (length c - off)) c (golang s') \<and>
    only_file view fd n (golang s) (golang s') \<and>
    os s' = (os s)\<lparr> heap := (heap (os s))(b \<mapsto> overwrite 0 i (take k (drop off c)) v) \<rparr> \<and> keeps s s'"
  using go_files.stack_read [OF go_files_of [OF assms(1,2)] assms(3-9)] .

lemma read_descriptor_witness:
  "\<exists>w s'. c_read demo_env (pdwfs_go demo_proc) 5 (At 9 1) 4
      (demo_stream (demo_gostate w RdOnly 3) [0, 6, 7, 8, 9]) = Ok (CInt 2, s') \<and>
    heap (os s') 9 = Some [0, 4, 5, 8, 9]"
proof -
  obtain w where w: "file_holds demo_store (wview ref_view w) ''/home/run/a'' [1, 2, 3, 4, 5]"
    using demo_file [of "[1, 2, 3, 4, 5]"] by auto
  let ?s = "demo_stream (demo_gostate w RdOnly 3) [0, 6, 7, 8, 9]"
  have f: "file_at ref_view demo_store 5 RdOnly ''/home/run/a'' 3 [1, 2, 3, 4, 5] (golang ?s)"
    using demo_file_at [OF w] by simp
  have r: "RdOnly \<noteq> WrOnly" "1 + 4 \<le> length [0, 6, 7, 8, 9 :: byte]"
    "3 + (4 :: nat) < 2 ^ 63" "few_stripes (nat (stripeSize demo_store)) 3 4"
    by (simp_all add: few_stripes_def)
  from read_descriptor [OF demo_go_server demo_store_ok demo_stream_sel(3,2) r(2) f r(1,3,4),
      of demo_env] obtain s' where
    s': "c_read demo_env (pdwfs_go demo_proc) 5 (At 9 1) (int 4) ?s =
        Ok (CInt (int (min 4 (length [1, 2, 3, 4, 5 :: byte] - 3))), s')"
      "os s' = (os ?s)\<lparr> heap := (heap (os ?s))(9 \<mapsto>
        overwrite 0 1 (take 4 (drop 3 [1, 2, 3, 4, 5])) [0, 6, 7, 8, 9]) \<rparr>" by blast
  have "overwrite 0 1 (take 4 (drop 3 [1, 2, 3, 4, 5])) [0, 6, 7, 8, 9 :: byte] = [0, 4, 5, 8, 9]"
    by code_simp
  with s' show ?thesis by (intro exI [of _ w] exI [of _ s']) simp
qed

text \<open>Writing, going back, and reading into another block.\<close>

definition write_seek_read ::
  "'s cenv \<Rightarrow> 'g golayer \<Rightarrow> int \<Rightarrow> cptr \<Rightarrow> cptr \<Rightarrow> nat \<Rightarrow> nat \<Rightarrow> (('g, 's) cstate, cval) prog" where
  "write_seek_read E G fd src dst k off =
     bnd (c_write E G fd src (int k)) (\<lambda>_.
     bnd (c_lseek E G fd (int off) SEEK_SET) (\<lambda>_.
       c_read E G fd dst (int k)))"

text \<open>
  C4. What was written comes back: after \<open>write\<close> of a buffer, \<open>lseek\<close> to where it was
  written and \<open>read\<close> of as many bytes, the other buffer holds the bytes of the first one, all of
  them were read, and the file is the old one overwritten.
\<close>

theorem write_seek_read_back:
  assumes "redis_server (server (gp_run P)) view" and "store_ok ds"
    and m: "fd_managed s fd" and h: "heap (os s) b = Some v" "i + k \<le> length v"
    and h': "heap (os s) b' = Some v'" "j + k \<le> length v'"
    and f: "file_at view ds fd RdWr n off c (golang s)"
    and range: "off \<le> length c" "off + k < 2 ^ 63" "length c < 2 ^ 63"
    and few: "few_stripes (nat (stripeSize ds)) off k"
  shows "\<exists>s' v''. write_seek_read E (pdwfs_go P) fd (At b i) (At b' j) k off s = Ok (CInt (int k), s') \<and>
    heap (os s') b' = Some v'' \<and> take k (drop j v'') = take k (drop i v) \<and>
    file_at view ds fd RdWr n (off + k) (overwrite 0 off (take k (drop i v)) c) (golang s')"
proof -
  note go = go_files_of [OF assms(1,2)]
  let ?d = "take k (drop i v)" and ?c = "overwrite 0 off (take k (drop i v)) c"
  have ld: "length ?d = k" and lc: "length ?c = max (length c) (off + k)" using h(2) by simp_all
  have acc: "RdWr \<noteq> RdOnly" "RdWr \<noteq> WrOnly" by simp_all
  obtain s1 where s1: "c_write E (pdwfs_go P) fd (At b i) (int k) s = Ok (CInt (int k), s1)"
    "file_at view ds fd RdWr n (off + k) ?c (golang s1)" "os s1 = os s" "keeps s s1"
    using go_files.stack_write [OF go m h f acc(1) range(1,2) few] by blast
  have m1: "fd_managed s1 fd" using m s1(4) by (simp add: fd_managed_def keeps_def)
  have lt: "length ?c < 2 ^ 63" "off < 2 ^ 63" using range lc by simp_all
  obtain g2 where g2: "Lseek P fd (int off) 0 (golang s1) = Ok (int off, g2)"
    "file_at view ds fd RdWr n off ?c g2"
    using go_files.Lseek_run [OF go s1(2) lt(1) range(2) lt(2), of 0 "int off"] by auto
  let ?s2 = "(traced E ''lseek'' s1)\<lparr> golang := g2 \<rparr>"
  have sk: "c_lseek E (pdwfs_go P) fd (int off) SEEK_SET s1 = Ok (CInt (int off), ?s2)"
    by (rule c_lseek_run) (simp_all add: m1 SEEK_SET_def g2(1))
  have f2: "file_at view ds fd RdWr n off ?c (golang ?s2)" and m2: "fd_managed ?s2 fd"
    and h2: "heap (os ?s2) b' = Some v'" using g2(2) m1 h'(1) s1(3) by (simp_all add: fd_managed_def)
  obtain s3 where s3: "c_read E (pdwfs_go P) fd (At b' j) (int k) ?s2 = Ok (CInt (int (min k (length ?c - off))), s3)"
    "file_at view ds fd RdWr n (off + min k (length ?c - off)) ?c (golang s3)"
    "os s3 = (os ?s2)\<lparr> heap := (heap (os ?s2))(b' \<mapsto> overwrite 0 j (take k (drop off ?c)) v') \<rparr>"
    using go_files.stack_read [OF go m2 h2 h'(2) f2 acc(2) range(2) few] by blast
  have k: "min k (length ?c - off) = k" using lc by simp
  have rb: "take k (drop off ?c) = ?d"
    using range(1) ld by (simp add: overwrite_def)
  have "take k (drop j (overwrite 0 j ?d v')) = ?d"
    using h'(2) ld by (simp add: overwrite_def)
  then show ?thesis
    using s1(1) sk s3 k rb
    by (intro exI [of _ s3] exI [of _ "overwrite 0 j ?d v'"])
      (simp add: write_seek_read_def bnd_Ok [where m = "c_write E (pdwfs_go P) fd (At b i) (int k)"]
        bnd_Ok [where m = "c_lseek E (pdwfs_go P) fd (int off) SEEK_SET"])
qed

lemma write_seek_read_back_witness:
  "\<exists>w s' v''. write_seek_read demo_env (pdwfs_go demo_proc) 5 (At 9 0) (At 9 4) 3 1
      (demo_stream (demo_gostate w RdWr 1) [6, 7, 8, 9, 0, 0, 0]) = Ok (CInt 3, s') \<and>
    heap (os s') 9 = Some v'' \<and> take 3 (drop 4 v'') = [6, 7, 8]"
proof -
  obtain w where w: "file_holds demo_store (wview ref_view w) ''/home/run/a'' [1, 2]"
    using demo_file [of "[1, 2]"] by auto
  let ?v = "[6, 7, 8, 9, 0, 0, 0] :: bytes"
  let ?s = "demo_stream (demo_gostate w RdWr 1) ?v"
  have f: "file_at ref_view demo_store 5 RdWr ''/home/run/a'' 1 [1, 2] (golang ?s)"
    using demo_file_at [OF w] by simp
  have r: "0 + 3 \<le> length ?v" "4 + 3 \<le> length ?v" "1 \<le> length [1, 2 :: byte]"
    "1 + (3 :: nat) < 2 ^ 63" "length [1, 2 :: byte] < 2 ^ 63"
    "few_stripes (nat (stripeSize demo_store)) 1 3" "take 3 (drop 0 ?v) = [6, 7, 8]"
    by (simp_all add: few_stripes_def)
  from write_seek_read_back [OF demo_go_server demo_store_ok demo_stream_sel(3,2) r(1)
      demo_stream_sel(2) r(2) f r(3-6), of demo_env, unfolded r(7)]
  show ?thesis by auto
qed



section \<open>Errors\<close>

lemma Write_readonly:
  assumes "file_at view ds fd RdOnly n off c g"
  shows "\<exists>f w. Write P fd d g = Ok (- 1, (moved fd f \<lparr> mf_path = n, mf_offset = int off \<rparr> w g)\<lparr> go_errno := 9 \<rparr>) \<and>
    fdFileMap g fd = Some f \<and> w = gworld g \<and>
    file_at view ds fd RdOnly n off c ((moved fd f \<lparr> mf_path = n, mf_offset = int off \<rparr> w g)\<lparr> go_errno := 9 \<rparr>)"
proof -
  from assms obtain f fs where F: "fdFileMap g fd = Some f" "of_access f = RdOnly"
    "of_file f = \<lparr> mf_path = n, mf_offset = int off \<rparr>" "map_of (gmounts g) (of_mount f) = Some fs"
    "dataStore fs = ds" "file_holds ds (wview view (gworld g)) n c" by (rule file_atE)
  then show ?thesis
    by (intro exI [of _ f] exI [of _ "gworld g"])
      (simp add: Write_def bnd_getFile bnd_with_store [where x = "(0, Some ErrReadOnly, of_file f)" and w = "gworld g"]
        File_Write_def return_def set_file_def fail_with_def setErrno_def C_EBADF_def file_at_def moved_def)
qed

text \<open>
  \<open>write\<close> on a descriptor opened read-only returns -1 and leaves the file, the offset and
  the memory as they were. The Go layer notes \<open>EBADF\<close>, but the C layer's \<open>write\<close> never fetches
  it: \<open>errno\<close> keeps the value it had.
\<close>

theorem write_readonly_fails:
  assumes m: "fd_managed s fd" and h: "heap (os s) b = Some v" and k: "i + k \<le> length v"
    and f: "file_at view ds fd RdOnly n off c (golang s)"
  shows "\<exists>s'. c_write E (pdwfs_go P) fd (At b i) (int k) s = Ok (CInt (- 1), s') \<and>
    file_at view ds fd RdOnly n off c (golang s') \<and> GetErrno_go (pdwfs_go P) (golang s') = C_EBADF \<and>
    gworld (golang s') = gworld (golang s) \<and> os s' = os s"
proof -
  obtain g where "Write P fd (take k (drop i v)) (golang s) = Ok (- 1, g)"
    "file_at view ds fd RdOnly n off c g" "go_errno g = 9" "gworld g = gworld (golang s)"
    using Write_readonly [OF f, of P "take k (drop i v)"] by (auto simp: moved_def)
  moreover from this have "c_write E (pdwfs_go P) fd (At b i) (int k) s =
      Ok (CInt (- 1), (traced E ''write'' s)\<lparr> golang := g \<rparr>)"
    by (intro c_write_run [OF m h k]) simp
  ultimately show ?thesis by (simp add: GetErrno_def C_EBADF_def)
qed

lemma write_readonly_fails_witness:
  "\<exists>w s'. c_write demo_env (pdwfs_go demo_proc) 5 (At 9 0) 1
      (demo_stream (demo_gostate w RdOnly 0) [7]) = Ok (CInt (- 1), s') \<and>
    GetErrno_go (pdwfs_go demo_proc) (golang s') = C_EBADF \<and> errno (os s') = 0"
proof -
  let ?s = "demo_stream (demo_gostate demo_world RdOnly 0) [7]"
  have f: "file_at ref_view demo_store 5 RdOnly ''/home/run/a'' 0 [] (golang ?s)"
    using demo_file_at [OF demo_fresh] by simp
  have r: "0 + 1 \<le> length [7 :: byte]" by simp
  have e: "errno (os ?s) = 0" by (simp add: demo_stream_def demo_osw_def)
  from write_readonly_fails [OF demo_stream_sel(3,2) r f, of demo_env demo_proc] e show ?thesis
    by (intro exI [of _ demo_world]) auto
qed

text \<open>
  \<open>pwrite\<close> does not look at the access mode: also on a descriptor opened read-only it
  overwrites the file and returns the number of bytes written, while the offset stays.
\<close>

theorem pwrite_ignores_access:
  assumes server: "redis_server (server (gp_run P)) view" "store_ok ds"
    and m: "fd_managed s fd" and h: "heap (os s) b = Some v" and k: "i + k \<le> length v"
    and f: "file_at view ds fd acc n pos c (golang s)"
    and range: "off \<le> length c" "off + k < 2 ^ 63" "few_stripes (nat (stripeSize ds)) off k"
  shows "\<exists>s'. c_pwrite E (pdwfs_go P) fd (At b i) (int k) (int off) s = Ok (CInt (int k), s') \<and>
    file_at view ds fd acc n pos (overwrite 0 off (take k (drop i v)) c) (golang s') \<and> os s' = os s"
proof -
  have l: "length (take k (drop i v)) = k" using k by simp
  from go_files.Pwrite_run [OF go_files_of [OF server] f range(1), of "take k (drop i v)", unfolded l, OF range(2,3)]
  obtain g where g: "Pwrite P fd (take k (drop i v)) (int off) (golang s) = Ok (int k, g)"
    "file_at view ds fd acc n pos (overwrite 0 off (take k (drop i v)) c) g" by blast
  have ld: "load (At b i) k (traced E ''pwrite'' s) = Ok (take k (drop i v), traced E ''pwrite'' s)"
    by (rule load_run) (use h k in simp_all)
  from m g show ?thesis
    by (simp add: c_pwrite_def go_int_def bnd_Ok [where m = "load (At b i) k", OF ld]
        bnd_go_call_Ok [of _ _ "int k" g] return_run)
qed

lemma pwrite_ignores_access_witness:
  "\<exists>w s'. c_pwrite demo_env (pdwfs_go demo_proc) 5 (At 9 0) 2 1
      (demo_stream (demo_gostate w RdOnly 0) [7, 8]) = Ok (CInt 2, s') \<and>
    file_at ref_view demo_store 5 RdOnly ''/home/run/a'' 0 [1, 7, 8] (golang s')"
proof -
  obtain w where w: "file_holds demo_store (wview ref_view w) ''/home/run/a'' [1, 2]"
    using demo_file [of "[1, 2]"] by auto
  let ?s = "demo_stream (demo_gostate w RdOnly 0) [7, 8]"
  have f: "file_at ref_view demo_store 5 RdOnly ''/home/run/a'' 0 [1, 2] (golang ?s)"
    using demo_file_at [OF w] by simp
  have r: "0 + 2 \<le> length [7, 8 :: byte]" "1 \<le> length [1, 2 :: byte]"
    "1 + (2 :: nat) < 2 ^ 63" "few_stripes (nat (stripeSize demo_store)) 1 2"
    by (simp_all add: few_stripes_def)
  have o: "overwrite 0 1 (take 2 (drop 0 [7, 8])) [1, 2] = [1, 7, 8 :: byte]" by code_simp
  from pwrite_ignores_access [OF demo_go_server demo_store_ok demo_stream_sel(3,2) r(1) f r(2-4),
      of demo_env, unfolded o]
  show ?thesis by (intro exI [of _ w]) auto
qed

text \<open>
  C38. Seeking before the start of a file ends the whole process with a Go panic: \<open>Seek\<close> returns
  the plain error, and \<open>Lseek\<close> knows it only inside an \<open>os.PathError\<close>. C asks for -1 with
  \<open>EINVAL\<close>.
\<close>

theorem lseek_negative_panics:
  assumes "fd_managed s fd" and "file_at view ds fd acc n off c (golang s)"
    and "whence = 0 \<and> offset < 0 \<or> whence = 1 \<and> int off < 2 ^ 63 \<and> - (2 ^ 63) \<le> offset \<and> int off + offset < 0 \<or>
      whence \<notin> {0, 1, 2}"
  shows "c_lseek E (pdwfs_go P) fd offset whence s = Panic ''unhandled error''"
proof -
  from assms(2) obtain f fs where F: "fdFileMap (golang s) fd = Some f"
    "of_file f = \<lparr> mf_path = n, mf_offset = int off \<rparr>"
    "map_of (gmounts (golang s)) (of_mount f) = Some fs" "dataStore fs = ds"
    by (auto elim!: file_atE)
  have i: "i64 (int off + offset) = int off + offset" if "int off < 2 ^ 63" "- (2 ^ 63) \<le> offset" "int off + offset < 0"
    using that by (intro i64_id) (simp add: in_i64_def)
  obtain e where e: "e = ErrNegativeSeekLocation \<or> e = ErrInvalidSeekWhence"
    "MemFile_Seek (gp_run P) ds (of_file f) offset whence (gworld (golang s)) =
      Ok ((0, Some e, of_file f), gworld (golang s))"
    using assms(3) F(2) i by (auto simp: MemFile_Seek_def return_def bnd_def split: if_splits)
  from e(1) have "\<not> path_err e x" for x by (auto simp: path_err_def)
  with F e(2) have "Lseek P fd offset whence (golang s) = Panic ''unhandled error''"
    by (simp add: Lseek_def bnd_getFile bnd_with_store [where x = "(0, Some e, of_file f)" and w = "gworld (golang s)"]
        set_file_def unhandled_def panic_def)
  with assms(1) show ?thesis by (simp add: c_lseek_def go_int_def bnd_go_call)
qed

lemma lseek_negative_panics_witness:
  "c_lseek demo_env (pdwfs_go demo_proc) 5 (- 4) SEEK_CUR
     (demo_stream (demo_gostate demo_world RdWr 3) []) = Panic ''unhandled error''"
proof -
  have f: "file_at ref_view demo_store 5 RdWr ''/home/run/a'' 3 []
      (golang (demo_stream (demo_gostate demo_world RdWr 3) []))"
    using demo_file_at [OF demo_fresh] by simp
  show ?thesis
    by (rule lseek_negative_panics [OF demo_stream_sel(3) f]) (simp add: SEEK_CUR_def)
qed

end
