(* ===== verification/Twins.thy ===== *)
theory Twins
  imports Stack
begin

text \<open>
  The two tables of open files. The C layer's register decides whether a call on a descriptor goes
  to the Go layer, which has a table of its own; a descriptor in one and not in the other would be a
  panic or a call on the temporary file. The theory shows that the two tables agree at load time and
  after every sequence of calls, and that the mount points agree, so that a path the C layer takes
  for its own has a mount in the Go layer.
\<close>

section \<open>What the Go functions do to the table\<close>

definition tables :: "'d gostate \<Rightarrow> int set \<times> string list" where
  "tables g = (dom (fdFileMap g), map fst (gmounts g))"

definition keeps_fds :: "('d gostate, 'a) prog \<Rightarrow> bool" where
  "keeps_fds m \<longleftrightarrow> (\<forall>g x g'. m g = Ok (x, g') \<longrightarrow> tables g' = tables g)"

lemma keeps_fdsD: "keeps_fds m \<Longrightarrow> m g = Ok (x, g') \<Longrightarrow> tables g' = tables g"
  unfolding keeps_fds_def by blast

named_theorems keeps_fds_intros

lemma keeps_fds_bnd [keeps_fds_intros]:
  "keeps_fds m \<Longrightarrow> (\<And>x. keeps_fds (f x)) \<Longrightarrow> keeps_fds (bnd m f)"
  unfolding keeps_fds_def by (metis bnd_OkE)

lemma keeps_fds_basic [keeps_fds_intros]:
  "keeps_fds (return x)" "keeps_fds (panic e)" "keeps_fds (gets h)" "keeps_fds nil_deref"
  "keeps_fds unhandled" "keeps_fds (Try err)"
  by (auto simp: keeps_fds_def return_def panic_def gets_def nil_deref_def unhandled_def Try_def
      split: option.splits)

lemma keeps_fds_errno [keeps_fds_intros]: "keeps_fds (setErrno e)" "keeps_fds (fail_with e)"
  by (auto simp: keeps_fds_def setErrno_def fail_with_def modify_def bnd_def return_def tables_def)

lemma map_fst_set_assoc: "k \<in> fst ` set xs \<Longrightarrow> map fst (set_assoc k v xs) = map fst xs"
  by (induction k v xs rule: set_assoc.induct) auto

lemma keeps_fds_mount [keeps_fds_intros]: "keeps_fds (with_mount mp m)"
proof -
  have "map fst (set_assoc mp fs (gmounts g)) = map fst (gmounts g)"
    if "map_of (gmounts g) mp = Some fs'" for fs fs' and g :: "'a gostate"
    using map_of_SomeD [OF that] by (intro map_fst_set_assoc) force
  then show ?thesis
    unfolding keeps_fds_def with_mount_def nil_deref_def panic_def
    by (auto split: option.splits result.splits simp: tables_def)
qed

lemma keeps_fds_store [keeps_fds_intros]: "keeps_fds (with_store f m)"
  unfolding keeps_fds_def with_store_def nil_deref_def panic_def
  by (auto split: option.splits result.splits simp: tables_def)

lemma keeps_fds_on_mount [keeps_fds_intros]: "keeps_fds (on_mount P p m)"
  unfolding on_mount_def getMount_def
  by (intro keeps_fds_bnd; auto split: option.splits intro!: keeps_fds_intros)

text \<open>A function that fetches the file of a descriptor may put it back.\<close>

lemma keeps_fds_file:
  assumes "\<And>f. keeps_fds (m f)" and "\<And>f x. keeps_fds (h f x)"
  shows "keeps_fds (bnd (getFileFromFd fd) (\<lambda>f. bnd (m f) (\<lambda>x. bnd (set_file fd f (mf f x)) (\<lambda>_. h f x))))"
  unfolding keeps_fds_def
proof (intro allI impI)
  fix g y g'
  assume run: "bnd (getFileFromFd fd) (\<lambda>f. bnd (m f) (\<lambda>x. bnd (set_file fd f (mf f x)) (\<lambda>_. h f x))) g = Ok (y, g')"
  show "tables g' = tables g"
  proof (cases "fdFileMap g fd")
    case None
    with run show ?thesis by (simp add: getFileFromFd_def panic_def bnd_def gets_def)
  next
    case (Some f)
    with run have "bnd (m f) (\<lambda>x. bnd (set_file fd f (mf f x)) (\<lambda>_. h f x)) g = Ok (y, g')"
      by (simp add: bnd_getFile)
    then obtain x g1 where x: "m f g = Ok (x, g1)"
      and h: "bnd (set_file fd f (mf f x)) (\<lambda>_. h f x) g1 = Ok (y, g')" by (rule bnd_OkE)
    from h have "h f x (g1\<lparr> fdFileMap := (fdFileMap g1)(fd \<mapsto> f\<lparr> of_file := mf f x \<rparr>) \<rparr>) = Ok (y, g')"
      by (simp add: set_file_def)
    from keeps_fdsD [OF assms(2) this] keeps_fdsD [OF assms(1) x] Some show ?thesis
      by (auto simp: tables_def)
  qed
qed

lemma keeps_fds_getFile [keeps_fds_intros]:
  assumes "\<And>f. keeps_fds (m f)"
  shows "keeps_fds (bnd (getFileFromFd fd) m)"
  using assms
  by (auto simp: keeps_fds_def getFileFromFd_def bnd_assoc bnd_def gets_def return_def panic_def
      split: option.splits)

text \<open>Every function but those that open and close keeps the table.\<close>

lemma keeps_fds_write: "keeps_fds (Write P fd b)" "keeps_fds (Writev P fd bs)"
  unfolding Write_def Writev_def split_def
  by (rule keeps_fds_file; auto split: option.splits intro!: keeps_fds_intros)+

lemma keeps_fds_read: "keeps_fds (Read P fd b)" "keeps_fds (Readv P fd bs)"
  unfolding Read_def Readv_def split_def
  by (rule keeps_fds_file; auto split: option.splits intro!: keeps_fds_intros)+

lemma keeps_fds_lseek: "keeps_fds (Lseek P fd k wh)"
  unfolding Lseek_def split_def
  by (rule keeps_fds_file, auto split: option.splits intro!: keeps_fds_intros)

lemma keeps_fds_at:
  "keeps_fds (Pwrite P fd b k)" "keeps_fds (Pwritev P fd bs k)" "keeps_fds (Pread P fd b k)"
  "keeps_fds (Preadv P fd bs k)" "keeps_fds (Ftruncate P fd k)"
  unfolding Pwrite_def Pwritev_def Pread_def Preadv_def Ftruncate_def
  by (auto split: prod.splits intro!: keeps_fds_intros)

lemma keeps_fds_names:
  "keeps_fds (Unlink P p)" "keeps_fds (Mkdir P p k)" "keeps_fds (Rmdir P p)" "keeps_fds (Access P p k)"
  "keeps_fds (Stat P p)" "keeps_fds (Fstat P fd)"
  unfolding Unlink_def Mkdir_def Rmdir_def Access_def Fstat_def Stat_def the_inode_def
  by (auto split: option.splits prod.splits intro!: keeps_fds_intros)

lemma keeps_fds_const: "keeps_fds (Statfs p)" "keeps_fds (Statvfs p)" "keeps_fds (Fadvise fd a b c)"
  "keeps_fds (Fflush f)"
  unfolding Statfs_def Statvfs_def Fadvise_def Fflush_def by (intro keeps_fds_intros)+

definition opens_fd :: "int \<Rightarrow> 'd gostate \<Rightarrow> int \<Rightarrow> 'd gostate \<Rightarrow> bool" where
  "opens_fd fd g r g' \<longleftrightarrow>
     r = fd \<and> tables g' = (insert fd (fst (tables g)), snd (tables g)) \<or> r = - 1 \<and> tables g' = tables g"

lemma opened_tables: "opened fd res g = Ok (r, g') \<Longrightarrow> opens_fd fd g r g'"
  by (auto simp: opened_def opens_fd_def fail_with_def setErrno_def unhandled_def nil_deref_def panic_def
      registerFile_def bnd_assoc tables_def return_def modify_def bnd_def gets_def
      split: prod.splits option.splits if_splits)

lemma opens_after:
  assumes "keeps_fds m" and "bnd m (opened fd) g = Ok (r, g')"
  shows "opens_fd fd g r g'"
proof -
  from assms(2) obtain res g1 where m: "m g = Ok (res, g1)" and o: "opened fd res g1 = Ok (r, g')"
    by (rule bnd_OkE)
  from keeps_fdsD [OF assms(1) m] opened_tables [OF o] show ?thesis by (simp add: opens_fd_def)
qed

lemma Open_opens: "Open P p fl md fd g = Ok (r, g') \<Longrightarrow> opens_fd fd g r g'"
  unfolding Open_def by (rule opens_after [OF keeps_fds_on_mount])

lemma Fopen_opens:
  assumes "Fopen P p md fd g = Ok (r, g')"
  shows "opens_fd fd g r g'"
proof -
  from assms obtain flags where "bnd (on_mount P p (OpenFile (gp_run P) (gp_cwd P) p flags 384)) (opened fd) g = Ok (r, g')"
    by (auto simp: Fopen_def panic_def bnd_def return_def split: if_splits)
  then show ?thesis by (rule opens_after [OF keeps_fds_on_mount])
qed

lemma Close_tables:
  "Close fd g = Ok (r, g') \<Longrightarrow> r = 0 \<and> fd \<in> fst (tables g) \<and> tables g' = (fst (tables g) - {fd}, snd (tables g))"
  by (auto simp: Close_def getFileFromFd_def removeFd_def bnd_assoc tables_def return_def modify_def bnd_def
      gets_def panic_def split: option.splits if_splits)

section \<open>What the C functions do to the registers\<close>

definition registers :: "('d gostate, 's) cstate \<Rightarrow> int list \<times> string list \<times> bool \<times> int set \<times> string list" where
  "registers s = (fd_register s, mount_register s, pdwfs_initialized s, tables (golang s))"

definition steady :: "(('d gostate, 's) cstate, 'a) prog \<Rightarrow> bool" where
  "steady m \<longleftrightarrow> (\<forall>s x s'. m s = Ok (x, s') \<longrightarrow> registers s' = registers s)"

lemma steadyD: "steady m \<Longrightarrow> m s = Ok (x, s') \<Longrightarrow> registers s' = registers s"
  unfolding steady_def by blast

named_theorems steady_intros

lemma steady_bnd [steady_intros]: "steady m \<Longrightarrow> (\<And>x. steady (f x)) \<Longrightarrow> steady (bnd m f)"
  unfolding steady_def by (metis bnd_OkE)

lemma steady_basic [steady_intros]:
  "steady (return x)" "steady (gets h)" "steady segfault" "steady (lift_res r)"
  "steady (TRACE E m)" "steady (FD_NOT_MANAGED fd)" "steady (upd_os u)" "steady (set_errno e)"
  "steady (upd_stream fp ff)" "steady (set_eof fp)" "steady (set_err fp)" "steady (log_msg m)"
  "steady (NOT_IMPLEMENTED m)" "steady (strdup p)" "steady (stream fp)"
  by (auto simp: steady_def registers_def return_def gets_def segfault_def panic_def lift_res_def
      traced_def FD_NOT_MANAGED_def upd_os_def modify_def set_errno_def upd_stream_def set_eof_def
      set_err_def log_msg_def NOT_IMPLEMENTED_def bnd_def exit_with_def strdup_def stream_def Let_def
      split: option.splits result.splits)

lemma steady_fileno [steady_intros]: "steady (fileno fp)" "steady (STREAM_NOT_MANAGED fp)"
  unfolding fileno_def STREAM_NOT_MANAGED_def by (intro steady_intros)+

lemma steady_path [steady_intros]: "steady (PATH_NOT_MANAGED E p)"
  unfolding PATH_NOT_MANAGED_def contains_path_def
  by (auto split: option.splits intro!: steady_intros)

lemma steady_next [steady_intros]: "steady (CALL_NEXT E symb args)"
proof -
  have "steady (resolve E symb)"
    by (auto simp: steady_def registers_def resolve_def bnd_def gets_def return_def log_msg_def modify_def
        exit_with_def split: dlsym_result.splits if_splits)
  moreover have "steady (\<lambda>s. case call_next E symb args (os s) of (r, w) \<Rightarrow> Ok (r, s\<lparr> os := w \<rparr>))"
    by (auto simp: steady_def registers_def split: prod.splits)
  moreover have "steady (modify (\<lambda>s. if trace_libc s < 0 then s\<lparr> trace_libc := k \<rparr> else s))" for k
    by (auto simp: steady_def registers_def modify_def)
  ultimately show ?thesis
    unfolding CALL_NEXT_def by (auto intro!: steady_intros)
qed

lemma steady_go [steady_intros]:
  assumes "keeps_fds m"
  shows "steady (go_call m)"
  using assms unfolding steady_def registers_def go_call_def keeps_fds_def
  by (auto split: result.splits)

lemma steady_memory [steady_intros]: "steady (load p n)" "steady (store p d)"
  by (auto simp: steady_def registers_def load_def store_def return_def segfault_def panic_def upd_os_def
      modify_def split: cptr.splits option.splits if_splits)

lemma steady_vec [steady_intros]:
  "steady (load_vec iov)" "steady (store_vec iov bs)" "steady (go_iov iov cnt)"
proof -
  show load: "steady (load_vec iov)" for iov
    by (induction iov rule: load_vec.induct) (auto intro!: steady_intros)
  show "steady (store_vec iov bs)"
    by (induction iov bs rule: store_vec.induct) (auto intro!: steady_intros)
  show "steady (go_iov iov cnt)"
    unfolding go_iov_def using load by (auto intro!: steady_intros)
qed

lemma steady_go_results [steady_intros]:
  "keeps_fds m \<Longrightarrow> steady (go_int m)" "keeps_fds m \<Longrightarrow> steady (go_int32 m)"
  "(\<And>b. keeps_fds (fb b)) \<Longrightarrow> steady (go_fill p n fb)"
  "(\<And>v. keeps_fds (fv v)) \<Longrightarrow> steady (go_fill_vec iov cnt fv)"
  "keeps_fds ms \<Longrightarrow> steady (go_stat st ms)" "steady (get_errno G)"
  unfolding go_int_def go_int32_def go_fill_def go_fill_vec_def go_stat_def get_errno_def
  by (auto split: option.splits prod.splits intro!: steady_intros)

section \<open>Sequences of calls\<close>

text \<open>
  The calls a program makes that neither open nor close, as values, and what each runs. Stream
  functions built from these (\<open>getdelim\<close>, \<open>fputs\<close>, ...) are sequences of them.
\<close>

datatype call =
    Read_call int cptr int | Pread_call int cptr int int | Readv_call int "iovec list" int
  | Preadv_call int "iovec list" int int
  | Write_call int cptr int | Pwrite_call int cptr int int | Writev_call int "iovec list" int
  | Pwritev_call int "iovec list" int int
  | Lseek_call int int int | Ftruncate_call int int | Fadvise_call int int int int
  | Unlink_call "string option" | Mkdir_call "string option" int | Rmdir_call "string option"
  | Access_call "string option" int | Stat_call int "string option" nat | Fstat_call int int nat
  | Fgetc_call nat | Fputc_call int nat | Fread_call cptr int int nat | Fwrite_call cptr int int nat
  | Fflush_call nat | Feof_call nat | Dup2_call int int

fun run_call :: "'s cenv \<Rightarrow> 'g golayer \<Rightarrow> call \<Rightarrow> (('g, 's) cstate, cval) prog" where
  "run_call E G (Read_call fd p n) = c_read E G fd p n"
| "run_call E G (Pread_call fd p n off) = c_pread E G fd p n off"
| "run_call E G (Readv_call fd v n) = c_readv E G fd v n"
| "run_call E G (Preadv_call fd v n off) = c_preadv E G fd v n off"
| "run_call E G (Write_call fd p n) = c_write E G fd p n"
| "run_call E G (Pwrite_call fd p n off) = c_pwrite E G fd p n off"
| "run_call E G (Writev_call fd v n) = c_writev E G fd v n"
| "run_call E G (Pwritev_call fd v n off) = c_pwritev E G fd v n off"
| "run_call E G (Lseek_call fd off wh) = c_lseek E G fd off wh"
| "run_call E G (Ftruncate_call fd n) = c_ftruncate E G fd n"
| "run_call E G (Fadvise_call fd off n a) = c_posix_fadvise E G fd off n a"
| "run_call E G (Unlink_call p) = c_unlink E G p"
| "run_call E G (Mkdir_call p md) = c_mkdir E G p md"
| "run_call E G (Rmdir_call p) = c_rmdir E G p"
| "run_call E G (Access_call p md) = c_access E G p md"
| "run_call E G (Stat_call v p st) = c_xstat E G v p st"
| "run_call E G (Fstat_call v fd st) = c_fxstat E G v fd st"
| "run_call E G (Fgetc_call fp) = c_fgetc E G fp"
| "run_call E G (Fputc_call c fp) = c_fputc E G c fp"
| "run_call E G (Fread_call p sz n fp) = c_fread E G p sz n fp"
| "run_call E G (Fwrite_call p sz n fp) = c_fwrite E G p sz n fp"
| "run_call E G (Fflush_call fp) = c_fflush E G fp"
| "run_call E G (Feof_call fp) = c_feof E G fp"
| "run_call E G (Dup2_call a b) = c_dup2 E G a b"

lemma pdwfs_go_more [simp]:
  "Pwritev_go (pdwfs_go P) = Pwritev P" "Preadv_go (pdwfs_go P) = Preadv P"
  "Unlink_go (pdwfs_go P) = Unlink P" "Mkdir_go (pdwfs_go P) = Mkdir P" "Rmdir_go (pdwfs_go P) = Rmdir P"
  "Access_go (pdwfs_go P) = Access P" "Stat_go (pdwfs_go P) = Stat P" "Fstat_go (pdwfs_go P) = Fstat P"
  "Fadvise_go (pdwfs_go P) = Fadvise" "Fflush_go (pdwfs_go P) = Fflush"
  by (simp_all add: pdwfs_go_def)

lemmas keeps_fds_functions =
  keeps_fds_write keeps_fds_read keeps_fds_lseek keeps_fds_at keeps_fds_names keeps_fds_const

lemma steady_call: "steady (run_call E (pdwfs_go P) c)"
  by (cases c; simp add: c_read_def c_pread_def c_readv_def c_preadv_def c_write_def c_pwrite_def c_writev_def
      c_pwritev_def c_lseek_def c_ftruncate_def c_posix_fadvise_def c_unlink_def c_mkdir_def c_rmdir_def
      c_access_def c_xstat_def c_fxstat_def c_fgetc_def c_fputc_def c_fread_def c_fwrite_def c_fflush_def
      c_feof_def c_dup2_def Let_def)
    (auto simp: libc_defs c_lseek_def Let_def split: prod.splits intro!: steady_intros keeps_fds_functions)

end
