(* ===== verification/Loading.thy ===== *)
theory Loading
  imports Twins
begin

text \<open>
  The load of the library, both layers together: the configuration read from the environment, a
  file system per mount point with its root directory created on Redis, and the mount points handed
  to the C layer.
\<close>

section \<open>A mount\<close>

context redis_server
begin

lemma initMeta_dir_run:
  assumes R: "server R = srv" and ring: "ring_total s"
  shows "\<exists>w'. initMeta R s i True mode w = Ok ((), w')"
proof -
  obtain c where c: "with_client (redisRing s) (keyPrefix i) w = Ok (c, w)"
    using with_client_home [OF ring] by (metis return_def)
  have "plain (SADD (children_key i) [])" and "plain (SETNX (mode_key i) (str_bytes (itoa mode)))"
    by (simp_all add: plain_def)
  from Pipe_Flush_run [OF this, of c w] R c show ?thesis
    by (auto simp: initMeta_def bnd_Ok [where m = "with_client (redisRing s) (keyPrefix i)", OF c])
qed

end

lemma ring_total_new:
  "ads \<noteq> [] \<Longrightarrow> ring_total \<lparr> redisRing = NewRedisRing ads, stripeSize = n \<rparr>"
proof -
  have "map snd (clients (NewRedisRing ads)) = ads" by (simp add: NewRedisRing_def Let_def)
  moreover assume "ads \<noteq> []"
  ultimately show ?thesis using NewRedisRing_client [of ads] by (simp add: ring_total_def addrs_def)
qed

text \<open>The file system of a mount point.\<close>

definition mount_of :: "string list \<Rightarrow> string \<times> int \<Rightarrow> string \<times> RedisFS" where
  "mount_of ads m = (fst m, \<lparr> fs_path = fst m,
     dataStore = \<lparr> redisRing = NewRedisRing ads, stripeSize = snd m \<rparr>,
     inodes = [fst m \<mapsto> NewInode (fst m)] \<rparr>)"

lemma make_mounts_run:
  assumes "redis_server (server (gp_run P)) view" and "ads \<noteq> []"
  shows "\<exists>w'. make_mounts P (NewRedisRing ads) ms w = Ok (map (mount_of ads) ms, w')"
proof (induction ms arbitrary: w)
  case Nil
  then show ?case by (simp add: return_def)
next
  case (Cons m ms)
  obtain path stripe where m: "m = (path, stripe)" by (cases m)
  obtain w1 where w1: "initMeta (gp_run P) \<lparr> redisRing = NewRedisRing ads, stripeSize = stripe \<rparr>
      (NewInode path) True 384 w = Ok ((), w1)"
    using redis_server.initMeta_dir_run [OF assms(1) refl ring_total_new [OF assms(2)]] by blast
  obtain w2 where w2: "make_mounts P (NewRedisRing ads) ms w1 = Ok (map (mount_of ads) ms, w2)"
    using Cons.IH by blast
  show ?case
    using w1 w2 by (simp add: m NewRedisFS_def Let_def bnd_def return_def mount_of_def)
qed

section \<open>The whole load\<close>

lemma InitPdwfs_run:
  assumes server: "redis_server (server (gp_run P)) view"
    and conf: "config_New (gp_cwd P) (gp_env P) = Ok conf" "conf_mounts conf \<noteq> []" "conf_addrs conf \<noteq> []"
  shows "\<exists>g'. InitPdwfs P g = Ok (mount_pieces (map fst (conf_mounts conf)), g') \<and>
    gmounts g' = map (mount_of (conf_addrs conf)) (conf_mounts conf) \<and> fdFileMap g' = (\<lambda>_. None)"
proof -
  obtain w where w: "make_mounts P (NewRedisRing (conf_addrs conf)) (conf_mounts conf) (gworld g) =
      Ok (map (mount_of (conf_addrs conf)) (conf_mounts conf), w)"
    using make_mounts_run [OF server conf(3)] by blast
  have pieces: "concat (map (\<lambda>(path, _). [path, ''@'']) (map (mount_of ads) ms)) @ [[CHR 0x00]] =
      mount_pieces (map fst ms)" for ads ms
    by (induction ms) (auto simp: mount_pieces_def mount_of_def NUL_def)
  show ?thesis
    using conf w pieces
    by (simp add: InitPdwfs_def NewPdwFS_def lift_res_def bnd_def gets_def return_def)
qed

text \<open>What the load of the library needs of the mount points to hand them over.\<close>

definition names_ok :: "string list \<Rightarrow> bool" where
  "names_ok ms \<longleftrightarrow> list_all (\<lambda>m. CHR ''@'' \<notin> set m \<and> NUL \<notin> set m \<and> m \<noteq> []) ms \<and>
     length (concat (mount_pieces ms)) \<le> 1024"

lemma mount_load_run:
  assumes server: "redis_server (server (gp_run P)) view"
    and conf: "config_New (gp_cwd P) (gp_env P) = Ok conf" "conf_mounts conf \<noteq> []" "conf_addrs conf \<noteq> []"
    and ok: "names_ok (map fst (conf_mounts conf))"
  shows "\<exists>s'. init_pdwfs (pdwfs_go P) s = Ok ((), s') \<and>
    set (mount_register s') = fst ` set (conf_mounts conf) \<and> fd_register s' = [] \<and>
    pdwfs_initialized s' \<and> os s' = os s \<and> fdFileMap (golang s') = (\<lambda>_. None) \<and>
    gmounts (golang s') = map (mount_of (conf_addrs conf)) (conf_mounts conf)"
proof -
  let ?ms = "map fst (conf_mounts conf)"
  obtain g where g: "InitPdwfs P (golang s) = Ok (mount_pieces ?ms, g)"
    "gmounts g = map (mount_of (conf_addrs conf)) (conf_mounts conf)" "fdFileMap g = (\<lambda>_. None)"
    using InitPdwfs_run [OF server conf] by blast
  have n: "\<forall>m \<in> set ?ms. CHR ''@'' \<notin> set m \<and> NUL \<notin> set m \<and> m \<noteq> []"
    "length (concat (mount_pieces ?ms)) \<le> 1024"
    using ok by (auto simp: names_ok_def list_all_iff)
  have "InitPdwfs_go (pdwfs_go P) (golang s) = Ok (mount_pieces ?ms, g)" using g(1) by simp
  from init_pdwfs_run [OF n this] g(2,3) show ?thesis by auto
qed

text \<open>
  C7. Loading the library: when the configuration gives at least one mount point and one Redis
  address, and the mount points can be handed over, both layers come up on every lawful Redis with
  the same mount points and no open file, and the data store of every mount whose stripe size is
  between one byte and what Redis can hold is well-formed, so that the properties of the store apply
  to it.
\<close>

theorem library_loads:
  assumes "redis_server (server (gp_run P)) view"
    and "config_New (gp_cwd P) (gp_env P) = Ok conf" and "conf_mounts conf \<noteq> []" and "conf_addrs conf \<noteq> []"
    and "names_ok (map fst (conf_mounts conf))"
  shows "\<exists>s'. init_pdwfs (pdwfs_go P) s = Ok ((), s') \<and> pdwfs_initialized s' \<and>
    set (mount_register s') = fst ` set (conf_mounts conf) \<and> fd_register s' = [] \<and>
    fdFileMap (golang s') = (\<lambda>_. None) \<and>
    map fst (gmounts (golang s')) = map fst (conf_mounts conf) \<and>
    (\<forall>mp n. (mp, n) \<in> set (conf_mounts conf) \<and> 0 < n \<and> n \<le> max_redis_string \<longrightarrow>
      (\<exists>fs. (mp, fs) \<in> set (gmounts (golang s')) \<and> stripeSize (dataStore fs) = n \<and> store_ok (dataStore fs)))"
proof -
  have ok: "store_ok (dataStore (snd (mount_of (conf_addrs conf) (mp, n))))"
    if "0 < n" "n \<le> max_redis_string" for mp n
    using that ring_total_new [OF assms(4)] by (simp add: mount_of_def store_ok_def)
  have names: "map fst (map (mount_of ads) ms) = map fst ms" for ads ms
    by (induction ms) (auto simp: mount_of_def)
  have mem: "(mp, snd (mount_of ads (mp, n))) \<in> set (map (mount_of ads) ms)" if "(mp, n) \<in> set ms" for ads ms mp n
  proof -
    have "mount_of ads (mp, n) = (mp, snd (mount_of ads (mp, n)))" by (simp add: mount_of_def)
    moreover have "mount_of ads (mp, n) \<in> set (map (mount_of ads) ms)" using that by simp
    ultimately show ?thesis by metis
  qed
  have size: "stripeSize (dataStore (snd (mount_of ads (mp, n)))) = n" for ads mp n
    by (simp add: mount_of_def)
  from mount_load_run [OF assms, of s] show ?thesis using ok names mem size by (metis (no_types, lifting))
qed

text \<open>The configuration of the concrete stack: one mount point, two addresses.\<close>

definition demo_conf :: config where
  "demo_conf = \<lparr> conf_mounts = [(''/home/run'', DefaultStripeSize)], conf_addrs = [''a:6379'', ''b:6379''] \<rparr>"

lemma demo_config: "config_New (gp_cwd demo_proc) (gp_env demo_proc) = Ok demo_conf"
  by code_simp

lemma demo_conf_ok:
  "conf_mounts demo_conf \<noteq> []" "conf_addrs demo_conf \<noteq> []" "names_ok (map fst (conf_mounts demo_conf))"
  by (simp_all add: demo_conf_def names_ok_def mount_pieces_def NUL_def)

lemma library_loads_witness:
  "\<exists>s' fs. init_pdwfs (pdwfs_go demo_proc) (demo_cstate (demo_gostate demo_world RdWr 0) [] []) = Ok ((), s') \<and>
    set (mount_register s') = {''/home/run''} \<and> (''/home/run'', fs) \<in> set (gmounts (golang s')) \<and>
    stripeSize (dataStore fs) = 52428800 \<and> store_ok (dataStore fs)"
proof -
  let ?s = "demo_cstate (demo_gostate demo_world RdWr 0) [] [] :: (ref_db gostate, unit) cstate"
  obtain s' where s': "init_pdwfs (pdwfs_go demo_proc) ?s = Ok ((), s')"
    "set (mount_register s') = fst ` set (conf_mounts demo_conf)"
    "\<forall>mp n. (mp, n) \<in> set (conf_mounts demo_conf) \<and> 0 < n \<and> n \<le> max_redis_string \<longrightarrow>
      (\<exists>fs. (mp, fs) \<in> set (gmounts (golang s')) \<and> stripeSize (dataStore fs) = n \<and> store_ok (dataStore fs))"
    using library_loads [OF demo_go_server demo_config demo_conf_ok, of ?s] by blast
  have "(''/home/run'', 52428800) \<in> set (conf_mounts demo_conf)" "(52428800 :: int) \<le> max_redis_string"
    by (simp_all add: demo_conf_def DefaultStripeSize_def max_redis_string_def)
  with s'(3) obtain fs where fs: "(''/home/run'', fs) \<in> set (gmounts (golang s'))"
    "stripeSize (dataStore fs) = 52428800" "store_ok (dataStore fs)" by (metis zero_less_numeral)
  have "set (mount_register s') = {''/home/run''}" using s'(2) by (simp add: demo_conf_def)
  with s'(1) fs show ?thesis by blast
qed

end
