(* ===== verification/Reach.thy ===== *)
theory Reach
  imports Loading
begin

text \<open>
  The states a program reaches after the library was loaded, by opening, closing and calling in any
  order, each call running to its end. In all of them the register of descriptors in the C layer and
  the table of open files in the Go layer are the same set, and so are the mount points: a
  descriptor the C layer sends to the Go layer is open there, and a path it sends there has a mount.
\<close>

section \<open>Steps\<close>

text \<open>
  One step of the program. A temporary file has a descriptor the process does not have yet
  (\<open>new_twin\<close>) and that is an \<open>int\<close>.
\<close>

definition fresh_tmpfile :: "'s cenv \<Rightarrow> ('g, 's) cstate \<Rightarrow> bool" where
  "fresh_tmpfile E s \<longleftrightarrow> (\<exists>fp fd w. new_twin E s fp fd w \<and> 0 \<le> fd \<and> fd < 2 ^ 31)"

inductive program_step ::
  "'s cenv \<Rightarrow> 'd goproc \<Rightarrow> ('d gostate, 's) cstate \<Rightarrow> ('d gostate, 's) cstate \<Rightarrow> bool"
  for E :: "'s cenv" and P :: "'d goproc" where
  step_open: "fresh_tmpfile E s \<Longrightarrow> c_open E (pdwfs_go P) path flags mode s = Ok (v, s') \<Longrightarrow>
    program_step E P s s'"
| step_fopen: "fresh_tmpfile E s \<Longrightarrow> c_fopen E (pdwfs_go P) path fmode s = Ok (v, s') \<Longrightarrow>
    program_step E P s s'"
| step_close: "c_close E (pdwfs_go P) fd s = Ok (v, s') \<Longrightarrow> program_step E P s s'"
| step_fclose: "c_fclose E (pdwfs_go P) fp s = Ok (v, s') \<Longrightarrow> program_step E P s s'"
| step_call: "run_call E (pdwfs_go P) c s = Ok (v, s') \<Longrightarrow> program_step E P s s'"

inductive_cases program_stepE: "program_step E P s s'"

inductive reachable :: "'s cenv \<Rightarrow> 'd goproc \<Rightarrow> ('d gostate, 's) cstate \<Rightarrow> bool"
  for E :: "'s cenv" and P :: "'d goproc" where
  loaded: "init_pdwfs (pdwfs_go P) s = Ok ((), s') \<Longrightarrow> names_ok (map fst (gmounts (golang s'))) \<Longrightarrow>
    reachable E P s'"
| stepped: "reachable E P s \<Longrightarrow> program_step E P s s' \<Longrightarrow> reachable E P s'"

definition agree :: "('d gostate, 's) cstate \<Rightarrow> bool" where
  "agree s \<longleftrightarrow> pdwfs_initialized s \<and> distinct (fd_register s) \<and>
     set (fd_register s) = dom (fdFileMap (golang s)) \<and>
     set (mount_register s) = set (map fst (gmounts (golang s)))"

lemma agree_registers:
  "agree s \<longleftrightarrow> (case registers s of (fds, ms, i, D, M) \<Rightarrow>
     i \<and> distinct fds \<and> set fds = D \<and> set ms = set M)"
  by (simp add: agree_def registers_def tables_def)

lemma agree_steady: "steady m \<Longrightarrow> m s = Ok (x, s') \<Longrightarrow> agree s \<Longrightarrow> agree s'"
  by (simp add: agree_registers steadyD)

section \<open>Loading\<close>

lemma InitPdwfs_pieces:
  assumes "InitPdwfs P g = Ok (ps, g')"
  shows "ps = mount_pieces (map fst (gmounts g')) \<and> fdFileMap g' = (\<lambda>_. None)"
proof -
  have "concat (map (\<lambda>(path, _). [path, ''@'']) ms) = concat (map (\<lambda>m. [m, ''@'']) (map fst ms))"
    for ms :: "(string \<times> RedisFS) list"
    by (induction ms) auto
  with assms show ?thesis
    by (auto simp: InitPdwfs_def NewPdwFS_def mount_pieces_def NUL_def gets_def return_def panic_def lift_res_def
        bnd_def split: result.splits if_splits)
qed

lemma agree_init:
  assumes init: "init_pdwfs (pdwfs_go P) s = Ok ((), s')" and ok: "names_ok (map fst (gmounts (golang s')))"
  shows "agree s'"
proof -
  obtain ps g where g: "InitPdwfs P (golang s) = Ok (ps, g)" "golang s' = g"
    using init by (auto simp: init_pdwfs_def go_call_def bnd_def lift_res_def modify_def split: result.splits)
  let ?ms = "map fst (gmounts g)"
  have ps: "InitPdwfs_go (pdwfs_go P) (golang s) = Ok (mount_pieces ?ms, g)" and none: "fdFileMap g = (\<lambda>_. None)"
    using InitPdwfs_pieces [OF g(1)] g(1) by simp_all
  from init_pdwfs_run [OF _ _ ps] ok g(2) init none show ?thesis
    by (auto simp: names_ok_def list_all_iff agree_def)
qed

section \<open>Opening and closing\<close>

lemma remove_fd_steady:
  assumes "remove_fd_with (close_n (Suc n) E (pdwfs_go P)) fd s = Ok (x, s')" and "distinct (fd_register s)"
  shows "registers s' = (remove1 fd (fd_register s), snd (registers s))"
proof (cases "fd \<in> set (fd_register s)")
  case False
  with assms(1) show ?thesis
    by (simp add: remove_fd_with_def contains_fd_def return_def registers_def remove1_idem)
next
  case True
  let ?s = "s\<lparr> fd_register := remove1 fd (fd_register s) \<rparr>"
  have nm: "\<not> fd_managed ?s fd" using assms(2) by (simp add: fd_managed_def)
  have "bnd (close_n (Suc n) E (pdwfs_go P) fd) (\<lambda>_. return ()) ?s = Ok (x, s')"
    using assms(1) True by (simp add: remove_fd_with_def contains_fd_def)
  then obtain y t where "close_n (Suc n) E (pdwfs_go P) fd ?s = Ok (y, t)" "return () t = Ok (x, s')"
    by (rule bnd_OkE)
  then have y: "close_n (Suc n) E (pdwfs_go P) fd ?s = Ok (y, s')" by (simp add: return_def)
  have "bnd (TRACE E ''close'') (\<lambda>_. libc_close E fd) ?s = Ok (y, s')" using y nm by simp
  then have "registers s' = registers ?s"
    by (rule steadyD [rotated]) (unfold libc_defs, intro steady_intros)
  then show ?thesis by (simp add: registers_def)
qed

text \<open>Finding a path managed changes nothing.\<close>

lemma abspath_found: "abspath mem_ok cwd name = Ok (Some a, e) \<Longrightarrow> e = None"
  by (auto simp: abspath_def then_r_def Let_def split: option.splits if_splits sum.splits result.splits)

lemma managed_path_same:
  assumes "PATH_NOT_MANAGED E p s = Ok (False, s')"
  shows "s' = s"
proof -
  obtain a e where "abspath (malloc_ok E) (getcwd E) p = Ok (Some a, e)"
    "bnd (case e of None \<Rightarrow> return () | Some e \<Rightarrow> set_errno e) (\<lambda>_. bnd (gets mount_register) (\<lambda>reg.
       return (\<not> list_ex (\<lambda>m. finder m a) reg))) s = Ok (False, s')"
    using assms
    by (auto simp: PATH_NOT_MANAGED_def contains_path_def lift_res_def return_def bnd_assoc bnd_def
        set_errno_def upd_os_def modify_def gets_def split: result.splits option.splits prod.splits if_splits)
  with abspath_found [OF this(1)] show ?thesis by (simp add: return_def bnd_def gets_def)
qed

lemma path_branch:
  assumes "bnd (TRACE E m) (\<lambda>_. bnd (PATH_NOT_MANAGED E p) (\<lambda>nm. if nm then a else b)) s = Ok (v, s')"
    and "steady a"
  shows "registers s' = registers s \<or> b (traced E m s) = Ok (v, s')"
proof -
  from assms(1) have "bnd (PATH_NOT_MANAGED E p) (\<lambda>nm. if nm then a else b) (traced E m s) = Ok (v, s')" by simp
  then obtain nm t where t: "PATH_NOT_MANAGED E p (traced E m s) = Ok (nm, t)" and r: "(if nm then a else b) t = Ok (v, s')"
    by (rule bnd_OkE)
  have "registers t = registers s"
    using steadyD [OF steady_path t] by (simp add: registers_def)
  with r t assms(2) show ?thesis by (cases nm) (auto dest: steadyD managed_path_same)
qed

lemma fresh_traced [simp]: "fresh_tmpfile E (traced E m s) = fresh_tmpfile E s"
  by (simp add: fresh_tmpfile_def)

text \<open>After the Go layer's answer, a refused descriptor leaves the register again.\<close>

lemma opened_agree:
  assumes a: "agree s" and tw: "new_twin E s fp fd w" and fd: "0 \<le> fd" "fd < 2 ^ 31"
    and go: "opens_fd fd (golang s) r g"
    and regs: "registers t = registers (s\<lparr> fd_register := fd # fd_register s, golang := g \<rparr>)"
    and fin: "if i32 r < 0 then remove_fd E (pdwfs_go P) fd t = Ok ((), s') else s' = t"
  shows "agree s'"
proof -
  have nin: "fd \<notin> set (fd_register s)" using tw by (simp add: new_twin_def)
  have i: "i32 fd = fd" using fd by (intro i32_id) simp_all
  have m1: "i32 (- 1) = - 1" by (simp add: i32_def)
  have regs_t: "fd_register t = fd # fd_register s" using regs by (simp add: registers_def)
  from go consider (ok) "r = fd" "tables g = (insert fd (fst (tables (golang s))), snd (tables (golang s)))"
    | (no) "r = - 1" "tables g = tables (golang s)" unfolding opens_fd_def by blast
  then show ?thesis
  proof cases
    case ok
    then have "s' = t" using fin fd(1) i by simp
    with ok(2) a nin regs show ?thesis by (simp add: agree_registers registers_def tables_def)
  next
    case no
    then have "remove_fd_with (close_n (Suc (Suc 0)) E (pdwfs_go P)) fd t = Ok ((), s')"
      using fin m1 by (simp add: remove_fd_def c_close_levels)
    from remove_fd_steady [OF this] nin a regs_t have "registers s' = (fd_register s, snd (registers t))"
      by (simp add: agree_def)
    with no(2) a regs show ?thesis by (simp add: agree_registers registers_def)
  qed
qed

lemma open_agree:
  assumes a: "agree s" and fresh: "fresh_tmpfile E s"
    and run: "c_open E (pdwfs_go P) path flags mode s = Ok (v, s')"
  shows "agree s'"
proof -
  let ?s = "traced E ''open'' s"
  define md where "md = (if OPEN_NEEDS_MODE flags then mode else 0)"
  have "steady (libc_open E path flags md)" unfolding libc_defs by (intro steady_intros)
  from path_branch [OF run [unfolded c_open_def Let_def, folded md_def] this] show ?thesis
  proof
    assume "registers s' = registers s"
    then show ?thesis using a by (simp add: agree_registers)
  next
    assume body: "bnd (strdup path) (\<lambda>filename. bnd (get_new_fd E (pdwfs_go P)) (\<lambda>fd.
        bnd (go_call (Open_go (pdwfs_go P) filename flags md fd)) (\<lambda>r.
          if i32 r < 0 then bnd (gets (\<lambda>s. GetErrno_go (pdwfs_go P) (golang s))) (\<lambda>e.
            bnd (set_errno e) (\<lambda>_. bnd (remove_fd E (pdwfs_go P) fd) (\<lambda>_. return (CInt (i32 r)))))
          else return (CInt (i32 r))))) ?s = Ok (v, s')"
    then obtain p where path: "path = Some p" by (cases path) (auto simp: strdup_def segfault_def panic_def bnd_def)
    obtain fp fd w where tw: "new_twin E ?s fp fd w" and fd: "0 \<le> fd" "fd < 2 ^ 31"
      using fresh by (auto simp: fresh_tmpfile_def)
    let ?t = "?s\<lparr> os := w, fd_register := fd # fd_register ?s \<rparr>"
    from body path get_new_fd_run [OF tw, of "pdwfs_go P"]
    have "bnd (go_call (Open P p flags md fd)) (\<lambda>r.
          if i32 r < 0 then bnd (gets (\<lambda>s. GetErrno_go (pdwfs_go P) (golang s))) (\<lambda>e.
            bnd (set_errno e) (\<lambda>_. bnd (remove_fd E (pdwfs_go P) fd) (\<lambda>_. return (CInt (i32 r)))))
          else return (CInt (i32 r))) ?t = Ok (v, s')" by (simp add: bnd_Ok [of "get_new_fd E (pdwfs_go P)"])
    then obtain r g where go: "Open P p flags md fd (golang s) = Ok (r, g)"
      and rest: "(if i32 r < 0 then bnd (gets (\<lambda>s. GetErrno_go (pdwfs_go P) (golang s))) (\<lambda>e.
            bnd (set_errno e) (\<lambda>_. bnd (remove_fd E (pdwfs_go P) fd) (\<lambda>_. return (CInt (i32 r)))))
          else return (CInt (i32 r))) (?t\<lparr> golang := g \<rparr>) = Ok (v, s')"
      by (auto simp: bnd_go_call split: result.splits)
    define u where "u = (if i32 r < 0 then ?t\<lparr> golang := g, os := w\<lparr> errno := GetErrno g \<rparr> \<rparr> else ?t\<lparr> golang := g \<rparr>)"
    have fin: "if i32 r < 0 then remove_fd E (pdwfs_go P) fd u = Ok ((), s') else s' = u"
      using rest by (auto simp: u_def set_errno_def upd_os_def return_def split: if_splits elim!: bnd_OkE)
    have "opens_fd fd (golang ?s) r g" using Open_opens [OF go] by simp
    moreover have "registers u = registers (?s\<lparr> fd_register := fd # fd_register ?s, golang := g \<rparr>)"
      by (simp add: u_def registers_def)
    moreover have "agree ?s" using a by (simp add: agree_def)
    ultimately show ?thesis using opened_agree [OF _ tw fd _ _ fin] by blast
  qed
qed

lemma fopen_agree:
  assumes a: "agree s" and fresh: "fresh_tmpfile E s"
    and run: "c_fopen E (pdwfs_go P) path fmode s = Ok (v, s')"
  shows "agree s'"
proof -
  let ?s = "traced E ''fopen'' s"
  have "steady (libc_fopen E path fmode)" unfolding libc_defs by (intro steady_intros)
  from path_branch [OF run [unfolded c_fopen_def Let_def] this] show ?thesis
  proof
    assume "registers s' = registers s"
    then show ?thesis using a by (simp add: agree_registers)
  next
    assume body: "bnd (get_new_stream E (pdwfs_go P)) (\<lambda>fp. bnd (strdup path) (\<lambda>gopath. bnd (strdup fmode) (\<lambda>gomode.
        bnd (fileno fp) (\<lambda>fd. bnd (go_call (Fopen_go (pdwfs_go P) gopath gomode fd)) (\<lambda>r.
        if i32 r < 0 then bnd (fileno fp) (\<lambda>fd. bnd (remove_fd E (pdwfs_go P) fd) (\<lambda>_. return (CStream 0)))
        else return (CStream fp)))))) ?s = Ok (v, s')"
    obtain fp fd w where tw: "new_twin E ?s fp fd w" and fd: "0 \<le> fd" "fd < 2 ^ 31"
      using fresh by (auto simp: fresh_tmpfile_def)
    let ?t = "?s\<lparr> os := w, fd_register := fd # fd_register ?s \<rparr>"
    have fn: "fileno fp t = Ok (fd, t)" if "streams (os t) = streams w" for t
      using tw that by (auto simp: new_twin_def fileno_def stream_def bnd_def return_def)
    from body have body: "bnd (strdup path) (\<lambda>gopath. bnd (strdup fmode) (\<lambda>gomode.
        bnd (fileno fp) (\<lambda>fd. bnd (go_call (Fopen P gopath gomode fd)) (\<lambda>r.
        if i32 r < 0 then bnd (fileno fp) (\<lambda>fd. bnd (remove_fd E (pdwfs_go P) fd) (\<lambda>_. return (CStream 0)))
        else return (CStream fp))))) ?t = Ok (v, s')"
      using get_new_stream_run [OF tw, of "pdwfs_go P"] by (simp add: bnd_Ok [of "get_new_stream E (pdwfs_go P)"])
    then obtain p where path: "path = Some p" by (cases path) (auto simp: strdup_def segfault_def panic_def bnd_def)
    with body obtain md where md: "fmode = Some md" by (cases fmode) (auto simp: strdup_def segfault_def panic_def bnd_def return_def)
    from body path md have "bnd (go_call (Fopen P p md fd)) (\<lambda>r.
        if i32 r < 0 then bnd (fileno fp) (\<lambda>fd. bnd (remove_fd E (pdwfs_go P) fd) (\<lambda>_. return (CStream 0)))
        else return (CStream fp)) ?t = Ok (v, s')" by (simp add: bnd_Ok [of "fileno fp", OF fn])
    then obtain r g where go: "Fopen P p md fd (golang s) = Ok (r, g)"
      and rest: "(if i32 r < 0 then bnd (fileno fp) (\<lambda>fd. bnd (remove_fd E (pdwfs_go P) fd) (\<lambda>_. return (CStream 0)))
          else return (CStream fp)) (?t\<lparr> golang := g \<rparr>) = Ok (v, s')"
      by (auto simp: bnd_go_call split: result.splits)
    have fin: "if i32 r < 0 then remove_fd E (pdwfs_go P) fd (?t\<lparr> golang := g \<rparr>) = Ok ((), s') else s' = ?t\<lparr> golang := g \<rparr>"
      using rest by (auto simp: bnd_Ok [of "fileno fp", OF fn] return_def split: if_splits elim!: bnd_OkE)
    have "opens_fd fd (golang ?s) r g" using Fopen_opens [OF go] by simp
    moreover have "registers (?t\<lparr> golang := g \<rparr>) = registers (?s\<lparr> fd_register := fd # fd_register ?s, golang := g \<rparr>)"
      by (simp add: registers_def)
    moreover have "agree ?s" using a by (simp add: agree_def)
    ultimately show ?thesis using opened_agree [OF _ tw fd _ _ fin] by blast
  qed
qed

lemma close_agree:
  assumes a: "agree s" and run: "c_close E (pdwfs_go P) fd s = Ok (v, s')"
  shows "agree s'"
proof (cases "fd_managed s fd")
  case False
  have "bnd (TRACE E ''close'') (\<lambda>_. libc_close E fd) s = Ok (v, s')"
    using run False by (simp add: c_close_levels)
  then have "registers s' = registers s"
    by (rule steadyD [rotated]) (unfold libc_defs, intro steady_intros)
  with a show ?thesis by (simp add: agree_registers)
next
  case True
  let ?s = "traced E ''close'' s"
  from run True obtain r g where go: "Close fd (golang s) = Ok (r, g)"
    and rest: "bnd (remove_fd_with (close_n (Suc 0) E (pdwfs_go P)) fd) (\<lambda>_. return (CInt (i32 r)))
      (?s\<lparr> golang := g \<rparr>) = Ok (v, s')"
    by (auto simp: c_close_levels bnd_go_call split: result.splits)
  from rest obtain u t where "remove_fd_with (close_n (Suc 0) E (pdwfs_go P)) fd (?s\<lparr> golang := g \<rparr>) = Ok (u, t)"
    "return (CInt (i32 r)) t = Ok (v, s')" by (rule bnd_OkE)
  then have "remove_fd_with (close_n (Suc 0) E (pdwfs_go P)) fd (?s\<lparr> golang := g \<rparr>) = Ok (u, s')"
    by (simp add: return_def)
  from remove_fd_steady [OF this] Close_tables [OF go] a show ?thesis
    by (auto simp: agree_registers registers_def tables_def)
qed

lemma fclose_agree:
  assumes a: "agree s" and run: "c_fclose E (pdwfs_go P) fp s = Ok (v, s')"
  shows "agree s'"
proof -
  have "steady (libc_fclose E fp)" unfolding libc_defs by (intro steady_intros)
  moreover have "bnd (STREAM_NOT_MANAGED fp) (\<lambda>nm. if nm then libc_fclose E fp else
      bnd (go_call (Fflush_go (pdwfs_go P) fp)) (\<lambda>_. bnd (fileno fp) (\<lambda>fd. c_close E (pdwfs_go P) fd)))
      (traced E ''fclose'' s) = Ok (v, s')" using run by (simp add: c_fclose_def)
  then obtain nm t where "STREAM_NOT_MANAGED fp (traced E ''fclose'' s) = Ok (nm, t)"
    and rest: "(if nm then libc_fclose E fp else
      bnd (go_call (Fflush_go (pdwfs_go P) fp)) (\<lambda>_. bnd (fileno fp) (\<lambda>fd. c_close E (pdwfs_go P) fd))) t = Ok (v, s')"
    by (rule bnd_OkE)
  then have "registers t = registers s" by (auto dest!: steadyD [OF steady_fileno(2)] simp: registers_def)
  then have t: "agree t" using a by (simp add: agree_registers)
  ultimately show ?thesis
  proof (cases nm)
    case False
    with rest obtain x u y w where "go_call (Fflush_go (pdwfs_go P) fp) t = Ok (x, u)" "fileno fp u = Ok (y, w)"
      and c: "c_close E (pdwfs_go P) y w = Ok (v, s')"
      by (auto elim!: bnd_OkE)
    then have "agree w"
      unfolding pdwfs_go_more
      using agree_steady [OF steady_go [OF keeps_fds_const(4)]] agree_steady [OF steady_fileno(1)] t by blast
    from close_agree [OF this c] show ?thesis .
  qed (use rest agree_steady [OF _ _ t] in auto)
qed

lemma reachable_agree: "reachable E P s \<Longrightarrow> agree s"
proof (induction rule: reachable.induct)
  case (loaded s s')
  then show ?case by (rule agree_init)
next
  case (stepped s s')
  from stepped.hyps(2) stepped.IH show ?case
    by (auto elim!: program_stepE
        intro: open_agree fopen_agree close_agree fclose_agree agree_steady [OF steady_call])
qed

section \<open>What holds in every reachable state\<close>

text \<open>
  C5. The two layers agree in every reachable state: whatever the program opens, closes, reads,
  writes or removes, the descriptors the C layer manages are exactly those the Go layer has a file
  for, none is registered twice, and both know the same mount points. So no call of the C layer
  reaches the Go layer with a descriptor it does not know.
\<close>

theorem registers_agree:
  assumes "reachable E P s"
  shows "distinct (fd_register s) \<and> set (fd_register s) = dom (fdFileMap (golang s)) \<and>
    set (mount_register s) = set (map fst (gmounts (golang s)))"
  using reachable_agree [OF assms] by (simp add: agree_def)

lemma demo_reachable: "\<exists>s :: (ref_db gostate, unit) cstate. reachable demo_env demo_proc s \<and>
    set (mount_register s) = {''/home/run''} \<and> os s = demo_osw"
proof -
  let ?s = "demo_cstate (demo_gostate demo_world RdWr 0) [] [] :: (ref_db gostate, unit) cstate"
  obtain s' where s': "init_pdwfs (pdwfs_go demo_proc) ?s = Ok ((), s')"
    "set (mount_register s') = fst ` set (conf_mounts demo_conf)" "os s' = os ?s"
    "gmounts (golang s') = map (mount_of (conf_addrs demo_conf)) (conf_mounts demo_conf)"
    using mount_load_run [OF demo_go_server demo_config demo_conf_ok, of ?s] by blast
  have "map fst (gmounts (golang s')) = map fst (conf_mounts demo_conf)"
    using s'(4) by (simp add: demo_conf_def mount_of_def)
  then have "reachable demo_env demo_proc s'"
    using loaded [OF s'(1)] demo_conf_ok(3) by simp
  then show ?thesis using s'(2,3) by (auto simp: demo_conf_def)
qed

lemma demo_fresh_tmpfile:
  "os s = demo_osw \<Longrightarrow> 4 \<notin> set (fd_register s) \<Longrightarrow> fresh_tmpfile demo_env s"
  unfolding fresh_tmpfile_def new_twin_def
  by (rule exI [of _ 4], rule exI [of _ 4], rule exI [of _ "snd (demo_tmpfile demo_osw)"])
    (simp add: demo_env_def demo_tmpfile_def Let_def demo_osw_def)

lemma registers_agree_witness:
  "\<exists>s. reachable demo_env demo_proc s \<and> distinct (fd_register s) \<and>
    set (fd_register s) = dom (fdFileMap (golang s)) \<and>
    set (map fst (gmounts (golang s))) = {''/home/run''}"
  using demo_reachable registers_agree [of demo_env demo_proc] by metis



end
