(* ===== verification/PvState.thy ===== *)
theory PvState
  imports Complex_Main Prelude
begin

text \<open>
  \<open>tools/pv/src/pv/state.c\<close> and \<open>include/pv-internal.h\<close>: the internal state of Pipe Viewer,
  in the sections of \<open>struct pvstate_s\<close>, its allocation and its setters. Flags are Booleans
  (the code only tests them for zero) and \<open>skip_errors\<close>, which is counted, is a number below
  256. A \<open>double\<close> is an exact rational. The text written to standard error is \<open>pv_stderr\<close>.
\<close>

unbundle bit_operations_syntax

section \<open>The state\<close>

record pv_control =
  input_files :: "string list"
  force :: bool
  cursor :: bool
  numeric :: bool
  wait :: bool
  linemode :: bool
  null_lines :: bool
  no_op :: bool
  skip_errors :: int
  stop_at_size :: bool
  no_splice :: bool
  rate_limit :: nat
  target_buffer_size :: nat
  total_size :: int
  interval :: rat
  delay_start :: rat
  watch_pid :: int
  watch_fd :: int
  width :: int
  height :: int
  pv_name :: "string option"
  default_format :: string
  format_string :: "string option"

record pv_status = pv_control +
  pv_program :: string
  current_file :: string
  exit_status :: nat
  reparse_display :: bool
  pv_stderr :: "string list"
  display_visible :: bool

text \<open>
  A segment of the output format: a pointer to one of the buffers \<open>str_*\<close>, or to text of
  the format string (its suffix from there on), with the length the code stores beside it.
\<close>

datatype segment_string =
    Str_name | Str_transferred | Str_bufpercent | Str_timer | Str_rate | Str_average_rate
  | Str_progress | Str_lastoutput | Str_eta | Str_fineta | Text string

type_synonym segment = "segment_string \<times> int"

record pv_display_state = pv_status +
  percentage :: int
  prev_elapsed_sec :: rat
  prev_rate :: rat
  prev_trans :: rat
  initial_offset :: int
  display_buffer_size :: "int option"
  lastoutput_length :: nat
  lastoutput_buffer :: bytes
  prev_width :: int
  prev_length :: int
  str_bufs :: "segment_string \<Rightarrow> string"
  components_used :: nat
  segments :: "segment list"

record pvstate = pv_display_state +
  transfer_buffer :: "bytes option"
  buffer_size :: nat
  read_position :: nat
  write_position :: nat
  last_read_skip_fd :: int
  read_errors_in_a_row :: nat
  read_error_warning_shown :: bool
  splice_failed_fd :: int
  splice_used :: bool
  to_write :: int
  written :: int

definition pv_state_alloc :: "bool \<Rightarrow> string \<Rightarrow> pvstate option" where
  "pv_state_alloc allocated prog =
     (if \<not> allocated then None
      else Some \<lparr> input_files = [], force = False, cursor = False, numeric = False, wait = False,
        linemode = False, null_lines = False, no_op = False, skip_errors = 0, stop_at_size = False,
        no_splice = False, rate_limit = 0, target_buffer_size = 0, total_size = 0,
        interval = 0, delay_start = 0, watch_pid = 0, watch_fd = - 1, width = 0, height = 0,
        pv_name = None, default_format = [], format_string = None,
        pv_program = prog, current_file = ''none'', exit_status = 0, reparse_display = True,
        pv_stderr = [], display_visible = False,
        percentage = 0, prev_elapsed_sec = 0, prev_rate = 0, prev_trans = 0, initial_offset = 0,
        display_buffer_size = None, lastoutput_length = 0,
        lastoutput_buffer = replicate 256 0, prev_width = 0, prev_length = 0,
        str_bufs = (\<lambda>_. []), components_used = 0, segments = [],
        transfer_buffer = None, buffer_size = 0, read_position = 0, write_position = 0,
        last_read_skip_fd = 0, read_errors_in_a_row = 0, read_error_warning_shown = False,
        splice_failed_fd = - 1, splice_used = False, to_write = 0, written = 0 \<rparr>)"

definition pv_state_free :: "pvstate option \<Rightarrow> pvstate option" where
  "pv_state_free st = None"

text \<open>\<open>pv_error\<close> of \<open>display.c\<close>: a message, after a line break when the display is on the terminal.\<close>

definition pv_error :: "string \<Rightarrow> ('z) pv_status_scheme \<Rightarrow> ('z) pv_status_scheme" where
  "pv_error msg st = st\<lparr> pv_stderr := pv_stderr st @
     [(if display_visible st then [CHR 0x0A] else []) @ pv_program st @ '': '' @ msg @ [CHR 0x0A]] \<rparr>"

section \<open>The old-style format\<close>

definition PV_ADDFORMAT :: "bool \<Rightarrow> string \<Rightarrow> ('z) pv_control_scheme \<Rightarrow> ('z) pv_control_scheme" where
  "PV_ADDFORMAT x y st =
     (if x then
        let st = (if default_format st \<noteq> [] then st\<lparr> default_format := default_format st @ '' '' \<rparr> else st)
        in st\<lparr> default_format := default_format st @ y \<rparr>
      else st)"

definition pv_state_set_format ::
  "pvstate \<Rightarrow> bool \<Rightarrow> bool \<Rightarrow> bool \<Rightarrow> bool \<Rightarrow> bool \<Rightarrow> bool \<Rightarrow> bool \<Rightarrow> bool \<Rightarrow> nat \<Rightarrow>
   string option \<Rightarrow> pvstate" where
  "pv_state_set_format st progress timer eta fineta rate average_rate bytes bufpercent lastwritten name =
     (let st = st\<lparr> default_format := [] \<rparr>;
          st = PV_ADDFORMAT (name \<noteq> None) ''%N'' st;
          st = PV_ADDFORMAT bytes ''%b'' st;
          st = PV_ADDFORMAT bufpercent ''%T'' st;
          st = PV_ADDFORMAT timer ''%t'' st;
          st = PV_ADDFORMAT rate ''%r'' st;
          st = PV_ADDFORMAT average_rate ''%a'' st;
          st = PV_ADDFORMAT progress ''%p'' st;
          st = PV_ADDFORMAT eta ''%e'' st;
          st = PV_ADDFORMAT fineta ''%I'' st;
          st = (if 0 < lastwritten
                then PV_ADDFORMAT True (CHR ''%'' # natoa lastwritten @ ''A'') st else st)
      in st\<lparr> pv_name := name, reparse_display := True \<rparr>)"

section \<open>The setters\<close>

definition pv_state_force_set where
  "pv_state_force_set st val = st\<lparr> force := val \<rparr>"
definition pv_state_cursor_set where
  "pv_state_cursor_set st val = st\<lparr> cursor := val \<rparr>"
definition pv_state_numeric_set where
  "pv_state_numeric_set st val = st\<lparr> numeric := val \<rparr>"
definition pv_state_wait_set where
  "pv_state_wait_set st val = st\<lparr> wait := val \<rparr>"
definition pv_state_delay_start_set where
  "pv_state_delay_start_set st val = st\<lparr> delay_start := val \<rparr>"
definition pv_state_linemode_set where
  "pv_state_linemode_set st val = st\<lparr> linemode := val \<rparr>"
definition pv_state_null_set where
  "pv_state_null_set st val = st\<lparr> null_lines := val \<rparr>"
definition pv_state_no_op_set where
  "pv_state_no_op_set st val = st\<lparr> no_op := val \<rparr>"
definition pv_state_skip_errors_set where
  "pv_state_skip_errors_set st val = st\<lparr> skip_errors := val \<rparr>"
definition pv_state_stop_at_size_set where
  "pv_state_stop_at_size_set st val = st\<lparr> stop_at_size := val \<rparr>"
definition pv_state_rate_limit_set where
  "pv_state_rate_limit_set st val = st\<lparr> rate_limit := val \<rparr>"
definition pv_state_target_buffer_size_set where
  "pv_state_target_buffer_size_set st val = st\<lparr> target_buffer_size := val \<rparr>"
definition pv_state_no_splice_set where
  "pv_state_no_splice_set st val = st\<lparr> no_splice := val \<rparr>"
definition pv_state_size_set where
  "pv_state_size_set st val = st\<lparr> total_size := val \<rparr>"
definition pv_state_interval_set where
  "pv_state_interval_set st val = st\<lparr> interval := val \<rparr>"
definition pv_state_width_set where
  "pv_state_width_set st val = st\<lparr> width := val \<rparr>"
definition pv_state_height_set where
  "pv_state_height_set st val = st\<lparr> height := val \<rparr>"
definition pv_state_name_set where
  "pv_state_name_set st val = st\<lparr> pv_name := val \<rparr>"
definition pv_state_format_string_set where
  "pv_state_format_string_set st val = st\<lparr> format_string := val \<rparr>"
definition pv_state_watch_pid_set where
  "pv_state_watch_pid_set st val = st\<lparr> watch_pid := val \<rparr>"
definition pv_state_watch_fd_set where
  "pv_state_watch_fd_set st val = st\<lparr> watch_fd := val \<rparr>"

definition pv_state_inputfiles where
  "pv_state_inputfiles st files = st\<lparr> input_files := files \<rparr>"

lemmas pv_setters =
  pv_state_force_set_def pv_state_cursor_set_def pv_state_numeric_set_def pv_state_wait_set_def
  pv_state_delay_start_set_def pv_state_linemode_set_def pv_state_null_set_def
  pv_state_no_op_set_def pv_state_skip_errors_set_def pv_state_stop_at_size_set_def
  pv_state_rate_limit_set_def pv_state_target_buffer_size_set_def pv_state_no_splice_set_def
  pv_state_size_set_def pv_state_interval_set_def pv_state_width_set_def pv_state_height_set_def
  pv_state_name_set_def pv_state_format_string_set_def pv_state_watch_pid_set_def
  pv_state_watch_fd_set_def pv_state_inputfiles_def

end
