(* ===== verification/PvNumber.thy ===== *)
theory PvNumber
  imports Complex_Main Prelude
begin

text \<open>
  \<open>tools/pv/src/pv/number.c\<close>: the conversion of option arguments to numbers. A C string is
  a HOL string without its final NUL, \<open>None\<close> is the null pointer. \<open>long long\<close>
  values are integers that wrap at 64 bits (gcc's behaviour for the signed overflows of the
  digit loop and the shift), and \<open>double\<close> is an exact rational: rounding is not modelled.
\<close>

definition pv__isdigit :: "char \<Rightarrow> bool" where
  "pv__isdigit c \<longleftrightarrow> (of_char (CHR ''0'') :: nat) \<le> of_char c \<and> (of_char c :: nat) \<le> of_char (CHR ''9'')"

definition pv_blank :: "char \<Rightarrow> bool" where
  "pv_blank c \<longleftrightarrow> c = CHR '' '' \<or> c = CHR 0x09"

text \<open>The first loop of \<open>pv_getnum_ll\<close> and \<open>pv_getnum_d\<close>: find a digit.\<close>

fun skip_to_digit :: "string \<Rightarrow> string" where
  "skip_to_digit [] = []"
| "skip_to_digit (c # s) = (if pv__isdigit c then c # s else skip_to_digit s)"

text \<open>The digit loop: \<open>n = n * 10; n += (str[0] - '0')\<close>.\<close>

fun getnum_digits :: "int \<Rightarrow> string \<Rightarrow> int \<times> string" where
  "getnum_digits n [] = (n, [])"
| "getnum_digits n (c # s) =
     (if pv__isdigit c then getnum_digits (i64 (i64 (n * 10) + int (digit_val c))) s
      else (n, c # s))"

text \<open>The loop over the decimals, of which the first four count.\<close>

fun getnum_decimals :: "int \<Rightarrow> int \<Rightarrow> string \<Rightarrow> int \<times> int \<times> string" where
  "getnum_decimals decimal decdivisor [] = (decimal, decdivisor, [])"
| "getnum_decimals decimal decdivisor (c # s) =
     (if pv__isdigit c then
        (if decdivisor < 10000
         then getnum_decimals (decimal * 10 + int (digit_val c)) (decdivisor * 10) s
         else getnum_decimals decimal decdivisor s)
      else (decimal, decdivisor, c # s))"

definition unit_shift :: "char \<Rightarrow> nat" where
  "unit_shift c =
     (if c = CHR ''k'' \<or> c = CHR ''K'' then 10
      else if c = CHR ''m'' \<or> c = CHR ''M'' then 20
      else if c = CHR ''g'' \<or> c = CHR ''G'' then 30
      else if c = CHR ''t'' \<or> c = CHR ''T'' then 40
      else 0)"

definition getnum_shift :: "string \<Rightarrow> nat" where
  "getnum_shift s =
     (if s = [] then 0
      else case dropWhile pv_blank s of [] \<Rightarrow> 0 | c # _ \<Rightarrow> unit_shift c)"

text \<open>The shift loop, thirty bits at a time.\<close>

function shift_units :: "nat \<Rightarrow> int \<Rightarrow> int \<Rightarrow> int \<times> int" where
  "shift_units shift n decimal =
     (if 0 < shift then
        let shiftby = (if 30 < shift then 30 else shift)
        in shift_units (shift - shiftby) (i64 (n * 2 ^ shiftby)) (i64 (decimal * 2 ^ shiftby))
      else (n, decimal))"
  by pat_completeness auto
termination by (relation "measure fst") auto

declare shift_units.simps [simp del]

definition pv_getnum_ll :: "string option \<Rightarrow> int" where
  "pv_getnum_ll str =
     (case str of
        None \<Rightarrow> 0
      | Some s \<Rightarrow>
          let (n, s) = getnum_digits 0 (skip_to_digit s);
              (decimal, decdivisor, s) =
                (case s of
                   c # t \<Rightarrow> if c = CHR ''.'' \<or> c = CHR '','' then getnum_decimals 0 1 t else (0, 1, s)
                 | [] \<Rightarrow> (0, 1, s));
              (n, decimal) = shift_units (getnum_shift s) n decimal
          in i64 (n + decimal sdiv decdivisor))"

text \<open>The loop of \<open>pv_getnum_d\<close> over the digits before, then after the point.\<close>

fun getnum_d_int :: "rat \<Rightarrow> string \<Rightarrow> rat \<times> string" where
  "getnum_d_int n [] = (n, [])"
| "getnum_d_int n (c # s) =
     (if pv__isdigit c then getnum_d_int (n * 10 + of_nat (digit_val c)) s else (n, c # s))"

fun getnum_d_frac :: "rat \<Rightarrow> rat \<Rightarrow> string \<Rightarrow> rat" where
  "getnum_d_frac n step [] = n"
| "getnum_d_frac n step (c # s) =
     (if pv__isdigit c \<and> step < 1000000
      then getnum_d_frac (n + of_nat (digit_val c) / (step * 10)) (step * 10) s else n)"

definition pv_getnum_d :: "string option \<Rightarrow> rat" where
  "pv_getnum_d str =
     (case str of
        None \<Rightarrow> 0
      | Some s \<Rightarrow>
          (case getnum_d_int 0 (skip_to_digit s) of
             (n, []) \<Rightarrow> n
           | (n, c # t) \<Rightarrow> if c \<noteq> CHR ''.'' \<and> c \<noteq> CHR '','' then n else getnum_d_frac n 1 t))"

definition pv_getnum_i :: "string option \<Rightarrow> int" where
  "pv_getnum_i str = i32 (pv_getnum_ll str)"

datatype pv_numtype_t = PV_NUMTYPE_INTEGER | PV_NUMTYPE_DOUBLE

text \<open>\<open>pv_getnum_check\<close>: zero when the string is a number of the type asked for.\<close>

definition check_suffix :: "string \<Rightarrow> pv_numtype_t \<Rightarrow> int" where
  "check_suffix s type =
     (if s = [] then 0
      else if type = PV_NUMTYPE_DOUBLE then 1
      else case dropWhile pv_blank s of
             [] \<Rightarrow> 1
           | c # t \<Rightarrow> if unit_shift c = 0 then 1 else if t \<noteq> [] then 1 else 0)"

definition pv_getnum_check :: "string option \<Rightarrow> pv_numtype_t \<Rightarrow> int" where
  "pv_getnum_check str type =
     (case str of
        None \<Rightarrow> 1
      | Some s \<Rightarrow>
          let s = dropWhile pv_blank s
          in if s = [] \<or> \<not> pv__isdigit (hd s) then 1
             else
               let s = dropWhile pv__isdigit s
               in (case s of
                     [] \<Rightarrow> check_suffix s type
                   | c # t \<Rightarrow>
                       if c = CHR ''.'' \<or> c = CHR '','' then
                         (if type = PV_NUMTYPE_INTEGER then 1
                          else check_suffix (dropWhile pv__isdigit t) type)
                       else check_suffix s type))"

section \<open>Digits and units\<close>

lemma pv__isdigit_is_digit [simp]: "pv__isdigit = is_digit"
  by (rule ext) (simp add: pv__isdigit_def is_digit_def)

definition digits_from :: "nat \<Rightarrow> string \<Rightarrow> nat" where
  "digits_from n ds = foldl (\<lambda>n c. 10 * n + digit_val c) n ds"

lemma atoi_digits_from: "atoi_digits ds = digits_from 0 ds"
  by (simp add: atoi_digits_def digits_from_def)

lemma digits_from_simps [simp]:
  "digits_from n [] = n" "digits_from n (c # ds) = digits_from (10 * n + digit_val c) ds"
  by (simp_all add: digits_from_def)

lemma digits_from_ge: "n \<le> digits_from n ds"
proof (induction ds arbitrary: n)
  case (Cons c ds)
  have "n \<le> 10 * n + digit_val c" by simp
  also have "\<dots> \<le> digits_from (10 * n + digit_val c) ds" by (rule Cons.IH)
  finally show ?case by simp
qed simp

lemma getnum_digits_value:
  "\<lbrakk> list_all is_digit ds; int (digits_from n ds) < 2 ^ 63; t = [] \<or> \<not> is_digit (hd t) \<rbrakk>
   \<Longrightarrow> getnum_digits (int n) (ds @ t) = (int (digits_from n ds), t)"
proof (induction ds arbitrary: n)
  case Nil
  then show ?case by (cases t) auto
next
  case (Cons c ds)
  have ge: "10 * n + digit_val c \<le> digits_from (10 * n + digit_val c) ds"
    by (rule digits_from_ge)
  with Cons.prems(2) have b: "int (10 * n + digit_val c) < 2 ^ 63" by simp
  then have "i64 (int n * 10) = int n * 10"
    and "i64 (int n * 10 + int (digit_val c)) = int (10 * n + digit_val c)"
    by (simp_all add: i64_nonneg algebra_simps)
  with Cons.IH [of "10 * n + digit_val c"] Cons.prems show ?case by simp
qed

lemma digit_not_blank: "is_digit c \<Longrightarrow> \<not> pv_blank c"
  by (auto simp: is_digit_def pv_blank_def)

lemma unit_not_blank: "0 < unit_shift c \<Longrightarrow> \<not> pv_blank c \<and> \<not> is_digit c \<and> c \<noteq> CHR ''.'' \<and> c \<noteq> CHR '',''"
proof -
  assume "0 < unit_shift c"
  then have "c \<in> set ''kKmMgGtT''" by (simp add: unit_shift_def split: if_splits) blast+
  then show ?thesis by (auto simp: is_digit_def pv_blank_def)
qed

lemma blank_not_point: "pv_blank c \<Longrightarrow> c \<noteq> CHR ''.'' \<and> c \<noteq> CHR '','' \<and> \<not> is_digit c"
  by (auto simp: is_digit_def pv_blank_def)

lemma skip_to_digit_app:
  "\<lbrakk> list_all (\<lambda>c. \<not> is_digit c) ws; ds \<noteq> []; is_digit (hd ds) \<rbrakk> \<Longrightarrow> skip_to_digit (ws @ ds) = ds"
proof (induction ws)
  case Nil
  then show ?case by (cases ds) simp_all
qed simp

lemma dropWhile_prefix:
  "list_all P xs \<Longrightarrow> t = [] \<or> \<not> P (hd t) \<Longrightarrow> dropWhile P (xs @ t) = t"
  by (induction xs; cases t; auto)

lemma shift_units_value:
  assumes "0 \<le> n" "n * 2 ^ k < 2 ^ 63" "0 \<le> d" "d * 2 ^ k < 2 ^ 63"
  shows "shift_units k n d = (n * 2 ^ k, d * 2 ^ k)"
  using assms
proof (induction k arbitrary: n d rule: less_induct)
  case (less k)
  define b where "b = (if 30 < k then 30 else k)"
  show ?case
  proof (cases "k = 0")
    case False
    then have b: "b \<le> k" "0 < b" and k: "(2::int) ^ k = 2 ^ b * 2 ^ (k - b)"
      by (auto simp: b_def simp flip: power_add)
    have le: "x * 2 ^ b \<le> x * 2 ^ b * 2 ^ (k - b)" if "0 \<le> x" for x :: int
      using mult_left_mono [of 1 "2 ^ (k - b)" "x * 2 ^ b"] that by simp
    have "i64 (n * 2 ^ b) = n * 2 ^ b" "i64 (d * 2 ^ b) = d * 2 ^ b"
      using le [of n] le [of d] less.prems k by (auto intro!: i64_nonneg simp: mult.assoc)
    moreover have "shift_units (k - b) (n * 2 ^ b) (d * 2 ^ b) =
        (n * 2 ^ b * 2 ^ (k - b), d * 2 ^ b * 2 ^ (k - b))"
      using b less.prems k by (intro less.IH) (auto simp: mult.assoc)
    ultimately show ?thesis
      using False k by (subst shift_units.simps) (simp add: b_def [symmetric] Let_def mult.assoc)
  qed (simp add: shift_units.simps)
qed

section \<open>What the check accepts\<close>

text \<open>
  An integer argument: blanks, digits, and either nothing more or blanks and one unit letter.
\<close>

definition integer_arg :: "string \<Rightarrow> string \<Rightarrow> string \<Rightarrow> string \<Rightarrow> string \<Rightarrow> bool" where
  "integer_arg s ws ds bs u \<longleftrightarrow>
     s = ws @ ds @ bs @ u \<and> list_all pv_blank ws \<and> list_all pv_blank bs \<and>
     ds \<noteq> [] \<and> list_all pv__isdigit ds \<and>
     (u = [] \<and> bs = [] \<or> (\<exists>c. u = [c] \<and> 0 < unit_shift c))"

definition unit_factor :: "string \<Rightarrow> int" where
  "unit_factor u = (case u of [] \<Rightarrow> 1 | c # _ \<Rightarrow> 2 ^ unit_shift c)"

lemma integer_arg_tail:
  assumes "integer_arg s ws ds bs u"
  shows "bs @ u = [] \<or> (\<not> is_digit (hd (bs @ u)) \<and> hd (bs @ u) \<noteq> CHR ''.'' \<and> hd (bs @ u) \<noteq> CHR '','')"
  using assms blank_not_point unit_not_blank
  by (cases bs) (auto simp: integer_arg_def)

lemma check_integer_accepts:
  assumes a: "integer_arg s ws ds bs u"
  shows "pv_getnum_check (Some s) PV_NUMTYPE_INTEGER = 0"
proof -
  from a have s: "s = ws @ ds @ bs @ u" and ws: "list_all pv_blank ws" and bs: "list_all pv_blank bs"
    and ds: "ds \<noteq> []" "list_all is_digit ds"
    and u: "u = [] \<and> bs = [] \<or> (\<exists>c. u = [c] \<and> 0 < unit_shift c)"
    by (auto simp: integer_arg_def)
  from ds have hd: "is_digit (hd ds)" by (cases ds) auto
  have 1: "dropWhile pv_blank s = ds @ bs @ u"
    unfolding s using ws ds(1) hd by (intro dropWhile_prefix) (auto simp: digit_not_blank)
  have 2: "dropWhile is_digit (ds @ bs @ u) = bs @ u"
    using ds integer_arg_tail [OF a] by (intro dropWhile_prefix) auto
  have 3: "check_suffix (bs @ u) PV_NUMTYPE_INTEGER = 0"
  proof (cases "u = []")
    case False
    with u obtain c where c: "u = [c]" "0 < unit_shift c" by auto
    with bs have "dropWhile pv_blank (bs @ u) = [c]"
      by (simp add: dropWhile_prefix unit_not_blank)
    with c show ?thesis by (simp add: check_suffix_def)
  qed (use u in \<open>simp add: check_suffix_def\<close>)
  show ?thesis
  proof (cases "bs @ u")
    case Nil
    with 1 2 have d: "dropWhile pv_blank s = ds" "dropWhile is_digit ds = []"
      by (simp_all only: append_Nil2)
    from 3 Nil ds(1) hd show ?thesis by (simp add: pv_getnum_check_def Let_def d)
  next
    case (Cons c r)
    with 1 2 3 ds(1) hd integer_arg_tail [OF a] show ?thesis
      by (simp add: pv_getnum_check_def Let_def)
  qed
qed

lemma check_integer_rejects:
  assumes "pv_getnum_check (Some s) PV_NUMTYPE_INTEGER = 0"
  shows "\<exists>ws ds bs u. integer_arg s ws ds bs u"
proof -
  define t where "t = dropWhile pv_blank s"
  define r where "r = dropWhile is_digit t"
  have t: "t \<noteq> []" "is_digit (hd t)" and r: "check_suffix r PV_NUMTYPE_INTEGER = 0"
    using assms
    by (auto simp: pv_getnum_check_def Let_def t_def [symmetric] r_def [symmetric]
        split: if_splits list.splits)
  let ?ws = "takeWhile pv_blank s" and ?ds = "takeWhile is_digit t"
    and ?bs = "takeWhile pv_blank r" and ?u = "dropWhile pv_blank r"
  have "s = ?ws @ ?ds @ ?bs @ ?u" by (simp add: t_def r_def)
  moreover have "?ds \<noteq> []" using t by (cases t) auto
  moreover have "?u = [] \<and> ?bs = [] \<or> (\<exists>c. ?u = [c] \<and> 0 < unit_shift c)"
    using r by (auto simp: check_suffix_def split: if_splits list.splits)
  ultimately have "integer_arg s ?ws ?ds ?bs ?u"
    by (auto simp: integer_arg_def list_all_iff dest: set_takeWhileD)
  then show ?thesis by blast
qed

lemma getnum_shift_units:
  assumes "integer_arg s ws ds bs u"
  shows "2 ^ getnum_shift (bs @ u) = unit_factor u"
proof (cases "u = []")
  case True
  with assms show ?thesis by (simp add: integer_arg_def getnum_shift_def unit_factor_def)
next
  case False
  with assms obtain c where c: "u = [c]" "0 < unit_shift c" "list_all pv_blank bs"
    by (auto simp: integer_arg_def)
  then have "dropWhile pv_blank (bs @ [c]) = [c]"
    by (simp add: dropWhile_prefix unit_not_blank)
  with c show ?thesis by (simp add: getnum_shift_def unit_factor_def)
qed

lemma getnum_integer_value:
  assumes a: "integer_arg s ws ds bs u"
    and v: "int (atoi_digits ds) * unit_factor u < 2 ^ 63"
  shows "pv_getnum_ll (Some s) = int (atoi_digits ds) * unit_factor u"
proof -
  from a have s: "s = ws @ ds @ bs @ u" and ds: "ds \<noteq> []" "list_all is_digit ds"
    and ws: "list_all (\<lambda>c. \<not> is_digit c) ws"
    by (auto simp: integer_arg_def list_all_iff blank_not_point)
  have k: "unit_factor u = 2 ^ getnum_shift (bs @ u)" using getnum_shift_units [OF a] by simp
  have "int (atoi_digits ds) * 1 \<le> int (atoi_digits ds) * unit_factor u"
    unfolding k by (intro mult_left_mono) simp_all
  with v have n: "int (digits_from 0 ds) < 2 ^ 63" by (simp add: atoi_digits_from)
  from ds have "is_digit (hd (ds @ bs @ u))" by (cases ds) auto
  with ds ws have "skip_to_digit s = ds @ bs @ u"
    unfolding s by (intro skip_to_digit_app) auto
  moreover have "getnum_digits 0 (ds @ bs @ u) = (int (atoi_digits ds), bs @ u)"
    using getnum_digits_value [OF ds(2) n, of "bs @ u"] integer_arg_tail [OF a]
    by (auto simp: atoi_digits_from)
  moreover have "shift_units (getnum_shift (bs @ u)) (int (atoi_digits ds)) 0 =
      (int (atoi_digits ds) * unit_factor u, 0)"
    unfolding k using v k by (subst shift_units_value) auto
  moreover have "i64 (int (atoi_digits ds) * unit_factor u) = int (atoi_digits ds) * unit_factor u"
    using v k by (intro i64_nonneg) auto
  ultimately show ?thesis
    using integer_arg_tail [OF a]
    by (cases "bs @ u") (auto simp: pv_getnum_ll_def signed_divide_int_def)
qed

text \<open>An integer argument that the check accepts is the number and unit it spells, below 2^63.\<close>

theorem getnum_integer:
  assumes "pv_getnum_check (Some s) PV_NUMTYPE_INTEGER = 0"
  shows "\<exists>ws ds bs u. integer_arg s ws ds bs u \<and>
    (int (atoi_digits ds) * unit_factor u < 2 ^ 63 \<longrightarrow>
       pv_getnum_ll (Some s) = int (atoi_digits ds) * unit_factor u)"
  using check_integer_rejects [OF assms] getnum_integer_value by blast

theorem getnum_integer_witness:
  "\<exists>ws ds bs u. integer_arg ''300 K'' ws ds bs u \<and>
    (int (atoi_digits ds) * unit_factor u < 2 ^ 63 \<longrightarrow>
       pv_getnum_ll (Some ''300 K'') = int (atoi_digits ds) * unit_factor u)"
  by (rule getnum_integer) code_simp

text \<open>
  \<open>doc/NEWS\<close> announces decimal sizes and rates; the check turns every one of them away, so
  the decimals \<open>pv_getnum_ll\<close> goes on to handle are never reached from the options.
\<close>

theorem decimal_size_rejected:
  assumes "list_all pv__isdigit ds" "ds \<noteq> []"
  shows "pv_getnum_check (Some (ds @ CHR ''.'' # t)) PV_NUMTYPE_INTEGER = 1"
proof -
  from assms have hd: "is_digit (hd ds)" by (cases ds) auto
  then have "dropWhile pv_blank (ds @ CHR ''.'' # t) = ds @ CHR ''.'' # t"
    using assms(2) by (cases ds) (auto simp: digit_not_blank)
  moreover have "dropWhile is_digit (ds @ CHR ''.'' # t) = CHR ''.'' # t"
    using assms by (intro dropWhile_prefix) (auto simp: is_digit_def)
  ultimately show ?thesis using hd assms(2) by (simp add: pv_getnum_check_def Let_def)
qed

theorem decimal_size_rejected_witness:
  "pv_getnum_check (Some (''1'' @ CHR ''.'' # ''23M'')) PV_NUMTYPE_INTEGER = 1"
  by (rule decimal_size_rejected) (simp_all add: is_digit_def)

lemma decimal_size_value: "pv_getnum_ll (Some ''1.23M'') = 1289748"
  by code_simp

end
