(* ===== verification/PvFormat.thy ===== *)
theory PvFormat
  imports PvState PvNumber
begin

text \<open>
  \<open>tools/pv/src/pv/display.c\<close>: the output format. \<open>pv__format_init\<close> cuts the format string
  into segments; the parts of \<open>pv__format\<close> that use no floating point fill the progress bar and
  assemble the segments in the display buffer. Reading a string at its length gives its NUL.
\<close>

definition fchar :: "string \<Rightarrow> nat \<Rightarrow> char" where
  "fchar s i = (if i < length s then s ! i else CHR 0x00)"

definition PV_DISPLAY_PROGRESS :: nat where "PV_DISPLAY_PROGRESS = 1"
definition PV_DISPLAY_TIMER :: nat where "PV_DISPLAY_TIMER = 2"
definition PV_DISPLAY_ETA :: nat where "PV_DISPLAY_ETA = 4"
definition PV_DISPLAY_RATE :: nat where "PV_DISPLAY_RATE = 8"
definition PV_DISPLAY_AVERAGERATE :: nat where "PV_DISPLAY_AVERAGERATE = 16"
definition PV_DISPLAY_BYTES :: nat where "PV_DISPLAY_BYTES = 32"
definition PV_DISPLAY_NAME :: nat where "PV_DISPLAY_NAME = 64"
definition PV_DISPLAY_BUFPERCENT :: nat where "PV_DISPLAY_BUFPERCENT = 128"
definition PV_DISPLAY_OUTPUTBUF :: nat where "PV_DISPLAY_OUTPUTBUF = 256"
definition PV_DISPLAY_FINETA :: nat where "PV_DISPLAY_FINETA = 512"

lemmas PV_DISPLAY_defs = PV_DISPLAY_PROGRESS_def PV_DISPLAY_TIMER_def PV_DISPLAY_ETA_def
  PV_DISPLAY_RATE_def PV_DISPLAY_AVERAGERATE_def PV_DISPLAY_BYTES_def PV_DISPLAY_NAME_def
  PV_DISPLAY_BUFPERCENT_def PV_DISPLAY_OUTPUTBUF_def PV_DISPLAY_FINETA_def

section \<open>Cutting the format string into segments\<close>

text \<open>The digits after a percent sign: their value as an \<open>int\<close>, and where they end.\<close>

function format_num :: "string \<Rightarrow> nat \<Rightarrow> int \<Rightarrow> int \<times> nat" where
  "format_num fmt strpos num =
     (if strpos < length fmt \<and> is_digit (fchar fmt strpos)
      then format_num fmt (strpos + 1) (i32 (i32 (num * 10) + int (digit_val (fchar fmt strpos))))
      else (num, strpos))"
  by pat_completeness auto
termination by (relation "measure (\<lambda>(fmt, strpos, num). length fmt - strpos)") auto

declare format_num.simps [simp del]

text \<open>\<open>add_segment\<close> fills the entry \<open>format[segment]\<close> and notes the component.\<close>

definition add_segment :: "segment_string \<Rightarrow> int \<Rightarrow> nat \<Rightarrow> pvstate \<Rightarrow> pvstate" where
  "add_segment buf n component st =
     st\<lparr> segments := segments st @ [(buf, n)], components_used := components_used st OR component \<rparr>"

definition set_lastoutput :: "int \<Rightarrow> pvstate \<Rightarrow> pvstate" where
  "set_lastoutput num st =
     (let num = (if 256 < u64 num then 256 else num);
          num = (if num < 1 then 1 else num)
      in st\<lparr> lastoutput_length := nat num \<rparr>)"

text \<open>The \<open>switch\<close> on the character after the percent sign and its number.\<close>

definition format_directive :: "string \<Rightarrow> nat \<Rightarrow> pvstate \<Rightarrow> nat \<times> pvstate" where
  "format_directive fmt strpos st =
     (case format_num fmt (strpos + 1) 0 of (num, strpos) \<Rightarrow>
        let c = fchar fmt strpos in
        if c = CHR ''p'' then (strpos, add_segment Str_progress (- 1) PV_DISPLAY_PROGRESS st)
        else if c = CHR ''t'' then (strpos, add_segment Str_timer 0 PV_DISPLAY_TIMER st)
        else if c = CHR ''e'' then (strpos, add_segment Str_eta 0 PV_DISPLAY_ETA st)
        else if c = CHR ''I'' then (strpos, add_segment Str_fineta 0 PV_DISPLAY_FINETA st)
        else if c = CHR ''A'' then
          (strpos, add_segment Str_lastoutput 0 PV_DISPLAY_OUTPUTBUF (set_lastoutput num st))
        else if c = CHR ''r'' then (strpos, add_segment Str_rate 0 PV_DISPLAY_RATE st)
        else if c = CHR ''a'' then (strpos, add_segment Str_average_rate 0 PV_DISPLAY_AVERAGERATE st)
        else if c = CHR ''b'' then (strpos, add_segment Str_transferred 0 PV_DISPLAY_BYTES st)
        else if c = CHR ''T'' then (strpos, add_segment Str_bufpercent 0 PV_DISPLAY_BUFPERCENT st)
        else if c = CHR ''N'' then
          (strpos, add_segment Str_name (int (length (str_bufs st Str_name))) PV_DISPLAY_NAME st)
        else if c = CHR ''%'' then (strpos, add_segment (Text (drop strpos fmt)) 1 0 st)
        else if c = CHR 0x00 then (strpos - 1, add_segment (Text (drop (strpos - 1) fmt)) 1 0 st)
        else (strpos, add_segment (Text (drop (strpos - 1) fmt)) 2 0 st))"

text \<open>A constant portion, up to the next percent sign (\<open>strchr\<close>) or the end.\<close>

definition format_constant :: "string \<Rightarrow> nat \<Rightarrow> pvstate \<Rightarrow> nat \<times> pvstate" where
  "format_constant fmt strpos st =
     (let foundlength = length (takeWhile (\<lambda>c. c \<noteq> CHR ''%'') (drop strpos fmt))
      in (strpos + foundlength - 1, add_segment (Text (drop strpos fmt)) (int foundlength) 0 st))"

function format_loop :: "string \<Rightarrow> nat \<Rightarrow> nat \<Rightarrow> pvstate \<Rightarrow> pvstate" where
  "format_loop fmt strpos segment st =
     (if fchar fmt strpos \<noteq> CHR 0x00 \<and> segment < 99 then
        (case (if fchar fmt strpos = CHR ''%'' then format_directive fmt strpos st
               else format_constant fmt strpos st) of
           (strpos, st) \<Rightarrow> format_loop fmt (strpos + 1) (segment + 1) st)
      else st)"
  by pat_completeness auto
termination by (relation "measure (\<lambda>(fmt, strpos, segment, st). 99 - segment)") auto

declare format_loop.simps [simp del]

text \<open>\<open>sprintf (state->str_name, "%9.500s:", state->name)\<close>\<close>

definition name_string :: "string \<Rightarrow> string" where
  "name_string s = (let t = take 500 s in replicate (9 - length t) CHR '' '' @ t @ '':'')"

definition pv__format_init :: "pvstate \<Rightarrow> pvstate" where
  "pv__format_init st =
     (let st = st\<lparr> str_bufs := (str_bufs st)(Str_name := [], Str_transferred := [], Str_timer := [],
                 Str_rate := [], Str_average_rate := [], Str_progress := [], Str_eta := []),
                   segments := [] \<rparr>;
          st = (case pv_name st of None \<Rightarrow> st
                | Some s \<Rightarrow> st\<lparr> str_bufs := (str_bufs st)(Str_name := name_string s) \<rparr>);
          formatstr = (case format_string st of Some s \<Rightarrow> s | None \<Rightarrow> default_format st);
          st = st\<lparr> components_used := 0 \<rparr>
      in format_loop formatstr 0 0 st)"

section \<open>The progress bar\<close>

definition pv__calc_percentage :: "int \<Rightarrow> int \<Rightarrow> int" where
  "pv__calc_percentage so_far sz = (if sz < 1 then 0 else i64 (so_far * 100) sdiv sz)"

definition pv__calc_eta :: "int \<Rightarrow> int \<Rightarrow> int \<Rightarrow> int" where
  "pv__calc_eta so_far sz elapsed =
     (if so_far < 1 then 0 else i64 (i64 (sz - so_far) * elapsed) sdiv so_far)"

definition bound_long :: "int \<Rightarrow> int \<Rightarrow> int \<Rightarrow> int" where
  "bound_long x mn mx = (if x < mn then mn else if x > mx then mx else x)"

text \<open>What a segment points at: a buffer's contents, or the rest of the format string.\<close>

definition segment_text :: "pvstate \<Rightarrow> segment_string \<Rightarrow> string" where
  "segment_text st b = (case b of Text s \<Rightarrow> s | _ \<Rightarrow> str_bufs st b)"

text \<open>The length of what surrounds the progress bar.\<close>

fun static_portion :: "pvstate \<Rightarrow> segment list \<Rightarrow> int" where
  "static_portion st [] = 0"
| "static_portion st ((b, n) # segs) =
     (if n < 0 then static_portion st segs
      else if n > 0 then n + static_portion st segs
      else int (length (segment_text st b)) + static_portion st segs)"

text \<open>\<open>available_width\<close>, computed as the code does, and held between 0 and 1008.\<close>

definition clamp_width :: "int \<Rightarrow> int" where
  "clamp_width w = (let w = (if w < 0 then 0 else w) in if w > 1024 - 16 then 1024 - 16 else w)"

text \<open>The three loops of the known-size bar: the equal signs, the arrow, the blanks.\<close>

function bar_equals :: "int \<Rightarrow> int \<Rightarrow> int \<Rightarrow> string \<Rightarrow> int \<times> string" where
  "bar_equals limit aw i s =
     (if i < limit then bar_equals limit aw (i + 1) (if i < aw then s @ ''='' else s) else (i, s))"
  by pat_completeness auto
termination by (relation "measure (\<lambda>(limit, aw, i, s). nat (limit - i))") auto

declare bar_equals.simps [simp del]

definition blanks :: "int \<Rightarrow> string" where
  "blanks n = replicate (nat n) CHR '' ''"

definition known_bar :: "int \<Rightarrow> int \<Rightarrow> string \<Rightarrow> string" where
  "known_bar aw pc pct =
     (let (i, s) = bar_equals ((aw * pc) sdiv 100 - 1) aw 0 ''['';
          (i, s) = (if i < aw then (i + 1, s @ ''>'') else (i, s))
      in s @ blanks (aw - i) @ ''] '' @ pct)"

text \<open>Without a size, the sign \<open><=>\<close> moves right, then left; here the loops write blanks only.\<close>

definition unknown_bar :: "int \<Rightarrow> int \<Rightarrow> string" where
  "unknown_bar aw p =
     (let p = (if p > 100 then 200 - p else p);
          limit = (aw * p) sdiv 100;
          i = (if 0 < limit then limit else 0)
      in ''['' @ blanks (min i aw) @ ''<=>'' @ blanks (aw - i) @ '']'')"

definition pct_string :: "int \<Rightarrow> string" where
  "pct_string n = (let s = itoa n in replicate (2 - length s) CHR '' '' @ s @ ''%'')"

definition progress_bar :: "int \<Rightarrow> pvstate \<Rightarrow> pvstate" where
  "progress_bar static_size st =
     (if 0 < total_size st then
        let pc = (if percentage st < 0 then 0 else percentage st);
            pc = (if pc > 100000 then 100000 else pc);
            pct = pct_string pc;
            aw = clamp_width (width st - static_size - int (length pct) - 3);
            bar = known_bar aw pc pct
        in st\<lparr> percentage := pc, str_bufs := (str_bufs st)(Str_progress :=
             (if int (length bar) + static_size > width st then [] else bar)) \<rparr>
      else
        let bar = unknown_bar (clamp_width (width st - static_size - 5)) (percentage st)
        in st\<lparr> str_bufs := (str_bufs st)(Str_progress :=
             (if int (length bar) + static_size > width st then [] else bar)) \<rparr>)"

section \<open>Assembling the display\<close>

text \<open>
  The loop over the segments. \<open>strncat\<close> stops at the end of what it copies, so a segment adds
  at most its text, while the code counts the length it asked for.
\<close>

fun assemble :: "pvstate \<Rightarrow> int \<Rightarrow> segment list \<Rightarrow> int \<Rightarrow> string \<Rightarrow> string" where
  "assemble st bufsize [] shown out = out"
| "assemble st bufsize ((b, n) # segs) shown out =
     (let n = (if n > 0 then n else int (length (segment_text st b)))
      in if n = 0 then assemble st bufsize segs shown out
         else
           let n = (if n + shown > bufsize - 2 then bufsize - shown - 2 else n)
           in if n < 1 then out
              else if n + shown > width st then out
              else assemble st bufsize segs (shown + n) (out @ take (nat n) (segment_text st b)))"

text \<open>The allocation of the display buffer, which is 16 bytes longer than its noted size.\<close>

definition alloc_display :: "pvstate \<Rightarrow> pvstate" where
  "alloc_display st =
     (let st = (case display_buffer_size st of
                  Some n \<Rightarrow> if n < width st * 2 then st\<lparr> display_buffer_size := None \<rparr> else st
                | None \<Rightarrow> st)
      in case display_buffer_size st of
           Some n \<Rightarrow> st
         | None \<Rightarrow> st\<lparr> display_buffer_size :=
             Some (2 * width st + 80 + (case pv_name st of None \<Rightarrow> 0 | Some s \<Rightarrow> int (length s))) \<rparr>)"

definition build_display :: "pvstate \<Rightarrow> string \<times> pvstate" where
  "build_display st =
     (let out = assemble st (case display_buffer_size st of Some n \<Rightarrow> n | None \<Rightarrow> 0) (segments st) 0 [];
          output_length = int (length out);
          spaces = (if output_length < prev_length st \<and> prev_width st \<le> width st
                    then min 15 (prev_length st - output_length) else 0)
      in (out @ blanks spaces,
          st\<lparr> prev_width := width st, prev_length := output_length + spaces \<rparr>))"

section \<open>The bar fits its buffer\<close>

lemma length_natoa: "n < 10 ^ k \<Longrightarrow> 0 < k \<Longrightarrow> length (natoa n) \<le> k"
proof (induction n arbitrary: k rule: natoa.induct)
  case (1 n)
  show ?case
  proof (cases "n < 10")
    case True
    with 1(3) show ?thesis by (simp add: natoa.simps [of n])
  next
    case False
    with 1(2,3) obtain j where k: "k = Suc j" "0 < j" by (cases k; cases "k - 1") auto
    with 1(2) have "n div 10 < 10 ^ j" by (simp add: less_mult_imp_div_less mult.commute)
    with 1(1) False k show ?thesis by (simp add: natoa.simps [of n])
  qed
qed

lemma length_blanks [simp]: "length (blanks n) = nat n"
  by (simp add: blanks_def)

lemma bar_equals_value:
  "i \<le> max limit 0 \<Longrightarrow> 0 \<le> i \<Longrightarrow> 0 \<le> aw \<Longrightarrow>
   bar_equals limit aw i s =
     (max limit i, s @ replicate (nat (min limit aw) - nat (min i aw)) CHR ''='')"
proof (induction limit aw i s rule: bar_equals.induct)
  case (1 limit aw i s)
  show ?case
  proof (cases "i < limit")
    case True
    with 1 have "bar_equals limit aw i s = bar_equals limit aw (i + 1) (if i < aw then s @ ''='' else s)"
      by (simp add: bar_equals.simps [of limit aw i])
    also have "\<dots> = (max limit (i + 1), (if i < aw then s @ ''='' else s) @
        replicate (nat (min limit aw) - nat (min (i + 1) aw)) CHR ''='')"
      using 1 True by simp
    also have "(if i < aw then s @ ''='' else s) @
        replicate (nat (min limit aw) - nat (min (i + 1) aw)) CHR ''='' =
        s @ replicate (nat (min limit aw) - nat (min i aw)) CHR ''=''"
    proof (cases "i < aw")
      case True
      with \<open>i < limit\<close> 1(3) have "nat (min limit aw) - nat (min i aw) =
          Suc (nat (min limit aw) - nat (min (i + 1) aw))"
        by (auto simp: min_def)
      with True show ?thesis by simp
    qed (simp add: min_def)
    finally show ?thesis using True by (simp add: max_def)
  next
    case False
    then have "nat (min limit aw) - nat (min i aw) = 0"
      by (intro diff_is_0_eq [THEN iffD2] nat_mono) auto
    with False show ?thesis by (simp add: bar_equals.simps [of limit aw i] max_def)
  qed
qed

lemma length_known_bar: "0 \<le> aw \<Longrightarrow> length (known_bar aw pc pct) = 3 + nat aw + length pct"
  using bar_equals_value [of 0 "(aw * pc) sdiv 100 - 1" aw "''[''"]
  by (auto simp: known_bar_def Let_def max_def min_def)

lemma length_unknown_bar: "0 \<le> aw \<Longrightarrow> length (unknown_bar aw p) = 5 + nat aw"
  by (auto simp: unknown_bar_def Let_def min_def)

lemma clamp_width_range: "0 \<le> clamp_width w" "clamp_width w \<le> 1008"
  by (simp_all add: clamp_width_def Let_def)

lemma length_pct_string: "0 \<le> n \<Longrightarrow> n \<le> 100000 \<Longrightarrow> length (pct_string n) \<le> 7"
  using length_natoa [of "nat n" 6] nat_mono [of n 100000]
  by (simp add: pct_string_def itoa_def Let_def)

text \<open>
  Whatever the width, the percentage and the other segments, the bar with its final NUL fits
  \<open>str_progress[1024]\<close>, and it is dropped when it would not fit the line.
\<close>

theorem progress_bar_fits:
  "length (str_bufs (progress_bar n st) Str_progress) < 1024 \<and>
   (str_bufs (progress_bar n st) Str_progress = [] \<or>
    int (length (str_bufs (progress_bar n st) Str_progress)) + n \<le> width st)"
proof -
  have k: "length (known_bar (clamp_width w) pc (pct_string q)) \<le> 1018"
    if "0 \<le> q" "q \<le> 100000" for w pc q
    using clamp_width_range [of w] length_pct_string [OF that]
    by (simp add: length_known_bar nat_le_iff)
  have u: "length (unknown_bar (clamp_width w) p) \<le> 1013" for w p
    using clamp_width_range [of w] by (simp add: length_unknown_bar nat_le_iff)
  define q where "q = (if (if percentage st < 0 then 0 else percentage st) > 100000 then 100000
      else (if percentage st < 0 then 0 else percentage st))"
  have q: "0 \<le> q" "q \<le> 100000" by (simp_all add: q_def)
  have "length (known_bar (clamp_width w) q (pct_string q)) < 1024" for w
    using k [OF q, of w q] by simp
  moreover have "length (unknown_bar (clamp_width w) p) < 1024" for w p
    using u [of w p] by simp
  ultimately show ?thesis
    by (simp add: progress_bar_def Let_def q_def [symmetric])
qed

section \<open>The display fits its buffer and the line\<close>

declare assemble.simps(2) [simp del]

lemma assemble_length:
  assumes "int (length out) \<le> shown" "shown \<le> bufsize - 2" "shown \<le> width st"
  shows "int (length (assemble st bufsize segs shown out)) \<le> bufsize - 2 \<and>
    int (length (assemble st bufsize segs shown out)) \<le> width st"
  using assms
proof (induction st bufsize segs shown out rule: assemble.induct)
  case (1 st bufsize shown out)
  then show ?case by simp
next
  case (2 st bufsize b n segs shown out)
  define k where "k = (if n > 0 then n else int (length (segment_text st b)))"
  define m where "m = (if k + shown > bufsize - 2 then bufsize - shown - 2 else k)"
  have eq: "assemble st bufsize ((b, n) # segs) shown out =
      (if k = 0 then assemble st bufsize segs shown out
       else if m < 1 then out
       else if m + shown > width st then out
       else assemble st bufsize segs (shown + m) (out @ take (nat m) (segment_text st b)))"
    by (simp only: assemble.simps Let_def k_def m_def)
  consider "k = 0" | "k \<noteq> 0" "m < 1 \<or> m + shown > width st"
    | "k \<noteq> 0" "1 \<le> m" "m + shown \<le> width st" by linarith
  then show ?case
  proof cases
    case 1
    then show ?thesis using 2(1) [OF k_def] 2(3-5) by (simp add: eq)
  next
    case 2
    then show ?thesis using \<open>int (length out) \<le> shown\<close> \<open>shown \<le> bufsize - 2\<close> \<open>shown \<le> width st\<close>
      by (auto simp: eq)
  next
    case 3
    have "int (length (out @ take (nat m) (segment_text st b))) \<le> shown + m"
      using 2(3) 3(2) by simp
    moreover have "shown + m \<le> bufsize - 2" by (simp add: m_def)
    ultimately show ?thesis
      using 2(2) [OF k_def 3(1) m_def] 3 by (simp add: eq not_less)
  qed
qed

definition display_inv :: "pvstate \<Rightarrow> bool" where
  "display_inv st \<longleftrightarrow> 0 \<le> prev_length st \<and> prev_length st \<le> prev_width st \<and>
     (case display_buffer_size st of None \<Rightarrow> True | Some n \<Rightarrow> 80 \<le> n)"

text \<open>
  The text shown fits both the buffer, which has \<open>display_buffer_size + 16\<close> bytes, NUL
  included, and the terminal line, also when blanks are added to wipe a longer text; and what
  the next call relies on holds again.
\<close>

theorem display_fits:
  assumes "display_inv st" "0 \<le> width st"
    and "build_display (alloc_display st) = (out, st')"
  shows "int (length out) \<le> width st \<and> display_inv st' \<and>
    (\<exists>n. display_buffer_size st' = Some n \<and> int (length out) + 1 \<le> n + 16)"
proof -
  have "\<exists>n. display_buffer_size (alloc_display st) = Some n \<and> 80 \<le> n"
    using assms(1,2)
    by (cases "display_buffer_size st"; cases "pv_name st")
      (simp_all add: alloc_display_def Let_def display_inv_def)
  then obtain n where n: "display_buffer_size (alloc_display st) = Some n" "80 \<le> n" by blast
  have same: "width (alloc_display st) = width st" "prev_length (alloc_display st) = prev_length st"
    "prev_width (alloc_display st) = prev_width st"
    by (auto simp: alloc_display_def Let_def split: option.splits)
  let ?o = "assemble (alloc_display st) n (segments (alloc_display st)) 0 []"
  have len: "int (length ?o) \<le> n - 2" "int (length ?o) \<le> width st"
    using assemble_length [of "[]" 0 n "alloc_display st"] n(2) assms(2) same(1) by auto
  show ?thesis
    using assms(1,3) len n same
    by (auto simp: build_display_def Let_def display_inv_def min_def split: if_splits)
qed

theorem display_fits_witness:
  "let st = (the (pv_state_alloc True ''pv''))\<lparr> width := 20, prev_width := 20, prev_length := 9 \<rparr>;
       (out, st') = build_display (alloc_display st)
   in int (length out) \<le> width st \<and> display_inv st' \<and>
     (\<exists>n. display_buffer_size st' = Some n \<and> int (length out) + 1 \<le> n + 16)"
proof -
  let ?st = "(the (pv_state_alloc True ''pv''))\<lparr> width := 20, prev_width := 20, prev_length := 9 \<rparr>"
  obtain out st' where r: "build_display (alloc_display ?st) = (out, st')" by force
  have "display_inv ?st" "0 \<le> width ?st"
    by (simp_all add: display_inv_def pv_state_alloc_def)
  from display_fits [OF this r] show ?thesis by (simp only: Let_def r prod.case)
qed

section \<open>The old-style format and its components\<close>

text \<open>
  \<open>pv_state_set_format\<close> writes directives with a blank between two of them; cutting that
  string up finds the same directives.
\<close>

fun join_blank :: "string list \<Rightarrow> string" where
  "join_blank [] = []"
| "join_blank [d] = d"
| "join_blank (d # e # ds) = d @ CHR '' '' # join_blank (e # ds)"

lemma join_blank_snoc: "join_blank (ds @ [d]) = (if ds = [] then d else join_blank ds @ CHR '' '' # d)"
  by (induction ds rule: join_blank.induct) auto

lemma join_blank_empty: "\<forall>d \<in> set ds. d \<noteq> [] \<Longrightarrow> join_blank ds = [] \<longleftrightarrow> ds = []"
  by (cases ds rule: join_blank.cases) auto

definition directives ::
  "bool \<Rightarrow> bool \<Rightarrow> bool \<Rightarrow> bool \<Rightarrow> bool \<Rightarrow> bool \<Rightarrow> bool \<Rightarrow> bool \<Rightarrow> nat \<Rightarrow> bool \<Rightarrow> (nat \<times> char) list" where
  "directives progress timer eta fineta rate average_rate bytes bufpercent lastwritten named =
     (if named then [(0, CHR ''N'')] else []) @ (if bytes then [(0, CHR ''b'')] else []) @
     (if bufpercent then [(0, CHR ''T'')] else []) @ (if timer then [(0, CHR ''t'')] else []) @
     (if rate then [(0, CHR ''r'')] else []) @ (if average_rate then [(0, CHR ''a'')] else []) @
     (if progress then [(0, CHR ''p'')] else []) @ (if eta then [(0, CHR ''e'')] else []) @
     (if fineta then [(0, CHR ''I'')] else []) @
     (if 0 < lastwritten then [(lastwritten, CHR ''A'')] else [])"

definition directive_text :: "nat \<times> char \<Rightarrow> string" where
  "directive_text d = CHR ''%'' # (if fst d = 0 then [] else natoa (fst d)) @ [snd d]"

abbreviation format_of :: "(nat \<times> char) list \<Rightarrow> string" where
  "format_of ds \<equiv> join_blank (map directive_text ds)"

lemma directive_text_ne: "directive_text d \<noteq> []"
  by (simp add: directive_text_def)

lemma add_format:
  "PV_ADDFORMAT x (directive_text d) (st\<lparr> default_format := format_of ds \<rparr>) =
   st\<lparr> default_format := format_of (ds @ (if x then [d] else [])) \<rparr>"
  using directive_text_ne
  by (cases "ds = []") (simp_all add: PV_ADDFORMAT_def Let_def join_blank_snoc join_blank_empty)

lemma directive_literals:
  "''%N'' = directive_text (0, CHR ''N'')" "''%b'' = directive_text (0, CHR ''b'')"
  "''%T'' = directive_text (0, CHR ''T'')" "''%t'' = directive_text (0, CHR ''t'')"
  "''%r'' = directive_text (0, CHR ''r'')" "''%a'' = directive_text (0, CHR ''a'')"
  "''%p'' = directive_text (0, CHR ''p'')" "''%e'' = directive_text (0, CHR ''e'')"
  "''%I'' = directive_text (0, CHR ''I'')"
  "0 < n \<Longrightarrow> CHR ''%'' # natoa n @ ''A'' = directive_text (n, CHR ''A'')"
  by (simp_all add: directive_text_def)

lemma set_format_text:
  "default_format (pv_state_set_format st progress timer eta fineta rate average_rate bytes bufpercent n name) =
   format_of (directives progress timer eta fineta rate average_rate bytes bufpercent n (name \<noteq> None))"
proof -
  have 0: "st\<lparr> default_format := [] \<rparr> = st\<lparr> default_format := format_of [] \<rparr>" by simp
  show ?thesis
  proof (cases "0 < n")
    case True
    then show ?thesis
      unfolding pv_state_set_format_def Let_def 0
      by (simp only: directive_literals if_True,
          simp only: add_format directives_def append_assoc append_Nil if_True,
          simp split del: if_split del: map_append)
  next
    case False
    then show ?thesis
      unfolding pv_state_set_format_def Let_def 0
      by (simp only: directive_literals if_False,
          simp only: add_format directives_def append_assoc append_Nil append_Nil2 if_False,
          simp split del: if_split del: map_append)
  qed
qed

text \<open>The digits of a directive are read back.\<close>

lemma fchar_app [simp]:
  "fchar (pre @ t) (length pre) = (case t of [] \<Rightarrow> CHR 0x00 | c # _ \<Rightarrow> c)"
  by (cases t) (simp_all add: fchar_def nth_append)

lemma format_num_digits:
  "\<lbrakk> list_all is_digit ds; digits_from m ds < 2 ^ 31; t = [] \<or> \<not> is_digit (hd t) \<rbrakk> \<Longrightarrow>
   format_num (pre @ ds @ t) (length pre) (int m) = (int (digits_from m ds), length pre + length ds)"
proof (induction ds arbitrary: pre m)
  case Nil
  then show ?case by (subst format_num.simps) (cases t; simp)
next
  case (Cons c ds)
  have b: "10 * m + digit_val c < 2 ^ 31"
    using Cons.prems(2) digits_from_ge [of "10 * m + digit_val c" ds] by simp
  then have i: "i32 (i32 (int m * 10) + int (digit_val c)) = int (10 * m + digit_val c)"
    by (simp add: i32_id)
  have "format_num (pre @ (c # ds) @ t) (length pre) (int m) =
      format_num ((pre @ [c]) @ ds @ t) (length (pre @ [c])) (int (10 * m + digit_val c))"
    using Cons.prems(1) i by (subst format_num.simps) simp
  also have "\<dots> = (int (digits_from m (c # ds)), length pre + length (c # ds))"
    using Cons.IH [of "10 * m + digit_val c" "pre @ [c]"] Cons.prems by simp
  finally show ?case .
qed

definition directive_bit :: "char \<Rightarrow> nat" where
  "directive_bit c =
     (if c = CHR ''N'' then PV_DISPLAY_NAME else if c = CHR ''b'' then PV_DISPLAY_BYTES
      else if c = CHR ''T'' then PV_DISPLAY_BUFPERCENT else if c = CHR ''t'' then PV_DISPLAY_TIMER
      else if c = CHR ''r'' then PV_DISPLAY_RATE else if c = CHR ''a'' then PV_DISPLAY_AVERAGERATE
      else if c = CHR ''p'' then PV_DISPLAY_PROGRESS else if c = CHR ''e'' then PV_DISPLAY_ETA
      else if c = CHR ''I'' then PV_DISPLAY_FINETA else if c = CHR ''A'' then PV_DISPLAY_OUTPUTBUF
      else 0)"

fun components_of :: "(nat \<times> char) list \<Rightarrow> nat" where
  "components_of [] = 0"
| "components_of (d # ds) = directive_bit (snd d) OR components_of ds"

definition is_directive :: "nat \<times> char \<Rightarrow> bool" where
  "is_directive d \<longleftrightarrow> fst d < 2 ^ 31 \<and> snd d \<in> set ''NbTtrapeIA''"

lemma directive_step:
  assumes d: "is_directive d"
  shows "\<exists>st'. format_directive (pre @ directive_text d @ t) (length pre) st =
      (length pre + length (directive_text d) - 1, st') \<and>
    components_used st' = components_used st OR directive_bit (snd d)"
proof -
  obtain n c where dd: "d = (n, c)" by force
  define ds where "ds = (if n = 0 then [] else natoa n)"
  have "digits_from 0 ds = n"
  proof (cases "n = 0")
    case False
    then have "ds = natoa n" by (simp add: ds_def)
    then show ?thesis using atoi_natoa [of n] by (simp only: atoi_digits_from)
  qed (simp add: ds_def)
  with d dd have n: "digits_from 0 ds < 2 ^ 31" by (simp add: is_directive_def)
  from d dd have c: "c \<in> set ''NbTtrapeIA''" by (simp add: is_directive_def)
  from c have nd: "\<not> is_digit c" by (auto simp: is_digit_def)
  have "list_all is_digit ds" by (simp add: ds_def natoa_all_digits)
  with n nd have num: "format_num ((pre @ ''%'') @ ds @ c # t) (length (pre @ ''%'')) (int 0) =
      (int (digits_from 0 ds), length (pre @ ''%'') + length ds)"
    by (intro format_num_digits) auto
  have fmt: "pre @ directive_text d @ t = (pre @ ''%'') @ ds @ c # t"
    by (simp add: dd directive_text_def ds_def)
  have "fchar ((pre @ ''%'' @ ds) @ c # t) (length (pre @ ''%'' @ ds)) = c"
    by (simp only: fchar_app) simp
  then have ch: "fchar (pre @ directive_text d @ t) (length pre + 1 + length ds) = c"
    by (simp add: fmt)
  have len: "length (directive_text d) = length ds + 2"
    by (simp add: dd directive_text_def ds_def)
  from num fmt have num': "format_num (pre @ directive_text d @ t) (length pre + 1) 0 =
      (int (digits_from 0 ds), length pre + 1 + length ds)"
    by simp
  have sd: "snd d = c" by (simp add: dd)
  have pos: "length pre + 1 + length ds = length pre + length (directive_text d) - 1"
    by (simp add: len)
  from c consider "c = CHR ''N''" | "c = CHR ''b''" | "c = CHR ''T''" | "c = CHR ''t''"
    | "c = CHR ''r''" | "c = CHR ''a''" | "c = CHR ''p''" | "c = CHR ''e''" | "c = CHR ''I''"
    | "c = CHR ''A''" by auto
  then show ?thesis
    unfolding format_directive_def num' prod.case Let_def ch sd pos [symmetric]
    by cases (simp_all add: add_segment_def directive_bit_def set_lastoutput_def Let_def)
qed

lemma blank_step:
  assumes "d = CHR ''%'' # t"
  shows "format_constant (pre @ CHR '' '' # d) (length pre) st =
    (length pre, add_segment (Text (CHR '' '' # d)) 1 0 st)"
  using assms by (simp add: format_constant_def Let_def)

lemma directive_text_head: "\<exists>t. directive_text d = CHR ''%'' # t"
  by (simp add: directive_text_def)

lemma format_loop_directives:
  "\<lbrakk> list_all is_directive ds; segment + 2 * length ds \<le> 99 \<rbrakk> \<Longrightarrow>
   components_used (format_loop (pre @ format_of ds) (length pre) segment st) =
     components_used st OR components_of ds"
proof (induction ds arbitrary: pre segment st)
  case Nil
  then show ?case using fchar_app [of pre "[]"] by (simp add: format_loop.simps [of pre])
next
  case (Cons d ds)
  define t where "t = (case ds of [] \<Rightarrow> [] | _ \<Rightarrow> CHR '' '' # format_of ds)"
  have fmt: "format_of (d # ds) = directive_text d @ t" by (cases ds) (simp_all add: t_def)
  from Cons.prems(1) have d: "is_directive d" by simp
  obtain st1 where st1: "format_directive (pre @ directive_text d @ t) (length pre) st =
      (length pre + length (directive_text d) - 1, st1)"
    and c1: "components_used st1 = components_used st OR directive_bit (snd d)"
    using directive_step [OF d] by blast
  obtain u where u: "directive_text d = CHR ''%'' # u" using directive_text_head by blast
  let ?pre1 = "pre @ directive_text d"
  have 1: "format_loop (pre @ format_of (d # ds)) (length pre) segment st =
      format_loop (?pre1 @ t) (length ?pre1) (segment + 1) st1"
    using Cons.prems(2) fchar_app [of pre "directive_text d @ t"] st1 u
    unfolding fmt by (subst format_loop.simps) simp
  show ?case
  proof (cases ds)
    case Nil
    then have "t = []" by (simp add: t_def)
    with 1 c1 Nil show ?thesis
      using fchar_app [of ?pre1 "[]"] by (simp add: format_loop.simps [of ?pre1])
  next
    case (Cons e es)
    then have t: "t = CHR '' '' # format_of ds" by (simp add: t_def)
    obtain v where v: "format_of ds = CHR ''%'' # v"
      using directive_text_head [of e] Cons by (cases es) auto
    let ?st2 = "add_segment (Text t) 1 0 st1"
    have "format_loop (?pre1 @ t) (length ?pre1) (segment + 1) st1 =
        format_loop ((?pre1 @ '' '') @ format_of ds) (length (?pre1 @ '' '')) (segment + 2) ?st2"
      using Cons.prems(2) blank_step [OF v, of ?pre1 st1] fchar_app [of ?pre1 t] t Cons
      by (subst format_loop.simps) (simp add: add.assoc)
    with Cons.IH [of "segment + 2" "?pre1 @ '' ''" ?st2] Cons.prems 1 c1 show ?thesis
      by (simp add: add_segment_def or.assoc)
  qed
qed

lemma components_of_append: "components_of (xs @ ys) = components_of xs OR components_of ys"
  by (induction xs) (simp_all add: or.assoc)

lemma components_of_if: "components_of (if x then [d] else []) = (if x then directive_bit (snd d) else 0)"
  by simp

lemma directives_ok:
  assumes "n < 2 ^ 31"
  shows "list_all is_directive (directives p t e f r a b T n named)"
    and "length (directives p t e f r a b T n named) \<le> 10"
  using assms by (simp_all add: directives_def is_directive_def)

lemma add_format_keeps: "format_string (PV_ADDFORMAT x y st) = format_string st"
  by (simp add: PV_ADDFORMAT_def Let_def)

lemma set_format_other:
  "format_string (pv_state_set_format st p t e f r a b T n name) = format_string st"
  "pv_name (pv_state_set_format st p t e f r a b T n name) = name"
  by (simp_all add: pv_state_set_format_def Let_def add_format_keeps)

text \<open>
  C32. The displays chosen by options are the components of the format that is cut up from the string
  the options were turned into.
\<close>

theorem display_components:
  assumes "format_string st = None" "n < 2 ^ 31"
  shows "components_used (pv__format_init (pv_state_set_format st progress timer eta fineta rate
      average_rate bytes bufpercent n name)) =
    (if name \<noteq> None then PV_DISPLAY_NAME else 0) OR (if bytes then PV_DISPLAY_BYTES else 0) OR
    (if bufpercent then PV_DISPLAY_BUFPERCENT else 0) OR (if timer then PV_DISPLAY_TIMER else 0) OR
    (if rate then PV_DISPLAY_RATE else 0) OR (if average_rate then PV_DISPLAY_AVERAGERATE else 0) OR
    (if progress then PV_DISPLAY_PROGRESS else 0) OR (if eta then PV_DISPLAY_ETA else 0) OR
    (if fineta then PV_DISPLAY_FINETA else 0) OR (if 0 < n then PV_DISPLAY_OUTPUTBUF else 0)"
proof -
  define st1 where "st1 = pv_state_set_format st progress timer eta fineta rate average_rate bytes
    bufpercent n name"
  define ds where "ds = directives progress timer eta fineta rate average_rate bytes bufpercent n (name \<noteq> None)"
  have "format_string st1 = None" "default_format st1 = format_of ds"
    using assms(1) by (simp_all add: st1_def ds_def set_format_other set_format_text)
  then obtain st2 where i: "pv__format_init st1 = format_loop (format_of ds) 0 0 st2"
    and c: "components_used st2 = 0"
    by (cases "pv_name st1") (simp_all add: pv__format_init_def Let_def)
  have "components_used (format_loop ([] @ format_of ds) (length ([] :: string)) 0 st2) =
      components_used st2 OR components_of ds"
    using directives_ok [OF assms(2), of progress timer eta fineta rate average_rate bytes bufpercent
        "name \<noteq> None"]
    by (intro format_loop_directives) (simp_all only: ds_def)
  then have "components_used (pv__format_init st1) = components_of ds"
    by (simp add: i c)
  then show ?thesis
    unfolding st1_def ds_def directives_def components_of_append components_of_if
    by (simp add: directive_bit_def)
qed

theorem display_components_witness:
  "components_used (pv__format_init (pv_state_set_format (the (pv_state_alloc True ''pv''))
     True True False False False False True False 12 (Some ''job''))) = 64 OR 32 OR 2 OR 1 OR 256"
  by (subst display_components) (simp_all add: pv_state_alloc_def PV_DISPLAY_defs)

text \<open>The string built from the options stays within \<open>default_format[512]\<close>.\<close>

lemma join_blank_length: "length (join_blank ds) \<le> sum_list (map length ds) + length ds"
  by (induction ds rule: join_blank.induct) auto

theorem default_format_fits:
  assumes "n < 2 ^ 32"
  shows "length (default_format (pv_state_set_format st progress timer eta fineta rate
    average_rate bytes bufpercent n name)) < 512"
proof -
  let ?ds = "directives progress timer eta fineta rate average_rate bytes bufpercent n (name \<noteq> None)"
  have "length (natoa n) \<le> 10" using length_natoa [of n 10] assms by simp
  then have "sum_list (map length (map directive_text ?ds)) + length ?ds \<le> 50"
    by (simp add: directives_def directive_text_def)
  with join_blank_length [of "map directive_text ?ds"] show ?thesis
    by (simp add: set_format_text)
qed

theorem default_format_fits_witness:
  "length (default_format (pv_state_set_format (the (pv_state_alloc True ''pv'')) True True True True
     True True True True 4294967295 (Some ''job''))) < 512"
  by (rule default_format_fits) simp

text \<open>
  An unknown directive that carries a number loses part of it: the comment of the code says that
  \<open>%z\<close> is shown as \<open>%z\<close>, but \<open>%12z\<close> is shown as \<open>2z\<close>.
\<close>

lemma unknown_directive_number:
  "format_directive ''%12z'' 0 st = (3, add_segment (Text ''2z'') 2 0 st)"
proof -
  have "format_num ''%12z'' 1 0 = (12, 3)"
    by (simp add: format_num.simps fchar_def is_digit_def digit_val_def i32_def)
  then show ?thesis by (simp add: format_directive_def fchar_def)
qed

end
