(* ===== verification/PvUnits.thy ===== *)
theory PvUnits
  imports PvFormat
begin

text \<open>
  \<open>tools/pv/src/pv/display.c\<close>: amounts as text, three digits with a prefix. A \<open>long double\<close> is an
  exact rational, as everywhere in the development, so its rounding is not modelled; the rounding
  that \<open>printf\<close> does to decimal digits is, to the nearest and ties to the even digit.
\<close>

section \<open>Decimal digits of a number\<close>

text \<open>The cast of a \<open>long double\<close> to \<open>long\<close>, for values in range.\<close>

definition to_long :: "rat \<Rightarrow> int" where
  "to_long r = (if r < 0 then - \<lfloor>- r\<rfloor> else \<lfloor>r\<rfloor>)"

definition round_even :: "rat \<Rightarrow> int" where
  "round_even r =
     (let n = \<lfloor>r\<rfloor>; d = r - of_int n
      in if d < 1 / 2 then n else if 1 / 2 < d then n + 1 else if even n then n else n + 1)"

text \<open>\<open>%0wld\<close>, and \<open>m / 10 ^ p\<close> written with \<open>p\<close> decimal places and always a point.\<close>

definition zero_pad :: "nat \<Rightarrow> int \<Rightarrow> string" where
  "zero_pad w n =
     (if n < 0 then CHR ''-'' # replicate (w - 1 - length (natoa (nat (- n)))) CHR ''0'' @ natoa (nat (- n))
      else replicate (w - length (natoa (nat n))) CHR ''0'' @ natoa (nat n))"

definition fixed_point :: "nat \<Rightarrow> nat \<Rightarrow> string" where
  "fixed_point m p = natoa (m div 10 ^ p) @ CHR ''.'' # (if p = 0 then [] else zero_pad p (int (m mod 10 ^ p)))"

text \<open>The exponent of a positive number in the decimal system.\<close>

lemma floor_tenth:
  fixes x :: rat
  assumes "1 \<le> x"
  shows "nat \<lfloor>x / 10\<rfloor> < nat \<lfloor>x\<rfloor>"
proof -
  have "10 * \<lfloor>x / 10\<rfloor> \<le> \<lfloor>x\<rfloor>" by (simp add: le_floor_iff) linarith
  moreover have "1 \<le> \<lfloor>x\<rfloor>" using assms by (simp add: le_floor_iff)
  ultimately show ?thesis by linarith
qed

function exp_up :: "rat \<Rightarrow> nat" where
  "exp_up a = (if 10 \<le> a then Suc (exp_up (a / 10)) else 0)"
  by pat_completeness auto
termination
proof (relation "measure (\<lambda>a. nat \<lfloor>a\<rfloor>)")
  fix a :: rat
  assume "10 \<le> a"
  then show "(a / 10, a) \<in> measure (\<lambda>a. nat \<lfloor>a\<rfloor>)" using floor_tenth [of a] by simp
qed simp

function exp_down :: "rat \<Rightarrow> nat" where
  "exp_down a = (if 0 < a \<and> a < 1 then Suc (exp_down (a * 10)) else 0)"
  by pat_completeness auto
termination
proof (relation "measure (\<lambda>a. nat \<lfloor>1 / a\<rfloor>)")
  fix a :: rat
  assume "0 < a \<and> a < 1"
  then show "(a * 10, a) \<in> measure (\<lambda>a. nat \<lfloor>1 / a\<rfloor>)" using floor_tenth [of "1 / a"] by simp
qed simp

declare exp_up.simps [simp del] exp_down.simps [simp del]

definition dec_exp :: "rat \<Rightarrow> int" where
  "dec_exp a = (if a < 1 then - int (exp_down a) else int (exp_up a))"

text \<open>
  \<open>%#.3Lg\<close>: three significant digits; the usual notation for exponents from -4 to 2, after the
  rounding, and the scientific one otherwise.
\<close>

definition three_digits :: "rat \<Rightarrow> int \<times> int" where
  "three_digits a =
     (let x = dec_exp a; m = round_even (a * 10 powi (2 - x))
      in if m = 1000 then (100, x + 1) else (m, x))"

definition sci_point :: "int \<Rightarrow> int \<Rightarrow> string" where
  "sci_point m x = fixed_point (nat m) 2 @ CHR ''e'' # (if x < 0 then CHR ''-'' else CHR ''+'') # zero_pad 2 \<bar>x\<bar>"

definition abs_g3 :: "rat \<Rightarrow> string" where
  "abs_g3 a =
     (if a = 0 then ''0'' @ CHR ''.'' # ''00''
      else case three_digits a of (m, x) \<Rightarrow>
        if - 4 \<le> x \<and> x < 3 then fixed_point (nat m) (nat (2 - x)) else sci_point m x)"

definition fmt_g3 :: "rat \<Rightarrow> string" where
  "fmt_g3 r = (if r < 0 then CHR ''-'' # abs_g3 (- r) else abs_g3 r)"

definition pad_left :: "nat \<Rightarrow> string \<Rightarrow> string" where
  "pad_left w s = replicate (w - length s) CHR '' '' @ s"

section \<open>The prefix\<close>

definition pfx_000 :: string where "pfx_000 = ''yzafpnum kMGTPEZY''"
definition pfx_024 :: string where "pfx_024 = ''yzafpnum KMGTPEZY''"

text \<open>
  The two loops. The index moves on before the test for the end of the string; the second loop ends
  before the first prefix.
\<close>

function si_up :: "string \<Rightarrow> rat \<Rightarrow> rat \<Rightarrow> rat \<Rightarrow> nat \<Rightarrow> char \<Rightarrow> rat \<times> nat \<times> char" where
  "si_up pfx ratio cutoff v i c =
     (if cutoff < v then
        if fchar pfx (i + 1) \<noteq> CHR 0x00
        then si_up pfx ratio cutoff (v / ratio) (i + 1) (fchar pfx (i + 1))
        else (v, i + 1, c)
      else (v, i, c))"
  by pat_completeness auto
termination
  by (relation "measure (\<lambda>(pfx, ratio, cutoff, v, i, c). length pfx - i)") (auto simp: fchar_def split: if_splits)

declare si_up.simps [simp del]

fun si_down :: "string \<Rightarrow> rat \<Rightarrow> rat \<Rightarrow> nat \<Rightarrow> char \<Rightarrow> rat \<times> char" where
  "si_down pfx ratio v 0 c = (v, c)"
| "si_down pfx ratio v (Suc i) c =
     (if v < 1 then si_down pfx ratio (v * ratio) i (fchar pfx i) else (v, c))"

definition pv__si_prefix :: "rat \<Rightarrow> rat \<Rightarrow> bool \<Rightarrow> rat \<times> string" where
  "pv__si_prefix v ratio is_bytes =
     (let pfx = (if is_bytes then pfx_024 else pfx_000);
          pfx_middle = length (takeWhile (\<lambda>c. c \<noteq> CHR '' '') pfx)
      in if v = 0 then (v, '' '')
         else
           let cutoff = ratio * (97 / 100);
               (v, i, c) = si_up pfx ratio cutoff v pfx_middle CHR '' '';
               (v, c) = si_down pfx ratio v i c
           in (v, if is_bytes \<and> c \<noteq> CHR '' '' then [c, CHR ''i''] else [c]))"

section \<open>The amount\<close>

text \<open>
  The text before and after stands for the format, which is \<open>%s\<close> or the same in brackets; every
  buffer it is used with has 128 bytes.
\<close>

definition size_digits :: "rat \<Rightarrow> string" where
  "size_digits v = (if 999 / 10 < v then pad_left 4 (itoa (to_long v)) else pad_left 4 (fmt_g3 v))"

definition pv__sizestr :: "string \<Rightarrow> string \<Rightarrow> rat \<Rightarrow> string \<Rightarrow> string \<Rightarrow> bool \<Rightarrow> string" where
  "pv__sizestr left right amount suffix_basic suffix_bytes is_bytes =
     (let suffix = (if is_bytes then suffix_bytes else suffix_basic);
          divider = (if is_bytes then 1024 else 1000);
          (display_amount, si_prefix) = pv__si_prefix amount divider is_bytes;
          display_amount = (if 100000 < display_amount then 100000 else display_amount);
          sizestr_buffer = size_digits display_amount @ take 2 si_prefix @ take 16 suffix
      in take 127 (left @ sizestr_buffer @ right))"


section \<open>The prefix is the right one\<close>

text \<open>The prefix of a power of the ratio.\<close>

definition prefix_text :: "bool \<Rightarrow> int \<Rightarrow> string" where
  "prefix_text is_bytes k =
     (let c = (if is_bytes then pfx_024 else pfx_000) ! nat (8 + k)
      in if is_bytes \<and> k \<noteq> 0 then [c, CHR ''i''] else [c])"

definition unit_ratio :: "bool \<Rightarrow> rat" where
  "unit_ratio is_bytes = (if is_bytes then 1024 else 1000)"

lemma fchar_nth: "i < length s \<Longrightarrow> CHR 0x00 \<notin> set s \<Longrightarrow> fchar s i \<noteq> CHR 0x00 \<and> fchar s i = s ! i"
  by (auto simp: fchar_def in_set_conv_nth)

lemma si_up_result:
  assumes "CHR 0x00 \<notin> set pfx" "i < length pfx" "c = pfx ! i" "0 < v" "1 < ratio"
    and "si_up pfx ratio cutoff v i c = (v', i', c')"
  shows "\<exists>j. i \<le> j \<and> j < length pfx \<and> c' = pfx ! j \<and> 0 < v' \<and> v = v' * ratio ^ (j - i) \<and>
    (i' = j \<and> v' \<le> cutoff \<or> i' = length pfx \<and> Suc j = length pfx \<and> cutoff < v')"
  using assms
proof (induction pfx ratio cutoff v i c rule: si_up.induct)
  case (1 pfx ratio cutoff v i c)
  consider "v \<le> cutoff" | "cutoff < v" "Suc i = length pfx" | "cutoff < v" "Suc i < length pfx"
    using 1(3) by linarith
  then show ?case
  proof cases
    case 1
    then have "v' = v" "i' = i" "c' = c"
      using \<open>si_up pfx ratio cutoff v i c = _\<close> by (simp_all add: si_up.simps [of pfx ratio cutoff v i c])
    then show ?thesis using 1 \<open>0 < v\<close> \<open>i < length pfx\<close> \<open>c = pfx ! i\<close> by auto
  next
    case 2
    then have "v' = v" "i' = length pfx" "c' = c"
      using \<open>si_up pfx ratio cutoff v i c = _\<close> by (auto simp: si_up.simps [of pfx ratio cutoff v i c] fchar_def)
    then show ?thesis using 2 \<open>0 < v\<close> \<open>c = pfx ! i\<close> by (intro exI [of _ i]) auto
  next
    case 3
    then have "i + 1 < length pfx" by simp
    note f = fchar_nth [OF this 1(2), THEN conjunct1] fchar_nth [OF this 1(2), THEN conjunct2]
    have "si_up pfx ratio cutoff (v / ratio) (i + 1) (fchar pfx (i + 1)) = (v', i', c')"
      using 1(7) 3(1) f(1) by (simp add: si_up.simps [of pfx ratio cutoff v i c])
    then obtain j where j: "i + 1 \<le> j" "j < length pfx" "c' = pfx ! j" "0 < v'"
        "v / ratio = v' * ratio ^ (j - (i + 1))"
        "i' = j \<and> v' \<le> cutoff \<or> i' = length pfx \<and> Suc j = length pfx \<and> cutoff < v'"
      using 1(1) [OF 3(1) f(1) 1(2) _ f(2)] 3(2) 1(5,6) by auto
    have "ratio ^ (j - i) = ratio ^ (j - (i + 1)) * ratio"
      using j(1) by (metis Suc_diff_le Suc_eq_plus1 diff_Suc_Suc power_Suc2)
    then have "v = v' * ratio ^ (j - i)" using j(5) 1(6) by (simp add: field_simps)
    then show ?thesis using j by (intro exI [of _ j]) auto
  qed
qed

lemma si_down_result:
  assumes "i < length pfx" "c = pfx ! i" "0 < v" "1 < ratio" "si_down pfx ratio v i c = (v', c')"
  shows "\<exists>j. j \<le> i \<and> c' = pfx ! j \<and> v' = v * ratio ^ (i - j) \<and> (1 \<le> v' \<or> j = 0) \<and> (j < i \<longrightarrow> v' < ratio)"
  using assms
proof (induction pfx ratio v i c rule: si_down.induct)
  case (1 pfx ratio v c)
  then show ?case by simp
next
  case (2 pfx ratio v i c)
  show ?case
  proof (cases "v < 1")
    case False
    with 2 show ?thesis by (auto intro: exI [of _ "Suc i"])
  next
    case True
    have f: "fchar pfx i = pfx ! i" using 2(2) by (simp add: fchar_def)
    have "i < length pfx" "0 < v * ratio" "si_down pfx ratio (v * ratio) i (fchar pfx i) = (v', c')"
      using 2(2,4,5,6) True by simp_all
    from 2(1) [OF True this(1) f this(2) 2(5) this(3)] obtain j where
      j: "j \<le> i" "c' = pfx ! j" "v' = v * ratio * ratio ^ (i - j)" "1 \<le> v' \<or> j = 0"
        "j < i \<longrightarrow> v' < ratio" by blast
    have "v' < ratio"
    proof (cases "j < i")
      case False
      with j(1,3) have "v' = v * ratio" by simp
      then show ?thesis using True 2(5) by simp
    qed (use j(5) in simp)
    moreover have "v' = v * ratio ^ (Suc i - j)" using j(1,3) by (simp add: Suc_diff_le)
    ultimately show ?thesis using j(1,2,4) by (intro exI [of _ j]) auto
  qed
qed

text \<open>What the two loops leave is at least 1 and less than the ratio, and the prefix says how often it was divided.\<close>

theorem si_prefix_normal:
  assumes "0 < v" "v < unit_ratio b ^ 9"
  shows "\<exists>k v'. pv__si_prefix v (unit_ratio b) b = (v', prefix_text b k) \<and> - 8 \<le> k \<and> k \<le> 8 \<and>
    v = v' * unit_ratio b powi k \<and> (1 \<le> v' \<or> k = - 8) \<and> v' < unit_ratio b"
proof -
  define pfx where "pfx = (if b then pfx_024 else pfx_000)"
  define q where "q = unit_ratio b"
  have pfx: "CHR 0x00 \<notin> set pfx" "length pfx = 17" "pfx ! 8 = CHR '' ''"
    "length (takeWhile (\<lambda>c. c \<noteq> CHR '' '') pfx) = 8" "\<And>i. i < 17 \<Longrightarrow> pfx ! i = CHR '' '' \<longleftrightarrow> i = 8"
    by (auto simp: pfx_def pfx_024_def pfx_000_def nth_Cons split: nat.splits)
  have q: "1 < q" "q * (97 / 100) < q" "1 < q * (97 / 100)" by (auto simp: q_def unit_ratio_def)
  obtain v1 i1 c1 where up: "si_up pfx q (q * (97 / 100)) v 8 CHR '' '' = (v1, i1, c1)"
    by (rule prod_cases3)
  from si_up_result [OF pfx(1) _ _ assms(1) q(1) up] pfx(2,3) obtain j where
    j: "8 \<le> j" "j < 17" "c1 = pfx ! j" "0 < v1" "v = v1 * q ^ (j - 8)"
      "i1 = j \<and> v1 \<le> q * (97 / 100) \<or> i1 = 17 \<and> Suc j = 17 \<and> q * (97 / 100) < v1" by auto
  have shown: "pv__si_prefix v q b = (v', prefix_text b (int m - 8))"
    if "si_down pfx q v1 i1 c1 = (v', pfx ! m)" "m < 17" for v' m
  proof -
    have "(if b \<and> pfx ! m \<noteq> CHR '' '' then [pfx ! m, CHR ''i''] else [pfx ! m]) = prefix_text b (int m - 8)"
      using that(2) pfx(5) by (auto simp: prefix_text_def Let_def pfx_def)
    then show ?thesis
      using assms(1) up that(1) pfx(4) by (simp add: pv__si_prefix_def Let_def flip: pfx_def)
  qed
  have val: "v = v1 * q ^ (j - m) * q powi (int m - 8)" if "m \<le> j" for m
  proof -
    have "int (j - m) + (int m - 8) = int (j - 8)" using j(1) that by simp
    moreover have "q powi (int (j - m) + (int m - 8)) = q powi int (j - m) * q powi (int m - 8)"
      by (rule power_int_add) (use q(1) in simp)
    ultimately have "q ^ (j - 8) = q ^ (j - m) * q powi (int m - 8)" by (simp only: power_int_of_nat)
    with j(5) show ?thesis by (simp only: mult.assoc)
  qed
  from j(6) show ?thesis
  proof
    assume le: "i1 = j \<and> v1 \<le> q * (97 / 100)"
    obtain v' c' where down: "si_down pfx q v1 i1 c1 = (v', c')" by (rule prod.exhaust)
    with si_down_result [of j pfx c1 v1 q v' c'] j q(1) le pfx(2) obtain m where
      m: "m \<le> j" "c' = pfx ! m" "v' = v1 * q ^ (j - m)" "1 \<le> v' \<or> m = 0" "m < j \<longrightarrow> v' < q" by auto
    have "v' < q" using m(1,3,5) le q(2) by (cases "m = j") auto
    then show ?thesis
      using shown [of v' m] down m val [of m] j(2)
      by (intro exI [of _ "int m - 8"] exI [of _ v']) (auto simp: q_def)
  next
    assume top: "i1 = 17 \<and> Suc j = 17 \<and> q * (97 / 100) < v1"
    then have "si_down pfx q v1 i1 c1 = (v1, pfx ! 16)" "j = 16" using q(3) j(3) by (auto simp: numeral_eq_Suc)
    moreover have "v1 < q"
    proof -
      have "v1 * q ^ 8 < q * q ^ 8" using assms(2) j(5) \<open>j = 16\<close> by (simp add: q_def flip: power_Suc)
      then show ?thesis using q(1) by simp
    qed
    ultimately show ?thesis
      using shown [of v1 16] val [of 16] top q(3)
      by (intro exI [of _ 8] exI [of _ v1]) (auto simp: q_def)
  qed
qed


theorem si_prefix_normal_witness:
  "\<exists>k v'. pv__si_prefix 1500000 1000 False = (v', prefix_text False k) \<and> - 8 \<le> k \<and> k \<le> 8 \<and>
    1500000 = v' * 1000 powi k \<and> (1 \<le> v' \<or> k = - 8) \<and> v' < 1000"
  using si_prefix_normal [of 1500000 False] by (simp add: unit_ratio_def)

section \<open>The digits are close to the amount\<close>

definition decimal :: "nat \<Rightarrow> nat \<Rightarrow> string" where
  "decimal m p = (if p = 0 then natoa m else fixed_point m p)"

lemma round_even_near: "\<bar>of_int (round_even r) - r\<bar> \<le> 1 / 2"
  using of_int_floor_le [of r] floor_correct [of r]
  unfolding round_even_def Let_def abs_if by (simp; linarith)

lemma round_even_mono_int: "of_int n \<le> r \<Longrightarrow> n \<le> round_even r" "r \<le> of_int n \<Longrightarrow> round_even r \<le> n"
proof -
  assume "of_int n \<le> r"
  then have "n \<le> \<lfloor>r\<rfloor>" by (simp add: le_floor_iff)
  then show "n \<le> round_even r" by (auto simp: round_even_def Let_def)
next
  assume r: "r \<le> of_int n"
  consider "\<lfloor>r\<rfloor> < n" | "r = of_int n" using r by (metis floor_less_iff not_le order_antisym less_le)
  then show "round_even r \<le> n"
    by cases (auto simp: round_even_def Let_def)
qed

lemma three_digits_small:
  assumes "1 \<le> v" "v \<le> 999 / 10"
  shows "\<exists>m x. three_digits v = (int m, x) \<and> (x = 0 \<or> x = 1) \<and> 100 \<le> m \<and> m < 1000 \<and>
    \<bar>of_nat m / 10 ^ nat (2 - x) - v\<bar> \<le> v / 200"
proof (cases "v < 10")
  case True
  then have e: "dec_exp v = 0" using assms by (simp add: dec_exp_def exp_up.simps)
  define m where "m = round_even (v * 100)"
  have m: "100 \<le> m" "m \<le> 1000" "\<bar>of_int m - v * 100\<bar> \<le> 1 / 2"
    unfolding m_def
    by (rule round_even_mono_int, use assms(1) in simp)
      (rule round_even_mono_int, use True in simp, rule round_even_near)
  have d: "three_digits v = (if m = 1000 then (100, 1) else (m, 0))"
    by (simp add: three_digits_def Let_def e m_def)
  show ?thesis
  proof (cases "m = 1000")
    case True
    with m(3) have "\<bar>10 - v\<bar> \<le> 1 / 200" by (simp add: abs_if split: if_splits)
    with True d assms(1) show ?thesis
      by (intro exI [of _ 100] exI [of _ 1]) (simp add: abs_if split: if_splits)
  next
    case False
    have "\<bar>of_int m / 100 - v\<bar> \<le> v / 200"
      using m(3) assms(1) by (simp add: abs_if split: if_splits)
    with False d m(1,2) show ?thesis
      by (intro exI [of _ "nat m"] exI [of _ 0]) (simp, linarith)
  qed
next
  case False
  then have e: "dec_exp v = 1" using assms by (simp add: dec_exp_def exp_up.simps)
  define m where "m = round_even (v * 10)"
  have m: "100 \<le> m" "m \<le> 999" "\<bar>of_int m - v * 10\<bar> \<le> 1 / 2"
    unfolding m_def
    by (rule round_even_mono_int, use False in simp)
      (rule round_even_mono_int, use assms(2) in simp, rule round_even_near)
  have d: "three_digits v = (m, 1)"
    using m(2) by (simp add: three_digits_def Let_def e m_def)
  have "\<bar>of_int m / 10 - v\<bar> \<le> v / 200"
    using m(3) False by (simp add: abs_if split: if_splits)
  with d m(1,2) show ?thesis
    by (intro exI [of _ "nat m"] exI [of _ 1]) (simp, linarith)
qed

lemma length_natoa_digits: "10 ^ k \<le> n \<Longrightarrow> n < 10 ^ Suc k \<Longrightarrow> length (natoa n) = Suc k"
proof (induction k arbitrary: n)
  case 0
  then show ?case by (simp add: natoa.simps)
next
  case (Suc k)
  have "10 ^ k \<le> n div 10" "n div 10 < 10 ^ Suc k" using Suc(2,3) by (simp_all add: less_eq_div_iff_mult_less_eq div_less_iff_less_mult)
  moreover have "\<not> n < 10" using Suc(2) by (simp add: not_less) (metis le_trans mult_le_mono2 mult.right_neutral one_le_numeral one_le_power)
  ultimately show ?case using Suc(1) by (subst natoa.simps) simp
qed


lemma length_zero_pad: "n < 10 ^ p \<Longrightarrow> 0 < p \<Longrightarrow> length (zero_pad p (int n)) = p"
  using length_natoa [of n p] by (simp add: zero_pad_def)

lemma length_fixed_point:
  "100 \<le> m \<Longrightarrow> m < 1000 \<Longrightarrow> length (fixed_point m 1) = 4" "100 \<le> m \<Longrightarrow> m < 1000 \<Longrightarrow> length (fixed_point m 2) = 4"
  using length_natoa_digits [of 1 "m div 10"] length_natoa_digits [of 0 "m div 100"]
    length_zero_pad [of "m mod 10" 1] length_zero_pad [of "m mod 100" 2]
  by (simp_all add: fixed_point_def)

lemma size_digits_value:
  assumes "1 \<le> v" "v < 10000"
  shows "\<exists>m p. size_digits v = pad_left 4 (decimal m p) \<and> length (size_digits v) = 4 \<and>
    \<bar>of_nat m / 10 ^ p - v\<bar> \<le> v / 99"
proof (cases "999 / 10 < v")
  case True
  have f: "of_int \<lfloor>v\<rfloor> \<le> v" "v < of_int \<lfloor>v\<rfloor> + 1" "99 \<le> \<lfloor>v\<rfloor>" "\<lfloor>v\<rfloor> < 10000"
    using floor_correct [of v] True assms(2) by (simp_all add: le_floor_iff floor_less_iff)
  have s: "size_digits v = pad_left 4 (decimal (nat \<lfloor>v\<rfloor>) 0)"
    using True f(3) by (simp add: size_digits_def to_long_def itoa_def decimal_def)
  moreover have "length (size_digits v) = 4"
  proof -
    have "int (nat \<lfloor>v\<rfloor>) = \<lfloor>v\<rfloor>" using f(3) by simp
    with f(4) have "nat \<lfloor>v\<rfloor> < 10000" by linarith
    then have "length (natoa (nat \<lfloor>v\<rfloor>)) \<le> 4" by (intro length_natoa) simp_all
    then show ?thesis unfolding s by (simp add: pad_left_def decimal_def)
  qed
  moreover have "\<bar>of_nat (nat \<lfloor>v\<rfloor>) / 10 ^ 0 - v\<bar> \<le> v / 99"
  proof -
    have "\<bar>of_int \<lfloor>v\<rfloor> - v\<bar> \<le> 1" "1 \<le> v / 99" using f(1,2) True by (linarith, simp)
    with f(3) show ?thesis by simp
  qed
  ultimately show ?thesis by blast
next
  case False
  then obtain m x where t: "three_digits v = (int m, x)" "x = 0 \<or> x = 1" "100 \<le> m" "m < 1000"
    "\<bar>of_nat m / 10 ^ nat (2 - x) - v\<bar> \<le> v / 200" using three_digits_small [of v] assms(1) by auto
  have s: "size_digits v = pad_left 4 (decimal m (nat (2 - x)))"
    using False assms(1) t(1,2) by (auto simp: size_digits_def fmt_g3_def abs_g3_def decimal_def)
  moreover have "length (size_digits v) = 4"
    unfolding s using length_fixed_point [OF t(3,4)] t(2) by (auto simp: pad_left_def decimal_def)
  moreover have "v / 200 \<le> v / 99" using assms(1) by simp
  ultimately show ?thesis using t(5) by (meson order_trans)
qed

text \<open>
  C36. The text of an amount in the unit of its prefix: four characters for the number, which is the amount
  to within a hundredth, then the prefix and the suffix, whole.
\<close>

theorem size_accuracy:
  assumes "1 \<le> amount" "amount < unit_ratio b ^ 9" "length left + length right \<le> 100"
  shows "\<exists>m p k. pv__sizestr left right amount basic bytes b =
      left @ pad_left 4 (decimal m p) @ prefix_text b k @ take 16 (if b then bytes else basic) @ right \<and>
    length (pad_left 4 (decimal m p)) = 4 \<and> 0 \<le> k \<and> k \<le> 8 \<and>
    \<bar>of_nat m / 10 ^ p * unit_ratio b powi k - amount\<bar> \<le> amount / 99"
proof -
  define q where "q = unit_ratio b"
  have q: "1 < q" "q \<le> 1024" "q = (if b then 1024 else 1000)" by (auto simp: q_def unit_ratio_def)
  obtain k v where k: "pv__si_prefix amount q b = (v, prefix_text b k)" "- 8 \<le> k" "k \<le> 8"
    "amount = v * q powi k" "1 \<le> v \<or> k = - 8" "v < q"
    using si_prefix_normal [of amount b] assms(1,2) by (auto simp: q_def)
  have pos: "0 < q powi k" using q(1) by simp
  have "0 \<le> k"
  proof (rule ccontr)
    assume "\<not> 0 \<le> k"
    then have "q powi (k + 1) \<le> q powi 0" using q(1) by (intro power_int_increasing) auto
    moreover have "amount < q * q powi k" using k(4,6) pos by simp
    ultimately show False using assms(1) q(1) by (simp add: power_int_add mult.commute)
  qed
  then have "1 \<le> v" using k(5) by simp
  with k(6) q(2) obtain m p where d: "size_digits v = pad_left 4 (decimal m p)" "length (size_digits v) = 4"
    "\<bar>of_nat m / 10 ^ p - v\<bar> \<le> v / 99" using size_digits_value [of v] by auto
  have "length (prefix_text b k) \<le> 2" by (simp add: prefix_text_def Let_def)
  then have "pv__sizestr left right amount basic bytes b =
      left @ size_digits v @ prefix_text b k @ take 16 (if b then bytes else basic) @ right"
    using k(1,6) q d(2) assms(3) by (simp add: pv__sizestr_def Let_def)
  moreover have "\<bar>of_nat m / 10 ^ p * q powi k - amount\<bar> \<le> amount / 99"
  proof -
    have "\<bar>of_nat m / 10 ^ p * q powi k - amount\<bar> = \<bar>of_nat m / 10 ^ p - v\<bar> * q powi k"
      using pos unfolding k(4) by (simp only: left_diff_distrib [symmetric] abs_mult abs_of_pos)
    also have "\<dots> \<le> v / 99 * q powi k" using d(3) pos by (intro mult_right_mono) auto
    finally show ?thesis by (simp add: k(4))
  qed
  ultimately show ?thesis using d(1,2) \<open>0 \<le> k\<close> k(3) by (auto simp: q_def)
qed

theorem size_accuracy_witness:
  "\<exists>m p k. pv__sizestr ''['' '']'' 1234567 ''/s'' ''B/s'' True =
      ''['' @ pad_left 4 (decimal m p) @ prefix_text True k @ ''B/s'' @ '']'' \<and>
    length (pad_left 4 (decimal m p)) = 4 \<and> \<bar>of_nat m / 10 ^ p * 1024 powi k - 1234567\<bar> \<le> (1234567 / 99 :: rat)"
  using size_accuracy [of 1234567 True "''[''" "'']''" "''/s''" "''B/s''"]
  by (simp add: unit_ratio_def) blast

text \<open>
  The comment gives the range from 1 to 999.999 for what the prefix leaves, and three or four digits
  for the text. Counting in powers of 1024 leaves up to 1023, which the second loop brings back
  below the cutoff of the first, and between 99.9 and 100 there are two digits.
\<close>

lemma prefix_of_1023: "pv__si_prefix 1023 1024 True = (1023, '' '')"
  by (simp add: pv__si_prefix_def Let_def pfx_024_def si_up.simps fchar_def numeral_eq_Suc)

lemma two_digits_shown: "pv__sizestr [] [] (9995 / 100) [] ''B'' True = ''  99 B''"
  by code_simp

text \<open>A negative amount is multiplied up to the smallest prefix.\<close>

lemma negative_amount_prefix: "v < 0 \<Longrightarrow> pv__si_prefix v 1024 True = (v * 1024 ^ 8, ''yi'')"
  by (simp add: pv__si_prefix_def Let_def pfx_024_def si_up.simps fchar_def numeral_eq_Suc)

end
