(* ===== verification/PvTransfer.thy ===== *)
theory PvTransfer
  imports PvState
begin

text \<open>
  \<open>tools/pv/src/pv/transfer.c\<close>: moving data from an input file to standard output, in the
  build with \<open>splice\<close> and with \<open>MAXIMISE_BUFFER_FILL\<close>. The system calls are the parameter
  \<open>sysio\<close> over a world \<open>'w\<close>; a call that fails returns \<open>Inl\<close> with its \<open>errno\<close>.
  Buffer positions are natural numbers, their unsigned differences wrap at 64 bits (\<open>usub64\<close>).
  The alarm that bounds a blocked \<open>write\<close> is one of the ways in which \<open>write\<close> can fail.
\<close>

record 'w sysio =
  sys_time :: "'w \<Rightarrow> (int \<times> int) \<times> 'w"
  sys_read :: "int \<Rightarrow> nat \<Rightarrow> 'w \<Rightarrow> (int + bytes) \<times> 'w"
  sys_write :: "int \<Rightarrow> bytes \<Rightarrow> 'w \<Rightarrow> (int + nat) \<times> 'w"
  sys_splice :: "int \<Rightarrow> nat \<Rightarrow> 'w \<Rightarrow> (int + nat) \<times> 'w"
  sys_lseek :: "int \<Rightarrow> int \<Rightarrow> int \<Rightarrow> 'w \<Rightarrow> (int + int) \<times> 'w"
  sys_select :: "int list \<Rightarrow> int list \<Rightarrow> int \<Rightarrow> 'w \<Rightarrow> (int + int list \<times> int list) \<times> 'w"
  sys_alloc :: "nat \<Rightarrow> 'w \<Rightarrow> bytes option \<times> 'w"
  strerror :: "int \<Rightarrow> string"

definition EINTR :: int where "EINTR = 4"
definition EAGAIN :: int where "EAGAIN = 11"
definition EINVAL :: int where "EINVAL = 22"
definition EPIPE :: int where "EPIPE = 32"
definition STDIN_FILENO :: int where "STDIN_FILENO = 0"
definition STDOUT_FILENO :: int where "STDOUT_FILENO = 1"
definition SEEK_SET :: int where "SEEK_SET = 0"
definition SEEK_CUR :: int where "SEEK_CUR = 1"
definition SEEK_END :: int where "SEEK_END = 2"
definition MAX_READ_AT_ONCE :: nat where "MAX_READ_AT_ONCE = 524288"
definition MAX_WRITE_AT_ONCE :: nat where "MAX_WRITE_AT_ONCE = 524288"
definition TRANSFER_READ_TIMEOUT :: int where "TRANSFER_READ_TIMEOUT = 90000"
definition TRANSFER_WRITE_TIMEOUT :: int where "TRANSFER_WRITE_TIMEOUT = 900000"

lemmas errno_defs = EINTR_def EAGAIN_def EINVAL_def EPIPE_def STDIN_FILENO_def STDOUT_FILENO_def

definition usub64 :: "nat \<Rightarrow> nat \<Rightarrow> nat" where
  "usub64 a b = nat ((int a - int b) mod 2 ^ 64)"

lemma usub64_le: "b \<le> a \<Longrightarrow> a < 2 ^ 64 \<Longrightarrow> usub64 a b = a - b"
  by (simp add: usub64_def nat_diff_distrib)

definition elapsed_usec :: "int \<times> int \<Rightarrow> int \<times> int \<Rightarrow> int" where
  "elapsed_usec start now = 1000000 * (fst now - fst start) + (snd now - snd start)"

text \<open>The result of \<open>select\<close>: the number of descriptors that are ready, negative on error.\<close>

definition ready :: "(int + int list \<times> int list) \<Rightarrow> int" where
  "ready r = (case r of Inl _ \<Rightarrow> - 1 | Inr (rs, ws) \<Rightarrow> int (length rs + length ws))"

section \<open>Reading and writing for as long as it goes\<close>

text \<open>
  \<open>pv__transfer_read_repeated\<close>: the bytes stored in the buffer, and the error that ended the
  loop, in which case the code returns \<open>-1\<close> whatever had been stored.
\<close>

function read_loop ::
  "'w sysio \<Rightarrow> int \<Rightarrow> int \<times> int \<Rightarrow> nat \<Rightarrow> bytes \<Rightarrow> 'w \<Rightarrow> (bytes \<times> int option) \<times> 'w" where
  "read_loop S fd start_time n got w =
     (if 0 < n then
        case sys_read S fd (if n > MAX_READ_AT_ONCE then MAX_READ_AT_ONCE else n) w of
          (Inl e, w) \<Rightarrow> ((got, Some e), w)
        | (Inr d, w) \<Rightarrow>
            if d = [] then ((got, None), w)
            else
              (case sys_time S w of (now, w) \<Rightarrow>
                 if elapsed_usec start_time now > TRANSFER_READ_TIMEOUT then ((got @ d, None), w)
                 else if 0 < n - length d then
                   (case sys_select S [fd] [] 0 w of (r, w) \<Rightarrow>
                      if ready r < 1 then ((got @ d, None), w)
                      else read_loop S fd start_time (n - length d) (got @ d) w)
                 else read_loop S fd start_time (n - length d) (got @ d) w)
      else ((got, None), w))"
  by pat_completeness auto
termination by (relation "measure (\<lambda>(S, fd, start_time, n, got, w). n)") auto

declare read_loop.simps [simp del]

definition pv__transfer_read_repeated ::
  "'w sysio \<Rightarrow> int \<Rightarrow> nat \<Rightarrow> 'w \<Rightarrow> (bytes \<times> int option) \<times> 'w" where
  "pv__transfer_read_repeated S fd n w =
     (case sys_time S w of (start_time, w) \<Rightarrow> read_loop S fd start_time n [] w)"

function write_loop ::
  "'w sysio \<Rightarrow> int \<Rightarrow> int \<times> int \<Rightarrow> bytes \<Rightarrow> nat \<Rightarrow> 'w \<Rightarrow> (int + nat) \<times> 'w" where
  "write_loop S fd start_time buf total_written w =
     (if buf \<noteq> [] then
        case sys_write S fd (take MAX_WRITE_AT_ONCE buf) w of
          (Inl e, w) \<Rightarrow> (if e = EINTR \<or> e = EAGAIN then (Inr total_written, w) else (Inl e, w))
        | (Inr k, w) \<Rightarrow>
            if k = 0 then (Inr total_written, w)
            else
              (case sys_time S w of (now, w) \<Rightarrow>
                 if elapsed_usec start_time now > TRANSFER_WRITE_TIMEOUT then (Inr (total_written + k), w)
                 else write_loop S fd start_time (drop k buf) (total_written + k) w)
      else (Inr total_written, w))"
  by pat_completeness auto
termination by (relation "measure (\<lambda>(S, fd, start_time, buf, total, w). length buf)") auto

declare write_loop.simps [simp del]

definition pv__transfer_write_repeated ::
  "'w sysio \<Rightarrow> int \<Rightarrow> bytes \<Rightarrow> 'w \<Rightarrow> (int + nat) \<times> 'w" where
  "pv__transfer_write_repeated S fd buf w =
     (case sys_time S w of (start_time, w) \<Rightarrow> write_loop S fd start_time buf 0 w)"

section \<open>Reading into the buffer\<close>

text \<open>The two flags the caller passes by reference.\<close>

record eofs =
  eof_in :: bool
  eof_out :: bool

abbreviation buf_of :: "pvstate \<Rightarrow> bytes" where
  "buf_of st \<equiv> (case transfer_buffer st of Some b \<Rightarrow> b | None \<Rightarrow> [])"

definition store_at :: "nat \<Rightarrow> bytes \<Rightarrow> pvstate \<Rightarrow> pvstate" where
  "store_at pos d st = st\<lparr> transfer_buffer := Some (overwrite 0 pos d (buf_of st)) \<rparr>"

definition end_of_input :: "pvstate \<Rightarrow> eofs \<Rightarrow> eofs" where
  "end_of_input st eof =
     (let eof = eof\<lparr> eof_in := True \<rparr>
      in if write_position st \<ge> read_position st then eof\<lparr> eof_out := True \<rparr> else eof)"

definition set_exit :: "nat \<Rightarrow> pvstate \<Rightarrow> pvstate" where
  "set_exit n st = st\<lparr> exit_status := exit_status st OR n \<rparr>"

text \<open>How far to skip after so many errors in a row, down to a multiple of that amount.\<close>

definition skip_amount :: "nat \<Rightarrow> int \<Rightarrow> int" where
  "skip_amount errors orig_offset =
     (let amount = (if errors < 10 then (if errors < 5 then 1 else 2)
                    else if errors < 20 then 2 ^ (errors - 10) else 512)
      in if amount > 1 then
           let skip_offset = orig_offset + amount;
               skip_offset = skip_offset - skip_offset mod amount
           in if skip_offset > orig_offset then skip_offset - orig_offset else amount
         else amount)"

text \<open>The end of \<open>pv__transfer_read\<close>: skip past an error that is not transient.\<close>

definition skip_error ::
  "'w sysio \<Rightarrow> pvstate \<Rightarrow> int \<Rightarrow> eofs \<Rightarrow> nat \<Rightarrow> int \<Rightarrow> 'w \<Rightarrow> int \<times> pvstate \<times> eofs \<times> 'w" where
  "skip_error S st fd eof bytes_can_read e w =
     (let st = (if \<not> read_error_warning_shown st
                then (pv_error (current_file st @ '': warning: read errors detected: '' @ strerror S e) st)
                       \<lparr> read_error_warning_shown := True \<rparr>
                else st)
      in case sys_lseek S fd 0 SEEK_CUR w of
           (Inl e, w) \<Rightarrow>
             (let st = pv_error (current_file st @ '': file is not seekable: '' @ strerror S e) st
              in (1, st, end_of_input st eof, w))
         | (Inr orig_offset, w) \<Rightarrow>
             let amount = skip_amount (read_errors_in_a_row st) orig_offset;
                 amount = (if amount > int bytes_can_read then int bytes_can_read else amount);
                 (r, w) = (case sys_lseek S fd (orig_offset + amount) SEEK_SET w of
                             (Inl e, w) \<Rightarrow> sys_lseek S fd (orig_offset + 1) SEEK_SET w
                           | (Inr off, w) \<Rightarrow> (Inr off, w));
                 (amount_skipped, st, eof) =
                   (case r of
                      Inl e \<Rightarrow>
                        (- 1,
                         (if e \<noteq> EINVAL
                          then pv_error (current_file st @ '': failed to seek past error: '' @ strerror S e) st
                          else st),
                         eof\<lparr> eof_in := True \<rparr>)
                    | Inr off \<Rightarrow> (off - orig_offset, st, eof))
             in if amount_skipped > 0 then
                  let st = store_at (read_position st) (replicate (nat amount_skipped) 0) st;
                      st = st\<lparr> read_position := read_position st + nat amount_skipped \<rparr>;
                      st = (if skip_errors st < 2
                            then pv_error (current_file st @ '': skipped past read error: '' @
                              itoa orig_offset @ '' - '' @ itoa (orig_offset + amount_skipped) @ '' ('' @
                              itoa amount_skipped @ '' B)'') st
                            else st)
                  in (1, st, eof, w)
                else (1, st, end_of_input st eof, w))"

text \<open>
  The attempt with \<open>splice\<close>: its result when it was used, nothing when \<open>read\<close> has to follow.
\<close>

definition try_splice ::
  "'w sysio \<Rightarrow> pvstate \<Rightarrow> int \<Rightarrow> nat \<Rightarrow> nat \<Rightarrow> 'w \<Rightarrow> (int + nat) option \<times> pvstate \<times> 'w" where
  "try_splice S st fd allowed bytes_can_read w =
     (let st = st\<lparr> splice_used := False \<rparr>
      in if \<not> linemode st \<and> \<not> no_splice st \<and> fd \<noteq> splice_failed_fd st \<and> to_write st = 0 then
           (case sys_splice S fd (if rate_limit st \<noteq> 0 \<or> allowed \<noteq> 0 then allowed else bytes_can_read) w of
              (Inl e, w) \<Rightarrow>
                (if e = EINVAL then (None, st\<lparr> splice_failed_fd := fd \<rparr>, w)
                 else if e = EAGAIN then (Some (Inl e), st\<lparr> splice_used := True \<rparr>, w)
                 else (None, st, w))
            | (Inr k, w) \<Rightarrow>
                if 0 < k then (Some (Inr k), st\<lparr> splice_used := True, written := int k \<rparr>, w)
                else (None, st, w))
         else (None, st, w))"

definition pv__transfer_read ::
  "'w sysio \<Rightarrow> pvstate \<Rightarrow> int \<Rightarrow> eofs \<Rightarrow> nat \<Rightarrow> 'w \<Rightarrow> int \<times> pvstate \<times> eofs \<times> 'w" where
  "pv__transfer_read S st fd eof allowed w =
     (let bytes_can_read = usub64 (buffer_size st) (read_position st);
          (nread, st, w) =
            (case try_splice S st fd allowed bytes_can_read w of
               (Some r, st, w) \<Rightarrow> (r, st, w)
             | (None, st, w) \<Rightarrow>
                 (case pv__transfer_read_repeated S fd bytes_can_read w of
                    ((d, err), w) \<Rightarrow>
                      (case err of Some e \<Rightarrow> Inl e | None \<Rightarrow> Inr (length d),
                       store_at (read_position st) d st, w)))
      in case nread of
           Inr n \<Rightarrow>
             if n = 0 then (1, st, end_of_input st eof, w)
             else
               let st = st\<lparr> read_errors_in_a_row := 0 \<rparr>;
                   st = (if \<not> splice_used st then st\<lparr> read_position := read_position st + n \<rparr> else st)
               in (1, st, eof, w)
         | Inl e \<Rightarrow>
             if e = EINTR \<or> e = EAGAIN then (case sys_select S [] [] 10000 w of (_, w) \<Rightarrow> (0, st, eof, w))
             else
               let st = set_exit 16 st;
                   st = st\<lparr> read_errors_in_a_row := read_errors_in_a_row st + 1 \<rparr>
               in if skip_errors st = 0 then
                    let st = pv_error (current_file st @ '': read failed: '' @ strerror S e) st
                    in (1, st, end_of_input st eof, w)
                  else skip_error S st fd eof bytes_can_read e w)"

section \<open>Writing from the buffer\<close>

text \<open>
  The lines in what was written. Null-terminated lines are counted by their zero bytes; lines
  are counted with \<open>strchr\<close>, which stops at the first zero byte.
\<close>

definition count_byte :: "byte \<Rightarrow> bytes \<Rightarrow> nat" where
  "count_byte b d = length (filter (\<lambda>x. x = b) d)"

definition lines_in :: "bool \<Rightarrow> bytes \<Rightarrow> nat" where
  "lines_in null d = (if null then count_byte 0 d else count_byte 10 (takeWhile (\<lambda>x. x \<noteq> 0) d))"

definition buf_slice :: "nat \<Rightarrow> nat \<Rightarrow> pvstate \<Rightarrow> bytes" where
  "buf_slice pos n st = take n (drop pos (buf_of st))"

text \<open>The copy of the last bytes written, for the display.\<close>

definition update_lastoutput :: "nat \<Rightarrow> pvstate \<Rightarrow> pvstate" where
  "update_lastoutput nwritten st =
     (if components_used st AND 256 \<noteq> 0 \<and> 0 < nwritten then
        let new_portion = (if nwritten > lastoutput_length st then lastoutput_length st else nwritten);
            old_portion = lastoutput_length st - new_portion;
            buf = lastoutput_buffer st;
            buf = (if old_portion > 0 then overwrite 0 0 (take old_portion (drop new_portion buf)) buf else buf);
            buf = overwrite 0 old_portion (buf_slice (write_position st - new_portion) new_portion st) buf
        in st\<lparr> lastoutput_buffer := buf \<rparr>
      else st)"

definition pv__transfer_write ::
  "'w sysio \<Rightarrow> pvstate \<Rightarrow> eofs \<Rightarrow> int option \<Rightarrow> 'w \<Rightarrow> int \<times> pvstate \<times> eofs \<times> int option \<times> 'w" where
  "pv__transfer_write S st eof lineswritten w =
     (case pv__transfer_write_repeated S STDOUT_FILENO
             (buf_slice (write_position st) (nat (to_write st)) st) w of
        (Inr n, w) \<Rightarrow>
          if n = 0 then (1, st, eof\<lparr> eof_out := True \<rparr>, lineswritten, w)
          else
            let lineswritten =
                  (if linemode st
                   then map_option (\<lambda>l. l + int (lines_in (null_lines st) (buf_slice (write_position st) n st)))
                          lineswritten
                   else lineswritten);
                st = st\<lparr> write_position := write_position st + n, written := written st + int n \<rparr>;
                st = update_lastoutput n st
            in if write_position st \<ge> read_position st then
                 (1, st\<lparr> write_position := 0, read_position := 0 \<rparr>,
                  (if eof_in eof then eof\<lparr> eof_out := True \<rparr> else eof), lineswritten, w)
               else (1, st, eof, lineswritten, w)
      | (Inl e, w) \<Rightarrow>
          if e = EINTR \<or> e = EAGAIN then
            (case sys_select S [] [] 10000 w of (_, w) \<Rightarrow> (0, st, eof, lineswritten, w))
          else if e = EPIPE then (0, st, eof\<lparr> eof_in := True, eof_out := True \<rparr>, lineswritten, w)
          else
            (1, (set_exit 16 (pv_error (''write failed: '' @ strerror S e) st))\<lparr> written := - 1 \<rparr>,
             eof\<lparr> eof_out := True \<rparr>, lineswritten, w))"

section \<open>One round of the transfer\<close>

text \<open>The allocation of the buffer, and its growth when a larger one is asked for.\<close>

definition alloc_buffer :: "'w sysio \<Rightarrow> pvstate \<Rightarrow> 'w \<Rightarrow> bool \<times> pvstate \<times> 'w" where
  "alloc_buffer S st w =
     (case transfer_buffer st of
        Some b \<Rightarrow> (True, st, w)
      | None \<Rightarrow>
          let st = st\<lparr> buffer_size := target_buffer_size st \<rparr>
          in case sys_alloc S (buffer_size st + 32) w of
               (None, w) \<Rightarrow> (False, set_exit 64 (pv_error ''buffer allocation failed'' st), w)
             | (Some b, w) \<Rightarrow> (True, st\<lparr> transfer_buffer := Some b \<rparr>, w))"

definition grow_buffer :: "'w sysio \<Rightarrow> pvstate \<Rightarrow> 'w \<Rightarrow> pvstate \<times> 'w" where
  "grow_buffer S st w =
     (if buffer_size st < target_buffer_size st then
        (case sys_alloc S (target_buffer_size st + 32) w of
           (None, w) \<Rightarrow> (st\<lparr> target_buffer_size := buffer_size st \<rparr>, w)
         | (Some b, w) \<Rightarrow>
             (st\<lparr> transfer_buffer := Some (overwrite 0 0 (buf_of st) b),
                  buffer_size := target_buffer_size st \<rparr>, w))
      else (st, w))"

text \<open>What may be written this time: the data in the buffer, held to \<open>allowed\<close>.\<close>

definition set_to_write :: "nat \<Rightarrow> pvstate \<Rightarrow> pvstate" where
  "set_to_write allowed st =
     (let st = st\<lparr> to_write := i64 (int (usub64 (read_position st) (write_position st))) \<rparr>
      in if rate_limit st > 0 \<or> allowed > 0
         then (if u64 (to_write st) > int allowed then st\<lparr> to_write := i64 (int allowed) \<rparr> else st)
         else st)"

text \<open>In line mode, write up to the last line feed (\<open>strrchr\<close>, which stops at a zero byte).\<close>

definition trim_to_line :: "pvstate \<Rightarrow> pvstate" where
  "trim_to_line st =
     (if to_write st > 0 \<and> linemode st \<and> \<not> null_lines st then
        let text = takeWhile (\<lambda>x. x \<noteq> 0) (buf_slice (write_position st) (nat (to_write st)) st)
        in if 10 \<in> set text
           then st\<lparr> to_write := int (length text - length (takeWhile (\<lambda>x. x \<noteq> 10) (rev text))) \<rparr>
           else st
      else st)"

text \<open>Move what has not been written to the start of the buffer.\<close>

definition rotate_buffer :: "pvstate \<Rightarrow> pvstate" where
  "rotate_buffer st =
     (if write_position st > 0 then
        (if write_position st < read_position st then
           (store_at 0 (buf_slice (write_position st) (read_position st - write_position st) st) st)
             \<lparr> read_position := read_position st - write_position st, write_position := 0 \<rparr>
         else st\<lparr> write_position := 0, read_position := 0 \<rparr>)
      else st)"

text \<open>From the \<open>select\<close> on: read, trim, write, rotate.\<close>

definition transfer_ready ::
  "'w sysio \<Rightarrow> pvstate \<Rightarrow> int \<Rightarrow> eofs \<Rightarrow> nat \<Rightarrow> int option \<Rightarrow> bool \<Rightarrow> bool \<Rightarrow> 'w \<Rightarrow>
   int \<times> pvstate \<times> eofs \<times> int option \<times> 'w" where
  "transfer_ready S st fd eof allowed lineswritten can_read can_write w =
     (let st = st\<lparr> written := 0 \<rparr>
      in case (if can_read then pv__transfer_read S st fd eof allowed w else (1, st, eof, w)) of
           (ok, st, eof, w) \<Rightarrow>
             if ok = 0 then (0, st, eof, lineswritten, w)
             else
               let st = trim_to_line st
               in case (if can_write \<and> \<not> splice_used st \<and> read_position st > write_position st \<and> to_write st > 0
                        then pv__transfer_write S st eof lineswritten w
                        else (1, st, eof, lineswritten, w)) of
                    (ok, st, eof, lineswritten, w) \<Rightarrow>
                      if ok = 0 then (0, st, eof, lineswritten, w)
                      else
                        let st = rotate_buffer st
                        in (written st, st, eof, lineswritten, w))"

definition pv_transfer ::
  "'w sysio \<Rightarrow> pvstate \<Rightarrow> int \<Rightarrow> eofs \<Rightarrow> nat \<Rightarrow> int option \<Rightarrow> 'w \<Rightarrow>
   int \<times> pvstate \<times> eofs \<times> int option \<times> 'w" where
  "pv_transfer S st fd eof allowed lineswritten w =
     (let st = (if fd \<noteq> last_read_skip_fd st
                then st\<lparr> last_read_skip_fd := fd, read_errors_in_a_row := 0, read_error_warning_shown := False \<rparr>
                else st)
      in case alloc_buffer S st w of
           (False, st, w) \<Rightarrow> (- 1, st, eof, lineswritten, w)
         | (True, st, w) \<Rightarrow>
             (case grow_buffer S st w of (st, w) \<Rightarrow>
                let lineswritten = (if linemode st then map_option (\<lambda>_. 0) lineswritten else lineswritten)
                in if eof_in eof \<and> eof_out eof then (0, st, eof, lineswritten, w)
                   else
                     let rfds = (if \<not> eof_in eof \<and> read_position st < buffer_size st then [fd] else []);
                         st = set_to_write allowed st;
                         wfds = (if \<not> eof_out eof \<and> to_write st > 0 then [STDOUT_FILENO] else [])
                     in case sys_select S rfds wfds 90000 w of
                          (Inl e, w) \<Rightarrow>
                            if e = EINTR then (0, st, eof, lineswritten, w)
                            else (- 1, set_exit 16 (pv_error
                                    (current_file st @ '': select call failed: -1: '' @ strerror S e) st),
                                  eof, lineswritten, w)
                        | (Inr (rs, ws), w) \<Rightarrow>
                            transfer_ready S st fd eof allowed lineswritten
                              (fd \<in> set rs) (STDOUT_FILENO \<in> set ws) w))"

section \<open>The buffer invariant\<close>

definition buffer_inv :: "pvstate \<Rightarrow> bool" where
  "buffer_inv st \<longleftrightarrow>
     write_position st \<le> read_position st \<and> read_position st \<le> buffer_size st \<and>
     buffer_size st < 2 ^ 62 \<and> target_buffer_size st < 2 ^ 62 \<and>
     (case transfer_buffer st of
        None \<Rightarrow> read_position st = 0 \<and> write_position st = 0
      | Some b \<Rightarrow> length b = buffer_size st + 32)"

definition pending :: "pvstate \<Rightarrow> bytes" where
  "pending st = buf_slice (write_position st) (read_position st - write_position st) st"

end
