(* ===== verification/PvStream.thy ===== *)
theory PvStream
  imports PvTransfer
begin

text \<open>
  What a round of \<open>pv_transfer\<close> does to the data: the buffer positions stay in order and in
  bounds whatever the system calls return, and as long as the input can be read and the output
  fails only by interruptions, every byte that leaves the input is in the buffer or in the output,
  in order.
\<close>

section \<open>The system calls\<close>

text \<open>
  The documented behaviour of the calls the transfer uses on input \<open>fd\<close> and on standard output,
  seen through \<open>inp\<close>, what is left to read, and \<open>out\<close>, what has been written: \<open>read\<close>
  takes at most \<open>n\<close> bytes from the front of the input, and none only at its end; \<open>write\<close>
  appends a prefix of its argument; \<open>splice\<close> moves bytes from one to the other; a call that fails
  moves nothing; \<open>lseek\<close> to an offset returns it; \<open>malloc\<close> returns a block of the size asked for.
\<close>

definition untouched :: "('w \<Rightarrow> bytes) \<Rightarrow> ('w \<Rightarrow> bytes) \<Rightarrow> 'w \<Rightarrow> 'w \<Rightarrow> bool" where
  "untouched inp out w w' \<longleftrightarrow> inp w' = inp w \<and> out w' = out w"

definition honest_read :: "'w sysio \<Rightarrow> int \<Rightarrow> ('w \<Rightarrow> bytes) \<Rightarrow> ('w \<Rightarrow> bytes) \<Rightarrow> bool" where
  "honest_read S fd inp out \<longleftrightarrow> (\<forall>n w. case sys_read S fd n w of
     (Inl e, w') \<Rightarrow> untouched inp out w w'
   | (Inr d, w') \<Rightarrow> length d \<le> n \<and> inp w = d @ inp w' \<and> out w' = out w \<and>
       (d = [] \<longrightarrow> n = 0 \<or> inp w = []))"

definition honest_write :: "'w sysio \<Rightarrow> ('w \<Rightarrow> bytes) \<Rightarrow> ('w \<Rightarrow> bytes) \<Rightarrow> bool" where
  "honest_write S inp out \<longleftrightarrow> (\<forall>d w. case sys_write S STDOUT_FILENO d w of
     (Inl e, w') \<Rightarrow> untouched inp out w w'
   | (Inr k, w') \<Rightarrow> k \<le> length d \<and> out w' = out w @ take k d \<and> inp w' = inp w)"

definition honest_splice :: "'w sysio \<Rightarrow> int \<Rightarrow> ('w \<Rightarrow> bytes) \<Rightarrow> ('w \<Rightarrow> bytes) \<Rightarrow> bool" where
  "honest_splice S fd inp out \<longleftrightarrow> (\<forall>n w. case sys_splice S fd n w of
     (Inl e, w') \<Rightarrow> untouched inp out w w'
   | (Inr k, w') \<Rightarrow> k \<le> n \<and> out w' @ inp w' = out w @ inp w \<and> length (inp w) = k + length (inp w'))"

definition honest_select :: "'w sysio \<Rightarrow> ('w \<Rightarrow> bytes) \<Rightarrow> ('w \<Rightarrow> bytes) \<Rightarrow> bool" where
  "honest_select S inp out \<longleftrightarrow> (\<forall>rs ws t w. case sys_select S rs ws t w of
     (Inl e, w') \<Rightarrow> untouched inp out w w'
   | (Inr (rs', ws'), w') \<Rightarrow> untouched inp out w w' \<and> set rs' \<subseteq> set rs \<and> set ws' \<subseteq> set ws)"

definition honest_lseek :: "'w sysio \<Rightarrow> int \<Rightarrow> bool" where
  "honest_lseek S fd \<longleftrightarrow>
     (\<forall>w. case sys_lseek S fd 0 SEEK_CUR w of (Inr off, _) \<Rightarrow> 0 \<le> off | _ \<Rightarrow> True) \<and>
     (\<forall>w off. case sys_lseek S fd off SEEK_SET w of (Inr off', _) \<Rightarrow> off' = off | _ \<Rightarrow> True)"

definition honest :: "'w sysio \<Rightarrow> int \<Rightarrow> ('w \<Rightarrow> bytes) \<Rightarrow> ('w \<Rightarrow> bytes) \<Rightarrow> bool" where
  "honest S fd inp out \<longleftrightarrow>
     honest_read S fd inp out \<and> honest_write S inp out \<and> honest_splice S fd inp out \<and>
     honest_select S inp out \<and> honest_lseek S fd \<and>
     (\<forall>w. untouched inp out w (snd (sys_time S w))) \<and>
     (\<forall>n w. case sys_alloc S n w of (b, w') \<Rightarrow> untouched inp out w w' \<and> (b = None \<or> length (the b) = n))"

text \<open>Reads do not fail, and a write fails only because it was interrupted or would block.\<close>

definition steady :: "'w sysio \<Rightarrow> int \<Rightarrow> bool" where
  "steady S fd \<longleftrightarrow>
     (\<forall>n w. \<not> isl (fst (sys_read S fd n w))) \<and>
     (\<forall>d w. case fst (sys_write S STDOUT_FILENO d w) of Inl e \<Rightarrow> e = EINTR \<or> e = EAGAIN | Inr _ \<Rightarrow> True)"

text \<open>A write of something writes something.\<close>

definition flowing :: "'w sysio \<Rightarrow> bool" where
  "flowing S \<longleftrightarrow> (\<forall>d w. d \<noteq> [] \<longrightarrow> (case fst (sys_write S STDOUT_FILENO d w) of Inl e \<Rightarrow> False | Inr k \<Rightarrow> 0 < k))"

lemma steady_ioD:
  assumes "steady S fd"
  shows "sys_read S fd n w \<noteq> (Inl e, w')"
    and "sys_write S STDOUT_FILENO d w = (Inl e, w') \<Longrightarrow> e = EINTR \<or> e = EAGAIN"
proof -
  note c = spec [OF spec [OF conjunct1 [OF assms [unfolded steady_def]], of n], of w]
  note d = spec [OF spec [OF conjunct2 [OF assms [unfolded steady_def]], of d], of w]
  show "sys_read S fd n w \<noteq> (Inl e, w')" using c by auto
  show "sys_write S STDOUT_FILENO d w = (Inl e, w') \<Longrightarrow> e = EINTR \<or> e = EAGAIN" using d by simp
qed

lemma flowingD:
  assumes "flowing S" "d \<noteq> []"
  shows "sys_write S STDOUT_FILENO d w = (r, w') \<Longrightarrow> \<exists>k. r = Inr k \<and> 0 < k"
  using spec [OF spec [OF assms(1) [unfolded flowing_def], of d], of w] assms(2)
  by (cases r) auto

lemma honest_timeD: "honest S fd inp out \<Longrightarrow> sys_time S w = (t, w') \<Longrightarrow> inp w' = inp w \<and> out w' = out w"
proof -
  assume "honest S fd inp out" and t: "sys_time S w = (t, w')"
  then have "untouched inp out w (snd (sys_time S w))" unfolding honest_def by blast
  with t show ?thesis by (simp add: untouched_def)
qed

lemma honest_allocD:
  assumes "honest S fd inp out" and a: "sys_alloc S n w = (b, w')"
  shows "inp w' = inp w" "out w' = out w" "b = Some x \<Longrightarrow> length x = n"
proof -
  from assms(1) have "case sys_alloc S n w of (b, w') \<Rightarrow> untouched inp out w w' \<and> (b = None \<or> length (the b) = n)"
    by (simp add: honest_def)
  with a show "inp w' = inp w" "out w' = out w" "b = Some x \<Longrightarrow> length x = n"
    by (auto simp: untouched_def)
qed

lemma honest_readD:
  assumes "honest S fd inp out"
  shows "sys_read S fd n w = (Inr d, w') \<Longrightarrow>
      length d \<le> n \<and> inp w = d @ inp w' \<and> out w' = out w \<and> (d = [] \<longrightarrow> n = 0 \<or> inp w = [])"
    and "sys_read S fd n w = (Inl e, w') \<Longrightarrow> inp w' = inp w \<and> out w' = out w"
proof -
  from assms have "honest_read S fd inp out" by (simp add: honest_def)
  note c = spec [OF spec [OF this [unfolded honest_read_def], of n], of w]
  show "sys_read S fd n w = (Inr d, w') \<Longrightarrow>
      length d \<le> n \<and> inp w = d @ inp w' \<and> out w' = out w \<and> (d = [] \<longrightarrow> n = 0 \<or> inp w = [])"
    using c by auto
  show "sys_read S fd n w = (Inl e, w') \<Longrightarrow> inp w' = inp w \<and> out w' = out w"
    using c by (simp add: untouched_def)
qed

lemma honest_writeD:
  assumes "honest S fd inp out"
  shows "sys_write S STDOUT_FILENO d w = (Inr k, w') \<Longrightarrow>
      k \<le> length d \<and> out w' = out w @ take k d \<and> inp w' = inp w"
    and "sys_write S STDOUT_FILENO d w = (Inl e, w') \<Longrightarrow> inp w' = inp w \<and> out w' = out w"
proof -
  from assms have "honest_write S inp out" by (simp add: honest_def)
  note c = spec [OF spec [OF this [unfolded honest_write_def], of d], of w]
  show "sys_write S STDOUT_FILENO d w = (Inr k, w') \<Longrightarrow>
      k \<le> length d \<and> out w' = out w @ take k d \<and> inp w' = inp w"
    using c by simp
  show "sys_write S STDOUT_FILENO d w = (Inl e, w') \<Longrightarrow> inp w' = inp w \<and> out w' = out w"
    using c by (simp add: untouched_def)
qed

lemma honest_spliceD:
  assumes "honest S fd inp out"
  shows "sys_splice S fd n w = (Inr k, w') \<Longrightarrow>
      k \<le> n \<and> out w' @ inp w' = out w @ inp w \<and> length (inp w) = k + length (inp w')"
    and "sys_splice S fd n w = (Inl e, w') \<Longrightarrow> inp w' = inp w \<and> out w' = out w"
proof -
  from assms have "honest_splice S fd inp out" by (simp add: honest_def)
  note c = spec [OF spec [OF this [unfolded honest_splice_def], of n], of w]
  show "sys_splice S fd n w = (Inr k, w') \<Longrightarrow>
      k \<le> n \<and> out w' @ inp w' = out w @ inp w \<and> length (inp w) = k + length (inp w')"
    using c by simp
  show "sys_splice S fd n w = (Inl e, w') \<Longrightarrow> inp w' = inp w \<and> out w' = out w"
    using c by (simp add: untouched_def)
qed

lemma honest_selectD:
  assumes "honest S fd inp out" and r: "sys_select S rs ws t w = (r, w')"
  shows "inp w' = inp w" "out w' = out w"
    "r = Inr (rs', ws') \<Longrightarrow> set rs' \<subseteq> set rs" "r = Inr (rs', ws') \<Longrightarrow> set ws' \<subseteq> set ws"
proof -
  from assms have "honest_select S inp out" by (simp add: honest_def)
  note c = spec [OF spec [OF spec [OF spec [OF this [unfolded honest_select_def], of rs], of ws], of t], of w]
  then show "inp w' = inp w" "out w' = out w"
    using r by (cases r; auto simp: untouched_def)+
  show "r = Inr (rs', ws') \<Longrightarrow> set rs' \<subseteq> set rs" "r = Inr (rs', ws') \<Longrightarrow> set ws' \<subseteq> set ws"
    using c r by auto
qed

lemma honest_lseekD:
  assumes "honest S fd inp out"
  shows "sys_lseek S fd 0 SEEK_CUR w = (Inr off, w') \<Longrightarrow> 0 \<le> off"
    and "sys_lseek S fd off SEEK_SET w = (Inr off', w') \<Longrightarrow> off' = off"
proof -
  from assms have l: "honest_lseek S fd" by (simp add: honest_def)
  note c = spec [OF conjunct1 [OF l [unfolded honest_lseek_def]], of w]
  note d = spec [OF spec [OF conjunct2 [OF l [unfolded honest_lseek_def]], of w], of off]
  show "sys_lseek S fd 0 SEEK_CUR w = (Inr off, w') \<Longrightarrow> 0 \<le> off" using c by simp
  show "sys_lseek S fd off SEEK_SET w = (Inr off', w') \<Longrightarrow> off' = off" using d by simp
qed

section \<open>The two loops\<close>

text \<open>One turn of the reading loop: it ends, fails, or has stored some bytes and goes on or stops.\<close>

lemma read_loop_step:
  assumes h: "honest S fd inp out" and run: "read_loop S fd t n got w = ((d, err), w')"
  obtains (stop) "d = got" "err = None" "inp w' = inp w" "out w' = out w" "n = 0 \<or> inp w = []"
  | (fail) e m w1 where "d = got" "err = Some e" "inp w' = inp w" "out w' = out w"
      "sys_read S fd m w = (Inl e, w1)"
  | (some) x w1 where "x \<noteq> []" "length x \<le> n" "inp w = x @ inp w1" "out w1 = out w"
      "d = got @ x \<and> err = None \<and> w' = w1 \<or> read_loop S fd t (n - length x) (got @ x) w1 = ((d, err), w')"
proof (cases "n = 0")
  case True
  with run show ?thesis by (intro stop) (simp_all add: read_loop.simps [of S fd t 0])
next
  case n: False
  let ?m = "if n > MAX_READ_AT_ONCE then MAX_READ_AT_ONCE else n"
  have m: "?m \<le> n" "?m \<noteq> 0" using n by (auto simp: MAX_READ_AT_ONCE_def)
  obtain r w1 where r: "sys_read S fd ?m w = (r, w1)" by force
  show ?thesis
  proof (cases r)
    case (Inl e)
    with run n r honest_readD(2) [OF h r [unfolded Inl]] show ?thesis
      by (intro fail) (auto simp: read_loop.simps [of S fd t n])
  next
    case (Inr x)
    have x: "length x \<le> n" "inp w = x @ inp w1" "out w1 = out w" "x = [] \<Longrightarrow> inp w = []"
      using honest_readD(1) [OF h r [unfolded Inr]] m by auto
    obtain now w2 where t: "sys_time S w1 = (now, w2)" by (rule prod.exhaust)
    obtain q w3 where q: "sys_select S [fd] [] 0 w2 = (q, w3)" by (rule prod.exhaust)
    note v = honest_timeD [OF h t] honest_selectD(1,2) [OF h q]
    show ?thesis
    proof (cases "x = []")
      case True
      with run n r Inr x show ?thesis by (intro stop) (auto simp: read_loop.simps [of S fd t n])
    next
      case False
      with run n r Inr t q have "\<exists>w4 \<in> {w2, w3}. d = got @ x \<and> err = None \<and> w' = w4 \<or>
          read_loop S fd t (n - length x) (got @ x) w4 = ((d, err), w')"
        by (auto simp: read_loop.simps [of S fd t n] split: if_splits)
      then obtain w4 where "w4 \<in> {w2, w3}" "d = got @ x \<and> err = None \<and> w' = w4 \<or>
          read_loop S fd t (n - length x) (got @ x) w4 = ((d, err), w')" ..
      with False x v show ?thesis by (intro some [of x w4]) auto
    qed
  qed
qed

lemma read_loop_run:
  assumes h: "honest S fd inp out"
  shows "read_loop S fd t n got w = ((d, err), w') \<Longrightarrow>
    \<exists>x. d = got @ x \<and> length x \<le> n \<and> inp w = x @ inp w' \<and> out w' = out w \<and>
      (err = None \<and> x = [] \<longrightarrow> n = 0 \<or> inp w = []) \<and> (steady S fd \<longrightarrow> err = None)"
proof (induction n arbitrary: got w rule: less_induct)
  case (less n)
  from h less.prems show ?case
  proof (cases rule: read_loop_step)
    case stop
    then show ?thesis by auto
  next
    case (fail e m w1)
    then have "\<not> steady S fd" using steady_ioD(1) [of S fd m w e w1] by blast
    with fail show ?thesis by auto
  next
    case (some x w1)
    from some(5) show ?thesis
    proof
      assume "d = got @ x \<and> err = None \<and> w' = w1"
      with some show ?thesis by auto
    next
      assume c: "read_loop S fd t (n - length x) (got @ x) w1 = ((d, err), w')"
      have "n - length x < n" using some(1,2) by (cases x) auto
      from less.IH [OF this c] some show ?thesis by auto
    qed
  qed
qed

lemma read_repeated_run:
  assumes h: "honest S fd inp out" and r: "pv__transfer_read_repeated S fd n w = ((d, err), w')"
  shows "length d \<le> n \<and> inp w = d @ inp w' \<and> out w' = out w \<and>
    (err = None \<and> d = [] \<longrightarrow> n = 0 \<or> inp w = []) \<and> (steady S fd \<longrightarrow> err = None)"
proof -
  obtain t w1 where t: "sys_time S w = (t, w1)" by (rule prod.exhaust)
  with r have "read_loop S fd t n [] w1 = ((d, err), w')"
    by (simp add: pv__transfer_read_repeated_def)
  from read_loop_run [OF h this] honest_timeD [OF h t] show ?thesis by auto
qed

text \<open>One turn of the writing loop.\<close>

lemma write_loop_run:
  assumes h: "honest S fd inp out"
  shows "write_loop S STDOUT_FILENO t buf tot w = (r, w') \<Longrightarrow>
    (\<exists>k. k \<le> length buf \<and> out w' = out w @ take k buf \<and> inp w' = inp w \<and>
       (case r of Inr m \<Rightarrow> m = tot + k | Inl e \<Rightarrow> True)) \<and>
    (case r of Inl e \<Rightarrow> e \<noteq> EINTR \<and> e \<noteq> EAGAIN \<and> \<not> steady S fd | Inr m \<Rightarrow>
       flowing S \<and> buf \<noteq> [] \<longrightarrow> tot < m)"
proof (induction "length buf" arbitrary: buf tot w rule: less_induct)
  case less
  show ?case
  proof (cases "buf = []")
    case True
    with less.prems have "r = Inr tot \<and> w' = w" by (auto simp: write_loop.simps [of S _ t "[]"])
    with True show ?thesis by simp
  next
    case ne: False
    let ?d = "take MAX_WRITE_AT_ONCE buf"
    have dne: "?d \<noteq> []" using ne by (simp add: MAX_WRITE_AT_ONCE_def)
    obtain q w1 where q: "sys_write S STDOUT_FILENO ?d w = (q, w1)" by (rule prod.exhaust)
    show ?thesis
    proof (cases q)
      case (Inl e)
      note v = honest_writeD(2) [OF h q [unfolded Inl]]
      have "\<not> flowing S" using flowingD [OF _ dne q] Inl by auto
      moreover have "steady S fd \<Longrightarrow> e = EINTR \<or> e = EAGAIN"
        using steady_ioD(2) [of S fd ?d w e w1] q Inl by simp
      ultimately show ?thesis
        using less.prems ne q Inl v by (auto simp: write_loop.simps [of S _ t buf] split: if_splits)
    next
      case (Inr k)
      have k: "k \<le> length ?d" "out w1 = out w @ take k ?d" "inp w1 = inp w"
        using honest_writeD(1) [OF h q [unfolded Inr]] by auto
      then have tk: "take k ?d = take k buf" "k \<le> length buf"
        by (auto simp: min_def split: if_splits)
      have fl: "flowing S \<Longrightarrow> 0 < k"
        using flowingD [OF _ dne q] Inr by auto
      obtain now w2 where t: "sys_time S w1 = (now, w2)" by (rule prod.exhaust)
      note v = honest_timeD [OF h t]
      have turn: "(if k = 0 then (Inr tot, w1)
          else if elapsed_usec t now > TRANSFER_WRITE_TIMEOUT then (Inr (tot + k), w2)
          else write_loop S STDOUT_FILENO t (drop k buf) (tot + k) w2) = (r, w')"
        using less.prems ne by (subst (asm) write_loop.simps) (simp only: q Inr t not_False_eq_True if_True prod.case sum.case)
      consider "k = 0" "r = Inr tot" "w' = w1"
        | "k \<noteq> 0" "r = Inr (tot + k)" "w' = w2"
        | "k \<noteq> 0" "write_loop S STDOUT_FILENO t (drop k buf) (tot + k) w2 = (r, w')"
        using turn by (cases "k = 0"; cases "elapsed_usec t now > TRANSFER_WRITE_TIMEOUT") simp_all
      then show ?thesis
      proof cases
        case 1
        with k tk fl show ?thesis by (auto intro!: exI [of _ 0])
      next
        case 2
        with k tk v show ?thesis by (auto intro!: exI [of _ k])
      next
        case 3
        have "length (drop k buf) < length buf" using 3(1) tk(2) ne by (cases buf) auto
        from less.hyps [OF this 3(2)] obtain j where j: "j \<le> length buf - k"
          "out w' = out w2 @ take j (drop k buf)" "inp w' = inp w2"
          "case r of Inr m \<Rightarrow> m = tot + k + j | Inl e \<Rightarrow> True"
          and e: "case r of Inl e \<Rightarrow> e \<noteq> EINTR \<and> e \<noteq> EAGAIN \<and> \<not> steady S fd | Inr m \<Rightarrow> True"
          by (auto split: sum.splits)
        have "out w' = out w @ take (k + j) buf"
          using j(2) k(2) tk(1) v by (simp add: take_add)
        with j e k v tk 3(1) show ?thesis
          by (auto intro!: exI [of _ "k + j"] split: sum.splits)
      qed
    qed
  qed
qed

lemma write_repeated_run:
  assumes h: "honest S fd inp out" and r: "pv__transfer_write_repeated S STDOUT_FILENO buf w = (r, w')"
  shows "inp w' = inp w"
    and "r = Inr k \<Longrightarrow> k \<le> length buf \<and> out w' = out w @ take k buf"
    and "r = Inr k \<Longrightarrow> flowing S \<Longrightarrow> buf \<noteq> [] \<Longrightarrow> 0 < k"
    and "r = Inl e \<Longrightarrow> e \<noteq> EINTR \<and> e \<noteq> EAGAIN \<and> \<not> steady S fd"
proof -
  obtain t w1 where t: "sys_time S w = (t, w1)" by (rule prod.exhaust)
  with r have "write_loop S STDOUT_FILENO t buf 0 w1 = (r, w')"
    by (simp add: pv__transfer_write_repeated_def)
  note run = write_loop_run [OF h this] and v = honest_timeD [OF h t]
  from run v show "inp w' = inp w" by auto
  show "r = Inr k \<Longrightarrow> k \<le> length buf \<and> out w' = out w @ take k buf" using run v by auto
  show "r = Inr k \<Longrightarrow> flowing S \<Longrightarrow> buf \<noteq> [] \<Longrightarrow> 0 < k" using run by auto
  show "r = Inl e \<Longrightarrow> e \<noteq> EINTR \<and> e \<noteq> EAGAIN \<and> \<not> steady S fd" using run by auto
qed

section \<open>Slices of the buffer\<close>

lemma overwrite_inside:
  "pos \<le> length b \<Longrightarrow> overwrite z pos d b = take pos b @ d @ drop (pos + length d) b"
  by (simp add: overwrite_def)

lemma slice_overwrite:
  assumes "wp \<le> rp" "rp \<le> length b"
  shows "take (rp + length d - wp) (drop wp (overwrite z rp d b)) = take (rp - wp) (drop wp b) @ d"
    and "take (rp - wp) (drop wp (overwrite z rp d b)) = take (rp - wp) (drop wp b)"
  using assms by (simp_all add: overwrite_inside drop_take)

definition allocated :: "pvstate \<Rightarrow> bool" where
  "allocated st \<longleftrightarrow> transfer_buffer st \<noteq> None"

text \<open>The positions and the buffer, as far as the data is concerned.\<close>

definition same_data :: "pvstate \<Rightarrow> pvstate \<Rightarrow> bool" where
  "same_data st st' \<longleftrightarrow> transfer_buffer st' = transfer_buffer st \<and> buffer_size st' = buffer_size st \<and>
     target_buffer_size st' = target_buffer_size st \<and> read_position st' = read_position st \<and>
     write_position st' = write_position st \<and> to_write st' = to_write st \<and> rate_limit st' = rate_limit st"

lemma same_data_refl [simp]: "same_data st st"
  by (simp add: same_data_def)

lemma same_data_trans: "same_data a b \<Longrightarrow> same_data b c \<Longrightarrow> same_data a c"
  by (simp add: same_data_def)

lemma same_data_keeps:
  assumes "same_data st st'"
  shows "buffer_inv st' = buffer_inv st" "pending st' = pending st" "allocated st' = allocated st"
  using assms
  by (cases "transfer_buffer st"; simp add: same_data_def buffer_inv_def pending_def buf_slice_def allocated_def)+

lemma same_data_pv_error [simp]: "same_data st (pv_error msg st)"
  by (simp add: same_data_def pv_error_def)

lemma same_data_set_exit [simp]: "same_data st (set_exit n st)"
  by (simp add: same_data_def set_exit_def)

text \<open>Bytes stored after the data, then counted, or left uncounted.\<close>

lemma store_uncounted:
  assumes inv: "buffer_inv st" and al: "allocated st" and n: "read_position st + length d \<le> buffer_size st"
  shows "buffer_inv (store_at (read_position st) d st)"
    and "pending (store_at (read_position st) d st) = pending st"
    and "allocated (store_at (read_position st) d st)"
proof -
  from al obtain b where b: "transfer_buffer st = Some b" by (auto simp: allocated_def)
  from inv b have len: "length b = buffer_size st + 32" "write_position st \<le> read_position st"
    by (simp_all add: buffer_inv_def)
  show "buffer_inv (store_at (read_position st) d st)"
    using inv b n len by (simp add: buffer_inv_def store_at_def)
  show "pending (store_at (read_position st) d st) = pending st"
    using slice_overwrite(2) [of "write_position st" "read_position st" b 0 d] len n b
    by (simp add: pending_def buf_slice_def store_at_def)
  show "allocated (store_at (read_position st) d st)" by (simp add: allocated_def store_at_def)
qed

lemma store_counted:
  assumes inv: "buffer_inv st" and al: "allocated st" and n: "read_position st + length d \<le> buffer_size st"
    and st': "st' = (store_at (read_position st) d st)\<lparr> read_position := read_position st + length d \<rparr>"
  shows "buffer_inv st'" "pending st' = pending st @ d" "allocated st'"
proof -
  from al obtain b where b: "transfer_buffer st = Some b" by (auto simp: allocated_def)
  from inv b have len: "length b = buffer_size st + 32" "write_position st \<le> read_position st"
    by (simp_all add: buffer_inv_def)
  show "buffer_inv st'" "allocated st'"
    using inv b n len by (simp_all add: buffer_inv_def store_at_def allocated_def st')
  show "pending st' = pending st @ d"
    using slice_overwrite(1) [of "write_position st" "read_position st" b d 0] len n b
    by (simp add: pending_def buf_slice_def store_at_def st')
qed

section \<open>Skipping past read errors\<close>

lemma skip_amount_pos: "0 < skip_amount errors off"
  by (simp add: skip_amount_def Let_def)

lemma skip_error_inv:
  assumes h: "honest S fd inp out" and inv: "buffer_inv st" "allocated st"
    and room: "0 < n" "read_position st + n \<le> buffer_size st"
    and run: "skip_error S st fd eof n e w = (ok, st', eof', w')"
  shows "buffer_inv st'" "allocated st'" "write_position st' = write_position st"
    "to_write st' = to_write st" "read_position st \<le> read_position st'"
proof -
  define st1 where "st1 = (if \<not> read_error_warning_shown st
      then (pv_error (current_file st @ '': warning: read errors detected: '' @ strerror S e) st)
             \<lparr> read_error_warning_shown := True \<rparr> else st)"
  have s1: "same_data st st1" by (simp add: st1_def same_data_def pv_error_def)
  obtain r0 w0 where r0: "sys_lseek S fd 0 SEEK_CUR w = (r0, w0)" by (rule prod.exhaust)
  have "\<exists>st2 d. same_data st1 st2 \<and> length d \<le> n \<and>
      (same_data st2 st' \<or>
       same_data ((store_at (read_position st2) d st2)\<lparr> read_position := read_position st2 + length d \<rparr>) st')"
  proof (cases r0)
    case (Inl e0)
    with run r0 have "same_data st1 st'"
      by (auto simp: skip_error_def Let_def st1_def [symmetric])
    then show ?thesis by (intro exI [of _ st1] exI [of _ "[]"]) simp
  next
    case (Inr orig)
    define a where "a = (if skip_amount (read_errors_in_a_row st1) orig > int n then int n
        else skip_amount (read_errors_in_a_row st1) orig)"
    have a: "0 < a" "a \<le> int n" using skip_amount_pos room(1) by (auto simp: a_def)
    obtain r w2 where r: "(case sys_lseek S fd (orig + a) SEEK_SET w0 of
          (Inl e, w) \<Rightarrow> sys_lseek S fd (orig + 1) SEEK_SET w
        | (Inr off, w) \<Rightarrow> (Inr off, w)) = (r, w2)" by (rule prod.exhaust)
    have off: "0 \<le> off - orig \<and> off - orig \<le> int n" if "r = Inr off" for off
      using r that a room(1) by (auto split: prod.splits sum.splits dest!: honest_lseekD(2) [OF h])
    show ?thesis
    proof (cases r)
      case (Inl e2)
      with run r0 Inr r have "same_data st1 st'"
        by (auto simp: skip_error_def Let_def st1_def [symmetric] a_def [symmetric])
      then show ?thesis by (intro exI [of _ st1] exI [of _ "[]"]) simp
    next
      case off2: (Inr o2)
      let ?d = "replicate (nat (o2 - orig)) (0 :: byte)"
      show ?thesis
      proof (cases "o2 - orig > 0")
        case False
        with run r0 Inr r off2 have "same_data st1 st'"
          by (auto simp: skip_error_def Let_def st1_def [symmetric] a_def [symmetric])
        then show ?thesis by (intro exI [of _ st1] exI [of _ "[]"]) simp
      next
        case True
        with run r0 Inr r off2 have "same_data
            ((store_at (read_position st1) ?d st1)\<lparr> read_position := read_position st1 + length ?d \<rparr>) st'"
          by (auto simp: skip_error_def Let_def st1_def [symmetric] a_def [symmetric] same_data_def
              pv_error_def store_at_def split: if_splits)
        with off [OF off2] True show ?thesis
          by (intro exI [of _ st1] exI [of _ ?d]) auto
      qed
    qed
  qed
  then obtain st2 d where d: "same_data st1 st2" "length d \<le> n" and
    alt: "same_data st2 st' \<or>
       same_data ((store_at (read_position st2) d st2)\<lparr> read_position := read_position st2 + length d \<rparr>) st'"
    by blast
  have s2: "same_data st st2" using s1 d(1) by (rule same_data_trans)
  note inv2 = same_data_keeps [OF s2]
  let ?st3 = "(store_at (read_position st2) d st2)\<lparr> read_position := read_position st2 + length d \<rparr>"
  have "read_position st2 + length d \<le> buffer_size st2"
    using s2 room(2) d(2) by (simp add: same_data_def)
  note c = store_counted [OF _ _ this refl]
  from alt show "buffer_inv st'" "allocated st'" "write_position st' = write_position st"
    "to_write st' = to_write st" "read_position st \<le> read_position st'"
    using c inv inv2 s2 same_data_keeps [of st2 st'] same_data_keeps [of ?st3 st']
    by (auto simp: same_data_def store_at_def)
qed

section \<open>The reading half\<close>

text \<open>
  A read has moved some bytes from the input to the end of the data, or (by \<open>splice\<close>) to the
  output, or has only changed the flags.
\<close>

definition eof_ok :: "('w \<Rightarrow> bytes) \<Rightarrow> pvstate \<Rightarrow> eofs \<Rightarrow> 'w \<Rightarrow> bool" where
  "eof_ok inp st eof w \<longleftrightarrow>
     (eof_in eof \<longrightarrow> inp w = []) \<and> (eof_out eof \<longrightarrow> eof_in eof \<and> pending st = [])"

lemma pending_empty: "buffer_inv st \<Longrightarrow> read_position st \<le> write_position st \<Longrightarrow> pending st = []"
  by (simp add: buffer_inv_def pending_def buf_slice_def)

lemma pending_length: "buffer_inv st \<Longrightarrow> length (pending st) = read_position st - write_position st"
  by (cases "transfer_buffer st") (auto simp: buffer_inv_def pending_def buf_slice_def)

lemma end_of_input_ok:
  "buffer_inv st \<Longrightarrow> inp w = [] \<Longrightarrow> eof_ok inp st (end_of_input st eof) w \<or> eof_out eof"
  by (auto simp: eof_ok_def end_of_input_def Let_def pending_empty)

lemma try_splice_run:
  assumes h: "honest S fd inp out"
    and sp: "to_write st = 0 \<Longrightarrow> pending st = [] \<or> 0 < rate_limit st \<and> allowed = 0"
    and run: "try_splice S st fd allowed n w = (r, st', w')"
  shows "same_data st st'" "out w' @ pending st @ inp w' = out w @ pending st @ inp w"
    "r = None \<Longrightarrow> inp w' = inp w \<and> out w' = out w \<and> \<not> splice_used st'"
    "r = Some (Inl e) \<Longrightarrow> e = EAGAIN" "r = Some (Inr k) \<Longrightarrow> 0 < k \<and> splice_used st'"
    "inp w = [] \<Longrightarrow> inp w' = []"
proof -
  let ?go = "\<not> linemode st \<and> \<not> no_splice st \<and> fd \<noteq> splice_failed_fd st \<and> to_write st = 0"
  let ?n = "if rate_limit st \<noteq> 0 \<or> allowed \<noteq> 0 then allowed else n"
  obtain q w1 where q: "sys_splice S fd ?n w = (q, w1)" by (rule prod.exhaust)
  have "same_data st st' \<and> out w' @ pending st @ inp w' = out w @ pending st @ inp w \<and>
      (r = None \<longrightarrow> inp w' = inp w \<and> out w' = out w \<and> \<not> splice_used st') \<and>
      (r = Some (Inl e) \<longrightarrow> e = EAGAIN) \<and> (r = Some (Inr k) \<longrightarrow> 0 < k \<and> splice_used st') \<and>
      (inp w = [] \<longrightarrow> inp w' = [])"
  proof (cases ?go)
    case False
    with run show ?thesis by (auto simp: try_splice_def Let_def same_data_def)
  next
    case go: True
    show ?thesis
    proof (cases q)
      case (Inl e1)
      with run go q honest_spliceD(2) [OF h q [unfolded Inl]] show ?thesis
        by (auto simp: try_splice_def Let_def same_data_def split: if_splits)
    next
      case (Inr j)
      have v: "j \<le> ?n" "out w1 @ inp w1 = out w @ inp w" "length (inp w) = j + length (inp w1)"
        using honest_spliceD(1) [OF h q [unfolded Inr]] by auto
      have z: "inp w1 = inp w \<and> out w1 = out w" if "j = 0"
        using v(2,3) that by (metis add_0 append_eq_append_conv)
      have "pending st = []" if "0 < j"
        using sp go v(1) that by (auto split: if_splits)
      with z v run go q Inr show ?thesis
        by (cases "j = 0") (auto simp: try_splice_def Let_def same_data_def)
    qed
  qed
  then show "same_data st st'" "out w' @ pending st @ inp w' = out w @ pending st @ inp w"
    "r = None \<Longrightarrow> inp w' = inp w \<and> out w' = out w \<and> \<not> splice_used st'"
    "r = Some (Inl e) \<Longrightarrow> e = EAGAIN" "r = Some (Inr k) \<Longrightarrow> 0 < k \<and> splice_used st'"
    "inp w = [] \<Longrightarrow> inp w' = []"
    by blast+
qed

lemma transfer_read_run:
  assumes h: "honest S fd inp out" and inv: "buffer_inv st" "allocated st"
    and room: "read_position st < buffer_size st"
    and sp: "to_write st = 0 \<Longrightarrow> pending st = [] \<or> 0 < rate_limit st \<and> allowed = 0"
    and run: "pv__transfer_read S st fd eof allowed w = (ok, st', eof', w')"
  shows "buffer_inv st'" "allocated st'" "write_position st' = write_position st"
    "to_write st' = to_write st" "read_position st \<le> read_position st'"
    "steady S fd \<Longrightarrow> out w' @ pending st' @ inp w' = out w @ pending st @ inp w"
    "steady S fd \<Longrightarrow> eof_ok inp st eof w \<Longrightarrow> \<not> eof_in eof \<Longrightarrow> eof_ok inp st' eof' w'"
proof -
  define n where "n = buffer_size st - read_position st"
  have n: "usub64 (buffer_size st) (read_position st) = n" "0 < n" "read_position st + n = buffer_size st"
    using inv(1) room by (simp_all add: n_def usub64_le buffer_inv_def)
  obtain r st1 w1 where spl: "try_splice S st fd allowed n w = (r, st1, w1)" by (metis prod.exhaust)
  note s = try_splice_run [OF h sp spl]
  note k1 = same_data_keeps [OF s(1)]
  have pos: "read_position st1 = read_position st" "write_position st1 = write_position st"
    "to_write st1 = to_write st" "buffer_size st1 = buffer_size st"
    using s(1) by (simp_all add: same_data_def)
  have "buffer_inv st' \<and> allocated st' \<and> write_position st' = write_position st \<and>
    to_write st' = to_write st \<and> read_position st \<le> read_position st' \<and>
    (steady S fd \<longrightarrow> out w' @ pending st' @ inp w' = out w @ pending st @ inp w) \<and>
    (steady S fd \<and> eof_ok inp st eof w \<and> \<not> eof_in eof \<longrightarrow> eof_ok inp st' eof' w')"
  proof (cases r)
    case (Some q)
    show ?thesis
    proof (cases q)
      case (Inl e)
      then have e: "e = EAGAIN" using s(4) Some by simp
      obtain x w2 where x: "sys_select S [] [] 10000 w1 = (x, w2)" by (rule prod.exhaust)
      with run n(1) spl Some Inl e have "st' = st1" "eof' = eof" "w' = w2"
        by (simp_all add: pv__transfer_read_def Let_def)
      with k1 pos inv s(2,6) honest_selectD(1,2) [OF h x] show ?thesis
        by (auto simp: eof_ok_def)
    next
      case (Inr k)
      then have k: "0 < k" "splice_used st1" using s(5) Some by auto
      with run n(1) spl Some Inr have "st' = st1\<lparr> read_errors_in_a_row := 0 \<rparr>" "eof' = eof" "w' = w1"
        by (simp_all add: pv__transfer_read_def Let_def)
      moreover have "same_data st1 (st1\<lparr> read_errors_in_a_row := 0 \<rparr>)" by (simp add: same_data_def)
      note same_data_keeps [OF this]
      ultimately show ?thesis using k1 pos inv s(2,6) by (auto simp: eof_ok_def)
    qed
  next
    case None
    then have s3: "inp w1 = inp w" "out w1 = out w" "\<not> splice_used st1" using s(3) by auto
    obtain d err w2 where rd: "pv__transfer_read_repeated S fd n w1 = ((d, err), w2)" by (metis prod.exhaust)
    note v = read_repeated_run [OF h rd]
    let ?st2 = "store_at (read_position st1) d st1"
    have fit: "read_position st1 + length d \<le> buffer_size st1" using v n pos by auto
    note u = store_uncounted [OF _ _ fit] and c = store_counted [OF _ _ fit refl]
    have inv1: "buffer_inv st1" "allocated st1" using k1 inv by simp_all
    show ?thesis
    proof (cases err)
      case (Some e)
      then have ns: "\<not> steady S fd" using v by auto
      show ?thesis
      proof (cases "e = EINTR \<or> e = EAGAIN")
        case True
        with run n(1) spl None rd Some have "st' = ?st2" by (auto simp: pv__transfer_read_def Let_def split: prod.splits)
        with u inv1 pos ns show ?thesis by (simp add: store_at_def)
      next
        case hard: False
        define st3 where "st3 = (set_exit 16 ?st2)\<lparr> read_errors_in_a_row := read_errors_in_a_row (set_exit 16 ?st2) + 1 \<rparr>"
        have s3: "same_data ?st2 st3" by (simp add: st3_def same_data_def set_exit_def)
        show ?thesis
        proof (cases "skip_errors st3 = 0")
          case True
          with run n(1) spl None rd Some hard have "\<exists>msg. st' = pv_error msg st3"
            by (auto simp: pv__transfer_read_def Let_def st3_def)
          then have "same_data st3 st'" by auto
          then have "same_data ?st2 st'" using s3 same_data_trans by blast
          from same_data_keeps [OF this] this u inv1 pos ns show ?thesis
            by (simp add: same_data_def store_at_def)
        next
          case False
          with run n(1) spl None rd Some hard have sk: "skip_error S st3 fd eof n e w2 = (ok, st', eof', w')"
            by (auto simp: pv__transfer_read_def Let_def st3_def)
          have "read_position st3 + n \<le> buffer_size st3"
            using s3 pos n by (simp add: same_data_def store_at_def)
          from skip_error_inv [OF h _ _ n(2) this sk] same_data_keeps [OF s3] u inv1 s3 pos ns show ?thesis
            by (simp add: same_data_def store_at_def)
        qed
      qed
    next
      case noerr: None
      show ?thesis
      proof (cases "d = []")
        case True
        with run n(1) spl None rd noerr have "st' = ?st2" "eof' = end_of_input ?st2 eof" "w' = w2"
          by (auto simp: pv__transfer_read_def Let_def)
        moreover have "inp w = []" "inp w2 = []" "out w2 = out w" using v True noerr n(2) s3 by auto
        ultimately show ?thesis
          using u inv1 pos k1 end_of_input_ok [of ?st2 inp w2 eof]
          by (auto simp: store_at_def eof_ok_def end_of_input_def Let_def)
      next
        case False
        with run n(1) spl None rd noerr s3(3)
        have "same_data (?st2\<lparr> read_position := read_position st1 + length d \<rparr>) st'" "eof' = eof" "w' = w2"
          by (auto simp: pv__transfer_read_def Let_def same_data_def store_at_def)
        from same_data_keeps [OF this(1)] this c inv1 pos k1 v s3 show ?thesis
          by (auto simp: store_at_def same_data_def eof_ok_def)
      qed
    qed
  qed
  then show "buffer_inv st'" "allocated st'" "write_position st' = write_position st"
    "to_write st' = to_write st" "read_position st \<le> read_position st'"
    "steady S fd \<Longrightarrow> out w' @ pending st' @ inp w' = out w @ pending st @ inp w"
    "steady S fd \<Longrightarrow> eof_ok inp st eof w \<Longrightarrow> \<not> eof_in eof \<Longrightarrow> eof_ok inp st' eof' w'"
    by blast+
qed

section \<open>The writing half\<close>

lemma slice_pending: "n \<le> read_position st - write_position st \<Longrightarrow>
  buf_slice (write_position st) n st = take n (pending st)"
  by (simp add: pending_def buf_slice_def min_def)

lemma written_part:
  assumes "buffer_inv st" "allocated st" "write_position st + n \<le> read_position st"
  shows "buffer_inv (st\<lparr> write_position := write_position st + n, written := m \<rparr>)"
    and "pending (st\<lparr> write_position := write_position st + n, written := m \<rparr>) = drop n (pending st)"
  using assms
  by (auto simp: buffer_inv_def allocated_def pending_def buf_slice_def drop_take add.commute)

lemma same_data_lastoutput: "same_data st (update_lastoutput n st)"
  by (simp add: update_lastoutput_def Let_def same_data_def)

lemma emptied:
  assumes "buffer_inv st" "allocated st"
  shows "buffer_inv (st\<lparr> write_position := 0, read_position := 0 \<rparr>)"
    and "pending (st\<lparr> write_position := 0, read_position := 0 \<rparr>) = []"
  using assms by (auto simp: buffer_inv_def allocated_def pending_def buf_slice_def)

lemma transfer_write_run:
  assumes h: "honest S fd inp out" and inv: "buffer_inv st" "allocated st"
    and tw: "0 < to_write st" "nat (to_write st) \<le> read_position st - write_position st"
    and run: "pv__transfer_write S st eof lw w = (ok, st', eof', lw', w')"
  shows "buffer_inv st'" "allocated st'"
    "steady S fd \<Longrightarrow> out w' @ pending st' @ inp w' = out w @ pending st @ inp w"
    "steady S fd \<Longrightarrow> flowing S \<Longrightarrow> eof_ok inp st eof w \<Longrightarrow> eof_ok inp st' eof' w'"
proof -
  define d where "d = take (nat (to_write st)) (pending st)"
  have d: "buf_slice (write_position st) (nat (to_write st)) st = d"
    using tw(2) by (simp add: d_def slice_pending)
  have len: "length (pending st) = read_position st - write_position st"
    by (rule pending_length [OF inv(1)])
  have dl: "length d \<le> read_position st - write_position st" "d \<noteq> []"
    using tw len by (auto simp: d_def min_def)
  obtain r w1 where r: "pv__transfer_write_repeated S STDOUT_FILENO d w = (r, w1)" by (rule prod.exhaust)
  note v = write_repeated_run [OF h r]
  have "buffer_inv st' \<and> allocated st' \<and>
    (steady S fd \<longrightarrow> out w' @ pending st' @ inp w' = out w @ pending st @ inp w) \<and>
    (steady S fd \<and> flowing S \<and> eof_ok inp st eof w \<longrightarrow> eof_ok inp st' eof' w')"
  proof (cases r)
    case (Inl e)
    then have ns: "\<not> steady S fd" "e \<noteq> EINTR" "e \<noteq> EAGAIN" using v(4) by auto
    with run d r Inl have "same_data st st'"
      by (auto simp: pv__transfer_write_def same_data_def set_exit_def pv_error_def split: if_splits)
    from same_data_keeps [OF this] inv ns show ?thesis by simp
  next
    case (Inr n)
    have n: "n \<le> length d" "out w1 = out w @ take n d" "inp w1 = inp w" "flowing S \<Longrightarrow> 0 < n"
      using v(1-3) Inr dl(2) by auto
    show ?thesis
    proof (cases "n = 0")
      case True
      with run d r Inr have "st' = st" "eof' = eof\<lparr> eof_out := True \<rparr>" "w' = w1"
        by (auto simp: pv__transfer_write_def)
      moreover have "\<not> flowing S" using n(4) True by blast
      ultimately show ?thesis using inv n True by simp
    next
      case False
      define st1 where "st1 = st\<lparr> write_position := write_position st + n, written := written st + int n \<rparr>"
      define st2 where "st2 = update_lastoutput n st1"
      have fit: "write_position st + n \<le> read_position st" using n(1) dl(1) tw by linarith
      have s: "same_data st1 st2" by (simp add: st2_def same_data_lastoutput)
      note k1 = written_part [OF inv fit, of "written st + int n", folded st1_def]
      note k2 = same_data_keeps [OF s]
      have inv2: "buffer_inv st2" "allocated st2" "pending st2 = drop n (pending st)"
        using k1 k2 inv(2) by (simp_all add: allocated_def st1_def)
      have tk: "take n d @ drop n (pending st) = pending st"
        using n(1) by (auto simp: d_def min_def split: if_splits)
      have res: "w' = w1 \<and> (if read_position st2 \<le> write_position st2
          then st' = st2\<lparr> write_position := 0, read_position := 0 \<rparr> \<and>
            eof' = (if eof_in eof then eof\<lparr> eof_out := True \<rparr> else eof)
          else st' = st2 \<and> eof' = eof)"
        using run d r Inr False
        by (auto simp: pv__transfer_write_def Let_def st1_def [symmetric] st2_def [symmetric] split: if_splits)
      show ?thesis
      proof (cases "read_position st2 \<le> write_position st2")
        case True
        then have "pending st2 = []" by (rule pending_empty [OF inv2(1)])
        with emptied [OF inv2(1,2)] res True n tk inv2 show ?thesis
          by (auto simp: allocated_def eof_ok_def)
      next
        case False
        with res n tk inv2 show ?thesis by (auto simp: eof_ok_def)
      qed
    qed
  qed
  then show "buffer_inv st'" "allocated st'"
    "steady S fd \<Longrightarrow> out w' @ pending st' @ inp w' = out w @ pending st @ inp w"
    "steady S fd \<Longrightarrow> flowing S \<Longrightarrow> eof_ok inp st eof w \<Longrightarrow> eof_ok inp st' eof' w'"
    by blast+
qed

lemma rotate_run:
  assumes inv: "buffer_inv st" "allocated st"
  shows "buffer_inv (rotate_buffer st)" "allocated (rotate_buffer st)"
    "pending (rotate_buffer st) = pending st"
proof -
  obtain b where b: "transfer_buffer st = Some b" using inv(2) by (auto simp: allocated_def)
  have len: "length b = buffer_size st + 32" "write_position st \<le> read_position st"
    "read_position st \<le> buffer_size st"
    using inv(1) b by (simp_all add: buffer_inv_def)
  let ?n = "read_position st - write_position st"
  have "length (take ?n (drop (write_position st) b)) = ?n" using len by simp
  then have "take ?n (overwrite 0 0 (take ?n (drop (write_position st) b)) b) =
      take ?n (drop (write_position st) b)"
    by (simp add: overwrite_def)
  then show "buffer_inv (rotate_buffer st)" "allocated (rotate_buffer st)"
    "pending (rotate_buffer st) = pending st"
    using inv b len
    by (auto simp: rotate_buffer_def store_at_def buffer_inv_def allocated_def pending_def buf_slice_def)
qed

section \<open>What may be written\<close>

definition writable :: "pvstate \<Rightarrow> bool" where
  "writable st \<longleftrightarrow> 0 \<le> to_write st \<and> nat (to_write st) \<le> read_position st - write_position st"

lemma set_to_write_run:
  assumes inv: "buffer_inv st"
  shows "same_data st ((set_to_write allowed st)\<lparr> to_write := to_write st \<rparr>)"
    "writable (set_to_write allowed st)"
    "to_write (set_to_write allowed st) = 0 \<Longrightarrow> pending st = [] \<or> 0 < rate_limit st \<and> allowed = 0"
proof -
  have le: "write_position st \<le> read_position st" "read_position st < 2 ^ 62"
    using inv by (simp_all add: buffer_inv_def)
  then have u: "usub64 (read_position st) (write_position st) = read_position st - write_position st"
    by (simp add: usub64_le)
  have i: "i64 (int (read_position st - write_position st)) = int (read_position st - write_position st)"
    using le by (intro i64_nonneg) auto
  have w: "u64 (int (read_position st - write_position st)) = int (read_position st - write_position st)"
    using le by (intro u64_id) auto
  have a: "i64 (int allowed) = int allowed" if "allowed < read_position st - write_position st"
    using that le by (intro i64_nonneg) auto
  show "same_data st ((set_to_write allowed st)\<lparr> to_write := to_write st \<rparr>)"
    by (simp add: set_to_write_def Let_def same_data_def)
  show "writable (set_to_write allowed st)"
    using a by (auto simp: set_to_write_def Let_def u i w writable_def)
  show "to_write (set_to_write allowed st) = 0 \<Longrightarrow> pending st = [] \<or> 0 < rate_limit st \<and> allowed = 0"
    using a pending_length [OF inv] by (auto simp: set_to_write_def Let_def u i w split: if_splits)
qed

lemma trim_run:
  assumes "writable st"
  shows "same_data st ((trim_to_line st)\<lparr> to_write := to_write st \<rparr>)" "writable (trim_to_line st)"
    "splice_used (trim_to_line st) = splice_used st"
proof -
  let ?t = "takeWhile (\<lambda>x. x \<noteq> 0) (buf_slice (write_position st) (nat (to_write st)) st)"
  have "length ?t \<le> nat (to_write st)"
    by (rule order_trans [OF length_takeWhile_le]) (simp add: buf_slice_def)
  with assms show "writable (trim_to_line st)"
    by (auto simp: writable_def trim_to_line_def Let_def)
  show "same_data st ((trim_to_line st)\<lparr> to_write := to_write st \<rparr>)"
    "splice_used (trim_to_line st) = splice_used st"
    by (auto simp: trim_to_line_def Let_def same_data_def)
qed

section \<open>A round of the transfer\<close>

definition stream :: "('w \<Rightarrow> bytes) \<Rightarrow> ('w \<Rightarrow> bytes) \<Rightarrow> pvstate \<Rightarrow> 'w \<Rightarrow> bytes" where
  "stream inp out st w = out w @ pending st @ inp w"

text \<open>
  What every part of a round keeps: the buffer invariant always, and, where the calls are
  \<open>steady\<close>, the stream and (when writes also make progress) the meaning of the two flags.
\<close>

definition round_ok ::
  "'w sysio \<Rightarrow> int \<Rightarrow> ('w \<Rightarrow> bytes) \<Rightarrow> ('w \<Rightarrow> bytes) \<Rightarrow> pvstate \<Rightarrow> eofs \<Rightarrow> 'w \<Rightarrow> pvstate \<Rightarrow> eofs \<Rightarrow> 'w \<Rightarrow> bool" where
  "round_ok S fd inp out st eof w st' eof' w' \<longleftrightarrow>
     buffer_inv st' \<and>
     (steady S fd \<longrightarrow> stream inp out st' w' = stream inp out st w) \<and>
     (steady S fd \<and> flowing S \<and> eof_ok inp st eof w \<longrightarrow> eof_ok inp st' eof' w')"

lemma round_ok_trans:
  "round_ok S fd inp out a e w b f x \<Longrightarrow> round_ok S fd inp out b f x c g y \<Longrightarrow>
   round_ok S fd inp out a e w c g y"
  by (simp add: round_ok_def)

lemma round_ok_same:
  assumes "buffer_inv st" "buffer_inv st' = buffer_inv st" "pending st' = pending st"
    "inp w' = inp w" "out w' = out w"
  shows "round_ok S fd inp out st eof w st' eof w'"
  using assms by (simp add: round_ok_def stream_def eof_ok_def)

lemma same_data_to_write:
  "same_data st (st'\<lparr> to_write := to_write st \<rparr>) \<Longrightarrow>
   buffer_inv st' = buffer_inv st \<and> pending st' = pending st \<and> allocated st' = allocated st \<and>
   read_position st' = read_position st \<and> write_position st' = write_position st \<and>
   buffer_size st' = buffer_size st \<and> rate_limit st' = rate_limit st"
  by (cases "transfer_buffer st")
    (simp_all add: same_data_def buffer_inv_def pending_def buf_slice_def allocated_def)

lemma transfer_ready_run:
  assumes h: "honest S fd inp out" and inv: "buffer_inv st" "allocated st" and w: "writable st"
    and sp: "to_write st = 0 \<Longrightarrow> pending st = [] \<or> 0 < rate_limit st \<and> allowed = 0"
    and room: "can_read \<Longrightarrow> read_position st < buffer_size st \<and> \<not> eof_in eof"
    and run: "transfer_ready S st fd eof allowed lw can_read can_write w0 = (r, st', eof', lw', w')"
  shows "round_ok S fd inp out st eof w0 st' eof' w'"
proof -
  define st0 where "st0 = st\<lparr> written := 0 \<rparr>"
  have s0: "same_data st st0" by (simp add: st0_def same_data_def)
  note k0 = same_data_keeps [OF s0]
  have w00: "writable st0" using w s0 by (simp add: writable_def same_data_def)
  obtain ok1 st1 eof1 w1 where r1: "(if can_read then pv__transfer_read S st0 fd eof allowed w0
      else (1, st0, eof, w0)) = (ok1, st1, eof1, w1)" by (metis prod.exhaust)
  have 1: "round_ok S fd inp out st0 eof w0 st1 eof1 w1 \<and> allocated st1 \<and> writable st1"
  proof (cases can_read)
    case True
    have "read_position st0 < buffer_size st0" using room True s0 by (simp add: same_data_def)
    moreover have "pending st0 = [] \<or> 0 < rate_limit st0 \<and> allowed = 0" if "to_write st0 = 0"
      using sp that s0 k0 by (simp add: same_data_def)
    ultimately show ?thesis
      using transfer_read_run [OF h, of st0 allowed eof w0 ok1 st1 eof1 w1] r1 True inv k0 room w00
      by (auto simp: round_ok_def stream_def writable_def)
  next
    case False
    with r1 inv k0 w00 show ?thesis by (auto intro: round_ok_same)
  qed
  have s01: "round_ok S fd inp out st eof w0 st0 eof w0"
    using inv k0 by (intro round_ok_same) auto
  show ?thesis
  proof (cases "ok1 = 0")
    case True
    with run r1 have "st' = st1" "eof' = eof1" "w' = w1"
      by (auto simp: transfer_ready_def Let_def st0_def [symmetric])
    with round_ok_trans [OF s01 conjunct1 [OF 1]] show ?thesis by simp
  next
    case False
    define st2 where "st2 = trim_to_line st1"
    note t = trim_run [of st1, folded st2_def]
    note kt = same_data_to_write [OF t(1)]
    have inv1: "buffer_inv st1" using 1 by (simp add: round_ok_def)
    have s2: "round_ok S fd inp out st1 eof1 w1 st2 eof1 w1"
      using 1 kt inv1 by (intro round_ok_same) auto
    let ?go = "can_write \<and> \<not> splice_used st2 \<and> read_position st2 > write_position st2 \<and> to_write st2 > 0"
    obtain ok3 st3 eof3 lw3 w3 where r3: "(if ?go then pv__transfer_write S st2 eof1 lw w1
        else (1, st2, eof1, lw, w1)) = (ok3, st3, eof3, lw3, w3)" by (metis prod.exhaust)
    have inv2: "buffer_inv st2" "allocated st2" using 1 kt inv1 by auto
    have 3: "round_ok S fd inp out st2 eof1 w1 st3 eof3 w3 \<and> allocated st3"
    proof (cases ?go)
      case True
      then have "0 < to_write st2" "nat (to_write st2) \<le> read_position st2 - write_position st2"
        using t(2) 1 by (auto simp: writable_def)
      from transfer_write_run [OF h inv2 this, of eof1 lw w1 ok3 st3 eof3 lw3 w3] r3 True
      show ?thesis by (simp add: round_ok_def stream_def)
    next
      case False
      with r3 inv2 show ?thesis by (auto intro: round_ok_same)
    qed
    have inv3: "buffer_inv st3" "allocated st3" using 3 by (simp_all add: round_ok_def)
    have 4: "round_ok S fd inp out st3 eof3 w3 (rotate_buffer st3) eof3 w3"
      using rotate_run [OF inv3] inv3 by (intro round_ok_same) auto
    have "(st' = st3 \<or> st' = rotate_buffer st3) \<and> eof' = eof3 \<and> w' = w3"
      using run r1 False r3
      by (auto simp: transfer_ready_def Let_def st0_def [symmetric] st2_def [symmetric] split: if_splits)
    moreover note 03 = round_ok_trans [OF round_ok_trans [OF round_ok_trans [OF s01 conjunct1 [OF 1]] s2]
        conjunct1 [OF 3]]
    moreover note round_ok_trans [OF 03 4]
    ultimately show ?thesis by auto
  qed
qed

lemma alloc_buffer_run:
  assumes h: "honest S fd inp out" and inv: "buffer_inv st"
    and run: "alloc_buffer S st w = (ok, st', w')"
  shows "buffer_inv st'" "pending st' = pending st" "inp w' = inp w" "out w' = out w"
    "ok \<Longrightarrow> allocated st'"
proof -
  have "buffer_inv st' \<and> pending st' = pending st \<and> inp w' = inp w \<and> out w' = out w \<and> (ok \<longrightarrow> allocated st')"
  proof (cases "transfer_buffer st")
    case (Some b)
    with run inv show ?thesis by (simp add: alloc_buffer_def allocated_def)
  next
    case None
    let ?st = "st\<lparr> buffer_size := target_buffer_size st \<rparr>"
    obtain b w1 where b: "sys_alloc S (buffer_size ?st + 32) w = (b, w1)" by (rule prod.exhaust)
    note v = honest_allocD [OF h b]
    have p: "pending st = []" using inv None by (simp add: buffer_inv_def pending_def buf_slice_def)
    show ?thesis
    proof (cases b)
      case bn: None
      with run None b have "same_data ?st st'" "\<not> ok" "w' = w1"
        by (auto simp: alloc_buffer_def Let_def same_data_def set_exit_def pv_error_def)
      with same_data_keeps [OF this(1)] v p inv None show ?thesis
        by (simp add: buffer_inv_def pending_def buf_slice_def)
    next
      case (Some c)
      with run None b have "st' = ?st\<lparr> transfer_buffer := Some c \<rparr>" "ok" "w' = w1"
        by (auto simp: alloc_buffer_def Let_def)
      with v Some p inv None show ?thesis
        by (simp add: buffer_inv_def pending_def buf_slice_def allocated_def)
    qed
  qed
  then show "buffer_inv st'" "pending st' = pending st" "inp w' = inp w" "out w' = out w"
    "ok \<Longrightarrow> allocated st'" by blast+
qed

lemma grow_buffer_run:
  assumes h: "honest S fd inp out" and inv: "buffer_inv st" "allocated st"
    and run: "grow_buffer S st w = (st', w')"
  shows "buffer_inv st'" "allocated st'" "pending st' = pending st" "inp w' = inp w" "out w' = out w"
proof -
  obtain a where a: "transfer_buffer st = Some a" using inv(2) by (auto simp: allocated_def)
  have len: "length a = buffer_size st + 32" "write_position st \<le> read_position st"
    "read_position st \<le> buffer_size st"
    using inv(1) a by (simp_all add: buffer_inv_def)
  have "buffer_inv st' \<and> allocated st' \<and> pending st' = pending st \<and> inp w' = inp w \<and> out w' = out w"
  proof (cases "buffer_size st < target_buffer_size st")
    case False
    with run inv show ?thesis by (simp add: grow_buffer_def)
  next
    case True
    obtain b w1 where b: "sys_alloc S (target_buffer_size st + 32) w = (b, w1)" by (rule prod.exhaust)
    note v = honest_allocD [OF h b]
    show ?thesis
    proof (cases b)
      case None
      with run True b have "st' = st\<lparr> target_buffer_size := buffer_size st \<rparr>" "w' = w1"
        by (simp_all add: grow_buffer_def)
      with inv v a show ?thesis by (simp add: buffer_inv_def allocated_def pending_def buf_slice_def)
    next
      case (Some c)
      with run True b a have st': "st' = st\<lparr> transfer_buffer := Some (overwrite 0 0 a c),
          buffer_size := target_buffer_size st \<rparr>" "w' = w1"
        by (simp_all add: grow_buffer_def)
      have "take (read_position st - write_position st) (drop (write_position st) (overwrite 0 0 a c)) =
          take (read_position st - write_position st) (drop (write_position st) a)"
        using len by (simp add: overwrite_def)
      with st' v(1,2) v(3) [OF Some] inv a len True show ?thesis
        by (simp add: buffer_inv_def allocated_def pending_def buf_slice_def)
    qed
  qed
  then show "buffer_inv st'" "allocated st'" "pending st' = pending st" "inp w' = inp w" "out w' = out w"
    by blast+
qed

lemma pv_transfer_run:
  assumes h: "honest S fd inp out" and inv: "buffer_inv st"
    and run: "pv_transfer S st fd eof allowed lw w = (r, st', eof', lw', w')"
  shows "round_ok S fd inp out st eof w st' eof' w'"
proof -
  define st0 where "st0 = (if fd \<noteq> last_read_skip_fd st
      then st\<lparr> last_read_skip_fd := fd, read_errors_in_a_row := 0, read_error_warning_shown := False \<rparr> else st)"
  have s0: "same_data st st0" by (simp add: st0_def same_data_def)
  note k0 = same_data_keeps [OF s0]
  obtain ok st1 w1 where a: "alloc_buffer S st0 w = (ok, st1, w1)" by (metis prod.exhaust)
  note va = alloc_buffer_run [OF h _ a]
  have 1: "round_ok S fd inp out st eof w st1 eof w1"
    using va k0 inv by (intro round_ok_same) auto
  show ?thesis
  proof (cases ok)
    case False
    with run a 1 show ?thesis by (simp add: pv_transfer_def Let_def st0_def [symmetric])
  next
    case True
    have inv1: "buffer_inv st1" "allocated st1" using va True k0 inv by auto
    obtain st2 w2 where g: "grow_buffer S st1 w1 = (st2, w2)" by (rule prod.exhaust)
    note vg = grow_buffer_run [OF h inv1 g]
    have 2: "round_ok S fd inp out st1 eof w1 st2 eof w2"
      using vg inv1 by (intro round_ok_same) auto
    note 12 = round_ok_trans [OF 1 2]
    let ?lw = "if linemode st2 then map_option (\<lambda>_. 0) lw else lw"
    let ?rfds = "if \<not> eof_in eof \<and> read_position st2 < buffer_size st2 then [fd] else []"
    let ?st3 = "set_to_write allowed st2"
    let ?wfds = "if \<not> eof_out eof \<and> to_write ?st3 > 0 then [STDOUT_FILENO] else []"
    obtain q w3 where q: "sys_select S ?rfds ?wfds 90000 w2 = (q, w3)" by (rule prod.exhaust)
    note vq = honest_selectD [OF h q]
    note tw = set_to_write_run [OF vg(1), of allowed]
    note kw = same_data_to_write [OF tw(1)]
    have 3: "round_ok S fd inp out st2 eof w2 ?st3 eof w3"
      using vg kw vq by (intro round_ok_same) auto
    note 13 = round_ok_trans [OF 12 3]
    show ?thesis
    proof (cases "eof_in eof \<and> eof_out eof")
      case True
      with run a g \<open>ok\<close> 12 show ?thesis by (simp add: pv_transfer_def Let_def st0_def [symmetric])
    next
      case goes: False
      show ?thesis
      proof (cases q)
        case (Inl e)
        with run a g q \<open>ok\<close> goes have "same_data ?st3 st'" "eof' = eof" "w' = w3"
          by (auto simp: pv_transfer_def Let_def st0_def [symmetric] same_data_def set_exit_def pv_error_def
              split: if_splits)
        with same_data_keeps [OF this(1)] vg kw have "round_ok S fd inp out ?st3 eof w3 st' eof' w'"
          by (auto intro: round_ok_same)
        with 13 show ?thesis by (rule round_ok_trans)
      next
        case (Inr rw)
        obtain rs ws where rw: "rw = (rs, ws)" by (rule prod.exhaust)
        have sub: "set rs \<subseteq> set ?rfds" using vq(3) Inr rw by blast
        from run a g q \<open>ok\<close> goes Inr rw have
          "transfer_ready S ?st3 fd eof allowed ?lw (fd \<in> set rs) (STDOUT_FILENO \<in> set ws) w3 =
            (r, st', eof', lw', w')"
          by (simp add: pv_transfer_def Let_def st0_def [symmetric])
        then have "round_ok S fd inp out ?st3 eof w3 st' eof' w'"
          using vg kw tw(2,3) sub
          by (intro transfer_ready_run [OF h]) (auto split: if_splits)
        with 13 show ?thesis by (rule round_ok_trans)
      qed
    qed
  qed
qed

section \<open>A pipe to run the transfer on\<close>

text \<open>
  A world of two byte strings, what is left to read and what has been written, on which every
  call behaves as documented, and writes and reads always go through; \<open>splice\<close> is not available.
\<close>

definition pipe_sys :: "(bytes \<times> bytes) sysio" where
  "pipe_sys = \<lparr> sys_time = (\<lambda>w. ((0, 0), w)),
     sys_read = (\<lambda>fd n w. (Inr (take n (fst w)), (drop n (fst w), snd w))),
     sys_write = (\<lambda>fd d w. (Inr (length d), (fst w, snd w @ d))),
     sys_splice = (\<lambda>fd n w. (Inl EINVAL, w)),
     sys_lseek = (\<lambda>fd off whence w. (Inl 29, w)),
     sys_select = (\<lambda>rs ws t w. (Inr (rs, ws), w)),
     sys_alloc = (\<lambda>n w. (Some (replicate n 0), w)),
     strerror = (\<lambda>e. ''error'') \<rparr>"

lemma pipe_honest: "honest pipe_sys fd fst snd"
  by (auto simp: honest_def honest_read_def honest_write_def honest_splice_def honest_select_def
      honest_lseek_def untouched_def pipe_sys_def)

lemma pipe_steady: "steady pipe_sys fd"
  by (simp add: steady_def pipe_sys_def)

lemma pipe_flowing: "flowing pipe_sys"
  by (simp add: flowing_def pipe_sys_def)

definition pipe_state :: "nat \<Rightarrow> pvstate" where
  "pipe_state n = (the (pv_state_alloc True ''pv''))\<lparr> target_buffer_size := n \<rparr>"

lemma pipe_state_inv: "n < 2 ^ 62 \<Longrightarrow> buffer_inv (pipe_state n)"
  by (simp add: pipe_state_def buffer_inv_def pv_state_alloc_def)

lemma pipe_state_pending: "pending (pipe_state n) = []"
  by (simp add: pipe_state_def pending_def buf_slice_def pv_state_alloc_def)

section \<open>The properties of a round\<close>

text \<open>
  C21. Whatever the calls return, errors and skipped blocks included: the write position stays behind
  the read position, which stays in the buffer, and the buffer keeps its 32 spare bytes.
\<close>

theorem transfer_positions:
  assumes "honest S fd inp out" "buffer_inv st"
    and "pv_transfer S st fd eof allowed lw w = (r, st', eof', lw', w')"
  shows "buffer_inv st'"
  using pv_transfer_run [OF assms] by (simp add: round_ok_def)

theorem transfer_positions_witness:
  "buffer_inv (fst (snd (pv_transfer pipe_sys (pipe_state 4) 0 \<lparr> eof_in = False, eof_out = False \<rparr> 0 None
     ([1, 2, 3, 4, 5, 6], []))))"
proof -
  obtain r st' eof' lw' w' where "pv_transfer pipe_sys (pipe_state 4) 0 \<lparr> eof_in = False, eof_out = False \<rparr> 0 None
     ([1, 2, 3, 4, 5, 6], []) = (r, st', eof', lw', w')" by (metis prod.exhaust)
  from transfer_positions [OF pipe_honest pipe_state_inv this] this show ?thesis by simp
qed

text \<open>
  C20. While reads do not fail and writes are at worst interrupted, a round loses and reorders
  nothing: output, buffered data and remaining input, one after the other, are the same bytes
  before and after.
\<close>

theorem transfer_conserves:
  assumes "honest S fd inp out" "steady S fd" "buffer_inv st"
    and "pv_transfer S st fd eof allowed lw w = (r, st', eof', lw', w')"
  shows "out w' @ pending st' @ inp w' = out w @ pending st @ inp w"
  using pv_transfer_run [OF assms(1,3,4)] assms(2) by (simp add: round_ok_def stream_def)

theorem transfer_conserves_witness:
  "let (r, st', eof', lw', w') = pv_transfer pipe_sys (pipe_state 4) 0
       \<lparr> eof_in = False, eof_out = False \<rparr> 0 None ([1, 2, 3, 4, 5, 6], [])
   in snd w' @ pending st' @ fst w' = [1, 2, 3, 4, 5, 6]"
proof -
  obtain r st' eof' lw' w' where "pv_transfer pipe_sys (pipe_state 4) 0 \<lparr> eof_in = False, eof_out = False \<rparr> 0 None
     ([1, 2, 3, 4, 5, 6], []) = (r, st', eof', lw', w')" by (metis prod.exhaust)
  from transfer_conserves [OF pipe_honest pipe_steady pipe_state_inv this] this show ?thesis
    by (simp add: pipe_state_pending)
qed

text \<open>Rounds until both ends are reached, or \<open>n\<close> of them: the use the main loop makes of it.\<close>

fun rounds ::
  "nat \<Rightarrow> 'w sysio \<Rightarrow> int \<Rightarrow> nat \<Rightarrow> pvstate \<Rightarrow> eofs \<Rightarrow> 'w \<Rightarrow> pvstate \<times> eofs \<times> 'w" where
  "rounds 0 S fd allowed st eof w = (st, eof, w)"
| "rounds (Suc n) S fd allowed st eof w =
     (if eof_in eof \<and> eof_out eof then (st, eof, w)
      else case pv_transfer S st fd eof allowed None w of
             (_, st, eof, _, w) \<Rightarrow> rounds n S fd allowed st eof w)"

lemma rounds_run:
  assumes h: "honest S fd inp out"
  shows "buffer_inv st \<Longrightarrow> rounds n S fd allowed st eof w = (st', eof', w') \<Longrightarrow>
    round_ok S fd inp out st eof w st' eof' w'"
proof (induction n arbitrary: st eof w)
  case 0
  then show ?case by (simp add: round_ok_def)
next
  case (Suc n)
  show ?case
  proof (cases "eof_in eof \<and> eof_out eof")
    case True
    with Suc.prems show ?thesis by (simp add: round_ok_def)
  next
    case False
    obtain r st1 eof1 lw1 w1 where t: "pv_transfer S st fd eof allowed None w = (r, st1, eof1, lw1, w1)"
      by (metis prod.exhaust)
    note 1 = pv_transfer_run [OF h Suc.prems(1) t]
    then have "buffer_inv st1" by (simp add: round_ok_def)
    moreover have "rounds n S fd allowed st1 eof1 w1 = (st', eof', w')"
      using Suc.prems(2) False t by auto
    ultimately have "round_ok S fd inp out st1 eof1 w1 st' eof' w'" by (rule Suc.IH)
    with 1 show ?thesis by (rule round_ok_trans)
  qed
qed

text \<open>
  When the rounds on an input have reached both ends, and every write made progress, the output
  has received exactly what the buffer and the input held, in order, and nothing is left.
\<close>

theorem transfer_copies_input:
  assumes "honest S fd inp out" "steady S fd" "flowing S" "buffer_inv st" "eof_ok inp st eof w"
    and "rounds n S fd allowed st eof w = (st', eof', w')" "eof_in eof'" "eof_out eof'"
  shows "out w' = out w @ pending st @ inp w \<and> pending st' = [] \<and> inp w' = []"
proof -
  from rounds_run [OF assms(1,4,6)] assms(2,3,5)
  have "stream inp out st' w' = stream inp out st w" "eof_ok inp st' eof' w'"
    by (simp_all add: round_ok_def)
  with assms(7,8) show ?thesis by (simp add: stream_def eof_ok_def)
qed

text \<open>What it takes to run a round on a concrete world.\<close>

lemmas round_simps = pv_transfer_def alloc_buffer_def grow_buffer_def set_to_write_def
  transfer_ready_def pv__transfer_read_def try_splice_def pv__transfer_write_def trim_to_line_def
  rotate_buffer_def usub64_def i64_def errno_defs store_at_def overwrite_def buf_slice_def
  end_of_input_def update_lastoutput_def pv__transfer_read_repeated_def read_loop.simps
  pv__transfer_write_repeated_def write_loop.simps elapsed_usec_def TRANSFER_READ_TIMEOUT_def
  TRANSFER_WRITE_TIMEOUT_def MAX_READ_AT_ONCE_def MAX_WRITE_AT_ONCE_def ready_def
  pipe_state_def pv_state_alloc_def Let_def

abbreviation both_open :: eofs where
  "both_open \<equiv> \<lparr> eof_in = False, eof_out = False \<rparr>"

theorem transfer_copies_input_witness:
  "snd (snd (snd (rounds 3 pipe_sys 0 0 (pipe_state 4) both_open ([7, 8], [])))) = [7, 8]"
proof -
  obtain st' eof' w' where r: "rounds 3 pipe_sys 0 0 (pipe_state 4) both_open ([7, 8], []) = (st', eof', w')"
    by (metis prod.exhaust)
  then have "eof' = \<lparr> eof_in = True, eof_out = True \<rparr>"
    by (simp add: round_simps pipe_sys_def numeral_3_eq_3)
  then have "eof_in eof'" "eof_out eof'" by simp_all
  moreover have "eof_ok fst (pipe_state 4) both_open ([7, 8], [] :: bytes)" by (simp add: eof_ok_def)
  ultimately have "snd w' = snd ([7, 8], []) @ pending (pipe_state 4) @ fst ([7, 8], [])"
    using transfer_copies_input [OF pipe_honest pipe_steady pipe_flowing pipe_state_inv _ r] by simp
  then show ?thesis by (simp add: r pipe_state_pending)
qed

section \<open>Interruptions\<close>

text \<open>
  The same pipe, where reads are at most two bytes long and the calls whose numbers are in
  \<open>rs\<close> and \<open>ws\<close> are interrupted by a signal: \<open>EINTR\<close>, with nothing moved.
\<close>

definition flaky_sys :: "nat list \<Rightarrow> nat list \<Rightarrow> (nat \<times> nat \<times> bytes \<times> bytes) sysio" where
  "flaky_sys rs ws = \<lparr> sys_time = (\<lambda>w. ((0, 0), w)),
     sys_read = (\<lambda>fd n (i, j, f, s). if i \<in> set rs then (Inl EINTR, (i + 1, j, f, s))
       else (Inr (take (min n 2) f), (i + 1, j, drop (min n 2) f, s))),
     sys_write = (\<lambda>fd d (i, j, f, s). if j \<in> set ws then (Inl EINTR, (i, j + 1, f, s))
       else (Inr (length d), (i, j + 1, f, s @ d))),
     sys_splice = (\<lambda>fd n w. (Inl EINVAL, w)),
     sys_lseek = (\<lambda>fd off whence w. (Inl 29, w)),
     sys_select = (\<lambda>rs ws t w. (Inr (rs, ws), w)),
     sys_alloc = (\<lambda>n w. (Some (replicate n 0), w)),
     strerror = (\<lambda>e. ''error'') \<rparr>"

definition flaky_in :: "nat \<times> nat \<times> bytes \<times> bytes \<Rightarrow> bytes" where "flaky_in w = fst (snd (snd w))"
definition flaky_out :: "nat \<times> nat \<times> bytes \<times> bytes \<Rightarrow> bytes" where "flaky_out w = snd (snd (snd w))"

lemma flaky_honest: "honest (flaky_sys rs ws) fd flaky_in flaky_out"
  by (auto simp: honest_def honest_read_def honest_write_def honest_splice_def honest_select_def
      honest_lseek_def untouched_def flaky_sys_def flaky_in_def flaky_out_def)

text \<open>
  A read that is interrupted after the buffer has been filled in part loses that part: the round
  reports a transient condition, no error is noted, and the first two bytes are neither in
  the output nor in the buffer nor left to read.
\<close>

theorem interrupted_read_loses_data:
  "honest (flaky_sys [1] []) 0 flaky_in flaky_out \<and>
   (case pv_transfer (flaky_sys [1] []) (pipe_state 8) 0 both_open 0 None (0, 0, [1, 2, 3, 4], []) of
      (r, st', eof', lw', w') \<Rightarrow>
        r = 0 \<and> exit_status st' = 0 \<and> eof' = both_open \<and>
        flaky_out w' @ pending st' @ flaky_in w' = [3, 4])"
proof (rule conjI [OF flaky_honest])
  show "case pv_transfer (flaky_sys [1] []) (pipe_state 8) 0 both_open 0 None (0, 0, [1, 2, 3, 4], []) of
      (r, st', eof', lw', w') \<Rightarrow>
        r = 0 \<and> exit_status st' = 0 \<and> eof' = both_open \<and>
        flaky_out w' @ pending st' @ flaky_in w' = [3, 4]"
    by (simp add: round_simps flaky_sys_def flaky_in_def flaky_out_def pending_def)
qed

text \<open>
  A write that is interrupted before it wrote anything is taken for the end of the output: on an
  input of two bytes the rounds end with nothing written and no error noted.
\<close>

theorem interrupted_write_ends_output:
  "honest (flaky_sys [] [0]) 0 flaky_in flaky_out \<and>
   (case rounds 3 (flaky_sys [] [0]) 0 0 (pipe_state 8) both_open (0, 0, [1, 2], []) of
      (st', eof', w') \<Rightarrow>
        eof_in eof' \<and> eof_out eof' \<and> exit_status st' = 0 \<and> flaky_out w' = [] \<and> flaky_in w' = [])"
proof (rule conjI [OF flaky_honest])
  show "case rounds 3 (flaky_sys [] [0]) 0 0 (pipe_state 8) both_open (0, 0, [1, 2], []) of
      (st', eof', w') \<Rightarrow>
        eof_in eof' \<and> eof_out eof' \<and> exit_status st' = 0 \<and> flaky_out w' = [] \<and> flaky_in w' = []"
    by (simp add: round_simps flaky_sys_def flaky_in_def flaky_out_def numeral_3_eq_3)
qed

text \<open>
  In line mode the lines of what is written are counted up to the first zero byte only, while
  \<open>pv_calc_total_size\<close> counts every line feed of the same data.
\<close>

theorem lines_after_nul_uncounted:
  "lines_in False (d @ 0 # e) = lines_in False d"
  by (induction d) (auto simp: lines_in_def count_byte_def)

end
