(* ===== verification/PvFile.thy ===== *)
theory PvFile
  imports PvStream
begin

text \<open>
  \<open>tools/pv/src/pv/file.c\<close>: the total size of the inputs, and the move from one input file to the
  next. The calls on files are the parameter \<open>sysfile\<close>, which extends the calls of the transfer.
\<close>

datatype file_kind = S_REG | S_BLK | S_OTHER

record stat64 =
  st_dev :: int
  st_ino :: int
  st_kind :: file_kind
  st_size :: int
  st_blksize :: int

record 'w sysfile = "'w sysio" +
  sys_stat :: "string \<Rightarrow> 'w \<Rightarrow> (int + stat64) \<times> 'w"
  sys_fstat :: "int \<Rightarrow> 'w \<Rightarrow> (int + stat64) \<times> 'w"
  sys_access_r :: "string \<Rightarrow> 'w \<Rightarrow> (int + unit) \<times> 'w"
  sys_open_r :: "string \<Rightarrow> 'w \<Rightarrow> (int + int) \<times> 'w"
  sys_close :: "int \<Rightarrow> 'w \<Rightarrow> (int + unit) \<times> 'w"
  sys_dup :: "int \<Rightarrow> 'w \<Rightarrow> (int + int) \<times> 'w"
  sys_append_mode :: "int \<Rightarrow> 'w \<Rightarrow> bool \<times> 'w"
  sys_isatty :: "int \<Rightarrow> 'w \<Rightarrow> bool \<times> 'w"

definition stdin_name :: string where "stdin_name = ''-''"

definition remove_file :: "nat \<Rightarrow> pvstate \<Rightarrow> pvstate" where
  "remove_file i st = st\<lparr> input_files := take i (input_files st) @ drop (i + 1) (input_files st) \<rparr>"

definition file_error :: "'w sysfile \<Rightarrow> string \<Rightarrow> int \<Rightarrow> nat \<Rightarrow> pvstate \<Rightarrow> pvstate" where
  "file_error S what e flag st = set_exit flag (pv_error (what @ '': '' @ strerror S e) st)"

text \<open>The offset \<open>lseek64\<close> returns, \<open>-1\<close> on error.\<close>

definition seek :: "'w sysfile \<Rightarrow> int \<Rightarrow> int \<Rightarrow> int \<Rightarrow> 'w \<Rightarrow> int \<times> 'w" where
  "seek S fd off whence w =
     (case sys_lseek S fd off whence w of (Inr o', w) \<Rightarrow> (o', w) | (Inl e, w) \<Rightarrow> (- 1, w))"

section \<open>The total size\<close>

text \<open>A block device: open it and seek to its end.\<close>

definition size_block ::
  "'w sysfile \<Rightarrow> string \<Rightarrow> int \<Rightarrow> pvstate \<Rightarrow> 'w \<Rightarrow> int \<times> pvstate \<times> 'w" where
  "size_block S name tot st w =
     (case sys_open_r S (if name = stdin_name then ''/dev/stdin'' else name) w of
        (Inr fd, w) \<Rightarrow>
          (case seek S fd 0 SEEK_END w of (off, w) \<Rightarrow>
             (u64 (tot + off), st, snd (sys_close S fd w)))
      | (Inl e, w) \<Rightarrow> (tot, file_error S name e 2 st, w))"

text \<open>
  The first loop, over the files from number \<open>i\<close> on. The first component is true when the
  function has returned early, with 0, because standard input could not be examined.
\<close>

fun size_files ::
  "'w sysfile \<Rightarrow> string list \<Rightarrow> nat \<Rightarrow> int \<Rightarrow> pvstate \<Rightarrow> 'w \<Rightarrow> bool \<times> int \<times> pvstate \<times> 'w" where
  "size_files S [] i tot st w = (False, tot, st, w)"
| "size_files S (name # names) i tot st w =
     (let (r, w) =
        (if name = stdin_name then sys_fstat S STDIN_FILENO w
         else case sys_stat S name w of
                (Inl e, w) \<Rightarrow> (Inl e, w)
              | (Inr sb, w) \<Rightarrow> (case sys_access_r S name w of
                                 (Inl e, w) \<Rightarrow> (Inl e, w)
                               | (Inr _, w) \<Rightarrow> (Inr sb, w)))
      in case r of
           Inl e \<Rightarrow>
             if name = stdin_name then (True, 0, st, w)
             else size_files S names i tot (remove_file i (file_error S name e 2 st)) w
         | Inr sb \<Rightarrow>
             (case st_kind sb of
                S_BLK \<Rightarrow> (case size_block S name tot st w of (tot, st, w) \<Rightarrow>
                            size_files S names (i + 1) tot st w)
              | S_REG \<Rightarrow> size_files S names (i + 1) (u64 (tot + st_size sb)) st w
              | S_OTHER \<Rightarrow> size_files S names (i + 1) 0 st w))"

text \<open>When the size is unknown and the output is a block device, its size is used.\<close>

definition size_of_output ::
  "'w sysfile \<Rightarrow> int \<Rightarrow> pvstate \<Rightarrow> 'w \<Rightarrow> int \<times> pvstate \<times> 'w" where
  "size_of_output S tot st w =
     (if tot = 0 then
        (case sys_fstat S STDOUT_FILENO w of
           (Inl e, w) \<Rightarrow> (tot, st, w)
         | (Inr sb, w) \<Rightarrow>
             if st_kind sb \<noteq> S_BLK then (tot, st, w)
             else (case sys_append_mode S STDOUT_FILENO w of (app, w) \<Rightarrow>
               if app then (tot, st, w)
               else
                 (case seek S STDOUT_FILENO 0 SEEK_END w of (size_out, w) \<Rightarrow>
                  case seek S STDOUT_FILENO 0 SEEK_SET w of (start, w) \<Rightarrow>
                    let st = (if start \<noteq> 0
                              then set_exit 2 (pv_error ''(stdout): failed to seek to start of output'' st)
                              else st);
                        st = (if 0 < u64 size_out then st\<lparr> stop_at_size := True \<rparr> else st)
                    in (u64 size_out, st, w))))
      else (tot, st, w))"

text \<open>
  Counting the line feeds of a file, 1024 bytes at a time. The loop ends at the end of the file;
  \<open>fuel\<close> bounds the number of reads, and \<open>None\<close> is the loop that has not ended.
\<close>

fun count_lines ::
  "nat \<Rightarrow> 'w sysfile \<Rightarrow> string \<Rightarrow> int \<Rightarrow> int \<Rightarrow> pvstate \<Rightarrow> 'w \<Rightarrow> (int \<times> pvstate \<times> 'w) option" where
  "count_lines 0 S name fd tot st w = None"
| "count_lines (Suc fuel) S name fd tot st w =
     (case sys_read S fd 1024 w of
        (Inl e, w) \<Rightarrow> Some (tot, file_error S name e 2 st, w)
      | (Inr d, w) \<Rightarrow>
          if d = [] then Some (tot, st, w)
          else count_lines fuel S name fd (u64 (tot + int (length (filter (\<lambda>b. b = 10) d)))) st w)"

fun lines_of_files ::
  "nat \<Rightarrow> 'w sysfile \<Rightarrow> string list \<Rightarrow> int \<Rightarrow> pvstate \<Rightarrow> 'w \<Rightarrow> (int \<times> pvstate \<times> 'w) option" where
  "lines_of_files fuel S [] tot st w = Some (tot, st, w)"
| "lines_of_files fuel S (name # names) tot st w =
     (let (r, w) = (if name = stdin_name then sys_fstat S STDIN_FILENO w else sys_stat S name w)
      in case r of
           Inl e \<Rightarrow> Some (0, st, w)
         | Inr sb \<Rightarrow>
             if st_kind sb \<noteq> S_REG then Some (0, st, w)
             else
               (case (if name = stdin_name then sys_dup S STDIN_FILENO w else sys_open_r S name w) of
                  (Inl e, w) \<Rightarrow> Some (0, file_error S name e 2 st, w)
                | (Inr fd, w) \<Rightarrow>
                    (case count_lines fuel S name fd tot st w of
                       None \<Rightarrow> None
                     | Some (tot, st, w) \<Rightarrow>
                         (case seek S fd 0 SEEK_SET w of (_, w) \<Rightarrow>
                            lines_of_files fuel S names tot st (snd (sys_close S fd w))))))"

definition pv_calc_total_size ::
  "nat \<Rightarrow> 'w sysfile \<Rightarrow> pvstate \<Rightarrow> 'w \<Rightarrow> (int \<times> pvstate \<times> 'w) option" where
  "pv_calc_total_size fuel S st w =
     (if input_files st = [] then
        (case sys_fstat S STDIN_FILENO w of
           (Inr sb, w) \<Rightarrow> Some (u64 (st_size sb), st, w)
         | (Inl e, w) \<Rightarrow> Some (0, st, w))
      else
        (case size_files S (input_files st) 0 0 st w of
           (True, tot, st, w) \<Rightarrow> Some (tot, st, w)
         | (False, tot, st, w) \<Rightarrow>
             (case size_of_output S tot st w of (tot, st, w) \<Rightarrow>
                if \<not> linemode st then Some (tot, st, w)
                else lines_of_files fuel S (input_files st) 0 st w)))"

section \<open>The next file\<close>

definition is_output_file :: "stat64 \<Rightarrow> stat64 \<Rightarrow> bool \<Rightarrow> bool" where
  "is_output_file isb osb tty \<longleftrightarrow>
     st_dev isb = st_dev osb \<and> st_ino isb = st_ino osb \<and> \<not> tty \<and>
     (st_kind isb = S_REG \<or> st_kind isb = S_BLK)"

text \<open>From the open on: examine the new file and the output, and refuse to copy a file to itself.\<close>

definition adopt_file ::
  "'w sysfile \<Rightarrow> pvstate \<Rightarrow> string \<Rightarrow> int \<Rightarrow> 'w \<Rightarrow> int \<times> pvstate \<times> 'w" where
  "adopt_file S st name fd w =
     (case sys_fstat S fd w of
        (Inl e, w) \<Rightarrow>
          (- 1, file_error S (''failed to stat file: '' @ name) e 2 st, snd (sys_close S fd w))
      | (Inr isb, w) \<Rightarrow>
          (case sys_fstat S STDOUT_FILENO w of
             (Inl e, w) \<Rightarrow>
               (- 1, file_error S ''failed to stat output file'' e 2 st, snd (sys_close S fd w))
           | (Inr osb, w) \<Rightarrow>
               (case sys_isatty S fd w of (tty, w) \<Rightarrow>
                  if is_output_file isb osb tty then
                    (- 1, set_exit 4 (pv_error (''input file is output file: '' @ name) st),
                     snd (sys_close S fd w))
                  else
                    (fd, st\<lparr> current_file := (if name = stdin_name then ''(stdin)'' else name) \<rparr>, w))))"

definition pv_next_file ::
  "'w sysfile \<Rightarrow> pvstate \<Rightarrow> int \<Rightarrow> int \<Rightarrow> 'w \<Rightarrow> int \<times> pvstate \<times> 'w" where
  "pv_next_file S st filenum oldfd w =
     (case (if 0 < oldfd then sys_close S oldfd w else (Inr (), w)) of
        (Inl e, w) \<Rightarrow> (- 1, file_error S ''failed to close file'' e 8 st, w)
      | (Inr _, w) \<Rightarrow>
          if int (length (input_files st)) \<le> filenum then (- 1, set_exit 8 st, w)
          else if filenum < 0 then (- 1, set_exit 8 st, w)
          else
            let name = input_files st ! nat filenum
            in if name = stdin_name then adopt_file S st name STDIN_FILENO w
               else
                 (case sys_open_r S name w of
                    (Inl e, w) \<Rightarrow>
                      (- 1, file_error S (''failed to read file: '' @ name) e 2 st, w)
                  | (Inr fd, w) \<Rightarrow> adopt_file S st name fd w))"

section \<open>What the two operations promise\<close>

text \<open>
  Counting the lines of a file that can be read returns, with fuel for one read per byte and one
  more, and the total grows by the number of line feeds.
\<close>

definition readable :: "'w sysfile \<Rightarrow> int \<Rightarrow> ('w \<Rightarrow> bytes) \<Rightarrow> bool" where
  "readable S fd inp \<longleftrightarrow> (\<forall>n w. case sys_read S fd n w of
     (Inl e, w') \<Rightarrow> False
   | (Inr d, w') \<Rightarrow> length d \<le> n \<and> inp w = d @ inp w' \<and> (d = [] \<longrightarrow> n = 0 \<or> inp w = []))"

lemma readableD:
  assumes "readable S fd inp"
  obtains d w' where "sys_read S fd n w = (Inr d, w')" "length d \<le> n" "inp w = d @ inp w'"
    "d = [] \<Longrightarrow> n = 0 \<or> inp w = []"
  using spec [OF spec [OF assms [unfolded readable_def], of n], of w]
  by (cases "sys_read S fd n w"; cases "fst (sys_read S fd n w)") auto

lemma u64_add: "u64 (u64 x + y) = u64 (x + y)"
  by (simp add: u64_def mod_add_left_eq)

theorem count_lines_returns:
  assumes "readable S fd inp" "length (inp w) < fuel"
  shows "\<exists>w'. count_lines fuel S name fd (u64 tot) st w =
    Some (u64 (tot + int (count_byte 10 (inp w))), st, w')"
  using assms(2)
proof (induction fuel arbitrary: tot w)
  case (Suc fuel)
  obtain d w1 where d: "sys_read S fd 1024 w = (Inr d, w1)" "inp w = d @ inp w1"
    "d = [] \<longrightarrow> inp w = []"
    by (rule readableD [OF assms(1), of 1024 w]) auto
  show ?case
  proof (cases "d = []")
    case True
    with d show ?thesis by (simp add: count_byte_def)
  next
    case False
    with d(2) Suc.prems have "length (inp w1) < fuel" by (cases d) auto
    from Suc.IH [OF this, of "tot + int (length (filter (\<lambda>b. b = 10) d))"] d False
    show ?thesis by (auto simp: u64_add count_byte_def add.assoc)
  qed
qed simp

text \<open>A file system of one file, for the witnesses.\<close>

definition file_sys :: "stat64 \<Rightarrow> stat64 \<Rightarrow> (bytes \<times> bytes) sysfile" where
  "file_sys isb osb = sysio.extend pipe_sys
     \<lparr> sys_stat = (\<lambda>s w. (Inr isb, w)),
       sys_fstat = (\<lambda>fd w. (Inr (if fd = STDOUT_FILENO then osb else isb), w)),
       sys_access_r = (\<lambda>s w. (Inr (), w)),
       sys_open_r = (\<lambda>s w. (Inr 3, w)),
       sys_close = (\<lambda>fd w. (Inr (), w)),
       sys_dup = (\<lambda>fd w. (Inr 3, w)),
       sys_append_mode = (\<lambda>fd w. (False, w)),
       sys_isatty = (\<lambda>fd w. (False, w)) \<rparr>"

theorem count_lines_returns_witness:
  "\<exists>w'. count_lines 4 (file_sys sb sb) ''f'' 3 (u64 0) st ([97, 10, 10], []) =
    Some (u64 (0 + int (count_byte 10 (fst ([97, 10, 10], [] :: bytes)))), st, w')"
  by (rule count_lines_returns)
    (auto simp: readable_def file_sys_def pipe_sys_def sysio.defs)

section \<open>The total of the files that can be read\<close>

text \<open>
  Files whose status does not change: \<open>lookup\<close> is what \<open>stat\<close> says of a name, \<open>allowed\<close> whether
  \<open>access\<close> lets it be read.
\<close>

definition fixed_files ::
  "'w sysfile \<Rightarrow> (string \<Rightarrow> int + stat64) \<Rightarrow> (string \<Rightarrow> bool) \<Rightarrow> bool" where
  "fixed_files S lookup allowed \<longleftrightarrow>
     (\<forall>name w. sys_stat S name w = (lookup name, w)) \<and>
     (\<forall>name w. \<exists>e. sys_access_r S name w = (if allowed name then Inr () else Inl e, w))"

definition usable :: "(string \<Rightarrow> int + stat64) \<Rightarrow> (string \<Rightarrow> bool) \<Rightarrow> string \<Rightarrow> bool" where
  "usable lookup allowed name \<longleftrightarrow> \<not> isl (lookup name) \<and> allowed name"

text \<open>The sum as the code takes it: a file that is not regular sets it back to 0.\<close>

fun add_sizes :: "(string \<Rightarrow> int + stat64) \<Rightarrow> string list \<Rightarrow> int \<Rightarrow> int" where
  "add_sizes lookup [] tot = tot"
| "add_sizes lookup (name # names) tot =
     add_sizes lookup names (case lookup name of Inr sb \<Rightarrow>
       (if st_kind sb = S_REG then u64 (tot + st_size sb) else 0) | Inl _ \<Rightarrow> 0)"

lemma size_files_run:
  assumes fx: "fixed_files S lookup allowed"
  shows "\<lbrakk> list_all (\<lambda>n. n \<noteq> stdin_name \<and> (\<forall>sb. lookup n = Inr sb \<longrightarrow> st_kind sb \<noteq> S_BLK)) names;
      input_files st = kept @ names; i = length kept \<rbrakk> \<Longrightarrow>
    \<exists>st'. size_files S names i tot st w = (False, add_sizes lookup (filter (usable lookup allowed) names) tot, st', w) \<and>
      input_files st' = kept @ filter (usable lookup allowed) names \<and>
      exit_status st' = (if list_all (usable lookup allowed) names then exit_status st else exit_status st OR 2) \<and>
      linemode st' = linemode st"
proof (induction names arbitrary: i tot st kept)
  case Nil
  then show ?case by simp
next
  case (Cons name names)
  have nm: "name \<noteq> stdin_name" and blk: "\<And>sb. lookup name = Inr sb \<Longrightarrow> st_kind sb \<noteq> S_BLK"
    using Cons.prems(1) by auto
  have stat: "sys_stat S name w = (lookup name, w)" using fx by (simp add: fixed_files_def)
  obtain e where acc: "sys_access_r S name w = (if allowed name then Inr () else Inl e, w)"
    using fx unfolding fixed_files_def by blast
  show ?case
  proof (cases "usable lookup allowed name")
    case True
    then obtain sb where sb: "lookup name = Inr sb" "allowed name"
      by (cases "lookup name") (auto simp: usable_def)
    let ?tot = "if st_kind sb = S_REG then u64 (tot + st_size sb) else 0"
    have "size_files S (name # names) i tot st w = size_files S names (i + 1) ?tot st w"
      using nm stat acc sb blk [OF sb(1)] by (cases "st_kind sb") simp_all
    moreover obtain st' where "size_files S names (i + 1) ?tot st w =
        (False, add_sizes lookup (filter (usable lookup allowed) names) ?tot, st', w)"
      "input_files st' = (kept @ [name]) @ filter (usable lookup allowed) names"
      "exit_status st' = (if list_all (usable lookup allowed) names then exit_status st else exit_status st OR 2)"
      "linemode st' = linemode st"
      using Cons.IH [of st "kept @ [name]" "i + 1" ?tot] Cons.prems by auto
    ultimately show ?thesis using True sb by auto
  next
    case False
    obtain e2 where r: "size_files S (name # names) i tot st w =
        size_files S names i tot (remove_file i (file_error S name e2 2 st)) w"
      using nm stat acc False by (cases "lookup name") (auto simp: usable_def)
    let ?st = "remove_file i (file_error S name e2 2 st)"
    have st: "input_files ?st = kept @ names" "exit_status ?st = exit_status st OR 2" "linemode ?st = linemode st"
      using Cons.prems(2,3) by (simp_all add: remove_file_def file_error_def set_exit_def pv_error_def)
    from Cons.IH [of ?st kept i tot] Cons.prems st False show ?thesis
      unfolding r by (auto simp: or.assoc)
  qed
qed

text \<open>
  For files that are neither standard input nor block devices, the size is the sum over those
  that can be read, which are the ones that stay in the list; if one could not, the exit status
  says so.
\<close>

theorem total_size_of_files:
  assumes "fixed_files S lookup allowed" "\<not> linemode st" "input_files st \<noteq> []"
    and "list_all (\<lambda>n. n \<noteq> stdin_name \<and> (\<forall>sb. lookup n = Inr sb \<longrightarrow> st_kind sb \<noteq> S_BLK)) (input_files st)"
    and "add_sizes lookup (filter (usable lookup allowed) (input_files st)) 0 \<noteq> 0"
  shows "\<exists>st'. pv_calc_total_size fuel S st w =
      Some (add_sizes lookup (filter (usable lookup allowed) (input_files st)) 0, st', w) \<and>
    input_files st' = filter (usable lookup allowed) (input_files st) \<and>
    exit_status st' = (if list_all (usable lookup allowed) (input_files st) then exit_status st
                       else exit_status st OR 2)"
  using size_files_run [OF assms(1,4), of st "[]" 0 0 w] assms(2,3,5)
  by (auto simp: pv_calc_total_size_def size_of_output_def)

theorem total_size_of_files_witness:
  "\<exists>st'. pv_calc_total_size 0 (file_sys \<lparr> st_dev = 1, st_ino = 2, st_kind = S_REG, st_size = 7, st_blksize = 512 \<rparr>
        \<lparr> st_dev = 1, st_ino = 3, st_kind = S_REG, st_size = 0, st_blksize = 512 \<rparr>)
      ((pipe_state 4)\<lparr> input_files := [''a'', ''b''] \<rparr>) ([], []) = Some (14, st', ([], [])) \<and> input_files st' = [''a'', ''b''] \<and>
      exit_status st' = 0"
proof -
  let ?sb = "\<lparr> st_dev = 1, st_ino = 2, st_kind = S_REG, st_size = 7, st_blksize = 512 \<rparr>"
  let ?sb2 = "\<lparr> st_dev = 1, st_ino = 3, st_kind = S_REG, st_size = 0, st_blksize = 512 \<rparr>"
  let ?st = "(pipe_state 4)\<lparr> input_files := [''a'', ''b''] \<rparr>"
  have f: "fixed_files (file_sys ?sb ?sb2) (\<lambda>n. Inr ?sb) (\<lambda>n. True)"
    by (simp add: fixed_files_def file_sys_def sysio.defs)
  from total_size_of_files [OF f, of ?st 0 "([], [])"] show ?thesis
    by (simp add: usable_def stdin_name_def u64_def pipe_state_def pv_state_alloc_def)
qed

text \<open>
  The comment says that an input of indeterminate size sets the total to zero; it does, but the
  sizes of the files after it are added to that zero.
\<close>

theorem size_after_pipe:
  assumes "lookup p = Inr sb" "st_kind sb = S_OTHER" "lookup f = Inr sf" "st_kind sf = S_REG"
  shows "add_sizes lookup [p, f] tot = u64 (st_size sf)"
  using assms by simp

section \<open>The next file\<close>

lemma adopt_file_result:
  assumes "adopt_file S st name fd w = (r, st', w')"
  shows "r = fd \<and> exit_status st' = exit_status st \<and>
      current_file st' = (if name = stdin_name then ''(stdin)'' else name) \<or>
    r = - 1 \<and> current_file st' = current_file st \<and>
      (exit_status st' = exit_status st OR 2 \<or> exit_status st' = exit_status st OR 4)"
  using assms
  by (auto simp: adopt_file_def file_error_def set_exit_def pv_error_def split: prod.splits sum.splits if_splits)

text \<open>
  Moving to the next file either gives a descriptor and names the current file, or \<open>-1\<close> and an
  exit status with the bit of the failure, the current file unchanged.
\<close>

theorem next_file_result:
  assumes "\<And>name w fd w'. sys_open_r S name w = (Inr fd, w') \<Longrightarrow> 0 \<le> fd"
    and "pv_next_file S st n oldfd w = (fd, st', w')"
  shows "0 \<le> fd \<and> 0 \<le> n \<and> n < int (length (input_files st)) \<and> exit_status st' = exit_status st \<and>
      current_file st' = (if input_files st ! nat n = stdin_name then ''(stdin)'' else input_files st ! nat n) \<or>
    fd = - 1 \<and> current_file st' = current_file st \<and>
      (\<exists>b \<in> {2, 4, 8}. exit_status st' = exit_status st OR b)"
proof -
  let ?name = "input_files st ! nat n"
  obtain r w1 where c: "(if 0 < oldfd then sys_close S oldfd w else (Inr (), w)) = (r, w1)"
    by (rule prod.exhaust)
  show ?thesis
  proof (cases "isl r \<or> int (length (input_files st)) \<le> n \<or> n < 0")
    case True
    with assms(2) c show ?thesis
      by (cases r) (auto simp: pv_next_file_def file_error_def set_exit_def pv_error_def split: if_splits)
  next
    case False
    then obtain u where r: "r = Inr u" by (cases r) auto
    obtain q w2 where o: "sys_open_r S ?name w1 = (q, w2)" by (rule prod.exhaust)
    consider (stdin) "?name = stdin_name" "adopt_file S st ?name STDIN_FILENO w1 = (fd, st', w')"
      | (fail) e where "?name \<noteq> stdin_name" "q = Inl e"
          "fd = - 1" "st' = file_error S (''failed to read file: '' @ ?name) e 2 st"
      | (ok) f where "q = Inr f" "adopt_file S st ?name f w2 = (fd, st', w')"
      using assms(2) c r False o by (cases q) (auto simp: pv_next_file_def Let_def split: if_splits)
    then show ?thesis
    proof cases
      case stdin
      from adopt_file_result [OF stdin(2)] False show ?thesis by (auto simp: STDIN_FILENO_def)
    next
      case fail
      then show ?thesis by (auto simp: file_error_def set_exit_def pv_error_def)
    next
      case ok
      from adopt_file_result [OF ok(2)] False assms(1) [OF o [unfolded ok(1)]] show ?thesis by auto
    qed
  qed
qed

theorem next_file_result_witness:
  "\<exists>fd st' w'. pv_next_file (file_sys \<lparr> st_dev = 1, st_ino = 2, st_kind = S_REG, st_size = 7, st_blksize = 512 \<rparr>
        \<lparr> st_dev = 1, st_ino = 2, st_kind = S_REG, st_size = 7, st_blksize = 512 \<rparr>)
        ((pipe_state 4)\<lparr> input_files := [''a''] \<rparr>) 0 (- 1) ([], []) = (fd, st', w') \<and>
      fd = - 1 \<and> exit_status st' = 4"
proof -
  let ?sb = "\<lparr> st_dev = 1, st_ino = 2, st_kind = S_REG, st_size = 7, st_blksize = 512 \<rparr>"
  let ?S = "file_sys ?sb ?sb" and ?st = "(pipe_state 4)\<lparr> input_files := [''a''] \<rparr>"
  obtain fd st' w' where r: "pv_next_file ?S ?st 0 (- 1) ([], []) = (fd, st', w')" by (metis prod.exhaust)
  have "\<And>name w fd w'. sys_open_r ?S name w = (Inr fd, w') \<Longrightarrow> 0 \<le> fd"
    by (auto simp: file_sys_def sysio.defs)
  note res = next_file_result [OF this r]
  have "fd = - 1 \<and> exit_status st' = 4"
    using r by (auto simp: pv_next_file_def adopt_file_def is_output_file_def file_sys_def sysio.defs
        stdin_name_def pipe_state_def pv_state_alloc_def set_exit_def pv_error_def STDOUT_FILENO_def)
  with res r show ?thesis by blast
qed

end
