(* ===== verification/PvLoop.thy ===== *)
theory PvLoop
  imports PvFile
begin

text \<open>
  \<open>tools/pv/src/pv/loop.c\<close>: \<open>pv_main_loop\<close>, which moves all the input files to standard
  output. The display, the cursor, the remote control, the signal flags and the size of the screen
  are the parameter \<open>sysloop\<close>, beside the calls on files. The loop runs on fuel, one unit per
  turn; \<open>None\<close> is the loop that has not ended. \<open>long double\<close> is an exact rational.
\<close>

type_synonym timeval = "int \<times> int"

record 'w sysloop = "'w sysfile" +
  run_remote_check :: "pvstate \<Rightarrow> 'w \<Rightarrow> pvstate \<times> 'w"
  run_display :: "pvstate \<Rightarrow> rat \<Rightarrow> int \<Rightarrow> int \<Rightarrow> 'w \<Rightarrow> pvstate \<times> 'w"
  run_crs_init :: "pvstate \<Rightarrow> 'w \<Rightarrow> pvstate \<times> 'w"
  run_crs_fini :: "pvstate \<Rightarrow> 'w \<Rightarrow> pvstate \<times> 'w"
  run_screensize :: "pvstate \<Rightarrow> 'w \<Rightarrow> pvstate \<times> 'w"
  sig_abort :: "'w \<Rightarrow> bool"
  sig_toffset :: "'w \<Rightarrow> timeval"
  clear_toffset :: "'w \<Rightarrow> 'w"

definition REMOTE_INTERVAL :: int where "REMOTE_INTERVAL = 100000"
definition RATE_GRANULARITY :: int where "RATE_GRANULARITY = 100000"
definition BUFFER_SIZE :: nat where "BUFFER_SIZE = 409600"
definition BUFFER_SIZE_MAX :: nat where "BUFFER_SIZE_MAX = 524288"

section \<open>Times\<close>

function carry_down :: "timeval \<Rightarrow> timeval" where
  "carry_down (sec, usec) = (if usec < 0 then carry_down (sec - 1, usec + 1000000) else (sec, usec))"
  by pat_completeness auto
termination by (relation "measure (\<lambda>(sec, usec). nat (- usec))") auto

function carry_up :: "timeval \<Rightarrow> timeval" where
  "carry_up (sec, usec) = (if 1000000 \<le> usec then carry_up (sec + 1, usec - 1000000) else (sec, usec))"
  by pat_completeness auto
termination by (relation "measure (\<lambda>(sec, usec). nat usec)") auto

declare carry_down.simps [simp del] carry_up.simps [simp del]

definition pv_timeval_add_usec :: "timeval \<Rightarrow> int \<Rightarrow> timeval" where
  "pv_timeval_add_usec val usec = carry_up (carry_down (fst val, snd val + usec))"

text \<open>The comparisons of two times that the loop writes out.\<close>

definition time_reached :: "timeval \<Rightarrow> timeval \<Rightarrow> bool" where
  "time_reached cur t \<longleftrightarrow> fst cur > fst t \<or> fst cur = fst t \<and> snd cur \<ge> snd t"

text \<open>The conversion of a floating-point value to an integer: towards zero.\<close>

definition truncate_rat :: "rat \<Rightarrow> int" where
  "truncate_rat x = (if 0 \<le> x then \<lfloor>x\<rfloor> else \<lceil>x\<rceil>)"

definition usec_of :: "rat \<Rightarrow> int" where
  "usec_of seconds = truncate_rat (1000000 * seconds)"

section \<open>One turn of the main loop\<close>

record loop_vars =
  lv_fd :: int
  lv_file :: nat
  lv_eofs :: eofs
  lv_lines :: int
  total_written :: int
  since_last :: int
  target :: rat
  final_update :: bool
  start_time :: timeval
  next_update :: timeval
  next_ratecheck :: timeval
  next_remotecheck :: timeval
  cur_time :: timeval

text \<open>How much may be sent: the rate limit, then the stop at the given size.\<close>

definition rate_allowance :: "'w sysloop \<Rightarrow> pvstate \<Rightarrow> loop_vars \<Rightarrow> 'w \<Rightarrow> int \<times> loop_vars \<times> 'w" where
  "rate_allowance S st lv w =
     (if 0 < rate_limit st then
        case sys_time S w of (now, w) \<Rightarrow>
          let lv = lv\<lparr> cur_time := now \<rparr>;
              lv = (if time_reached now (next_ratecheck lv)
                    then lv\<lparr> target := target lv + of_nat (rate_limit st) / of_int (1000000 div RATE_GRANULARITY),
                             next_ratecheck := pv_timeval_add_usec (next_ratecheck lv) RATE_GRANULARITY \<rparr>
                    else lv)
          in (truncate_rat (target lv), lv, w)
      else (0, lv, w))"

definition size_allowance :: "pvstate \<Rightarrow> int \<Rightarrow> loop_vars \<Rightarrow> int \<times> loop_vars" where
  "size_allowance st cansend lv =
     (if 0 < total_size st \<and> stop_at_size st \<and>
         (total_size st < u64 (total_written lv + cansend) \<or> cansend = 0 \<and> rate_limit st = 0)
      then let cansend = i64 (total_size st - total_written lv)
           in (cansend, if cansend \<le> 0 then lv\<lparr> lv_eofs := \<lparr> eof_in = True, eof_out = True \<rparr> \<rparr> else lv)
      else (cansend, lv))"

definition account :: "pvstate \<Rightarrow> int \<Rightarrow> loop_vars \<Rightarrow> loop_vars" where
  "account st n lv =
     (let k = (if linemode st then lv_lines lv else n);
          lv = lv\<lparr> since_last := since_last lv + k, total_written := total_written lv + k \<rparr>
      in if 0 < rate_limit st then lv\<lparr> target := target lv - of_int k \<rparr> else lv)"

text \<open>The end of a turn: what is due on the display.\<close>

definition elapsed_since :: "timeval \<Rightarrow> timeval \<Rightarrow> timeval \<Rightarrow> rat" where
  "elapsed_since start offset now =
     (let init = (fst start + fst offset, snd start + snd offset);
          init = (if 1000000 \<le> snd init then (fst init + 1, snd init - 1000000) else init);
          init = (if snd init < 0 then (fst init - 1, snd init + 1000000) else init)
      in of_int (fst now - fst init) + of_int (snd now - snd init) / 1000000)"

text \<open>With \<open>-W\<close>, the clock starts when the first data has been written.\<close>

definition start_clock ::
  "'w sysloop \<Rightarrow> pvstate \<Rightarrow> loop_vars \<Rightarrow> 'w \<Rightarrow> pvstate \<times> loop_vars \<times> 'w" where
  "start_clock S st lv w =
     (if wait st then
        (case sys_time S w of (now, w) \<Rightarrow>
           (st\<lparr> wait := False \<rparr>,
            lv\<lparr> start_time := now, next_update := pv_timeval_add_usec now (usec_of (interval st)) \<rparr>,
            clear_toffset S w))
      else (st, lv, w))"

definition update_display ::
  "'w sysloop \<Rightarrow> pvstate \<Rightarrow> loop_vars \<Rightarrow> 'w \<Rightarrow> pvstate \<times> loop_vars \<times> 'w" where
  "update_display S st lv w =
     (if \<not> time_reached (cur_time lv) (next_update lv) then (st, lv, w)
      else
        let next = pv_timeval_add_usec (next_update lv) (usec_of (interval st));
            now = cur_time lv;
            next = (if fst next < fst now then now
                    else if fst next = fst now \<and> snd next < snd now then now else next);
            elapsed = elapsed_since (start_time lv) (sig_toffset S w) now;
            lv = lv\<lparr> next_update := next,
                     since_last := (if final_update lv then - 1 else since_last lv) \<rparr>
        in (case run_screensize S st w of (st, w) \<Rightarrow>
            case run_display S st elapsed (since_last lv) (total_written lv) w of (st, w) \<Rightarrow>
              (st, lv\<lparr> since_last := 0 \<rparr>, w)))"

definition show_progress ::
  "'w sysloop \<Rightarrow> pvstate \<Rightarrow> loop_vars \<Rightarrow> int \<Rightarrow> 'w \<Rightarrow> pvstate \<times> loop_vars \<times> 'w" where
  "show_progress S st lv n w =
     (if no_op st then (st, lv, w)
      else if wait st \<and> (if linemode st then lv_lines lv < 1 else n < 1) then (st, lv, w)
      else case start_clock S st lv w of (st, lv, w) \<Rightarrow> update_display S st lv w)"

definition transfer_turn ::
  "'w sysloop \<Rightarrow> pvstate \<Rightarrow> loop_vars \<Rightarrow> 'w \<Rightarrow> int \<times> pvstate \<times> loop_vars \<times> 'w" where
  "transfer_turn S st lv w =
     (case rate_allowance S st lv w of (cansend, lv, w) \<Rightarrow>
      case size_allowance st cansend lv of (cansend, lv) \<Rightarrow>
        if 0 < total_size st \<and> stop_at_size st \<and> cansend \<le> 0 \<and> eof_in (lv_eofs lv) \<and> eof_out (lv_eofs lv)
        then (0, st, lv, w)
        else
          (case pv_transfer (sysio.truncate S) st (lv_fd lv) (lv_eofs lv) (nat (u64 cansend)) (Some (lv_lines lv)) w of
             (n, st, eof, lines, w) \<Rightarrow>
               (n, st, lv\<lparr> lv_eofs := eof, lv_lines := (case lines of Some l \<Rightarrow> l | None \<Rightarrow> lv_lines lv) \<rparr>, w)))"

text \<open>\<open>Stop\<close> leaves the loop by \<open>return\<close>, \<open>Break\<close> by \<open>break\<close>.\<close>

datatype 'w turn = Stop pvstate 'w | Break pvstate loop_vars 'w | Continue pvstate loop_vars 'w

definition give_up :: "'w sysloop \<Rightarrow> pvstate \<Rightarrow> 'w \<Rightarrow> 'w turn" where
  "give_up S st w = (case (if cursor st then run_crs_fini S st w else (st, w)) of (st, w) \<Rightarrow> Stop st w)"

text \<open>At the end of a file, the next one.\<close>

definition next_input ::
  "'w sysloop \<Rightarrow> pvstate \<Rightarrow> loop_vars \<Rightarrow> 'w \<Rightarrow> bool \<times> pvstate \<times> loop_vars \<times> 'w" where
  "next_input S st lv w =
    (if eof_in (lv_eofs lv) \<and> eof_out (lv_eofs lv) \<and> int (lv_file lv) < int (length (input_files st)) - 1
     then (case pv_next_file (sysfile.truncate S) st (int (lv_file lv) + 1) (lv_fd lv) w of
             (fd, st, w) \<Rightarrow>
               (fd < 0, st, lv\<lparr> lv_file := lv_file lv + 1, lv_fd := fd,
                 lv_eofs := \<lparr> eof_in = False, eof_out = False \<rparr> \<rparr>, w))
     else (False, st, lv, w))"

definition loop_turn :: "'w sysloop \<Rightarrow> pvstate \<Rightarrow> loop_vars \<Rightarrow> 'w \<Rightarrow> 'w turn" where
  "loop_turn S st lv w =
     (case (if time_reached (cur_time lv) (next_remotecheck lv)
            then (case run_remote_check S st w of (st, w) \<Rightarrow>
                    (st, lv\<lparr> next_remotecheck := pv_timeval_add_usec (next_remotecheck lv) REMOTE_INTERVAL \<rparr>, w))
            else (st, lv, w)) of (st, lv, w) \<Rightarrow>
      if sig_abort S w then Break st lv w
      else
        (case transfer_turn S st lv w of (n, st, lv, w) \<Rightarrow>
           if n < 0 then give_up S st w
           else
             let lv = account st n lv in
             case next_input S st lv w of
               (failed, st, lv, w) \<Rightarrow>
                 if failed then give_up S st w
                 else
                   (case sys_time S w of (now, w) \<Rightarrow>
                      let lv = lv\<lparr> cur_time := now \<rparr>;
                          lv = (if eof_in (lv_eofs lv) \<and> eof_out (lv_eofs lv)
                                then lv\<lparr> final_update := True,
                                  next_update := (if display_visible st \<or> delay_start st = 0
                                                  then (fst now - 1, snd (next_update lv)) else next_update lv) \<rparr>
                                else lv)
                      in case show_progress S st lv n w of (st, lv, w) \<Rightarrow> Continue st lv w)))"

fun main_turns :: "nat \<Rightarrow> 'w sysloop \<Rightarrow> pvstate \<Rightarrow> loop_vars \<Rightarrow> 'w \<Rightarrow> 'w turn option" where
  "main_turns 0 S st lv w = None"
| "main_turns (Suc fuel) S st lv w =
     (if \<not> (eof_in (lv_eofs lv) \<and> eof_out (lv_eofs lv)) \<or> \<not> final_update lv then
        (case loop_turn S st lv w of
           Continue st lv w \<Rightarrow> main_turns fuel S st lv w
         | t \<Rightarrow> Some t)
      else Some (Break st lv w))"

section \<open>The loop with its start and its end\<close>

definition choose_buffer_size :: "'w sysloop \<Rightarrow> pvstate \<Rightarrow> int \<Rightarrow> 'w \<Rightarrow> pvstate \<times> 'w" where
  "choose_buffer_size S st fd w =
     (case sys_fstat S fd w of (r, w) \<Rightarrow>
        let st = (case r of
                    Inr sb \<Rightarrow> if target_buffer_size st = 0
                               then st\<lparr> target_buffer_size := min (nat (st_blksize sb * 32)) BUFFER_SIZE_MAX \<rparr> else st
                  | Inl e \<Rightarrow> st);
            st = (if target_buffer_size st = 0 then st\<lparr> target_buffer_size := BUFFER_SIZE \<rparr> else st)
        in (st, w))"

definition finish_loop :: "'w sysloop \<Rightarrow> pvstate \<Rightarrow> loop_vars \<Rightarrow> 'w \<Rightarrow> nat \<times> pvstate \<times> 'w" where
  "finish_loop S st lv w =
     (case (if cursor st then run_crs_fini S st w
            else if \<not> numeric st \<and> \<not> no_op st \<and> display_visible st
            then (st, snd (sys_write S 2 [10] w)) else (st, w)) of (st, w) \<Rightarrow>
      let st = (if sig_abort S w then set_exit 32 st else st);
          w = (if 0 \<le> lv_fd lv then snd (sys_close S (lv_fd lv) w) else w)
      in (exit_status st, st, w))"

text \<open>The variables at the start: the first update is due after the interval, or the longer delay.\<close>

definition loop_start :: "pvstate \<Rightarrow> timeval \<Rightarrow> timeval \<Rightarrow> int \<Rightarrow> loop_vars" where
  "loop_start st start now fd =
     (let first = pv_timeval_add_usec start
            (usec_of (if 0 < delay_start st \<and> interval st < delay_start st then delay_start st else interval st))
      in \<lparr> lv_fd = fd, lv_file = 0, lv_eofs = \<lparr> eof_in = False, eof_out = False \<rparr>, lv_lines = 0,
           total_written = 0, since_last = 0, target = 0, final_update = False,
           start_time = start, next_update = first, next_ratecheck = start,
           next_remotecheck = start, cur_time = now \<rparr>)"

definition pv_main_loop :: "nat \<Rightarrow> 'w sysloop \<Rightarrow> pvstate \<Rightarrow> 'w \<Rightarrow> (nat \<times> pvstate \<times> 'w) option" where
  "pv_main_loop fuel S st w =
     (case run_crs_init S st w of (st, w) \<Rightarrow>
      let st = st\<lparr> initial_offset := 0 \<rparr> in
      case sys_time S w of (start, w) \<Rightarrow>
      case sys_time S w of (now, w) \<Rightarrow>
      case pv_next_file (sysfile.truncate S) st 0 (- 1) w of
        (fd, st', w) \<Rightarrow>
          if fd < 0 then
            (case give_up S st' w of Stop st w \<Rightarrow> Some (exit_status st, st, w) | _ \<Rightarrow> None)
          else
            (case choose_buffer_size S st' fd w of (st', w) \<Rightarrow>
               (case main_turns fuel S st' (loop_start st start now fd) w of
                  None \<Rightarrow> None
                | Some (Stop st w) \<Rightarrow> Some (exit_status st, st, w)
                | Some (Break st lv w) \<Rightarrow> Some (finish_loop S st lv w)
                | Some (Continue _ _ _) \<Rightarrow> None)))"

end
