(* ===== verification/PvGetopt.thy ===== *)
theory PvGetopt
  imports Prelude
begin

text \<open>
  \<open>tools/pv/src/library/getopt.c\<close>: \<open>minigetopt\<close>, the option scanner of the builds without a
  \<open>getopt\<close> of their own. Its static \<open>nextchar\<close> and its external variables are the record
  \<open>getopt_state\<close>; \<open>argv\<close> is a list of strings and reading one at its length gives the NUL
  that ends it. \<open>None\<close> is the return value \<open>-1\<close>.
\<close>

record getopt_state =
  nextchar :: nat
  minioptind :: nat
  minioptarg :: "string option"
  minioptopt :: char
  miniopterr :: bool
  getopt_stderr :: "string list"

definition getopt_start :: getopt_state where
  "getopt_start = \<lparr> nextchar = 0, minioptind = 0, minioptarg = None, minioptopt = CHR 0x00,
     miniopterr = True, getopt_stderr = [] \<rparr>"

definition cchar :: "string \<Rightarrow> nat \<Rightarrow> char" where
  "cchar s i = (if i < length s then s ! i else CHR 0x00)"

text \<open>The search for the option character: what is left of \<open>optstring\<close> from it on.\<close>

fun opt_entry :: "string \<Rightarrow> char \<Rightarrow> string" where
  "opt_entry [] c = []"
| "opt_entry (d # s) c = (if d \<noteq> c then opt_entry s c else d # s)"

text \<open>The start of a call: the first argument, or the next one when this one is used up.\<close>

definition scan_start :: "string list \<Rightarrow> getopt_state \<Rightarrow> getopt_state" where
  "scan_start argv g =
     (let g = (if minioptind g = 0 \<and> 0 < length argv then g\<lparr> minioptind := 1 \<rparr> else g)
      in if 0 < nextchar g \<and> cchar (argv ! minioptind g) (nextchar g) = CHR 0x00
         then g\<lparr> minioptind := minioptind g + 1, nextchar := 0 \<rparr> else g)"

text \<open>The scan of one option character and of its argument.\<close>

definition scan_option ::
  "string list \<Rightarrow> string \<Rightarrow> getopt_state \<Rightarrow> char option \<times> getopt_state" where
  "scan_option argv optstring g =
     (let arg = argv ! minioptind g; nc = (if nextchar g = 0 then 1 else nextchar g);
          optchar = cchar arg nc; g = g\<lparr> nextchar := nc + 1 \<rparr>
      in case opt_entry optstring optchar of
           [] \<Rightarrow> (Some CHR ''?'', g\<lparr> minioptopt := optchar,
               getopt_stderr := getopt_stderr g @
                 (if miniopterr g then [argv ! 0 @ '': invalid option -- '' @ [optchar]] else []) \<rparr>)
         | _ # s \<Rightarrow>
             if cchar s 0 \<noteq> CHR '':'' then (Some optchar, g\<lparr> minioptarg := None \<rparr>)
             else if cchar arg (nc + 1) \<noteq> CHR 0x00
               then (Some optchar, g\<lparr> minioptarg := Some (drop (nc + 1) arg),
                      nextchar := 0, minioptind := minioptind g + 1 \<rparr>)
             else if length argv \<le> minioptind g + 1
               then (Some CHR '':'', g\<lparr> nextchar := 0, minioptind := minioptind g + 1,
                      getopt_stderr := getopt_stderr g @
                      [argv ! 0 @ '': option `-'' @ [optchar] @ CHR 0x27 # '' requires an argument''] \<rparr>)
             else (Some optchar, g\<lparr> nextchar := 0, minioptarg := Some (argv ! (minioptind g + 1)),
                      minioptind := minioptind g + 2 \<rparr>))"

definition minigetopt ::
  "string list \<Rightarrow> string \<Rightarrow> getopt_state \<Rightarrow> char option \<times> getopt_state" where
  "minigetopt argv optstring g =
     (let g = scan_start argv g
      in if length argv \<le> minioptind g then (None, g)
         else
           let arg = argv ! minioptind g
           in if cchar arg 0 \<noteq> CHR ''-'' then (None, g)
              else if cchar arg 1 = CHR 0x00 then (None, g)
              else if cchar arg 1 = CHR ''-'' \<and> cchar arg 2 = CHR 0x00
                then (None, g\<lparr> minioptind := minioptind g + 1 \<rparr>)
              else scan_option argv optstring g)"

section \<open>Progress\<close>

lemma cchar_not_nul: "cchar s i \<noteq> CHR 0x00 \<Longrightarrow> i < length s"
  by (auto simp: cchar_def split: if_splits)

text \<open>Characters and words not yet scanned: what a call that returns an option consumes.\<close>

definition left_to_scan :: "string list \<Rightarrow> nat \<Rightarrow> nat \<Rightarrow> nat" where
  "left_to_scan argv ind nc =
     sum_list (map (\<lambda>s. length s + 2) (drop ind argv)) - min nc (length (argv ! ind) + 1)"

lemma left_to_scan_step:
  assumes "ind < length argv"
  shows "left_to_scan argv ind nc =
    left_to_scan argv (Suc ind) 0 + (length (argv ! ind) + 2 - min nc (length (argv ! ind) + 1))"
  using assms by (simp add: left_to_scan_def Cons_nth_drop_Suc [symmetric])

lemma left_to_scan_word: "ind < length argv \<Longrightarrow> left_to_scan argv (Suc ind) 0 < left_to_scan argv ind nc"
  by (simp add: left_to_scan_step)

lemma left_to_scan_char:
  "\<lbrakk> ind < length argv; nc < length (argv ! ind) \<rbrakk>
   \<Longrightarrow> left_to_scan argv ind (Suc nc) < left_to_scan argv ind nc"
  by (simp add: left_to_scan_step)

lemma left_to_scan_le: "ind < length argv \<Longrightarrow> left_to_scan argv ind nc \<le> left_to_scan argv ind 0"
  by (simp add: left_to_scan_step)

text \<open>Where a call stops: at an option, at the word \<open>--\<close>, or before anything else.\<close>

definition at_option :: "string list \<Rightarrow> getopt_state \<Rightarrow> bool" where
  "at_option argv g \<longleftrightarrow> minioptind g < length argv \<and>
     cchar (argv ! minioptind g) 0 = CHR ''-'' \<and> cchar (argv ! minioptind g) 1 \<noteq> CHR 0x00 \<and>
     \<not> (cchar (argv ! minioptind g) 1 = CHR ''-'' \<and> cchar (argv ! minioptind g) 2 = CHR 0x00)"

definition at_terminator :: "string list \<Rightarrow> getopt_state \<Rightarrow> bool" where
  "at_terminator argv g \<longleftrightarrow> minioptind g < length argv \<and>
     cchar (argv ! minioptind g) 0 = CHR ''-'' \<and>
     cchar (argv ! minioptind g) 1 = CHR ''-'' \<and> cchar (argv ! minioptind g) 2 = CHR 0x00"

lemma minigetopt_option:
  "at_option argv (scan_start argv g) \<Longrightarrow>
   minigetopt argv optstring g = scan_option argv optstring (scan_start argv g)"
  by (auto simp: minigetopt_def at_option_def Let_def)

lemma minigetopt_terminator:
  "at_terminator argv (scan_start argv g) \<Longrightarrow>
   minigetopt argv optstring g =
     (None, (scan_start argv g)\<lparr> minioptind := minioptind (scan_start argv g) + 1 \<rparr>)"
  by (simp add: minigetopt_def at_terminator_def Let_def)

lemma minigetopt_end:
  "\<lbrakk> \<not> at_option argv (scan_start argv g); \<not> at_terminator argv (scan_start argv g) \<rbrakk> \<Longrightarrow>
   minigetopt argv optstring g = (None, scan_start argv g)"
  by (auto simp: minigetopt_def at_option_def at_terminator_def Let_def not_le)

lemma minigetopt_Some:
  assumes "minigetopt argv optstring g = (Some c, g')"
  shows "at_option argv (scan_start argv g)"
    and "scan_option argv optstring (scan_start argv g) = (Some c, g')"
  using assms minigetopt_option [of argv g optstring] minigetopt_terminator [of argv g optstring]
    minigetopt_end [of argv g optstring]
  by (metis option.distinct(1) prod.inject)+

abbreviation scan_left :: "string list \<Rightarrow> getopt_state \<Rightarrow> nat" where
  "scan_left argv g \<equiv> left_to_scan argv (minioptind g) (nextchar g)"

lemma scan_start_left:
  assumes "at_option argv (scan_start argv g)"
  shows "scan_left argv (scan_start argv g) \<le> scan_left argv g"
proof -
  define g1 where "g1 = (if minioptind g = 0 \<and> 0 < length argv then g\<lparr> minioptind := 1 \<rparr> else g)"
  have 1: "scan_left argv g1 \<le> scan_left argv g"
    using left_to_scan_word [of 0 argv "nextchar g"]
      left_to_scan_le [of 1 argv "nextchar g"]
    by (cases "1 < length argv") (auto simp: g1_def left_to_scan_def)
  have start: "scan_start argv g =
      (if 0 < nextchar g1 \<and> cchar (argv ! minioptind g1) (nextchar g1) = CHR 0x00
       then g1\<lparr> minioptind := minioptind g1 + 1, nextchar := 0 \<rparr> else g1)"
    by (simp only: scan_start_def Let_def g1_def)
  show ?thesis
  proof (cases "0 < nextchar g1 \<and> cchar (argv ! minioptind g1) (nextchar g1) = CHR 0x00")
    case True
    then have "scan_start argv g = g1\<lparr> minioptind := minioptind g1 + 1, nextchar := 0 \<rparr>"
      by (simp add: start)
    with assms left_to_scan_word [of "minioptind g1" argv "nextchar g1"] 1 show ?thesis
      by (simp add: at_option_def)
  next
    case False
    then have "scan_start argv g = g1"
      by (auto simp: start)
    with 1 show ?thesis by simp
  qed
qed

lemma scan_start_char:
  assumes "at_option argv (scan_start argv g)"
  shows "nextchar (scan_start argv g) < length (argv ! minioptind (scan_start argv g))"
  using assms cchar_not_nul
  by (fastforce simp: at_option_def scan_start_def Let_def split: if_splits)

lemma scan_option_left:
  assumes at: "at_option argv g" and nc: "nextchar g < length (argv ! minioptind g)"
    and r: "scan_option argv optstring g = (Some c, g')"
  shows "scan_left argv g' < scan_left argv g"
proof -
  let ?nc = "if nextchar g = 0 then 1 else nextchar g"
  from at have i: "minioptind g < length argv" and l: "1 < length (argv ! minioptind g)"
    using cchar_not_nul [of "argv ! minioptind g" 1] by (auto simp: at_option_def)
  have a: "left_to_scan argv (minioptind g) (?nc + 1) < left_to_scan argv (minioptind g) (nextchar g)"
    using i l nc by (auto simp: left_to_scan_step min_def)
  have b: "left_to_scan argv (minioptind g + 1) 0 < left_to_scan argv (minioptind g) (nextchar g)"
    using left_to_scan_word [OF i] by simp
  have d: "left_to_scan argv (minioptind g + 2) 0 < left_to_scan argv (minioptind g) (nextchar g)"
    if "minioptind g + 1 < length argv"
    using left_to_scan_word [OF that, of 0] b by simp
  show ?thesis
    using r a b d by (auto simp: scan_option_def Let_def not_le split: list.splits if_splits)
qed

lemma minigetopt_left:
  assumes "minigetopt argv optstring g = (Some c, g')"
  shows "scan_left argv g' < scan_left argv g"
  using minigetopt_Some [OF assms] scan_start_left scan_start_char scan_option_left
  by (meson order_less_le_trans)

section \<open>Scanning all the options\<close>

text \<open>
  The caller's loop \<open>do { c = getopt (argc, argv, short_options); ... } while (c != -1)\<close>: the
  options with their arguments, and the state at the end. Every call that returns an option
  consumes a character, so the loop ends.
\<close>

function getopt_all ::
  "string list \<Rightarrow> string \<Rightarrow> getopt_state \<Rightarrow> (char \<times> string option) list \<times> getopt_state" where
  "getopt_all argv optstring g =
     (case minigetopt argv optstring g of
        (None, g') \<Rightarrow> ([], g')
      | (Some c, g') \<Rightarrow> (let (r, g'') = getopt_all argv optstring g' in ((c, minioptarg g') # r, g'')))"
  by pat_completeness auto
termination
  by (relation "measure (\<lambda>(argv, optstring, g). scan_left argv g)") (auto dest: minigetopt_left [OF sym])

declare getopt_all.simps [simp del]

lemma getopt_all_Some:
  "minigetopt argv optstring g = (Some c, g') \<Longrightarrow>
   getopt_all argv optstring g = apfst (Cons (c, minioptarg g')) (getopt_all argv optstring g')"
  by (subst getopt_all.simps) (simp add: case_prod_beta' apfst_def map_prod_def Let_def)

lemma scan_start_idem: "scan_start argv (scan_start argv g) = scan_start argv g"
  by (auto simp: scan_start_def Let_def)

lemma getopt_all_start: "getopt_all argv optstring (scan_start argv g) = getopt_all argv optstring g"
proof -
  have "minigetopt argv optstring (scan_start argv g) = minigetopt argv optstring g"
    by (simp add: minigetopt_def scan_start_idem)
  then show ?thesis by (subst (1 2) getopt_all.simps) simp
qed

section \<open>A command line and its options\<close>

text \<open>
  The words of a command line: flags in a bundle, perhaps followed by an option whose argument is
  the rest of the word or the next word; \<open>word_args\<close> writes them, \<open>word_opts\<close> says what they mean.
\<close>

datatype opt_word = Bundle string | Glued string char string | Apart string char string

fun word_args :: "opt_word \<Rightarrow> string list" where
  "word_args (Bundle fs) = [CHR ''-'' # fs]"
| "word_args (Glued fs c a) = [CHR ''-'' # fs @ c # a]"
| "word_args (Apart fs c a) = [CHR ''-'' # fs @ [c], a]"

definition flag_opts :: "string \<Rightarrow> (char \<times> string option) list" where
  "flag_opts fs = map (\<lambda>f. (f, None)) fs"

fun word_opts :: "opt_word \<Rightarrow> (char \<times> string option) list" where
  "word_opts (Bundle fs) = flag_opts fs"
| "word_opts (Glued fs c a) = flag_opts fs @ [(c, Some a)]"
| "word_opts (Apart fs c a) = flag_opts fs @ [(c, Some a)]"

definition takes_arg :: "string \<Rightarrow> char \<Rightarrow> bool" where
  "takes_arg optstring c \<longleftrightarrow> cchar (tl (opt_entry optstring c)) 0 = CHR '':''"

definition known :: "string \<Rightarrow> char \<Rightarrow> bool" where
  "known optstring c \<longleftrightarrow> c \<noteq> CHR ''-'' \<and> c \<noteq> CHR 0x00 \<and> opt_entry optstring c \<noteq> []"

definition flag :: "string \<Rightarrow> char \<Rightarrow> bool" where
  "flag optstring c \<longleftrightarrow> known optstring c \<and> \<not> takes_arg optstring c"

definition valued :: "string \<Rightarrow> char \<Rightarrow> bool" where
  "valued optstring c \<longleftrightarrow> known optstring c \<and> takes_arg optstring c"

fun word_ok :: "string \<Rightarrow> opt_word \<Rightarrow> bool" where
  "word_ok s (Bundle fs) \<longleftrightarrow> fs \<noteq> [] \<and> list_all (flag s) fs"
| "word_ok s (Glued fs c a) \<longleftrightarrow> list_all (flag s) fs \<and> valued s c \<and> a \<noteq> [] \<and> hd a \<noteq> CHR 0x00"
| "word_ok s (Apart fs c a) \<longleftrightarrow> list_all (flag s) fs \<and> valued s c"

text \<open>What ends the options: nothing more, the word \<open>--\<close>, or a word that is no option.\<close>

definition ends_options :: "string list \<Rightarrow> bool" where
  "ends_options rest \<longleftrightarrow> rest = [] \<or> hd rest = ''--'' \<or> hd rest = ''-'' \<or> cchar (hd rest) 0 \<noteq> CHR ''-''"

definition skipped :: "string list \<Rightarrow> nat" where
  "skipped rest = (if rest \<noteq> [] \<and> hd rest = ''--'' then 1 else 0)"

text \<open>The scanner stands at character \<open>k\<close> of word \<open>i\<close>.\<close>

definition stands :: "getopt_state \<Rightarrow> nat \<Rightarrow> nat \<Rightarrow> bool" where
  "stands g i k \<longleftrightarrow> 0 < i \<and> minioptind g = i \<and> (nextchar g = k \<or> k = 1 \<and> nextchar g = 0)"

lemma opt_entry_hd: "opt_entry s c = d # t \<Longrightarrow> d = c"
  by (induction s) (auto split: if_splits)

lemma minigetopt_at:
  assumes g: "stands g i k" and i: "i < length argv" and w: "argv ! i = CHR ''-'' # w"
    and w1: "w \<noteq> []" "hd w \<noteq> CHR ''-''" "hd w \<noteq> CHR 0x00"
    and k: "0 < k" "cchar (argv ! i) k \<noteq> CHR 0x00"
  shows "minigetopt argv optstring g = scan_option argv optstring g"
proof -
  have "scan_start argv g = g" using g k by (auto simp: scan_start_def stands_def)
  moreover have "at_option argv g"
    using g i w w1 by (cases w) (auto simp: at_option_def stands_def cchar_def)
  ultimately show ?thesis using minigetopt_option [of argv g optstring] by simp
qed

lemma scan_flag:
  assumes g: "stands g i k" and k: "0 < k" and c: "cchar (argv ! i) k = c" and f: "flag optstring c"
  shows "scan_option argv optstring g = (Some c, g\<lparr> nextchar := k + 1, minioptarg := None \<rparr>)"
proof -
  from f obtain s where "opt_entry optstring c = c # s" "cchar s 0 \<noteq> CHR '':''"
    using opt_entry_hd by (cases "opt_entry optstring c") (auto simp: flag_def known_def takes_arg_def)
  with g k c show ?thesis
    by (cases "nextchar g = 0") (auto simp: scan_option_def stands_def)
qed

lemma scan_glued:
  assumes g: "stands g i k" and k: "0 < k" and c: "cchar (argv ! i) k = c" and f: "valued optstring c"
    and n: "cchar (argv ! i) (k + 1) \<noteq> CHR 0x00"
  shows "scan_option argv optstring g =
    (Some c, g\<lparr> nextchar := 0, minioptarg := Some (drop (k + 1) (argv ! i)), minioptind := i + 1 \<rparr>)"
proof -
  from f obtain s where "opt_entry optstring c = c # s" "cchar s 0 = CHR '':''"
    using opt_entry_hd by (cases "opt_entry optstring c") (auto simp: valued_def known_def takes_arg_def)
  with g k c n show ?thesis
    by (cases "nextchar g = 0") (auto simp: scan_option_def stands_def)
qed

lemma scan_apart:
  assumes g: "stands g i k" and k: "0 < k" and c: "cchar (argv ! i) k = c" and f: "valued optstring c"
    and n: "cchar (argv ! i) (k + 1) = CHR 0x00" and i: "i + 1 < length argv"
  shows "scan_option argv optstring g =
    (Some c, g\<lparr> nextchar := 0, minioptarg := Some (argv ! (i + 1)), minioptind := i + 2 \<rparr>)"
proof -
  from f obtain s where "opt_entry optstring c = c # s" "cchar s 0 = CHR '':''"
    using opt_entry_hd by (cases "opt_entry optstring c") (auto simp: valued_def known_def takes_arg_def)
  with g k c n i show ?thesis
    by (cases "nextchar g = 0") (auto simp: scan_option_def stands_def)
qed

lemma known_first: "flag s c \<or> valued s c \<Longrightarrow> c \<noteq> CHR ''-'' \<and> c \<noteq> CHR 0x00"
  by (auto simp: flag_def valued_def known_def)

lemma getopt_flags:
  assumes "i < length argv" "argv ! i = CHR ''-'' # w" "w \<noteq> []" "hd w \<noteq> CHR ''-''" "hd w \<noteq> CHR 0x00"
  shows "\<lbrakk> w = pre @ fs @ post; list_all (flag optstring) fs; stands g i (1 + length pre) \<rbrakk>
    \<Longrightarrow> \<exists>g'. stands g' i (1 + length pre + length fs) \<and>
      getopt_all argv optstring g = apfst ((@) (flag_opts fs)) (getopt_all argv optstring g')"
proof (induction fs arbitrary: pre g)
  case Nil
  then show ?case by (intro exI [of _ g]) (simp add: flag_opts_def apfst_def map_prod_def)
next
  case (Cons f fs)
  let ?k = "1 + length pre" and ?g = "g\<lparr> nextchar := 1 + length pre + 1, minioptarg := None \<rparr>"
  have c: "cchar (argv ! i) ?k = f"
    using Cons.prems(1) assms(2) by (simp add: cchar_def nth_append)
  have f: "flag optstring f" using Cons.prems(2) by simp
  with c known_first have n: "cchar (argv ! i) ?k \<noteq> CHR 0x00" by blast
  have 1: "minigetopt argv optstring g = (Some f, ?g)"
    using minigetopt_at [OF Cons.prems(3) assms _ n] scan_flag [OF Cons.prems(3) _ c f] by simp
  have "stands ?g i (1 + length (pre @ [f]))"
    using Cons.prems(3) by (simp add: stands_def)
  with Cons.IH [of "pre @ [f]" ?g] Cons.prems obtain g'
    where g': "stands g' i (1 + length (pre @ [f]) + length fs)"
      "getopt_all argv optstring ?g = apfst ((@) (flag_opts fs)) (getopt_all argv optstring g')"
    by auto
  have "getopt_all argv optstring g = apfst ((@) (flag_opts (f # fs))) (getopt_all argv optstring g')"
    unfolding getopt_all_Some [OF 1] g'(2) by (simp add: flag_opts_def prod_eq_iff)
  with g'(1) show ?case by (intro exI [of _ g']) simp
qed

lemma getopt_word_end:
  assumes "stands g i (length (argv ! i))" "1 < length (argv ! i)"
  shows "getopt_all argv optstring g =
    getopt_all argv optstring (g\<lparr> minioptind := i + 1, nextchar := 0 \<rparr>)"
proof -
  have "scan_start argv g = g\<lparr> minioptind := i + 1, nextchar := 0 \<rparr>"
    using assms by (auto simp: scan_start_def stands_def cchar_def)
  then show ?thesis using getopt_all_start [of argv optstring g] by simp
qed

definition fresh :: "getopt_state \<Rightarrow> nat \<Rightarrow> bool" where
  "fresh g i \<longleftrightarrow> 0 < i \<and> minioptind g = i \<and> nextchar g = 0"

lemma getopt_word:
  assumes w: "word_ok optstring x" and fr: "fresh g i"
    and a: "take (length (word_args x)) (drop i argv) = word_args x"
  shows "\<exists>g'. fresh g' (i + length (word_args x)) \<and>
    getopt_all argv optstring g = apfst ((@) (word_opts x)) (getopt_all argv optstring g')"
proof -
  from fr have g: "stands g i 1" by (simp add: fresh_def stands_def)
  have "length (take (length (word_args x)) (drop i argv)) = length (word_args x)" using a by simp
  then have le: "i + length (word_args x) \<le> length argv" by (cases x) auto
  have nth: "argv ! (i + j) = word_args x ! j" "i + j < length argv" if "j < length (word_args x)" for j
    using that le nth_take [OF that, of "drop i argv"] a by simp_all
  have len: "0 < length (word_args x)" by (cases x) auto
  have i: "i < length argv" using nth(2) [of 0] len by simp
  show ?thesis
  proof (cases x)
    case (Bundle fs)
    with w nth(1) [of 0] have arg: "argv ! i = CHR ''-'' # fs" and fs: "fs \<noteq> []" "list_all (flag optstring) fs"
      by auto
    have hd: "hd fs \<noteq> CHR ''-''" "hd fs \<noteq> CHR 0x00"
      using fs known_first by (cases fs; auto)+
    obtain g' where g': "stands g' i (1 + length fs)"
      "getopt_all argv optstring g = apfst ((@) (flag_opts fs)) (getopt_all argv optstring g')"
      using getopt_flags [OF i arg fs(1) hd, of "[]" fs "[]" optstring g] fs g by auto
    show ?thesis
      using g' getopt_word_end [of g' i argv optstring] arg fs(1) Bundle
      by (intro exI [of _ "g'\<lparr> minioptind := i + 1, nextchar := 0 \<rparr>"]) (simp add: stands_def fresh_def)
  next
    case (Glued fs c b)
    with w nth(1) [of 0] have arg: "argv ! i = CHR ''-'' # fs @ c # b"
      and fs: "list_all (flag optstring) fs" and c: "valued optstring c" and b: "b \<noteq> []" "hd b \<noteq> CHR 0x00"
      by auto
    have hd: "hd (fs @ c # b) \<noteq> CHR ''-''" "hd (fs @ c # b) \<noteq> CHR 0x00"
      using fs c known_first by (cases fs; auto)+
    obtain g' where g': "stands g' i (1 + length fs)"
      "getopt_all argv optstring g = apfst ((@) (flag_opts fs)) (getopt_all argv optstring g')"
      using getopt_flags [OF i arg _ hd, of "[]" fs "c # b" optstring g] fs g by auto
    let ?k = "1 + length fs"
    let ?h = "g'\<lparr> nextchar := 0, minioptarg := Some b, minioptind := i + 1 \<rparr>"
    have ck: "cchar (argv ! i) ?k = c" and cn: "cchar (argv ! i) (?k + 1) \<noteq> CHR 0x00"
      using b arg by (cases b; simp add: cchar_def nth_append)+
    have cz: "c \<noteq> CHR 0x00" using c known_first by blast
    have "minigetopt argv optstring g' = (Some c, ?h)"
      using minigetopt_at [OF g'(1) i arg _ hd] scan_glued [OF g'(1) _ ck c cn] ck cz arg
      by simp
    then have "getopt_all argv optstring g =
        apfst ((@) (word_opts x)) (getopt_all argv optstring ?h)"
      using g'(2) Glued by (simp add: getopt_all_Some prod_eq_iff)
    then show ?thesis using g'(1) Glued by (intro exI [of _ ?h]) (simp add: stands_def fresh_def)
  next
    case (Apart fs c b)
    with w nth [of 0] nth [of 1] have arg: "argv ! i = CHR ''-'' # fs @ [c]"
      and fs: "list_all (flag optstring) fs" and c: "valued optstring c"
      and b: "argv ! (i + 1) = b" "i + 1 < length argv"
      by auto
    have hd: "hd (fs @ [c]) \<noteq> CHR ''-''" "hd (fs @ [c]) \<noteq> CHR 0x00"
      using fs c known_first by (cases fs; auto)+
    obtain g' where g': "stands g' i (1 + length fs)"
      "getopt_all argv optstring g = apfst ((@) (flag_opts fs)) (getopt_all argv optstring g')"
      using getopt_flags [OF i arg _ hd, of "[]" fs "[c]" optstring g] fs g by auto
    let ?k = "1 + length fs"
    let ?h = "g'\<lparr> nextchar := 0, minioptarg := Some b, minioptind := i + 2 \<rparr>"
    have ck: "cchar (argv ! i) ?k = c" and cn: "cchar (argv ! i) (?k + 1) = CHR 0x00"
      using arg by (simp_all add: cchar_def nth_append)
    have cz: "c \<noteq> CHR 0x00" using c known_first by blast
    have "minigetopt argv optstring g' = (Some c, ?h)"
      using minigetopt_at [OF g'(1) i arg _ hd] scan_apart [OF g'(1) _ ck c cn b(2)] ck cz b(1)
      by simp
    then have "getopt_all argv optstring g =
        apfst ((@) (word_opts x)) (getopt_all argv optstring ?h)"
      using g'(2) Apart by (simp add: getopt_all_Some prod_eq_iff)
    then show ?thesis using g'(1) Apart by (intro exI [of _ ?h]) (simp add: stands_def fresh_def)
  qed
qed

lemma getopt_words:
  assumes "list_all (word_ok optstring) xs" "ends_options rest" "fresh g (length passed)"
    "argv = passed @ concat (map word_args xs) @ rest"
  shows "\<exists>g'. getopt_all argv optstring g = (concat (map word_opts xs), g') \<and>
    minioptind g' = length argv - length rest + skipped rest"
  using assms
proof (induction xs arbitrary: g "passed")
  case Nil
  then have s: "scan_start argv g = g" and i: "minioptind g = length passed"
    by (auto simp: fresh_def scan_start_def)
  have no: "\<not> at_option argv g" and tm: "at_terminator argv g \<longleftrightarrow> skipped rest = 1"
    using Nil.prems(2,4) i
    by (cases rest; auto simp: at_option_def at_terminator_def ends_options_def skipped_def cchar_def
        split: if_splits)+
  show ?case
  proof (cases "at_terminator argv g")
    case True
    with tm Nil.prems(4) i s show ?thesis
      by (subst getopt_all.simps) (simp add: minigetopt_terminator)
  next
    case False
    with tm no Nil.prems(4) i s show ?thesis
      by (subst getopt_all.simps) (simp add: minigetopt_end skipped_def split: if_splits)
  qed
next
  case (Cons x xs)
  obtain g' where g': "fresh g' (length passed + length (word_args x))"
      "getopt_all argv optstring g = apfst ((@) (word_opts x)) (getopt_all argv optstring g')"
    using getopt_word [of optstring x g "length passed" argv] Cons.prems by auto
  show ?case
    using Cons.IH [of g' "passed @ word_args x"] Cons.prems g' by auto
qed

text \<open>
  Scanning a command line written from option words gives back their options and arguments, and
  leaves \<open>optind\<close> at the first word that is none.
\<close>

theorem getopt_reads_words:
  assumes "list_all (word_ok optstring) xs" "ends_options rest"
  shows "\<exists>g. getopt_all (prog # concat (map word_args xs) @ rest) optstring getopt_start =
      (concat (map word_opts xs), g) \<and>
    minioptind g = 1 + length (concat (map word_args xs)) + skipped rest"
proof -
  let ?argv = "prog # concat (map word_args xs) @ rest" and ?g = "getopt_start\<lparr> minioptind := 1 \<rparr>"
  have "scan_start ?argv getopt_start = ?g" by (simp add: scan_start_def getopt_start_def)
  then have s: "getopt_all ?argv optstring getopt_start = getopt_all ?argv optstring ?g"
    using getopt_all_start [of ?argv optstring getopt_start] by simp
  have "fresh ?g (length [prog])" by (simp add: fresh_def getopt_start_def)
  with getopt_words [OF assms this, of ?argv] show ?thesis unfolding s by simp
qed

theorem getopt_reads_words_witness:
  "\<exists>g. getopt_all (''pv'' # concat (map word_args
        [Bundle ''pt'', Glued ''q'' CHR ''L'' ''20k'', Apart '''' CHR ''N'' ''job'']) @ [''--'', ''-x''])
      ''pqtL:N:'' getopt_start =
      (concat (map word_opts [Bundle ''pt'', Glued ''q'' CHR ''L'' ''20k'', Apart '''' CHR ''N'' ''job'']), g) \<and>
    minioptind g = 1 + length (concat (map word_args
        [Bundle ''pt'', Glued ''q'' CHR ''L'' ''20k'', Apart '''' CHR ''N'' ''job''])) + skipped [''--'', ''-x'']"
  by (rule getopt_reads_words)
    (simp_all add: flag_def valued_def known_def takes_arg_def cchar_def ends_options_def)

section \<open>The scanner stays inside the arguments\<close>

text \<open>
  Between calls the scanner stands before an argument or inside one, where \<open>nextchar\<close> is at
  most the argument's length, so a call reads no character past the NUL of a string and no string
  past the end of \<open>argv\<close>.
\<close>

definition getopt_inv :: "string list \<Rightarrow> getopt_state \<Rightarrow> bool" where
  "getopt_inv argv g \<longleftrightarrow> minioptind g \<le> length argv \<and>
     (0 < nextchar g \<longrightarrow> 0 < minioptind g \<and> minioptind g < length argv \<and>
        nextchar g \<le> length (argv ! minioptind g) \<and> at_option argv g)"

lemma scan_start_inv: "getopt_inv argv g \<Longrightarrow> getopt_inv argv (scan_start argv g)"
  by (cases argv) (auto simp: getopt_inv_def scan_start_def at_option_def)

lemma scan_option_inv:
  assumes "getopt_inv argv g" "0 < minioptind g" "at_option argv g"
    "nextchar g < length (argv ! minioptind g)"
  shows "getopt_inv argv (snd (scan_option argv optstring g))"
proof -
  from assms(3) have "1 < length (argv ! minioptind g)"
    using cchar_not_nul [of _ 1] by (auto simp: at_option_def)
  with assms show ?thesis
    by (auto simp: getopt_inv_def scan_option_def at_option_def Let_def split: list.split)
qed

theorem minigetopt_in_bounds:
  assumes "getopt_inv argv g"
  shows "getopt_inv argv (snd (minigetopt argv optstring g))"
proof -
  let ?g = "scan_start argv g"
  have inv: "getopt_inv argv ?g" using assms by (rule scan_start_inv)
  consider "at_option argv ?g" | "at_terminator argv ?g" "\<not> at_option argv ?g"
    | "\<not> at_option argv ?g" "\<not> at_terminator argv ?g" by blast
  then show ?thesis
  proof cases
    case 1
    have "0 < minioptind ?g"
      using 1 by (auto simp: at_option_def scan_start_def Let_def)
    then show ?thesis
      using 1 inv scan_start_char scan_option_inv by (simp add: minigetopt_option)
  next
    case 2
    with inv show ?thesis
      by (auto simp: minigetopt_terminator getopt_inv_def at_terminator_def)
  next
    case 3
    with inv show ?thesis by (simp add: minigetopt_end)
  qed
qed

theorem minigetopt_in_bounds_witness:
  "getopt_inv [''pv'', ''-pL''] (snd (minigetopt [''pv'', ''-pL''] ''pL:''
     (snd (minigetopt [''pv'', ''-pL''] ''pL:'' getopt_start))))"
  by (intro minigetopt_in_bounds) (simp add: getopt_inv_def getopt_start_def)

end
