(* ===== verification/PvOptions.thy ===== *)
theory PvOptions
  imports PvNumber PvGetopt
begin

text \<open>
  \<open>tools/pv/src/main/options.c\<close>: the command line of Pipe Viewer, in the build without
  \<open>getopt_long\<close>, where the scanner is \<open>minigetopt\<close>. \<open>opts_parse\<close> returns \<open>None\<close> for the null
  pointer, together with what it has shown. The outcomes of the two \<open>calloc\<close>s and of \<open>access\<close>
  on \<open>/proc/self/fdinfo\<close> are the parameter \<open>opts_env\<close>.
\<close>

record opts =
  program_name :: string
  do_nothing :: bool
  o_progress :: bool
  o_timer :: bool
  o_eta :: bool
  o_fineta :: bool
  o_rate :: bool
  o_average_rate :: bool
  o_bytes :: bool
  o_bufpercent :: bool
  o_lastwritten :: int
  o_force :: bool
  o_cursor :: bool
  o_numeric :: bool
  o_wait :: bool
  o_linemode :: bool
  o_null :: bool
  o_no_op :: bool
  o_rate_limit :: int
  o_buffer_size :: int
  o_remote :: int
  o_size :: int
  o_no_splice :: bool
  o_skip_errors :: int
  o_stop_at_size :: bool
  o_interval :: rat
  o_delay_start :: rat
  o_watch_pid :: int
  o_watch_fd :: int
  o_width :: int
  o_height :: int
  o_name :: "string option"
  o_format :: "string option"
  o_pidfile :: "string option"
  o_argv :: "string list"

record opts_env =
  opts_allocated :: bool
  argv_allocated :: bool
  fdinfo_accessible :: bool

datatype opts_output = Help | Version | Stderr string

definition u32 :: "int \<Rightarrow> int" where
  "u32 x = x mod 2 ^ 32"

definition short_options :: string where
  "short_options = ''hVpteIrabTA:fnqcWD:s:l0i:w:H:N:F:L:B:CESR:P:d:''"

text \<open>
  \<open>sscanf (s, "%u:%d", ...)\<close> of the C library: blanks, a sign and digits, the value
  clamped as \<open>strtoul\<close> and \<open>strtol\<close> clamp it and cut to 32 bits; then a colon and a second
  number. The result is the two numbers, as far as they were converted.
\<close>

definition c_isspace :: "char \<Rightarrow> bool" where
  "c_isspace c \<longleftrightarrow> c = CHR '' '' \<or> 9 \<le> (of_char c :: nat) \<and> (of_char c :: nat) \<le> 13"

definition scan_integer :: "string \<Rightarrow> (bool \<times> nat \<times> string) option" where
  "scan_integer s =
     (let s = dropWhile c_isspace s;
          (neg, s) = (case s of c # t \<Rightarrow> if c = CHR ''-'' then (True, t)
                                       else if c = CHR ''+'' then (False, t) else (False, s)
                      | [] \<Rightarrow> (False, []));
          ds = takeWhile is_digit s
      in if ds = [] then None else Some (neg, atoi_digits ds, dropWhile is_digit s))"

definition scan_u :: "bool \<Rightarrow> nat \<Rightarrow> int" where
  "scan_u neg n =
     (if 2 ^ 64 \<le> int n then u32 (2 ^ 64 - 1) else u32 (if neg then - int n else int n))"

definition scan_d :: "bool \<Rightarrow> nat \<Rightarrow> int" where
  "scan_d neg n =
     i32 (if neg then max (- (2 ^ 63)) (- int n) else min (2 ^ 63 - 1) (int n))"

definition sscanf_u_d :: "string \<Rightarrow> int option \<times> int option" where
  "sscanf_u_d s =
     (case scan_integer s of
        None \<Rightarrow> (None, None)
      | Some (neg, n, t) \<Rightarrow>
          (Some (scan_u neg n),
           case t of
             c # r \<Rightarrow> if c \<noteq> CHR '':'' then None
                       else map_option (\<lambda>(neg, n, _). scan_d neg n) (scan_integer r)
           | [] \<Rightarrow> None))"

text \<open>The argument of \<open>-d\<close>; the scanner never returns that option without one.\<close>

definition pid_and_fd :: "string option \<Rightarrow> int option \<times> int option" where
  "pid_and_fd optarg = (case optarg of None \<Rightarrow> (None, None) | Some s \<Rightarrow> sscanf_u_d s)"

text \<open>The part of the program's path after its last slash (\<open>strrchr\<close>).\<close>

definition base_name :: "string \<Rightarrow> string" where
  "base_name s = (if CHR ''/'' \<in> set s then rev (takeWhile (\<lambda>c. c \<noteq> CHR ''/'') (rev s)) else s)"

definition opts_new :: "string \<Rightarrow> opts" where
  "opts_new argv0 = \<lparr> program_name = base_name argv0, do_nothing = False,
     o_progress = False, o_timer = False, o_eta = False, o_fineta = False, o_rate = False,
     o_average_rate = False, o_bytes = False, o_bufpercent = False, o_lastwritten = 0,
     o_force = False, o_cursor = False, o_numeric = False, o_wait = False, o_linemode = False,
     o_null = False, o_no_op = False, o_rate_limit = 0, o_buffer_size = 0, o_remote = 0,
     o_size = 0, o_no_splice = False, o_skip_errors = 0, o_stop_at_size = False,
     o_interval = 1, o_delay_start = 0, o_watch_pid = 0, o_watch_fd = - 1,
     o_width = 0, o_height = 0, o_name = None, o_format = None, o_pidfile = None, o_argv = [] \<rparr>"

text \<open>The first \<open>switch\<close>: the complaint about an argument of the wrong type.\<close>

definition check_option :: "char \<Rightarrow> string option \<Rightarrow> string option" where
  "check_option c optarg =
     (if c \<in> {CHR ''s'', CHR ''A'', CHR ''w'', CHR ''H'', CHR ''L'', CHR ''B'', CHR ''R''} then
        (if pv_getnum_check optarg PV_NUMTYPE_INTEGER \<noteq> 0
         then Some ''integer argument expected'' else None)
      else if c \<in> {CHR ''i'', CHR ''D''} then
        (if pv_getnum_check optarg PV_NUMTYPE_DOUBLE \<noteq> 0
         then Some ''numeric argument expected'' else None)
      else if c = CHR ''d'' then
        (case fst (pid_and_fd optarg) of
           None \<Rightarrow> Some ''process ID or pid:fd pair expected''
         | Some check_pid \<Rightarrow> if check_pid < 1 then Some ''invalid process ID'' else None)
      else None)"

text \<open>The second \<open>switch\<close>: go on, return at once (with what was shown), or fail.\<close>

datatype opt_step = Go opts nat | Leave opts opts_output | Bad string

definition apply_option :: "char \<Rightarrow> string option \<Rightarrow> opts \<Rightarrow> nat \<Rightarrow> opt_step" where
  "apply_option c optarg ops numopts =
     (if c = CHR ''h'' then Leave (ops\<lparr> do_nothing := True \<rparr>) Help
      else if c = CHR ''V'' then Leave (ops\<lparr> do_nothing := True \<rparr>) Version
      else if c = CHR ''p'' then Go (ops\<lparr> o_progress := True \<rparr>) (numopts + 1)
      else if c = CHR ''t'' then Go (ops\<lparr> o_timer := True \<rparr>) (numopts + 1)
      else if c = CHR ''I'' then Go (ops\<lparr> o_fineta := True \<rparr>) (numopts + 1)
      else if c = CHR ''e'' then Go (ops\<lparr> o_eta := True \<rparr>) (numopts + 1)
      else if c = CHR ''r'' then Go (ops\<lparr> o_rate := True \<rparr>) (numopts + 1)
      else if c = CHR ''a'' then Go (ops\<lparr> o_average_rate := True \<rparr>) (numopts + 1)
      else if c = CHR ''b'' then Go (ops\<lparr> o_bytes := True \<rparr>) (numopts + 1)
      else if c = CHR ''T'' then Go (ops\<lparr> o_bufpercent := True \<rparr>) (numopts + 1)
      else if c = CHR ''A'' then Go (ops\<lparr> o_lastwritten := u32 (pv_getnum_i optarg) \<rparr>) (numopts + 1)
      else if c = CHR ''f'' then Go (ops\<lparr> o_force := True \<rparr>) numopts
      else if c = CHR ''n'' then Go (ops\<lparr> o_numeric := True \<rparr>) (numopts + 1)
      else if c = CHR ''q'' then Go (ops\<lparr> o_no_op := True \<rparr>) (numopts + 1)
      else if c = CHR ''c'' then Go (ops\<lparr> o_cursor := True \<rparr>) numopts
      else if c = CHR ''W'' then Go (ops\<lparr> o_wait := True \<rparr>) numopts
      else if c = CHR ''D'' then Go (ops\<lparr> o_delay_start := pv_getnum_d optarg \<rparr>) numopts
      else if c = CHR ''s'' then Go (ops\<lparr> o_size := u64 (pv_getnum_ll optarg) \<rparr>) numopts
      else if c = CHR ''l'' then Go (ops\<lparr> o_linemode := True \<rparr>) numopts
      else if c = CHR ''0'' then Go (ops\<lparr> o_null := True, o_linemode := True \<rparr>) numopts
      else if c = CHR ''i'' then Go (ops\<lparr> o_interval := pv_getnum_d optarg \<rparr>) numopts
      else if c = CHR ''w'' then Go (ops\<lparr> o_width := u32 (pv_getnum_i optarg) \<rparr>) numopts
      else if c = CHR ''H'' then Go (ops\<lparr> o_height := u32 (pv_getnum_i optarg) \<rparr>) numopts
      else if c = CHR ''N'' then Go (ops\<lparr> o_name := optarg \<rparr>) numopts
      else if c = CHR ''L'' then Go (ops\<lparr> o_rate_limit := u64 (pv_getnum_ll optarg) \<rparr>) numopts
      else if c = CHR ''B'' then Go (ops\<lparr> o_buffer_size := u64 (pv_getnum_ll optarg) \<rparr>) numopts
      else if c = CHR ''C'' then Go (ops\<lparr> o_no_splice := True \<rparr>) numopts
      else if c = CHR ''E'' then Go (ops\<lparr> o_skip_errors := (o_skip_errors ops + 1) mod 256 \<rparr>) numopts
      else if c = CHR ''S'' then Go (ops\<lparr> o_stop_at_size := True \<rparr>) numopts
      else if c = CHR ''R'' then Go (ops\<lparr> o_remote := u32 (pv_getnum_i optarg) \<rparr>) numopts
      else if c = CHR ''P'' then Go (ops\<lparr> o_pidfile := optarg \<rparr>) numopts
      else if c = CHR ''F'' then Go (ops\<lparr> o_format := optarg \<rparr>) numopts
      else if c = CHR ''d'' then
        (case pid_and_fd optarg of (pid, fd) \<Rightarrow>
           Go (ops\<lparr> o_watch_pid := (case pid of None \<Rightarrow> 0 | Some n \<Rightarrow> n),
                     o_watch_fd := (case fd of None \<Rightarrow> - 1 | Some n \<Rightarrow> n) \<rparr>) numopts)
      else Bad (''Try `'' @ program_name ops @ '' -h' for more information.''))"

text \<open>The loop over the options, one call of the scanner per round.\<close>

datatype parsed = Parsed opts nat getopt_state | Returned opts opts_output | Failed string

function parse_options ::
  "string list \<Rightarrow> getopt_state \<Rightarrow> opts \<Rightarrow> nat \<Rightarrow> parsed" where
  "parse_options argv g ops numopts =
     (case minigetopt argv short_options g of
        (None, g') \<Rightarrow> Parsed ops numopts g'
      | (Some c, g') \<Rightarrow>
          (case check_option c (minioptarg g') of
             Some msg \<Rightarrow> Failed (program_name ops @ '': -'' @ [c] @ '': '' @ msg)
           | None \<Rightarrow>
               (case apply_option c (minioptarg g') ops numopts of
                  Go ops numopts \<Rightarrow> parse_options argv g' ops numopts
                | Leave ops shown \<Rightarrow> Returned ops shown
                | Bad msg \<Rightarrow> Failed msg)))"
  by pat_completeness auto
termination
  by (relation "measure (\<lambda>(argv, g, ops, numopts). scan_left argv g)")
    (auto dest: minigetopt_left [OF sym])

declare parse_options.simps [simp del]

text \<open>What cannot be combined with watching another process.\<close>

definition watch_conflict :: "opts_env \<Rightarrow> opts \<Rightarrow> bool \<Rightarrow> string option" where
  "watch_conflict env ops more_args =
     (if o_watch_pid ops \<noteq> 0 then
        (if o_linemode ops \<or> o_null ops \<or> o_stop_at_size ops \<or> o_skip_errors ops > 0
            \<or> o_buffer_size ops > 0 \<or> o_rate_limit ops > 0
         then Some ''cannot use line mode or transfer modifier options when watching file descriptors''
         else if o_cursor ops
         then Some ''cannot use cursor positioning when watching file descriptors''
         else if o_remote ops \<noteq> 0
         then Some ''cannot use remote control when watching file descriptors''
         else if more_args
         then Some ''cannot transfer files when watching file descriptors''
         else if \<not> fdinfo_accessible env
         then Some ''-d: not available on systems without /proc/self/fdinfo''
         else None)
      else None)"

definition default_options :: "opts \<Rightarrow> nat \<Rightarrow> opts" where
  "default_options ops numopts =
     (if numopts = 0
      then ops\<lparr> o_progress := True, o_timer := True, o_eta := True, o_rate := True, o_bytes := True \<rparr>
      else ops)"

definition opts_parse ::
  "opts_env \<Rightarrow> string list \<Rightarrow> getopt_state \<Rightarrow> opts option \<times> opts_output list" where
  "opts_parse env argv g =
     (if \<not> opts_allocated env
      then (None, [Stderr (argv ! 0 @ '': option structure allocation failed'')])
      else
        let ops = opts_new (argv ! 0)
        in if \<not> argv_allocated env
           then (None, [Stderr (program_name ops @ '': option structure argv allocation failed'')])
           else
             case parse_options argv g ops 0 of
               Failed msg \<Rightarrow> (None, [Stderr msg])
             | Returned ops shown \<Rightarrow> (Some ops, [shown])
             | Parsed ops numopts g' \<Rightarrow>
                 (case watch_conflict env ops (minioptind g' < length argv) of
                    Some msg \<Rightarrow> (None, [Stderr (program_name ops @ '': '' @ msg)])
                  | None \<Rightarrow>
                      (Some ((default_options ops numopts)\<lparr> o_argv := drop (minioptind g') argv \<rparr>), [])))"

definition opts_free :: "opts option \<Rightarrow> opts option" where
  "opts_free ops = None"

section \<open>What the parser promises\<close>

text \<open>
  The options that reach the rest of the program: a null-terminated line is a line, watching a
  process excludes everything about transfers, and numbers are in the range of their types.
\<close>

definition opts_ok :: "opts \<Rightarrow> bool" where
  "opts_ok ops \<longleftrightarrow>
     (o_null ops \<longrightarrow> o_linemode ops) \<and>
     0 \<le> o_size ops \<and> o_size ops < 2 ^ 64 \<and> 0 \<le> o_rate_limit ops \<and> o_rate_limit ops < 2 ^ 64 \<and>
     0 \<le> o_buffer_size ops \<and> o_buffer_size ops < 2 ^ 64 \<and>
     0 \<le> o_width ops \<and> o_width ops < 2 ^ 32 \<and> 0 \<le> o_height ops \<and> o_height ops < 2 ^ 32 \<and>
     0 \<le> o_interval ops \<and> 0 \<le> o_delay_start ops"

definition watch_ok :: "opts \<Rightarrow> bool" where
  "watch_ok ops \<longleftrightarrow>
     (o_watch_pid ops \<noteq> 0 \<longrightarrow>
        \<not> o_linemode ops \<and> \<not> o_null ops \<and> \<not> o_stop_at_size ops \<and> \<not> o_cursor ops \<and>
        o_skip_errors ops \<le> 0 \<and> o_buffer_size ops \<le> 0 \<and> o_rate_limit ops \<le> 0 \<and>
        o_remote ops = 0 \<and> o_argv ops = [])"

lemma u32_range: "0 \<le> u32 x" "u32 x < 4294967296"
  by (simp_all add: u32_def)

lemma u64_range: "0 \<le> u64 x" "u64 x < 18446744073709551616"
  by (simp_all add: u64_def)

lemma getnum_d_int_ge: "0 \<le> n \<Longrightarrow> 0 \<le> fst (getnum_d_int n s)"
  by (induction n s rule: getnum_d_int.induct) auto

lemma getnum_d_frac_ge: "0 \<le> n \<Longrightarrow> 0 < step \<Longrightarrow> 0 \<le> getnum_d_frac n step s"
  by (induction n step s rule: getnum_d_frac.induct) auto

lemma getnum_d_ge: "0 \<le> pv_getnum_d s"
proof (cases s)
  case (Some t)
  obtain n r where n: "getnum_d_int 0 (skip_to_digit t) = (n, r)" by force
  then have "0 \<le> n" using getnum_d_int_ge [of 0 "skip_to_digit t"] by simp
  with n Some show ?thesis
    by (auto simp: pv_getnum_d_def getnum_d_frac_ge split: list.split)
qed (simp add: pv_getnum_d_def)

lemma if_eqE: "\<lbrakk> (if b then x else y) = z; x = z \<Longrightarrow> P; y = z \<Longrightarrow> P \<rbrakk> \<Longrightarrow> P"
  by (cases b) simp_all

lemma apply_option_ok:
  "opts_ok ops \<Longrightarrow> apply_option c optarg ops numopts = Go ops' n' \<Longrightarrow> opts_ok ops'"
  unfolding apply_option_def
  by (elim if_eqE; clarsimp simp: opts_ok_def u32_range u64_range getnum_d_ge split: prod.splits)

lemma parse_options_ok:
  "opts_ok ops \<Longrightarrow> parse_options argv g ops numopts = Parsed ops' n' g' \<Longrightarrow> opts_ok ops'"
proof (induction argv g ops numopts rule: parse_options.induct)
  case (1 argv g ops numopts)
  note IH = 1(1) and ok = 1(2) and run = 1(3)
  obtain r g1 where m: "minigetopt argv short_options g = (r, g1)" by force
  show ?case
  proof (cases r)
    case None
    with m run ok show ?thesis by (simp add: parse_options.simps [of argv])
  next
    case (Some c)
    with m run have chk: "check_option c (minioptarg g1) = None"
      by (simp add: parse_options.simps [of argv] split: option.splits)
    with m run Some obtain ops1 n1
      where a: "apply_option c (minioptarg g1) ops numopts = Go ops1 n1"
        and rest: "parse_options argv g1 ops1 n1 = Parsed ops' n' g'"
      by (auto simp: parse_options.simps [of argv g] split: opt_step.splits)
    from IH [OF m [symmetric] Some chk a] apply_option_ok [OF ok a] rest show ?thesis by blast
  qed
qed

lemma opts_new_ok: "opts_ok (opts_new p)"
  by (simp add: opts_ok_def opts_new_def)

lemma default_options_same:
  "opts_ok (default_options ops n) = opts_ok ops"
  "o_watch_pid (default_options ops n) = o_watch_pid ops"
  by (simp_all add: default_options_def opts_ok_def)

lemma apply_option_leave: "apply_option c optarg ops n = Leave ops' shown \<Longrightarrow> do_nothing ops'"
  unfolding apply_option_def by (elim if_eqE; clarsimp split: prod.splits)

lemma parse_options_leave: "parse_options argv g ops n = Returned ops' shown \<Longrightarrow> do_nothing ops'"
proof (induction argv g ops n rule: parse_options.induct)
  case (1 argv g ops numopts)
  obtain r g1 where m: "minigetopt argv short_options g = (r, g1)" by force
  with 1(2) show ?case
    by (auto simp: parse_options.simps [of argv g] split: option.splits opt_step.splits
        intro: 1(1) apply_option_leave)
qed

text \<open>
  C23. Whatever the command line, the options that are handed on are in range, and an option that
  watches another process is alone with the display options.
\<close>

theorem opts_parse_ok:
  assumes "opts_parse env argv g = (Some ops, shown)"
  shows "do_nothing ops \<or> opts_ok ops \<and> watch_ok ops"
proof -
  from assms have "opts_allocated env" "argv_allocated env"
    by (auto simp: opts_parse_def Let_def split: if_splits)
  with assms consider
      out where "parse_options argv g (opts_new (argv ! 0)) 0 = Returned ops out"
    | ops1 n g1 where "parse_options argv g (opts_new (argv ! 0)) 0 = Parsed ops1 n g1"
        "watch_conflict env ops1 (minioptind g1 < length argv) = None"
        "ops = (default_options ops1 n)\<lparr> o_argv := drop (minioptind g1) argv \<rparr>"
    by (auto simp: opts_parse_def Let_def split: parsed.splits option.splits)
  then show ?thesis
  proof cases
    case 1
    then show ?thesis by (simp add: parse_options_leave)
  next
    case 2
    have "opts_ok ops1" using opts_new_ok 2(1) by (rule parse_options_ok)
    then have "opts_ok ops" using default_options_same(1) [of ops1 n] 2(3)
      by (simp add: opts_ok_def)
    moreover have "watch_ok ops"
      using 2(2) unfolding 2(3)
      by (auto simp: watch_ok_def watch_conflict_def default_options_def split: if_splits)
    ultimately show ?thesis by simp
  qed
qed

theorem opts_parse_ok_witness:
  "\<exists>ops. opts_parse (opts_env.make True True True) [''pv'', ''-nL'', ''20k''] getopt_start = (Some ops, []) \<and>
     (do_nothing ops \<or> opts_ok ops \<and> watch_ok ops)"
proof -
  let ?r = "opts_parse (opts_env.make True True True) [''pv'', ''-nL'', ''20k''] getopt_start"
  have "fst ?r \<noteq> None \<and> snd ?r = []" by code_simp
  then obtain ops where "?r = (Some ops, [])" by (cases ?r) auto
  with opts_parse_ok [OF this] show ?thesis by blast
qed

section \<open>From option words to options\<close>

text \<open>What a list of options does to the record, when every one of them is accepted.\<close>

fun apply_all :: "(char \<times> string option) list \<Rightarrow> opts \<Rightarrow> nat \<Rightarrow> (opts \<times> nat) option" where
  "apply_all [] ops n = Some (ops, n)"
| "apply_all ((c, a) # r) ops n =
     (if check_option c a \<noteq> None then None
      else case apply_option c a ops n of Go ops' n' \<Rightarrow> apply_all r ops' n' | _ \<Rightarrow> None)"

lemma parse_options_all:
  "apply_all (fst (getopt_all argv short_options g)) ops n = Some (ops', n') \<Longrightarrow>
   parse_options argv g ops n = Parsed ops' n' (snd (getopt_all argv short_options g))"
proof (induction argv g ops n rule: parse_options.induct)
  case (1 argv g ops n)
  note IH = 1(1) and all = 1(2)
  obtain r g1 where m: "minigetopt argv short_options g = (r, g1)" by force
  show ?case
  proof (cases r)
    case None
    with m have "getopt_all argv short_options g = ([], g1)" by (simp add: getopt_all.simps [of argv])
    with m None all show ?thesis by (simp add: parse_options.simps [of argv])
  next
    case (Some c)
    with m have ga: "getopt_all argv short_options g =
        apfst (Cons (c, minioptarg g1)) (getopt_all argv short_options g1)"
      by (simp add: getopt_all_Some)
    from all ga have chk: "check_option c (minioptarg g1) = None" by (simp split: if_splits)
    with all ga obtain ops1 n1 where a: "apply_option c (minioptarg g1) ops n = Go ops1 n1"
      and rest: "apply_all (fst (getopt_all argv short_options g1)) ops1 n1 = Some (ops', n')"
      by (auto split: opt_step.splits)
    from IH [OF m [symmetric] Some chk a rest] m Some chk a ga show ?thesis
      by (simp add: parse_options.simps [of argv g])
  qed
qed

text \<open>
  C22. A command line written from words that are all accepted, and that watches no process, yields
  the options the words set, with the default display when no word chose one, and the remaining
  words as the files.
\<close>

theorem opts_parse_words:
  assumes "list_all (word_ok short_options) xs" "ends_options rest"
    and "apply_all (concat (map word_opts xs)) (opts_new prog) 0 = Some (ops, n)"
    and "o_watch_pid ops = 0" and "opts_allocated env" "argv_allocated env"
  shows "opts_parse env (prog # concat (map word_args xs) @ rest) getopt_start =
    (Some ((default_options ops n)\<lparr> o_argv := drop (skipped rest) rest \<rparr>), [])"
proof -
  let ?argv = "prog # concat (map word_args xs) @ rest"
  obtain g where g: "getopt_all ?argv short_options getopt_start = (concat (map word_opts xs), g)"
    and i: "minioptind g = 1 + length (concat (map word_args xs)) + skipped rest"
    using getopt_reads_words [OF assms(1,2)] by blast
  have "parse_options ?argv getopt_start (opts_new prog) 0 = Parsed ops n g"
    using parse_options_all [of ?argv getopt_start "opts_new prog" 0 ops n] assms(3) g by simp
  then show ?thesis
    using assms(4-6) i by (simp add: opts_parse_def Let_def watch_conflict_def)
qed

theorem opts_parse_words_witness:
  "\<exists>ops. opts_parse (opts_env.make True True True)
      (''pv'' # concat (map word_args [Bundle ''fW'', Glued ''q'' CHR ''L'' ''20k'', Apart '''' CHR ''N'' ''job'']) @ [''in''])
      getopt_start = (Some ops, []) \<and>
    o_rate_limit ops = 20480 \<and> o_name ops = Some ''job'' \<and> o_argv ops = [''in''] \<and> \<not> o_progress ops"
proof -
  let ?xs = "[Bundle ''fW'', Glued ''q'' CHR ''L'' ''20k'', Apart '''' CHR ''N'' ''job'']"
  have v: "pv_getnum_check (Some ''20k'') PV_NUMTYPE_INTEGER = 0" "pv_getnum_ll (Some ''20k'') = 20480"
    by code_simp+
  obtain ops n where a: "apply_all (concat (map word_opts ?xs)) (opts_new ''pv'') 0 = Some (ops, n)"
    and p: "o_watch_pid ops = 0" "o_rate_limit ops = 20480" "o_name ops = Some ''job''" "n = 1"
      "\<not> o_progress ops"
    by (simp add: check_option_def apply_option_def v flag_opts_def u64_def opts_new_def)
  have "opts_parse (opts_env.make True True True) (''pv'' # concat (map word_args ?xs) @ [''in''])
      getopt_start = (Some ((default_options ops n)\<lparr> o_argv := drop (skipped [''in'']) [''in''] \<rparr>), [])"
    by (rule opts_parse_words [OF _ _ a p(1)])
      (simp_all add: flag_def valued_def known_def takes_arg_def cchar_def ends_options_def
        short_options_def opts_env.defs)
  with p show ?thesis by (simp add: default_options_def skipped_def)
qed

end
