(* ===== verification/PvWatch.thy ===== *)
theory PvWatch
  imports PvLoop PvOptions
begin

text \<open>
  \<open>tools/pv/src/pv/watchpid.c\<close>: what \<open>pv\<close> knows of a file that another process has open, whether
  it is still the same file, how far the process has read it, and the table of all the files of a
  process. The calls that look into \<open>/proc\<close> are the parameter \<open>syswatch\<close>, which extends those of
  the main loop.
\<close>

section \<open>A watched descriptor\<close>

record wstat = stat64 +
  st_mode :: nat

definition S_IWUSR :: nat where "S_IWUSR = 128"
definition FD_SETSIZE :: int where "FD_SETSIZE = 1024"

text \<open>\<open>w_fdpath\<close> is the buffer of 4096 characters; the others are the strings in their buffers.\<close>

record pvwatchfd =
  w_pid :: int
  w_fd :: int
  w_fdinfo :: string
  w_fdfile :: string
  w_fdpath :: string
  w_name :: string
  w_sb_fd :: wstat
  w_sb_link :: wstat
  w_size :: int
  w_position :: int
  w_start :: timeval

record 'w syswatch = "'w sysloop" +
  proc_alive :: "int \<Rightarrow> 'w \<Rightarrow> int option \<times> 'w"
  proc_readlink :: "string \<Rightarrow> 'w \<Rightarrow> (int + string) \<times> 'w"
  proc_stat :: "string \<Rightarrow> 'w \<Rightarrow> (int + wstat) \<times> 'w"
  proc_lstat :: "string \<Rightarrow> 'w \<Rightarrow> (int + wstat) \<times> 'w"
  proc_text :: "string \<Rightarrow> 'w \<Rightarrow> string option \<times> 'w"
  proc_listdir :: "string \<Rightarrow> 'w \<Rightarrow> string list option \<times> 'w"
  proc_malloc :: "'w \<Rightarrow> bool \<times> 'w"
  proc_sleep :: "'w \<Rightarrow> 'w"
  sig_newsize :: "'w \<Rightarrow> bool"
  clear_newsize :: "'w \<Rightarrow> 'w"
  sys_winsize :: "int \<Rightarrow> 'w \<Rightarrow> (int \<times> int) option \<times> 'w"
  last_errno :: "'w \<Rightarrow> int"

text \<open>The string in a buffer, and the buffer after \<open>readlink\<close>, which writes no final zero.\<close>

definition c_string :: "string \<Rightarrow> string" where
  "c_string buf = takeWhile (\<lambda>c. c \<noteq> CHR 0x00) buf"

definition readlink_into :: "string \<Rightarrow> string \<Rightarrow> string" where
  "readlink_into path buf = take 4095 path @ drop (length (take 4095 path)) buf"

definition proc_path :: "int \<Rightarrow> string \<Rightarrow> int \<Rightarrow> string" where
  "proc_path pid what fd = ''/proc/'' @ itoa (u32 pid) @ what @ itoa fd"

text \<open>
  The complaint about a descriptor; \<open>automatic\<close> keeps it back. The parts are joined by a colon and
  a blank.
\<close>

definition fd_complaint :: "bool \<Rightarrow> pvwatchfd \<Rightarrow> string \<Rightarrow> pvstate \<Rightarrow> pvstate" where
  "fd_complaint automatic info what st =
     (if automatic then st
      else pv_error (''pid '' @ itoa (u32 (w_pid info)) @ '': fd '' @ itoa (w_fd info) @ '': '' @ what) st)"

definition pid_complaint :: "bool \<Rightarrow> int \<Rightarrow> string \<Rightarrow> pvstate \<Rightarrow> pvstate" where
  "pid_complaint automatic pid what st =
     (if automatic then st else pv_error (''pid '' @ itoa (u32 pid) @ '': '' @ what) st)"

definition stat_both ::
  "'w syswatch \<Rightarrow> string \<Rightarrow> 'w \<Rightarrow> (int + wstat \<times> wstat) \<times> 'w" where
  "stat_both S path w =
     (case proc_stat S path w of
        (Inl e, w) \<Rightarrow> (Inl e, w)
      | (Inr sb, w) \<Rightarrow> (case proc_lstat S path w of
                         (Inl e, w) \<Rightarrow> (Inl e, w)
                       | (Inr lsb, w) \<Rightarrow> (Inr (sb, lsb), w)))"

text \<open>A block device is as long as its end says.\<close>

definition watched_block :: "'w syswatch \<Rightarrow> string \<Rightarrow> 'w \<Rightarrow> int \<times> 'w" where
  "watched_block S path w =
     (case sys_open_r S path w of
        (Inl e, w) \<Rightarrow> (0, w)
      | (Inr fd, w) \<Rightarrow> (case seek (sysfile.truncate S) fd 0 SEEK_END w of
                         (off, w) \<Rightarrow> (u64 off, snd (sys_close S fd w))))"

definition watched_size ::
  "'w syswatch \<Rightarrow> bool \<Rightarrow> pvstate \<Rightarrow> pvwatchfd \<Rightarrow> 'w \<Rightarrow> int \<times> pvstate \<times> pvwatchfd \<times> 'w" where
  "watched_size S automatic st info w =
     (let info = info\<lparr> w_size := 0 \<rparr>
      in case st_kind (w_sb_fd info) of
           S_BLK \<Rightarrow> (case watched_block S (c_string (w_fdpath info)) w of
                       (n, w) \<Rightarrow> (0, st, info\<lparr> w_size := n \<rparr>, w))
         | S_REG \<Rightarrow> (0, st, (if st_mode (w_sb_link info) AND S_IWUSR = 0
                              then info\<lparr> w_size := st_size (w_sb_fd info) \<rparr> else info), w)
         | S_OTHER \<Rightarrow>
             (4, fd_complaint automatic info
                (c_string (w_fdpath info) @ '': not a regular file or block device'') st, info, w))"

definition pv_watchfd_info ::
  "'w syswatch \<Rightarrow> pvstate \<Rightarrow> pvwatchfd \<Rightarrow> bool \<Rightarrow> 'w \<Rightarrow> int \<times> pvstate \<times> pvwatchfd \<times> 'w" where
  "pv_watchfd_info S st info automatic w =
     (case proc_alive S (w_pid info) w of
        (Some e, w) \<Rightarrow> (1, pid_complaint automatic (w_pid info) (strerror S e) st, info, w)
      | (None, w) \<Rightarrow>
          let info = info\<lparr> w_fdinfo := proc_path (w_pid info) ''/fdinfo/'' (w_fd info),
                           w_fdfile := proc_path (w_pid info) ''/fd/'' (w_fd info) \<rparr>
          in case proc_readlink S (w_fdfile info) w of
               (Inl e, w) \<Rightarrow> (2, fd_complaint automatic info (strerror S e) st, info, w)
             | (Inr path, w) \<Rightarrow>
                 let info = info\<lparr> w_fdpath := readlink_into path (w_fdpath info) \<rparr>
                 in case stat_both S (w_fdfile info) w of
                      (Inl e, w) \<Rightarrow>
                        (3, fd_complaint automatic info (c_string (w_fdpath info) @ '': '' @ strerror S e) st, info, w)
                    | (Inr (sb, lsb), w) \<Rightarrow>
                        watched_size S automatic st (info\<lparr> w_sb_fd := sb, w_sb_link := lsb \<rparr>) w)"

definition pv_watchfd_changed :: "'w syswatch \<Rightarrow> pvwatchfd \<Rightarrow> 'w \<Rightarrow> bool \<times> 'w" where
  "pv_watchfd_changed S info w =
     (case stat_both S (w_fdfile info) w of
        (Inl e, w) \<Rightarrow> (True, w)
      | (Inr (sb, lsb), w) \<Rightarrow>
          (st_dev sb \<noteq> st_dev (w_sb_fd info) \<or> st_ino sb \<noteq> st_ino (w_sb_fd info) \<or>
           st_mode lsb \<noteq> st_mode (w_sb_link info), w))"

text \<open>\<open>fscanf (fptr, "pos: %llu", ...)\<close>: the number is clamped at the largest of 64 bits.\<close>

definition scan_pos :: "string \<Rightarrow> int" where
  "scan_pos s =
     (if take 4 s = ''pos:'' then
        (case scan_integer (drop 4 s) of
           None \<Rightarrow> - 1
         | Some (neg, n, _) \<Rightarrow>
             i64 (if 2 ^ 64 \<le> int n then 2 ^ 64 - 1 else if neg then - int n else int n))
      else - 1)"

definition pv_watchfd_position :: "'w syswatch \<Rightarrow> pvwatchfd \<Rightarrow> 'w \<Rightarrow> int \<times> 'w" where
  "pv_watchfd_position S info w =
     (case pv_watchfd_changed S info w of
        (True, w) \<Rightarrow> (- 1, w)
      | (False, w) \<Rightarrow> (case proc_text S (w_fdinfo info) w of
                         (None, w) \<Rightarrow> (- 1, w)
                       | (Some s, w) \<Rightarrow> (scan_pos s, w)))"

section \<open>The name on the display\<close>

text \<open>
  \<open>%.*s\<close>: a negative precision is no precision. The text starts at a pointer into the buffer,
  beyond its zero when the length of the suffix is negative.
\<close>

definition precision :: "int \<Rightarrow> string \<Rightarrow> string" where
  "precision n s = (if n < 0 then c_string s else take (nat n) (c_string s))"

definition pad4 :: "int \<Rightarrow> string" where
  "pad4 n = replicate (4 - length (itoa n)) CHR '' '' @ itoa n"

definition watch_name :: "int \<Rightarrow> int \<Rightarrow> string \<Rightarrow> string" where
  "watch_name screen fd buf =
     (let path_length = int (length (c_string buf));
          max_display_length = i32 (u32 (screen div 2 - 6))
      in take 510
          (if path_length \<le> max_display_length then pad4 fd @ '':'' @ c_string buf
           else
             let prefix_length = max_display_length sdiv 4;
                 suffix_length = max_display_length - prefix_length - 3
             in pad4 fd @ '':'' @ precision prefix_length buf @ ''...'' @
                precision suffix_length (drop (nat (path_length - suffix_length)) buf)))"

definition pv_watchpid_setname :: "pvstate \<Rightarrow> pvwatchfd \<Rightarrow> pvwatchfd" where
  "pv_watchpid_setname st info = info\<lparr> w_name := watch_name (width st) (w_fd info) (w_fdpath info) \<rparr>"

section \<open>A format without the time of arrival\<close>

text \<open>Every \<open>%e\<close> is cut out of the format, the first one first.\<close>

fun cut_eta :: "string \<Rightarrow> string option" where
  "cut_eta (a # b # s) =
     (if a = CHR ''%'' \<and> b = CHR ''e'' then Some s else map_option (Cons a) (cut_eta (b # s)))"
| "cut_eta s = None"

lemma cut_eta_shorter: "cut_eta s = Some t \<Longrightarrow> length t < length s"
  by (induction s arbitrary: t rule: cut_eta.induct) (auto split: if_splits)

function strip_eta :: "string \<Rightarrow> string" where
  "strip_eta fmt = (case cut_eta fmt of None \<Rightarrow> fmt | Some t \<Rightarrow> strip_eta t)"
  by pat_completeness auto
termination by (relation "measure length") (auto dest: cut_eta_shorter)

declare strip_eta.simps [simp del]

definition without_eta :: "pvstate \<Rightarrow> pvstate" where
  "without_eta st =
     (if total_size st < 1 \<and> cut_eta (default_format st) \<noteq> None
      then st\<lparr> default_format := strip_eta (default_format st), reparse_display := True \<rparr> else st)"

section \<open>The table of a process\<close>

text \<open>
  Two arrays, of the descriptors and of a state for each one's display, with their length, and for
  every descriptor number the index of its slot or -1. The name in a slot's state is a pointer to
  the name in the descriptor's record, so whatever sets the one is seen in the other: \<open>point_name\<close>.
\<close>

record watch_tab =
  t_info :: "pvwatchfd list"
  t_state :: "pvstate list"
  t_len :: nat
  t_idx :: "int list"

definition no_stat :: wstat where
  "no_stat = \<lparr> st_dev = 0, st_ino = 0, st_kind = S_OTHER, st_size = 0, st_blksize = 0, st_mode = 0 \<rparr>"

definition blank_info :: pvwatchfd where
  "blank_info = \<lparr> w_pid = 0, w_fd = 0, w_fdinfo = [], w_fdfile = [], w_fdpath = replicate 4096 (CHR 0x00),
     w_name = [], w_sb_fd = no_stat, w_sb_link = no_stat, w_size = 0, w_position = 0, w_start = (0, 0) \<rparr>"

definition empty_tab :: watch_tab where
  "empty_tab = \<lparr> t_info = [], t_state = [], t_len = 0, t_idx = replicate (nat FD_SETSIZE) (- 1) \<rparr>"

definition point_name :: "pvwatchfd \<Rightarrow> pvstate \<Rightarrow> pvstate" where
  "point_name info st = st\<lparr> pv_name := Some (w_name info) \<rparr>"

definition mark_reparse :: "pvstate \<Rightarrow> pvstate" where
  "mark_reparse st = st\<lparr> reparse_display := True \<rparr>"

definition put_slot :: "nat \<Rightarrow> pvwatchfd \<Rightarrow> pvstate \<Rightarrow> watch_tab \<Rightarrow> watch_tab" where
  "put_slot i info st tab = tab\<lparr> t_info := (t_info tab)[i := info], t_state := (t_state tab)[i := st] \<rparr>"

text \<open>A slot that can be used again has a process number of 0.\<close>

definition free_slot :: "watch_tab \<Rightarrow> nat option" where
  "free_slot tab =
     (let i = length (takeWhile (\<lambda>x. w_pid x \<noteq> 0) (take (t_len tab) (t_info tab)))
      in if i < t_len tab then Some i else None)"

text \<open>Both arrays get one slot more; the second allocation may fail after the first one was made.\<close>

definition grow_arrays :: "'w syswatch \<Rightarrow> pvstate \<Rightarrow> watch_tab \<Rightarrow> 'w \<Rightarrow> bool \<times> watch_tab \<times> 'w" where
  "grow_arrays S pristine tab w =
     (case proc_malloc S w of
        (False, w) \<Rightarrow> (False, tab, w)
      | (True, w) \<Rightarrow>
          let tab = tab\<lparr> t_info := t_info tab @ [blank_info] \<rparr>
          in case proc_malloc S w of
               (False, w) \<Rightarrow> (False, tab, w)
             | (True, w) \<Rightarrow>
                 let sts = t_state tab @ [pristine]
                 in (True, tab\<lparr> t_len := t_len tab + 1,
                       t_state := map2 (\<lambda>i s. mark_reparse (point_name i s)) (t_info tab) sts \<rparr>, w))"

definition slot_for ::
  "'w syswatch \<Rightarrow> pvstate \<Rightarrow> watch_tab \<Rightarrow> 'w \<Rightarrow> nat option \<times> watch_tab \<times> 'w" where
  "slot_for S pristine tab w =
     (case free_slot tab of
        Some i \<Rightarrow> (Some i, tab, w)
      | None \<Rightarrow> (case grow_arrays S pristine tab w of
                   (False, tab, w) \<Rightarrow> (None, tab, w)
                 | (True, tab, w) \<Rightarrow> (Some (t_len tab - 1), tab, w)))"

text \<open>The position when the descriptor is first seen is where its display starts.\<close>

definition first_position ::
  "'w syswatch \<Rightarrow> pvwatchfd \<Rightarrow> pvstate \<Rightarrow> 'w \<Rightarrow> pvwatchfd \<times> pvstate \<times> 'w" where
  "first_position S info s w =
     (case sys_time S w of (now, w) \<Rightarrow>
        let info = info\<lparr> w_start := now, w_position := 0 \<rparr>; s = s\<lparr> initial_offset := 0 \<rparr>
        in case pv_watchfd_position S info w of
             (position_now, w) \<Rightarrow>
               if 0 \<le> position_now
               then (info\<lparr> w_position := position_now \<rparr>, s\<lparr> initial_offset := position_now \<rparr>, w)
               else (info, s, w))"

definition fill_slot ::
  "'w syswatch \<Rightarrow> pvstate \<Rightarrow> pvstate \<Rightarrow> int \<Rightarrow> int \<Rightarrow> nat \<Rightarrow> watch_tab \<Rightarrow> 'w \<Rightarrow> watch_tab \<times> 'w" where
  "fill_slot S st pristine pid fd i tab w =
     (case pv_watchfd_info S st (blank_info\<lparr> w_pid := pid, w_fd := fd \<rparr>) True w of
        (rc, _, info, w) \<Rightarrow>
          if rc \<noteq> 0 \<and> rc \<noteq> 4 then (put_slot i (info\<lparr> w_pid := 0 \<rparr>) pristine tab, w)
          else
            let info = (if rc \<noteq> 0 then info\<lparr> w_fd := - 1 \<rparr> else info);
                s = without_eta (pristine\<lparr> total_size := w_size info \<rparr>);
                info = pv_watchpid_setname st info;
                s = mark_reparse (point_name info s)
            in case first_position S info s w of
                 (info, s, w) \<Rightarrow>
                   ((put_slot i info s tab)\<lparr> t_idx := (t_idx tab)[nat fd := int i] \<rparr>, w))"

text \<open>The numbers among the names of the directory, read with \<open>sscanf (d_name, "%d", ...)\<close>.\<close>

definition entry_fd :: "string \<Rightarrow> int option" where
  "entry_fd d = (case scan_integer d of None \<Rightarrow> None | Some (neg, n, _) \<Rightarrow> Some (scan_d neg n))"

definition wanted_fd :: "watch_tab \<Rightarrow> string \<Rightarrow> int option" where
  "wanted_fd tab d =
     (case entry_fd d of
        None \<Rightarrow> None
      | Some fd \<Rightarrow> if fd < 0 \<or> FD_SETSIZE \<le> fd then None
                   else if t_idx tab ! nat fd \<noteq> - 1 then None else Some fd)"

fun scan_entries ::
  "'w syswatch \<Rightarrow> pvstate \<Rightarrow> pvstate \<Rightarrow> int \<Rightarrow> string list \<Rightarrow> watch_tab \<Rightarrow> 'w \<Rightarrow> int \<times> watch_tab \<times> 'w" where
  "scan_entries S st pristine pid [] tab w = (0, tab, w)"
| "scan_entries S st pristine pid (d # ds) tab w =
     (case wanted_fd tab d of
        None \<Rightarrow> scan_entries S st pristine pid ds tab w
      | Some fd \<Rightarrow>
          (case slot_for S pristine tab w of
             (None, tab, w) \<Rightarrow> (2, tab, w)
           | (Some i, tab, w) \<Rightarrow>
               (case fill_slot S st pristine pid fd i tab w of
                  (tab, w) \<Rightarrow> scan_entries S st pristine pid ds tab w)))"

definition pv_watchpid_scanfds ::
  "'w syswatch \<Rightarrow> pvstate \<Rightarrow> pvstate \<Rightarrow> int \<Rightarrow> watch_tab \<Rightarrow> 'w \<Rightarrow> int \<times> watch_tab \<times> 'w" where
  "pv_watchpid_scanfds S st pristine pid tab w =
     (case proc_listdir S (''/proc/'' @ itoa (u32 pid) @ ''/fd'') w of
        (None, w) \<Rightarrow> (1, tab, w)
      | (Some ds, w) \<Rightarrow> scan_entries S st pristine pid ds tab w)"

section \<open>The table stays in order\<close>

text \<open>
  The arrays have the length recorded; a known descriptor has a slot of its own, which carries the
  process and the descriptor's number or the mark of one that is not displayed; a slot in use
  belongs to some descriptor.
\<close>

definition known_at :: "watch_tab \<Rightarrow> nat \<Rightarrow> nat \<Rightarrow> bool" where
  "known_at tab fd i \<longleftrightarrow> fd < nat FD_SETSIZE \<and> t_idx tab ! fd = int i"

definition tab_ok :: "int \<Rightarrow> watch_tab \<Rightarrow> bool" where
  "tab_ok pid tab \<longleftrightarrow>
     length (t_info tab) = t_len tab \<and> length (t_state tab) = t_len tab \<and>
     length (t_idx tab) = nat FD_SETSIZE \<and>
     (\<forall>fd < nat FD_SETSIZE. t_idx tab ! fd \<noteq> - 1 \<longrightarrow> (\<exists>i. known_at tab fd i)) \<and>
     (\<forall>fd i. known_at tab fd i \<longrightarrow> i < t_len tab \<and> w_pid (t_info tab ! i) = pid \<and>
        w_fd (t_info tab ! i) \<in> {int fd, - 1}) \<and>
     (\<forall>fd fd' i. known_at tab fd i \<longrightarrow> known_at tab fd' i \<longrightarrow> fd = fd') \<and>
     (\<forall>i < t_len tab. w_pid (t_info tab ! i) \<noteq> 0 \<longrightarrow> (\<exists>fd. known_at tab fd i))"

lemma tab_okD:
  assumes "tab_ok pid tab"
  shows "length (t_info tab) = t_len tab" "length (t_state tab) = t_len tab"
    "length (t_idx tab) = nat FD_SETSIZE"
    "\<And>fd. fd < nat FD_SETSIZE \<Longrightarrow> t_idx tab ! fd \<noteq> - 1 \<Longrightarrow> \<exists>i. known_at tab fd i"
    "\<And>fd i. known_at tab fd i \<Longrightarrow> i < t_len tab"
    "\<And>fd i. known_at tab fd i \<Longrightarrow> w_pid (t_info tab ! i) = pid"
    "\<And>fd i. known_at tab fd i \<Longrightarrow> w_fd (t_info tab ! i) \<in> {int fd, - 1}"
    "\<And>fd fd' i. known_at tab fd i \<Longrightarrow> known_at tab fd' i \<Longrightarrow> fd = fd'"
    "\<And>i. i < t_len tab \<Longrightarrow> w_pid (t_info tab ! i) \<noteq> 0 \<Longrightarrow> \<exists>fd. known_at tab fd i"
  using assms unfolding tab_ok_def by blast+

lemma tab_okI:
  assumes "length (t_info tab) = t_len tab" "length (t_state tab) = t_len tab"
    "length (t_idx tab) = nat FD_SETSIZE"
    "\<And>fd. fd < nat FD_SETSIZE \<Longrightarrow> t_idx tab ! fd \<noteq> - 1 \<Longrightarrow> \<exists>i. known_at tab fd i"
    "\<And>fd i. known_at tab fd i \<Longrightarrow>
       i < t_len tab \<and> w_pid (t_info tab ! i) = pid \<and> w_fd (t_info tab ! i) \<in> {int fd, - 1}"
    "\<And>fd fd' i. known_at tab fd i \<Longrightarrow> known_at tab fd' i \<Longrightarrow> fd = fd'"
    "\<And>i. i < t_len tab \<Longrightarrow> w_pid (t_info tab ! i) \<noteq> 0 \<Longrightarrow> \<exists>fd. known_at tab fd i"
  shows "tab_ok pid tab"
  unfolding tab_ok_def using assms by blast

lemma empty_tab_ok: "tab_ok pid empty_tab"
  by (rule tab_okI) (auto simp: empty_tab_def known_at_def)

lemma info_automatic:
  assumes "pv_watchfd_info S st info True w = (rc, st', info', w')"
  shows "st' = st" "w_pid info' = w_pid info" "w_fd info' = w_fd info"
  using assms
  by (auto simp: pv_watchfd_info_def watched_size_def pid_complaint_def fd_complaint_def Let_def
      split: prod.splits option.splits sum.splits file_kind.splits if_splits)

lemma free_slot_Some:
  assumes "free_slot tab = Some i" "length (t_info tab) = t_len tab"
  shows "i < t_len tab" "w_pid (t_info tab ! i) = 0"
proof -
  let ?l = "takeWhile (\<lambda>x. w_pid x \<noteq> 0) (t_info tab)"
  have i: "i = length ?l" "i < length (t_info tab)"
    using assms by (auto simp: free_slot_def Let_def split: if_splits)
  then show "i < t_len tab" "w_pid (t_info tab ! i) = 0"
    using assms(2) nth_length_takeWhile [of "\<lambda>x. w_pid x \<noteq> 0" "t_info tab"] by auto
qed

lemma tab_ok_grow:
  assumes ok: "tab_ok pid tab" and "length infos = Suc (t_len tab)" "length sts = Suc (t_len tab)"
    and "\<And>i. i < t_len tab \<Longrightarrow> infos ! i = t_info tab ! i" "w_pid (infos ! t_len tab) = 0"
  shows "tab_ok pid (tab\<lparr> t_info := infos, t_state := sts, t_len := Suc (t_len tab) \<rparr>)"
    (is "tab_ok pid ?tab")
proof -
  have kn: "known_at ?tab = known_at tab" by (simp add: known_at_def fun_eq_iff)
  note D = tab_okD [OF ok]
  have "\<And>i. i < Suc (t_len tab) \<Longrightarrow> w_pid (infos ! i) \<noteq> 0 \<Longrightarrow> i < t_len tab"
    using assms(5) by (metis less_antisym)
  then have used: "\<And>i. i < Suc (t_len tab) \<Longrightarrow> w_pid (infos ! i) \<noteq> 0 \<Longrightarrow> \<exists>fd. known_at tab fd i"
    using D(9) assms(4) by metis
  have inf: "infos ! i = t_info tab ! i" if "known_at tab fd i" for fd i
    using that D(5) assms(4) by blast
  show ?thesis
    by (rule tab_okI, unfold kn) (use D assms(2,3) used inf in \<open>auto intro: less_SucI\<close>)
qed

lemma slot_for_ok:
  assumes ok: "tab_ok pid tab" and s: "slot_for S pristine tab w = (Some i, tab', w')"
  shows "tab_ok pid tab' \<and> i < t_len tab' \<and> w_pid (t_info tab' ! i) = 0 \<and> t_idx tab' = t_idx tab"
proof (cases "free_slot tab")
  case (Some k)
  with s have "i = k" "tab' = tab" by (auto simp: slot_for_def)
  with free_slot_Some [OF Some] tab_okD(1) [OF ok] ok show ?thesis by simp
next
  case None
  obtain b t2 w2 where g: "grow_arrays S pristine tab w = (b, t2, w2)" by (rule prod_cases3)
  with None s have b: "b" "tab' = t2" "i = t_len t2 - 1" by (auto simp: slot_for_def split: bool.splits)
  let ?infos = "t_info tab @ [blank_info]"
  let ?sts = "map2 (\<lambda>i s. mark_reparse (point_name i s)) ?infos (t_state tab @ [pristine])"
  have t2: "t2 = tab\<lparr> t_info := ?infos, t_state := ?sts, t_len := Suc (t_len tab) \<rparr>"
    using g b(1) by (auto simp: grow_arrays_def Let_def split: prod.splits bool.splits)
  have "tab_ok pid t2"
    unfolding t2 using tab_okD(1,2) [OF ok]
    by (intro tab_ok_grow ok) (auto simp: nth_append blank_info_def)
  then show ?thesis
    using b tab_okD(1) [OF ok] by (simp add: t2 nth_append blank_info_def)
qed

lemma put_unused_ok:
  assumes ok: "tab_ok pid tab" and i: "i < t_len tab" "w_pid (t_info tab ! i) = 0" "w_pid info = 0" "pid \<noteq> 0"
  shows "tab_ok pid (put_slot i info s tab)" (is "tab_ok pid ?tab")
proof -
  have kn: "known_at ?tab = known_at tab" by (simp add: known_at_def put_slot_def fun_eq_iff)
  note D = tab_okD [OF ok]
  have ne: "\<And>fd j. known_at tab fd j \<Longrightarrow> j \<noteq> i" using D(6) i by metis
  have len: "t_len ?tab = t_len tab" "length (t_info ?tab) = t_len tab" "length (t_state ?tab) = t_len tab"
    "t_idx ?tab = t_idx tab" using D(1,2) by (simp_all add: put_slot_def)
  have pid: "w_pid (t_info ?tab ! j) = w_pid (t_info tab ! j)" if "j < t_len tab" for j
    using that i D(1) by (cases "j = i") (simp_all add: put_slot_def)
  have same: "t_info ?tab ! j = t_info tab ! j" if "j \<noteq> i" for j
    using that by (simp add: put_slot_def)
  have same': "t_info ?tab ! j = t_info tab ! j" if "known_at tab fd j" for fd j
    using that ne same by blast
  show ?thesis
    by (rule tab_okI, unfold kn len) (use D pid same' in \<open>auto\<close>)
qed

lemma put_known_ok:
  assumes ok: "tab_ok pid tab" and i: "i < t_len tab" "w_pid (t_info tab ! i) = 0"
    and info: "w_pid info = pid" "w_fd info \<in> {int fd, - 1}" "pid \<noteq> 0"
    and fd: "fd < nat FD_SETSIZE" "t_idx tab ! fd = - 1"
  shows "tab_ok pid ((put_slot i info s tab)\<lparr> t_idx := (t_idx tab)[fd := int i] \<rparr>)" (is "tab_ok pid ?tab")
proof -
  note D = tab_okD [OF ok]
  have kn: "known_at ?tab = (\<lambda>d j. if d = fd then j = i else known_at tab d j)"
    using fd D(3) by (auto simp: known_at_def put_slot_def fun_eq_iff nth_list_update)
  have new: "\<not> known_at tab d i" for d using D(6) [of d i] i info by auto
  have none: "\<not> known_at tab fd j" for j using fd by (simp add: known_at_def)
  have len: "t_len ?tab = t_len tab" "length (t_info ?tab) = t_len tab" "length (t_state ?tab) = t_len tab"
    "length (t_idx ?tab) = nat FD_SETSIZE" using D(1,2,3) by (simp_all add: put_slot_def)
  have inf: "t_info ?tab ! j = (if j = i then info else t_info tab ! j)" if "j < t_len tab" for j
    using i D(1) that by (simp add: put_slot_def nth_list_update)
  have idx: "t_idx ?tab ! d = (if d = fd then int i else t_idx tab ! d)" if "d < nat FD_SETSIZE" for d
    using that fd D(3) by (simp add: nth_list_update)
  have "\<exists>d. (if d = fd then j = i else known_at tab d j)" if "j < t_len tab" "w_pid (t_info ?tab ! j) \<noteq> 0" for j
  proof (cases "j = i")
    case False
    with that inf D(9) obtain d where "known_at tab d j" by auto
    then show ?thesis using none by metis
  qed auto
  moreover have "j < t_len tab \<and> w_pid (t_info ?tab ! j) = pid \<and> w_fd (t_info ?tab ! j) \<in> {int d, - 1}"
    if "if d = fd then j = i else known_at tab d j" for d j
    using that i info inf [of j] D(5,6,7) [of d j] new by (auto split: if_splits)
  moreover have "\<exists>j. (if d = fd then j = i else known_at tab d j)" if "d < nat FD_SETSIZE" "t_idx ?tab ! d \<noteq> - 1" for d
    using that D(4) idx by (cases "d = fd") auto
  moreover have "d = d'" if "if d = fd then j = i else known_at tab d j" "if d' = fd then j = i else known_at tab d' j" for d d' j
    using that new D(8) by (metis (full_types))
  ultimately show ?thesis
    by (intro tab_okI) (unfold kn len, blast+)
qed

lemma first_position_keeps:
  assumes "first_position S info s w = (info', s', w')"
  shows "w_pid info' = w_pid info" "w_fd info' = w_fd info"
  using assms by (auto simp: first_position_def Let_def split: prod.splits if_splits)

text \<open>A new descriptor: either its slot stays free, or it is known from now on.\<close>

lemma fill_slot_ok:
  assumes ok: "tab_ok pid tab" "pid \<noteq> 0" and i: "i < t_len tab" "w_pid (t_info tab ! i) = 0"
    and fd: "0 \<le> fd" "fd < FD_SETSIZE" "t_idx tab ! nat fd = - 1"
    and info: "pv_watchfd_info S st (blank_info\<lparr> w_pid := pid, w_fd := fd \<rparr>) True w = (rc, st1, info, w1)"
    and f: "fill_slot S st pristine pid fd i tab w = (tab', w')"
  shows "tab_ok pid tab' \<and>
    t_idx tab' = (if rc = 0 \<or> rc = 4 then (t_idx tab)[nat fd := int i] else t_idx tab)"
proof (cases "rc = 0 \<or> rc = 4")
  case False
  then have "tab' = put_slot i (info\<lparr> w_pid := 0 \<rparr>) pristine tab"
    using f info by (simp add: fill_slot_def)
  then show ?thesis
    using False put_unused_ok [OF ok(1) i] ok(2) by (simp add: put_slot_def)
next
  case True
  have keep: "w_pid info = pid" "w_fd info = fd"
    using info_automatic(2,3) [OF info] by simp_all
  let ?info = "pv_watchpid_setname st (if rc \<noteq> 0 then info\<lparr> w_fd := - 1 \<rparr> else info)"
  let ?s = "mark_reparse (point_name ?info (without_eta (pristine\<lparr> total_size := w_size info \<rparr>)))"
  obtain i2 s2 w2 where p: "first_position S ?info ?s w1 = (i2, s2, w2)" by (rule prod_cases3)
  have t: "tab' = (put_slot i i2 s2 tab)\<lparr> t_idx := (t_idx tab)[nat fd := int i] \<rparr>"
    using f info p True by (auto simp: fill_slot_def Let_def)
  have "w_pid i2 = pid" "w_fd i2 \<in> {int (nat fd), - 1}"
    using first_position_keeps [OF p] keep fd(1) by (auto simp: pv_watchpid_setname_def)
  then have "tab_ok pid tab'"
    unfolding t using ok i fd by (intro put_known_ok) (simp_all add: FD_SETSIZE_def)
  with t True show ?thesis by simp
qed

lemma wanted_fdD:
  assumes "wanted_fd tab d = Some fd"
  shows "entry_fd d = Some fd" "0 \<le> fd" "fd < FD_SETSIZE" "t_idx tab ! nat fd = - 1"
  using assms by (auto simp: wanted_fd_def split: option.splits if_splits)

lemma scan_entries_ok:
  "tab_ok pid tab \<Longrightarrow> pid \<noteq> 0 \<Longrightarrow> scan_entries S st pristine pid ds tab w = (0, tab', w') \<Longrightarrow> tab_ok pid tab'"
proof (induction ds arbitrary: tab w)
  case (Cons d ds)
  show ?case
  proof (cases "wanted_fd tab d")
    case None
    with Cons show ?thesis by simp
  next
    case (Some fd)
    obtain r t1 w1 where s: "slot_for S pristine tab w = (r, t1, w1)" by (rule prod_cases3)
    with Cons.prems(3) Some obtain i where r: "r = Some i" by (cases r) auto
    note k = slot_for_ok [OF Cons.prems(1) s [unfolded r]]
    obtain rc st1 info w2 where info:
      "pv_watchfd_info S st (blank_info\<lparr> w_pid := pid, w_fd := fd \<rparr>) True w1 = (rc, st1, info, w2)"
      by (rule prod_cases4)
    obtain t3 w3 where f: "fill_slot S st pristine pid fd i t1 w1 = (t3, w3)" by (rule prod.exhaust)
    have "tab_ok pid t3"
      using fill_slot_ok [OF _ Cons.prems(2) _ _ _ _ _ info f] k wanted_fdD [OF Some] by auto
    with Cons.IH Cons.prems s r f Some show ?thesis by simp
  qed
qed simp

section \<open>The whole directory is in the table\<close>

text \<open>
  A process whose descriptors do not change: the links and their status, whatever else happens.
  \<open>verdict\<close> is what \<open>pv_watchfd_info\<close> then says of a descriptor.
\<close>

definition steady_proc ::
  "'w syswatch \<Rightarrow> (string \<Rightarrow> int + string) \<Rightarrow> (string \<Rightarrow> int + wstat) \<Rightarrow> (string \<Rightarrow> int + wstat) \<Rightarrow> bool" where
  "steady_proc S links stats lstats \<longleftrightarrow>
     (\<forall>pid w. fst (proc_alive S pid w) = None) \<and> (\<forall>path w. fst (proc_readlink S path w) = links path) \<and>
     (\<forall>path w. fst (proc_stat S path w) = stats path) \<and> (\<forall>path w. fst (proc_lstat S path w) = lstats path) \<and>
     (\<forall>w. fst (proc_malloc S w))"

definition verdict ::
  "(string \<Rightarrow> int + string) \<Rightarrow> (string \<Rightarrow> int + wstat) \<Rightarrow> (string \<Rightarrow> int + wstat) \<Rightarrow> string \<Rightarrow> int" where
  "verdict links stats lstats path =
     (if isl (links path) then 2
      else if isl (stats path) \<or> isl (lstats path) then 3
      else if st_kind (projr (stats path)) = S_OTHER then 4 else 0)"

lemma info_verdict:
  assumes "steady_proc S links stats lstats"
  shows "fst (pv_watchfd_info S st info automatic w) =
    verdict links stats lstats (proc_path (w_pid info) ''/fd/'' (w_fd info))"
proof -
  let ?p = "proc_path (w_pid info) ''/fd/'' (w_fd info)"
  have a: "fst (proc_alive S (w_pid info) w) = None" for w using assms by (simp add: steady_proc_def)
  have l: "fst (proc_readlink S ?p w) = links ?p" for w using assms by (simp add: steady_proc_def)
  have s: "fst (proc_stat S ?p w) = stats ?p" for w using assms by (simp add: steady_proc_def)
  have b: "fst (proc_lstat S ?p w) = lstats ?p" for w using assms by (simp add: steady_proc_def)
  have sb: "fst (stat_both S ?p w) =
    (case stats ?p of Inl e \<Rightarrow> Inl e | Inr x \<Rightarrow> (case lstats ?p of Inl e \<Rightarrow> Inl e | Inr y \<Rightarrow> Inr (x, y)))" for w
  proof -
    obtain w1 where 1: "proc_stat S ?p w = (stats ?p, w1)" using s [of w] by (metis prod.collapse)
    obtain w2 where 2: "proc_lstat S ?p w1 = (lstats ?p, w2)" using b [of w1] by (metis prod.collapse)
    show ?thesis by (simp add: stat_both_def 1 2 split: sum.split)
  qed
  obtain w1 where 1: "proc_alive S (w_pid info) w = (None, w1)" using a [of w] by (metis prod.collapse)
  obtain w2 where 2: "proc_readlink S ?p w1 = (links ?p, w2)" using l [of w1] by (metis prod.collapse)
  obtain r w3 where 3: "stat_both S ?p w2 = (r, w3)" by (rule prod.exhaust)
  with sb [of w2] have r: "r = (case stats ?p of Inl e \<Rightarrow> Inl e | Inr x \<Rightarrow> (case lstats ?p of Inl e \<Rightarrow> Inl e | Inr y \<Rightarrow> Inr (x, y)))"
    by simp
  show ?thesis
  proof (cases "links ?p")
    case (Inl e)
    then show ?thesis by (simp add: pv_watchfd_info_def Let_def 1 2 verdict_def)
  next
    case (Inr path)
    then show ?thesis
      using 3 r
      by (cases "stats ?p"; cases "lstats ?p")
        (auto simp: pv_watchfd_info_def Let_def 1 2 verdict_def watched_size_def
          split: file_kind.split prod.split)
  qed
qed

lemma steady_slot:
  assumes "steady_proc S links stats lstats"
  shows "\<exists>i tab' w'. slot_for S pristine tab w = (Some i, tab', w')"
proof -
  have m: "\<exists>w'. proc_malloc S w = (True, w')" for w
    using assms unfolding steady_proc_def by (metis prod.collapse)
  obtain w1 where "proc_malloc S w = (True, w1)" using m by blast
  moreover obtain w2 where "proc_malloc S w1 = (True, w2)" using m by blast
  ultimately show ?thesis by (auto simp: slot_for_def grow_arrays_def Let_def split: option.split)
qed

definition readable_fd ::
  "(string \<Rightarrow> int + string) \<Rightarrow> (string \<Rightarrow> int + wstat) \<Rightarrow> (string \<Rightarrow> int + wstat) \<Rightarrow> int \<Rightarrow> nat \<Rightarrow> bool" where
  "readable_fd links stats lstats pid fd \<longleftrightarrow>
     verdict links stats lstats (proc_path pid ''/fd/'' (int fd)) \<in> {0, 4}"

lemma scan_entries_all:
  assumes steady: "steady_proc S links stats lstats" and pid: "pid \<noteq> 0"
  shows "tab_ok pid tab \<Longrightarrow> \<exists>tab' w'. scan_entries S st pristine pid ds tab w = (0, tab', w') \<and>
    (\<forall>fd < nat FD_SETSIZE. t_idx tab' ! fd \<noteq> - 1 \<longleftrightarrow> t_idx tab ! fd \<noteq> - 1 \<or>
       (int fd) \<in> {n. \<exists>d \<in> set ds. entry_fd d = Some n} \<and> readable_fd links stats lstats pid fd)"
proof (induction ds arbitrary: tab w)
  case (Cons d ds)
  show ?case
  proof (cases "wanted_fd tab d")
    case None
    then have no: "entry_fd d = Some n \<Longrightarrow> 0 \<le> n \<Longrightarrow> n < FD_SETSIZE \<Longrightarrow> t_idx tab ! nat n \<noteq> - 1" for n
      by (auto simp: wanted_fd_def split: if_splits)
    obtain tab' w' where r: "scan_entries S st pristine pid ds tab w = (0, tab', w')"
      "\<forall>fd < nat FD_SETSIZE. t_idx tab' ! fd \<noteq> - 1 \<longleftrightarrow> t_idx tab ! fd \<noteq> - 1 \<or>
         (int fd) \<in> {n. \<exists>d \<in> set ds. entry_fd d = Some n} \<and> readable_fd links stats lstats pid fd"
      using Cons.IH [OF Cons.prems] by blast
    have "entry_fd d = Some (int fd) \<Longrightarrow> fd < nat FD_SETSIZE \<Longrightarrow> t_idx tab ! fd \<noteq> - 1" for fd
      using no [of "int fd"] by (simp add: FD_SETSIZE_def)
    with r None show ?thesis by (intro exI [of _ tab'] exI [of _ w']) auto
  next
    case (Some fd)
    note fd = wanted_fdD [OF Some]
    obtain i t1 w1 where s: "slot_for S pristine tab w = (Some i, t1, w1)"
      using steady_slot [OF steady] by blast
    note k = slot_for_ok [OF Cons.prems s]
    obtain rc st1 info w2 where info:
      "pv_watchfd_info S st (blank_info\<lparr> w_pid := pid, w_fd := fd \<rparr>) True w1 = (rc, st1, info, w2)"
      by (rule prod_cases4)
    obtain t3 w3 where f: "fill_slot S st pristine pid fd i t1 w1 = (t3, w3)" by (rule prod.exhaust)
    have t3: "tab_ok pid t3"
      "t_idx t3 = (if rc = 0 \<or> rc = 4 then (t_idx tab)[nat fd := int i] else t_idx tab)"
      using fill_slot_ok [OF _ pid _ _ _ _ _ info f] k fd by auto
    have rc: "rc = 0 \<or> rc = 4 \<longleftrightarrow> readable_fd links stats lstats pid (nat fd)"
      using info_verdict [OF steady, of st "blank_info\<lparr> w_pid := pid, w_fd := fd \<rparr>" True w1] info fd(2)
      by (simp add: readable_fd_def)
    have len: "nat fd < length (t_idx tab)" using fd(3) tab_okD(3) [OF Cons.prems] by (simp add: FD_SETSIZE_def)
    have step: "t_idx t3 ! n \<noteq> - 1 \<longleftrightarrow> t_idx tab ! n \<noteq> - 1 \<or> int n = fd \<and> readable_fd links stats lstats pid n" for n
      using t3(2) rc fd(2,4) len by (auto simp: nth_list_update)
    obtain tab' w' where r: "scan_entries S st pristine pid ds t3 w3 = (0, tab', w')"
      "\<forall>fd < nat FD_SETSIZE. t_idx tab' ! fd \<noteq> - 1 \<longleftrightarrow> t_idx t3 ! fd \<noteq> - 1 \<or>
         (int fd) \<in> {n. \<exists>d \<in> set ds. entry_fd d = Some n} \<and> readable_fd links stats lstats pid fd"
      using Cons.IH [OF t3(1)] by blast
    have "scan_entries S st pristine pid (d # ds) tab w = (0, tab', w')"
      using Some s f r(1) by simp
    moreover have "{n. \<exists>x \<in> set (d # ds). entry_fd x = Some n} = insert fd {n. \<exists>x \<in> set ds. entry_fd x = Some n}"
      using fd(1) by auto
    ultimately show ?thesis using r(2) step by (intro exI [of _ tab'] exI [of _ w']) auto
  qed
qed simp

section \<open>The bounds of the name\<close>

lemma precision_bound: "0 \<le> n \<Longrightarrow> int (length (precision n s)) \<le> n"
  by (simp add: precision_def)

lemma itoa_small: "0 \<le> fd \<Longrightarrow> fd < 10000 \<Longrightarrow> length (itoa fd) \<le> 4"
proof -
  assume fd: "0 \<le> fd" "fd < 10000"
  have "length (natoa n) \<le> 4" if "n < 10000" for n
  proof -
    have 1: "length (natoa n) = 1" if "n < 10" for n using that by (subst natoa.simps) simp
    have 2: "length (natoa n) \<le> 2" if "n < 100" for n
      using 1 [of "n div 10"] 1 [of n] that by (subst natoa.simps) auto
    have 3: "length (natoa n) \<le> 3" if "n < 1000" for n
      using 2 [of "n div 10"] that by (subst natoa.simps) auto
    show ?thesis using 3 [of "n div 10"] that by (subst natoa.simps) auto
  qed
  with fd show ?thesis by (simp add: itoa_def)
qed

lemma pad4_length: "0 \<le> fd \<Longrightarrow> fd < 10000 \<Longrightarrow> length (pad4 fd) = 4"
  using itoa_small [of fd] by (simp add: pad4_def)

text \<open>
  The name of a descriptor takes less than half of the screen: the number, and as much of the start
  and of the end of the path as there is room for.
\<close>

theorem watch_name_fits:
  assumes "18 \<le> screen" "screen \<le> 999999" "0 \<le> fd" "fd < 10000"
  shows "int (length (watch_name screen fd buf)) < screen div 2"
proof -
  let ?m = "screen div 2 - 6"
  have m: "i32 (u32 ?m) = ?m" "3 \<le> ?m" using assms by (simp_all add: i32_def u32_def)
  have d: "?m sdiv 4 = ?m div 4" using m(2) by (simp add: signed_divide_int_def sgn_if)
  have "length (watch_name screen fd buf) \<le> 5 + nat ?m"
  proof (cases "int (length (c_string buf)) \<le> ?m")
    case True
    then show ?thesis using m pad4_length [OF assms(3,4)] by (simp add: watch_name_def)
  next
    case False
    let ?p = "?m div 4" let ?s = "?m - ?p - 3"
    have b: "0 \<le> ?p" "0 \<le> ?s" using m(2) by simp_all
    have "length (watch_name screen fd buf) \<le>
        5 + (length (precision ?p buf) + (3 + length (precision ?s (drop (nat (int (length (c_string buf)) - ?s)) buf))))"
      unfolding watch_name_def Let_def m(1) d using False pad4_length [OF assms(3,4)] by (simp add: min_def) linarith
    with precision_bound [OF b(1), of buf]
      precision_bound [OF b(2), of "drop (nat (int (length (c_string buf)) - ?s)) buf"]
    show ?thesis by linarith
  qed
  then show ?thesis using m(2) by linarith
qed

theorem watch_name_fits_witness: "int (length (watch_name 80 3 (''/tmp/'' @ replicate 90 (CHR ''x'')))) < 80 div 2"
  by (rule watch_name_fits) simp_all

text \<open>
  A narrow screen: the length of the suffix is negative and its start lies behind the path's end;
  below a width of 4 the length of the prefix is negative too, which \<open>printf\<close> takes for no limit,
  and the name is as long as the path.
\<close>

lemma c_string_zeros: "CHR 0x00 \<notin> set path \<Longrightarrow> c_string (path @ replicate k (CHR 0x00)) = path"
  unfolding c_string_def by (subst takeWhile_append2, force) (cases k; simp)

lemma watch_name_unlimited:
  assumes "CHR 0x00 \<notin> set path" "length path < 500"
  shows "watch_name 2 3 (path @ replicate k (CHR 0x00)) = ''   3:'' @ path @ ''...''"
proof -
  have m: "i32 (u32 (- 5)) = - 5" by (simp add: i32_def u32_def)
  have d: "(- 5 :: int) sdiv 4 = - 1" by (simp add: signed_divide_int_def)
  have p: "pad4 3 = ''   3''" by code_simp
  have s: "c_string (drop (nat (int (length path) + 7)) (path @ replicate k (CHR 0x00))) = []"
    using c_string_zeros [of "[]" "k - 7"] by (simp add: nat_add_distrib)
  show ?thesis
    using assms(2) s c_string_zeros [OF assms(1), of k]
    by (simp add: watch_name_def m d p precision_def Let_def)
qed

text \<open>
  The buffer that \<open>pv_watchfd_loop\<close> passes lies on the stack, and \<open>readlink\<close> writes no zero: what
  was in it stands behind the path.
\<close>

lemma readlink_keeps_garbage:
  assumes "CHR 0x00 \<notin> set path" "CHR 0x00 \<notin> set garbage" "length path < 4096" "length old = length path"
  shows "c_string (readlink_into path (old @ garbage @ [CHR 0x00])) = path @ garbage"
proof -
  have "takeWhile (\<lambda>c. c \<noteq> CHR 0x00) (path @ garbage @ [CHR 0x00]) = path @ garbage"
    using assms(1,2) by (subst takeWhile_append2, force, subst takeWhile_append2, force, simp)
  then show ?thesis using assms(3,4) by (simp add: c_string_def readlink_into_def)
qed

lemma readlink_clean:
  assumes "CHR 0x00 \<notin> set path" "length path < 4096"
  shows "c_string (readlink_into path (replicate 4096 (CHR 0x00))) = path"
proof -
  have "replicate (4096 - length path) (CHR 0x00) = CHR 0x00 # replicate (4095 - length path) (CHR 0x00)"
    using assms(2) by (simp add: Suc_diff_le flip: replicate_Suc)
  moreover have "takeWhile (\<lambda>c. c \<noteq> CHR 0x00) (path @ CHR 0x00 # xs) = path" for xs
    using assms(1) by (subst takeWhile_append2, force, simp)
  ultimately show ?thesis using assms(2) by (simp add: c_string_def readlink_into_def drop_replicate)
qed

end
