(* ===== verification/PvCopy.thy ===== *)
theory PvCopy
  imports PvLoop
begin

text \<open>
  What \<open>pv_main_loop\<close> promises: when it returns 0, the output has received the contents of the
  input files, one after the other, whatever the display, the timing and the sizes of the single
  reads and writes.
\<close>

section \<open>What a round leaves alone\<close>

text \<open>
  The list of files and the \<open>-S\<close> flag stay; an exit status that says failure keeps saying it, and
  a negative count of written bytes comes with such an exit status.
\<close>

definition failed :: "pvstate \<Rightarrow> bool" where
  "failed st \<longleftrightarrow> exit_status st \<noteq> 0"

definition frame :: "pvstate \<Rightarrow> pvstate \<Rightarrow> bool" where
  "frame st st' \<longleftrightarrow> input_files st' = input_files st \<and> stop_at_size st' = stop_at_size st \<and>
     (failed st \<longrightarrow> failed st') \<and> (0 \<le> written st \<or> failed st \<longrightarrow> 0 \<le> written st' \<or> failed st')"

lemma frame_refl [simp]: "frame st st"
  by (simp add: frame_def)

lemma frame_trans [trans]: "frame a b \<Longrightarrow> frame b c \<Longrightarrow> frame a c"
  by (auto simp: frame_def)

lemma failed_set_exit [simp]: "failed (set_exit n st) \<longleftrightarrow> failed st \<or> n \<noteq> 0"
  by (simp add: failed_def set_exit_def or_eq_0_iff)

lemma set_exit_other [simp]:
  "input_files (set_exit n st) = input_files st" "stop_at_size (set_exit n st) = stop_at_size st"
  "written (set_exit n st) = written st"
  by (simp_all add: set_exit_def)

lemma frame_set_exit [simp]: "frame st st' \<Longrightarrow> frame st (set_exit n st')"
  by (auto simp: frame_def)

lemma failed_pv_error [simp]: "failed (pv_error m st) = failed st"
  by (simp add: failed_def pv_error_def)

lemma frame_update [simp]:
  "frame st (pv_error m st') = frame st st'"
  "frame st (st'\<lparr> current_file := x1 \<rparr>) = frame st st'"
  "frame st (st'\<lparr> last_read_skip_fd := x2 \<rparr>) = frame st st'"
  "frame st (st'\<lparr> read_errors_in_a_row := x3 \<rparr>) = frame st st'"
  "frame st (st'\<lparr> read_error_warning_shown := x4 \<rparr>) = frame st st'"
  "frame st (st'\<lparr> read_position := x5 \<rparr>) = frame st st'"
  "frame st (st'\<lparr> write_position := x6 \<rparr>) = frame st st'"
  "frame st (st'\<lparr> to_write := x7 \<rparr>) = frame st st'"
  "frame st (st'\<lparr> splice_used := x8 \<rparr>) = frame st st'"
  "frame st (st'\<lparr> splice_failed_fd := x9 \<rparr>) = frame st st'"
  "frame st (st'\<lparr> transfer_buffer := x10 \<rparr>) = frame st st'"
  "frame st (st'\<lparr> buffer_size := x11 \<rparr>) = frame st st'"
  "frame st (st'\<lparr> target_buffer_size := x12 \<rparr>) = frame st st'"
  "frame st (st'\<lparr> lastoutput_buffer := x13 \<rparr>) = frame st st'"
  by (simp_all add: frame_def failed_def pv_error_def)

lemma frame_store_at [simp]: "frame st (store_at n d st') = frame st st'"
  by (simp add: store_at_def)

lemma frame_written: "frame st st' \<Longrightarrow> 0 \<le> n \<Longrightarrow> frame st (st'\<lparr> written := n \<rparr>)"
  by (simp add: frame_def failed_def)

lemma frame_written_failed: "frame st st' \<Longrightarrow> failed st' \<Longrightarrow> frame st (st'\<lparr> written := n \<rparr>)"
  by (simp add: frame_def failed_def)

lemma frame_splice: "try_splice S st fd a n w = (r, st', w') \<Longrightarrow> frame st st'"
  by (auto simp: try_splice_def Let_def frame_written split: prod.splits sum.splits if_splits)

lemma frame_skip:
  assumes run: "skip_error S st fd eof n e w = (ok, st', eof', w')"
  shows "frame st st'"
proof -
  define st1 where "st1 = (if \<not> read_error_warning_shown st
      then (pv_error (current_file st @ '': warning: read errors detected: '' @ strerror S e) st)
             \<lparr> read_error_warning_shown := True \<rparr> else st)"
  have f1: "frame st st1" by (simp add: st1_def)
  obtain r0 w0 where r0: "sys_lseek S fd 0 SEEK_CUR w = (r0, w0)" by (rule prod.exhaust)
  show ?thesis
  proof (cases r0)
    case (Inl e0)
    with run r0 f1 show ?thesis by (auto simp: skip_error_def Let_def st1_def [symmetric])
  next
    case (Inr orig)
    define a where "a = (if skip_amount (read_errors_in_a_row st1) orig > int n then int n
        else skip_amount (read_errors_in_a_row st1) orig)"
    obtain r w2 where r: "(case sys_lseek S fd (orig + a) SEEK_SET w0 of
          (Inl e, w) \<Rightarrow> sys_lseek S fd (orig + 1) SEEK_SET w
        | (Inr off, w) \<Rightarrow> (Inr off, w)) = (r, w2)" by (rule prod.exhaust)
    from run r0 Inr r f1 show ?thesis
      by (cases r)
        (auto simp: skip_error_def Let_def st1_def [symmetric] a_def [symmetric] split: if_splits)
  qed
qed

lemma frame_read:
  assumes "pv__transfer_read S st fd eof a w = (ok, st', eof', w')"
  shows "frame st st'"
proof -
  let ?n = "usub64 (buffer_size st) (read_position st)"
  obtain o' st1 w1 where s: "try_splice S st fd a ?n w = (o', st1, w1)" by (metis prod.exhaust)
  note f1 = frame_splice [OF s]
  obtain nread q where b: "(case o' of Some r \<Rightarrow> (r, st1, w1)
      | None \<Rightarrow> (case pv__transfer_read_repeated S fd ?n w1 of
          ((d, err), w) \<Rightarrow> (case err of Some e \<Rightarrow> Inl e | None \<Rightarrow> Inr (length d),
             store_at (read_position st1) d st1, w))) = (nread, q)" by (rule prod.exhaust)
  obtain st2 w2 where q: "q = (st2, w2)" by (rule prod.exhaust)
  note b = b [unfolded q]
  then have f2: "frame st st2"
    using f1 by (auto split: option.splits prod.splits)
  have "(case nread of Inr n \<Rightarrow>
           if n = 0 then (1, st2, end_of_input st2 eof, w2)
           else
             let st = st2\<lparr> read_errors_in_a_row := 0 \<rparr>;
                 st = (if \<not> splice_used st then st\<lparr> read_position := read_position st + n \<rparr> else st)
             in (1, st, eof, w2)
       | Inl e \<Rightarrow>
           if e = EINTR \<or> e = EAGAIN then (case sys_select S [] [] 10000 w2 of (_, w) \<Rightarrow> (0, st2, eof, w))
           else
             let st = set_exit 16 st2;
                 st = st\<lparr> read_errors_in_a_row := read_errors_in_a_row st + 1 \<rparr>
             in if skip_errors st = 0 then
                  let st = pv_error (current_file st @ '': read failed: '' @ strerror S e) st
                  in (1, st, end_of_input st eof, w2)
                else skip_error S st fd eof ?n e w2) = (ok, st', eof', w')"
    using assms s b by (auto simp: pv__transfer_read_def Let_def split: option.splits prod.splits)
  then show ?thesis
    using f2 by (auto simp: Let_def split: sum.splits if_splits prod.splits
        dest!: frame_skip elim!: frame_trans [rotated])
qed

lemma frame_lastoutput [simp]: "frame st (update_lastoutput n st') = frame st st'"
  by (simp add: update_lastoutput_def Let_def)

lemma frame_add_written:
  "frame st (st\<lparr> write_position := p, written := written st + int n \<rparr>)"
  by (auto simp: frame_def failed_def)

lemma frame_write: "pv__transfer_write S st eof lw w = (ok, st', eof', lw', w') \<Longrightarrow> frame st st'"
  by (auto simp: pv__transfer_write_def Let_def frame_written_failed frame_add_written
      split: prod.splits sum.splits if_splits)

lemma frame_trim [simp]: "frame st (trim_to_line st') = frame st st'"
  by (simp add: trim_to_line_def Let_def)

lemma frame_rotate [simp]: "frame st (rotate_buffer st') = frame st st'"
  by (simp add: rotate_buffer_def)

lemma frame_to_write [simp]: "frame st (set_to_write a st') = frame st st'"
  by (simp add: set_to_write_def Let_def)


lemma frame_ready:
  assumes run: "transfer_ready S st fd eof a lw cr cw w = (r, st', eof', lw', w')"
  shows "frame (st\<lparr> written := 0 \<rparr>) st'" "r < 0 \<Longrightarrow> failed st'"
proof -
  let ?st0 = "st\<lparr> written := 0 \<rparr>"
  obtain ok st1 eof1 w1 where rd: "(if cr then pv__transfer_read S ?st0 fd eof a w
      else (1, ?st0, eof, w)) = (ok, st1, eof1, w1)" by (metis prod.exhaust)
  have f1: "frame ?st0 st1"
    using rd frame_read by (cases cr) auto
  let ?c = "cw \<and> \<not> splice_used (trim_to_line st1) \<and>
      read_position (trim_to_line st1) > write_position (trim_to_line st1) \<and> to_write (trim_to_line st1) > 0"
  obtain ok2 st2 eof2 lw2 w2 where wr: "(if ?c then pv__transfer_write S (trim_to_line st1) eof1 lw w1
      else (1, trim_to_line st1, eof1, lw, w1)) = (ok2, st2, eof2, lw2, w2)" by (metis prod.exhaust)
  have "frame (trim_to_line st1) st2"
    using wr frame_write by (cases ?c) auto
  moreover have "frame ?st0 (trim_to_line st1)" using f1 by simp
  ultimately have f2: "frame ?st0 st2" by (metis frame_trans)
  have "st' = st1 \<and> r = 0 \<or> st' = st2 \<and> r = 0 \<or> st' = rotate_buffer st2 \<and> r = written st'"
    using run rd wr by (auto simp: transfer_ready_def Let_def split: if_splits)
  with f1 f2 have f: "frame ?st0 st'" and r: "r = 0 \<or> r = written st'" by auto
  show "frame ?st0 st'" by (rule f)
  show "r < 0 \<Longrightarrow> failed st'" using f r by (auto simp: frame_def)
qed

text \<open>A round that returns a negative number has noted a failure.\<close>

definition settled :: "pvstate \<Rightarrow> pvstate \<Rightarrow> bool" where
  "settled st st' \<longleftrightarrow> input_files st' = input_files st \<and> stop_at_size st' = stop_at_size st \<and>
     (failed st \<longrightarrow> failed st')"

lemma frame_settled: "frame st st' \<Longrightarrow> settled st st'"
  by (simp add: frame_def settled_def)

lemma settled_trans: "settled a b \<Longrightarrow> settled b c \<Longrightarrow> settled a c"
  by (simp add: settled_def)

lemma settled_written: "settled (st\<lparr> written := n \<rparr>) st' = settled st st'"
  by (simp add: settled_def failed_def)

lemma pv_transfer_settled:
  assumes run: "pv_transfer S st fd eof a lw w = (r, st', eof', lw', w')"
  shows "settled st st'" "r < 0 \<Longrightarrow> failed st'"
proof -
  define st0 where "st0 = (if fd \<noteq> last_read_skip_fd st
      then st\<lparr> last_read_skip_fd := fd, read_errors_in_a_row := 0, read_error_warning_shown := False \<rparr> else st)"
  have f0: "frame st st0" by (simp add: st0_def)
  obtain ok st1 w1 where al: "alloc_buffer S st0 w = (ok, st1, w1)" by (metis prod.exhaust)
  have f1: "frame st st1" and nok: "\<not> ok \<Longrightarrow> failed st1"
    using al f0 by (auto simp: alloc_buffer_def Let_def split: option.splits prod.splits)
  obtain st2 w2 where g: "grow_buffer S st1 w1 = (st2, w2)" by (rule prod.exhaust)
  have f2: "frame st st2"
    using g f1 by (auto simp: grow_buffer_def split: option.splits prod.splits if_splits)
  let ?lw = "if linemode st2 then map_option (\<lambda>_. 0) lw else lw"
  let ?rfds = "if \<not> eof_in eof \<and> read_position st2 < buffer_size st2 then [fd] else []"
  let ?st3 = "set_to_write a st2"
  let ?wfds = "if \<not> eof_out eof \<and> to_write ?st3 > 0 then [STDOUT_FILENO] else []"
  obtain q w3 where q: "sys_select S ?rfds ?wfds 90000 w2 = (q, w3)" by (rule prod.exhaust)
  have f3: "frame st ?st3" using f2 by simp
  consider (quit) "\<not> ok" "st' = st1"
    | (still) "st' = st2" "r = 0"
    | (error) e where "q = Inl e" "st' = ?st3 \<and> r = 0 \<or> failed st' \<and> frame st st'"
    | (go) rs ws where "q = Inr (rs, ws)" "transfer_ready S ?st3 fd eof a ?lw (fd \<in> set rs) (STDOUT_FILENO \<in> set ws) w3 =
            (r, st', eof', lw', w')"
  proof (cases ok)
    case False
    with run al that(1) show ?thesis by (simp add: pv_transfer_def Let_def st0_def [symmetric])
  next
    case True
    show ?thesis
    proof (cases "eof_in eof \<and> eof_out eof")
      case done': True
      with run al g True that(2) show ?thesis by (simp add: pv_transfer_def Let_def st0_def [symmetric])
    next
      case False
      with run al g q True that(3,4) f3 show ?thesis
        by (cases q) (auto simp: pv_transfer_def Let_def st0_def [symmetric] split: if_splits prod.splits)
    qed
  qed
  then have "settled st st' \<and> (r < 0 \<longrightarrow> failed st')"
  proof cases
    case quit with f1 nok show ?thesis by (simp add: frame_settled)
  next
    case still with f2 show ?thesis by (simp add: frame_settled)
  next
    case error with f3 show ?thesis by (auto simp: frame_settled)
  next
    case go
    from frame_ready [OF go(2)] frame_settled [OF f3] show ?thesis
      by (auto simp: settled_written dest!: frame_settled intro: settled_trans)
  qed
  then show "settled st st'" "r < 0 \<Longrightarrow> failed st'" by blast+
qed


section \<open>The world of the main loop\<close>

text \<open>
  What the loop relies on, seen through \<open>inp fd\<close>, what is left to read from a descriptor, \<open>out\<close>,
  what standard output has received, and \<open>content\<close>, the contents of the files. A call that only
  looks moves nothing; \<open>open\<close> gives a descriptor at the start of the file; the display and the
  cursor write to the terminal only and leave the transfer's part of the state alone; a signal to
  abort is not taken back.
\<close>

definition still :: "(int \<Rightarrow> 'w \<Rightarrow> bytes) \<Rightarrow> ('w \<Rightarrow> bytes) \<Rightarrow> 'w \<Rightarrow> 'w \<Rightarrow> bool" where
  "still inp out w w' \<longleftrightarrow> (\<forall>fd. inp fd w' = inp fd w) \<and> out w' = out w"

definition file_env ::
  "'w sysfile \<Rightarrow> (int \<Rightarrow> 'w \<Rightarrow> bytes) \<Rightarrow> ('w \<Rightarrow> bytes) \<Rightarrow> (string \<Rightarrow> bytes) \<Rightarrow> bool" where
  "file_env S inp out content \<longleftrightarrow>
     (\<forall>name w fd w'. sys_open_r S name w = (Inr fd, w') \<longrightarrow>
        0 \<le> fd \<and> inp fd w' = content name \<and> out w' = out w) \<and>
     (\<forall>fd w. still inp out w (snd (sys_fstat S fd w))) \<and>
     (\<forall>fd w. still inp out w (snd (sys_isatty S fd w))) \<and>
     (\<forall>fd w. out (snd (sys_close S fd w)) = out w)"

definition leaves ::
  "(int \<Rightarrow> 'w \<Rightarrow> bytes) \<Rightarrow> ('w \<Rightarrow> bytes) \<Rightarrow> (pvstate \<Rightarrow> 'w \<Rightarrow> pvstate \<times> 'w) \<Rightarrow> bool" where
  "leaves inp out f \<longleftrightarrow> (\<forall>st w st' w'. f st w = (st', w') \<longrightarrow>
     still inp out w w' \<and> settled st st' \<and> pending st' = pending st \<and> (buffer_inv st \<longrightarrow> buffer_inv st'))"

definition side_env :: "'w sysloop \<Rightarrow> (int \<Rightarrow> 'w \<Rightarrow> bytes) \<Rightarrow> ('w \<Rightarrow> bytes) \<Rightarrow> bool" where
  "side_env S inp out \<longleftrightarrow>
     leaves inp out (run_remote_check S) \<and> leaves inp out (run_crs_init S) \<and>
     leaves inp out (run_crs_fini S) \<and> leaves inp out (run_screensize S) \<and>
     (\<forall>elapsed since tot. leaves inp out (\<lambda>st. run_display S st elapsed since tot)) \<and>
     (\<forall>w. still inp out w (clear_toffset S w)) \<and>
     (\<forall>d w. out (snd (sys_write S 2 d w)) = out w) \<and>
     (\<forall>st w. sig_abort S w \<longrightarrow> sig_abort S (snd (run_crs_fini S st w))) \<and>
     (\<forall>d w. sig_abort S w \<longrightarrow> sig_abort S (snd (sys_write S 2 d w)))"

definition loop_env ::
  "'w sysloop \<Rightarrow> (int \<Rightarrow> 'w \<Rightarrow> bytes) \<Rightarrow> ('w \<Rightarrow> bytes) \<Rightarrow> (string \<Rightarrow> bytes) \<Rightarrow> bool" where
  "loop_env S inp out content \<longleftrightarrow>
     (\<forall>fd. honest (sysio.truncate S) fd (inp fd) out \<and> steady (sysio.truncate S) fd) \<and>
     flowing (sysio.truncate S) \<and> file_env (sysfile.truncate S) inp out content \<and> side_env S inp out"

lemma still_refl [simp]: "still inp out w w"
  by (simp add: still_def)

lemma still_trans: "still inp out a b \<Longrightarrow> still inp out b c \<Longrightarrow> still inp out a c"
  by (simp add: still_def)

lemma leavesD:
  "leaves inp out f \<Longrightarrow> f st w = (st', w') \<Longrightarrow>
   still inp out w w' \<and> settled st st' \<and> pending st' = pending st \<and> (buffer_inv st \<longrightarrow> buffer_inv st')"
  by (simp add: leaves_def)

lemma file_envD:
  assumes "file_env S inp out content"
  shows "sys_open_r S name w = (Inr fd, w') \<Longrightarrow> 0 \<le> fd \<and> inp fd w' = content name \<and> out w' = out w"
    and "sys_fstat S fd w = (r, w') \<Longrightarrow> still inp out w w'"
    and "sys_isatty S fd w = (tty, w') \<Longrightarrow> still inp out w w'"
    and "out (snd (sys_close S fd w)) = out w"
  using assms by (simp_all add: file_env_def) (metis snd_conv)+

lemma loop_envD:
  assumes "loop_env S inp out content"
  shows "honest (sysio.truncate S) fd (inp fd) out" "steady (sysio.truncate S) fd"
    "flowing (sysio.truncate S)" "file_env (sysfile.truncate S) inp out content" "side_env S inp out"
  using assms by (simp_all add: loop_env_def)

lemma loop_time:
  assumes "loop_env S inp out content" "sys_time S w = (t, w')"
  shows "still inp out w w'"
  unfolding still_def
  using honest_timeD [OF loop_envD(1) [OF assms(1)], of w t w'] assms(2) by (simp add: sysio.defs)

section \<open>The next file\<close>

lemma adopt_file_run:
  assumes env: "file_env S inp out content" and fd: "0 \<le> f"
    and run: "adopt_file S st name f w = (fd, st', w')"
  shows "fd < 0 \<and> failed st' \<or> fd = f \<and> still inp out w w' \<and> (\<exists>c. st' = st\<lparr> current_file := c \<rparr>)"
  using run fd
  by (auto simp: adopt_file_def file_error_def split: prod.splits sum.splits if_splits
      dest!: file_envD(2,3) [OF env] intro: still_trans)

lemma next_file_run:
  assumes env: "file_env S inp out content"
    and run: "pv_next_file S st n oldfd w = (fd, st', w')"
    and stdin: "0 < oldfd \<Longrightarrow> input_files st ! nat n \<noteq> stdin_name"
      "input_files st ! nat n = stdin_name \<Longrightarrow> inp STDIN_FILENO w = content stdin_name"
  shows "fd < 0 \<and> failed st' \<or>
    0 \<le> fd \<and> 0 \<le> n \<and> n < int (length (input_files st)) \<and>
    inp fd w' = content (input_files st ! nat n) \<and> out w' = out w \<and> (\<exists>c. st' = st\<lparr> current_file := c \<rparr>)"
proof -
  let ?name = "input_files st ! nat n"
  obtain r w1 where c: "(if 0 < oldfd then sys_close S oldfd w else (Inr (), w)) = (r, w1)"
    by (rule prod.exhaust)
  have w1: "out w1 = out w" "\<not> 0 < oldfd \<Longrightarrow> w1 = w"
    using c file_envD(4) [OF env, of oldfd w] by (auto split: if_splits)
  show ?thesis
  proof (cases "isl r \<or> int (length (input_files st)) \<le> n \<or> n < 0")
    case True
    with run c show ?thesis
      by (cases r) (auto simp: pv_next_file_def file_error_def split: if_splits)
  next
    case False
    then obtain u where r: "r = Inr u" by (cases r) auto
    obtain q w2 where o: "sys_open_r S ?name w1 = (q, w2)" by (rule prod.exhaust)
    consider (stdin) "?name = stdin_name" "adopt_file S st ?name STDIN_FILENO w1 = (fd, st', w')"
      | (fail) "fd < 0" "failed st'"
      | (ok) f where "q = Inr f" "adopt_file S st ?name f w2 = (fd, st', w')"
      using run c r False o
      by (cases q) (auto simp: pv_next_file_def Let_def file_error_def split: if_splits)
    then show ?thesis
    proof cases
      case stdin
      with assms(3,4) have "w1 = w" "inp STDIN_FILENO w = content ?name" using w1(2) by auto
      with adopt_file_run [OF env _ stdin(2)] False show ?thesis
        by (auto simp: STDIN_FILENO_def still_def)
    next
      case fail
      then show ?thesis by simp
    next
      case ok
      note f = file_envD(1) [OF env o [unfolded ok(1)]]
      from adopt_file_run [OF env _ ok(2)] f False w1(1) show ?thesis by (auto simp: still_def)
    qed
  qed
qed


section \<open>The turns\<close>

text \<open>
  At the head of the loop: output, buffered data, the rest of the current file and the files to
  come, one after the other, are always the same bytes \<open>G\<close>; the flags mean what they say.
\<close>

definition loop_inv ::
  "(int \<Rightarrow> 'w \<Rightarrow> bytes) \<Rightarrow> ('w \<Rightarrow> bytes) \<Rightarrow> (string \<Rightarrow> bytes) \<Rightarrow> bytes \<Rightarrow> string list \<Rightarrow>
   pvstate \<Rightarrow> int \<Rightarrow> nat \<Rightarrow> eofs \<Rightarrow> 'w \<Rightarrow> bool" where
  "loop_inv inp out content G files st fd i eof w \<longleftrightarrow>
     buffer_inv st \<and> \<not> stop_at_size st \<and> input_files st = files \<and> i < length files \<and>
     stream (inp fd) out st w @ concat (map content (drop (Suc i) files)) = G \<and>
     eof_ok (inp fd) st eof w"

abbreviation lv_inv where
  "lv_inv inp out content G files st lv w \<equiv>
     loop_inv inp out content G files st (lv_fd lv) (lv_file lv) (lv_eofs lv) w"

lemma loop_inv_leaves:
  assumes "loop_inv inp out content G files st fd i eof w"
    and "still inp out w w'" "settled st st'" "pending st' = pending st" "buffer_inv st \<longrightarrow> buffer_inv st'"
  shows "loop_inv inp out content G files st' fd i eof w'"
  using assms by (simp add: loop_inv_def still_def settled_def stream_def eof_ok_def)

lemma loop_inv_still:
  "loop_inv inp out content G files st fd i eof w \<Longrightarrow> still inp out w w' \<Longrightarrow>
   loop_inv inp out content G files st fd i eof w'"
  by (erule loop_inv_leaves) (simp_all add: settled_def)

lemma loop_inv_callback:
  assumes "leaves inp out f" "f st w = (st', w')" "loop_inv inp out content G files st fd i eof w"
  shows "loop_inv inp out content G files st' fd i eof w'"
  using leavesD [OF assms(1,2)] loop_inv_leaves [OF assms(3)] by blast

lemma transfer_inv:
  assumes env: "loop_env S inp out content"
    and inv: "loop_inv inp out content G files st fd i eof w"
    and run: "pv_transfer (sysio.truncate S) st fd eof a lw w = (n, st', eof', lw', w')"
  shows "loop_inv inp out content G files st' fd i eof' w'" "n < 0 \<Longrightarrow> failed st'"
proof -
  have "buffer_inv st" using inv by (simp add: loop_inv_def)
  note r = pv_transfer_run [OF loop_envD(1) [OF env] this run]
  note s = pv_transfer_settled [OF run]
  show "loop_inv inp out content G files st' fd i eof' w'"
    using inv r s(1) loop_envD(2,3) [OF env] by (simp add: loop_inv_def round_ok_def settled_def)
  show "n < 0 \<Longrightarrow> failed st'" by (rule s(2))
qed

lemma rate_allowance_run:
  assumes env: "loop_env S inp out content" and run: "rate_allowance S st lv w = (c, lv', w')"
  shows "still inp out w w'" "lv_fd lv' = lv_fd lv" "lv_file lv' = lv_file lv" "lv_eofs lv' = lv_eofs lv"
    "final_update lv' = final_update lv"
  using run loop_time [OF env]
  by (auto simp: rate_allowance_def Let_def split: if_splits prod.splits)

lemma transfer_turn_inv:
  assumes env: "loop_env S inp out content" and inv: "lv_inv inp out content G files st lv w"
    and run: "transfer_turn S st lv w = (n, st', lv', w')"
  shows "lv_inv inp out content G files st' lv' w'" "n < 0 \<Longrightarrow> failed st'"
    "final_update lv' = final_update lv"
proof -
  obtain c lv1 w1 where r: "rate_allowance S st lv w = (c, lv1, w1)" by (metis prod.exhaust)
  note v = rate_allowance_run [OF env r]
  have ns: "\<not> stop_at_size st" using inv by (simp add: loop_inv_def)
  obtain eof2 lw2 where t: "pv_transfer (sysio.truncate S) st (lv_fd lv1) (lv_eofs lv1) (nat (u64 c))
      (Some (lv_lines lv1)) w1 = (n, st', eof2, lw2, w')"
    and lv': "lv' = lv1\<lparr> lv_eofs := eof2, lv_lines := (case lw2 of Some l \<Rightarrow> l | None \<Rightarrow> lv_lines lv1) \<rparr>"
    using run r ns by (auto simp: transfer_turn_def size_allowance_def split: prod.splits)
  have "lv_inv inp out content G files st lv1 w1"
    using loop_inv_still [OF inv v(1)] v by simp
  from transfer_inv [OF env this t] lv' v(5)
  show "lv_inv inp out content G files st' lv' w'" "n < 0 \<Longrightarrow> failed st'"
    "final_update lv' = final_update lv" by simp_all
qed

lemma account_same [simp]:
  "lv_fd (account st n lv) = lv_fd lv" "lv_file (account st n lv) = lv_file lv"
  "lv_eofs (account st n lv) = lv_eofs lv" "final_update (account st n lv) = final_update lv"
  by (simp_all add: account_def Let_def)

lemma wait_leaves:
  "loop_inv inp out content G files st fd i eof w \<Longrightarrow>
   loop_inv inp out content G files (st\<lparr> wait := b \<rparr>) fd i eof w"
  by (rule loop_inv_leaves [where st = st and w = w])
    (cases "transfer_buffer st"; simp add: buffer_inv_def pending_def buf_slice_def settled_def failed_def)+

definition same_place :: "loop_vars \<Rightarrow> loop_vars \<Rightarrow> bool" where
  "same_place lv lv' \<longleftrightarrow> lv_fd lv' = lv_fd lv \<and> lv_file lv' = lv_file lv \<and> lv_eofs lv' = lv_eofs lv \<and>
     final_update lv' = final_update lv"

lemma start_clock_inv:
  assumes env: "loop_env S inp out content" and inv: "lv_inv inp out content G files st lv w"
    and run: "start_clock S st lv w = (st', lv', w')"
  shows "lv_inv inp out content G files st' lv' w' \<and> same_place lv lv'"
proof -
  obtain now w0 where tm: "sys_time S w = (now, w0)" by (rule prod.exhaust)
  have "still inp out w0 (clear_toffset S w0)"
    using loop_envD(5) [OF env] by (simp add: side_env_def)
  from loop_inv_still [OF loop_inv_still [OF inv loop_time [OF env tm]] this] run tm inv
  show ?thesis by (auto simp: start_clock_def same_place_def wait_leaves split: if_splits)
qed

lemma update_display_inv:
  assumes env: "loop_env S inp out content" and inv: "lv_inv inp out content G files st lv w"
    and run: "update_display S st lv w = (st', lv', w')"
  shows "lv_inv inp out content G files st' lv' w' \<and> same_place lv lv'"
proof (cases "time_reached (cur_time lv) (next_update lv)")
  case False
  with run inv show ?thesis by (simp add: update_display_def same_place_def)
next
  case True
  have side: "leaves inp out (run_screensize S)"
    "\<And>elapsed since tot. leaves inp out (\<lambda>st. run_display S st elapsed since tot)"
    using loop_envD(5) [OF env] by (simp_all add: side_env_def)
  obtain st2 w2 where s: "run_screensize S st w = (st2, w2)" by (rule prod.exhaust)
  from run True s obtain e s' tt where
    d: "run_display S st2 e s' tt w2 = (st', w')" and p: "same_place lv lv'"
    by (auto simp: update_display_def Let_def same_place_def split: prod.splits)
  from loop_inv_callback [OF side(2) d loop_inv_callback [OF side(1) s inv]] p
  show ?thesis by (simp add: same_place_def)
qed

lemma show_progress_inv:
  assumes env: "loop_env S inp out content" and inv: "lv_inv inp out content G files st lv w"
    and run: "show_progress S st lv n w = (st', lv', w')"
  shows "lv_inv inp out content G files st' lv' w' \<and> same_place lv lv'"
proof -
  obtain st1 lv1 w1 where c: "start_clock S st lv w = (st1, lv1, w1)" by (metis prod.exhaust)
  note v = start_clock_inv [OF env inv c]
  have "update_display S st1 lv1 w1 = (st', lv', w') \<or> (st', lv', w') = (st, lv, w)"
    using run c by (auto simp: show_progress_def split: if_splits)
  then show ?thesis
    using v inv update_display_inv [OF env conjunct1 [OF v]] by (auto simp: same_place_def)
qed


lemma give_up_failed:
  assumes env: "loop_env S inp out content" and "failed st" "give_up S st w = Stop st' w'"
  shows "failed st'"
proof -
  have "leaves inp out (run_crs_fini S)" using loop_envD(5) [OF env] by (simp add: side_env_def)
  from leavesD [OF this] assms(2,3) show ?thesis
    by (auto simp: give_up_def settled_def split: if_splits prod.splits)
qed

lemma give_up_stops: "\<exists>st' w'. give_up S st w = Stop st' w'"
  by (simp add: give_up_def split: prod.splits)

text \<open>The names after the first are files; the first may be standard input.\<close>

definition named :: "string list \<Rightarrow> bool" where
  "named files \<longleftrightarrow> (\<forall>name \<in> set (tl files). name \<noteq> stdin_name)"

lemma named_nth: "named files \<Longrightarrow> Suc i < length files \<Longrightarrow> files ! Suc i \<noteq> stdin_name"
  by (cases files) (auto simp: named_def)

text \<open>Both flags stay set only on the last file.\<close>

definition at_end :: "string list \<Rightarrow> loop_vars \<Rightarrow> bool" where
  "at_end files lv \<longleftrightarrow> (eof_in (lv_eofs lv) \<and> eof_out (lv_eofs lv) \<longrightarrow> Suc (lv_file lv) = length files)"

lemma next_input_inv:
  assumes env: "loop_env S inp out content" and n: "named files"
    and inv: "lv_inv inp out content G files st lv w"
    and run: "next_input S st lv w = (bad, st', lv', w')"
  shows "bad \<Longrightarrow> failed st'"
    and "\<not> bad \<Longrightarrow> lv_inv inp out content G files st' lv' w' \<and> at_end files lv'"
proof -
  have files: "input_files st = files" "lv_file lv < length files" using inv by (simp_all add: loop_inv_def)
  let ?go = "eof_in (lv_eofs lv) \<and> eof_out (lv_eofs lv) \<and> int (lv_file lv) < int (length (input_files st)) - 1"
  have "(bad \<longrightarrow> failed st') \<and> (\<not> bad \<longrightarrow> lv_inv inp out content G files st' lv' w' \<and> at_end files lv')"
  proof (cases ?go)
    case False
    with run inv files show ?thesis by (auto simp: next_input_def at_end_def)
  next
    case True
    then have "int (lv_file lv) < int (length files) - 1" by (simp add: files(1))
    then have i: "Suc (lv_file lv) < length files" by linarith
    obtain fd st1 w1 where f: "pv_next_file (sysfile.truncate S) st (int (lv_file lv) + 1) (lv_fd lv) w = (fd, st1, w1)"
      by (metis prod.exhaust)
    have name: "input_files st ! nat (int (lv_file lv) + 1) = files ! Suc (lv_file lv)"
      using files(1) by (simp add: nat_add_distrib)
    have no_stdin: "files ! Suc (lv_file lv) \<noteq> stdin_name" by (rule named_nth [OF n i])
    note v = next_file_run [OF loop_envD(4) [OF env] f, unfolded name]
    have run': "bad = (fd < 0)" "st' = st1" "w' = w1" "lv' = lv\<lparr> lv_file := lv_file lv + 1, lv_fd := fd,
        lv_eofs := \<lparr> eof_in = False, eof_out = False \<rparr> \<rparr>"
      using run True f by (simp_all add: next_input_def)
    show ?thesis
    proof (cases "fd < 0")
      case True
      with v no_stdin run' show ?thesis by auto
    next
      case False
      with v no_stdin obtain c where ok: "inp fd w1 = content (files ! Suc (lv_file lv))" "out w1 = out w"
        "st1 = st\<lparr> current_file := c \<rparr>" by auto
      have drained: "inp (lv_fd lv) w = []" "pending st = []"
        using inv \<open>?go\<close> by (auto simp: loop_inv_def eof_ok_def)
      have p: "pending st1 = []" "buffer_inv st1"
        using inv drained(2) ok(3) same_data_keeps [of st st1] by (simp_all add: loop_inv_def same_data_def)
      have "drop (Suc (lv_file lv)) files = files ! Suc (lv_file lv) # drop (Suc (Suc (lv_file lv))) files"
        using i by (rule Cons_nth_drop_Suc [symmetric])
      then have "loop_inv inp out content G files st1 fd (Suc (lv_file lv)) \<lparr> eof_in = False, eof_out = False \<rparr> w1"
        using inv drained p ok i files(1) by (simp add: loop_inv_def stream_def eof_ok_def)
      with run' False show ?thesis by (simp add: at_end_def)
    qed
  qed
  then show "bad \<Longrightarrow> failed st'"
    and "\<not> bad \<Longrightarrow> lv_inv inp out content G files st' lv' w' \<and> at_end files lv'" by blast+
qed


lemma loop_turn_inv:
  assumes env: "loop_env S inp out content" and n: "named files"
    and inv: "lv_inv inp out content G files st lv w"
    and run: "loop_turn S st lv w = t"
  shows "case t of Stop st' w' \<Rightarrow> failed st'
    | Break st' lv' w' \<Rightarrow> sig_abort S w'
    | Continue st' lv' w' \<Rightarrow> lv_inv inp out content G files st' lv' w' \<and> at_end files lv'"
proof -
  have remote: "leaves inp out (run_remote_check S)" using loop_envD(5) [OF env] by (simp add: side_env_def)
  obtain st1 lv1 w1 where r: "(if time_reached (cur_time lv) (next_remotecheck lv)
      then (case run_remote_check S st w of (st, w) \<Rightarrow>
              (st, lv\<lparr> next_remotecheck := pv_timeval_add_usec (next_remotecheck lv) REMOTE_INTERVAL \<rparr>, w))
      else (st, lv, w)) = (st1, lv1, w1)" by (metis prod.exhaust)
  have inv1: "lv_inv inp out content G files st1 lv1 w1"
    using r inv by (auto split: if_splits prod.splits dest: loop_inv_callback [OF remote])
  show ?thesis
  proof (cases "sig_abort S w1")
    case True
    with run r show ?thesis by (auto simp: loop_turn_def)
  next
    case False
    obtain k st2 lv2 w2 where tt: "transfer_turn S st1 lv1 w1 = (k, st2, lv2, w2)" by (metis prod.exhaust)
    note v2 = transfer_turn_inv [OF env inv1 tt]
    show ?thesis
    proof (cases "k < 0")
      case True
      with run r False tt have "t = give_up S st2 w2" by (simp add: loop_turn_def)
      with give_up_stops [of S st2 w2] give_up_failed [OF env v2(2) [OF True]] show ?thesis by auto
    next
      case kpos: False
      obtain bad st3 lv3 w3 where ni: "next_input S st2 (account st2 k lv2) w2 = (bad, st3, lv3, w3)"
        by (metis prod.exhaust)
      have inv2: "lv_inv inp out content G files st2 (account st2 k lv2) w2" using v2(1) by simp
      note v3 = next_input_inv [OF env n inv2 ni]
      show ?thesis
      proof (cases bad)
        case True
        with run r False tt kpos ni have "t = give_up S st3 w3" by (simp add: loop_turn_def Let_def)
        with give_up_stops [of S st3 w3] give_up_failed [OF env v3(1) [OF True]] show ?thesis by auto
      next
        case ok: False
        obtain now w4 where tm: "sys_time S w3 = (now, w4)" by (rule prod.exhaust)
        define lv4 where "lv4 = (let lv = lv3\<lparr> cur_time := now \<rparr>
          in if eof_in (lv_eofs lv) \<and> eof_out (lv_eofs lv)
             then lv\<lparr> final_update := True,
               next_update := (if display_visible st3 \<or> delay_start st3 = 0
                               then (fst now - 1, snd (next_update lv)) else next_update lv) \<rparr>
             else lv)"
        have k4: "lv_fd lv4 = lv_fd lv3" "lv_file lv4 = lv_file lv3" "lv_eofs lv4 = lv_eofs lv3"
          by (simp_all add: lv4_def Let_def)
        have inv4: "lv_inv inp out content G files st3 lv4 w4"
          using loop_inv_still [OF conjunct1 [OF v3(2) [OF ok]] loop_time [OF env tm]] k4 by simp
        obtain st5 lv5 w5 where sp: "show_progress S st3 lv4 k w4 = (st5, lv5, w5)" by (metis prod.exhaust)
        have "t = Continue st5 lv5 w5"
          using run r False tt kpos ni ok tm sp by (simp add: loop_turn_def Let_def lv4_def)
        moreover have "at_end files lv5"
          using show_progress_inv [OF env inv4 sp] k4 v3(2) [OF ok]
          by (simp add: at_end_def same_place_def)
        ultimately show ?thesis using show_progress_inv [OF env inv4 sp] by simp
      qed
    qed
  qed
qed

lemma main_turns_inv:
  assumes env: "loop_env S inp out content" and n: "named files"
  shows "lv_inv inp out content G files st lv w \<Longrightarrow> at_end files lv \<Longrightarrow>
    main_turns fuel S st lv w = Some t \<Longrightarrow>
    (case t of Stop st' w' \<Rightarrow> failed st' | Break st' lv' w' \<Rightarrow> sig_abort S w' \<or> out w' = G | Continue _ _ _ \<Rightarrow> False)"
proof (induction fuel arbitrary: st lv w)
  case (Suc fuel)
  show ?case
  proof (cases "\<not> (eof_in (lv_eofs lv) \<and> eof_out (lv_eofs lv)) \<or> \<not> final_update lv")
    case False
    with Suc.prems show ?thesis by (auto simp: loop_inv_def at_end_def stream_def eof_ok_def)
  next
    case True
    show ?thesis
    proof (cases "loop_turn S st lv w")
      case (Stop st1 w1)
      with loop_turn_inv [OF env n Suc.prems(1) this] Suc.prems(3) True show ?thesis by auto
    next
      case (Break st1 lv1 w1)
      with loop_turn_inv [OF env n Suc.prems(1) this] Suc.prems(3) True show ?thesis by auto
    next
      case (Continue st1 lv1 w1)
      with loop_turn_inv [OF env n Suc.prems(1) this] Suc.prems(3) True Suc.IH [of st1 lv1 w1]
      show ?thesis by auto
    qed
  qed
qed simp


lemma finish_loop_out:
  assumes env: "loop_env S inp out content" and run: "finish_loop S st lv w = (r, st', w')"
  shows "out w' = out w" "sig_abort S w \<Longrightarrow> r \<noteq> 0"
proof -
  have side: "leaves inp out (run_crs_fini S)" "\<And>d w. out (snd (sys_write S 2 d w)) = out w"
    "\<And>st w. sig_abort S w \<Longrightarrow> sig_abort S (snd (run_crs_fini S st w))"
    "\<And>d w. sig_abort S w \<Longrightarrow> sig_abort S (snd (sys_write S 2 d w))"
    using loop_envD(5) [OF env] by (simp_all add: side_env_def)
  have close: "out (snd (sys_close S fd w)) = out w" for fd w
    using file_envD(4) [OF loop_envD(4) [OF env]] by (simp add: sysfile.defs)
  obtain st1 w1 where f: "(if cursor st then run_crs_fini S st w
      else if \<not> numeric st \<and> \<not> no_op st \<and> display_visible st
      then (st, snd (sys_write S 2 [10] w)) else (st, w)) = (st1, w1)" by (rule prod.exhaust)
  have "out w1 = out w \<and> (sig_abort S w \<longrightarrow> sig_abort S w1)"
  proof (cases "cursor st")
    case True
    with f have c: "run_crs_fini S st w = (st1, w1)" by simp
    from leavesD [OF side(1) c] side(3) [of w st] c show ?thesis by (simp add: still_def)
  next
    case False
    with f have "w1 = snd (sys_write S 2 [10] w) \<or> w1 = w" by (auto split: if_splits)
    with side(2) [of "[10]" w] side(4) [of w "[10]"] show ?thesis by auto
  qed
  then have w1: "out w1 = out w" "sig_abort S w \<Longrightarrow> sig_abort S w1" by blast+
  have fin: "w' = (if 0 \<le> lv_fd lv then snd (sys_close S (lv_fd lv) w1) else w1)"
    "r = exit_status (if sig_abort S w1 then set_exit 32 st1 else st1)"
    using run f by (auto simp: finish_loop_def Let_def)
  show "out w' = out w" using fin(1) close w1(1) by simp
  show "r \<noteq> 0" if "sig_abort S w"
  proof -
    have "failed (set_exit 32 st1)" by simp
    with fin(2) w1(2) [OF that] show ?thesis by (simp add: failed_def)
  qed
qed

section \<open>The whole loop\<close>

lemma choose_buffer_size_inv:
  assumes env: "loop_env S inp out content" and inv: "loop_inv inp out content G files st fd i eof w"
    and run: "choose_buffer_size S st f w = (st', w')"
  shows "loop_inv inp out content G files st' fd i eof w'"
proof -
  obtain r w1 where s: "sys_fstat S f w = (r, w1)" by (rule prod.exhaust)
  have w1: "still inp out w w1"
    using file_envD(2) [OF loop_envD(4) [OF env], of f w] s by (simp add: sysfile.defs)
  have b: "target_buffer_size st < 2 ^ 62" using inv by (simp add: loop_inv_def buffer_inv_def)
  have "\<exists>n < 2 ^ 62. st' = st\<lparr> target_buffer_size := n \<rparr> \<and> w' = w1"
  proof (cases "target_buffer_size st = 0")
    case False
    have "(st', w') = (st, w1)"
      using run s False by (cases r) (simp_all add: choose_buffer_size_def Let_def)
    then show ?thesis using b by (intro exI [of _ "target_buffer_size st"]) simp
  next
    case True
    let ?m = "case r of Inr sb \<Rightarrow> min (nat (st_blksize sb * 32)) BUFFER_SIZE_MAX | Inl e \<Rightarrow> 0"
    let ?n = "if ?m = 0 then BUFFER_SIZE else ?m"
    have "(st', w') = (st\<lparr> target_buffer_size := ?n \<rparr>, w1)"
    proof (cases r)
      case (Inl e)
      with run s True show ?thesis by (simp add: choose_buffer_size_def Let_def)
    next
      case (Inr sb)
      with run s True show ?thesis by (auto simp: choose_buffer_size_def Let_def)
    qed
    moreover have "?n < 2 ^ 62"
      by (cases r) (auto simp: BUFFER_SIZE_def BUFFER_SIZE_MAX_def min_def)
    ultimately show ?thesis by blast
  qed
  then obtain n where n: "n < 2 ^ 62" "st' = st\<lparr> target_buffer_size := n \<rparr>" "w' = w1" by blast
  have "settled st st'" "pending st' = pending st" "buffer_inv st \<longrightarrow> buffer_inv st'"
    using n(1) unfolding n(2)
    by (cases "transfer_buffer st"; simp add: settled_def failed_def pending_def buf_slice_def buffer_inv_def)+
  with loop_inv_leaves [OF inv w1] n(3) show ?thesis by simp
qed

lemma main_loop_run:
  assumes env: "loop_env S inp out content" and n: "named (input_files st)"
    and st: "buffer_inv st" "pending st = []" "\<not> stop_at_size st"
    and stdin: "inp STDIN_FILENO w = content stdin_name"
    and run: "pv_main_loop fuel S st w = Some (0, st', w')"
  shows "out w' = out w @ concat (map content (input_files st))"
proof -
  let ?files = "input_files st"
  let ?G = "out w @ concat (map content ?files)"
  have init: "leaves inp out (run_crs_init S)" using loop_envD(5) [OF env] by (simp add: side_env_def)
  obtain st1 w1 where c: "run_crs_init S st w = (st1, w1)" by (rule prod.exhaust)
  note v1 = leavesD [OF init c]
  define st2 where "st2 = st1\<lparr> initial_offset := 0 \<rparr>"
  have "buffer_inv st1" using v1 st(1) by blast
  then have b2: "buffer_inv st2" by (cases "transfer_buffer st1") (simp_all add: buffer_inv_def st2_def)
  have s2: "pending st2 = []" "\<not> stop_at_size st2" "input_files st2 = ?files"
    using v1 st by (simp_all add: st2_def settled_def pending_def buf_slice_def)
  obtain start w2 where t1: "sys_time S w1 = (start, w2)" by (rule prod.exhaust)
  obtain now w3 where t2: "sys_time S w2 = (now, w3)" by (rule prod.exhaust)
  have w3: "still inp out w w3"
    using v1 loop_time [OF env t1] loop_time [OF env t2] by (metis still_trans)
  obtain fd st3 w4 where nf: "pv_next_file (sysfile.truncate S) st2 0 (- 1) w3 = (fd, st3, w4)"
    by (metis prod.exhaust)
  have "inp STDIN_FILENO w3 = content stdin_name" using w3 stdin by (simp add: still_def)
  note v4 = next_file_run [OF loop_envD(4) [OF env] nf, simplified, OF this]
  show ?thesis
  proof (cases "fd < 0")
    case True
    with v4 have "failed st3" by auto
    obtain st5 w5 where g: "give_up S st3 w4 = Stop st5 w5" using give_up_stops [of S st3 w4] by blast
    from give_up_failed [OF env \<open>failed st3\<close> g] run c t1 t2 nf True g
    show ?thesis by (simp add: pv_main_loop_def Let_def st2_def failed_def)
  next
    case False
    with v4 obtain cf where ok: "?files \<noteq> []" "inp fd w4 = content (?files ! 0)" "out w4 = out w3"
      "st3 = st2\<lparr> current_file := cf \<rparr>" using s2(3) by auto
    have sd: "same_data st2 st3" by (simp add: ok(4) same_data_def)
    have "concat (map content ?files) = content (?files ! 0) @ concat (map content (drop (Suc 0) ?files))"
      using ok(1) by (cases ?files) auto
    then have inv4: "loop_inv inp out content ?G ?files st3 fd 0 both_open w4"
      using ok w3 b2 s2 same_data_keeps [OF sd]
      by (simp add: loop_inv_def stream_def eof_ok_def still_def)
    obtain st4 w5 where cb: "choose_buffer_size S st3 fd w4 = (st4, w5)" by (rule prod.exhaust)
    note inv5 = choose_buffer_size_inv [OF env inv4 cb]
    let ?lv = "loop_start st2 start now fd"
    have lv: "lv_fd ?lv = fd" "lv_file ?lv = 0" "lv_eofs ?lv = both_open"
      by (simp_all add: loop_start_def Let_def)
    have t: "(case main_turns fuel S st4 ?lv w5 of
                 None \<Rightarrow> None
               | Some (Stop st w) \<Rightarrow> Some (exit_status st, st, w)
               | Some (Break st lv w) \<Rightarrow> Some (finish_loop S st lv w)
               | Some (Continue _ _ _) \<Rightarrow> None) = Some (0, st', w')"
      using run c t1 t2 nf False cb by (simp add: pv_main_loop_def Let_def st2_def)
    obtain tn where m: "main_turns fuel S st4 ?lv w5 = Some tn" using t by (auto split: option.splits)
    have "lv_inv inp out content ?G ?files st4 ?lv w5" "at_end ?files ?lv"
      using inv5 lv by (simp_all add: at_end_def)
    from main_turns_inv [OF env n this m] show ?thesis
    proof (cases tn)
      case (Stop st6 w6)
      with t m main_turns_inv [OF env n \<open>lv_inv _ _ _ _ _ _ _ _\<close> \<open>at_end _ _\<close> m] show ?thesis
        by (auto simp: failed_def)
    next
      case (Break st6 lv6 w6)
      with t m main_turns_inv [OF env n \<open>lv_inv _ _ _ _ _ _ _ _\<close> \<open>at_end _ _\<close> m]
        finish_loop_out [OF env, of st6 lv6 w6 0 st' w'] show ?thesis by auto
    qed (use t m in auto)
  qed
qed

end
