(* ===== verification/PvLive.thy ===== *)
theory PvLive
  imports PvCopy
begin

text \<open>
  The main loop ends. On descriptors that are always ready, with memory to be had and no limit on
  the rate, every round makes progress: it reads, or writes, or finds an end. The number of turns
  is at most twice the number of bytes, and three more for every file.
\<close>

section \<open>A round makes progress\<close>

definition lively :: "'w sysio \<Rightarrow> int \<Rightarrow> bool" where
  "lively S fd \<longleftrightarrow>
     (\<forall>rs ws t w. fst (sys_select S rs ws t w) = Inr (rs, ws)) \<and>
     (\<forall>n w. fst (sys_alloc S n w) \<noteq> None) \<and>
     (\<forall>n w. fst (sys_splice S fd n w) \<noteq> Inl EAGAIN)"

lemma livelyD:
  assumes "lively S fd"
  shows "sys_select S rs ws t w = (q, w') \<Longrightarrow> q = Inr (rs, ws)"
    and "sys_alloc S n w = (b, w') \<Longrightarrow> b \<noteq> None"
    and "sys_splice S fd n w \<noteq> (Inl EAGAIN, w')"
  using assms by (auto simp: lively_def) (metis fst_conv)+

text \<open>What the calm rounds leave alone.\<close>

definition calm :: "pvstate \<Rightarrow> pvstate \<Rightarrow> bool" where
  "calm st st' \<longleftrightarrow> exit_status st' = exit_status st \<and> rate_limit st' = rate_limit st \<and>
     target_buffer_size st' = target_buffer_size st \<and> buffer_size st' = buffer_size st"

lemma calm_refl [simp]: "calm st st"
  by (simp add: calm_def)

lemma calm_trans: "calm a b \<Longrightarrow> calm b c \<Longrightarrow> calm a c"
  by (simp add: calm_def)

lemma calm_update [simp]:
  "calm st (st'\<lparr> last_read_skip_fd := x2 \<rparr>) = calm st st'"
  "calm st (st'\<lparr> read_errors_in_a_row := x3 \<rparr>) = calm st st'"
  "calm st (st'\<lparr> read_error_warning_shown := x4 \<rparr>) = calm st st'"
  "calm st (st'\<lparr> read_position := x5 \<rparr>) = calm st st'"
  "calm st (st'\<lparr> write_position := x6 \<rparr>) = calm st st'"
  "calm st (st'\<lparr> to_write := x7 \<rparr>) = calm st st'"
  "calm st (st'\<lparr> splice_used := x8 \<rparr>) = calm st st'"
  "calm st (st'\<lparr> splice_failed_fd := x9 \<rparr>) = calm st st'"
  "calm st (st'\<lparr> transfer_buffer := x10 \<rparr>) = calm st st'"
  "calm st (st'\<lparr> written := x11 \<rparr>) = calm st st'"
  "calm st (st'\<lparr> lastoutput_buffer := x13 \<rparr>) = calm st st'"
  "calm st (store_at n d st') = calm st st'"
  by (simp_all add: calm_def store_at_def)

lemma splice_live:
  assumes h: "honest S fd inp out" and l: "lively S fd"
    and run: "try_splice S st fd a n w = (r, st', w')"
  shows "calm st st'"
    "r = None \<or> (\<exists>k. r = Some (Inr k) \<and> 0 < k \<and> splice_used st' \<and> length (inp w) = k + length (inp w'))"
    "r \<noteq> None \<Longrightarrow> to_write st = 0"
    "written st' = written st \<or> 0 \<le> written st'"
proof -
  let ?go = "\<not> linemode st \<and> \<not> no_splice st \<and> fd \<noteq> splice_failed_fd st \<and> to_write st = 0"
  let ?n = "if rate_limit st \<noteq> 0 \<or> a \<noteq> 0 then a else n"
  obtain q w1 where q: "sys_splice S fd ?n w = (q, w1)" by (rule prod.exhaust)
  have "calm st st' \<and> (r = None \<or> (\<exists>k. r = Some (Inr k) \<and> 0 < k \<and> splice_used st' \<and>
      length (inp w) = k + length (inp w'))) \<and> (r \<noteq> None \<longrightarrow> to_write st = 0) \<and>
      (written st' = written st \<or> 0 \<le> written st')"
  proof (cases q)
    case (Inl e)
    with q livelyD(3) [OF l, of ?n w w1] have "e \<noteq> EAGAIN" by auto
    with run q Inl show ?thesis by (auto simp: try_splice_def Let_def split: if_splits)
  next
    case (Inr k)
    with run q honest_spliceD(1) [OF h q [unfolded Inr]] show ?thesis
      by (auto simp: try_splice_def Let_def split: if_splits)
  qed
  then show "calm st st'"
    "r = None \<or> (\<exists>k. r = Some (Inr k) \<and> 0 < k \<and> splice_used st' \<and> length (inp w) = k + length (inp w'))"
    "r \<noteq> None \<Longrightarrow> to_write st = 0"
    "written st' = written st \<or> 0 \<le> written st'" by blast+
qed

text \<open>Reading: bytes have moved, or the input is at its end.\<close>

lemma read_live:
  assumes h: "honest S fd inp out" and s: "steady S fd" and l: "lively S fd"
    and inv: "buffer_inv st" "allocated st" and room: "read_position st < buffer_size st"
    and run: "pv__transfer_read S st fd eof a w = (ok, st', eof', w')"
  shows "ok = 1" "calm st st'" "write_position st' = write_position st"
    "inp w \<noteq> [] \<and> eof' = eof \<and> (splice_used st' \<and> to_write st = 0 \<and> read_position st' = read_position st \<and>
        length (inp w') < length (inp w) \<or>
      \<not> splice_used st' \<and> (\<exists>k > 0. length (inp w) = k + length (inp w') \<and>
        read_position st' = read_position st + k)) \<or>
     inp w = [] \<and> inp w' = [] \<and> \<not> splice_used st' \<and> read_position st' = read_position st \<and>
       eof' = end_of_input st' eof"
    "written st' = written st \<or> 0 \<le> written st'"
proof -
  let ?n = "usub64 (buffer_size st) (read_position st)"
  have n: "0 < ?n" using inv(1) room by (simp add: usub64_le buffer_inv_def)
  obtain r st1 w1 where spl: "try_splice S st fd a ?n w = (r, st1, w1)" by (metis prod.exhaust)
  note v = splice_live [OF h l spl]
  have same: "write_position st1 = write_position st" "read_position st1 = read_position st"
    "to_write st1 = to_write st"
    using spl by (auto simp: try_splice_def Let_def split: if_splits prod.splits sum.splits)
  have "ok = 1 \<and> calm st st' \<and> write_position st' = write_position st \<and>
    (inp w \<noteq> [] \<and> eof' = eof \<and> (splice_used st' \<and> to_write st = 0 \<and> read_position st' = read_position st \<and>
        length (inp w') < length (inp w) \<or>
      \<not> splice_used st' \<and> (\<exists>k > 0. length (inp w) = k + length (inp w') \<and>
        read_position st' = read_position st + k)) \<or>
     inp w = [] \<and> inp w' = [] \<and> \<not> splice_used st' \<and> read_position st' = read_position st \<and>
       eof' = end_of_input st' eof) \<and> (written st' = written st \<or> 0 \<le> written st')"
  proof (cases r)
    case (Some q)
    with v obtain k where k: "q = Inr k" "0 < k" "splice_used st1" "length (inp w) = k + length (inp w1)"
      by auto
    have "w' = w1 \<and> st' = st1\<lparr> read_errors_in_a_row := 0 \<rparr> \<and> ok = 1 \<and> eof' = eof"
      using run spl Some k by (simp add: pv__transfer_read_def Let_def)
    with k v Some same show ?thesis by auto
  next
    case None
    have z: "inp y = inp x" if "sys_splice S fd m x = (Inr 0, y)" for m x y
      using honest_spliceD(1) [OF h that] by (metis add_0 append_eq_append_conv)
    have w1: "inp w1 = inp w" "\<not> splice_used st1"
      using spl None honest_spliceD(2) [OF h] z
      by (auto simp: try_splice_def Let_def split: if_splits prod.splits sum.splits)
    obtain d err w2 where rd: "pv__transfer_read_repeated S fd ?n w1 = ((d, err), w2)" by (metis prod.exhaust)
    note rr = read_repeated_run [OF h rd]
    have err: "err = None" using rr s by blast
    let ?st2 = "store_at (read_position st1) d st1"
    show ?thesis
    proof (cases "d = []")
      case True
      with run spl None rd err have "w' = w2 \<and> st' = ?st2 \<and> ok = 1 \<and> eof' = end_of_input ?st2 eof"
        by (auto simp: pv__transfer_read_def Let_def)
      moreover have "inp w = []" "inp w2 = []" using rr True n w1 err by auto
      ultimately show ?thesis using v same w1 True by (simp add: store_at_def)
    next
      case False
      with run spl None rd err w1 have "w' = w2 \<and> ok = 1 \<and> eof' = eof \<and>
          st' = ?st2\<lparr> read_errors_in_a_row := 0, read_position := read_position ?st2 + length d \<rparr>"
        by (simp add: pv__transfer_read_def Let_def store_at_def)
      moreover have "length (inp w) = length d + length (inp w2)" "inp w \<noteq> []"
        using rr w1 False by auto
      ultimately show ?thesis using v same w1 False
        by (auto simp: store_at_def intro!: exI [of _ "length d"])
    qed
  qed
  then show "ok = 1" "calm st st'" "write_position st' = write_position st"
    "inp w \<noteq> [] \<and> eof' = eof \<and> (splice_used st' \<and> to_write st = 0 \<and> read_position st' = read_position st \<and>
        length (inp w') < length (inp w) \<or>
      \<not> splice_used st' \<and> (\<exists>k > 0. length (inp w) = k + length (inp w') \<and>
        read_position st' = read_position st + k)) \<or>
     inp w = [] \<and> inp w' = [] \<and> \<not> splice_used st' \<and> read_position st' = read_position st \<and>
       eof' = end_of_input st' eof"
    "written st' = written st \<or> 0 \<le> written st'" by blast+
qed

text \<open>Writing: some of the data has left the buffer.\<close>

lemma write_live:
  assumes h: "honest S fd inp out" and s: "steady S fd" and f: "flowing S"
    and inv: "buffer_inv st" "allocated st"
    and tw: "0 < to_write st" "nat (to_write st) \<le> read_position st - write_position st"
    and run: "pv__transfer_write S st eof lw w = (ok, st', eof', lw', w')"
  shows "ok = 1 \<and> calm st st' \<and> inp w' = inp w \<and> (0 \<le> written st \<longrightarrow> 0 \<le> written st') \<and>
    (\<exists>n > 0. write_position st + n = read_position st \<and> write_position st' = 0 \<and> read_position st' = 0 \<and>
         eof' = (if eof_in eof then eof\<lparr> eof_out := True \<rparr> else eof) \<or>
       write_position st' = write_position st + n \<and> write_position st' < read_position st \<and>
         read_position st' = read_position st \<and> eof' = eof) \<and> splice_used st' = splice_used st"
proof -
  define d where "d = take (nat (to_write st)) (pending st)"
  have d: "buf_slice (write_position st) (nat (to_write st)) st = d"
    using tw(2) by (simp add: d_def slice_pending)
  have len: "length (pending st) = read_position st - write_position st"
    by (rule pending_length [OF inv(1)])
  have dl: "length d \<le> read_position st - write_position st" "d \<noteq> []"
    using tw len by (auto simp: d_def min_def)
  obtain r w1 where r: "pv__transfer_write_repeated S STDOUT_FILENO d w = (r, w1)" by (rule prod.exhaust)
  note v = write_repeated_run [OF h r]
  obtain n where n: "r = Inr n" "0 < n" "n \<le> length d"
    using v(2-4) s f dl(2) by (cases r) auto
  have fit: "write_position st + n \<le> read_position st" using n(3) dl(1) tw by linarith
  have up: "calm st (update_lastoutput n st')= calm st st'" for st st'
    by (simp add: update_lastoutput_def Let_def)
  have wp: "write_position (update_lastoutput n st') = write_position st'"
    "read_position (update_lastoutput n st') = read_position st'"
    "written (update_lastoutput n st') = written st'"
    "splice_used (update_lastoutput n st') = splice_used st'" for st'
    by (simp_all add: update_lastoutput_def Let_def)
  show ?thesis
    using run d r n fit v(1)
    by (auto simp: pv__transfer_write_def Let_def up wp split: if_splits intro!: exI [of _ n])
qed


text \<open>
  What is left to do for a file, and what holds between the rounds: the buffer starts with the
  data, no limit on the rate is set, and data in the buffer is what an open output waits for.
\<close>

definition work :: "('w \<Rightarrow> bytes) \<Rightarrow> pvstate \<Rightarrow> eofs \<Rightarrow> 'w \<Rightarrow> nat" where
  "work inp st eof w = 2 * length (inp w) + (read_position st - write_position st) +
     (if eof_in eof then 0 else 1) + (if eof_out eof then 0 else 1)"

definition live :: "pvstate \<Rightarrow> eofs \<Rightarrow> bool" where
  "live st eof \<longleftrightarrow> write_position st = 0 \<and> rate_limit st = 0 \<and> 0 < target_buffer_size st \<and>
     (allocated st \<longrightarrow> 0 < buffer_size st) \<and> (splice_used st \<longrightarrow> read_position st = 0) \<and>
     (eof_in eof \<and> \<not> eof_out eof \<longrightarrow> 0 < read_position st) \<and> (eof_out eof \<longrightarrow> eof_in eof)"

lemma trim_live:
  "calm st (trim_to_line st') = calm st st'" "write_position (trim_to_line st') = write_position st'"
  "read_position (trim_to_line st') = read_position st'" "splice_used (trim_to_line st') = splice_used st'"
  "written (trim_to_line st') = written st'" "allocated (trim_to_line st') = allocated st'"
  by (simp_all add: trim_to_line_def Let_def allocated_def)

lemma buffer_inv_trim [simp]: "buffer_inv (trim_to_line st) = buffer_inv st"
  by (cases "transfer_buffer st") (simp_all add: trim_to_line_def Let_def buffer_inv_def)

lemma trim_positive: "0 < to_write st \<Longrightarrow> 0 < to_write (trim_to_line st)"
proof -
  have "length (takeWhile (\<lambda>x. x \<noteq> 10) (rev t)) < length t" if "10 \<in> set t" for t :: bytes
    using that length_takeWhile_le [of "\<lambda>x. x \<noteq> 10" "rev t"] takeWhile_eq_all_conv [of "\<lambda>x. x \<noteq> 10" "rev t"]
    by (metis length_rev le_neq_implies_less set_rev takeWhile_eq_take take_all_iff order_refl)
  then show "0 < to_write st \<Longrightarrow> 0 < to_write (trim_to_line st)"
    by (simp add: trim_to_line_def Let_def)
qed

lemma rotate_live:
  "calm st (rotate_buffer st') = calm st st'" "write_position (rotate_buffer st) = 0"
  "write_position st \<le> read_position st \<Longrightarrow> read_position (rotate_buffer st) = read_position st - write_position st"
  "written (rotate_buffer st) = written st" "splice_used (rotate_buffer st) = splice_used st"
  by (auto simp: rotate_buffer_def store_at_def)

lemma ready_live:
  assumes h: "honest S fd inp out" and s: "steady S fd" and f: "flowing S" and l: "lively S fd"
    and inv: "buffer_inv st" "allocated st" and lv: "live st eof" and tw: "to_write st = int (read_position st)"
    and goes: "\<not> (eof_in eof \<and> eof_out eof)" and e: "eof_in eof \<Longrightarrow> inp w = []"
    and run: "transfer_ready S st fd eof a lw
        (\<not> eof_in eof \<and> read_position st < buffer_size st) (\<not> eof_out eof \<and> 0 < to_write st) w =
      (r, st', eof', lw', w')"
  shows "0 \<le> r \<and> calm st st' \<and> live st' eof' \<and> work inp st' eof' w' < work inp st eof w"
proof -
  let ?cr = "\<not> eof_in eof \<and> read_position st < buffer_size st"
  let ?cw = "\<not> eof_out eof \<and> 0 < to_write st"
  let ?st0 = "st\<lparr> written := 0 \<rparr>"
  have open': "\<not> eof_out eof" using lv goes by (auto simp: live_def)
  have inv0: "buffer_inv ?st0" "allocated ?st0"
    using inv by (cases "transfer_buffer st"; simp add: buffer_inv_def allocated_def)+
  have wp0: "write_position st = 0" "0 < buffer_size st" "read_position st \<le> buffer_size st"
    using lv inv by (auto simp: live_def buffer_inv_def)
  obtain ok st1 eof1 w1 where rd: "(if ?cr then pv__transfer_read S ?st0 fd eof a w
      else (1, ?st0, eof, w)) = (ok, st1, eof1, w1)" by (metis prod.exhaust)
  obtain k where k: "ok = 1" "calm st st1" "write_position st1 = 0" "0 \<le> written st1"
    "read_position st1 = read_position st + k" "length (inp w1) + k \<le> length (inp w)"
    "buffer_inv st1" "allocated st1" "to_write st1 = to_write st" and
    alt: "?cr \<and> eof1 = eof \<and> (splice_used st1 \<and> read_position st = 0 \<and> k = 0 \<and> length (inp w1) < length (inp w) \<or>
        \<not> splice_used st1 \<and> 0 < k) \<or>
      ?cr \<and> k = 0 \<and> inp w1 = [] \<and> \<not> splice_used st1 \<and> eof1 = end_of_input st1 eof \<or>
      \<not> ?cr \<and> k = 0 \<and> st1 = ?st0 \<and> eof1 = eof \<and> w1 = w"
  proof (cases ?cr)
    case False
    with rd inv0 wp0 that [of 0] show ?thesis by (auto simp: calm_def)
  next
    case True
    then have run1: "pv__transfer_read S ?st0 fd eof a w = (ok, st1, eof1, w1)" using rd by simp
    have room: "read_position ?st0 < buffer_size ?st0" using True by simp
    have sp: "to_write ?st0 = 0 \<Longrightarrow> pending ?st0 = [] \<or> 0 < rate_limit ?st0 \<and> a = 0"
      using tw pending_empty [OF inv0(1)] by simp
    note p = read_live [OF h s l inv0 room run1]
    note q = transfer_read_run [OF h inv0 room sp run1]
    have c: "calm st st1" using p(2) by (simp add: calm_def)
    show ?thesis
    proof (cases "inp w = []")
      case empty: True
      with p(4) have "inp w1 = []" "\<not> splice_used st1" "read_position st1 = read_position st"
        "eof1 = end_of_input st1 eof" by auto
      then show ?thesis using p(1,3,5) q(1,2,4) c wp0 True empty by (intro that [of 0]) auto
    next
      case False
      with p(4) consider (a) "splice_used st1" "to_write ?st0 = 0" "read_position st1 = read_position ?st0"
          "length (inp w1) < length (inp w)" "eof1 = eof"
        | (b) k where "\<not> splice_used st1" "0 < k" "length (inp w) = k + length (inp w1)"
          "read_position st1 = read_position ?st0 + k" "eof1 = eof" by auto
      then show ?thesis
      proof cases
        case a
        then show ?thesis using p(1,3,5) q(1,2,4) c wp0 True tw by (intro that [of 0]) auto
      next
        case b
        then show ?thesis using p(1,3,5) q(1,2,4) c wp0 True by (intro that [of k]) auto
      qed
    qed
  qed
  let ?st1 = "trim_to_line st1"
  let ?c = "?cw \<and> \<not> splice_used ?st1 \<and> read_position ?st1 > write_position ?st1 \<and> to_write ?st1 > 0"
  obtain ok2 st2 eof2 lw2 w2 where wr: "(if ?c then pv__transfer_write S ?st1 eof1 lw w1
      else (1, ?st1, eof1, lw, w1)) = (ok2, st2, eof2, lw2, w2)" by (metis prod.exhaust)
  have res: "ok2 = 1 \<Longrightarrow> r = written (rotate_buffer st2) \<and> st' = rotate_buffer st2 \<and> eof' = eof2 \<and> w' = w2"
    using run rd wr k(1) by (auto simp: transfer_ready_def Let_def)
  have writes: "writable st1" using k tw by (simp add: writable_def)
  show ?thesis
  proof (cases ?c)
    case True
    have w: "pv__transfer_write S ?st1 eof1 lw w1 = (ok2, st2, eof2, lw2, w2)" using wr True by simp
    have tw': "0 < to_write ?st1" "nat (to_write ?st1) \<le> read_position ?st1 - write_position ?st1"
      using True trim_run(2) [OF writes] by (simp_all add: writable_def)
    have "buffer_inv ?st1" "allocated ?st1" using k by (simp_all add: trim_live)
    note p = write_live [OF h s f this tw' w, unfolded trim_live]
    obtain n where n: "0 < n" "ok2 = 1" "calm ?st1 st2" "inp w2 = inp w1" "0 \<le> written st2"
      "splice_used st2 = splice_used st1" and
      alt2: "n = read_position st1 \<and> write_position st2 = 0 \<and> read_position st2 = 0 \<and>
           eof2 = (if eof_in eof1 then eof1\<lparr> eof_out := True \<rparr> else eof1) \<or>
         write_position st2 = n \<and> n < read_position st1 \<and> read_position st2 = read_position st1 \<and> eof2 = eof1"
      using p k(3,4) by auto
    have eof1: "eof_out eof1 \<Longrightarrow> eof_in eof1" "eof_in eof \<Longrightarrow> eof_in eof1" "eof_out eof \<Longrightarrow> eof_out eof1"
      using alt lv open' by (auto simp: end_of_input_def Let_def live_def)
    have rp: "read_position st' = read_position st1 - n" "write_position st' = 0" "n \<le> read_position st1"
      using res [OF n(2)] alt2 rotate_live(2,3) [of st2] by auto
    have c: "calm st st'"
      using res [OF n(2)] n(3) k(2) calm_trans [of st ?st1 st2] by (simp add: rotate_live(1) trim_live(1))
    have "\<not> splice_used st'" using res [OF n(2)] n(6) True by (simp add: rotate_live trim_live)
    moreover have "eof_in eof2 = eof_in eof1" "eof_out eof1 \<Longrightarrow> eof_out eof2"
      "eof_in eof2 \<and> \<not> eof_out eof2 \<longrightarrow> n < read_position st1" "eof_out eof2 \<longrightarrow> eof_in eof2"
      using alt2 eof1(1) by (auto split: if_splits)
    ultimately show ?thesis
      using res [OF n(2)] n rp c k(5,6) eof1 lv wp0
      by (auto simp: live_def calm_def work_def rotate_live)
  next
    case False
    have st2: "ok2 = 1" "st2 = ?st1" "eof2 = eof1" "w2 = w1" using wr [unfolded if_not_P [OF False]] by simp_all
    note r = res [OF st2(1), unfolded st2]
    have rp: "read_position st' = read_position st1" "write_position st' = 0" "splice_used st' = splice_used st1"
      "0 \<le> r" using r k(3,4) rotate_live(2-5) [of ?st1] by (simp_all add: trim_live)
    have c: "calm st st'" using r k(2) by (simp add: rotate_live(1) trim_live(1))
    have busy: "?cr"
    proof (rule ccontr)
      assume ncr: "\<not> ?cr"
      then have "st1 = ?st0" using alt by auto
      moreover have "0 < read_position st" using ncr lv open' wp0 by (auto simp: live_def)
      moreover have "\<not> splice_used st" using calculation(2) lv by (auto simp: live_def)
      ultimately show False
        using False tw open' trim_positive [of st1] wp0 by (auto simp: trim_live)
    qed
    then show ?thesis
      using alt r rp c k(3,5,6) lv wp0 open'
      by (auto simp: live_def calm_def work_def end_of_input_def Let_def split: if_splits)
  qed
qed


lemma set_to_write_live:
  assumes inv: "buffer_inv st" and lv: "live st eof"
  shows "to_write (set_to_write 0 st) = int (read_position st)" "live (set_to_write 0 st) eof"
    "calm st (set_to_write 0 st)"
proof -
  have le: "write_position st = 0" "read_position st < 2 ^ 62" "rate_limit st = 0"
    using inv lv by (simp_all add: buffer_inv_def live_def)
  then have "i64 (int (usub64 (read_position st) 0)) = int (read_position st)"
    by (simp add: usub64_le i64_nonneg)
  with le have s: "set_to_write 0 st = st\<lparr> to_write := int (read_position st) \<rparr>"
    by (simp add: set_to_write_def Let_def)
  show "to_write (set_to_write 0 st) = int (read_position st)" "live (set_to_write 0 st) eof"
    "calm st (set_to_write 0 st)"
    using lv by (simp_all add: s live_def allocated_def calm_def)
qed

lemma pv_transfer_live:
  assumes h: "honest S fd inp out" and s: "steady S fd" and f: "flowing S" and l: "lively S fd"
    and inv: "buffer_inv st" and lv: "live st eof"
    and goes: "\<not> (eof_in eof \<and> eof_out eof)" and e: "eof_in eof \<Longrightarrow> inp w = []"
    and run: "pv_transfer S st fd eof 0 lw w = (r, st', eof', lw', w')"
  shows "0 \<le> r" "exit_status st' = exit_status st" "live st' eof'" "work inp st' eof' w' < work inp st eof w"
proof -
  define st0 where "st0 = (if fd \<noteq> last_read_skip_fd st
      then st\<lparr> last_read_skip_fd := fd, read_errors_in_a_row := 0, read_error_warning_shown := False \<rparr> else st)"
  have s0: "same_data st st0" by (simp add: st0_def same_data_def)
  have l0: "live st0 eof" "exit_status st0 = exit_status st" "read_position st0 = read_position st"
    using lv by (simp_all add: st0_def live_def allocated_def)
  have inv0: "buffer_inv st0" using same_data_keeps [OF s0] inv by simp
  obtain ok st1 w1 where al: "alloc_buffer S st0 w = (ok, st1, w1)" by (metis prod.exhaust)
  note va = alloc_buffer_run [OF h inv0 al]
  have 1: "ok" "live st1 eof" "exit_status st1 = exit_status st" "read_position st1 = read_position st"
    using al l0 livelyD(2) [OF l]
    by (auto simp: alloc_buffer_def Let_def live_def allocated_def split: option.splits prod.splits)
  have inv1: "buffer_inv st1" "allocated st1" using va 1(1) by auto
  obtain st2 w2 where g: "grow_buffer S st1 w1 = (st2, w2)" by (rule prod.exhaust)
  note vg = grow_buffer_run [OF h inv1 g]
  have 2: "live st2 eof" "exit_status st2 = exit_status st" "read_position st2 = read_position st"
    using g 1 inv1(2) livelyD(2) [OF l]
    by (auto simp: grow_buffer_def live_def allocated_def split: option.splits prod.splits if_splits)
  let ?lw = "if linemode st2 then map_option (\<lambda>_. 0) lw else lw"
  let ?rfds = "if \<not> eof_in eof \<and> read_position st2 < buffer_size st2 then [fd] else []"
  let ?st3 = "set_to_write 0 st2"
  let ?wfds = "if \<not> eof_out eof \<and> to_write ?st3 > 0 then [STDOUT_FILENO] else []"
  obtain q w3 where q: "sys_select S ?rfds ?wfds 90000 w2 = (q, w3)" by (rule prod.exhaust)
  note vq = honest_selectD [OF h q]
  have all: "q = Inr (?rfds, ?wfds)" by (rule livelyD(1) [OF l q])
  note t = set_to_write_live [OF vg(1) 2(1)]
  have kw: "buffer_inv ?st3" "allocated ?st3" "buffer_size ?st3 = buffer_size st2"
    "read_position ?st3 = read_position st2"
    using same_data_to_write [OF set_to_write_run(1) [OF vg(1)], of 0] vg by simp_all
  have w3: "inp w3 = inp w" using va vg vq by simp
  have "transfer_ready S ?st3 fd eof 0 ?lw (\<not> eof_in eof \<and> read_position ?st3 < buffer_size ?st3)
      (\<not> eof_out eof \<and> 0 < to_write ?st3) w3 = (r, st', eof', lw', w')"
    using run al g q 1(1) goes all kw by (auto simp: pv_transfer_def Let_def st0_def [symmetric] split: if_splits)
  from ready_live [OF h s f l kw(1,2) t(2) _ goes _ this] t(1,3) kw(4) e w3
  have r: "0 \<le> r" "calm ?st3 st'" "live st' eof'" "work inp st' eof' w' < work inp ?st3 eof w3" by auto
  show "0 \<le> r" "live st' eof'" by (fact r)+
  show "exit_status st' = exit_status st" using r(2) t(3) 2(2) by (simp add: calm_def)
  have "write_position ?st3 = 0" "write_position st = 0" using t(2) lv by (simp_all add: live_def)
  then show "work inp st' eof' w' < work inp st eof w"
    using r(4) kw(4) 2(3) w3 by (simp add: work_def)
qed


section \<open>The world in which the loop ends\<close>

text \<open>
  Every file can be opened and is not the output; the display and the rest change nothing that the
  transfer uses, the limits included; no signal asks to abort.
\<close>

definition files_open :: "'w sysfile \<Rightarrow> bool" where
  "files_open S \<longleftrightarrow>
     (\<forall>name w. \<exists>fd w'. sys_open_r S name w = (Inr fd, w') \<and> fd \<noteq> STDOUT_FILENO) \<and>
     (\<forall>fd w. \<exists>w'. sys_close S fd w = (Inr (), w')) \<and>
     (\<forall>fd w. \<exists>sb w'. sys_fstat S fd w = (Inr sb, w')) \<and>
     (\<forall>fd w isb w' osb w1 w2. fd \<noteq> STDOUT_FILENO \<longrightarrow> sys_fstat S fd w = (Inr isb, w1) \<longrightarrow>
        sys_fstat S STDOUT_FILENO w' = (Inr osb, w2) \<longrightarrow> \<not> is_output_file isb osb False)"

definition untroubled ::
  "(int \<Rightarrow> 'w \<Rightarrow> bytes) \<Rightarrow> ('w \<Rightarrow> bytes) \<Rightarrow> pvstate \<Rightarrow> 'w \<Rightarrow> pvstate \<Rightarrow> 'w \<Rightarrow> bool" where
  "untroubled inp out st w st' w' \<longleftrightarrow> still inp out w w' \<and> same_data st st' \<and>
     exit_status st' = exit_status st \<and> splice_used st' = splice_used st"

definition hands_off ::
  "(int \<Rightarrow> 'w \<Rightarrow> bytes) \<Rightarrow> ('w \<Rightarrow> bytes) \<Rightarrow> (pvstate \<Rightarrow> 'w \<Rightarrow> pvstate \<times> 'w) \<Rightarrow> bool" where
  "hands_off inp out f \<longleftrightarrow> (\<forall>st w. case f st w of (st', w') \<Rightarrow> untroubled inp out st w st' w')"

definition calm_env ::
  "'w sysloop \<Rightarrow> (int \<Rightarrow> 'w \<Rightarrow> bytes) \<Rightarrow> ('w \<Rightarrow> bytes) \<Rightarrow> (string \<Rightarrow> bytes) \<Rightarrow> bool" where
  "calm_env S inp out content \<longleftrightarrow>
     loop_env S inp out content \<and> (\<forall>fd. lively (sysio.truncate S) fd) \<and> files_open (sysfile.truncate S) \<and>
     hands_off inp out (run_remote_check S) \<and> hands_off inp out (run_crs_init S) \<and>
     hands_off inp out (run_crs_fini S) \<and> hands_off inp out (run_screensize S) \<and>
     (\<forall>elapsed since tot. hands_off inp out (\<lambda>st. run_display S st elapsed since tot)) \<and>
     (\<forall>w. \<not> sig_abort S w)"

lemma calm_envD:
  assumes "calm_env S inp out content"
  shows "loop_env S inp out content" "lively (sysio.truncate S) fd" "files_open (sysfile.truncate S)"
    "hands_off inp out (run_remote_check S)" "hands_off inp out (run_crs_init S)"
    "hands_off inp out (run_crs_fini S)" "hands_off inp out (run_screensize S)"
    "hands_off inp out (\<lambda>st. run_display S st elapsed since tot)" "\<not> sig_abort S w"
  using assms by (simp_all add: calm_env_def)

lemma untroubled_trans:
  "untroubled inp out st w st1 w1 \<Longrightarrow> untroubled inp out st1 w1 st2 w2 \<Longrightarrow> untroubled inp out st w st2 w2"
  using same_data_trans [of st st1 st2] still_trans [of inp out w w1 w2] by (simp add: untroubled_def)

lemma untroubled_still: "still inp out w w' \<Longrightarrow> untroubled inp out st w st w'"
  by (simp add: untroubled_def)

lemma hands_offD: "hands_off inp out f \<Longrightarrow> f st w = (st', w') \<Longrightarrow> untroubled inp out st w st' w'"
  unfolding hands_off_def by (metis case_prodD)

lemma untroubled_live:
  assumes "untroubled inp out st w st' w'"
  shows "live st' eof = live st eof" "work (inp fd) st' eof w' = work (inp fd) st eof w"
    "exit_status st' = exit_status st"
  using assms by (auto simp: untroubled_def same_data_def live_def allocated_def work_def still_def)

lemma adopt_file_live:
  assumes o: "files_open S" and f: "0 \<le> f" "f \<noteq> STDOUT_FILENO"
    and run: "adopt_file S st name f w = (fd, st', w')"
  shows "0 \<le> fd"
proof -
  obtain isb w1 where 1: "sys_fstat S f w = (Inr isb, w1)" using o unfolding files_open_def by blast
  obtain osb w2 where 2: "sys_fstat S STDOUT_FILENO w1 = (Inr osb, w2)" using o unfolding files_open_def by blast
  have "\<not> is_output_file isb osb False" using o f(2) 1 2 unfolding files_open_def by blast
  then have "\<not> is_output_file isb osb tty" for tty by (auto simp: is_output_file_def)
  with run 1 2 f(1) show ?thesis by (auto simp: adopt_file_def split: prod.splits)
qed

lemma next_file_live:
  assumes env: "file_env S inp out content" and o: "files_open S"
    and n: "0 \<le> n" "n < int (length (input_files st))"
    and run: "pv_next_file S st n oldfd w = (fd, st', w')"
  shows "0 \<le> fd"
proof -
  let ?name = "input_files st ! nat n"
  obtain w1 where c: "(if 0 < oldfd then sys_close S oldfd w else (Inr (), w)) = (Inr (), w1)"
    using o unfolding files_open_def by (metis (full_types))
  obtain f w2 where op: "sys_open_r S ?name w1 = (Inr f, w2)" "f \<noteq> STDOUT_FILENO"
    using o unfolding files_open_def by blast
  have "0 \<le> f" using file_envD(1) [OF env op(1)] by blast
  moreover have "adopt_file S st ?name STDIN_FILENO w1 = (fd, st', w') \<or> adopt_file S st ?name f w2 = (fd, st', w')"
    using run c op(1) n by (auto simp: pv_next_file_def Let_def split: if_splits)
  ultimately show ?thesis
    using adopt_file_live [OF o] op(2) by (metis STDIN_FILENO_def STDOUT_FILENO_def order_refl zero_neq_one)
qed

section \<open>A turn makes progress\<close>

lemma show_progress_live:
  assumes env: "calm_env S inp out content" and run: "show_progress S st lv n w = (st', lv', w')"
  shows "untroubled inp out st w st' w'"
proof -
  note l = calm_envD(1) [OF env]
  have clear: "still inp out w (clear_toffset S w)" for w
    using loop_envD(5) [OF l] by (simp add: side_env_def)
  have upd: "untroubled inp out st1 w1 st2 w2" if "update_display S st1 lv1 w1 = (st2, lv2, w2)"
    for st1 lv1 w1 st2 lv2 w2
  proof (cases "time_reached (cur_time lv1) (next_update lv1)")
    case False
    with that show ?thesis by (simp add: update_display_def untroubled_def)
  next
    case True
    obtain st3 w3 where s: "run_screensize S st1 w1 = (st3, w3)" by (rule prod.exhaust)
    from that True s obtain e s' tt where "run_display S st3 e s' tt w3 = (st2, w2)"
      by (auto simp: update_display_def Let_def split: prod.splits)
    with hands_offD [OF calm_envD(7) [OF env] s] hands_offD [OF calm_envD(8) [OF env]] show ?thesis
      by (blast intro: untroubled_trans)
  qed
  obtain st1 lv1 w1 where c: "start_clock S st lv w = (st1, lv1, w1)" by (metis prod.exhaust)
  have "untroubled inp out st w st1 w1"
    using c still_trans [OF loop_time [OF l] clear]
    by (auto simp: start_clock_def untroubled_def same_data_def split: if_splits prod.splits)
  moreover have "update_display S st1 lv1 w1 = (st', lv', w') \<or> st' = st \<and> w' = w"
    using run c by (auto simp: show_progress_def split: if_splits)
  ultimately show ?thesis using upd by (auto intro: untroubled_trans untroubled_still)
qed


lemma transfer_turn_live:
  assumes env: "calm_env S inp out content" and inv: "lv_inv inp out content G files st lv w"
    and lv: "live st (lv_eofs lv)" and goes: "\<not> (eof_in (lv_eofs lv) \<and> eof_out (lv_eofs lv))"
    and run: "transfer_turn S st lv w = (n, st', lv', w')"
  shows "0 \<le> n \<and> exit_status st' = exit_status st \<and> live st' (lv_eofs lv') \<and>
    lv_fd lv' = lv_fd lv \<and> lv_file lv' = lv_file lv \<and> final_update lv' = final_update lv \<and>
    work (inp (lv_fd lv)) st' (lv_eofs lv') w' < work (inp (lv_fd lv)) st (lv_eofs lv) w"
proof -
  note l = calm_envD(1) [OF env]
  have z: "\<not> stop_at_size st" "rate_limit st = 0" "buffer_inv st"
    using inv lv by (simp_all add: loop_inv_def live_def)
  have e: "eof_in (lv_eofs lv) \<Longrightarrow> inp (lv_fd lv) w = []" using inv by (simp add: loop_inv_def eof_ok_def)
  obtain eof2 lw2 where t: "pv_transfer (sysio.truncate S) st (lv_fd lv) (lv_eofs lv) 0 (Some (lv_lines lv)) w =
      (n, st', eof2, lw2, w')"
    and lv': "lv' = lv\<lparr> lv_eofs := eof2, lv_lines := (case lw2 of Some l \<Rightarrow> l | None \<Rightarrow> lv_lines lv) \<rparr>"
    using run z by (auto simp: transfer_turn_def size_allowance_def rate_allowance_def u64_def split: prod.splits)
  from pv_transfer_live [OF loop_envD(1-3) [OF l] calm_envD(2) [OF env] z(3) lv goes e t] lv'
  show ?thesis by simp
qed

text \<open>What is left to do in all.\<close>

definition to_come :: "(string \<Rightarrow> bytes) \<Rightarrow> string list \<Rightarrow> nat" where
  "to_come content names = (\<Sum>name \<leftarrow> names. 2 * length (content name) + 3)"

definition to_do ::
  "(int \<Rightarrow> 'w \<Rightarrow> bytes) \<Rightarrow> (string \<Rightarrow> bytes) \<Rightarrow> string list \<Rightarrow> pvstate \<Rightarrow> loop_vars \<Rightarrow> 'w \<Rightarrow> nat" where
  "to_do inp content files st lv w =
     work (inp (lv_fd lv)) st (lv_eofs lv) w + to_come content (drop (Suc (lv_file lv)) files)"

definition fin :: "loop_vars \<Rightarrow> bool" where
  "fin lv \<longleftrightarrow> (eof_in (lv_eofs lv) \<and> eof_out (lv_eofs lv) \<longrightarrow> final_update lv)"

lemma next_input_live:
  assumes env: "calm_env S inp out content" and n: "named files"
    and inv: "lv_inv inp out content G files st lv w" and lv: "live st (lv_eofs lv)"
    and run: "next_input S st lv w = (bad, st', lv', w')"
  shows "\<not> bad \<and> exit_status st' = exit_status st \<and> live st' (lv_eofs lv') \<and>
    to_do inp content files st' lv' w' \<le> to_do inp content files st lv w"
proof -
  note l = calm_envD(1) [OF env]
  have files: "input_files st = files" using inv by (simp add: loop_inv_def)
  let ?go = "eof_in (lv_eofs lv) \<and> eof_out (lv_eofs lv) \<and> int (lv_file lv) < int (length (input_files st)) - 1"
  show ?thesis
  proof (cases ?go)
    case False
    with run lv show ?thesis by (auto simp: next_input_def)
  next
    case True
    then have "int (lv_file lv) < int (length files) - 1" by (simp add: files)
    then have i: "Suc (lv_file lv) < length files" by linarith
    obtain fd st1 w1 where f: "pv_next_file (sysfile.truncate S) st (int (lv_file lv) + 1) (lv_fd lv) w = (fd, st1, w1)"
      by (metis prod.exhaust)
    have name: "input_files st ! nat (int (lv_file lv) + 1) = files ! Suc (lv_file lv)"
      using files by (simp add: nat_add_distrib)
    have "0 \<le> fd"
      by (rule next_file_live [OF loop_envD(4) [OF l] calm_envD(3) [OF env] _ _ f]) (use True in auto)
    with next_file_run [OF loop_envD(4) [OF l] f, unfolded name] named_nth [OF n i]
    obtain c where ok: "inp fd w1 = content (files ! Suc (lv_file lv))" "st1 = st\<lparr> current_file := c \<rparr>"
      by auto
    have run': "\<not> bad" "st' = st1" "w' = w1" "lv' = lv\<lparr> lv_file := lv_file lv + 1, lv_fd := fd,
        lv_eofs := both_open \<rparr>"
      using run True f \<open>0 \<le> fd\<close> by (simp_all add: next_input_def)
    have "pending st = []" "buffer_inv st"
      using inv \<open>?go\<close> by (auto simp: loop_inv_def eof_ok_def)
    then have rp: "read_position st = write_position st"
      using pending_length [of st] by (simp add: buffer_inv_def)
    have d: "drop (Suc (lv_file lv)) files = files ! Suc (lv_file lv) # drop (Suc (Suc (lv_file lv))) files"
      using i by (rule Cons_nth_drop_Suc [symmetric])
    have "live st' (lv_eofs lv')" using lv run' ok(2) by (simp add: live_def allocated_def)
    moreover have "to_do inp content files st' lv' w' \<le> to_do inp content files st lv w"
      using run' ok rp by (simp add: to_do_def work_def to_come_def d)
    ultimately show ?thesis using run' ok(2) by simp
  qed
qed

lemma loop_turn_live:
  assumes env: "calm_env S inp out content" and n: "named files"
    and inv: "lv_inv inp out content G files st lv w" and lv: "live st (lv_eofs lv)"
    and goes: "\<not> (eof_in (lv_eofs lv) \<and> eof_out (lv_eofs lv))"
  shows "\<exists>st' lv' w'. loop_turn S st lv w = Continue st' lv' w' \<and> exit_status st' = exit_status st \<and>
    live st' (lv_eofs lv') \<and> fin lv' \<and> to_do inp content files st' lv' w' < to_do inp content files st lv w"
proof -
  note l = calm_envD(1) [OF env]
  have remote: "leaves inp out (run_remote_check S)" using loop_envD(5) [OF l] by (simp add: side_env_def)
  obtain st1 lv1 w1 where r: "(if time_reached (cur_time lv) (next_remotecheck lv)
      then (case run_remote_check S st w of (st, w) \<Rightarrow>
              (st, lv\<lparr> next_remotecheck := pv_timeval_add_usec (next_remotecheck lv) REMOTE_INTERVAL \<rparr>, w))
      else (st, lv, w)) = (st1, lv1, w1)" by (metis prod.exhaust)
  have inv1: "lv_inv inp out content G files st1 lv1 w1"
    using r inv by (auto split: if_splits prod.splits dest: loop_inv_callback [OF remote])
  have u1: "untroubled inp out st w st1 w1" and p1: "same_place lv lv1"
    using r hands_offD [OF calm_envD(4) [OF env]] by (auto simp: untroubled_still same_place_def split: if_splits prod.splits)
  have lv1: "live st1 (lv_eofs lv1)" "\<not> (eof_in (lv_eofs lv1) \<and> eof_out (lv_eofs lv1))"
    using untroubled_live(1) [OF u1] p1 lv goes by (simp_all add: same_place_def)
  have na: "\<not> sig_abort S w1" by (rule calm_envD(9) [OF env])
  obtain k st2 lv2 w2 where tt: "transfer_turn S st1 lv1 w1 = (k, st2, lv2, w2)" by (metis prod.exhaust)
  note v2 = transfer_turn_live [OF env inv1 lv1 tt]
  have inv2: "lv_inv inp out content G files st2 (account st2 k lv2) w2"
    using transfer_turn_inv(1) [OF l inv1 tt] by simp
  obtain bad st3 lv3 w3 where ni: "next_input S st2 (account st2 k lv2) w2 = (bad, st3, lv3, w3)"
    by (metis prod.exhaust)
  have "live st2 (lv_eofs (account st2 k lv2))" using v2 by simp
  note v3 = next_input_live [OF env n inv2 this ni]
  obtain now w4 where tm: "sys_time S w3 = (now, w4)" by (rule prod.exhaust)
  define lv4 where "lv4 = (let lv = lv3\<lparr> cur_time := now \<rparr>
    in if eof_in (lv_eofs lv) \<and> eof_out (lv_eofs lv)
       then lv\<lparr> final_update := True,
         next_update := (if display_visible st3 \<or> delay_start st3 = 0
                         then (fst now - 1, snd (next_update lv)) else next_update lv) \<rparr>
       else lv)"
  have k4: "lv_fd lv4 = lv_fd lv3" "lv_file lv4 = lv_file lv3" "lv_eofs lv4 = lv_eofs lv3" "fin lv4"
    by (auto simp: lv4_def Let_def fin_def)
  obtain st5 lv5 w5 where sp: "show_progress S st3 lv4 k w4 = (st5, lv5, w5)" by (metis prod.exhaust)
  have turn: "loop_turn S st lv w = Continue st5 lv5 w5"
    using r na tt v2 v3 ni tm sp by (simp add: loop_turn_def Let_def lv4_def)
  note u4 = untroubled_still [OF loop_time [OF l tm], of st3]
  have "lv_inv inp out content G files st3 lv4 w4"
    using loop_inv_still [OF _ loop_time [OF l tm]] next_input_inv(2) [OF l n inv2 ni] v3 k4 by simp
  then have p5: "same_place lv4 lv5" using show_progress_inv [OF l _ sp] by blast
  note u5 = untroubled_trans [OF u4 show_progress_live [OF env sp]]
  have do5: "to_do inp content files st5 lv5 w5 = to_do inp content files st3 lv3 w3"
    using untroubled_live(2) [OF u5] p5 k4 by (simp add: to_do_def same_place_def)
  have do2: "to_do inp content files st2 (account st2 k lv2) w2 < to_do inp content files st lv w"
    using v2 untroubled_live(2) [OF u1] p1 by (simp add: to_do_def same_place_def)
  have "live st5 (lv_eofs lv5)" "fin lv5" "exit_status st5 = exit_status st"
    using untroubled_live(1,3) [OF u5] untroubled_live(3) [OF u1] v2 v3 p5 k4
    by (simp_all add: fin_def same_place_def)
  with turn do5 do2 v3 show ?thesis by auto
qed

lemma main_turns_live:
  assumes env: "calm_env S inp out content" and n: "named files"
  shows "lv_inv inp out content G files st lv w \<Longrightarrow> live st (lv_eofs lv) \<Longrightarrow> fin lv \<Longrightarrow>
    to_do inp content files st lv w < fuel \<Longrightarrow>
    \<exists>st' lv' w'. main_turns fuel S st lv w = Some (Break st' lv' w') \<and> exit_status st' = exit_status st"
proof (induction fuel arbitrary: st lv w)
  case (Suc fuel)
  show ?case
  proof (cases "eof_in (lv_eofs lv) \<and> eof_out (lv_eofs lv)")
    case True
    with Suc.prems(3) show ?thesis by (simp add: fin_def)
  next
    case False
    obtain st1 lv1 w1 where t: "loop_turn S st lv w = Continue st1 lv1 w1" "exit_status st1 = exit_status st"
      "live st1 (lv_eofs lv1)" "fin lv1" "to_do inp content files st1 lv1 w1 < to_do inp content files st lv w"
      using loop_turn_live [OF env n Suc.prems(1,2) False] by blast
    have "lv_inv inp out content G files st1 lv1 w1"
      using loop_turn_inv [OF calm_envD(1) [OF env] n Suc.prems(1) t(1)] by simp
    from Suc.IH [OF this t(3,4)] t(5) Suc.prems(4) False t(1,2) show ?thesis by auto
  qed
qed simp


section \<open>The whole loop\<close>

lemma choose_buffer_size_live:
  assumes "choose_buffer_size S st fd w = (st', w')"
  shows "\<exists>n. 0 < n \<and> st' = st\<lparr> target_buffer_size := n \<rparr>"
proof -
  obtain r w1 where s: "sys_fstat S fd w = (r, w1)" by (rule prod.exhaust)
  let ?m = "if target_buffer_size st = 0
      then (case r of Inr sb \<Rightarrow> min (nat (st_blksize sb * 32)) BUFFER_SIZE_MAX | Inl e \<Rightarrow> 0)
      else target_buffer_size st"
  have "st' = st\<lparr> target_buffer_size := (if ?m = 0 then BUFFER_SIZE else ?m) \<rparr>"
    using assms s by (cases r) (auto simp: choose_buffer_size_def Let_def)
  moreover have "0 < (if ?m = 0 then BUFFER_SIZE else ?m)" by (simp add: BUFFER_SIZE_def)
  ultimately show ?thesis by blast
qed

lemma finish_loop_status:
  assumes env: "calm_env S inp out content"
  shows "\<exists>st' w'. finish_loop S st lv w = (exit_status st, st', w')"
proof -
  obtain st1 w1 where f: "(if cursor st then run_crs_fini S st w
      else if \<not> numeric st \<and> \<not> no_op st \<and> display_visible st
      then (st, snd (sys_write S 2 [10] w)) else (st, w)) = (st1, w1)" by (rule prod.exhaust)
  have "exit_status st1 = exit_status st"
    using f hands_offD [OF calm_envD(6) [OF env]] by (auto simp: untroubled_def split: if_splits)
  with f calm_envD(9) [OF env] show ?thesis by (simp add: finish_loop_def)
qed

lemma main_loop_live:
  assumes env: "calm_env S inp out content" and n: "named (input_files st)" "input_files st \<noteq> []"
    and st: "buffer_inv st" "transfer_buffer st = None" "\<not> stop_at_size st" "rate_limit st = 0"
    and stdin: "inp STDIN_FILENO w = content stdin_name"
    and fuel: "to_come content (input_files st) \<le> fuel"
  shows "\<exists>st' w'. pv_main_loop fuel S st w = Some (exit_status st, st', w')"
proof -
  let ?files = "input_files st"
  note l = calm_envD(1) [OF env]
  have init: "leaves inp out (run_crs_init S)" using loop_envD(5) [OF l] by (simp add: side_env_def)
  obtain st1 w1 where c: "run_crs_init S st w = (st1, w1)" by (rule prod.exhaust)
  note v1 = leavesD [OF init c] and u1 = hands_offD [OF calm_envD(5) [OF env] c]
  define st2 where "st2 = st1\<lparr> initial_offset := 0 \<rparr>"
  have s2: "buffer_inv st2" "transfer_buffer st2 = None" "\<not> stop_at_size st2" "input_files st2 = ?files"
    "rate_limit st2 = 0" "exit_status st2 = exit_status st"
    using v1 u1 st by (simp_all add: st2_def settled_def untroubled_def same_data_def buffer_inv_def)
  obtain start w2 where t1: "sys_time S w1 = (start, w2)" by (rule prod.exhaust)
  obtain now w3 where t2: "sys_time S w2 = (now, w3)" by (rule prod.exhaust)
  have w3: "still inp out w w3"
    using v1 loop_time [OF l t1] loop_time [OF l t2] by (metis still_trans)
  obtain fd st3 w4 where nf: "pv_next_file (sysfile.truncate S) st2 0 (- 1) w3 = (fd, st3, w4)"
    by (metis prod.exhaust)
  have fd: "0 \<le> fd"
    by (rule next_file_live [OF loop_envD(4) [OF l] calm_envD(3) [OF env] _ _ nf]) (use n(2) s2(4) in auto)
  have "inp STDIN_FILENO w3 = content stdin_name" using w3 stdin by (simp add: still_def)
  from next_file_run [OF loop_envD(4) [OF l] nf, simplified, OF this] fd s2(4)
  obtain cf where ok: "inp fd w4 = content (?files ! 0)" "out w4 = out w3" "st3 = st2\<lparr> current_file := cf \<rparr>"
    by auto
  have sd: "same_data st2 st3" by (simp add: ok(3) same_data_def)
  have pos: "read_position st2 = 0" "write_position st2 = 0" using s2(1,2) by (simp_all add: buffer_inv_def)
  then have "pending st2 = []" by (simp add: pending_def buf_slice_def)
  then have inv4: "loop_inv inp out content (out w4 @ content (?files ! 0) @ concat (map content (drop (Suc 0) ?files)))
      ?files st3 fd 0 both_open w4"
    using ok s2 n(2) same_data_keeps [OF sd] by (simp add: loop_inv_def stream_def eof_ok_def)
  obtain st4 w5 where cb: "choose_buffer_size S st3 fd w4 = (st4, w5)" by (rule prod.exhaust)
  note inv5 = choose_buffer_size_inv [OF l inv4 cb]
  obtain m where m: "0 < m" "st4 = st3\<lparr> target_buffer_size := m \<rparr>" using choose_buffer_size_live [OF cb] by blast
  have w5: "still inp out w4 w5"
    using cb file_envD(2) [OF loop_envD(4) [OF l], of fd w4]
    by (auto simp: choose_buffer_size_def Let_def sysfile.defs split: prod.splits)
  let ?lv = "loop_start st2 start now fd"
  have lv: "lv_fd ?lv = fd" "lv_file ?lv = 0" "lv_eofs ?lv = both_open"
    by (simp_all add: loop_start_def Let_def)
  have "live st4 both_open" using m ok(3) s2 pos by (simp add: live_def allocated_def)
  moreover have "to_do inp content ?files st4 ?lv w5 < fuel"
  proof -
    have "to_come content ?files = 2 * length (content (?files ! 0)) + 3 + to_come content (drop (Suc 0) ?files)"
      using n(2) by (cases ?files) (simp_all add: to_come_def)
    with fuel w5 ok(1,3) m pos show ?thesis by (simp add: to_do_def lv work_def still_def)
  qed
  ultimately have "\<exists>st6 lv6 w6. main_turns fuel S st4 ?lv w5 = Some (Break st6 lv6 w6) \<and>
      exit_status st6 = exit_status st4"
    using main_turns_live [OF env n(1), of _ st4 ?lv w5 fuel] inv5 lv by (simp add: fin_def)
  then obtain st6 lv6 w6 where t: "main_turns fuel S st4 ?lv w5 = Some (Break st6 lv6 w6)"
    "exit_status st6 = exit_status st4" by blast
  obtain st7 w7 where fl: "finish_loop S st6 lv6 w6 = (exit_status st6, st7, w7)"
    using finish_loop_status [OF env] by blast
  have "pv_main_loop fuel S st w = Some (exit_status st6, st7, w7)"
    using c t1 t2 nf fd cb t(1) fl by (simp add: pv_main_loop_def Let_def st2_def)
  moreover have "exit_status st6 = exit_status st" using t(2) m ok(3) s2(6) by simp
  ultimately show ?thesis by auto
qed

section \<open>A world to copy files in\<close>

text \<open>
  Two files, opened on descriptor 3, in the world of the pipe: what is left of the open file, and
  the output. The display writes nothing.
\<close>

definition copy_content :: "string \<Rightarrow> bytes" where
  "copy_content name = (if name = ''a'' then [1, 2] else if name = ''b'' then [3] else [])"

definition copy_stat :: "int \<Rightarrow> stat64" where
  "copy_stat ino = \<lparr> st_dev = 1, st_ino = ino, st_kind = S_REG, st_size = 0, st_blksize = 512 \<rparr>"

definition copy_pipe :: "(bytes \<times> bytes) sysio" where
  "copy_pipe = pipe_sys\<lparr> sys_write := (\<lambda>fd d w.
     (Inr (length d), if fd = STDOUT_FILENO then (fst w, snd w @ d) else w)) \<rparr>"

definition copy_files :: "(bytes \<times> bytes) sysfile" where
  "copy_files = sysio.extend copy_pipe
     \<lparr> sys_stat = (\<lambda>s w. (Inr (copy_stat 2), w)),
       sys_fstat = (\<lambda>fd w. (Inr (copy_stat (if fd = STDOUT_FILENO then 1 else 2)), w)),
       sys_access_r = (\<lambda>s w. (Inr (), w)),
       sys_open_r = (\<lambda>s w. (Inr 3, (copy_content s, snd w))),
       sys_close = (\<lambda>fd w. (Inr (), w)),
       sys_dup = (\<lambda>fd w. (Inr 3, w)),
       sys_append_mode = (\<lambda>fd w. (False, w)),
       sys_isatty = (\<lambda>fd w. (False, w)) \<rparr>"


definition copy_sys :: "(bytes \<times> bytes) sysloop" where
  "copy_sys = sysfile.extend copy_files
     \<lparr> run_remote_check = Pair, run_display = (\<lambda>st elapsed since tot. Pair st),
       run_crs_init = Pair, run_crs_fini = Pair, run_screensize = Pair,
       sig_abort = (\<lambda>w. False), sig_toffset = (\<lambda>w. (0, 0)), clear_toffset = (\<lambda>w. w) \<rparr>"

definition copy_state :: pvstate where
  "copy_state = (pipe_state 0)\<lparr> input_files := [''a'', ''b''] \<rparr>"

lemma copy_sys_pipe: "sysio.truncate copy_sys = copy_pipe"
  by (simp add: copy_sys_def copy_files_def copy_pipe_def pipe_sys_def sysio.defs sysfile.defs)

lemma copy_sys_files: "sysfile.truncate copy_sys = copy_files"
  by (simp add: copy_sys_def copy_files_def copy_pipe_def pipe_sys_def sysio.defs sysfile.defs)

lemma copy_honest: "honest copy_pipe fd fst snd" "steady copy_pipe fd" "flowing copy_pipe" "lively copy_pipe fd"
  by (auto simp: honest_def honest_read_def honest_write_def honest_splice_def honest_select_def
      honest_lseek_def untouched_def steady_def flowing_def lively_def copy_pipe_def pipe_sys_def errno_defs)

lemma copy_file_env: "file_env copy_files (\<lambda>fd. fst) snd copy_content" "files_open copy_files"
  by (auto simp: file_env_def files_open_def still_def copy_files_def copy_pipe_def pipe_sys_def sysio.defs
      copy_stat_def is_output_file_def STDOUT_FILENO_def)

lemma pair_leaves: "leaves inp out Pair" "hands_off inp out Pair"
  by (auto simp: leaves_def settled_def hands_off_def untroubled_def)

lemma copy_calm: "calm_env copy_sys (\<lambda>fd. fst) snd copy_content"
proof -
  have cb: "run_remote_check copy_sys = Pair" "run_crs_init copy_sys = Pair" "run_crs_fini copy_sys = Pair"
    "run_screensize copy_sys = Pair" "(\<lambda>st. run_display copy_sys st e s t) = Pair"
    "clear_toffset copy_sys = (\<lambda>w. w)" "sig_abort copy_sys = (\<lambda>w. False)" for e s t
    by (simp_all add: copy_sys_def copy_files_def copy_pipe_def pipe_sys_def sysio.defs sysfile.defs)
  have wr: "snd (snd (sys_write copy_sys 2 d w)) = snd w" for d w
    by (simp add: copy_sys_def copy_files_def copy_pipe_def pipe_sys_def sysio.defs sysfile.defs STDOUT_FILENO_def)
  show ?thesis
    unfolding calm_env_def loop_env_def side_env_def cb copy_sys_pipe copy_sys_files
    by (auto simp: copy_honest copy_file_env pair_leaves wr)
qed

lemma copy_state_ok:
  "buffer_inv copy_state" "transfer_buffer copy_state = None" "pending copy_state = []"
  "\<not> stop_at_size copy_state" "rate_limit copy_state = 0" "input_files copy_state = [''a'', ''b'']"
  "exit_status copy_state = 0" "named (input_files copy_state)"
  by (simp_all add: copy_state_def pipe_state_def pv_state_alloc_def buffer_inv_def pending_def buf_slice_def
      named_def stdin_name_def)

section \<open>The properties of the loop\<close>

text \<open>
  When \<open>pv\<close> exits with status 0, the output has received the contents of its input files, one
  after the other, complete and in order. The sizes of the reads and writes, \<open>splice\<close> or not, line
  mode, the rate limit, the times and the display do not matter; reads must not fail, writes must
  make progress, and the loop must not be told to stop at a size.
\<close>

theorem main_loop_copies:
  assumes "loop_env S inp out content" "named (input_files st)"
    and "buffer_inv st" "pending st = []" "\<not> stop_at_size st"
    and "inp STDIN_FILENO w = content stdin_name"
    and "pv_main_loop fuel S st w = Some (0, st', w')"
  shows "out w' = out w @ concat (map content (input_files st))"
  using assms by (rule main_loop_run)

theorem main_loop_copies_witness:
  "\<exists>fuel st' w'. pv_main_loop fuel copy_sys copy_state ([], []) = Some (0, st', w') \<and> snd w' = [1, 2, 3]"
proof -
  have stdin: "fst ([], [] :: bytes) = copy_content stdin_name" by (simp add: copy_content_def stdin_name_def)
  obtain st' w' where run: "pv_main_loop 12 copy_sys copy_state ([], []) = Some (0, st', w')"
    using main_loop_live [OF copy_calm copy_state_ok(8) _ copy_state_ok(1,2,4,5) stdin, of 12]
    by (auto simp: copy_state_ok to_come_def copy_content_def)
  have "snd w' = snd ([] :: bytes, [] :: bytes) @ concat (map copy_content (input_files copy_state))"
    by (rule main_loop_copies [OF calm_envD(1) [OF copy_calm] copy_state_ok(8,1,3,4) stdin run])
  then have "snd w' = [1, 2, 3]" by (simp add: copy_state_ok copy_content_def)
  with run show ?thesis by blast
qed

text \<open>
  C19. The loop ends, with the exit status it started with: on descriptors that are always ready, with
  no limit on the rate, the number of turns is at most twice the number of bytes and three more
  for each file.
\<close>

theorem main_loop_returns:
  assumes "calm_env S inp out content" "named (input_files st)" "input_files st \<noteq> []"
    and "buffer_inv st" "transfer_buffer st = None" "\<not> stop_at_size st" "rate_limit st = 0"
    and "inp STDIN_FILENO w = content stdin_name"
    and "(\<Sum>name \<leftarrow> input_files st. 2 * length (content name) + 3) \<le> fuel"
  shows "\<exists>st' w'. pv_main_loop fuel S st w = Some (exit_status st, st', w')"
  using main_loop_live [OF assms(1-8)] assms(9) by (simp add: to_come_def)

theorem main_loop_returns_witness:
  "\<exists>st' w'. pv_main_loop 12 copy_sys copy_state ([], []) = Some (0, st', w')"
  using main_loop_returns [OF copy_calm copy_state_ok(8) _ copy_state_ok(1,2,4,5), of "([], [])" 12]
  by (simp add: copy_state_ok copy_content_def stdin_name_def)

end
