(* ===== verification/PvWatchLoop.thy ===== *)
theory PvWatchLoop
  imports PvWatch PvLive
begin

text \<open>
  \<open>pv_watchfd_loop\<close> and \<open>pv_watchpid_loop\<close> of \<open>tools/pv/src/pv/loop.c\<close>, on fuel like the main loop.
  A turn that is not due sleeps and starts again.
\<close>

section \<open>The parts of a turn\<close>

definition pv_screensize :: "'w syswatch \<Rightarrow> int \<times> int \<Rightarrow> 'w \<Rightarrow> (int \<times> int) \<times> 'w" where
  "pv_screensize S wh w =
     (case sys_isatty S 2 w of
        (False, w) \<Rightarrow> (wh, w)
      | (True, w) \<Rightarrow> (case sys_winsize S 2 w of (None, w) \<Rightarrow> (wh, w) | (Some wsz, w) \<Rightarrow> (wsz, w)))"

definition set_screen :: "int \<times> int \<Rightarrow> pvstate \<Rightarrow> pvstate" where
  "set_screen wh st = st\<lparr> width := fst wh, height := snd wh \<rparr>"

text \<open>The flag of \<open>SIGWINCH\<close> and \<open>SIGCONT\<close>: the size is asked for again.\<close>

definition new_screen :: "'w syswatch \<Rightarrow> pvstate \<Rightarrow> 'w \<Rightarrow> bool \<times> pvstate \<times> 'w" where
  "new_screen S st w =
     (if sig_newsize S w then
        (case pv_screensize S (width st, height st) (clear_newsize S w) of
           (wh, w) \<Rightarrow> (True, set_screen wh st, w))
      else (False, st, w))"

definition update_after :: "pvstate \<Rightarrow> timeval \<Rightarrow> timeval \<Rightarrow> timeval" where
  "update_after st next now =
     (let next = pv_timeval_add_usec next (usec_of (interval st))
      in if fst next < fst now then now
         else if fst next = fst now \<and> snd next < snd now then now else next)"

definition to_stderr :: "'w syswatch \<Rightarrow> string \<Rightarrow> 'w \<Rightarrow> 'w" where
  "to_stderr S s w = snd (sys_write S 2 (map of_char s) w)"

section \<open>Watching one descriptor\<close>

record fd_vars =
  fv_total :: int
  fv_since :: int
  fv_first :: bool
  fv_next :: timeval
  fv_remote :: timeval
  fv_cur :: timeval

datatype 'w fd_turn = FdEnd pvstate 'w | FdOn pvstate fd_vars 'w

text \<open>A position that was found; the first one is where the transfer started.\<close>

definition seen_position :: "int \<Rightarrow> pvstate \<Rightarrow> fd_vars \<Rightarrow> pvstate \<times> fd_vars" where
  "seen_position pos st v =
     (let v = v\<lparr> fv_since := fv_since v + (pos - fv_total v), fv_total := pos \<rparr>
      in if fv_first v then (st\<lparr> initial_offset := pos \<rparr>, v\<lparr> fv_first := False \<rparr>) else (st, v))"

definition show_watched ::
  "'w syswatch \<Rightarrow> pvwatchfd \<Rightarrow> bool \<Rightarrow> pvstate \<Rightarrow> fd_vars \<Rightarrow> 'w \<Rightarrow> 'w fd_turn" where
  "show_watched S info ended st v w =
     (let v = v\<lparr> fv_next := update_after st (fv_next v) (fv_cur v) \<rparr>;
          elapsed = elapsed_since (w_start info) (sig_toffset S w) (fv_cur v);
          since = (if ended then - 1 else fv_since v)
      in case new_screen S st w of (_, st, w) \<Rightarrow>
         case run_display S st elapsed since (fv_total v) w of (st, w) \<Rightarrow>
           if ended then FdEnd st w else FdOn st (v\<lparr> fv_since := 0 \<rparr>) w)"

definition watch_remote ::
  "'w syswatch \<Rightarrow> pvstate \<Rightarrow> fd_vars \<Rightarrow> 'w \<Rightarrow> pvstate \<times> fd_vars \<times> 'w" where
  "watch_remote S st v w =
     (if time_reached (fv_cur v) (fv_remote v)
      then (case run_remote_check S st w of (st, w) \<Rightarrow>
              (st, v\<lparr> fv_remote := pv_timeval_add_usec (fv_remote v) REMOTE_INTERVAL \<rparr>, w))
      else (st, v, w))"

definition watchfd_turn :: "'w syswatch \<Rightarrow> pvwatchfd \<Rightarrow> pvstate \<Rightarrow> fd_vars \<Rightarrow> 'w \<Rightarrow> 'w fd_turn" where
  "watchfd_turn S info st v w =
     (case watch_remote S st v w of (st, v, w) \<Rightarrow>
        if sig_abort S w then FdEnd st w
        else
          (case pv_watchfd_position S info w of (pos, w) \<Rightarrow>
           case (if pos < 0 then (st, v) else seen_position pos st v) of (st, v) \<Rightarrow>
           case sys_time S w of (now, w) \<Rightarrow>
             let v = v\<lparr> fv_cur := now, fv_next := (if pos < 0 then (fst now - 1, snd (fv_next v)) else fv_next v) \<rparr>
             in if \<not> time_reached now (fv_next v) then FdOn st v (proc_sleep S w)
                else show_watched S info (pos < 0) st v w))"

fun watchfd_turns ::
  "nat \<Rightarrow> 'w syswatch \<Rightarrow> pvwatchfd \<Rightarrow> pvstate \<Rightarrow> fd_vars \<Rightarrow> 'w \<Rightarrow> (pvstate \<times> 'w) option" where
  "watchfd_turns 0 S info st v w = None"
| "watchfd_turns (Suc fuel) S info st v w =
     (case watchfd_turn S info st v w of
        FdEnd st w \<Rightarrow> Some (st, w)
      | FdOn st v w \<Rightarrow> watchfd_turns fuel S info st v w)"

text \<open>
  \<open>info\<close> is what the stack held where the code keeps the descriptor's record: it is not cleared.
\<close>

definition pv_watchfd_loop ::
  "nat \<Rightarrow> 'w syswatch \<Rightarrow> pvwatchfd \<Rightarrow> pvstate \<Rightarrow> 'w \<Rightarrow> (nat \<times> pvstate \<times> 'w) option" where
  "pv_watchfd_loop fuel S info st w =
     (case pv_watchfd_info S st (info\<lparr> w_pid := watch_pid st, w_fd := watch_fd st \<rparr>) False w of
        (rc, st, info, w) \<Rightarrow>
          if rc \<noteq> 0 then (let st = set_exit 2 st in Some (exit_status st, st, w))
          else
            let st = without_eta (if total_size st \<le> 0 then st\<lparr> total_size := w_size info \<rparr> else st)
            in case sys_time S w of (start, w) \<Rightarrow>
               case sys_time S w of (now, w) \<Rightarrow>
                 map_option (\<lambda>(st, w).
                   let w = (if numeric st then w else to_stderr S [CHR 0x0A] w);
                       st = (if sig_abort S w then set_exit 32 st else st)
                   in (exit_status st, st, w))
                 (watchfd_turns fuel S (info\<lparr> w_start := start \<rparr>) st
                    \<lparr> fv_total = 0, fv_since = 0, fv_first = True,
                      fv_next = pv_timeval_add_usec start (usec_of (interval st)),
                      fv_remote = start, fv_cur = now \<rparr> w))"

section \<open>Watching a process\<close>

text \<open>The format of the displays has the name in it.\<close>

fun names_file :: "string \<Rightarrow> bool" where
  "names_file (a # b # s) = (a = CHR ''%'' \<and> b = CHR ''N'' \<or> names_file (b # s))"
| "names_file s = False"

definition watch_format :: "pvstate \<Rightarrow> string" where
  "watch_format st =
     (let original = (case format_string st of Some f \<Rightarrow> f | None \<Rightarrow> default_format st)
      in take 510 (if names_file original then original else ''%N '' @ original))"

definition pristine_state :: "pvstate \<Rightarrow> pvstate" where
  "pristine_state st = st\<lparr> format_string := None, default_format := watch_format st \<rparr>"

record pid_vars =
  pv_next :: timeval
  prev_lines :: int
  first_pass :: bool
  pv_tab :: watch_tab

datatype 'w pid_turn = PidFail pvstate 'w | PidBreak pvstate pid_vars 'w | PidOn pvstate pid_vars 'w

definition drop_fd :: "nat \<Rightarrow> nat \<Rightarrow> watch_tab \<Rightarrow> watch_tab" where
  "drop_fd fd i tab =
     tab\<lparr> t_idx := (t_idx tab)[fd := - 1], t_info := (t_info tab)[i := (t_info tab ! i)\<lparr> w_pid := 0 \<rparr>] \<rparr>"

definition show_slot ::
  "'w syswatch \<Rightarrow> timeval \<Rightarrow> nat \<Rightarrow> int \<Rightarrow> watch_tab \<Rightarrow> int \<Rightarrow> 'w \<Rightarrow> watch_tab \<times> int \<times> 'w" where
  "show_slot S now i pos tab lines w =
     (let info = t_info tab ! i;
          since = pos - w_position info;
          info = info\<lparr> w_position := pos \<rparr>;
          elapsed = elapsed_since (w_start info) (sig_toffset S w) now;
          w = (if 0 < lines then to_stderr S [CHR 0x0A] w else w)
      in case run_display S (t_state tab ! i) elapsed since pos w of
           (s, w) \<Rightarrow> (put_slot i info s tab, lines + 1, w))"

definition show_fd ::
  "'w syswatch \<Rightarrow> timeval \<Rightarrow> nat \<Rightarrow> watch_tab \<Rightarrow> int \<Rightarrow> 'w \<Rightarrow> watch_tab \<times> int \<times> 'w" where
  "show_fd S now fd tab lines w =
     (if t_idx tab ! fd < 0 then (tab, lines, w)
      else
        let i = nat (t_idx tab ! fd); info = t_info tab ! i
        in if w_fd info < 0 then
             (case pv_watchfd_changed S info w of
                (True, w) \<Rightarrow> (drop_fd fd i tab, lines, w)
              | (False, w) \<Rightarrow> (tab, lines, w))
           else
             (case pv_watchfd_position S info w of
                (pos, w) \<Rightarrow> if pos < 0 then (drop_fd fd i tab, lines, w)
                             else show_slot S now i pos tab lines w))"

fun show_fds ::
  "'w syswatch \<Rightarrow> int \<Rightarrow> timeval \<Rightarrow> nat list \<Rightarrow> watch_tab \<Rightarrow> int \<Rightarrow> 'w \<Rightarrow> watch_tab \<times> int \<times> 'w" where
  "show_fds S screen now [] tab lines w = (tab, lines, w)"
| "show_fds S screen now (fd # fds) tab lines w =
     (if screen \<le> lines then (tab, lines, w)
      else (case show_fd S now fd tab lines w of
              (tab, lines, w) \<Rightarrow> show_fds S screen now fds tab lines w))"

text \<open>Lines of the last turn that are not used in this one are overwritten with blanks.\<close>

definition blank_line :: "'w syswatch \<Rightarrow> int \<Rightarrow> 'w \<Rightarrow> 'w" where
  "blank_line S screen w = to_stderr S [CHR 0x0D] ((to_stderr S '' '' ^^ nat screen) w)"

fun blank_rest :: "'w syswatch \<Rightarrow> int \<Rightarrow> nat \<Rightarrow> int \<Rightarrow> 'w \<Rightarrow> int \<times> 'w" where
  "blank_rest S screen 0 lines w = (lines, w)"
| "blank_rest S screen (Suc n) lines w =
     blank_rest S screen n (lines + 1)
       (blank_line S screen (if 0 < lines then to_stderr S [CHR 0x0A] w else w))"

definition cursor_up :: "'w syswatch \<Rightarrow> int \<Rightarrow> 'w \<Rightarrow> 'w" where
  "cursor_up S lines w = (to_stderr S (CHR 0x1B # ''[A'') ^^ nat (lines - 1)) w"

text \<open>After a change of the size, the names are made again.\<close>

definition resize_tab :: "pvstate \<Rightarrow> watch_tab \<Rightarrow> watch_tab" where
  "resize_tab st tab =
     (let infos = map (pv_watchpid_setname st) (take (t_len tab) (t_info tab))
      in tab\<lparr> t_info := infos @ drop (t_len tab) (t_info tab),
              t_state := map2 (\<lambda>info s. mark_reparse (point_name info (set_screen (width st, height st) s)))
                           infos (t_state tab) \<rparr>)"

definition draw_watched ::
  "'w syswatch \<Rightarrow> pvstate \<Rightarrow> timeval \<Rightarrow> pid_vars \<Rightarrow> 'w \<Rightarrow> pid_vars \<times> 'w" where
  "draw_watched S st now v w =
     (case show_fds S (height st) now [0..<nat FD_SETSIZE] (pv_tab v) 0 w of
        (tab, lines, w) \<Rightarrow>
          (case blank_rest S (width st) (nat (prev_lines v - lines)) lines w of
             (all, w) \<Rightarrow> (v\<lparr> pv_tab := tab, prev_lines := lines \<rparr>, cursor_up S all w)))"

definition watch_failed :: "'w syswatch \<Rightarrow> int \<Rightarrow> pvstate \<Rightarrow> pid_vars \<Rightarrow> 'w \<Rightarrow> 'w pid_turn" where
  "watch_failed S e st v w =
     (if first_pass v
      then PidFail (set_exit 2 (pid_complaint False (watch_pid st) (strerror S e) st)) w
      else PidBreak st v w)"

definition watchpid_turn ::
  "'w syswatch \<Rightarrow> pvstate \<Rightarrow> pvstate \<Rightarrow> pid_vars \<Rightarrow> 'w \<Rightarrow> 'w pid_turn" where
  "watchpid_turn S pristine st v w =
     (if sig_abort S w then PidBreak st v w
      else
        (case sys_time S w of (now, w) \<Rightarrow>
         case proc_alive S (watch_pid st) w of
           (Some e, w) \<Rightarrow> watch_failed S e st v w
         | (None, w) \<Rightarrow>
             if \<not> time_reached now (pv_next v) then PidOn st v (proc_sleep S w)
             else
               let v = v\<lparr> pv_next := update_after st (pv_next v) now \<rparr>
               in case new_screen S st w of (resized, st, w) \<Rightarrow>
                  let v = (if resized then v\<lparr> pv_tab := resize_tab st (pv_tab v) \<rparr> else v)
                  in case pv_watchpid_scanfds S st pristine (watch_pid st) (pv_tab v) w of
                       (rc, tab, w) \<Rightarrow>
                         if rc \<noteq> 0 then watch_failed S (last_errno S w) st (v\<lparr> pv_tab := tab \<rparr>) w
                         else (case draw_watched S st now (v\<lparr> pv_tab := tab, first_pass := False \<rparr>) w of
                                 (v, w) \<Rightarrow> PidOn st v w)))"

fun watchpid_turns ::
  "nat \<Rightarrow> 'w syswatch \<Rightarrow> pvstate \<Rightarrow> pvstate \<Rightarrow> pid_vars \<Rightarrow> 'w \<Rightarrow> 'w pid_turn option" where
  "watchpid_turns 0 S pristine st v w = None"
| "watchpid_turns (Suc fuel) S pristine st v w =
     (case watchpid_turn S pristine st v w of
        PidOn st v w \<Rightarrow> watchpid_turns fuel S pristine st v w
      | t \<Rightarrow> Some t)"

text \<open>At the end the lines that were drawn are wiped.\<close>

fun wipe_lines :: "'w syswatch \<Rightarrow> int \<Rightarrow> nat \<Rightarrow> 'w \<Rightarrow> 'w" where
  "wipe_lines S screen 0 w = w"
| "wipe_lines S screen (Suc n) w =
     wipe_lines S screen n
       (if 0 < n then to_stderr S [CHR 0x0A] (blank_line S screen w) else blank_line S screen w)"

definition pv_watchpid_loop ::
  "nat \<Rightarrow> 'w syswatch \<Rightarrow> pvstate \<Rightarrow> 'w \<Rightarrow> (nat \<times> pvstate \<times> 'w) option" where
  "pv_watchpid_loop fuel S st w =
     (case proc_alive S (watch_pid st) w of
        (Some e, w) \<Rightarrow> Some (2, set_exit 2 (pid_complaint False (watch_pid st) (strerror S e) st), w)
      | (None, w) \<Rightarrow>
          (case sys_time S w of (now, w) \<Rightarrow>
             (case watchpid_turns fuel S (pristine_state st) st
                 \<lparr> pv_next = pv_timeval_add_usec now (usec_of (interval st)), prev_lines = 0,
                   first_pass = True, pv_tab = empty_tab \<rparr> w of
                None \<Rightarrow> None
              | Some (PidFail st w) \<Rightarrow> Some (2, st, w)
              | Some (PidBreak st v w) \<Rightarrow>
                  Some (0, st, cursor_up S (prev_lines v) (wipe_lines S (width st) (nat (prev_lines v)) w))
              | Some (PidOn _ _ _) \<Rightarrow> None)))"

section \<open>The table stays in order while it is drawn\<close>

text \<open>A change that leaves every slot its process and descriptor, and the index as it is.\<close>

lemma tab_ok_same:
  assumes ok: "tab_ok pid tab" and "t_len tab' = t_len tab" "t_idx tab' = t_idx tab"
    "length (t_info tab') = t_len tab" "length (t_state tab') = t_len tab"
    and same: "\<And>i. i < t_len tab \<Longrightarrow> w_pid (t_info tab' ! i) = w_pid (t_info tab ! i) \<and>
                 w_fd (t_info tab' ! i) = w_fd (t_info tab ! i)"
  shows "tab_ok pid tab'"
proof -
  have kn: "known_at tab' = known_at tab" using assms(3) by (simp add: known_at_def fun_eq_iff)
  note D = tab_okD [OF ok]
  show ?thesis
    by (rule tab_okI, unfold kn assms(2,3,4,5)) (use D same in \<open>auto\<close>)
qed

lemma drop_fd_ok:
  assumes ok: "tab_ok pid tab" "pid \<noteq> 0" and k: "known_at tab fd i"
  shows "tab_ok pid (drop_fd fd i tab)" (is "tab_ok pid ?tab")
proof -
  note D = tab_okD [OF ok(1)]
  have fd: "fd < length (t_idx tab)" "i < length (t_info tab)" "t_idx tab ! fd = int i"
    using k D(1,3,5) by (auto simp: known_at_def)
  have kn: "known_at ?tab = (\<lambda>d j. d \<noteq> fd \<and> known_at tab d j)"
    using fd by (auto simp: known_at_def drop_fd_def fun_eq_iff nth_list_update)
  have other: "j \<noteq> i" if "known_at tab d j" "d \<noteq> fd" for d j
    using that k D(8) by blast
  have inf: "t_info ?tab ! j = t_info tab ! j" if "j \<noteq> i" for j using that by (simp add: drop_fd_def)
  have gone: "w_pid (t_info ?tab ! i) = 0" using fd by (simp add: drop_fd_def)
  have len: "t_len ?tab = t_len tab" "length (t_info ?tab) = t_len tab" "length (t_state ?tab) = t_len tab"
    "length (t_idx ?tab) = nat FD_SETSIZE" using D by (simp_all add: drop_fd_def)
  have used: "\<exists>d. d \<noteq> fd \<and> known_at tab d j" if "j < t_len tab" "w_pid (t_info ?tab ! j) \<noteq> 0" for j
  proof -
    have j: "j \<noteq> i" using that gone by blast
    with that inf D(9) obtain d where d: "known_at tab d j" by auto
    with j fd have "d \<noteq> fd" by (auto simp: known_at_def)
    with d show ?thesis by blast
  qed
  have have_slot: "\<exists>j. d \<noteq> fd \<and> known_at tab d j" if "d < nat FD_SETSIZE" "t_idx ?tab ! d \<noteq> - 1" for d
    using that D(4) fd by (cases "d = fd") (auto simp: drop_fd_def)
  have slot: "j < t_len tab \<and> w_pid (t_info ?tab ! j) = pid \<and> w_fd (t_info ?tab ! j) \<in> {int d, - 1}"
    if "d \<noteq> fd \<and> known_at tab d j" for d j
    using that inf [OF other] D(5,6,7) [of d j] by auto
  show ?thesis
    by (rule tab_okI, unfold kn len) (use have_slot used slot D(8) in \<open>auto\<close>)
qed

lemma show_fd_ok:
  assumes ok: "tab_ok pid tab" "pid \<noteq> 0" "fd < nat FD_SETSIZE"
    and s: "show_fd S now fd tab lines w = (tab', lines', w')"
  shows "tab_ok pid tab'"
proof (cases "t_idx tab ! fd < 0")
  case True
  with s ok show ?thesis by (simp add: show_fd_def)
next
  case False
  then obtain i where k: "known_at tab fd i" using tab_okD(4) [OF ok(1,3)] by auto
  then have i: "nat (t_idx tab ! fd) = i" by (simp add: known_at_def)
  have drop: "tab_ok pid (drop_fd fd i tab)" using drop_fd_ok [OF ok(1,2) k] .
  have put: "tab_ok pid (put_slot i ((t_info tab ! i)\<lparr> w_position := pos \<rparr>) x tab)" for pos x
    using tab_okD(1,2,5) [OF ok(1)] k
    by (intro tab_ok_same [OF ok(1)]) (auto simp: put_slot_def nth_list_update)
  show ?thesis
    using s False drop put ok(1)
    by (auto simp: show_fd_def Let_def i show_slot_def split: if_splits prod.splits bool.splits)
qed

lemma show_fds_ok:
  "tab_ok pid tab \<Longrightarrow> pid \<noteq> 0 \<Longrightarrow> list_all (\<lambda>fd. fd < nat FD_SETSIZE) fds \<Longrightarrow>
   show_fds S screen now fds tab lines w = (tab', lines', w') \<Longrightarrow> tab_ok pid tab'"
proof (induction fds arbitrary: tab lines w)
  case (Cons fd fds)
  obtain t1 l1 w1 where f: "show_fd S now fd tab lines w = (t1, l1, w1)" by (rule prod_cases3)
  then have "tab_ok pid t1" using Cons.prems by (auto intro: show_fd_ok)
  with Cons f show ?case by (auto split: if_splits)
qed simp

lemma resize_tab_ok: assumes "tab_ok pid tab" shows "tab_ok pid (resize_tab st tab)"
  using tab_okD(1,2) [OF assms]
  by (intro tab_ok_same [OF assms]) (auto simp: resize_tab_def Let_def pv_watchpid_setname_def)

lemma new_screen_pid: "new_screen S st w = (b, st', w') \<Longrightarrow> watch_pid st' = watch_pid st"
  by (auto simp: new_screen_def set_screen_def split: if_splits prod.splits)

lemma draw_watched_ok:
  assumes "tab_ok pid (pv_tab v)" "pid \<noteq> 0" "draw_watched S st now v w = (v', w')"
  shows "tab_ok pid (pv_tab v')"
proof -
  obtain t l w1 where s: "show_fds S (height st) now [0..<nat FD_SETSIZE] (pv_tab v) 0 w = (t, l, w1)"
    by (rule prod_cases3)
  have "list_all (\<lambda>fd. fd < nat FD_SETSIZE) [0..<nat FD_SETSIZE]" by (simp add: list_all_iff)
  then have "tab_ok pid t" using show_fds_ok [OF assms(1,2) _ s] by blast
  then show ?thesis using assms(3) s by (auto simp: draw_watched_def split: prod.splits)
qed

lemma watchpid_turn_ok:
  assumes ok: "tab_ok (watch_pid st) (pv_tab v)" "watch_pid st \<noteq> 0"
    and t: "watchpid_turn S pristine st v w = PidOn st' v' w'"
  shows "tab_ok (watch_pid st') (pv_tab v') \<and> watch_pid st' = watch_pid st"
proof -
  have noabort: "\<not> sig_abort S w" using t by (auto simp: watchpid_turn_def)
  obtain now w1 where w1: "sys_time S w = (now, w1)" by (rule prod.exhaust)
  obtain r w2 where w2: "proc_alive S (watch_pid st) w1 = (r, w2)" by (rule prod.exhaust)
  have r: "r = None"
    using t noabort w1 w2 by (cases r) (auto simp: watchpid_turn_def watch_failed_def split: if_splits)
  show ?thesis
  proof (cases "time_reached now (pv_next v)")
    case False
    with t noabort w1 w2 r ok show ?thesis by (auto simp: watchpid_turn_def)
  next
    case True
    obtain b st1 w3 where n: "new_screen S st w2 = (b, st1, w3)" by (rule prod_cases3)
    note p = new_screen_pid [OF n]
    let ?tab = "if b then resize_tab st1 (pv_tab v) else pv_tab v"
    have k: "tab_ok (watch_pid st) ?tab" using ok(1) resize_tab_ok by simp
    obtain rc t1 w4 where s: "pv_watchpid_scanfds S st1 pristine (watch_pid st1) ?tab w3 = (rc, t1, w4)"
      by (rule prod_cases3)
    have rc: "rc = 0"
      using t noabort w1 w2 r True n s
      by (auto simp: watchpid_turn_def Let_def watch_failed_def split: if_splits)
    have "tab_ok (watch_pid st) t1"
      using s rc k ok(2) scan_entries_ok [of "watch_pid st"] unfolding p
      by (auto simp: pv_watchpid_scanfds_def split: prod.splits option.splits)
    then show ?thesis
      using t noabort w1 w2 r True n s rc p ok(2)
      by (auto simp: watchpid_turn_def Let_def split: if_splits prod.splits dest: draw_watched_ok [rotated 2])
  qed
qed

text \<open>The turns of the loop as a relation on its state.\<close>

inductive watchpid_reach ::
  "'w syswatch \<Rightarrow> pvstate \<Rightarrow> pvstate \<Rightarrow> pid_vars \<Rightarrow> 'w \<Rightarrow> pvstate \<Rightarrow> pid_vars \<Rightarrow> 'w \<Rightarrow> bool"
  for S pristine st0 v0 w0 where
  Start: "watchpid_reach S pristine st0 v0 w0 st0 v0 w0"
| Turn: "watchpid_reach S pristine st0 v0 w0 st v w \<Longrightarrow>
    watchpid_turn S pristine st v w = PidOn st' v' w' \<Longrightarrow> watchpid_reach S pristine st0 v0 w0 st' v' w'"

lemma reach_tab_ok:
  assumes "watchpid_reach S pristine st0 v0 w0 st v w" "watch_pid st0 \<noteq> 0" "pv_tab v0 = empty_tab"
  shows "tab_ok (watch_pid st) (pv_tab v) \<and> watch_pid st = watch_pid st0"
  using assms(1)
proof induction
  case Start
  show ?case using assms(3) empty_tab_ok by simp
next
  case (Turn st v w st' v' w')
  with assms(2) watchpid_turn_ok show ?case by metis
qed

section \<open>Watching a descriptor ends with the descriptor\<close>

text \<open>
  The other process closes the descriptor some day: \<open>left\<close> bounds how often it will still be found.
  Nothing that \<open>pv\<close> does puts this off.
\<close>

definition winds_down :: "'w syswatch \<Rightarrow> ('w \<Rightarrow> nat) \<Rightarrow> bool" where
  "winds_down S left \<longleftrightarrow>
     (\<forall>path w. if isl (fst (proc_stat S path w)) then left (snd (proc_stat S path w)) \<le> left w
                else left (snd (proc_stat S path w)) < left w) \<and>
     (\<forall>path w. left (snd (proc_lstat S path w)) \<le> left w) \<and>
     (\<forall>path w. left (snd (proc_text S path w)) \<le> left w) \<and>
     (\<forall>w. left (snd (sys_time S w)) \<le> left w) \<and> (\<forall>w. left (proc_sleep S w) \<le> left w) \<and>
     (\<forall>w. left (clear_newsize S w) \<le> left w) \<and> (\<forall>w. left (snd (sys_isatty S 2 w)) \<le> left w) \<and>
     (\<forall>w. left (snd (sys_winsize S 2 w)) \<le> left w) \<and>
     (\<forall>st w. left (snd (run_remote_check S st w)) \<le> left w) \<and>
     (\<forall>st e s t w. left (snd (run_display S st e s t w)) \<le> left w)"

lemma winds_downD:
  assumes "winds_down S left"
  shows "proc_stat S path w = (Inr sb, w') \<Longrightarrow> left w' < left w"
    "proc_lstat S path w = (lr, w') \<Longrightarrow> left w' \<le> left w"
    "proc_text S path w = (t, w') \<Longrightarrow> left w' \<le> left w" "sys_time S w = (now, w') \<Longrightarrow> left w' \<le> left w"
    "left (proc_sleep S w) \<le> left w" "left (clear_newsize S w) \<le> left w"
    "sys_isatty S 2 w = (b, w') \<Longrightarrow> left w' \<le> left w" "sys_winsize S 2 w = (sz, w') \<Longrightarrow> left w' \<le> left w"
    "run_remote_check S st w = (st', w') \<Longrightarrow> left w' \<le> left w"
    "run_display S st e s tt w = (st', w') \<Longrightarrow> left w' \<le> left w"
  using assms unfolding winds_down_def by (metis fst_conv snd_conv sum.disc(2))+

lemma position_winds:
  assumes "winds_down S left" "pv_watchfd_position S info w = (pos, w')" "0 \<le> pos"
  shows "left w' < left w"
proof -
  obtain c w1 where c: "pv_watchfd_changed S info w = (c, w1)" by (rule prod.exhaust)
  with assms(2,3) have nc: "\<not> c" by (auto simp: pv_watchfd_position_def split: bool.splits)
  obtain r w2 where s: "proc_stat S (w_fdfile info) w = (r, w2)" by (rule prod.exhaust)
  with c nc obtain sb where r: "r = Inr sb"
    by (cases r) (auto simp: pv_watchfd_changed_def stat_both_def)
  obtain lr w3 where l: "proc_lstat S (w_fdfile info) w2 = (lr, w3)" by (rule prod.exhaust)
  have "w1 = w3" using c s r l by (auto simp: pv_watchfd_changed_def stat_both_def split: sum.splits)
  moreover have "left w' \<le> left w1"
    using assms(2,3) c nc winds_downD(3) [OF assms(1)]
    by (auto simp: pv_watchfd_position_def split: prod.splits option.splits)
  ultimately have "left w' \<le> left w3" by simp
  with winds_downD(1) [OF assms(1) s [unfolded r]] winds_downD(2) [OF assms(1) l] show ?thesis by linarith
qed

lemma new_screen_winds:
  assumes "winds_down S left" "new_screen S st w = (b, st', w')"
  shows "left w' \<le> left w"
proof (cases "sig_newsize S w")
  case True
  obtain tty w1 where 1: "sys_isatty S 2 (clear_newsize S w) = (tty, w1)" by (rule prod.exhaust)
  obtain sz w2 where 2: "sys_winsize S 2 w1 = (sz, w2)" by (rule prod.exhaust)
  have "w' = w1 \<or> w' = w2"
    using assms(2) True 1 2 by (auto simp: new_screen_def pv_screensize_def split: bool.splits option.splits)
  with winds_downD(6) [OF assms(1), of w] winds_downD(7) [OF assms(1) 1] winds_downD(8) [OF assms(1) 2]
  show ?thesis by auto
qed (use assms in \<open>simp add: new_screen_def\<close>)

lemma watchfd_turn_winds:
  assumes wd: "winds_down S left" and t: "watchfd_turn S info st v w = FdOn st' v' w'"
  shows "left w' < left w"
proof -
  obtain st1 v1 w1 where r: "watch_remote S st v w = (st1, v1, w1)" by (rule prod_cases3)
  then have 1: "left w1 \<le> left w"
    using winds_downD(9) [OF wd] by (auto simp: watch_remote_def split: if_splits prod.splits)
  have na: "\<not> sig_abort S w1" using t r by (auto simp: watchfd_turn_def)
  obtain pos w2 where p: "pv_watchfd_position S info w1 = (pos, w2)" by (rule prod.exhaust)
  obtain st2 v2 where s: "(if pos < 0 then (st1, v1) else seen_position pos st1 v1) = (st2, v2)" by (rule prod.exhaust)
  obtain now w3 where n: "sys_time S w2 = (now, w3)" by (rule prod.exhaust)
  let ?v = "v2\<lparr> fv_cur := now, fv_next := (if pos < 0 then (fst now - 1, snd (fv_next v2)) else fv_next v2) \<rparr>"
  have due: "time_reached now (fv_next ?v)" if "pos < 0" using that by (simp add: time_reached_def)
  have t': "(if \<not> time_reached now (fv_next ?v) then FdOn st2 ?v (proc_sleep S w3)
             else show_watched S info (pos < 0) st2 ?v w3) = FdOn st' v' w'"
    using t na unfolding watchfd_turn_def by (simp only: r p s n prod.case if_False Let_def)
  have pos: "0 \<le> pos"
    using t' due by (auto simp: show_watched_def Let_def split: if_splits prod.splits)
  have "left w' \<le> left w3"
  proof (cases "time_reached now (fv_next ?v)")
    case False
    with t' winds_downD(5) [OF wd, of w3] show ?thesis by auto
  next
    case True
    obtain b st4 w4 where a: "new_screen S st2 w3 = (b, st4, w4)" by (rule prod_cases3)
    have "left w' \<le> left w4"
      using t' True a pos winds_downD(10) [OF wd]
      by (auto simp: show_watched_def Let_def split: if_splits prod.splits)
    with new_screen_winds [OF wd a] show ?thesis by linarith
  qed
  with 1 position_winds [OF wd p pos] winds_downD(4) [OF wd n] show ?thesis by linarith
qed

lemma watchfd_turns_end:
  assumes "winds_down S left"
  shows "left w < fuel \<Longrightarrow> \<exists>r. watchfd_turns fuel S info st v w = Some r"
proof (induction fuel arbitrary: st v w)
  case (Suc fuel)
  show ?case
  proof (cases "watchfd_turn S info st v w")
    case (FdOn st' v' w')
    with watchfd_turn_winds [OF assms FdOn] Suc show ?thesis by simp
  qed simp
qed simp

section \<open>A process to watch\<close>

text \<open>
  The process has descriptors 0, a pipe, and 3, a file, and can be looked at as often as the first
  list of the world is long.
\<close>

definition watched_stat :: "string \<Rightarrow> wstat" where
  "watched_stat path = no_stat\<lparr> st_kind := (if path = ''/proc/7/fd/3'' then S_REG else S_OTHER), st_size := 100 \<rparr>"

definition watch_sys ::
  "(string \<Rightarrow> bytes \<times> bytes \<Rightarrow> (int + wstat) \<times> bytes \<times> bytes) \<Rightarrow> (bytes \<times> bytes) syswatch" where
  "watch_sys status = sysloop.extend copy_sys
     \<lparr> proc_alive = (\<lambda>pid w. (None, w)),
       proc_readlink = (\<lambda>path w. (Inr ''/tmp/f'', w)),
       proc_stat = status,
       proc_lstat = (\<lambda>path w. (Inr (watched_stat path), w)),
       proc_text = (\<lambda>path w. (Some ''pos:    42'', w)),
       proc_listdir = (\<lambda>path w. (Some [''.'', ''..'', ''0'', ''3'', ''4000''], w)),
       proc_malloc = (\<lambda>w. (True, w)), proc_sleep = (\<lambda>w. w),
       sig_newsize = (\<lambda>w. False), clear_newsize = (\<lambda>w. w), sys_winsize = (\<lambda>fd w. (None, w)),
       last_errno = (\<lambda>w. 2) \<rparr>"

definition still_open :: "string \<Rightarrow> bytes \<times> bytes \<Rightarrow> (int + wstat) \<times> bytes \<times> bytes" where
  "still_open path w = (if fst w = [] then (Inl 2, w) else (Inr (watched_stat path), (tl (fst w), snd w)))"

lemmas watch_sys_defs = watch_sys_def copy_sys_def copy_files_def copy_pipe_def pipe_sys_def
  sysio.defs sysfile.defs sysloop.defs

lemma watch_sys_winds: "winds_down (watch_sys still_open) (length \<circ> fst)"
  by (auto simp: winds_down_def watch_sys_defs still_open_def)

definition watch_state :: pvstate where
  "watch_state = (the (pv_state_alloc True ''pv''))\<lparr> watch_pid := 7, watch_fd := 3, interval := 1 \<rparr>"

section \<open>The properties\<close>

text \<open>
  C25. However long a process is watched and whatever it opens and closes, the table of its descriptors
  is in order: no two descriptors share a slot, a slot in use belongs to a descriptor, and the arrays
  have the recorded length.
\<close>

theorem watch_table_ok:
  assumes "watchpid_reach S pristine st0 v0 w0 st v w" "watch_pid st0 \<noteq> 0" "pv_tab v0 = empty_tab"
  shows "tab_ok (watch_pid st0) (pv_tab v)"
  using reach_tab_ok [OF assms] by auto

theorem watch_table_ok_witness:
  "\<exists>v w. watchpid_reach (watch_sys still_open) watch_state watch_state
      \<lparr> pv_next = (1, 0), prev_lines = 0, first_pass = True, pv_tab = empty_tab \<rparr> ([1], []) watch_state v w \<and>
    tab_ok 7 (pv_tab v)"
proof -
  let ?v = "\<lparr> pv_next = (1, 0), prev_lines = 0, first_pass = True, pv_tab = empty_tab \<rparr>"
  have "watchpid_turn (watch_sys still_open) watch_state watch_state ?v ([1], []) = PidOn watch_state ?v ([1], [])"
    by (simp add: watchpid_turn_def watch_sys_defs time_reached_def)
  with watchpid_reach.Start have r: "watchpid_reach (watch_sys still_open) watch_state watch_state ?v
      ([1], []) watch_state ?v ([1], [])" by (rule watchpid_reach.Turn)
  have "watch_pid watch_state = 7" by (simp add: watch_state_def)
  with watch_table_ok [OF r] have "tab_ok 7 (pv_tab ?v)" by simp
  with r show ?thesis by blast
qed

text \<open>
  C26. One scan of a process whose descriptors stay as they are: a descriptor is in the table afterwards
  if it was before, or if it is listed and its link and its status can be read.
\<close>

theorem scan_finds_descriptors:
  assumes "steady_proc S links stats lstats" "pid \<noteq> 0" "tab_ok pid tab"
    and "fst (proc_listdir S (''/proc/'' @ itoa (u32 pid) @ ''/fd'') w) = Some ds"
  shows "\<exists>tab' w'. pv_watchpid_scanfds S st pristine pid tab w = (0, tab', w') \<and> tab_ok pid tab' \<and>
    (\<forall>fd < nat FD_SETSIZE. t_idx tab' ! fd \<noteq> - 1 \<longleftrightarrow> t_idx tab ! fd \<noteq> - 1 \<or>
       (int fd) \<in> {n. \<exists>d \<in> set ds. entry_fd d = Some n} \<and> readable_fd links stats lstats pid fd)"
proof -
  obtain w1 where l: "proc_listdir S (''/proc/'' @ itoa (u32 pid) @ ''/fd'') w = (Some ds, w1)"
    using assms(4) by (metis prod.collapse)
  obtain tab' w' where r: "scan_entries S st pristine pid ds tab w1 = (0, tab', w')"
    "\<forall>fd < nat FD_SETSIZE. t_idx tab' ! fd \<noteq> - 1 \<longleftrightarrow> t_idx tab ! fd \<noteq> - 1 \<or>
       (int fd) \<in> {n. \<exists>d \<in> set ds. entry_fd d = Some n} \<and> readable_fd links stats lstats pid fd"
    using scan_entries_all [OF assms(1,2,3)] by blast
  have "tab_ok pid tab'" using scan_entries_ok [OF assms(3,2) r(1)] .
  with r l show ?thesis by (auto simp: pv_watchpid_scanfds_def)
qed

theorem scan_finds_descriptors_witness:
  "\<exists>tab' w'. pv_watchpid_scanfds (watch_sys (\<lambda>path w. (Inr (watched_stat path), w))) watch_state watch_state 7
      empty_tab ([], []) = (0, tab', w') \<and> tab_ok 7 tab' \<and> t_idx tab' ! 3 \<noteq> - 1 \<and> t_idx tab' ! 5 = - 1"
proof -
  let ?S = "watch_sys (\<lambda>path w. (Inr (watched_stat path), w))"
  let ?links = "\<lambda>path. Inr ''/tmp/f'' :: int + string"
  let ?stats = "\<lambda>path. Inr (watched_stat path) :: int + wstat"
  have steady: "steady_proc ?S ?links ?stats ?stats"
    by (simp add: steady_proc_def watch_sys_defs)
  have ls: "fst (proc_listdir ?S (''/proc/'' @ itoa (u32 7) @ ''/fd'') ([], [])) =
      Some [''.'', ''..'', ''0'', ''3'', ''4000'']"
    by (simp add: watch_sys_defs)
  have fds: "map entry_fd [''.'', ''..'', ''0'', ''3'', ''4000''] = [None, None, Some 0, Some 3, Some 4000]"
    by code_simp
  have r: "readable_fd ?links ?stats ?stats 7 3"
    by (simp add: readable_fd_def verdict_def watched_stat_def no_stat_def)
  have "(7 :: int) \<noteq> 0" by simp
  note scan = scan_finds_descriptors [OF steady this empty_tab_ok ls, of watch_state watch_state]
  from scan obtain tab' w' where s: "pv_watchpid_scanfds ?S watch_state watch_state 7 empty_tab ([], []) = (0, tab', w')"
    "tab_ok 7 tab'"
    "\<forall>fd < nat FD_SETSIZE. t_idx tab' ! fd \<noteq> - 1 \<longleftrightarrow> t_idx empty_tab ! fd \<noteq> - 1 \<or>
       (int fd) \<in> {n. \<exists>d \<in> set [''.'', ''..'', ''0'', ''3'', ''4000'']. entry_fd d = Some n} \<and>
       readable_fd ?links ?stats ?stats 7 fd"
    by (elim exE conjE)
  have e: "t_idx empty_tab ! 3 = - 1" "t_idx empty_tab ! 5 = - 1" by (simp_all add: empty_tab_def FD_SETSIZE_def)
  have l: "(3 :: nat) < nat FD_SETSIZE" "(5 :: nat) < nat FD_SETSIZE" by (simp_all add: FD_SETSIZE_def)
  have "t_idx tab' ! 3 \<noteq> - 1" using s(3) [rule_format, OF l(1)] e r fds by simp
  moreover have "t_idx tab' ! 5 = - 1" using s(3) [rule_format, OF l(2)] e fds by auto
  ultimately show ?thesis using s(1,2) by blast
qed



text \<open>
  A first look at a file that is read from the middle: the count since the last update starts with
  all that came before, and so does the rate of the first display.
\<close>

lemma first_look_counts_all:
  "fv_since (snd (seen_position pos st
     \<lparr> fv_total = 0, fv_since = 0, fv_first = True, fv_next = t, fv_remote = t, fv_cur = t \<rparr>)) = pos"
  by (simp add: seen_position_def)

text \<open>An abort ends the watch of a process with status 0, not with the 32 of the other loops.\<close>

lemma aborted_watch_status:
  assumes "\<And>w. sig_abort S w" "\<And>pid w. fst (proc_alive S pid w) = None"
  shows "\<exists>w'. pv_watchpid_loop 1 S st w = Some (0, st, w')"
proof -
  obtain w1 where "proc_alive S (watch_pid st) w = (None, w1)" using assms(2) by (metis prod.collapse)
  then show ?thesis
    using assms(1) by (auto simp: pv_watchpid_loop_def watchpid_turn_def split: prod.split)
qed

text \<open>
  The size of the screen that a new slot gets is the one from the start of the watch: the copy of
  the state that it is made from does not follow the changes.
\<close>

lemma new_slot_keeps_old_size:
  assumes "first_position S info (mark_reparse (point_name info (without_eta (pristine\<lparr> total_size := n \<rparr>)))) w
    = (info', s', w')"
  shows "width s' = width pristine"
  using assms
  by (auto simp: first_position_def mark_reparse_def point_name_def without_eta_def Let_def split: prod.splits if_splits)

end
