(* ===== verification/PvRemote.thy ===== *)
theory PvRemote
  imports PvOptions PvFormat
begin

text \<open>
  \<open>tools/pv/src/main/remote.c\<close>: the options of a running \<open>pv\<close> are changed by a message on a
  queue that the user's processes share. The queue and the rest of the system are the parameter
  \<open>sysipc\<close>; a failing call returns its error number.
\<close>

record remote_msg =
  m_type :: int
  m_progress :: bool
  m_timer :: bool
  m_eta :: bool
  m_fineta :: bool
  m_rate :: bool
  m_average_rate :: bool
  m_bytes :: bool
  m_bufpercent :: bool
  m_lastwritten :: int
  m_rate_limit :: int
  m_buffer_size :: int
  m_size :: int
  m_interval :: rat
  m_width :: int
  m_height :: int
  m_name :: string
  m_format :: string

record 'w sysipc =
  ipc_alive :: "int \<Rightarrow> 'w \<Rightarrow> int option \<times> 'w"
  ipc_euid :: "'w \<Rightarrow> int"
  ipc_ftok :: "string \<Rightarrow> char \<Rightarrow> int"
  ipc_msgget :: "int \<Rightarrow> 'w \<Rightarrow> (int + int) \<times> 'w"
  ipc_qnum :: "int \<Rightarrow> 'w \<Rightarrow> (int + int) \<times> 'w"
  ipc_send :: "int \<Rightarrow> remote_msg \<Rightarrow> 'w \<Rightarrow> int option \<times> 'w"
  ipc_recv :: "int \<Rightarrow> int \<Rightarrow> 'w \<Rightarrow> (int + remote_msg) \<times> 'w"
  ipc_remove :: "int \<Rightarrow> 'w \<Rightarrow> 'w"
  ipc_sleep :: "int \<Rightarrow> 'w \<Rightarrow> 'w"
  ipc_pid :: "'w \<Rightarrow> int"
  ipc_strerror :: "int \<Rightarrow> string"

definition ENOMSG :: int where "ENOMSG = 42"
definition IPC_EAGAIN :: int where "IPC_EAGAIN = 11"

section \<open>The queue of the user\<close>

definition remote__genkey :: "'w sysipc \<Rightarrow> 'w \<Rightarrow> int" where
  "remote__genkey I w =
     (let uid = ipc_euid I w; uid = (if uid < 0 then 0 else uid)
      in ipc_ftok I ''/tmp'' (CHR ''P'') OR uid)"

definition remote__msgget :: "'w sysipc \<Rightarrow> 'w \<Rightarrow> (int + int) \<times> 'w" where
  "remote__msgget I w = ipc_msgget I (remote__genkey I w) w"

section \<open>Sending the options\<close>

text \<open>
  The bounds. Width and height are unsigned, so the tests for negative values never hold and 0
  stays 0, which the receiver takes for "leave it alone".
\<close>

definition clamp_remote :: "opts \<Rightarrow> opts" where
  "clamp_remote ops =
     (let ops = (if o_width ops < 0 then ops\<lparr> o_width := 80 \<rparr> else ops);
          ops = (if o_height ops < 0 then ops\<lparr> o_height := 25 \<rparr> else ops);
          ops = (if o_width ops > 999999 then ops\<lparr> o_width := 999999 \<rparr> else ops);
          ops = (if o_height ops > 999999 then ops\<lparr> o_height := 999999 \<rparr> else ops);
          ops = (if o_interval ops \<noteq> 0 \<and> o_interval ops < 1 / 10 then ops\<lparr> o_interval := 1 / 10 \<rparr> else ops)
      in if o_interval ops > 600 then ops\<lparr> o_interval := 600 \<rparr> else ops)"

text \<open>\<open>strncpy\<close> into a block of 256 zero bytes, as the string it leaves there.\<close>

definition copy_255 :: "string option \<Rightarrow> string" where
  "copy_255 s = (case s of None \<Rightarrow> [] | Some s \<Rightarrow> take 255 s)"

definition remote_message :: "opts \<Rightarrow> remote_msg" where
  "remote_message ops = \<lparr> m_type = o_remote ops, m_progress = o_progress ops, m_timer = o_timer ops,
     m_eta = o_eta ops, m_fineta = o_fineta ops, m_rate = o_rate ops, m_average_rate = o_average_rate ops,
     m_bytes = o_bytes ops, m_bufpercent = o_bufpercent ops, m_lastwritten = o_lastwritten ops,
     m_rate_limit = o_rate_limit ops, m_buffer_size = o_buffer_size ops, m_size = o_size ops,
     m_interval = o_interval ops, m_width = o_width ops, m_height = o_height ops,
     m_name = copy_255 (o_name ops), m_format = copy_255 (o_format ops) \<rparr>"

text \<open>
  The wait for the message to be taken, ten milliseconds at a time: true when the queue is back to
  the length it had, false when it is gone or the time is up.
\<close>

function await_taken :: "'w sysipc \<Rightarrow> int \<Rightarrow> int \<Rightarrow> int \<Rightarrow> 'w \<Rightarrow> bool \<times> 'w" where
  "await_taken I msgid initial_qnum timeout w =
     (if timeout > 10000 then
        let w = ipc_sleep I 10000 w; timeout = timeout - 10000
        in case ipc_qnum I msgid w of
             (Inl e, w) \<Rightarrow> (False, w)
           | (Inr qnum, w) \<Rightarrow> if qnum \<le> initial_qnum then (True, w)
                              else await_taken I msgid initial_qnum timeout w
      else (False, w))"
  by pat_completeness auto
termination by (relation "measure (\<lambda>(I, m, q, t, w). nat t)") auto

declare await_taken.simps [simp del]

text \<open>A message that was not taken is taken back, and an empty queue is removed.\<close>

definition take_back :: "'w sysipc \<Rightarrow> opts \<Rightarrow> int \<Rightarrow> 'w \<Rightarrow> 'w" where
  "take_back I ops msgid w =
     (case ipc_qnum I msgid w of
        (Inl e, w) \<Rightarrow> w
      | (Inr _, w) \<Rightarrow>
          (case ipc_recv I msgid (o_remote ops) w of (_, w) \<Rightarrow>
             (case ipc_qnum I msgid w of
                (Inl e, w) \<Rightarrow> w
              | (Inr qnum, w) \<Rightarrow> if qnum < 1 then ipc_remove I msgid w else w)))"

definition pv_remote_set :: "'w sysipc \<Rightarrow> opts \<Rightarrow> 'w \<Rightarrow> int \<times> string list \<times> 'w" where
  "pv_remote_set I ops w =
     (let complain = (\<lambda>msg. [program_name ops @ '': '' @ msg]);
          who = itoa (i32 (o_remote ops)) @ '': ''
      in case ipc_alive I (o_remote ops) w of
           (Some e, w) \<Rightarrow> (1, complain (who @ ipc_strerror I e), w)
         | (None, w) \<Rightarrow>
             let msg = remote_message (clamp_remote ops)
             in case remote__msgget I w of
                  (Inl e, w) \<Rightarrow> (1, complain (ipc_strerror I e), w)
                | (Inr msgid, w) \<Rightarrow>
                    (case ipc_qnum I msgid w of
                       (Inl e, w) \<Rightarrow> (1, complain (ipc_strerror I e), w)
                     | (Inr initial_qnum, w) \<Rightarrow>
                         (case ipc_send I msgid msg w of
                            (Some e, w) \<Rightarrow> (1, complain (ipc_strerror I e), w)
                          | (None, w) \<Rightarrow>
                              (case await_taken I msgid initial_qnum 1100000 w of
                                 (True, w) \<Rightarrow> (0, [], w)
                               | (False, w) \<Rightarrow>
                                   (1, complain (who @ ''message not received''), take_back I ops msgid w)))))"

section \<open>Receiving them\<close>

text \<open>What the message changes: the format always, a number only where it is not 0.\<close>

definition override :: "bool \<Rightarrow> (pvstate \<Rightarrow> pvstate) \<Rightarrow> pvstate \<Rightarrow> pvstate" where
  "override given assign st = (if given then assign st else st)"

definition apply_message :: "remote_msg \<Rightarrow> pvstate \<Rightarrow> pvstate" where
  "apply_message msg st =
     (let st = pv_state_format_string_set st None;
          st = pv_state_name_set st None;
          st = pv_state_set_format st (m_progress msg) (m_timer msg) (m_eta msg) (m_fineta msg) (m_rate msg)
                 (m_average_rate msg) (m_bytes msg) (m_bufpercent msg) (nat (m_lastwritten msg))
                 (if m_name msg = [] then None else Some (m_name msg));
          st = override (m_rate_limit msg > 0) (\<lambda>st. pv_state_rate_limit_set st (nat (m_rate_limit msg))) st;
          st = override (m_buffer_size msg > 0)
                 (\<lambda>st. pv_state_target_buffer_size_set st (nat (m_buffer_size msg))) st;
          st = override (m_size msg > 0) (\<lambda>st. pv_state_size_set st (m_size msg)) st;
          st = override (m_interval msg > 0) (\<lambda>st. pv_state_interval_set st (m_interval msg)) st;
          st = override (m_width msg > 0) (\<lambda>st. pv_state_width_set st (m_width msg)) st;
          st = override (m_height msg > 0) (\<lambda>st. pv_state_height_set st (m_height msg)) st
      in override (m_format msg \<noteq> []) (\<lambda>st. pv_state_format_string_set st (Some (m_format msg))) st)"

definition pv_remote_check :: "'w sysipc \<Rightarrow> int \<Rightarrow> pvstate \<Rightarrow> 'w \<Rightarrow> int \<times> pvstate \<times> 'w" where
  "pv_remote_check I remote__msgid st w =
     (if remote__msgid < 0 then (remote__msgid, st, w)
      else
        (case ipc_recv I remote__msgid (ipc_pid I w) w of
           (Inl e, w) \<Rightarrow>
             if e \<noteq> IPC_EAGAIN \<and> e \<noteq> ENOMSG
             then (case remote__msgget I w of (r, w) \<Rightarrow> (case r of Inl _ \<Rightarrow> - 1 | Inr q \<Rightarrow> q, st, w))
             else (remote__msgid, st, w)
         | (Inr msg, w) \<Rightarrow> (remote__msgid, apply_message msg st, w)))"

definition pv_remote_init :: "'w sysipc \<Rightarrow> 'w \<Rightarrow> int \<times> 'w" where
  "pv_remote_init I w = (case remote__msgget I w of (r, w) \<Rightarrow> (case r of Inl _ \<Rightarrow> - 1 | Inr q \<Rightarrow> q, w))"

definition pv_remote_fini :: "'w sysipc \<Rightarrow> int \<Rightarrow> 'w \<Rightarrow> 'w" where
  "pv_remote_fini I remote__msgid w = (if 0 \<le> remote__msgid then ipc_remove I remote__msgid w else w)"

section \<open>The wait\<close>

text \<open>A reference for the wait: so many polls, whatever the time.\<close>

fun polls :: "nat \<Rightarrow> 'w sysipc \<Rightarrow> int \<Rightarrow> int \<Rightarrow> 'w \<Rightarrow> bool \<times> 'w" where
  "polls 0 I msgid q w = (False, w)"
| "polls (Suc n) I msgid q w =
     (case ipc_qnum I msgid (ipc_sleep I 10000 w) of
        (Inl e, w) \<Rightarrow> (False, w)
      | (Inr qnum, w) \<Rightarrow> if qnum \<le> q then (True, w) else polls n I msgid q w)"

lemma await_polls: "await_taken I msgid q (10000 * int n + 10000) w = polls n I msgid q w"
proof (induction n arbitrary: w)
  case 0
  show ?case by (subst await_taken.simps) simp
next
  case (Suc n)
  have "10000 * int (Suc n) + 10000 - 10000 = 10000 * int n + 10000" by simp
  with Suc.IH show ?case
    by (subst await_taken.simps) (simp add: Let_def algebra_simps split: prod.split sum.split)
qed


section \<open>The message arrives\<close>

text \<open>
  The documented behaviour of the queue, seen through \<open>box\<close>, the messages waiting on it: a
  message goes to the end; the first one of the type asked for is taken out.
\<close>

definition message_queue :: "'w sysipc \<Rightarrow> ('w \<Rightarrow> int \<Rightarrow> remote_msg list) \<Rightarrow> bool" where
  "message_queue I box \<longleftrightarrow>
     (\<forall>q m w w'. ipc_send I q m w = (None, w') \<longrightarrow>
        box w' = (box w)(q := box w q @ [m]) \<and> ipc_pid I w' = ipc_pid I w) \<and>
     (\<forall>q t w xs m ys. box w q = xs @ m # ys \<longrightarrow> (\<forall>x \<in> set xs. m_type x \<noteq> t) \<longrightarrow> m_type m = t \<longrightarrow>
        (\<exists>w'. ipc_recv I q t w = (Inr m, w') \<and> box w' = (box w)(q := xs @ ys)))"

text \<open>What the receiver changes, one field at a time.\<close>

lemma override_fields:
  "width (override c f st) = (if c then width (f st) else width st)"
  "height (override c f st) = (if c then height (f st) else height st)"
  "interval (override c f st) = (if c then interval (f st) else interval st)"
  "total_size (override c f st) = (if c then total_size (f st) else total_size st)"
  "input_files (override c f st) = (if c then input_files (f st) else input_files st)"
  "exit_status (override c f st) = (if c then exit_status (f st) else exit_status st)"
  "default_format (override c f st) = (if c then default_format (f st) else default_format st)"
  by (simp_all add: override_def)

lemma ADDFORMAT_fields:
  "width (PV_ADDFORMAT x y st) = width st" "height (PV_ADDFORMAT x y st) = height st"
  "interval (PV_ADDFORMAT x y st) = interval st" "total_size (PV_ADDFORMAT x y st) = total_size st"
  "input_files (PV_ADDFORMAT x y st) = input_files st"
  by (simp_all add: PV_ADDFORMAT_def Let_def)

lemma ADDFORMAT_status: "exit_status (PV_ADDFORMAT x y st) = exit_status st"
  by (simp add: PV_ADDFORMAT_def Let_def)

lemma set_format_fields:
  "width (pv_state_set_format st p t e f r a b u n nm) = width st"
  "height (pv_state_set_format st p t e f r a b u n nm) = height st"
  "interval (pv_state_set_format st p t e f r a b u n nm) = interval st"
  "total_size (pv_state_set_format st p t e f r a b u n nm) = total_size st"
  "input_files (pv_state_set_format st p t e f r a b u n nm) = input_files st"
  "exit_status (pv_state_set_format st p t e f r a b u n nm) = exit_status st"
  by (simp_all add: pv_state_set_format_def Let_def ADDFORMAT_fields ADDFORMAT_status)

lemma apply_message_fields:
  "width (apply_message m st) = (if 0 < m_width m then m_width m else width st)"
  "height (apply_message m st) = (if 0 < m_height m then m_height m else height st)"
  "interval (apply_message m st) = (if 0 < m_interval m then m_interval m else interval st)"
  "total_size (apply_message m st) = (if 0 < m_size m then m_size m else total_size st)"
  "input_files (apply_message m st) = input_files st" "exit_status (apply_message m st) = exit_status st"
  by (simp_all add: apply_message_def Let_def override_fields pv_setters set_format_fields cong: if_cong)

text \<open>The format is built afresh, whatever was there.\<close>

lemma set_format_fresh:
  "default_format (pv_state_set_format st p t e f r a b u n nm) =
   default_format (pv_state_set_format st' p t e f r a b u n nm)"
  by (simp add: set_format_text)

lemma apply_message_format:
  "default_format (apply_message m st) = default_format (pv_state_set_format st (m_progress m) (m_timer m)
     (m_eta m) (m_fineta m) (m_rate m) (m_average_rate m) (m_bytes m) (m_bufpercent m)
     (nat (m_lastwritten m)) (if m_name m = [] then None else Some (m_name m)))"
proof -
  have "default_format (apply_message m st) = default_format (pv_state_set_format
     (pv_state_name_set (pv_state_format_string_set st None) None) (m_progress m) (m_timer m)
     (m_eta m) (m_fineta m) (m_rate m) (m_average_rate m) (m_bytes m) (m_bufpercent m)
     (nat (m_lastwritten m)) (if m_name m = [] then None else Some (m_name m)))"
    unfolding apply_message_def Let_def
    by (simp add: override_fields pv_setters cong: if_cong)
  then show ?thesis by (rule trans [OF _ set_format_fresh])
qed

lemma clamp_remote_bounds:
  "0 \<le> o_width ops \<Longrightarrow> o_width (clamp_remote ops) = min (o_width ops) 999999"
  "0 \<le> o_height ops \<Longrightarrow> o_height (clamp_remote ops) = min (o_height ops) 999999"
  "o_interval (clamp_remote ops) = (if o_interval ops = 0 then 0 else min 600 (max (1 / 10) (o_interval ops)))"
  by (auto simp: clamp_remote_def Let_def min_def max_def)

lemma clamp_remote_same:
  "o_name (clamp_remote ops) = o_name ops" "o_format (clamp_remote ops) = o_format ops"
  "o_remote (clamp_remote ops) = o_remote ops" "o_progress (clamp_remote ops) = o_progress ops"
  "o_timer (clamp_remote ops) = o_timer ops" "o_eta (clamp_remote ops) = o_eta ops"
  "o_fineta (clamp_remote ops) = o_fineta ops" "o_rate (clamp_remote ops) = o_rate ops"
  "o_average_rate (clamp_remote ops) = o_average_rate ops" "o_bytes (clamp_remote ops) = o_bytes ops"
  "o_bufpercent (clamp_remote ops) = o_bufpercent ops" "o_lastwritten (clamp_remote ops) = o_lastwritten ops"
  "o_size (clamp_remote ops) = o_size ops"
  by (simp_all add: clamp_remote_def Let_def)

section \<open>A queue to send the message on\<close>

definition box_sys :: "int \<Rightarrow> (remote_msg list) sysipc" where
  "box_sys pid = \<lparr> ipc_alive = (\<lambda>p w. (None, w)), ipc_euid = (\<lambda>w. 1000), ipc_ftok = (\<lambda>p c. 80),
     ipc_msgget = (\<lambda>k w. (Inr 0, w)), ipc_qnum = (\<lambda>q w. (Inr (int (length w)), w)),
     ipc_send = (\<lambda>q m w. if q = 0 then (None, w @ [m]) else (Some 22, w)),
     ipc_recv = (\<lambda>q t w. case (if q = 0 then dropWhile (\<lambda>m. m_type m \<noteq> t) w else []) of
        [] \<Rightarrow> (Inl ENOMSG, w) | m # ms \<Rightarrow> (Inr m, takeWhile (\<lambda>m. m_type m \<noteq> t) w @ ms)),
     ipc_remove = (\<lambda>q w. []), ipc_sleep = (\<lambda>t w. w), ipc_pid = (\<lambda>w. pid),
     ipc_strerror = (\<lambda>e. ''error'') \<rparr>"

definition box_of :: "remote_msg list \<Rightarrow> int \<Rightarrow> remote_msg list" where
  "box_of w q = (if q = 0 then w else [])"

lemma first_of_type:
  assumes "\<forall>x \<in> set xs. \<not> P x" "P m"
  shows "dropWhile (\<lambda>x. \<not> P x) (xs @ m # ys) = m # ys" "takeWhile (\<lambda>x. \<not> P x) (xs @ m # ys) = xs"
  using assms by (simp_all add: dropWhile_append takeWhile_append)

lemma box_sys_queue: "message_queue (box_sys pid) box_of"
  unfolding message_queue_def
proof (intro conjI allI impI)
  fix q m w w' assume "ipc_send (box_sys pid) q m w = (None, w')"
  then show "box_of w' = (box_of w)(q := box_of w q @ [m])" "ipc_pid (box_sys pid) w' = ipc_pid (box_sys pid) w"
    by (auto simp: box_sys_def box_of_def split: if_splits)
next
  fix q t w xs m ys
  assume "box_of w q = xs @ m # ys" "\<forall>x \<in> set xs. m_type x \<noteq> t" "m_type m = t"
  with first_of_type [of xs "\<lambda>m. m_type m = t" m ys]
  show "\<exists>w'. ipc_recv (box_sys pid) q t w = (Inr m, w') \<and> box_of w' = (box_of w)(q := xs @ ys)"
    by (auto simp: box_sys_def box_of_def split: if_splits)
qed

section \<open>The properties\<close>



text \<open>
  The wait ends: it looks at the queue every hundredth of a second, 109 times at most.
\<close>

theorem await_taken_polls: "await_taken I msgid q 1100000 w = polls 109 I msgid q w"
  using await_polls [of I msgid q 109 w] by simp

text \<open>
  The comment on \<open>remote__msgget\<close> calls the queue unique to the user and the process; its name has
  no process in it, so a \<open>pv\<close> that ends removes the messages for the others.
\<close>

lemma fini_drops_others: "pv_remote_fini (box_sys 77) 0 [m] = []"
  by (simp add: pv_remote_fini_def box_sys_def)

end
