(* ===== verification/PvSignal.thy ===== *)
theory PvSignal
  imports PvLoop
begin

text \<open>
  \<open>tools/pv/src/pv/signal.c\<close>: the handlers, the dispositions of the signals, the redirection of
  standard error while \<open>pv\<close> is in the background, and the time it was stopped. The system calls
  of the handlers are the parameter \<open>sysfd\<close>. A signal is delivered between two steps of the
  program, by \<open>deliver\<close>, which looks up its disposition.
\<close>

datatype pv_signal = SIGPIPE | SIGTTOU | SIGTSTP | SIGCONT | SIGWINCH | SIGINT | SIGHUP | SIGTERM

datatype sig_handler = Sig_ttou | Sig_tstp | Sig_cont | Sig_winch | Sig_term

datatype disposition = SIG_DFL | SIG_IGN | Handler sig_handler

text \<open>The part of the state that the handlers touch, and the table of dispositions.\<close>

record sig_state =
  sig_old_stderr :: int
  sig_tstp_time :: timeval
  sig_offset :: timeval
  sig_newsize :: bool
  sig_aborting :: bool
  crs_needreinit :: int
  next_check :: int
  old_action :: "pv_signal \<Rightarrow> disposition"
  action :: "pv_signal \<Rightarrow> disposition"

record 'w sysfd =
  fd_open_null :: "'w \<Rightarrow> int \<times> 'w"
  fd_dup :: "int \<Rightarrow> 'w \<Rightarrow> int \<times> 'w"
  fd_dup2 :: "int \<Rightarrow> int \<Rightarrow> 'w \<Rightarrow> 'w"
  fd_close :: "int \<Rightarrow> 'w \<Rightarrow> 'w"
  fd_now :: "'w \<Rightarrow> timeval \<times> 'w"
  fd_tostop :: "'w \<Rightarrow> 'w"
  fd_stop_self :: "'w \<Rightarrow> 'w"

definition STDERR_FILENO :: int where "STDERR_FILENO = 2"

section \<open>The handlers\<close>

definition pv_crs_needreinit :: "int \<Rightarrow> int" where
  "pv_crs_needreinit n = (if n + 2 > 3 then 3 else n + 2)"

definition pv_sig_ttou :: "'w sysfd \<Rightarrow> sig_state \<Rightarrow> 'w \<Rightarrow> sig_state \<times> 'w" where
  "pv_sig_ttou F s w =
     (case fd_open_null F w of (fd, w) \<Rightarrow>
        if fd < 0 then (s, w)
        else
          let (old, w) = (if sig_old_stderr s = - 1 then fd_dup F STDERR_FILENO w else (sig_old_stderr s, w));
              s = s\<lparr> sig_old_stderr := old \<rparr>;
              w = fd_dup2 F fd STDERR_FILENO w
          in (s, fd_close F fd w))"

definition pv_sig_tstp :: "'w sysfd \<Rightarrow> sig_state \<Rightarrow> 'w \<Rightarrow> sig_state \<times> 'w" where
  "pv_sig_tstp F s w = (case fd_now F w of (t, w) \<Rightarrow> (s\<lparr> sig_tstp_time := t \<rparr>, fd_stop_self F w))"

text \<open>The offset with the time since the stop added: one carry up, one carry down.\<close>

definition add_stopped :: "timeval \<Rightarrow> timeval \<Rightarrow> timeval \<Rightarrow> timeval" where
  "add_stopped offset now stop =
     (let t = (fst offset + (fst now - fst stop), snd offset + (snd now - snd stop));
          t = (if 1000000 \<le> snd t then (fst t + 1, snd t - 1000000) else t)
      in if snd t < 0 then (fst t - 1, snd t + 1000000) else t)"

text \<open>Standard error back from the descriptor that kept it.\<close>

definition restore_stderr :: "'w sysfd \<Rightarrow> sig_state \<Rightarrow> 'w \<Rightarrow> sig_state \<times> 'w" where
  "restore_stderr F s w =
     (s\<lparr> sig_old_stderr := - 1 \<rparr>, fd_close F (sig_old_stderr s) (fd_dup2 F (sig_old_stderr s) STDERR_FILENO w))"

definition pv_sig_cont :: "'w sysfd \<Rightarrow> sig_state \<Rightarrow> 'w \<Rightarrow> sig_state \<times> 'w" where
  "pv_sig_cont F s w =
     (let s = s\<lparr> sig_newsize := True \<rparr>
      in if fst (sig_tstp_time s) = 0
         then (s\<lparr> crs_needreinit := pv_crs_needreinit (crs_needreinit s) \<rparr>, fd_tostop F w)
         else
           (case fd_now F w of (tv, w) \<Rightarrow>
              let s = s\<lparr> sig_offset := add_stopped (sig_offset s) tv (sig_tstp_time s) \<rparr>;
                  s = s\<lparr> sig_tstp_time := (0, 0) \<rparr>;
                  (s, w) = (if sig_old_stderr s \<noteq> - 1 then restore_stderr F s w else (s, w))
              in (s\<lparr> crs_needreinit := pv_crs_needreinit (crs_needreinit s) \<rparr>, fd_tostop F w)))"

definition pv_sig_winch :: "sig_state \<Rightarrow> sig_state" where
  "pv_sig_winch s = s\<lparr> sig_newsize := True \<rparr>"

definition pv_sig_term :: "sig_state \<Rightarrow> sig_state" where
  "pv_sig_term s = s\<lparr> sig_aborting := True \<rparr>"

fun run_handler :: "'w sysfd \<Rightarrow> sig_handler \<Rightarrow> sig_state \<Rightarrow> 'w \<Rightarrow> sig_state \<times> 'w" where
  "run_handler F Sig_ttou s w = pv_sig_ttou F s w"
| "run_handler F Sig_tstp s w = pv_sig_tstp F s w"
| "run_handler F Sig_cont s w = pv_sig_cont F s w"
| "run_handler F Sig_winch s w = (pv_sig_winch s, w)"
| "run_handler F Sig_term s w = (pv_sig_term s, w)"

section \<open>Installing and removing them\<close>

text \<open>\<open>sigaction\<close> with and without a place for the old action.\<close>

definition set_action :: "pv_signal \<Rightarrow> disposition \<Rightarrow> sig_state \<Rightarrow> sig_state" where
  "set_action sg d s = s\<lparr> action := (action s)(sg := d) \<rparr>"

definition sigaction_save :: "pv_signal \<Rightarrow> disposition \<Rightarrow> sig_state \<Rightarrow> sig_state" where
  "sigaction_save sg d s = set_action sg d (s\<lparr> old_action := (old_action s)(sg := action s sg) \<rparr>)"

definition pv_sig_init :: "sig_state \<Rightarrow> sig_state" where
  "pv_sig_init s =
     (let s = s\<lparr> sig_old_stderr := - 1, sig_tstp_time := (0, 0), sig_offset := (0, 0) \<rparr>;
          s = sigaction_save SIGPIPE SIG_IGN s;
          s = sigaction_save SIGTTOU (Handler Sig_ttou) s;
          s = sigaction_save SIGTSTP (Handler Sig_tstp) s;
          s = sigaction_save SIGCONT (Handler Sig_cont) s;
          s = sigaction_save SIGWINCH (Handler Sig_winch) s;
          s = sigaction_save SIGINT (Handler Sig_term) s;
          s = sigaction_save SIGHUP (Handler Sig_term) s
      in sigaction_save SIGTERM (Handler Sig_term) s)"

definition pv_sig_fini :: "sig_state \<Rightarrow> sig_state" where
  "pv_sig_fini s =
     (let s = set_action SIGPIPE (old_action s SIGPIPE) s;
          s = set_action SIGTTOU (old_action s SIGTTOU) s;
          s = set_action SIGTSTP (old_action s SIGTSTP) s;
          s = set_action SIGCONT (old_action s SIGCONT) s;
          s = set_action SIGWINCH (old_action s SIGWINCH) s;
          s = set_action SIGINT (old_action s SIGINT) s;
          s = set_action SIGHUP (old_action s SIGHUP) s
      in set_action SIGTERM (old_action s SIGTERM) s)"

definition pv_sig_nopause :: "sig_state \<Rightarrow> sig_state" where
  "pv_sig_nopause s = set_action SIGCONT SIG_DFL (set_action SIGTSTP SIG_IGN s)"

definition pv_sig_allowpause :: "sig_state \<Rightarrow> sig_state" where
  "pv_sig_allowpause s = set_action SIGCONT (Handler Sig_cont) (set_action SIGTSTP (Handler Sig_tstp) s)"

definition pv_sig_checkbg :: "'w sysfd \<Rightarrow> sig_state \<Rightarrow> 'w \<Rightarrow> sig_state \<times> 'w" where
  "pv_sig_checkbg F s w =
     (case fd_now F w of (t, w) \<Rightarrow>
        if fst t < next_check s then (s, w)
        else
          (case fd_now F w of (t, w) \<Rightarrow>
             let s = s\<lparr> next_check := fst t + 1 \<rparr>
             in if sig_old_stderr s = - 1 then (s, w)
                else
                  (case restore_stderr F s w of (s, w) \<Rightarrow>
                     (s\<lparr> crs_needreinit := pv_crs_needreinit (crs_needreinit s) \<rparr>, fd_tostop F w))))"

section \<open>The machine\<close>

text \<open>
  A signal whose disposition is the default one is left to the system: \<open>SIGCONT\<close> and \<open>SIGWINCH\<close>
  do nothing more, the others stop or end the process, and there is no next state.
\<close>

definition deliver :: "'w sysfd \<Rightarrow> pv_signal \<Rightarrow> sig_state \<Rightarrow> 'w \<Rightarrow> (sig_state \<times> 'w) option" where
  "deliver F sg s w =
     (case action s sg of
        Handler h \<Rightarrow> Some (run_handler F h s w)
      | SIG_IGN \<Rightarrow> Some (s, w)
      | SIG_DFL \<Rightarrow> if sg = SIGCONT \<or> sg = SIGWINCH then Some (s, w) else None)"

datatype sig_event = Signal pv_signal | CheckBg | NoPause | AllowPause

fun sig_step :: "'w sysfd \<Rightarrow> sig_event \<Rightarrow> sig_state \<Rightarrow> 'w \<Rightarrow> (sig_state \<times> 'w) option" where
  "sig_step F (Signal sg) s w = deliver F sg s w"
| "sig_step F CheckBg s w = Some (pv_sig_checkbg F s w)"
| "sig_step F NoPause s w = Some (pv_sig_nopause s, w)"
| "sig_step F AllowPause s w = Some (pv_sig_allowpause s, w)"

inductive sig_reach :: "'w sysfd \<Rightarrow> sig_state \<Rightarrow> 'w \<Rightarrow> sig_state \<Rightarrow> 'w \<Rightarrow> bool" for F s0 w0 where
  start: "sig_reach F s0 w0 (pv_sig_init s0) w0"
| move: "sig_reach F s0 w0 s w \<Longrightarrow> sig_step F e s w = Some (s', w') \<Longrightarrow> sig_reach F s0 w0 s' w'"

section \<open>The terminal is not lost\<close>

text \<open>
  The documented behaviour of the descriptor calls, seen through \<open>tab\<close>, the table of open files:
  \<open>open\<close> and \<open>dup\<close> take a free descriptor, \<open>dup2\<close> makes one a copy of another, \<open>close\<close> frees one;
  the other calls leave the table alone.
\<close>

definition fd_table :: "'w sysfd \<Rightarrow> ('w \<Rightarrow> int \<Rightarrow> string option) \<Rightarrow> bool" where
  "fd_table F tab \<longleftrightarrow>
     (\<forall>w fd w'. fd_open_null F w = (fd, w') \<longrightarrow>
        (if fd < 0 then tab w' = tab w else tab w fd = None \<and> tab w' = (tab w)(fd \<mapsto> ''/dev/null''))) \<and>
     (\<forall>d w fd w'. tab w d \<noteq> None \<longrightarrow> fd_dup F d w = (fd, w') \<longrightarrow>
        0 \<le> fd \<and> tab w fd = None \<and> tab w' = (tab w)(fd := tab w d)) \<and>
     (\<forall>a b w. tab w a \<noteq> None \<longrightarrow> tab (fd_dup2 F a b w) = (tab w)(b := tab w a)) \<and>
     (\<forall>d w. tab (fd_close F d w) = (tab w)(d := None)) \<and>
     (\<forall>w. tab (snd (fd_now F w)) = tab w) \<and> (\<forall>w. tab (fd_tostop F w) = tab w) \<and>
     (\<forall>w. tab (fd_stop_self F w) = tab w)"

text \<open>
  Standard error is the terminal, or the terminal is kept under the saved descriptor and standard
  error is the null device.
\<close>

definition terminal_kept :: "('w \<Rightarrow> int \<Rightarrow> string option) \<Rightarrow> string \<Rightarrow> sig_state \<Rightarrow> 'w \<Rightarrow> bool" where
  "terminal_kept tab term' s w \<longleftrightarrow>
     sig_old_stderr s = - 1 \<and> tab w STDERR_FILENO = Some term' \<or>
     0 \<le> sig_old_stderr s \<and> sig_old_stderr s \<noteq> STDERR_FILENO \<and>
       tab w (sig_old_stderr s) = Some term' \<and> tab w STDERR_FILENO = Some ''/dev/null''"


lemma fd_tableD:
  assumes "fd_table F tab"
  shows "fd_open_null F w = (fd, w') \<Longrightarrow> fd < 0 \<Longrightarrow> tab w' = tab w"
    and "fd_open_null F w = (fd, w') \<Longrightarrow> \<not> fd < 0 \<Longrightarrow>
      tab w fd = None \<and> tab w' = (tab w)(fd \<mapsto> ''/dev/null'')"
    and "tab w d \<noteq> None \<Longrightarrow> fd_dup F d w = (fd, w') \<Longrightarrow>
      0 \<le> fd \<and> tab w fd = None \<and> tab w' = (tab w)(fd := tab w d)"
    and "tab w a \<noteq> None \<Longrightarrow> tab (fd_dup2 F a b w) = (tab w)(b := tab w a)"
    and "tab (fd_close F d w) = (tab w)(d := None)"
    and "fd_now F w = (t, w') \<Longrightarrow> tab w' = tab w"
    and "tab (fd_tostop F w) = tab w" "tab (fd_stop_self F w) = tab w"
proof -
  note c = assms [unfolded fd_table_def]
  show "fd_open_null F w = (fd, w') \<Longrightarrow> fd < 0 \<Longrightarrow> tab w' = tab w"
    using conjunct1 [OF c] by metis
  show "fd_open_null F w = (fd, w') \<Longrightarrow> \<not> fd < 0 \<Longrightarrow>
      tab w fd = None \<and> tab w' = (tab w)(fd \<mapsto> ''/dev/null'')"
    using conjunct1 [OF c] by metis
  show "tab w d \<noteq> None \<Longrightarrow> fd_dup F d w = (fd, w') \<Longrightarrow>
      0 \<le> fd \<and> tab w fd = None \<and> tab w' = (tab w)(fd := tab w d)"
    using conjunct1 [OF conjunct2 [OF c]] by blast
  show "tab w a \<noteq> None \<Longrightarrow> tab (fd_dup2 F a b w) = (tab w)(b := tab w a)"
    and "tab (fd_close F d w) = (tab w)(d := None)"
    and "tab (fd_tostop F w) = tab w" "tab (fd_stop_self F w) = tab w"
    using c by blast+
  have "tab (snd (fd_now F w)) = tab w" using c by blast
  then show "fd_now F w = (t, w') \<Longrightarrow> tab w' = tab w" by simp
qed

lemma terminal_kept_same:
  "terminal_kept tab tty s w \<Longrightarrow> tab w' = tab w \<Longrightarrow> sig_old_stderr s' = sig_old_stderr s \<Longrightarrow>
   terminal_kept tab tty s' w'"
  by (simp add: terminal_kept_def)

lemma ttou_kept:
  assumes f: "fd_table F tab" and k: "terminal_kept tab tty s w" and run: "pv_sig_ttou F s w = (s', w')"
  shows "terminal_kept tab tty s' w'"
proof -
  obtain fd w1 where o: "fd_open_null F w = (fd, w1)" by (rule prod.exhaust)
  show ?thesis
  proof (cases "fd < 0")
    case True
    with run o k fd_tableD(1) [OF f o True] show ?thesis
      by (auto simp: pv_sig_ttou_def intro: terminal_kept_same)
  next
    case False
    note n = fd_tableD(2) [OF f o False]
    obtain old w2 where d: "(if sig_old_stderr s = - 1 then fd_dup F STDERR_FILENO w1
        else (sig_old_stderr s, w1)) = (old, w2)" by (rule prod.exhaust)
    have res: "s' = s\<lparr> sig_old_stderr := old \<rparr>" "w' = fd_close F fd (fd_dup2 F fd STDERR_FILENO w2)"
      using run o False d by (auto simp: pv_sig_ttou_def)
    have ne: "fd \<noteq> STDERR_FILENO" using n k by (auto simp: terminal_kept_def)
    have old: "0 \<le> old \<and> old \<noteq> STDERR_FILENO \<and> old \<noteq> fd \<and> tab w2 old = Some tty \<and> tab w2 fd = Some ''/dev/null''"
    proof (cases "sig_old_stderr s = - 1")
      case True
      with k have t: "tab w1 STDERR_FILENO = Some tty" using n ne by (auto simp: terminal_kept_def)
      have "fd_dup F STDERR_FILENO w1 = (old, w2)" using d True by simp
      from fd_tableD(3) [OF f _ this] t n show ?thesis by auto
    next
      case False
      with d k n show ?thesis by (auto simp: terminal_kept_def)
    qed
    with fd_tableD(4) [OF f, of w2 fd STDERR_FILENO] fd_tableD(5) [OF f] res ne show ?thesis
      by (auto simp: terminal_kept_def)
  qed
qed

lemma restore_kept:
  assumes f: "fd_table F tab" and k: "terminal_kept tab tty s w" and old: "sig_old_stderr s \<noteq> - 1"
    and run: "restore_stderr F s w = (s', w')"
  shows "tab w' STDERR_FILENO = Some tty \<and> sig_old_stderr s' = - 1"
  using run k old fd_tableD(4) [OF f, of w "sig_old_stderr s" STDERR_FILENO] fd_tableD(5) [OF f]
  by (auto simp: restore_stderr_def terminal_kept_def)

lemma cont_kept:
  assumes f: "fd_table F tab" and k: "terminal_kept tab tty s w" and run: "pv_sig_cont F s w = (s', w')"
  shows "terminal_kept tab tty s' w'"
proof (cases "fst (sig_tstp_time s) = 0")
  case True
  with run k fd_tableD(7) [OF f] show ?thesis by (auto simp: pv_sig_cont_def terminal_kept_def)
next
  case False
  obtain tv w1 where t: "fd_now F w = (tv, w1)" by (rule prod.exhaust)
  define s1 where "s1 = s\<lparr> sig_newsize := True, sig_offset := add_stopped (sig_offset s) tv (sig_tstp_time s),
    sig_tstp_time := (0, 0) \<rparr>"
  have k1: "terminal_kept tab tty s1 w1"
    by (rule terminal_kept_same [OF k fd_tableD(6) [OF f t]]) (simp add: s1_def)
  obtain s2 w2 where r: "(if sig_old_stderr s1 \<noteq> - 1 then restore_stderr F s1 w1 else (s1, w1)) = (s2, w2)"
    by (rule prod.exhaust)
  have "terminal_kept tab tty s2 w2"
    using r k1 restore_kept [OF f k1, of s2 w2] by (auto simp: terminal_kept_def split: if_splits)
  moreover have "s' = s2\<lparr> crs_needreinit := pv_crs_needreinit (crs_needreinit s2) \<rparr>" "w' = fd_tostop F w2"
    using run t False r unfolding s1_def by (auto simp: pv_sig_cont_def Let_def split: prod.splits)
  ultimately show ?thesis
    using fd_tableD(7) [OF f] by (auto intro: terminal_kept_same)
qed

lemma checkbg_kept:
  assumes f: "fd_table F tab" and k: "terminal_kept tab tty s w" and run: "pv_sig_checkbg F s w = (s', w')"
  shows "terminal_kept tab tty s' w'"
    "next_check s \<le> fst (fst (fd_now F w)) \<Longrightarrow> sig_old_stderr s' = - 1"
proof -
  obtain t1 w1 where t1: "fd_now F w = (t1, w1)" by (rule prod.exhaust)
  obtain t2 w2 where t2: "fd_now F w1 = (t2, w2)" by (rule prod.exhaust)
  note same = fd_tableD(6) [OF f t1] fd_tableD(6) [OF f t2]
  let ?s1 = "s\<lparr> next_check := fst t2 + 1 \<rparr>"
  have "terminal_kept tab tty s' w' \<and> (next_check s \<le> fst t1 \<longrightarrow> sig_old_stderr s' = - 1)"
  proof (cases "fst t1 < next_check s \<or> sig_old_stderr s = - 1")
    case True
    with run t1 t2 same k show ?thesis by (auto simp: pv_sig_checkbg_def Let_def terminal_kept_def split: if_splits)
  next
    case False
    have k1: "terminal_kept tab tty ?s1 w2" by (rule terminal_kept_same [OF k]) (simp_all add: same)
    obtain s2 w3 where r: "restore_stderr F ?s1 w2 = (s2, w3)" by (rule prod.exhaust)
    from restore_kept [OF f k1 _ r] False run t1 t2 r fd_tableD(7) [OF f] show ?thesis
      by (auto simp: pv_sig_checkbg_def Let_def terminal_kept_def)
  qed
  then show "terminal_kept tab tty s' w'"
    "next_check s \<le> fst (fst (fd_now F w)) \<Longrightarrow> sig_old_stderr s' = - 1" by (simp_all add: t1)
qed

lemma handler_kept:
  assumes f: "fd_table F tab" and k: "terminal_kept tab tty s w" and run: "run_handler F h s w = (s', w')"
  shows "terminal_kept tab tty s' w'"
proof (cases h)
  case Sig_ttou
  with run ttou_kept [OF f k] show ?thesis by simp
next
  case Sig_tstp
  obtain t w1 where t: "fd_now F w = (t, w1)" by (rule prod.exhaust)
  from Sig_tstp run t fd_tableD(6) [OF f t] fd_tableD(8) [OF f] show ?thesis
    by (auto simp: pv_sig_tstp_def intro: terminal_kept_same [OF k])
next
  case Sig_cont
  with run cont_kept [OF f k] show ?thesis by simp
qed (use run in \<open>auto simp: pv_sig_winch_def pv_sig_term_def intro: terminal_kept_same [OF k]\<close>)

lemma step_kept:
  assumes f: "fd_table F tab" and k: "terminal_kept tab tty s w" and run: "sig_step F e s w = Some (s', w')"
  shows "terminal_kept tab tty s' w'"
proof (cases e)
  case (Signal sg)
  with run handler_kept [OF f k] k show ?thesis
    by (auto simp: deliver_def split: disposition.splits if_splits)
next
  case CheckBg
  with run checkbg_kept(1) [OF f k] show ?thesis by simp
qed (use run in \<open>auto simp: pv_sig_nopause_def pv_sig_allowpause_def set_action_def
      intro: terminal_kept_same [OF k]\<close>)

lemma reach_kept:
  assumes f: "fd_table F tab" and t: "tab w0 STDERR_FILENO = Some tty" and r: "sig_reach F s0 w0 s w"
  shows "terminal_kept tab tty s w"
  using r
proof (induction rule: sig_reach.induct)
  case start
  show ?case using t by (simp add: terminal_kept_def pv_sig_init_def Let_def sigaction_save_def set_action_def)
next
  case (move s w e s' w')
  from step_kept [OF f move.IH move.hyps(2)] show ?case .
qed

section \<open>The dispositions\<close>

lemma init_action: "old_action (pv_sig_init s) = action s"
proof
  fix sg
  show "old_action (pv_sig_init s) sg = action s sg"
    by (cases sg) (simp_all add: pv_sig_init_def Let_def sigaction_save_def set_action_def)
qed

lemma fini_action: "action (pv_sig_fini s) = old_action s"
proof
  fix sg
  show "action (pv_sig_fini s) sg = old_action s sg"
    by (cases sg) (simp_all add: pv_sig_fini_def Let_def set_action_def)
qed

lemma handler_old_action: "run_handler F h s w = (s', w') \<Longrightarrow> old_action s' = old_action s"
  by (cases h)
    (auto simp: pv_sig_ttou_def pv_sig_tstp_def pv_sig_cont_def pv_sig_winch_def pv_sig_term_def
      restore_stderr_def Let_def split: prod.splits if_splits)

lemma step_old_action: "sig_step F e s w = Some (s', w') \<Longrightarrow> old_action s' = old_action s"
  by (cases e)
    (auto simp: deliver_def pv_sig_checkbg_def restore_stderr_def pv_sig_nopause_def pv_sig_allowpause_def
      set_action_def Let_def handler_old_action split: disposition.splits if_splits prod.splits)

lemma reach_old_action: "sig_reach F s0 w0 s w \<Longrightarrow> old_action s = action s0"
  by (induction rule: sig_reach.induct) (auto simp: init_action dest: step_old_action)

section \<open>The time stopped\<close>

definition usecs :: "timeval \<Rightarrow> int" where
  "usecs t = 1000000 * fst t + snd t"

definition normal_time :: "timeval \<Rightarrow> bool" where
  "normal_time t \<longleftrightarrow> 0 \<le> snd t \<and> snd t < 1000000"

lemma add_stopped_value:
  assumes "normal_time off" "normal_time now" "normal_time stop"
  shows "usecs (add_stopped off now stop) = usecs off + (usecs now - usecs stop)"
    "normal_time (add_stopped off now stop)"
  using assms by (auto simp: add_stopped_def usecs_def normal_time_def Let_def)


section \<open>A table of descriptors to run the handlers on\<close>

text \<open>Open files as pairs, newest first, and a clock that moves on with every look at it.\<close>

definition free_fd :: "(int \<times> string) list \<Rightarrow> int" where
  "free_fd t = foldr max (map fst t) 2 + 1"

definition table_sys :: "((int \<times> string) list \<times> int) sysfd" where
  "table_sys = \<lparr>
     fd_open_null = (\<lambda>(t, c). (free_fd t, ((free_fd t, ''/dev/null'') # t, c))),
     fd_dup = (\<lambda>d (t, c). case map_of t d of None \<Rightarrow> (- 1, (t, c)) | Some f \<Rightarrow> (free_fd t, ((free_fd t, f) # t, c))),
     fd_dup2 = (\<lambda>a b (t, c). case map_of t a of None \<Rightarrow> (t, c) | Some f \<Rightarrow> ((b, f) # t, c)),
     fd_close = (\<lambda>d (t, c). (filter (\<lambda>p. fst p \<noteq> d) t, c)),
     fd_now = (\<lambda>(t, c). ((c, 0), (t, c + 1))),
     fd_tostop = (\<lambda>w. w), fd_stop_self = (\<lambda>(t, c). (t, c + 60)) \<rparr>"

definition table_of :: "(int \<times> string) list \<times> int \<Rightarrow> int \<Rightarrow> string option" where
  "table_of w = map_of (fst w)"

lemma foldr_max_ge: "x \<in> set xs \<Longrightarrow> x \<le> foldr max xs (n :: int)"
  by (induction xs) auto

lemma free_fd_free: "map_of t (free_fd t) = None" "0 \<le> free_fd t"
proof -
  have "free_fd t \<notin> fst ` set t"
    using foldr_max_ge [of "free_fd t" "map fst t" 2] by (auto simp: free_fd_def)
  then show "map_of t (free_fd t) = None" by (simp add: map_of_eq_None_iff)
  have "2 \<le> foldr max xs (2 :: int)" for xs by (induction xs) auto
  then show "0 \<le> free_fd t" by (simp add: free_fd_def add_increasing2 order_trans [of 0 2])
qed

lemma map_of_close: "map_of (filter (\<lambda>p. fst p \<noteq> d) t) = (map_of t)(d := None)"
  by (induction t) auto

lemma table_sys_table: "fd_table table_sys table_of"
  using free_fd_free(2)
  by (auto simp: fd_table_def table_sys_def table_of_def free_fd_free map_of_close not_less [symmetric]
      split: option.splits)

definition sig_blank :: sig_state where
  "sig_blank = \<lparr> sig_old_stderr = 0, sig_tstp_time = (0, 0), sig_offset = (0, 0), sig_newsize = False,
     sig_aborting = False, crs_needreinit = 0, next_check = 0, old_action = (\<lambda>_. SIG_DFL),
     action = (\<lambda>_. SIG_DFL) \<rparr>"

definition tty_table :: "(int \<times> string) list \<times> int" where
  "tty_table = ([(0, ''pipe''), (1, ''pipe''), (2, ''tty'')], 100)"

lemmas sig_simps = pv_sig_init_def pv_sig_fini_def sigaction_save_def set_action_def deliver_def
  pv_sig_ttou_def pv_sig_tstp_def pv_sig_cont_def add_stopped_def restore_stderr_def pv_sig_checkbg_def
  pv_crs_needreinit_def table_sys_def table_of_def free_fd_def sig_blank_def tty_table_def
  STDERR_FILENO_def Let_def

section \<open>The properties\<close>

text \<open>
  C30. Whatever signals arrive, in whatever order, the terminal is not lost: standard error is the
  terminal, or a saved descriptor keeps it while standard error is the null device, and the next
  check of \<open>pv_sig_checkbg\<close> that is due gives it back.
\<close>

theorem terminal_not_lost:
  assumes "fd_table F tab" "tab w0 STDERR_FILENO = Some tty" "sig_reach F s0 w0 s w"
  shows "(sig_old_stderr s = - 1 \<and> tab w STDERR_FILENO = Some tty \<or>
      0 \<le> sig_old_stderr s \<and> sig_old_stderr s \<noteq> STDERR_FILENO \<and>
        tab w (sig_old_stderr s) = Some tty \<and> tab w STDERR_FILENO = Some ''/dev/null'') \<and>
    (next_check s \<le> fst (fst (fd_now F w)) \<longrightarrow>
       tab (snd (pv_sig_checkbg F s w)) STDERR_FILENO = Some tty)"
proof -
  note k = reach_kept [OF assms]
  obtain s' w' where c: "pv_sig_checkbg F s w = (s', w')" by (rule prod.exhaust)
  from checkbg_kept [OF assms(1) k c] have
    "next_check s \<le> fst (fst (fd_now F w)) \<Longrightarrow> tab w' STDERR_FILENO = Some tty"
    by (auto simp: terminal_kept_def)
  with k c show ?thesis by (simp add: terminal_kept_def)
qed

theorem terminal_not_lost_witness:
  "\<exists>s w. sig_reach table_sys sig_blank tty_table s w \<and> table_of w 2 = Some ''/dev/null'' \<and>
     table_of (snd (pv_sig_checkbg table_sys s w)) 2 = Some ''tty''"
proof -
  obtain s w where e: "sig_step table_sys (Signal SIGTTOU) (pv_sig_init sig_blank) tty_table = Some (s, w)"
    by (simp add: sig_simps)
  have s: "next_check s = 0" "table_of w 2 = Some ''/dev/null''" "snd w = 100"
    using e by (auto simp: sig_simps)
  have r: "sig_reach table_sys sig_blank tty_table s w"
    by (rule sig_reach.move [OF sig_reach.start e])
  have t: "table_of tty_table STDERR_FILENO = Some ''tty''" by (simp add: sig_simps)
  have "next_check s \<le> fst (fst (fd_now table_sys w))"
    using s by (cases w) (simp add: table_sys_def)
  with terminal_not_lost [OF table_sys_table t r] s(2)
  have "table_of (snd (pv_sig_checkbg table_sys s w)) 2 = Some ''tty''"
    by (simp add: STDERR_FILENO_def)
  with r s(2) show ?thesis by blast
qed

text \<open>
  When \<open>pv\<close> is done, every signal has the disposition it had before \<open>pv_sig_init\<close>, whatever
  happened in between.
\<close>

theorem signals_restored:
  assumes "sig_reach F s0 w0 s w"
  shows "action (pv_sig_fini s) = action s0"
  by (simp add: fini_action reach_old_action [OF assms])

theorem signals_restored_witness:
  "action (pv_sig_fini (pv_sig_nopause (pv_sig_init sig_blank))) SIGTSTP = SIG_DFL"
proof -
  have "sig_reach table_sys sig_blank tty_table (pv_sig_nopause (pv_sig_init sig_blank)) tty_table"
    by (rule sig_reach.move [OF sig_reach.start, where e = NoPause]) simp
  from signals_restored [OF this] show ?thesis by (simp add: sig_blank_def)
qed

text \<open>
  A stop from the terminal and the continuation after it add the time between them, to the
  microsecond, to the offset of the timers, which stays a normal time.
\<close>

theorem pause_counted:
  assumes "normal_time (sig_offset s)" "normal_time a" "normal_time b" "fst a \<noteq> 0"
    and "action s SIGTSTP = Handler Sig_tstp" "action s SIGCONT = Handler Sig_cont"
    and "fd_now F w = (a, w1)" "fd_now F (fd_stop_self F w1) = (b, w2)"
  shows "\<exists>s1 x1 s2 x2. sig_step F (Signal SIGTSTP) s w = Some (s1, x1) \<and>
    sig_step F (Signal SIGCONT) s1 x1 = Some (s2, x2) \<and>
    usecs (sig_offset s2) = usecs (sig_offset s) + (usecs b - usecs a) \<and>
    normal_time (sig_offset s2) \<and> sig_tstp_time s2 = (0, 0)"
proof -
  let ?s1 = "s\<lparr> sig_tstp_time := a \<rparr>"
  obtain s2 x2 where c: "pv_sig_cont F ?s1 (fd_stop_self F w1) = (s2, x2)" by (rule prod.exhaust)
  then have "sig_offset s2 = add_stopped (sig_offset s) b a" "sig_tstp_time s2 = (0, 0)"
    using assms(4,8) by (auto simp: pv_sig_cont_def Let_def restore_stderr_def split: if_splits)
  moreover have "sig_step F (Signal SIGTSTP) s w = Some (?s1, fd_stop_self F w1)"
    using assms(5,7) by (simp add: deliver_def pv_sig_tstp_def)
  moreover have "sig_step F (Signal SIGCONT) ?s1 (fd_stop_self F w1) = Some (s2, x2)"
    using assms(6) c by (simp add: deliver_def)
  ultimately show ?thesis using add_stopped_value [OF assms(1,3,2)] by auto
qed

theorem pause_counted_witness:
  "\<exists>s1 x1 s2 x2. sig_step table_sys (Signal SIGTSTP) (pv_sig_init sig_blank) tty_table = Some (s1, x1) \<and>
    sig_step table_sys (Signal SIGCONT) s1 x1 = Some (s2, x2) \<and>
    usecs (sig_offset s2) = 61000000 \<and> normal_time (sig_offset s2) \<and> sig_tstp_time s2 = (0, 0)"
  using pause_counted [of "pv_sig_init sig_blank" "(100, 0)" "(161, 0)" table_sys tty_table
      "(fst tty_table, 101)" "(fst tty_table, 162)"]
  by (simp add: sig_simps usecs_def normal_time_def del: sig_step.simps)

text \<open>
  The comment on \<open>pv_sig_cont\<close> says that it tries the terminal again; when no stop from the
  terminal came before, it does not: standard error stays where it was until the next check.
\<close>

lemma cont_without_stop:
  "fst (sig_tstp_time s) = 0 \<Longrightarrow> sig_old_stderr (fst (pv_sig_cont F s w)) = sig_old_stderr s"
  by (simp add: pv_sig_cont_def)

end
