(* ===== verification/PvSettled.thy ===== *)
theory PvSettled
  imports PvCopy
begin

text \<open>
  An exit status that says failure says it to the end of the main loop, whatever happens in between:
  the turns of \<open>tools/pv/src/pv/loop.c\<close> only add to it, and the call-backs are assumed to.
\<close>

section \<open>A failure is not forgotten\<close>

lemma adopt_file_frame: "adopt_file S st name fd w = (r, st', w') \<Longrightarrow> frame st st'"
  by (auto simp: adopt_file_def file_error_def split: prod.splits sum.splits if_splits)

lemma next_file_settled:
  assumes "pv_next_file S st n oldfd w = (fd, st', w')"
  shows "settled st st'"
proof (rule frame_settled)
  let ?name = "input_files st ! nat n"
  obtain r w1 where c: "(if 0 < oldfd then sys_close S oldfd w else (Inr (), w)) = (r, w1)"
    by (rule prod.exhaust)
  show "frame st st'"
  proof (cases "isl r \<or> int (length (input_files st)) \<le> n \<or> n < 0")
    case True
    with assms c show ?thesis
      by (cases r) (auto simp: pv_next_file_def file_error_def split: if_splits)
  next
    case False
    then obtain u where r: "r = Inr u" by (cases r) auto
    obtain q w2 where o: "sys_open_r S ?name w1 = (q, w2)" by (rule prod.exhaust)
    with assms c r False show ?thesis
      by (cases q) (auto simp: pv_next_file_def Let_def file_error_def split: if_splits dest: adopt_file_frame)
  qed
qed

lemma next_input_settled:
  assumes f: "next_input S st lv w = (bad, st', lv', w')"
  shows "settled st st'"
proof (cases "eof_in (lv_eofs lv) \<and> eof_out (lv_eofs lv) \<and> int (lv_file lv) < int (length (input_files st)) - 1")
  case True
  obtain fd st1 w1 where n: "pv_next_file (sysfile.truncate S) st (int (lv_file lv) + 1) (lv_fd lv) w = (fd, st1, w1)"
    by (rule prod_cases3)
  with f True have "st' = st1" by (simp add: next_input_def)
  with next_file_settled [OF n] show ?thesis by simp
next
  case False
  with f show ?thesis by (auto simp: next_input_def settled_def)
qed

text \<open>The call-backs of a loop, as far as a failure is concerned.\<close>

lemma side_settled:
  assumes "side_env S inp out"
  shows "run_remote_check S st w = (st', w') \<Longrightarrow> settled st st'" "run_crs_init S st w = (st', w') \<Longrightarrow> settled st st'"
    "run_crs_fini S st w = (st', w') \<Longrightarrow> settled st st'" "run_screensize S st w = (st', w') \<Longrightarrow> settled st st'"
    "run_display S st e s t w = (st', w') \<Longrightarrow> settled st st'"
  using assms unfolding side_env_def by (meson leavesD)+

lemma show_progress_settled:
  assumes "side_env S inp out" and run: "show_progress S st lv n w = (st', lv', w')"
  shows "settled st st'"
proof -
  obtain st1 lv1 w1 where c: "start_clock S st lv w = (st1, lv1, w1)" by (rule prod_cases3)
  then have 1: "settled st st1"
    by (auto simp: start_clock_def settled_def failed_def split: if_splits prod.splits)
  have "settled st1 st2" if u: "update_display S st1 lv1 w1 = (st2, lv2, w2)" for st2 lv2 w2
  proof (cases "time_reached (cur_time lv1) (next_update lv1)")
    case True
    obtain st3 w3 where s: "run_screensize S st1 w1 = (st3, w3)" by (rule prod.exhaust)
    from u True s obtain e sl tt where "run_display S st3 e sl tt w3 = (st2, w2)"
      by (auto simp: update_display_def Let_def split: prod.splits)
    with side_settled(4) [OF assms(1) s] side_settled(5) [OF assms(1)] show ?thesis by (metis settled_trans)
  qed (use u in \<open>simp add: update_display_def settled_def\<close>)
  then show ?thesis
    using run c 1 by (auto simp: show_progress_def settled_def split: if_splits)
qed

lemma transfer_turn_settled:
  assumes "transfer_turn S st lv w = (n, st', lv', w')"
  shows "settled st st'"
proof -
  obtain c lv1 w1 where r: "rate_allowance S st lv w = (c, lv1, w1)" by (rule prod_cases3)
  obtain c2 lv2 where a: "size_allowance st c lv1 = (c2, lv2)" by (rule prod.exhaust)
  show ?thesis
  proof (cases "0 < total_size st \<and> stop_at_size st \<and> c2 \<le> 0 \<and> eof_in (lv_eofs lv2) \<and> eof_out (lv_eofs lv2)")
    case True
    with assms r a show ?thesis by (simp add: transfer_turn_def settled_def)
  next
    case False
    obtain k st1 e l w2 where t: "pv_transfer (sysio.truncate S) st (lv_fd lv2) (lv_eofs lv2) (nat (u64 c2))
        (Some (lv_lines lv2)) w1 = (k, st1, e, l, w2)" by (rule prod_cases5)
    from assms False have "st' = st1" unfolding transfer_turn_def by (simp only: r a t prod.case if_False prod.inject)
    with pv_transfer_settled(1) [OF t] show ?thesis by simp
  qed
qed

lemma settled_refl [simp]: "settled st st"
  by (simp add: settled_def)

lemma give_up_settled:
  assumes "side_env S inp out" "give_up S st w = Stop st' w'"
  shows "settled st st'"
proof (cases "cursor st")
  case True
  with assms(2) have "run_crs_fini S st w = (st', w')" by (simp add: give_up_def split: prod.splits)
  with side_settled(3) [OF assms(1)] show ?thesis by blast
qed (use assms(2) in \<open>simp add: give_up_def\<close>)

fun turn_state :: "'w turn \<Rightarrow> pvstate" where
  "turn_state (Stop st w) = st"
| "turn_state (Break st lv w) = st"
| "turn_state (Continue st lv w) = st"

lemma loop_turn_settled:
  assumes env: "side_env S inp out"
  shows "settled st (turn_state (loop_turn S st lv w))"
proof -
  obtain st1 lv1 w1 where r: "(if time_reached (cur_time lv) (next_remotecheck lv)
      then (case run_remote_check S st w of (st, w) \<Rightarrow>
              (st, lv\<lparr> next_remotecheck := pv_timeval_add_usec (next_remotecheck lv) REMOTE_INTERVAL \<rparr>, w))
      else (st, lv, w)) = (st1, lv1, w1)" by (rule prod_cases3)
  have 1: "settled st st1"
    using r side_settled(1) [OF env] by (auto split: if_splits prod.splits)
  show ?thesis
  proof (cases "sig_abort S w1")
    case True
    with 1 show ?thesis unfolding loop_turn_def by (simp add: r)
  next
    case na: False
    obtain k st2 lv2 w2 where tt: "transfer_turn S st1 lv1 w1 = (k, st2, lv2, w2)" by (rule prod_cases4)
    note 2 = settled_trans [OF 1 transfer_turn_settled [OF tt]]
    show ?thesis
    proof (cases "k < 0")
      case True
      obtain st3 w3 where g: "give_up S st2 w2 = Stop st3 w3" using give_up_stops [of S st2 w2] by blast
      with settled_trans [OF 2 give_up_settled [OF env g]] True na show ?thesis
        unfolding loop_turn_def by (simp add: r tt)
    next
      case k: False
      obtain bad st3 lv3 w3 where ni: "next_input S st2 (account st2 k lv2) w2 = (bad, st3, lv3, w3)"
        by (rule prod_cases4)
      note 3 = settled_trans [OF 2 next_input_settled [OF ni]]
      show ?thesis
      proof (cases bad)
        case True
        obtain st4 w4 where g: "give_up S st3 w3 = Stop st4 w4" using give_up_stops [of S st3 w3] by blast
        with settled_trans [OF 3 give_up_settled [OF env g]] True k na show ?thesis
          unfolding loop_turn_def by (simp add: r tt ni)
      next
        case False
        obtain now w4 where tm: "sys_time S w3 = (now, w4)" by (rule prod.exhaust)
        let ?lv = "let lv = lv3\<lparr> cur_time := now \<rparr>
          in if eof_in (lv_eofs lv) \<and> eof_out (lv_eofs lv)
             then lv\<lparr> final_update := True,
               next_update := (if display_visible st3 \<or> delay_start st3 = 0
                               then (fst now - 1, snd (next_update lv)) else next_update lv) \<rparr>
             else lv"
        obtain st5 lv5 w5 where sp: "show_progress S st3 ?lv k w4 = (st5, lv5, w5)" by (rule prod_cases3)
        have "loop_turn S st lv w = Continue st5 lv5 w5"
          using sp False k na unfolding loop_turn_def by (simp add: r tt ni tm Let_def)
        with settled_trans [OF 3 show_progress_settled [OF env sp]] show ?thesis by simp
      qed
    qed
  qed
qed

lemma main_turns_settled:
  assumes env: "side_env S inp out"
  shows "main_turns fuel S st lv w = Some t \<Longrightarrow> settled st (turn_state t)"
proof (induction fuel arbitrary: st lv w)
  case (Suc fuel)
  note t = loop_turn_settled [OF env, of st lv w]
  show ?case
  proof (cases "\<not> (eof_in (lv_eofs lv) \<and> eof_out (lv_eofs lv)) \<or> \<not> final_update lv")
    case False
    with Suc.prems have "t = Break st lv w" by simp
    then show ?thesis by simp
  next
    case True
    then have r: "(case loop_turn S st lv w of Continue st lv w \<Rightarrow> main_turns fuel S st lv w | t \<Rightarrow> Some t) = Some t"
      using Suc.prems by (simp only: main_turns.simps if_True)
    show ?thesis
    proof (cases "loop_turn S st lv w")
      case (Stop st1 w1)
      from t r [symmetric] show ?thesis unfolding Stop by simp
    next
      case (Break st1 lv1 w1)
      from t r [symmetric] show ?thesis unfolding Break by simp
    next
      case (Continue st1 lv1 w1)
      from t have "settled st st1" unfolding Continue by simp
      moreover from r have "main_turns fuel S st1 lv1 w1 = Some t" unfolding Continue by simp
      ultimately show ?thesis using Suc.IH settled_trans by blast
    qed
  qed
qed simp

lemma finish_loop_settled:
  assumes "side_env S inp out" "finish_loop S st lv w = (n, st', w')"
  shows "settled st st' \<and> n = exit_status st'"
proof -
  obtain st1 w1 where f: "(if cursor st then run_crs_fini S st w
      else if \<not> numeric st \<and> \<not> no_op st \<and> display_visible st
      then (st, snd (sys_write S 2 [10] w)) else (st, w)) = (st1, w1)" by (rule prod.exhaust)
  have 1: "settled st st1" using f side_settled(3) [OF assms(1)] by (auto split: if_splits)
  have "settled st1 (set_exit 32 st1)" by (simp add: settled_def)
  with 1 have "settled st (set_exit 32 st1)" by (rule settled_trans)
  with assms(2) f 1 show ?thesis by (auto simp: finish_loop_def Let_def)
qed

lemma main_loop_settled:
  assumes env: "side_env S inp out" and run: "pv_main_loop fuel S st w = Some (n, st', w')"
  shows "failed st \<longrightarrow> n \<noteq> 0"
proof -
  obtain st1 w1 where c: "run_crs_init S st w = (st1, w1)" by (rule prod.exhaust)
  let ?st = "st1\<lparr> initial_offset := 0 \<rparr>"
  obtain start w2 where t1: "sys_time S w1 = (start, w2)" by (rule prod.exhaust)
  obtain now w3 where t2: "sys_time S w2 = (now, w3)" by (rule prod.exhaust)
  obtain fd st3 w4 where nf: "pv_next_file (sysfile.truncate S) ?st 0 (- 1) w3 = (fd, st3, w4)" by (rule prod_cases3)
  have "settled st1 ?st" by (simp add: settled_def failed_def)
  then have 3: "settled st st3"
    using side_settled(2) [OF env c] next_file_settled [OF nf] settled_trans by blast
  have "settled st st' \<and> n = exit_status st'"
  proof (cases "fd < 0")
    case True
    obtain st5 w5 where g: "give_up S st3 w4 = Stop st5 w5" using give_up_stops [of S st3 w4] by blast
    with run c t1 t2 nf True have "st' = st5" "n = exit_status st5" by (auto simp: pv_main_loop_def Let_def)
    with settled_trans [OF 3 give_up_settled [OF env g]] show ?thesis by simp
  next
    case False
    obtain st4 w5 where cb: "choose_buffer_size S st3 fd w4 = (st4, w5)" by (rule prod.exhaust)
    have "settled st3 st4"
      using cb by (auto simp: choose_buffer_size_def Let_def settled_def failed_def
          split: prod.splits sum.splits if_splits)
    with 3 have 4: "settled st st4" by (rule settled_trans)
    have t: "(case main_turns fuel S st4 (loop_start ?st start now fd) w5 of
                 None \<Rightarrow> None
               | Some (Stop st w) \<Rightarrow> Some (exit_status st, st, w)
               | Some (Break st lv w) \<Rightarrow> Some (finish_loop S st lv w)
               | Some (Continue _ _ _) \<Rightarrow> None) = Some (n, st', w')"
      using run c t1 t2 nf False cb by (simp add: pv_main_loop_def Let_def)
    then obtain tn where m: "main_turns fuel S st4 (loop_start ?st start now fd) w5 = Some tn"
      by (auto split: option.splits)
    note 5 = settled_trans [OF 4 main_turns_settled [OF env m]]
    show ?thesis
      using t m 5 by (cases tn) (auto dest: finish_loop_settled [OF env] settled_trans)
  qed
  then show ?thesis by (auto simp: settled_def failed_def)
qed

end
