(* ===== verification/PvMain.thy ===== *)
theory PvMain
  imports PvWatchLoop PvRemote PvSignal PvSettled
begin

text \<open>
  \<open>tools/pv/src/main/main.c\<close>: from the command line to the exit status. The options are parsed, a
  message to another \<open>pv\<close> is sent or the state is set up, and one of the three loops runs between
  the set-up and the clean-up of the signals, the remote control, the terminal and the file with the
  process number. What the loops took as a call-back, the check for remote messages, is the real one
  here.
\<close>

section \<open>The system that main sees\<close>

text \<open>
  The state of the signals and the identifier of the message queue are static variables of the
  program; they are kept in the world, where the handlers find them.
\<close>

record termios =
  c_lflag :: "32 word"
  c_rest :: "nat list"

definition TOSTOP :: "32 word" where "TOSTOP = 256"

record 'w sysmain = "'w syswatch" +
  main_ipc :: "'w sysipc"
  msgid_of :: "'w \<Rightarrow> int"
  put_msgid :: "int \<Rightarrow> 'w \<Rightarrow> 'w"
  on_signals :: "(sig_state \<Rightarrow> sig_state) \<Rightarrow> 'w \<Rightarrow> 'w"
  tc_getattr :: "'w \<Rightarrow> termios \<times> 'w"
  tc_setattr :: "termios \<Rightarrow> 'w \<Rightarrow> 'w"
  pid_open :: "string \<Rightarrow> 'w \<Rightarrow> (int + unit) \<times> 'w"
  pid_write :: "string \<Rightarrow> string \<Rightarrow> 'w \<Rightarrow> 'w"
  file_remove :: "string \<Rightarrow> 'w \<Rightarrow> 'w"
  main_say :: "opts_output \<Rightarrow> 'w \<Rightarrow> 'w"
  state_allocated :: "'w \<Rightarrow> bool"

definition check_remote :: "'w sysmain \<Rightarrow> pvstate \<Rightarrow> 'w \<Rightarrow> pvstate \<times> 'w" where
  "check_remote M st w =
     (case pv_remote_check (main_ipc M) (msgid_of M w) st w of (q, st, w) \<Rightarrow> (st, put_msgid M q w))"

definition with_remote :: "'w sysmain \<Rightarrow> 'w sysmain" where
  "with_remote M = M\<lparr> run_remote_check := check_remote M \<rparr>"

definition main_remote_init :: "'w sysmain \<Rightarrow> 'w \<Rightarrow> 'w" where
  "main_remote_init M w = (case pv_remote_init (main_ipc M) w of (q, w) \<Rightarrow> put_msgid M q w)"

definition main_remote_fini :: "'w sysmain \<Rightarrow> 'w \<Rightarrow> 'w" where
  "main_remote_fini M w = pv_remote_fini (main_ipc M) (msgid_of M w) w"

definition complain :: "'w sysmain \<Rightarrow> opts \<Rightarrow> string \<Rightarrow> 'w \<Rightarrow> 'w" where
  "complain M ops msg w = main_say M (Stderr (program_name ops @ '': '' @ msg)) w"

section \<open>Settling the options\<close>

definition default_input :: "opts \<Rightarrow> opts" where
  "default_input ops = (if o_argv ops = [] then ops\<lparr> o_argv := [stdin_name] \<rparr> else ops)"

text \<open>The total size, unless it was given or lines are counted; without it no time of arrival.\<close>

definition find_size ::
  "nat \<Rightarrow> 'w sysfile \<Rightarrow> opts \<Rightarrow> pvstate \<Rightarrow> 'w \<Rightarrow> (opts \<times> pvstate \<times> 'w) option" where
  "find_size fuel S ops st w =
     (if o_size ops = 0 \<and> \<not> o_linemode ops
      then map_option (\<lambda>(n, st, w). (ops\<lparr> o_size := n \<rparr>, st, w)) (pv_calc_total_size fuel S st w)
      else Some (ops, st, w))"

definition settle_size ::
  "nat \<Rightarrow> 'w sysfile \<Rightarrow> opts \<Rightarrow> pvstate \<Rightarrow> 'w \<Rightarrow> (opts \<times> pvstate \<times> 'w) option" where
  "settle_size fuel S ops st w =
     (if o_watch_pid ops = 0
      then map_option (\<lambda>(ops, st, w). (if o_size ops < 1 then ops\<lparr> o_eta := False \<rparr> else ops, st, w))
             (find_size fuel S ops st w)
      else Some (ops, st, w))"

definition settle_display :: "'w sysmain \<Rightarrow> opts \<Rightarrow> 'w \<Rightarrow> opts \<times> 'w" where
  "settle_display M ops w =
     (case sys_isatty M STDERR_FILENO w of
        (tty, w) \<Rightarrow> (if \<not> tty \<and> \<not> o_force ops \<and> \<not> o_numeric ops then ops\<lparr> o_no_op := True \<rparr> else ops, w))"

definition settle_screen :: "'w sysmain \<Rightarrow> opts \<Rightarrow> 'w \<Rightarrow> opts \<times> 'w" where
  "settle_screen M ops w =
     (if o_width ops = 0 \<or> o_height ops = 0 then
        (case pv_screensize (syswatch.truncate M) (0, 0) w of
           ((wd, ht), w) \<Rightarrow>
             let ops = (if o_width ops = 0 then ops\<lparr> o_width := wd \<rparr> else ops);
                 ops = (if o_height ops = 0 then ops\<lparr> o_height := ht \<rparr> else ops)
             in (ops, w))
      else (ops, w))"

definition clamp_main :: "opts \<Rightarrow> opts" where
  "clamp_main ops =
     (let ops = (if o_width ops < 1 then ops\<lparr> o_width := 80 \<rparr> else ops);
          ops = (if o_height ops < 1 then ops\<lparr> o_height := 25 \<rparr> else ops);
          ops = (if o_width ops > 999999 then ops\<lparr> o_width := 999999 \<rparr> else ops);
          ops = (if o_height ops > 999999 then ops\<lparr> o_height := 999999 \<rparr> else ops);
          ops = (if o_interval ops < 1 / 10 then ops\<lparr> o_interval := 1 / 10 \<rparr> else ops)
      in if o_interval ops > 600 then ops\<lparr> o_interval := 600 \<rparr> else ops)"

definition copy_options :: "opts \<Rightarrow> pvstate \<Rightarrow> pvstate" where
  "copy_options ops st =
     (let st = pv_state_interval_set st (o_interval ops);
          st = pv_state_width_set st (o_width ops);
          st = pv_state_height_set st (o_height ops);
          st = pv_state_no_op_set st (o_no_op ops);
          st = pv_state_force_set st (o_force ops);
          st = pv_state_cursor_set st (o_cursor ops);
          st = pv_state_numeric_set st (o_numeric ops);
          st = pv_state_wait_set st (o_wait ops);
          st = pv_state_delay_start_set st (o_delay_start ops);
          st = pv_state_linemode_set st (o_linemode ops);
          st = pv_state_null_set st (o_null ops);
          st = pv_state_skip_errors_set st (o_skip_errors ops);
          st = pv_state_stop_at_size_set st (o_stop_at_size ops);
          st = pv_state_rate_limit_set st (nat (o_rate_limit ops));
          st = pv_state_target_buffer_size_set st (nat (o_buffer_size ops));
          st = pv_state_no_splice_set st (o_no_splice ops);
          st = pv_state_size_set st (o_size ops);
          st = pv_state_name_set st (o_name ops);
          st = pv_state_format_string_set st (o_format ops);
          st = pv_state_watch_pid_set st (o_watch_pid ops);
          st = pv_state_watch_fd_set st (o_watch_fd ops)
      in pv_state_set_format st (o_progress ops) (o_timer ops) (o_eta ops) (o_fineta ops) (o_rate ops)
           (o_average_rate ops) (o_bytes ops) (o_bufpercent ops) (nat (o_lastwritten ops)) (o_name ops))"

definition settle ::
  "nat \<Rightarrow> 'w sysmain \<Rightarrow> opts \<Rightarrow> pvstate \<Rightarrow> 'w \<Rightarrow> (pvstate \<times> 'w) option" where
  "settle fuel M ops st w =
     (let ops = default_input ops; st = pv_state_inputfiles st (o_argv ops)
      in case settle_size fuel (sysfile.truncate M) ops st w of
           None \<Rightarrow> None
         | Some (ops, st, w) \<Rightarrow>
             (case settle_display M ops w of (ops, w) \<Rightarrow>
              case settle_screen M ops w of (ops, w) \<Rightarrow> Some (copy_options (clamp_main ops) st, w)))"

section \<open>Running the loop\<close>

definition save_terminal :: "'w sysmain \<Rightarrow> 'w \<Rightarrow> termios \<times> 'w" where
  "save_terminal M w =
     (case tc_getattr M w of (t, w) \<Rightarrow> (t, tc_setattr M (t\<lparr> c_lflag := c_lflag t OR TOSTOP \<rparr>) w))"

definition clean_up :: "'w sysmain \<Rightarrow> opts \<Rightarrow> termios \<Rightarrow> 'w \<Rightarrow> 'w" where
  "clean_up M ops t_save w =
     (let w = tc_setattr M t_save w;
          w = (case o_pidfile ops of Some name \<Rightarrow> file_remove M name w | None \<Rightarrow> w)
      in on_signals M pv_sig_fini w)"

definition run_loop ::
  "nat \<Rightarrow> 'w sysmain \<Rightarrow> pvwatchfd \<Rightarrow> pvstate \<Rightarrow> 'w \<Rightarrow> (nat \<times> pvstate \<times> 'w) option" where
  "run_loop fuel M stack st w =
     (let S = with_remote M; w = on_signals M pv_sig_init w
      in if watch_pid st \<noteq> 0 then
           (if 0 \<le> watch_fd st then pv_watchfd_loop fuel (syswatch.truncate S) stack st w
            else pv_watchpid_loop fuel (syswatch.truncate S) st w)
         else
           map_option (\<lambda>(n, st, w). (n, st, main_remote_fini M w))
             (pv_main_loop fuel (sysloop.truncate S) st (main_remote_init M w)))"

definition pv_run ::
  "nat \<Rightarrow> 'w sysmain \<Rightarrow> pvwatchfd \<Rightarrow> opts \<Rightarrow> pvstate \<Rightarrow> 'w \<Rightarrow> (nat \<times> 'w) option" where
  "pv_run fuel M stack ops st w =
     (case settle fuel M ops st w of
        None \<Rightarrow> None
      | Some (st, w) \<Rightarrow>
          (case save_terminal M w of (t_save, w) \<Rightarrow>
             map_option (\<lambda>(n, st, w). (n, clean_up M ops t_save w)) (run_loop fuel M stack st w)))"

definition write_pidfile :: "'w sysmain \<Rightarrow> opts \<Rightarrow> 'w \<Rightarrow> bool \<times> 'w" where
  "write_pidfile M ops w =
     (case o_pidfile ops of
        None \<Rightarrow> (True, w)
      | Some name \<Rightarrow>
          (case pid_open M name w of
             (Inl e, w) \<Rightarrow> (False, complain M ops (name @ '': '' @ strerror M e) w)
           | (Inr _, w) \<Rightarrow> (True, pid_write M name (itoa (ipc_pid (main_ipc M) w) @ [CHR 0x0A]) w)))"

definition pv_main ::
  "nat \<Rightarrow> 'w sysmain \<Rightarrow> pvwatchfd \<Rightarrow> opts_env \<Rightarrow> string list \<Rightarrow> 'w \<Rightarrow> (nat \<times> 'w) option" where
  "pv_main fuel M stack env argv w =
     (case opts_parse env argv getopt_start of
        (None, shown) \<Rightarrow> Some (64, fold (main_say M) shown w)
      | (Some ops, shown) \<Rightarrow>
          let w = fold (main_say M) shown w
          in if do_nothing ops then Some (0, w)
             else if 0 < o_remote ops then
               (case pv_remote_set (main_ipc M) ops w of
                  (n, msgs, w) \<Rightarrow> Some (nat n, fold (\<lambda>m. main_say M (Stderr m)) msgs w))
             else
               (case pv_state_alloc (state_allocated M w) (program_name ops) of
                  None \<Rightarrow> Some (64, complain M ops (''state allocation failed: '' @ strerror M (last_errno M w)) w)
                | Some st \<Rightarrow>
                    (case write_pidfile M ops w of
                       (False, w) \<Rightarrow> Some (1, w)
                     | (True, w) \<Rightarrow> pv_run fuel M stack ops st w)))"

section \<open>The settled state\<close>

lemma clamp_main_bounds:
  "1 \<le> o_width (clamp_main ops)" "o_width (clamp_main ops) \<le> 999999"
  "1 \<le> o_height (clamp_main ops)" "o_height (clamp_main ops) \<le> 999999"
  "1 / 10 \<le> o_interval (clamp_main ops)" "o_interval (clamp_main ops) \<le> 600"
  by (simp_all add: clamp_main_def Let_def)

lemma clamp_main_same:
  "o_null (clamp_main ops) = o_null ops" "o_linemode (clamp_main ops) = o_linemode ops"
  "o_stop_at_size (clamp_main ops) = o_stop_at_size ops" "o_size (clamp_main ops) = o_size ops"
  "o_eta (clamp_main ops) = o_eta ops" "o_watch_pid (clamp_main ops) = o_watch_pid ops"
  "o_buffer_size (clamp_main ops) = o_buffer_size ops" "o_rate_limit (clamp_main ops) = o_rate_limit ops"
  by (simp_all add: clamp_main_def Let_def)

lemma copy_options_fields:
  "width (copy_options ops st) = o_width ops" "height (copy_options ops st) = o_height ops"
  "interval (copy_options ops st) = o_interval ops" "total_size (copy_options ops st) = o_size ops"
  "input_files (copy_options ops st) = input_files st" "exit_status (copy_options ops st) = exit_status st"
  by (simp_all add: copy_options_def Let_def set_format_fields pv_setters)

text \<open>The fields that the format does not touch, by the shape of what \<open>PV_ADDFORMAT\<close> does.\<close>

lemma ADDFORMAT_only: "\<exists>f. PV_ADDFORMAT x y st = st\<lparr> default_format := f \<rparr>"
  by (cases x) (auto simp: PV_ADDFORMAT_def Let_def intro: exI [of _ "default_format st"])

definition format_only :: "pvstate \<Rightarrow> pvstate \<Rightarrow> bool" where
  "format_only st st' \<longleftrightarrow> (\<exists>f n. st' = st\<lparr> default_format := f, pv_name := n, reparse_display := True \<rparr>)"

lemma set_format_only: "format_only st (pv_state_set_format st p t e f r a b u n nm)"
proof -
  have add: "\<exists>g'. PV_ADDFORMAT x y (st\<lparr> default_format := g \<rparr>) = st\<lparr> default_format := g' \<rparr>" for x y g
    using ADDFORMAT_only [of x y "st\<lparr> default_format := g \<rparr>"] by auto
  obtain g1 where 1: "PV_ADDFORMAT (nm \<noteq> None) ''%N'' (st\<lparr> default_format := [] \<rparr>) = st\<lparr> default_format := g1 \<rparr>" using add by blast
  obtain g2 where 2: "PV_ADDFORMAT b ''%b'' (st\<lparr> default_format := g1 \<rparr>) = st\<lparr> default_format := g2 \<rparr>" using add by blast
  obtain g3 where 3: "PV_ADDFORMAT u ''%T'' (st\<lparr> default_format := g2 \<rparr>) = st\<lparr> default_format := g3 \<rparr>" using add by blast
  obtain g4 where 4: "PV_ADDFORMAT t ''%t'' (st\<lparr> default_format := g3 \<rparr>) = st\<lparr> default_format := g4 \<rparr>" using add by blast
  obtain g5 where 5: "PV_ADDFORMAT r ''%r'' (st\<lparr> default_format := g4 \<rparr>) = st\<lparr> default_format := g5 \<rparr>" using add by blast
  obtain g6 where 6: "PV_ADDFORMAT a ''%a'' (st\<lparr> default_format := g5 \<rparr>) = st\<lparr> default_format := g6 \<rparr>" using add by blast
  obtain g7 where 7: "PV_ADDFORMAT p ''%p'' (st\<lparr> default_format := g6 \<rparr>) = st\<lparr> default_format := g7 \<rparr>" using add by blast
  obtain g8 where 8: "PV_ADDFORMAT e ''%e'' (st\<lparr> default_format := g7 \<rparr>) = st\<lparr> default_format := g8 \<rparr>" using add by blast
  obtain g9 where 9: "PV_ADDFORMAT f ''%I'' (st\<lparr> default_format := g8 \<rparr>) = st\<lparr> default_format := g9 \<rparr>" using add by blast
  obtain g10 where 10: "PV_ADDFORMAT True (CHR ''%'' # natoa n @ ''A'') (st\<lparr> default_format := g9 \<rparr>) = st\<lparr> default_format := g10 \<rparr>"
    using add by blast
  show ?thesis
    unfolding format_only_def pv_state_set_format_def Let_def 1 2 3 4 5 6 7 8 9 10
    by (cases "0 < n") auto
qed

lemma format_only_same:
  assumes "format_only st st'"
  shows "stop_at_size st' = stop_at_size st" "linemode st' = linemode st" "null_lines st' = null_lines st"
    "watch_pid st' = watch_pid st" "watch_fd st' = watch_fd st" "rate_limit st' = rate_limit st"
    "target_buffer_size st' = target_buffer_size st" "transfer_buffer st' = transfer_buffer st"
    "read_position st' = read_position st" "write_position st' = write_position st"
    "buffer_size st' = buffer_size st"
  using assms by (auto simp: format_only_def)

lemma copy_options_more:
  "stop_at_size (copy_options ops st) = o_stop_at_size ops" "linemode (copy_options ops st) = o_linemode ops"
  "null_lines (copy_options ops st) = o_null ops" "watch_pid (copy_options ops st) = o_watch_pid ops"
  "watch_fd (copy_options ops st) = o_watch_fd ops" "rate_limit (copy_options ops st) = nat (o_rate_limit ops)"
  "target_buffer_size (copy_options ops st) = nat (o_buffer_size ops)"
  "transfer_buffer (copy_options ops st) = transfer_buffer st"
  "read_position (copy_options ops st) = read_position st" "write_position (copy_options ops st) = write_position st"
  "buffer_size (copy_options ops st) = buffer_size st"
  unfolding copy_options_def Let_def format_only_same [OF set_format_only] by (simp_all add: pv_setters)

lemma copy_options_format:
  "default_format (copy_options ops st) =
   format_of (directives (o_progress ops) (o_timer ops) (o_eta ops) (o_fineta ops) (o_rate ops)
     (o_average_rate ops) (o_bytes ops) (o_bufpercent ops) (nat (o_lastwritten ops)) (o_name ops \<noteq> None))"
  unfolding copy_options_def Let_def set_format_text ..

text \<open>What the stages before the copy leave alone of the options.\<close>

definition same_request :: "opts \<Rightarrow> opts \<Rightarrow> bool" where
  "same_request ops ops' \<longleftrightarrow>
     o_null ops' = o_null ops \<and> o_linemode ops' = o_linemode ops \<and> o_stop_at_size ops' = o_stop_at_size ops \<and>
     o_watch_pid ops' = o_watch_pid ops \<and> o_buffer_size ops' = o_buffer_size ops \<and>
     o_rate_limit ops' = o_rate_limit ops"

lemma same_request_refl [simp]: "same_request ops ops"
  by (simp add: same_request_def)

lemma default_input_same: "same_request ops (default_input ops)"
  by (simp add: same_request_def default_input_def)

lemma settle_size_same:
  assumes "settle_size fuel S ops st w = Some (ops', st', w')"
  shows "same_request ops ops'" "o_watch_pid ops = 0 \<Longrightarrow> o_size ops' < 1 \<Longrightarrow> \<not> o_eta ops'"
proof -
  have "same_request ops ops' \<and> (o_watch_pid ops = 0 \<longrightarrow> o_size ops' < 1 \<longrightarrow> \<not> o_eta ops')"
  proof (cases "o_watch_pid ops = 0")
    case True
    then obtain ops1 st1 w1 where f: "find_size fuel S ops st w = Some (ops1, st1, w1)"
      and o: "ops' = (if o_size ops1 < 1 then ops1\<lparr> o_eta := False \<rparr> else ops1)"
      using assms by (auto simp: settle_size_def)
    have "same_request ops ops1" using f by (auto simp: find_size_def same_request_def split: if_splits)
    with o show ?thesis by (cases "o_size ops1 < 1") (simp_all add: same_request_def)
  qed (use assms in \<open>simp add: settle_size_def\<close>)
  then show "same_request ops ops'" "o_watch_pid ops = 0 \<Longrightarrow> o_size ops' < 1 \<Longrightarrow> \<not> o_eta ops'" by simp_all
qed

lemma settle_rest_same:
  assumes "settle_display M ops w = (ops1, w1)" "settle_screen M ops1 w1 = (ops2, w2)"
  shows "same_request ops ops2 \<and> o_size ops2 = o_size ops \<and> o_eta ops2 = o_eta ops"
proof -
  have "same_request ops ops1 \<and> o_size ops1 = o_size ops \<and> o_eta ops1 = o_eta ops"
    using assms(1) by (auto simp: settle_display_def same_request_def split: if_splits prod.splits)
  moreover have "same_request ops1 ops2 \<and> o_size ops2 = o_size ops1 \<and> o_eta ops2 = o_eta ops1"
    using assms(2) by (auto simp: settle_screen_def Let_def same_request_def split: if_splits prod.splits)
  ultimately show ?thesis by (simp add: same_request_def)
qed

lemma clamp_request: "same_request ops (clamp_main ops)"
  by (simp add: same_request_def clamp_main_same)

lemma settleE:
  assumes "settle fuel M ops st w = Some (st', w')"
  obtains ops1 st1 w1 ops2 w2 ops3 where
    "settle_size fuel (sysfile.truncate M) (default_input ops)
       (pv_state_inputfiles st (o_argv (default_input ops))) w = Some (ops1, st1, w1)"
    "settle_display M ops1 w1 = (ops2, w2)" "settle_screen M ops2 w2 = (ops3, w')"
    "st' = copy_options (clamp_main ops3) st1" "same_request ops (clamp_main ops3)"
    "o_watch_pid ops = 0 \<Longrightarrow> o_size ops3 < 1 \<Longrightarrow> \<not> o_eta ops3"
proof -
  let ?ops = "default_input ops" let ?st = "pv_state_inputfiles st (o_argv ?ops)"
  obtain ops1 st1 w1 where 1: "settle_size fuel (sysfile.truncate M) ?ops ?st w = Some (ops1, st1, w1)"
    using assms by (cases "settle_size fuel (sysfile.truncate M) ?ops ?st w") (auto simp: settle_def Let_def)
  obtain ops2 w2 where 2: "settle_display M ops1 w1 = (ops2, w2)" by (rule prod.exhaust)
  obtain ops3 w3 where 3: "settle_screen M ops2 w2 = (ops3, w3)" by (rule prod.exhaust)
  have st': "st' = copy_options (clamp_main ops3) st1" "w' = w3"
    using assms 1 2 3 by (auto simp: settle_def Let_def)
  note s = default_input_same [of ops] settle_size_same [OF 1] settle_rest_same [OF 2 3] clamp_request [of ops3]
  have "same_request ops (clamp_main ops3)" using s by (simp add: same_request_def)
  moreover have "\<not> o_eta ops3" if "o_watch_pid ops = 0" "o_size ops3 < 1"
    using s that by (simp add: same_request_def)
  ultimately show ?thesis using that 1 2 3 st' by blast
qed

section \<open>The surroundings\<close>

text \<open>
  What the program may assume of the calls outside the loop: they neither write to standard output
  nor take from standard input. Opening a file gives a descriptor other than standard input, and
  what is done to such a descriptor does not touch standard input.
\<close>

definition quiet :: "(int \<Rightarrow> 'w \<Rightarrow> bytes) \<Rightarrow> ('w \<Rightarrow> bytes) \<Rightarrow> 'w \<Rightarrow> 'w \<Rightarrow> bool" where
  "quiet inp out w w' \<longleftrightarrow> inp STDIN_FILENO w' = inp STDIN_FILENO w \<and> out w' = out w"

definition sizing_env :: "'w sysfile \<Rightarrow> (int \<Rightarrow> 'w \<Rightarrow> bytes) \<Rightarrow> ('w \<Rightarrow> bytes) \<Rightarrow> bool" where
  "sizing_env S inp out \<longleftrightarrow>
     (\<forall>name w. quiet inp out w (snd (sys_stat S name w))) \<and>
     (\<forall>fd w. quiet inp out w (snd (sys_fstat S fd w))) \<and>
     (\<forall>name w. quiet inp out w (snd (sys_access_r S name w))) \<and>
     (\<forall>name w r w'. sys_open_r S name w = (r, w') \<longrightarrow> quiet inp out w w' \<and> r \<noteq> Inr STDIN_FILENO) \<and>
     (\<forall>fd w. fd \<noteq> STDIN_FILENO \<longrightarrow> quiet inp out w (snd (sys_close S fd w))) \<and>
     (\<forall>fd off whence w. fd \<noteq> STDIN_FILENO \<longrightarrow> quiet inp out w (snd (sys_lseek S fd off whence w))) \<and>
     (\<forall>fd w. quiet inp out w (snd (sys_append_mode S fd w)))"

text \<open>Messages come from the user's own \<open>pv -R\<close>; a buffer size is one that can be allocated.\<close>

definition remote_env :: "'w sysmain \<Rightarrow> (int \<Rightarrow> 'w \<Rightarrow> bytes) \<Rightarrow> ('w \<Rightarrow> bytes) \<Rightarrow> bool" where
  "remote_env M inp out \<longleftrightarrow>
     (\<forall>q t w. still inp out w (snd (ipc_recv (main_ipc M) q t w))) \<and>
     (\<forall>q t w msg w'. ipc_recv (main_ipc M) q t w = (Inr msg, w') \<longrightarrow> m_buffer_size msg < 2 ^ 62) \<and>
     (\<forall>k w. still inp out w (snd (ipc_msgget (main_ipc M) k w))) \<and>
     (\<forall>q w. still inp out w (ipc_remove (main_ipc M) q w)) \<and>
     (\<forall>q w. still inp out w (put_msgid M q w))"

definition main_env ::
  "'w sysmain \<Rightarrow> (int \<Rightarrow> 'w \<Rightarrow> bytes) \<Rightarrow> ('w \<Rightarrow> bytes) \<Rightarrow> (string \<Rightarrow> bytes) \<Rightarrow> bool" where
  "main_env M inp out content \<longleftrightarrow>
     loop_env (sysloop.truncate M) inp out content \<and> sizing_env (sysfile.truncate M) inp out \<and>
     remote_env M inp out \<and>
     (\<forall>fd w. quiet inp out w (snd (sys_isatty M fd w))) \<and> (\<forall>fd w. quiet inp out w (snd (sys_winsize M fd w))) \<and>
     (\<forall>f w. quiet inp out w (on_signals M f w)) \<and> (\<forall>w. quiet inp out w (snd (tc_getattr M w))) \<and>
     (\<forall>t w. quiet inp out w (tc_setattr M t w)) \<and> (\<forall>name w. quiet inp out w (snd (pid_open M name w))) \<and>
     (\<forall>name s w. quiet inp out w (pid_write M name s w)) \<and> (\<forall>name w. quiet inp out w (file_remove M name w)) \<and>
     (\<forall>x w. quiet inp out w (main_say M x w))"

lemma quiet_refl [simp]: "quiet inp out w w"
  by (simp add: quiet_def)

lemma quiet_trans: "quiet inp out a b \<Longrightarrow> quiet inp out b c \<Longrightarrow> quiet inp out a c"
  by (simp add: quiet_def)

lemma still_quiet: "still inp out a b \<Longrightarrow> quiet inp out a b"
  by (simp add: still_def quiet_def)

lemma sizing_envD:
  assumes "sizing_env S inp out"
  shows "sys_stat S name w = (r1, w') \<Longrightarrow> quiet inp out w w'" "sys_fstat S fd w = (r1, w') \<Longrightarrow> quiet inp out w w'"
    "sys_access_r S name w = (r2, w') \<Longrightarrow> quiet inp out w w'"
    "sys_open_r S name w = (r3, w') \<Longrightarrow> quiet inp out w w' \<and> r3 \<noteq> Inr STDIN_FILENO"
    "fd \<noteq> STDIN_FILENO \<Longrightarrow> quiet inp out w (snd (sys_close S fd w))"
    "fd \<noteq> STDIN_FILENO \<Longrightarrow> sys_lseek S fd off whence w = (r4, w') \<Longrightarrow> quiet inp out w w'"
    "sys_append_mode S fd w = (b, w') \<Longrightarrow> quiet inp out w w'"
  using assms unfolding sizing_env_def by (metis snd_conv)+

lemma seek_quiet:
  assumes "sizing_env S inp out" "fd \<noteq> STDIN_FILENO" "seek S fd off whence w = (p, w')"
  shows "quiet inp out w w'"
  using assms(3) sizing_envD(6) [OF assms(1,2)] by (auto simp: seek_def split: prod.splits sum.splits)

text \<open>
  What finding the size does to the state: a file may be taken off the list, and then there is a
  failure.
\<close>

definition sized :: "pvstate \<Rightarrow> pvstate \<Rightarrow> bool" where
  "sized st st' \<longleftrightarrow> (failed st' \<or> input_files st' = input_files st) \<and> (failed st \<longrightarrow> failed st') \<and>
     transfer_buffer st' = transfer_buffer st \<and> buffer_size st' = buffer_size st \<and>
     read_position st' = read_position st \<and> write_position st' = write_position st \<and>
     linemode st' = linemode st"

lemma sized_refl [simp]: "sized st st"
  by (simp add: sized_def)

lemma sized_trans: "sized a b \<Longrightarrow> sized b c \<Longrightarrow> sized a c"
  by (auto simp: sized_def)

lemma sized_error: "n \<noteq> 0 \<Longrightarrow> sized st (file_error S what e n st)"
  by (simp add: sized_def file_error_def set_exit_def pv_error_def failed_def or_eq_0_iff)

lemma sized_removed: "n \<noteq> 0 \<Longrightarrow> sized st (remove_file i (file_error S what e n st))"
  by (simp add: sized_def remove_file_def file_error_def set_exit_def pv_error_def failed_def or_eq_0_iff)

lemma size_block_quiet:
  assumes env: "sizing_env S inp out" and r: "size_block S name tot st w = (tot', st', w')"
  shows "quiet inp out w w' \<and> sized st st'"
proof -
  let ?n = "if name = stdin_name then ''/dev/stdin'' else name"
  obtain q w1 where o: "sys_open_r S ?n w = (q, w1)" by (rule prod.exhaust)
  note 1 = sizing_envD(4) [OF env o]
  show ?thesis
  proof (cases q)
    case (Inl e)
    with r o 1 show ?thesis by (auto simp: size_block_def intro: sized_error)
  next
    case (Inr fd)
    with 1 have fd: "fd \<noteq> STDIN_FILENO" by simp
    obtain off w2 where s: "seek S fd 0 SEEK_END w1 = (off, w2)" by (rule prod.exhaust)
    have w': "w' = snd (sys_close S fd w2)" and st': "st' = st" using r o Inr s by (auto simp: size_block_def)
    have "quiet inp out w w2" using conjunct1 [OF 1] seek_quiet [OF env fd s] by (rule quiet_trans)
    from quiet_trans [OF this sizing_envD(5) [OF env fd]] show ?thesis unfolding w' st' by simp
  qed
qed

lemma size_files_quiet:
  assumes env: "sizing_env S inp out"
  shows "size_files S names i tot st w = (b, tot', st', w') \<Longrightarrow> quiet inp out w w' \<and> sized st st'"
proof (induction names arbitrary: i tot st w)
  case (Cons name names)
  obtain r w1 where look: "(if name = stdin_name then sys_fstat S STDIN_FILENO w
         else case sys_stat S name w of
                (Inl e, w) \<Rightarrow> (Inl e, w)
              | (Inr sb, w) \<Rightarrow> (case sys_access_r S name w of
                                 (Inl e, w) \<Rightarrow> (Inl e, w)
                               | (Inr _, w) \<Rightarrow> (Inr sb, w))) = (r, w1)" by (rule prod.exhaust)
  have 1: "quiet inp out w w1"
    using look
    by (auto split: if_splits prod.splits sum.splits intro: sizing_envD(1,2,3) [OF env]
        quiet_trans [OF sizing_envD(1) [OF env] sizing_envD(3) [OF env]])
  consider (early) "w' = w1" "st' = st"
    | (drop) e where "size_files S names i tot (remove_file i (file_error S name e 2 st)) w1 = (b, tot', st', w')"
    | (block) t2 st2 w2 where "size_block S name tot st w1 = (t2, st2, w2)"
        "size_files S names (i + 1) t2 st2 w2 = (b, tot', st', w')"
    | (step) t2 where "size_files S names (i + 1) t2 st w1 = (b, tot', st', w')"
    using Cons.prems look
    by (cases r) (auto simp: Let_def split: if_splits file_kind.splits prod.splits)
  then show ?case
  proof cases
    case early
    with 1 show ?thesis by simp
  next
    case drop
    have d: "sized st (remove_file i (file_error S name e 2 st))" by (rule sized_removed) simp
    note n = Cons.IH [OF drop]
    show ?thesis using quiet_trans [OF 1 conjunct1 [OF n]] sized_trans [OF d conjunct2 [OF n]] ..
  next
    case block
    note n = Cons.IH [OF block(2)] and b = size_block_quiet [OF env block(1)]
    show ?thesis
      using quiet_trans [OF quiet_trans [OF 1 conjunct1 [OF b]] conjunct1 [OF n]]
        sized_trans [OF conjunct2 [OF b] conjunct2 [OF n]] ..
  next
    case step
    note n = Cons.IH [OF step]
    show ?thesis using quiet_trans [OF 1 conjunct1 [OF n]] conjunct2 [OF n] ..
  qed
qed simp

lemma size_of_output_quiet:
  assumes env: "sizing_env S inp out" and r: "size_of_output S tot st w = (tot', st', w')"
  shows "quiet inp out w w' \<and> sized st st'"
proof (cases "tot = 0")
  case True
  obtain q w1 where f: "sys_fstat S STDOUT_FILENO w = (q, w1)" by (rule prod.exhaust)
  note 1 = sizing_envD(2) [OF env f]
  obtain app w2 where a: "sys_append_mode S STDOUT_FILENO w1 = (app, w2)" by (rule prod.exhaust)
  note 2 = quiet_trans [OF 1 sizing_envD(7) [OF env a]]
  have so: "STDOUT_FILENO \<noteq> STDIN_FILENO" by (simp add: STDOUT_FILENO_def STDIN_FILENO_def)
  obtain n w3 where e: "seek S STDOUT_FILENO 0 SEEK_END w2 = (n, w3)" by (rule prod.exhaust)
  note 3 = quiet_trans [OF 2 seek_quiet [OF env so e]]
  obtain m w4 where b: "seek S STDOUT_FILENO 0 SEEK_SET w3 = (m, w4)" by (rule prod.exhaust)
  note 4 = quiet_trans [OF 3 seek_quiet [OF env so b]]
  show ?thesis
  proof (cases "\<exists>sb. q = Inr sb \<and> st_kind sb = S_BLK \<and> \<not> app")
    case True
    let ?st1 = "if m \<noteq> 0 then set_exit 2 (pv_error ''(stdout): failed to seek to start of output'' st) else st"
    have "sized st (set_exit 2 (pv_error msg st))" for msg
      by (simp add: sized_def set_exit_def pv_error_def failed_def or_eq_0_iff)
    then have "sized st ?st1" by simp
    moreover have "sized ?st1 (if 0 < u64 n then ?st1\<lparr> stop_at_size := True \<rparr> else ?st1)"
      by (simp add: sized_def failed_def)
    ultimately have "sized st (if 0 < u64 n then ?st1\<lparr> stop_at_size := True \<rparr> else ?st1)" by (rule sized_trans)
    moreover have "w' = w4" "st' = (if 0 < u64 n then ?st1\<lparr> stop_at_size := True \<rparr> else ?st1)"
      using r True \<open>tot = 0\<close> f a e b by (auto simp: size_of_output_def Let_def)
    ultimately show ?thesis using 4 by simp
  next
    case False
    then have "st' = st \<and> (w' = w1 \<or> w' = w2)"
      using r \<open>tot = 0\<close> f a by (auto simp: size_of_output_def Let_def split: sum.splits if_splits)
    with 1 2 show ?thesis by auto
  qed
qed (use r in \<open>simp add: size_of_output_def\<close>)

lemma total_size_quiet:
  assumes env: "sizing_env S inp out" and r: "pv_calc_total_size fuel S st w = Some (n, st', w')"
    and l: "\<not> linemode st"
  shows "quiet inp out w w' \<and> sized st st'"
proof (cases "input_files st = []")
  case True
  with r sizing_envD(2) [OF env] show ?thesis
    by (auto simp: pv_calc_total_size_def split: prod.splits sum.splits)
next
  case False
  obtain b t st1 w1 where f: "size_files S (input_files st) 0 0 st w = (b, t, st1, w1)" by (rule prod_cases4)
  note 1 = size_files_quiet [OF env f]
  obtain t2 st2 w2 where o: "size_of_output S t st1 w1 = (t2, st2, w2)" by (rule prod_cases3)
  note 2 = size_of_output_quiet [OF env o]
  have "\<not> linemode st2" using 1 2 l by (simp add: sized_def)
  then have "(st', w') = (st1, w1) \<or> (st', w') = (st2, w2)"
    using r False f o by (auto simp: pv_calc_total_size_def split: bool.splits if_splits)
  with 1 2 quiet_trans [OF conjunct1 [OF 1] conjunct1 [OF 2]] sized_trans [OF conjunct2 [OF 1] conjunct2 [OF 2]]
  show ?thesis by auto
qed

lemma settle_quiet:
  assumes env: "main_env M inp out content" and l: "\<not> linemode st"
    and r: "settle fuel M ops st w = Some (st', w')"
  shows "quiet inp out w w'"
    and "failed st' \<or> input_files st' = o_argv (default_input ops)"
    and "transfer_buffer st' = transfer_buffer st" "buffer_size st' = buffer_size st"
      "read_position st' = read_position st" "write_position st' = write_position st"
    and "stop_at_size st' = o_stop_at_size ops" "watch_pid st' = o_watch_pid ops"
      "target_buffer_size st' = nat (o_buffer_size ops)"
proof -
  let ?ops = "default_input ops" let ?st = "pv_state_inputfiles st (o_argv ?ops)"
  obtain ops1 st1 w1 ops2 w2 ops3 where c:
    "settle_size fuel (sysfile.truncate M) ?ops ?st w = Some (ops1, st1, w1)"
    "settle_display M ops1 w1 = (ops2, w2)" "settle_screen M ops2 w2 = (ops3, w')"
    "st' = copy_options (clamp_main ops3) st1" "same_request ops (clamp_main ops3)"
    by (rule settleE [OF r]) blast
  have senv: "sizing_env (sysfile.truncate M) inp out" using env by (simp add: main_env_def)
  have l': "\<not> linemode ?st" using l by (simp add: pv_setters)
  have 1: "quiet inp out w w1 \<and> sized ?st st1"
  proof (cases "o_watch_pid ?ops = 0 \<and> o_size ?ops = 0 \<and> \<not> o_linemode ?ops")
    case True
    with c(1) obtain n where "pv_calc_total_size fuel (sysfile.truncate M) ?st w = Some (n, st1, w1)"
      by (auto simp: settle_size_def find_size_def)
    from total_size_quiet [OF senv this l'] show ?thesis .
  next
    case False
    with c(1) have "st1 = ?st" "w1 = w" by (auto simp: settle_size_def find_size_def split: if_splits)
    then show ?thesis by simp
  qed
  have tty: "quiet inp out a b" if "sys_isatty M fd a = (t, b)" for a b fd t
    using env that unfolding main_env_def by (metis snd_conv)
  have win: "quiet inp out a b" if "sys_winsize M fd a = (t, b)" for a b fd t
    using env that unfolding main_env_def by (metis snd_conv)
  have 2: "quiet inp out w1 w2"
    using c(2) tty by (auto simp: settle_display_def split: prod.splits)
  have scr: "quiet inp out a b" if "pv_screensize (syswatch.truncate M) wh a = (wh', b)" for a b wh wh'
  proof -
    obtain t a1 where t: "sys_isatty M 2 a = (t, a1)" by (rule prod.exhaust)
    obtain z a2 where z: "sys_winsize M 2 a1 = (z, a2)" by (rule prod.exhaust)
    have "b = a1 \<or> b = a2" using that t z
      by (auto simp: pv_screensize_def syswatch.defs split: bool.splits option.splits)
    with tty [OF t] quiet_trans [OF tty [OF t] win [OF z]] show ?thesis by auto
  qed
  have 3: "quiet inp out w2 w'"
    using c(3) scr by (auto simp: settle_screen_def Let_def split: if_splits prod.splits)
  show "quiet inp out w w'"
    using quiet_trans [OF quiet_trans [OF conjunct1 [OF 1] 2] 3] .
  show "failed st' \<or> input_files st' = o_argv ?ops"
    using conjunct2 [OF 1] by (auto simp: c(4) sized_def failed_def copy_options_fields pv_setters)
  show "transfer_buffer st' = transfer_buffer st" "buffer_size st' = buffer_size st"
      "read_position st' = read_position st" "write_position st' = write_position st"
    using conjunct2 [OF 1] by (simp_all add: c(4) sized_def copy_options_more pv_setters)
  show "stop_at_size st' = o_stop_at_size ops" "watch_pid st' = o_watch_pid ops"
      "target_buffer_size st' = nat (o_buffer_size ops)"
    using c(5) by (simp_all add: c(4) same_request_def copy_options_more)
qed

section \<open>The check for messages within the loop\<close>

text \<open>A message changes the display and the limits, not the transfer.\<close>

definition transfer_kept :: "pvstate \<Rightarrow> pvstate \<Rightarrow> bool" where
  "transfer_kept st st' \<longleftrightarrow>
     input_files st' = input_files st \<and> stop_at_size st' = stop_at_size st \<and> exit_status st' = exit_status st \<and>
     transfer_buffer st' = transfer_buffer st \<and> buffer_size st' = buffer_size st \<and>
     read_position st' = read_position st \<and> write_position st' = write_position st \<and>
     (target_buffer_size st < 2 ^ 62 \<longrightarrow> target_buffer_size st' < 2 ^ 62)"

lemma transfer_kept_refl [simp]: "transfer_kept st st"
  by (simp add: transfer_kept_def)

lemma transfer_kept_trans: "transfer_kept a b \<Longrightarrow> transfer_kept b c \<Longrightarrow> transfer_kept a c"
  by (simp add: transfer_kept_def)

lemma kept_override:
  "(\<And>st. transfer_kept st (f st)) \<Longrightarrow> transfer_kept a st \<Longrightarrow> transfer_kept a (override c f st)"
  using transfer_kept_trans by (auto simp: override_def)

lemma kept_set_format: "transfer_kept st (pv_state_set_format st p t e f r a b u n nm)"
  using format_only_same [OF set_format_only, of st p t e f r a b u n nm]
  by (simp add: transfer_kept_def set_format_fields)

lemma apply_message_kept:
  assumes "m_buffer_size m < 2 ^ 62"
  shows "transfer_kept st (apply_message m st)"
proof -
  have small: "nat (m_buffer_size m) < 2 ^ 62"
    using assms by (cases "0 \<le> m_buffer_size m") (simp_all add: nat_less_iff)
  show ?thesis
    unfolding apply_message_def Let_def
  proof (intro kept_override)
  let ?st = "pv_state_name_set (pv_state_format_string_set st None) None"
  have "transfer_kept st ?st" by (simp add: transfer_kept_def pv_setters)
  from transfer_kept_trans [OF this kept_set_format]
  show "transfer_kept st (pv_state_set_format ?st (m_progress m) (m_timer m) (m_eta m) (m_fineta m) (m_rate m)
      (m_average_rate m) (m_bytes m) (m_bufpercent m) (nat (m_lastwritten m))
      (if m_name m = [] then None else Some (m_name m)))" .
  qed (use small in \<open>simp_all add: transfer_kept_def pv_setters\<close>)
qed

lemma kept_leaves:
  assumes "transfer_kept st st'"
  shows "settled st st'" "pending st' = pending st" "buffer_inv st \<longrightarrow> buffer_inv st'"
  using assms
  by (auto simp: transfer_kept_def settled_def failed_def pending_def buf_slice_def buffer_inv_def split: option.splits)

lemma check_remote_leaves:
  assumes env: "remote_env M inp out"
  shows "leaves inp out (check_remote M)"
  unfolding leaves_def
proof (intro allI impI)
  fix st w st' w' assume r: "check_remote M st w = (st', w')"
  have still: "still inp out a b" if "ipc_recv (main_ipc M) q t a = (r1, b)" for q t a r1 b
    using env that unfolding remote_env_def by (metis snd_conv)
  have still': "still inp out a b" if "remote__msgget (main_ipc M) a = (r1, b)" for a r1 b
    using env that unfolding remote_env_def remote__msgget_def by (metis snd_conv)
  have put: "still inp out a (put_msgid M q a)" for q a using env by (simp add: remote_env_def)
  obtain q st1 w1 where c: "pv_remote_check (main_ipc M) (msgid_of M w) st w = (q, st1, w1)" by (rule prod_cases3)
  have 1: "still inp out w w1 \<and> transfer_kept st st1"
  proof (cases "msgid_of M w < 0")
    case False
    obtain m w2 where v: "ipc_recv (main_ipc M) (msgid_of M w) (ipc_pid (main_ipc M) w) w = (m, w2)" by (rule prod.exhaust)
    note 2 = still [OF v]
    show ?thesis
    proof (cases m)
      case (Inl e)
      obtain k w3 where g: "remote__msgget (main_ipc M) w2 = (k, w3)" by (rule prod.exhaust)
      have "st1 = st \<and> (w1 = w2 \<or> w1 = w3)"
        using c False v Inl g by (auto simp: pv_remote_check_def split: if_splits)
      with 2 still_trans [OF 2 still' [OF g]] show ?thesis by auto
    next
      case (Inr msg)
      have "m_buffer_size msg < 2 ^ 62" using env v Inr unfolding remote_env_def by blast
      moreover have "st1 = apply_message msg st" "w1 = w2" using c False v Inr by (auto simp: pv_remote_check_def)
      ultimately show ?thesis using 2 apply_message_kept by simp
    qed
  qed (use c in \<open>simp add: pv_remote_check_def\<close>)
  have e: "st' = st1" "w' = put_msgid M q w1" using r c by (auto simp: check_remote_def)
  show "still inp out w w' \<and> settled st st' \<and> pending st' = pending st \<and> (buffer_inv st \<longrightarrow> buffer_inv st')"
    unfolding e
    by (intro conjI still_trans [OF conjunct1 [OF 1] put] kept_leaves [OF conjunct2 [OF 1]])
qed

lemma with_remote_env:
  assumes "loop_env (sysloop.truncate M) inp out content" "remote_env M inp out"
  shows "loop_env (sysloop.truncate (with_remote M)) inp out content"
proof -
  have s: "sysio.truncate (sysloop.truncate (with_remote M)) = sysio.truncate (sysloop.truncate M)"
    "sysfile.truncate (sysloop.truncate (with_remote M)) = sysfile.truncate (sysloop.truncate M)"
    by (simp_all add: with_remote_def sysio.defs sysfile.defs sysloop.defs)
  have "side_env (sysloop.truncate (with_remote M)) inp out"
    using loop_envD(5) [OF assms(1)] check_remote_leaves [OF assms(2)]
    by (simp add: side_env_def with_remote_def sysloop.defs)
  with assms(1) show ?thesis unfolding loop_env_def s by simp
qed

section \<open>The whole program\<close>

lemma remote_init_quiet: "remote_env M inp out \<Longrightarrow> quiet inp out w (main_remote_init M w)"
proof -
  assume env: "remote_env M inp out"
  obtain r w1 where g: "remote__msgget (main_ipc M) w = (r, w1)" by (rule prod.exhaust)
  have 1: "still inp out w w1" using env g unfolding remote_env_def remote__msgget_def by (metis snd_conv)
  have "still inp out w1 (put_msgid M q w1)" for q using env by (simp add: remote_env_def)
  with 1 have "still inp out w (put_msgid M q w1)" for q by (rule still_trans)
  then show ?thesis using g by (simp add: main_remote_init_def pv_remote_init_def still_quiet)
qed

lemma remote_fini_quiet: "remote_env M inp out \<Longrightarrow> quiet inp out w (main_remote_fini M w)"
  by (simp add: main_remote_fini_def pv_remote_fini_def remote_env_def still_quiet)

lemma run_loopE:
  assumes "run_loop fuel M stack st w = Some (n, st', w')" "watch_pid st = 0"
  obtains w2 where "pv_main_loop fuel (sysloop.truncate (with_remote M)) st
      (main_remote_init M (on_signals M pv_sig_init w)) = Some (n, st', w2)" "w' = main_remote_fini M w2"
  using assms by (auto simp: run_loop_def Let_def)

lemma main_loop_env:
  assumes "main_env M inp out content"
  shows "loop_env (sysloop.truncate (with_remote M)) inp out content"
proof (rule with_remote_env)
  show "loop_env (sysloop.truncate M) inp out content" "remote_env M inp out"
    using assms by (simp_all add: main_env_def)
qed

lemma run_loop_unfailed:
  assumes env: "main_env M inp out content" and nw: "watch_pid st = 0"
    and run: "run_loop fuel M stack st w = Some (0, st', w')"
  shows "\<not> failed st"
proof -
  obtain w2 where m: "pv_main_loop fuel (sysloop.truncate (with_remote M)) st
      (main_remote_init M (on_signals M pv_sig_init w)) = Some (0, st', w2)" by (rule run_loopE [OF run nw])
  from main_loop_settled [OF loop_envD(5) [OF main_loop_env [OF env]] m] show ?thesis by simp
qed

lemma run_loop_copies:
  assumes env: "main_env M inp out content" and nw: "watch_pid st = 0"
    and st: "buffer_inv st" "pending st = []" "\<not> stop_at_size st" "named (input_files st)"
    and stdin: "inp STDIN_FILENO w = content stdin_name"
    and run: "run_loop fuel M stack st w = Some (0, st', w')"
  shows "out w' = out w @ concat (map content (input_files st))"
proof -
  have renv: "remote_env M inp out" using env by (simp add: main_env_def)
  let ?w1 = "main_remote_init M (on_signals M pv_sig_init w)"
  have sig: "quiet inp out w (on_signals M pv_sig_init w)" using env by (simp add: main_env_def)
  have q: "quiet inp out w ?w1" using sig remote_init_quiet [OF renv] by (rule quiet_trans)
  obtain w2 where m: "pv_main_loop fuel (sysloop.truncate (with_remote M)) st ?w1 = Some (0, st', w2)"
    and w': "w' = main_remote_fini M w2" by (rule run_loopE [OF run nw])
  have "inp STDIN_FILENO ?w1 = content stdin_name" using q stdin by (simp add: quiet_def)
  from main_loop_run [OF main_loop_env [OF env] st(4) st(1,2,3) this m] q remote_fini_quiet [OF renv, of w2]
  show ?thesis by (simp add: w' quiet_def)
qed

lemma clean_up_quiet:
  assumes "main_env M inp out content"
  shows "quiet inp out w (clean_up M ops t w)"
proof -
  have 1: "quiet inp out w (tc_setattr M t w)" using assms by (simp add: main_env_def)
  have 2: "quiet inp out a (case o_pidfile ops of Some name \<Rightarrow> file_remove M name a | None \<Rightarrow> a)" for a
    using assms by (auto simp: main_env_def split: option.split)
  have 3: "quiet inp out a (on_signals M pv_sig_fini a)" for a using assms by (simp add: main_env_def)
  show ?thesis unfolding clean_up_def Let_def using quiet_trans [OF quiet_trans [OF 1 2] 3] .
qed

lemma pv_run_copies:
  assumes env: "main_env M inp out content" and ops: "o_watch_pid ops = 0" "\<not> o_stop_at_size ops"
      "o_buffer_size ops < 2 ^ 62" "named (o_argv (default_input ops))"
    and st: "pv_state_alloc True prog = Some st"
    and stdin: "inp STDIN_FILENO w = content stdin_name"
    and run: "pv_run fuel M stack ops st w = Some (0, w')"
  shows "out w' = out w @ concat (map content (o_argv (default_input ops)))"
proof -
  have fresh: "\<not> linemode st" "transfer_buffer st = None" "read_position st = 0" "write_position st = 0"
    "buffer_size st = 0" using st by (auto simp: pv_state_alloc_def)
  obtain st1 w1 where s: "settle fuel M ops st w = Some (st1, w1)"
    using run by (auto simp: pv_run_def split: option.splits)
  note q = settle_quiet [OF env fresh(1) s]
  obtain t w2 where sv: "save_terminal M w1 = (t, w2)" by (rule prod.exhaust)
  obtain st3 w3 where l: "run_loop fuel M stack st1 w2 = Some (0, st3, w3)" and w': "w' = clean_up M ops t w3"
    using run s sv by (auto simp: pv_run_def)
  have tc: "quiet inp out a (tc_setattr M x a)" "quiet inp out a (snd (tc_getattr M a))" for a x
    using env by (simp_all add: main_env_def)
  obtain t0 w0 where g: "tc_getattr M w1 = (t0, w0)" by (rule prod.exhaust)
  have "quiet inp out w1 w0" using tc(2) [of w1] g by simp
  from quiet_trans [OF this tc(1)] have "quiet inp out w1 w2" using sv g by (auto simp: save_terminal_def)
  with q(1) have 2: "quiet inp out w w2" by (rule quiet_trans)
  have "buffer_inv st1" "pending st1 = []"
    using q(3-6,9) fresh ops(3) by (simp_all add: buffer_inv_def pending_def buf_slice_def)
  moreover have "input_files st1 = o_argv (default_input ops)"
    using q(2) run_loop_unfailed [OF env _ l] q(8) ops(1) by simp
  moreover have "inp STDIN_FILENO w2 = content stdin_name" using 2 stdin by (simp add: quiet_def)
  ultimately have "out w3 = out w2 @ concat (map content (o_argv (default_input ops)))"
    using run_loop_copies [OF env _ _ _ _ _ _ l] q(7,8) ops by simp
  with 2 clean_up_quiet [OF env, of w3 ops t] show ?thesis by (simp add: w' quiet_def)
qed

section \<open>A system to run the program in\<close>

definition no_messages :: "(bytes \<times> bytes) sysipc" where
  "no_messages = \<lparr> ipc_alive = (\<lambda>p w. (None, w)), ipc_euid = (\<lambda>w. 1000), ipc_ftok = (\<lambda>p c. 80),
     ipc_msgget = (\<lambda>k w. (Inr 0, w)), ipc_qnum = (\<lambda>q w. (Inr 0, w)),
     ipc_send = (\<lambda>q m w. (None, w)), ipc_recv = (\<lambda>q t w. (Inl ENOMSG, w)),
     ipc_remove = (\<lambda>q w. w), ipc_sleep = (\<lambda>t w. w), ipc_pid = (\<lambda>w. 77), ipc_strerror = (\<lambda>e. ''error'') \<rparr>"

text \<open>The world of two files, with standard input at its end.\<close>

definition cur_input :: "int \<Rightarrow> bytes \<times> bytes \<Rightarrow> bytes" where
  "cur_input fd w = (if fd = STDIN_FILENO then [] else fst w)"

definition tty_loop :: "(bytes \<times> bytes) sysloop" where
  "tty_loop = copy_sys\<lparr> sys_read := (\<lambda>fd n w.
     if fd = STDIN_FILENO then (Inr [], w) else (Inr (take n (fst w)), (drop n (fst w), snd w))) \<rparr>"

lemmas tty_loop_defs = tty_loop_def copy_sys_def copy_files_def copy_pipe_def pipe_sys_def sysio.defs
  sysfile.defs sysloop.defs

lemma tty_honest:
  "honest (sysio.truncate tty_loop) fd (cur_input fd) snd" "steady (sysio.truncate tty_loop) fd"
  "flowing (sysio.truncate tty_loop)" "lively (sysio.truncate tty_loop) fd"
  by (auto simp: honest_def honest_read_def honest_write_def honest_splice_def honest_select_def
      honest_lseek_def untouched_def steady_def flowing_def lively_def tty_loop_defs cur_input_def errno_defs)

lemma tty_file_env: "file_env (sysfile.truncate tty_loop) cur_input snd copy_content" "files_open (sysfile.truncate tty_loop)"
  by (auto simp: file_env_def files_open_def still_def tty_loop_defs cur_input_def copy_stat_def
      is_output_file_def STDOUT_FILENO_def STDIN_FILENO_def)

lemma tty_calm: "calm_env tty_loop cur_input snd copy_content"
proof -
  have cb: "run_remote_check tty_loop = Pair" "run_crs_init tty_loop = Pair" "run_crs_fini tty_loop = Pair"
    "run_screensize tty_loop = Pair" "(\<lambda>st. run_display tty_loop st e s t) = Pair"
    "clear_toffset tty_loop = (\<lambda>w. w)" "sig_abort tty_loop = (\<lambda>w. False)" for e s t
    by (simp_all add: tty_loop_defs)
  have wr: "snd (snd (sys_write tty_loop 2 d w)) = snd w" for d w
    by (simp add: tty_loop_defs STDOUT_FILENO_def)
  show ?thesis
    unfolding calm_env_def loop_env_def side_env_def cb
    by (auto simp: tty_honest tty_file_env pair_leaves wr)
qed

definition main_sys :: "(bytes \<times> bytes) sysmain" where
  "main_sys = syswatch.extend ((watch_sys still_open)\<lparr> sys_read := sys_read tty_loop \<rparr>)
     \<lparr> main_ipc = no_messages, msgid_of = (\<lambda>w. 0), put_msgid = (\<lambda>q w. w), on_signals = (\<lambda>f w. w),
       tc_getattr = (\<lambda>w. (\<lparr> c_lflag = 0, c_rest = [] \<rparr>, w)), tc_setattr = (\<lambda>t w. w),
       pid_open = (\<lambda>name w. (Inr (), w)), pid_write = (\<lambda>name s w. w), file_remove = (\<lambda>name w. w),
       main_say = (\<lambda>x w. w), state_allocated = (\<lambda>w. True) \<rparr>"

lemmas main_sys_defs = main_sys_def watch_sys_defs tty_loop_def syswatch.defs

lemma main_sys_remote: "check_remote main_sys = Pair"
  by (simp add: fun_eq_iff check_remote_def pv_remote_check_def main_sys_defs no_messages_def ENOMSG_def IPC_EAGAIN_def)

lemma main_sys_loop: "sysloop.truncate main_sys = tty_loop" "sysloop.truncate (with_remote main_sys) = tty_loop"
  unfolding with_remote_def main_sys_remote by (simp_all add: main_sys_defs)

lemma main_sys_quiet:
  "on_signals main_sys f w = w" "main_remote_init main_sys w = w" "main_remote_fini main_sys w = w"
  by (simp_all add: main_remote_init_def main_remote_fini_def pv_remote_init_def pv_remote_fini_def
      remote__msgget_def main_sys_defs no_messages_def)

lemma main_sys_env: "main_env main_sys cur_input snd copy_content"
proof -
  have "loop_env (sysloop.truncate main_sys) cur_input snd copy_content"
    unfolding main_sys_loop using calm_envD(1) [OF tty_calm] .
  moreover have "sizing_env (sysfile.truncate main_sys) cur_input snd"
    by (auto simp: sizing_env_def quiet_def main_sys_defs cur_input_def STDIN_FILENO_def)
  moreover have "remote_env main_sys cur_input snd"
    by (auto simp: remote_env_def still_def main_sys_defs no_messages_def)
  ultimately show ?thesis unfolding main_env_def by (simp add: main_sys_defs)
qed

text \<open>The program as a whole, whatever it calls to show its progress.\<close>

lemma main_copies:
  assumes "main_env M inp out content"
    and "opts_parse env argv getopt_start = (Some ops, shown)" "\<not> do_nothing ops" "o_remote ops \<le> 0"
    and "o_watch_pid ops = 0" "\<not> o_stop_at_size ops" "o_buffer_size ops < 2 ^ 62"
    and "named (o_argv (default_input ops))" "inp STDIN_FILENO w = content stdin_name"
    and "pv_main fuel M stack env argv w = Some (0, w')"
  shows "out w' = out w @ concat (map content (o_argv (default_input ops)))"
proof -
  let ?w = "fold (main_say M) shown w"
  have say: "quiet inp out a (main_say M x a)" "quiet inp out a (snd (pid_open M name a))"
    "quiet inp out a (pid_write M name t a)" for a x name t using assms(1) by (simp_all add: main_env_def)
  have 1: "quiet inp out a (fold (main_say M) xs a)" for xs a
    by (induction xs arbitrary: a) (auto intro: quiet_trans [OF say(1)])
  obtain b w1 where p: "write_pidfile M ops ?w = (b, w1)" by (rule prod.exhaust)
  have b: "b" "state_allocated M ?w" "pv_run fuel M stack ops (the (pv_state_alloc True (program_name ops))) w1 = Some (0, w')"
    using assms(2,3,4,10) p
    by (auto simp: pv_main_def Let_def pv_state_alloc_def split: if_splits bool.splits)
  have "quiet inp out ?w w1"
  proof (cases "o_pidfile ops")
    case None
    with p show ?thesis by (simp add: write_pidfile_def)
  next
    case (Some name)
    obtain r w2 where o: "pid_open M name ?w = (r, w2)" by (rule prod.exhaust)
    have "quiet inp out ?w w2" using say(2) [of ?w name] o by simp
    from quiet_trans [OF this say(3)] show ?thesis
      using p Some o b(1) by (auto simp: write_pidfile_def split: sum.splits)
  qed
  with 1 have w1: "quiet inp out w w1" by (rule quiet_trans)
  then have "inp STDIN_FILENO w1 = content stdin_name" using assms(9) by (simp add: quiet_def)
  moreover have "pv_state_alloc True (program_name ops) = Some (the (pv_state_alloc True (program_name ops)))"
    by (simp add: pv_state_alloc_def)
  ultimately have "out w' = out w1 @ concat (map content (o_argv (default_input ops)))"
    using pv_run_copies [OF assms(1,5,6,7,8)] b(3) by blast
  with w1 show ?thesis by (simp add: quiet_def)
qed

lemma line_mode_settles:
  assumes "o_linemode ops" "o_watch_pid ops = 0" "o_argv ops \<noteq> []"
  shows "\<exists>ops'. settle fuel main_sys ops st w = Some (copy_options ops' (pv_state_inputfiles st (o_argv ops)), w) \<and>
    same_request ops ops'"
proof -
  have "settle fuel main_sys ops st w \<noteq> None"
    using assms(1,2,3) by (auto simp: settle_def settle_size_def find_size_def default_input_def Let_def
        split: prod.splits)
  then obtain st1 w1 where s: "settle fuel main_sys ops st w = Some (st1, w1)"
    by (metis not_None_eq surj_pair)
  show ?thesis
  proof (rule settleE [OF s])
    fix ops1 st2 w2 ops2 w3 ops3
    assume c: "settle_size fuel (sysfile.truncate main_sys) (default_input ops)
       (pv_state_inputfiles st (o_argv (default_input ops))) w = Some (ops1, st2, w2)"
      "settle_display main_sys ops1 w2 = (ops2, w3)" "settle_screen main_sys ops2 w3 = (ops3, w1)"
      "st1 = copy_options (clamp_main ops3) st2" "same_request ops (clamp_main ops3)"
    have d: "default_input ops = ops" using assms(3) by (simp add: default_input_def)
    have "st2 = pv_state_inputfiles st (o_argv ops)" "w2 = w"
      using c(1) assms(1,2) unfolding d by (auto simp: settle_size_def find_size_def)
    moreover have "w3 = w2" using c(2) by (auto simp: settle_display_def main_sys_defs)
    moreover have "w1 = w3"
      using c(3) by (auto simp: settle_screen_def pv_screensize_def main_sys_defs Let_def split: if_splits)
    ultimately show ?thesis using s c(4,5) by auto
  qed
qed

text \<open>
  C24. The state that the loops start with: the screen and the interval are within their bounds, whatever
  was asked for and whatever the terminal says, lines that end in a zero byte are counted as lines,
  and a transfer of unknown size shows no time of arrival.
\<close>

theorem main_settles:
  assumes "opts_ok ops" "settle fuel M ops st w = Some (st', w')"
  shows "1 \<le> width st' \<and> width st' \<le> 999999 \<and> 1 \<le> height st' \<and> height st' \<le> 999999 \<and>
    1 / 10 \<le> interval st' \<and> interval st' \<le> 600 \<and> (null_lines st' \<longrightarrow> linemode st') \<and>
    (watch_pid st' = 0 \<and> total_size st' < 1 \<longrightarrow>
       (\<exists>p t f r a b u n named. default_format st' = format_of (directives p t False f r a b u n named)))"
proof -
  obtain ops1 st1 w1 ops2 w2 ops3 where c:
    "st' = copy_options (clamp_main ops3) st1" "same_request ops (clamp_main ops3)"
    "o_watch_pid ops = 0 \<Longrightarrow> o_size ops3 < 1 \<Longrightarrow> \<not> o_eta ops3"
    by (rule settleE [OF assms(2)]) blast
  have "null_lines st' \<longrightarrow> linemode st'"
    using assms(1) c(1,2) by (simp add: copy_options_more same_request_def opts_ok_def)
  moreover have "\<exists>p t f r a b u n named. default_format st' = format_of (directives p t False f r a b u n named)"
    if "watch_pid st' = 0" "total_size st' < 1"
  proof -
    have eta: "o_eta (clamp_main ops3) = False"
      using that c by (simp add: copy_options_more copy_options_fields same_request_def clamp_main_same)
    show ?thesis unfolding c(1) copy_options_format eta by blast
  qed
  ultimately show ?thesis
    unfolding c(1) copy_options_fields using clamp_main_bounds [of ops3] by (simp add: c(1))
qed

theorem main_settles_witness:
  "\<exists>st' w'. settle 0 main_sys ((opts_new ''pv'')\<lparr> o_linemode := True, o_null := True, o_argv := [''a''], o_width := 5000000 \<rparr>)
      (the (pv_state_alloc True ''pv'')) ([], []) = Some (st', w') \<and> width st' \<le> 999999 \<and> linemode st'"
proof -
  let ?ops = "(opts_new ''pv'')\<lparr> o_linemode := True, o_null := True, o_argv := [''a''], o_width := 5000000 \<rparr>"
  have ok: "opts_ok ?ops" by (simp add: opts_ok_def opts_new_def)
  have "o_linemode ?ops" "o_watch_pid ?ops = 0" "o_argv ?ops \<noteq> []" by (simp_all add: opts_new_def)
  then obtain ops' where s: "settle 0 main_sys ?ops (the (pv_state_alloc True ''pv'')) ([], []) =
      Some (copy_options ops' (pv_state_inputfiles (the (pv_state_alloc True ''pv'')) (o_argv ?ops)), ([], []))"
      "same_request ?ops ops'"
    using line_mode_settles by blast
  have "width (copy_options ops' (pv_state_inputfiles (the (pv_state_alloc True ''pv'')) (o_argv ?ops))) \<le> 999999"
    using main_settles [OF ok s(1)] by (elim conjE)
  moreover have "linemode (copy_options ops' (pv_state_inputfiles (the (pv_state_alloc True ''pv'')) (o_argv ?ops)))"
    using s(2) by (simp add: same_request_def copy_options_more)
  ultimately show ?thesis using s(1) by blast
qed

text \<open>
  A block device as the output sets the flag to stop at its size; copying the options puts the flag
  of the command line in its place.
\<close>

lemma block_output_stops:
  assumes "sys_fstat S STDOUT_FILENO w = (Inr sb, w1)" "st_kind sb = S_BLK"
    "sys_append_mode S STDOUT_FILENO w1 = (False, w2)" "seek S STDOUT_FILENO 0 SEEK_END w2 = (n, w3)" "0 < u64 n"
  shows "stop_at_size (fst (snd (size_of_output S 0 st w)))"
  using assms by (simp add: size_of_output_def split: prod.split)

lemma stop_at_size_forgotten:
  assumes "settle fuel M ops st w = Some (st', w')" "\<not> o_stop_at_size ops"
  shows "\<not> stop_at_size st'"
  by (rule settleE [OF assms(1)]) (use assms(2) in \<open>simp add: copy_options_more same_request_def\<close>)

text \<open>A command line that is refused ends with 64, which the manual gives to a lack of memory.\<close>

lemma usage_error_status:
  "opts_parse env argv getopt_start = (None, shown) \<Longrightarrow> \<exists>w'. pv_main fuel M stack env argv w = Some (64, w')"
  by (simp add: pv_main_def)

end
