(* ===== verification/PvCursor.thy ===== *)
theory PvCursor
  imports PvMain "HOL-Library.Monad_Syntax"
begin

text \<open>
  \<open>tools/pv/src/pv/cursor.c\<close>: several \<open>pv\<close> on one terminal, each on a line of its own. They share a
  segment of memory with the row of the first one, count each other by the attachments to it, and
  lock the terminal, or a file in its place, around what they do to it. The calls are the parameter
  \<open>syscrs\<close>. Waiting for the lock runs on fuel, as signals may interrupt it for ever; the functions
  that lock return \<open>None\<close> when they still wait.
\<close>

section \<open>The state\<close>

record crs_state =
  crs_shmid :: int
  crs_pvcount :: int
  crs_pvmax :: int
  crs_y_top :: int
  crs_y_lastread :: int
  crs_y_offset :: int
  crs_redo :: int
  crs_noipc :: bool
  crs_lock_fd :: int
  crs_lock_file :: string
  crs_y_start :: int

record 'w syscrs =
  c_ttyname :: "int \<Rightarrow> 'w \<Rightarrow> (int + string) \<times> 'w"
  c_getenv :: "string \<Rightarrow> string option"
  c_euid :: "'w \<Rightarrow> int"
  c_open_lock :: "string \<Rightarrow> 'w \<Rightarrow> (int + int) \<times> 'w"
  c_open_tty :: "string \<Rightarrow> 'w \<Rightarrow> (int + int) \<times> 'w"
  c_close :: "int \<Rightarrow> 'w \<Rightarrow> 'w"
  c_remove :: "string \<Rightarrow> 'w \<Rightarrow> 'w"
  c_setlkw :: "int \<Rightarrow> 'w \<Rightarrow> int option \<times> 'w"
  c_unlock :: "int \<Rightarrow> 'w \<Rightarrow> 'w"
  c_ftok :: "string \<Rightarrow> 'w \<Rightarrow> int"
  c_shmget :: "int \<Rightarrow> 'w \<Rightarrow> int \<times> 'w"
  c_shmat :: "int \<Rightarrow> 'w \<Rightarrow> int \<times> 'w"
  c_shmdt :: "int \<Rightarrow> 'w \<Rightarrow> 'w"
  c_nattch :: "int \<Rightarrow> 'w \<Rightarrow> int option"
  c_rmid :: "int \<Rightarrow> 'w \<Rightarrow> 'w"
  c_peek :: "int \<Rightarrow> 'w \<Rightarrow> int"
  c_poke :: "int \<Rightarrow> int \<Rightarrow> 'w \<Rightarrow> 'w"
  c_tcget :: "int \<Rightarrow> 'w \<Rightarrow> termios"
  c_tcset :: "int \<Rightarrow> termios \<Rightarrow> 'w \<Rightarrow> 'w"
  c_write :: "int \<Rightarrow> string \<Rightarrow> 'w \<Rightarrow> 'w"
  c_read :: "int \<Rightarrow> 'w \<Rightarrow> char option \<times> 'w"
  c_strerror :: "int \<Rightarrow> string"

definition ICANON :: "32 word" where "ICANON = 2"
definition ECHO :: "32 word" where "ECHO = 8"

definition disable_cursor :: "pvstate \<Rightarrow> pvstate" where
  "disable_cursor st = st\<lparr> cursor := False \<rparr>"

section \<open>The lock\<close>

definition lockfile_name :: "'w syscrs \<Rightarrow> string \<Rightarrow> 'w \<Rightarrow> string" where
  "lockfile_name S ttydev w =
     (let tmpdir = (case c_getenv S ''TMPDIR'' of Some d \<Rightarrow> d
                    | None \<Rightarrow> (case c_getenv S ''TMP'' of Some d \<Rightarrow> d | None \<Rightarrow> ''/tmp''))
      in take 1022 (tmpdir @ ''/pv-'' @ base_name ttydev @ ''-'' @ itoa (i32 (c_euid S w)) @ ''.lock''))"

definition pv_crs_open_lockfile ::
  "'w syscrs \<Rightarrow> pvstate \<Rightarrow> crs_state \<Rightarrow> int \<Rightarrow> 'w \<Rightarrow> pvstate \<times> crs_state \<times> 'w" where
  "pv_crs_open_lockfile S st c fd w =
     (let c = c\<lparr> crs_lock_fd := - 1 \<rparr>
      in case c_ttyname S fd w of
           (Inl e, w) \<Rightarrow>
             let st = (if \<not> force st
                       then pv_error (''failed to get terminal name: '' @ c_strerror S e) st else st)
             in (disable_cursor st, c, w)
         | (Inr ttydev, w) \<Rightarrow>
             let c = c\<lparr> crs_lock_file := lockfile_name S ttydev w \<rparr>
             in case c_open_lock S (crs_lock_file c) w of
                  (Inl e, w) \<Rightarrow>
                    (disable_cursor (pv_error (crs_lock_file c @ '': failed to open lock file: '' @ c_strerror S e) st), c, w)
                | (Inr lfd, w) \<Rightarrow> (st, c\<lparr> crs_lock_fd := lfd \<rparr>, w))"

fun crs_lock_wait ::
  "nat \<Rightarrow> 'w syscrs \<Rightarrow> int \<Rightarrow> int \<Rightarrow> pvstate \<Rightarrow> crs_state \<Rightarrow> 'w \<Rightarrow> (pvstate \<times> crs_state \<times> 'w) option" where
  "crs_lock_wait 0 S fd lock_fd st c w = None"
| "crs_lock_wait (Suc fuel) S fd lock_fd st c w =
     (case c_setlkw S lock_fd w of
        (None, w) \<Rightarrow> Some (st, c, w)
      | (Some e, w) \<Rightarrow>
          if e = EINTR then crs_lock_wait fuel S fd lock_fd st c w
          else if crs_lock_fd c = - 2 then
            (case pv_crs_open_lockfile S st c fd w of
               (st, c, w) \<Rightarrow>
                 crs_lock_wait fuel S fd (if 0 \<le> crs_lock_fd c then crs_lock_fd c else lock_fd) st c w)
          else Some (pv_error (''lock attempt failed: '' @ c_strerror S e) st, c, w))"

definition lock_descriptor :: "crs_state \<Rightarrow> int \<Rightarrow> int" where
  "lock_descriptor c fd = (if 0 \<le> crs_lock_fd c then crs_lock_fd c else fd)"

definition pv_crs_lock ::
  "nat \<Rightarrow> 'w syscrs \<Rightarrow> pvstate \<Rightarrow> crs_state \<Rightarrow> int \<Rightarrow> 'w \<Rightarrow> (pvstate \<times> crs_state \<times> 'w) option" where
  "pv_crs_lock fuel S st c fd w = crs_lock_wait fuel S fd (lock_descriptor c fd) st c w"

definition pv_crs_unlock :: "'w syscrs \<Rightarrow> crs_state \<Rightarrow> int \<Rightarrow> 'w \<Rightarrow> 'w" where
  "pv_crs_unlock S c fd w = c_unlock S (lock_descriptor c fd) w"

section \<open>The count and the row\<close>

definition pv_crs_ipccount :: "'w syscrs \<Rightarrow> crs_state \<Rightarrow> 'w \<Rightarrow> crs_state" where
  "pv_crs_ipccount S c w =
     (let n = i32 (case c_nattch S (crs_shmid c) w of Some k \<Rightarrow> k | None \<Rightarrow> 0);
          c = c\<lparr> crs_pvcount := n \<rparr>
      in if crs_pvcount c > crs_pvmax c then c\<lparr> crs_pvmax := crs_pvcount c \<rparr> else c)"

text \<open>The answer of the terminal, byte by byte, up to the final R.\<close>

fun read_answer :: "'w syscrs \<Rightarrow> int \<Rightarrow> nat \<Rightarrow> 'w \<Rightarrow> string \<times> 'w" where
  "read_answer S fd 0 w = ([], w)"
| "read_answer S fd (Suc n) w =
     (case c_read S fd w of
        (None, w) \<Rightarrow> ([], w)
      | (Some ch, w) \<Rightarrow>
          if ch = CHR ''R'' then ([ch], w)
          else (case read_answer S fd n w of (s, w) \<Rightarrow> (ch # s, w)))"

definition pv_crs_get_ypos :: "'w syscrs \<Rightarrow> int \<Rightarrow> 'w \<Rightarrow> int \<times> 'w" where
  "pv_crs_get_ypos S fd w =
     (let tty = c_tcget S fd w; old_tty = tty;
          tty = tty\<lparr> c_lflag := c_lflag tty AND NOT (ICANON OR ECHO) \<rparr>;
          w = c_tcset S fd tty w;
          w = c_write S fd (CHR 0x1B # ''[6n'') w
      in case read_answer S fd 30 w of
           (cpr, w) \<Rightarrow> (pv_getnum_i (Some (c_string (drop 2 cpr))), c_tcset S fd old_tty w))"

section \<open>The start\<close>

text \<open>\<open>None\<close> is the wait for the lock; the flag is whether the segment is in use.\<close>

definition pv_crs_ipcinit ::
  "nat \<Rightarrow> 'w syscrs \<Rightarrow> pvstate \<Rightarrow> crs_state \<Rightarrow> string \<Rightarrow> int \<Rightarrow> 'w \<Rightarrow> (bool \<times> pvstate \<times> crs_state \<times> 'w) option" where
  "pv_crs_ipcinit fuel S st c ttyfile terminalfd w =
     (let shm_key = c_ftok S ttyfile w
      in if shm_key = - 1 then Some (False, st, c, w)
         else do {
           (st, c, w) \<leftarrow> pv_crs_lock fuel S st c terminalfd w;
           if \<not> cursor st then Some (False, st, c, w)
           else
             (case c_shmget S shm_key w of (shmid, w) \<Rightarrow>
                let c = c\<lparr> crs_shmid := shmid \<rparr>
                in if shmid < 0 then Some (False, st, c, pv_crs_unlock S c terminalfd w)
                   else
                     (case c_shmat S shmid w of (addr, w) \<Rightarrow>
                        let c = pv_crs_ipccount S (c\<lparr> crs_y_top := addr \<rparr>) w;
                            (c, w) =
                              (if crs_pvcount c < 2 then
                                 (case pv_crs_get_ypos S terminalfd w of (y, w) \<Rightarrow>
                                    (c\<lparr> crs_y_start := y, crs_y_lastread := y \<rparr>, c_poke S (crs_y_top c) y w))
                               else (c, w));
                            c = c\<lparr> crs_y_offset := (if crs_pvcount c - 1 < 0 then 0 else crs_pvcount c - 1) \<rparr>;
                            c = (if crs_pvcount c > 1
                                 then c\<lparr> crs_y_start := c_peek S (crs_y_top c) w,
                                        crs_y_lastread := c_peek S (crs_y_top c) w \<rparr>
                                 else c)
                        in Some (True, st, c, pv_crs_unlock S c terminalfd w)))
         })"

text \<open>Without the segment: the row is asked for and the cursor moves on, for the next \<open>pv\<close>.\<close>

definition crs_alone ::
  "nat \<Rightarrow> 'w syscrs \<Rightarrow> pvstate \<Rightarrow> crs_state \<Rightarrow> int \<Rightarrow> 'w \<Rightarrow> (pvstate \<times> crs_state \<times> 'w) option" where
  "crs_alone fuel S st c fd w = do {
     (st, c, w) \<leftarrow> pv_crs_lock fuel S st c fd w;
     (case pv_crs_get_ypos S fd w of (y, w) \<Rightarrow>
        let c = c\<lparr> crs_y_start := y \<rparr>;
            w = (if 0 < y then c_write S STDERR_FILENO [CHR 0x0A] w else w);
            w = pv_crs_unlock S c fd w
        in Some (if y < 1 then disable_cursor st else st, c, w))
   }"

definition pv_crs_init ::
  "nat \<Rightarrow> 'w syscrs \<Rightarrow> pvstate \<Rightarrow> crs_state \<Rightarrow> 'w \<Rightarrow> (pvstate \<times> crs_state \<times> 'w) option" where
  "pv_crs_init fuel S st c w =
     (let c = c\<lparr> crs_lock_fd := - 2, crs_lock_file := [] \<rparr>
      in if \<not> cursor st then Some (st, c, w)
         else
           case c_ttyname S STDERR_FILENO w of
             (Inl e, w) \<Rightarrow> Some (disable_cursor st, c, w)
           | (Inr ttyfile, w) \<Rightarrow>
               (case c_open_tty S ttyfile w of
                  (Inl e, w) \<Rightarrow>
                    Some (disable_cursor (pv_error (''failed to open terminal: '' @ ttyfile @ '': '' @ c_strerror S e) st), c, w)
                | (Inr fd, w) \<Rightarrow> do {
                    (ok, st, c, w) \<leftarrow> pv_crs_ipcinit fuel S st c ttyfile fd w;
                    let c = (if ok then c else c\<lparr> crs_noipc := True \<rparr>);
                    (st, c, w) \<leftarrow> (if crs_noipc c then crs_alone fuel S st c fd w else Some (st, c, w));
                    Some (st, c, c_close S fd w)
                  }))"

section \<open>An update\<close>

definition pv_crs_reinit ::
  "nat \<Rightarrow> 'w syscrs \<Rightarrow> pvstate \<Rightarrow> crs_state \<Rightarrow> 'w \<Rightarrow> (pvstate \<times> crs_state \<times> 'w) option" where
  "pv_crs_reinit fuel S st c w = do {
     (st, c, w) \<leftarrow> pv_crs_lock fuel S st c STDERR_FILENO w;
     let c = c\<lparr> crs_redo := (if crs_y_offset c < 1 then 0 else crs_redo c - 1) \<rparr>;
     if 0 < crs_redo c then Some (st, c, pv_crs_unlock S c STDERR_FILENO w)
     else
       (case pv_crs_get_ypos S STDERR_FILENO w of (y, w) \<Rightarrow>
          let w = (if crs_y_offset c < 1 then c_poke S (crs_y_top c) y w else w);
              c = c\<lparr> crs_y_start := y, crs_y_lastread := y \<rparr>
          in Some (st, c, pv_crs_unlock S c STDERR_FILENO w))
   }"

definition goto_row :: "int \<Rightarrow> string" where
  "goto_row y = CHR 0x1B # ''['' @ itoa y @ '';1H''"

definition crs_row_bound :: "int \<Rightarrow> int" where
  "crs_row_bound y = (if y < 1 \<or> y > 999999 then 1 else y)"

text \<open>What the others did in the meantime: their number, and the row of the first one.\<close>

definition crs_refresh :: "'w syscrs \<Rightarrow> crs_state \<Rightarrow> 'w \<Rightarrow> crs_state" where
  "crs_refresh S c w =
     (let c = pv_crs_ipccount S c w
      in if crs_y_lastread c \<noteq> c_peek S (crs_y_top c) w
         then c\<lparr> crs_y_start := c_peek S (crs_y_top c) w, crs_y_lastread := c_peek S (crs_y_top c) w \<rparr>
         else c)"

text \<open>The lines would not fit below the first one: it moves up, and the first \<open>pv\<close> scrolls.\<close>

definition crs_scroll ::
  "nat \<Rightarrow> 'w syscrs \<Rightarrow> pvstate \<Rightarrow> crs_state \<Rightarrow> 'w \<Rightarrow> (pvstate \<times> crs_state \<times> 'w) option" where
  "crs_scroll fuel S st c w =
     (if u32 (crs_y_start c + crs_pvmax c) > height st \<and> \<not> crs_noipc c then
        let offs = i32 (crs_y_start c + crs_pvmax c - height st);
            y = crs_y_start c - offs;
            c = c\<lparr> crs_y_start := (if y < 1 then 1 else y) \<rparr>
        in if crs_y_offset c = 0 then do {
             (st, c, w) \<leftarrow> pv_crs_lock fuel S st c STDERR_FILENO w;
             let w = c_write S STDERR_FILENO (goto_row (height st)) w;
             let w = (c_write S STDERR_FILENO [CHR 0x0A] ^^ nat offs) w;
             Some (st, c, pv_crs_unlock S c STDERR_FILENO w)
           }
           else Some (st, c, w)
      else Some (st, c, w))"

definition crs_print ::
  "nat \<Rightarrow> 'w syscrs \<Rightarrow> pvstate \<Rightarrow> crs_state \<Rightarrow> string \<Rightarrow> 'w \<Rightarrow> (pvstate \<times> crs_state \<times> 'w) option" where
  "crs_print fuel S st c s w = do {
     (st, c, w) \<leftarrow> crs_scroll fuel S st c w;
     let y = crs_row_bound (if crs_noipc c then crs_y_start c else crs_y_start c + crs_y_offset c);
     (st, c, w) \<leftarrow> pv_crs_lock fuel S st c STDERR_FILENO w;
     let w = c_write S STDERR_FILENO (goto_row y) w;
     let w = c_write S STDERR_FILENO s w;
     Some (st, c, pv_crs_unlock S c STDERR_FILENO w)
   }"

definition pv_crs_update ::
  "nat \<Rightarrow> 'w syscrs \<Rightarrow> pvstate \<Rightarrow> crs_state \<Rightarrow> string \<Rightarrow> 'w \<Rightarrow> (pvstate \<times> crs_state \<times> 'w) option" where
  "pv_crs_update fuel S st c s w =
     (if crs_noipc c then crs_print fuel S st c s w
      else do {
        (st, c, w) \<leftarrow> (if crs_redo c \<noteq> 0 then pv_crs_reinit fuel S st c w else Some (st, c, w));
        let c = crs_refresh S c w;
        if 0 < crs_redo c then Some (st, c, w) else crs_print fuel S st c s w
      })"

section \<open>The end\<close>

definition final_row :: "pvstate \<Rightarrow> crs_state \<Rightarrow> int" where
  "final_row st c =
     (let y = crs_y_start c + (if 0 < crs_pvmax c \<and> \<not> crs_noipc c then crs_pvmax c - 1 else 0)
      in crs_row_bound (if u32 y > height st then height st else y))"

definition pv_crs_fini ::
  "nat \<Rightarrow> 'w syscrs \<Rightarrow> pvstate \<Rightarrow> crs_state \<Rightarrow> 'w \<Rightarrow> (pvstate \<times> crs_state \<times> 'w) option" where
  "pv_crs_fini fuel S st c w =
     (let y = final_row st c
      in do {
        (st, c, w) \<leftarrow> pv_crs_lock fuel S st c STDERR_FILENO w;
        let w = c_write S STDERR_FILENO (goto_row y @ [CHR 0x0A]) w;
        let c = pv_crs_ipccount S c w;
        let w = c_shmdt S (crs_y_top c) w;
        let w = (if crs_pvcount c < 2 then c_rmid S (crs_shmid c) w else w);
        let w = pv_crs_unlock S c STDERR_FILENO w;
        Some (st, c, if 0 \<le> crs_lock_fd c then c_remove S (crs_lock_file c) (c_close S (crs_lock_fd c) w) else w)
      })"

section \<open>Waiting for the lock\<close>

text \<open>
  When no signal comes in between, three attempts are enough: on the terminal, on the file in its
  place, and the one that gives up.
\<close>

lemma lock_ends:
  assumes "\<And>d w. fst (c_setlkw S d w) \<noteq> Some EINTR"
    and "\<And>name w lfd w'. c_open_lock S name w = (Inr lfd, w') \<Longrightarrow> 0 \<le> lfd"
  shows "\<exists>r. pv_crs_lock 3 S st c fd w = Some r"
proof -
  have step: "crs_lock_wait (Suc n) S fd d st c w =
      (case c_setlkw S d w of
         (None, w) \<Rightarrow> Some (st, c, w)
       | (Some e, w) \<Rightarrow> if crs_lock_fd c = - 2 then
            (case pv_crs_open_lockfile S st c fd w of
               (st, c, w) \<Rightarrow> crs_lock_wait n S fd (if 0 \<le> crs_lock_fd c then crs_lock_fd c else d) st c w)
          else Some (pv_error (''lock attempt failed: '' @ c_strerror S e) st, c, w))" for n d st c w
    using assms(1) [of d w] by (cases "c_setlkw S d w") (auto split: option.splits)
  have gives_up: "\<exists>r. crs_lock_wait (Suc n) S fd d st c w = Some r" if "crs_lock_fd c \<noteq> - 2" for n d st c w
    using that unfolding step by (auto split: option.split prod.split)
  show ?thesis
  proof (cases "crs_lock_fd c = - 2")
    case False
    with gives_up [of c 2] show ?thesis by (simp add: pv_crs_lock_def numeral_3_eq_3)
  next
    case True
    let ?d = "lock_descriptor c fd"
    obtain r w1 where l: "c_setlkw S ?d w = (r, w1)" by (rule prod.exhaust)
    show ?thesis
    proof (cases r)
      case None
      with l show ?thesis by (simp add: pv_crs_lock_def numeral_3_eq_3)
    next
      case (Some e)
      obtain st2 c2 w2 where o: "pv_crs_open_lockfile S st c fd w1 = (st2, c2, w2)" by (rule prod_cases3)
      have e: "e \<noteq> EINTR" using assms(1) [of ?d w] l Some by simp
      let ?d2 = "if 0 \<le> crs_lock_fd c2 then crs_lock_fd c2 else ?d"
      have w: "pv_crs_lock 3 S st c fd w = crs_lock_wait 2 S fd ?d2 st2 c2 w2"
        using l Some o e True by (simp add: pv_crs_lock_def numeral_3_eq_3 numeral_2_eq_2)
      show ?thesis
      proof (cases "crs_lock_fd c2 = - 2")
        case False
        with gives_up [of c2 1] show ?thesis unfolding w by (simp add: numeral_2_eq_2)
      next
        case True
        then show ?thesis
          using o assms(2) by (fastforce simp: pv_crs_open_lockfile_def Let_def split: prod.splits sum.splits)
      qed
    qed
  qed
qed

section \<open>One line for each\<close>

text \<open>
  The documented behaviour of the shared segment: \<open>seg\<close> is its contents and \<open>att\<close> the number of
  attachments. The lock is granted, and what is said to the terminal does not reach the segment.
\<close>

definition segment_same :: "('w \<Rightarrow> int) \<Rightarrow> ('w \<Rightarrow> nat) \<Rightarrow> 'w \<Rightarrow> 'w \<Rightarrow> bool" where
  "segment_same seg att w w' \<longleftrightarrow> seg w' = seg w \<and> att w' = att w"

definition shared_segment :: "'w syscrs \<Rightarrow> ('w \<Rightarrow> int) \<Rightarrow> ('w \<Rightarrow> nat) \<Rightarrow> bool" where
  "shared_segment S seg att \<longleftrightarrow>
     (\<forall>f w. c_ftok S f w \<noteq> - 1) \<and>
     (\<forall>k w q w'. c_shmget S k w = (q, w') \<longrightarrow> 0 \<le> q \<and> segment_same seg att w w') \<and>
     (\<forall>q w a w'. c_shmat S q w = (a, w') \<longrightarrow> seg w' = seg w \<and> att w' = att w + 1) \<and>
     (\<forall>a w. seg (c_shmdt S a w) = seg w \<and> att (c_shmdt S a w) = att w - 1) \<and>
     (\<forall>q w. c_nattch S q w = Some (int (att w))) \<and> (\<forall>a w. c_peek S a w = seg w) \<and>
     (\<forall>a v w. seg (c_poke S a v w) = v \<and> att (c_poke S a v w) = att w) \<and>
     (\<forall>d w. \<exists>w'. c_setlkw S d w = (None, w') \<and> segment_same seg att w w') \<and>
     (\<forall>d w. segment_same seg att w (c_unlock S d w)) \<and> (\<forall>d t w. segment_same seg att w (c_tcset S d t w)) \<and>
     (\<forall>d s w. segment_same seg att w (c_write S d s w)) \<and> 
     (\<forall>d w r w'. c_read S d w = (r, w') \<longrightarrow> segment_same seg att w w')"

lemma segment_same_refl [simp]: "segment_same seg att w w"
  by (simp add: segment_same_def)

lemma segment_same_trans: "segment_same seg att a b \<Longrightarrow> segment_same seg att b c \<Longrightarrow> segment_same seg att a c"
  by (simp add: segment_same_def)

lemma shared_segmentD:
  assumes "shared_segment S seg att"
  shows "c_ftok S f w \<noteq> - 1" "c_nattch S q w = Some (int (att w))" "c_peek S a w = seg w"
    "seg (c_poke S a v w) = v" "att (c_poke S a v w) = att w"
    "segment_same seg att w (c_unlock S d w)" "segment_same seg att w (c_tcset S d t w)"
    "segment_same seg att w (c_write S d s w)"
  using assms by (simp_all add: shared_segment_def)

lemma shared_segment_calls:
  assumes "shared_segment S seg att"
  shows "c_shmget S k w = (q, w') \<Longrightarrow> 0 \<le> q \<and> segment_same seg att w w'"
    "c_shmat S q w = (a, w') \<Longrightarrow> seg w' = seg w \<and> att w' = att w + 1"
    "\<exists>w'. c_setlkw S d w = (None, w') \<and> segment_same seg att w w'"
    "c_read S d w = (r, w') \<Longrightarrow> segment_same seg att w w'"
proof -
  note a = assms [unfolded shared_segment_def]
  show "c_shmget S k w = (q, w') \<Longrightarrow> 0 \<le> q \<and> segment_same seg att w w'" using a by (elim conjE) blast
  show "c_shmat S q w = (a, w') \<Longrightarrow> seg w' = seg w \<and> att w' = att w + 1" using a by (elim conjE) blast
  show "\<exists>w'. c_setlkw S d w = (None, w') \<and> segment_same seg att w w'"
    using assms by (simp add: shared_segment_def)
  from a have "\<forall>d w r w'. c_read S d w = (r, w') \<longrightarrow> segment_same seg att w w'" by (elim conjE)
  then show "c_read S d w = (r, w') \<Longrightarrow> segment_same seg att w w'" by blast
qed

lemma answer_same:
  assumes "shared_segment S seg att"
  shows "read_answer S fd n w = (s, w') \<Longrightarrow> segment_same seg att w w'"
proof (induction n arbitrary: w s w')
  case (Suc n)
  obtain r w1 where r: "c_read S fd w = (r, w1)" by (rule prod.exhaust)
  note 1 = shared_segment_calls(4) [OF assms r]
  show ?case
  proof (cases "\<exists>ch. r = Some ch \<and> ch \<noteq> CHR ''R''")
    case True
    obtain t w2 where t: "read_answer S fd n w1 = (t, w2)" by (rule prod.exhaust)
    have "w' = w2" using Suc.prems r True t by auto
    with segment_same_trans [OF 1 Suc.IH [OF t]] show ?thesis by simp
  next
    case False
    with Suc.prems r have "w' = w1" by (cases r) auto
    with 1 show ?thesis by simp
  qed
qed simp

lemma ypos_same:
  assumes "shared_segment S seg att" "pv_crs_get_ypos S fd w = (y, w')"
  shows "segment_same seg att w w'"
proof -
  let ?tty = "(c_tcget S fd w)\<lparr> c_lflag := c_lflag (c_tcget S fd w) AND NOT (ICANON OR ECHO) \<rparr>"
  let ?w1 = "c_write S fd (CHR 0x1B # ''[6n'') (c_tcset S fd ?tty w)"
  obtain s w2 where a: "read_answer S fd 30 ?w1 = (s, w2)" by (rule prod.exhaust)
  have "w' = c_tcset S fd (c_tcget S fd w) w2" using assms(2) a by (auto simp: pv_crs_get_ypos_def Let_def)
  moreover have "segment_same seg att w ?w1"
    by (rule segment_same_trans [OF shared_segmentD(7,8) [OF assms(1)]])
  ultimately show ?thesis
    using segment_same_trans [OF segment_same_trans [OF _ answer_same [OF assms(1) a]] shared_segmentD(7) [OF assms(1)]]
    by simp
qed

lemma lock_granted:
  assumes "shared_segment S seg att"
  shows "\<exists>w'. pv_crs_lock (Suc fuel) S st c fd w = Some (st, c, w') \<and> segment_same seg att w w'"
proof -
  obtain w' where "c_setlkw S (lock_descriptor c fd) w = (None, w')" "segment_same seg att w w'"
    using shared_segment_calls(3) [OF assms] by blast
  then show ?thesis by (simp add: pv_crs_lock_def)
qed

text \<open>
  A new \<open>pv\<close> takes the line after those that are attached, counted from the row in the segment, which
  it sets if it is alone.
\<close>

lemma crs_attach:
  assumes env: "shared_segment S seg att" and "cursor st" "att w + 1 < 2 ^ 31"
  shows "\<exists>c' w'. pv_crs_ipcinit (Suc fuel) S st c tty fd w = Some (True, st, c', w') \<and>
    crs_y_offset c' = int (att w) \<and> att w' = att w + 1 \<and> crs_y_start c' = seg w' \<and>
    (0 < att w \<longrightarrow> seg w' = seg w)"
proof -
  note E = shared_segmentD [OF env] and C = shared_segment_calls [OF env]
  obtain w1 where l: "pv_crs_lock (Suc fuel) S st c fd w = Some (st, c, w1)" "segment_same seg att w w1"
    using lock_granted [OF env] by blast
  obtain q w2 where g: "c_shmget S (c_ftok S tty w) w1 = (q, w2)" by (rule prod.exhaust)
  note 2 = C(1) [OF g]
  obtain a w3 where m: "c_shmat S q w2 = (a, w3)" by (rule prod.exhaust)
  note 3 = C(2) [OF m]
  have att3: "att w3 = att w + 1" "seg w3 = seg w" using l(2) 2 3 by (simp_all add: segment_same_def)
  let ?c0 = "c\<lparr> crs_shmid := q, crs_y_top := a \<rparr>"
  let ?c1 = "pv_crs_ipccount S ?c0 w3"
  have "i32 (int (att w3)) = int (att w) + 1" using assms(3) att3 by (simp add: i32_def)
  then have c1: "crs_pvcount ?c1 = int (att w) + 1" by (simp add: pv_crs_ipccount_def E(2) Let_def)
  show ?thesis
  proof (cases "att w = 0")
    case True
    obtain y w4 where y: "pv_crs_get_ypos S fd w3 = (y, w4)" by (rule prod.exhaust)
    note 4 = ypos_same [OF env y]
    let ?c2 = "?c1\<lparr> crs_y_start := y, crs_y_lastread := y \<rparr>"
    let ?c3 = "?c2\<lparr> crs_y_offset := 0 \<rparr>"
    let ?w5 = "c_poke S (crs_y_top ?c1) y w4"
    have "pv_crs_ipcinit (Suc fuel) S st c tty fd w = Some (True, st, ?c3, pv_crs_unlock S ?c3 fd ?w5)"
      using l g m 2 y c1 True assms(2) E(1) by (simp add: pv_crs_ipcinit_def Let_def)
    moreover have "segment_same seg att ?w5 (pv_crs_unlock S ?c3 fd ?w5)" by (simp add: pv_crs_unlock_def E(6))
    ultimately show ?thesis using True att3 4 E(4,5) by (simp add: segment_same_def)
  next
    case False
    let ?c3 = "?c1\<lparr> crs_y_offset := int (att w), crs_y_start := seg w3, crs_y_lastread := seg w3 \<rparr>"
    have "pv_crs_ipcinit (Suc fuel) S st c tty fd w = Some (True, st, ?c3, pv_crs_unlock S ?c3 fd w3)"
      using l g m 2 c1 False assms(2) E(1,3) by (simp add: pv_crs_ipcinit_def Let_def)
    moreover have "segment_same seg att w3 (pv_crs_unlock S ?c3 fd w3)" by (simp add: pv_crs_unlock_def E(6))
    ultimately show ?thesis using False att3 by (simp add: segment_same_def)
  qed
qed

text \<open>So many of them, one after the other.\<close>

fun start_pvs ::
  "nat \<Rightarrow> 'w syscrs \<Rightarrow> pvstate \<Rightarrow> crs_state \<Rightarrow> string \<Rightarrow> int \<Rightarrow> nat \<Rightarrow> 'w \<Rightarrow> (crs_state list \<times> 'w) option" where
  "start_pvs fuel S st c tty fd 0 w = Some ([], w)"
| "start_pvs fuel S st c tty fd (Suc n) w = do {
     (cs, w) \<leftarrow> start_pvs fuel S st c tty fd n w;
     (ok, _, c', w) \<leftarrow> pv_crs_ipcinit fuel S st c tty fd w;
     Some (cs @ [c'], w)
   }"

lemma start_pvs_rows:
  assumes env: "shared_segment S seg att" and "cursor st" "att w = 0"
  shows "n < 2 ^ 31 \<Longrightarrow> \<exists>cs w'. start_pvs (Suc fuel) S st c tty fd n w = Some (cs, w') \<and> length cs = n \<and> att w' = n \<and>
    (\<forall>i < n. crs_y_offset (cs ! i) = int i \<and> crs_y_start (cs ! i) = seg w')"
proof (induction n)
  case (Suc n)
  then obtain cs w1 where s: "start_pvs (Suc fuel) S st c tty fd n w = Some (cs, w1)" "length cs = n" "att w1 = n"
    "\<forall>i < n. crs_y_offset (cs ! i) = int i \<and> crs_y_start (cs ! i) = seg w1" by auto
  obtain c' w' where a: "pv_crs_ipcinit (Suc fuel) S st c tty fd w1 = Some (True, st, c', w')"
    "crs_y_offset c' = int (att w1)" "att w' = att w1 + 1" "crs_y_start c' = seg w'" "0 < att w1 \<longrightarrow> seg w' = seg w1"
    using crs_attach [OF env assms(2), of w1 fuel c tty fd] s(3) Suc.prems by auto
  have "crs_y_offset ((cs @ [c']) ! i) = int i \<and> crs_y_start ((cs @ [c']) ! i) = seg w'" if "i < Suc n" for i
    using that s a by (cases "i = n") (auto simp: nth_append)
  then show ?case using s a by simp
qed (use assms(3) in simp)

section \<open>What an update writes\<close>

definition screen_log :: "'w syscrs \<Rightarrow> ('w \<Rightarrow> string list) \<Rightarrow> bool" where
  "screen_log S shown \<longleftrightarrow>
     (\<forall>d w. \<exists>w'. c_setlkw S d w = (None, w') \<and> shown w' = shown w) \<and> (\<forall>d w. shown (c_unlock S d w) = shown w) \<and>
     (\<forall>s w. shown (c_write S STDERR_FILENO s w) = shown w @ [s])"

lemma log_lock:
  assumes "screen_log S shown"
  shows "\<exists>w'. pv_crs_lock (Suc fuel) S st c fd w = Some (st, c, w') \<and> shown w' = shown w"
proof -
  obtain w' where "c_setlkw S (lock_descriptor c fd) w = (None, w') \<and> shown w' = shown w"
    using assms unfolding screen_log_def by blast
  then show ?thesis by (auto simp: pv_crs_lock_def)
qed

lemma log_unlock: "screen_log S shown \<Longrightarrow> shown (pv_crs_unlock S c fd w) = shown w"
  by (simp add: screen_log_def pv_crs_unlock_def)

lemma log_write: "screen_log S shown \<Longrightarrow> shown (c_write S STDERR_FILENO s w) = shown w @ [s]"
  by (simp add: screen_log_def)

lemma log_newlines:
  "screen_log S shown \<Longrightarrow> shown ((c_write S STDERR_FILENO [CHR 0x0A] ^^ n) w) = shown w @ replicate n [CHR 0x0A]"
  by (induction n) (simp_all add: log_write replicate_append_same)

text \<open>The scroll: the first row moves up so that the lines fit, or to the top of the screen.\<close>

lemma scroll_log:
  assumes env: "screen_log S shown" and h: "1 \<le> height st" "height st < 2 ^ 31"
    and y: "0 \<le> crs_y_start c + crs_pvmax c" "crs_y_start c + crs_pvmax c < 2 ^ 31" "\<not> crs_noipc c"
  shows "\<exists>c' w' scroll. crs_scroll (Suc fuel) S st c w = Some (st, c', w') \<and> shown w' = shown w @ scroll \<and>
    (scroll \<noteq> [] \<longrightarrow> crs_y_offset c = 0) \<and> crs_y_offset c' = crs_y_offset c \<and> crs_noipc c' = crs_noipc c \<and>
    crs_pvmax c' = crs_pvmax c \<and> (crs_y_start c' = 1 \<or> crs_y_start c' + crs_pvmax c' \<le> height st)"
proof (cases "u32 (crs_y_start c + crs_pvmax c) > height st")
  case False
  then have "crs_y_start c + crs_pvmax c \<le> height st" using y by (simp add: u32_def)
  with False show ?thesis
    by (intro exI [of _ c] exI [of _ w] exI [of _ "[]"]) (simp add: crs_scroll_def)
next
  case True
  define offs where "offs = crs_y_start c + crs_pvmax c - height st"
  define c1 where "c1 = c\<lparr> crs_y_start := (if crs_y_start c - offs < 1 then 1 else crs_y_start c - offs) \<rparr>"
  have i: "i32 (crs_y_start c + crs_pvmax c - height st) = offs" using h y by (simp add: offs_def i32_def)
  have fits: "crs_y_start c1 = 1 \<or> crs_y_start c1 + crs_pvmax c1 \<le> height st"
    by (simp add: c1_def offs_def)
  show ?thesis
  proof (cases "crs_y_offset c = 0")
    case False
    then have "crs_scroll (Suc fuel) S st c w = Some (st, c1, w)"
      using True y(3) unfolding crs_scroll_def i by (simp add: Let_def c1_def)
    with False fits show ?thesis
      by (intro exI [of _ c1] exI [of _ w] exI [of _ "[]"]) (simp add: c1_def)
  next
    case zero: True
    obtain w1 where l: "pv_crs_lock (Suc fuel) S st c1 STDERR_FILENO w = Some (st, c1, w1)" "shown w1 = shown w"
      using log_lock [OF env] by blast
    let ?w2 = "(c_write S STDERR_FILENO [CHR 0x0A] ^^ nat offs) (c_write S STDERR_FILENO (goto_row (height st)) w1)"
    have "crs_scroll (Suc fuel) S st c w = Some (st, c1, pv_crs_unlock S c1 STDERR_FILENO ?w2)"
      using True y(3) zero l(1) unfolding crs_scroll_def i by (simp add: Let_def flip: c1_def) 
    moreover have "shown (pv_crs_unlock S c1 STDERR_FILENO ?w2) =
        shown w @ goto_row (height st) # replicate (nat offs) [CHR 0x0A]"
      by (simp add: log_unlock [OF env] log_newlines [OF env] log_write [OF env] l(2))
    ultimately show ?thesis using zero fits
      by (intro exI [of _ c1] exI [of _ "pv_crs_unlock S c1 STDERR_FILENO ?w2"]
          exI [of _ "goto_row (height st) # replicate (nat offs) [CHR 0x0A]"]) (simp add: c1_def)
  qed
qed

lemma row_bounds: "1 \<le> crs_row_bound y" "crs_row_bound y \<le> 999999"
  by (simp_all add: crs_row_bound_def)

lemma update_log:
  assumes env: "screen_log S shown" and h: "1 \<le> height st" "height st < 2 ^ 31"
    and c: "crs_redo c = 0" "\<not> crs_noipc c"
    and y: "0 \<le> crs_y_start (crs_refresh S c w) + crs_pvmax (crs_refresh S c w)"
      "crs_y_start (crs_refresh S c w) + crs_pvmax (crs_refresh S c w) < 2 ^ 31"
  shows "\<exists>c' w' scroll. pv_crs_update (Suc fuel) S st c s w = Some (st, c', w') \<and>
    shown w' = shown w @ scroll @ [goto_row (crs_row_bound (crs_y_start c' + crs_y_offset c')), s] \<and>
    (scroll \<noteq> [] \<longrightarrow> crs_y_offset c = 0) \<and> crs_y_offset c' = crs_y_offset c \<and>
    (crs_y_start c' = 1 \<or> crs_y_start c' + crs_pvmax c' \<le> height st)"
proof -
  let ?c1 = "crs_refresh S c w"
  have c1: "crs_noipc ?c1 = crs_noipc c" "crs_y_offset ?c1 = crs_y_offset c" "crs_redo ?c1 = crs_redo c"
    by (simp_all add: crs_refresh_def pv_crs_ipccount_def Let_def)
  have "\<not> crs_noipc ?c1" using c c1 by simp
  from scroll_log [OF env h y this, of fuel w] obtain c2 w2 scroll where
    2: "crs_scroll (Suc fuel) S st ?c1 w = Some (st, c2, w2)" "shown w2 = shown w @ scroll"
      "scroll \<noteq> [] \<longrightarrow> crs_y_offset ?c1 = 0" "crs_y_offset c2 = crs_y_offset ?c1" "crs_noipc c2 = crs_noipc ?c1"
      "crs_y_start c2 = 1 \<or> crs_y_start c2 + crs_pvmax c2 \<le> height st" by blast
  obtain w3 where l: "pv_crs_lock (Suc fuel) S st c2 STDERR_FILENO w2 = Some (st, c2, w3)" "shown w3 = shown w2"
    using log_lock [OF env] by blast
  let ?row = "goto_row (crs_row_bound (crs_y_start c2 + crs_y_offset c2))"
  let ?w4 = "c_write S STDERR_FILENO s (c_write S STDERR_FILENO ?row w3)"
  have "pv_crs_update (Suc fuel) S st c s w = Some (st, c2, pv_crs_unlock S c2 STDERR_FILENO ?w4)"
    using c c1 2(1,5) l(1) by (simp add: pv_crs_update_def crs_print_def)
  moreover have "shown (pv_crs_unlock S c2 STDERR_FILENO ?w4) = shown w @ scroll @ [?row, s]"
    by (simp add: log_unlock [OF env] log_write [OF env] l(2) 2(2))
  ultimately show ?thesis using 2(3,4,6) c1(2) by auto
qed

section \<open>A terminal\<close>

text \<open>The row in the segment, the number of attachments, and what was written.\<close>

definition tty_crs :: "(int \<times> nat \<times> string list) syscrs" where
  "tty_crs = \<lparr> c_ttyname = (\<lambda>fd w. (Inr ''/dev/tty1'', w)), c_getenv = (\<lambda>n. None), c_euid = (\<lambda>w. 1000),
     c_open_lock = (\<lambda>n w. (Inr 5, w)), c_open_tty = (\<lambda>n w. (Inr 4, w)), c_close = (\<lambda>fd w. w),
     c_remove = (\<lambda>n w. w), c_setlkw = (\<lambda>fd w. (None, w)), c_unlock = (\<lambda>fd w. w), c_ftok = (\<lambda>f w. 70),
     c_shmget = (\<lambda>k w. (3, w)), c_shmat = (\<lambda>q (y, n, l). (100, (y, n + 1, l))),
     c_shmdt = (\<lambda>a (y, n, l). (y, n - 1, l)), c_nattch = (\<lambda>q (y, n, l). Some (int n)), c_rmid = (\<lambda>q w. w),
     c_peek = (\<lambda>a (y, n, l). y), c_poke = (\<lambda>a v (y, n, l). (v, n, l)),
     c_tcget = (\<lambda>fd w. \<lparr> c_lflag = 0, c_rest = [] \<rparr>), c_tcset = (\<lambda>fd t w. w),
     c_write = (\<lambda>fd s (y, n, l). (y, n, l @ [s])), c_read = (\<lambda>fd w. (None, w)), c_strerror = (\<lambda>e. ''error'') \<rparr>"

lemma tty_shared: "shared_segment tty_crs fst (fst \<circ> snd)"
  by (auto simp: shared_segment_def segment_same_def tty_crs_def)

lemma tty_log: "screen_log tty_crs (snd \<circ> snd)"
  by (auto simp: screen_log_def tty_crs_def)

definition fresh_crs :: crs_state where
  "fresh_crs = \<lparr> crs_shmid = 0, crs_pvcount = 0, crs_pvmax = 0, crs_y_top = 0, crs_y_lastread = 0,
     crs_y_offset = 0, crs_redo = 0, crs_noipc = False, crs_lock_fd = - 2, crs_lock_file = [], crs_y_start = 0 \<rparr>"

definition crs_pv :: pvstate where
  "crs_pv = (the (pv_state_alloc True ''pv''))\<lparr> cursor := True, height := 25, width := 80 \<rparr>"

section \<open>The properties\<close>

text \<open>
  C28. Any number of \<open>pv\<close> started on a terminal, as a pipeline starts them, get a line each: the rows are
  all different, and they are counted from the one row in the segment.
\<close>

theorem pvs_on_own_rows:
  assumes "shared_segment S seg att" "cursor st" "att w = 0" "n < 2 ^ 31"
  shows "\<exists>cs w'. start_pvs (Suc fuel) S st c tty fd n w = Some (cs, w') \<and> length cs = n \<and>
    (\<forall>i < n. crs_y_start (cs ! i) = seg w') \<and> distinct (map (\<lambda>c. crs_y_start c + crs_y_offset c) cs)"
proof -
  obtain cs w' where s: "start_pvs (Suc fuel) S st c tty fd n w = Some (cs, w')" "length cs = n"
    "\<forall>i < n. crs_y_offset (cs ! i) = int i \<and> crs_y_start (cs ! i) = seg w'"
    using start_pvs_rows [OF assms] by blast
  have "distinct (map (\<lambda>c. crs_y_start c + crs_y_offset c) cs)"
    using s(2,3) by (simp add: distinct_conv_nth)
  with s show ?thesis by blast
qed

theorem pvs_on_own_rows_witness:
  "\<exists>cs w'. start_pvs 1 tty_crs crs_pv fresh_crs ''/dev/tty1'' 4 3 (9, 0, []) = Some (cs, w') \<and> length cs = 3 \<and>
    distinct (map (\<lambda>c. crs_y_start c + crs_y_offset c) cs)"
proof -
  have "cursor crs_pv" "(fst \<circ> snd) (9 :: int, 0 :: nat, [] :: string list) = 0" by (simp_all add: crs_pv_def)
  from pvs_on_own_rows [OF tty_shared this, of 3 0 fresh_crs "''/dev/tty1''" 4] show ?thesis by auto
qed

text \<open>
  C29. An update goes to the line of its own \<open>pv\<close>, which is on the screen's range of rows, and only the
  first \<open>pv\<close> scrolls, after which the lines of all of them fit below the first or start at the top.
\<close>

theorem update_own_row:
  assumes "screen_log S shown" "1 \<le> height st" "height st < 2 ^ 31" "crs_redo c = 0" "\<not> crs_noipc c"
    and "0 \<le> crs_y_start (crs_refresh S c w) + crs_pvmax (crs_refresh S c w)"
    and "crs_y_start (crs_refresh S c w) + crs_pvmax (crs_refresh S c w) < 2 ^ 31"
  shows "\<exists>c' w' scroll y. pv_crs_update (Suc fuel) S st c s w = Some (st, c', w') \<and>
    shown w' = shown w @ scroll @ [goto_row y, s] \<and> 1 \<le> y \<and> y \<le> 999999 \<and>
    y = crs_row_bound (crs_y_start c' + crs_y_offset c) \<and> (scroll \<noteq> [] \<longrightarrow> crs_y_offset c = 0) \<and>
    (crs_y_start c' = 1 \<or> crs_y_start c' + crs_pvmax c' \<le> height st)"
proof -
  from update_log [OF assms, of fuel s] obtain c' w' scroll where
    "pv_crs_update (Suc fuel) S st c s w = Some (st, c', w')"
    "shown w' = shown w @ scroll @ [goto_row (crs_row_bound (crs_y_start c' + crs_y_offset c')), s]"
    "scroll \<noteq> [] \<longrightarrow> crs_y_offset c = 0" "crs_y_offset c' = crs_y_offset c"
    "crs_y_start c' = 1 \<or> crs_y_start c' + crs_pvmax c' \<le> height st" by blast
  with row_bounds show ?thesis by fastforce
qed

theorem update_own_row_witness:
  "\<exists>c' w' scroll y. pv_crs_update 1 tty_crs crs_pv (fresh_crs\<lparr> crs_y_offset := 1 \<rparr>) ''abc'' (9, 2, []) = Some (crs_pv, c', w') \<and>
    (snd \<circ> snd) w' = scroll @ [goto_row y, ''abc''] \<and> 1 \<le> y \<and> y \<le> 999999"
proof -
  let ?c = "fresh_crs\<lparr> crs_y_offset := 1 \<rparr>"
  have h: "1 \<le> height crs_pv" "height crs_pv < 2 ^ 31" by (simp_all add: crs_pv_def)
  have c: "crs_redo ?c = 0" "\<not> crs_noipc ?c" by (simp_all add: fresh_crs_def)
  have r: "crs_y_start (crs_refresh tty_crs ?c (9, 2, [])) + crs_pvmax (crs_refresh tty_crs ?c (9, 2, [])) = 11"
    by (simp add: crs_refresh_def pv_crs_ipccount_def Let_def tty_crs_def fresh_crs_def i32_def)
  have b: "0 \<le> crs_y_start (crs_refresh tty_crs ?c (9, 2, [])) + crs_pvmax (crs_refresh tty_crs ?c (9, 2, []))"
    "crs_y_start (crs_refresh tty_crs ?c (9, 2, [])) + crs_pvmax (crs_refresh tty_crs ?c (9, 2, [])) < 2 ^ 31"
    unfolding r by simp_all
  from update_own_row [OF tty_log h c b, of 0 "''abc''"] obtain c' w' scroll y where
    "pv_crs_update (Suc 0) tty_crs crs_pv ?c ''abc'' (9, 2, []) = Some (crs_pv, c', w')"
    "(snd \<circ> snd) w' = (snd \<circ> snd) (9 :: int, 2 :: nat, [] :: string list) @ scroll @ [goto_row y, ''abc'']"
    "1 \<le> y" "y \<le> 999999" by blast
  then show ?thesis by auto
qed

text \<open>
  The line of a new \<open>pv\<close> comes from the number that are there: when one of \<open>k + 1\<close> has left that was
  not the last, the new one gets the last one's line.
\<close>

lemma late_comer_collides:
  assumes "shared_segment S seg att" "cursor st" "att w = Suc k" "k < 2 ^ 30"
  shows "\<exists>c' w'. pv_crs_ipcinit (Suc fuel) S st c tty fd (c_shmdt S a w) = Some (True, st, c', w') \<and>
    crs_y_offset c' = int k"
proof -
  have "att (c_shmdt S a w) = k" using assms(1,3) by (simp add: shared_segment_def)
  with crs_attach [OF assms(1,2), of "c_shmdt S a w" fuel c tty fd] assms(4) show ?thesis by auto
qed

text \<open>
  Without the shared memory the end still works on it: with the identifier that was never set, 0,
  the segment of that number is removed, whosever it is, when less than two are attached to it.
\<close>

lemma fini_without_segment:
  assumes "crs_noipc c" "crs_shmid c = 0" "crs_lock_fd c < 0" "pv_crs_lock fuel S st c STDERR_FILENO w = Some (st, c, w1)"
    and "c_nattch S 0 (c_write S STDERR_FILENO (goto_row (final_row st c) @ [CHR 0x0A]) w1) = Some 1"
  shows "\<exists>w2 c'. pv_crs_fini fuel S st c w = Some (st, c', pv_crs_unlock S c' STDERR_FILENO (c_rmid S 0 w2))"
  using assms by (auto simp: pv_crs_fini_def pv_crs_ipccount_def Let_def i32_def lock_descriptor_def)

end
