(* ===== verification/PvDisplay.thy ===== *)
theory PvDisplay
  imports PvUnits PvCursor
begin

text \<open>
  \<open>tools/pv/src/pv/display.c\<close>: \<open>pv__format\<close>, which puts the line together, and \<open>pv_display\<close>, which
  shows it. The clock, the local time, the class of printable characters, the allocation, the calls
  into the signal and cursor code and the writes to standard error are the parameter \<open>sysdisplay\<close>.
\<close>

record 'w sysdisplay =
  d_isprint :: "nat \<Rightarrow> bool"
  d_now :: "'w \<Rightarrow> int \<times> 'w"
  d_localtime :: "string \<Rightarrow> int \<Rightarrow> string option"
  d_malloc :: "'w \<Rightarrow> bool \<times> 'w"
  d_strerror :: "'w \<Rightarrow> string"
  d_checkbg :: "'w \<Rightarrow> 'w"
  d_crs_update :: "pvstate \<Rightarrow> string \<Rightarrow> 'w \<Rightarrow> pvstate \<times> 'w"
  d_write :: "string \<Rightarrow> 'w \<Rightarrow> 'w"

definition shows_component :: "pvstate \<Rightarrow> nat \<Rightarrow> bool" where
  "shows_component st c \<longleftrightarrow> components_used st AND c \<noteq> 0"

section \<open>Rates and the percentage\<close>

text \<open>
  The rate since the last update. When that was less than a hundredth of a second ago, the rate stays
  and the amount is kept for the next time.
\<close>

definition current_rate :: "rat \<Rightarrow> int \<Rightarrow> pvstate \<Rightarrow> rat \<times> pvstate" where
  "current_rate elapsed_sec bytes_since_last st =
     (let time_since_last = elapsed_sec - prev_elapsed_sec st;
          (rate, st) =
            (if time_since_last \<le> 1 / 100
             then (prev_rate st, st\<lparr> prev_trans := prev_trans st + of_int bytes_since_last \<rparr>)
             else ((of_int bytes_since_last + prev_trans st) / time_since_last,
                   st\<lparr> prev_elapsed_sec := elapsed_sec, prev_trans := 0 \<rparr>))
      in (rate, st\<lparr> prev_rate := rate \<rparr>))"

text \<open>
  The average over the whole transfer, when it is shown or the transfer is over, with the time it is
  taken over and the rate to show.
\<close>

definition overall_rate :: "pvstate \<Rightarrow> rat \<Rightarrow> int \<Rightarrow> int \<Rightarrow> rat \<Rightarrow> rat \<times> rat \<times> rat" where
  "overall_rate st elapsed_sec bytes_since_last total_bytes rate =
     (if bytes_since_last < 0 \<or> shows_component st PV_DISPLAY_AVERAGERATE then
        let elapsed_sec = (if elapsed_sec < 1 / 1000000 then 1 / 1000000 else elapsed_sec);
            average_rate = (of_int total_bytes - of_int (initial_offset st)) / elapsed_sec
        in (elapsed_sec, average_rate, if bytes_since_last < 0 then average_rate else rate)
      else (elapsed_sec, 0, rate))"

definition step_percentage :: "rat \<Rightarrow> int \<Rightarrow> pvstate \<Rightarrow> pvstate" where
  "step_percentage rate total_bytes st =
     (if total_size st \<le> 0 then
        let st = (if 0 < rate then st\<lparr> percentage := percentage st + 2 \<rparr> else st)
        in if 199 < percentage st then st\<lparr> percentage := 0 \<rparr> else st
      else if numeric st \<or> shows_component st PV_DISPLAY_PROGRESS
      then st\<lparr> percentage := pv__calc_percentage total_bytes (i64 (total_size st)) \<rparr>
      else st)"

section \<open>Numbers only\<close>

definition seconds_4 :: "rat \<Rightarrow> string" where
  "seconds_4 r =
     (let t = fixed_point (nat \<bar>round_even (r * 10000)\<bar>) 4
      in if r < 0 then CHR ''-'' # t else t)"

definition numeric_line :: "pvstate \<Rightarrow> rat \<Rightarrow> int \<Rightarrow> string" where
  "numeric_line st elapsed_sec total_bytes =
     take 99 (if shows_component st PV_DISPLAY_TIMER then seconds_4 elapsed_sec @ '' '' else []) @
     itoa (if shows_component st PV_DISPLAY_BYTES then total_bytes
           else if 100 < percentage st then 200 - percentage st else percentage st) @ [CHR 0x0A]"

section \<open>The text of each component\<close>

definition put_str :: "segment_string \<Rightarrow> string \<Rightarrow> pvstate \<Rightarrow> pvstate" where
  "put_str b s st = st\<lparr> str_bufs := (str_bufs st)(b := s) \<rparr>"

definition clear_strings :: "pvstate \<Rightarrow> pvstate" where
  "clear_strings st = st\<lparr> str_bufs := (str_bufs st)(Str_transferred := [], Str_bufpercent := [],
     Str_timer := [], Str_rate := [], Str_average_rate := [], Str_progress := [], Str_lastoutput := [],
     Str_eta := [], Str_fineta := []) \<rparr>"

definition show_bytes :: "int \<Rightarrow> pvstate \<Rightarrow> pvstate" where
  "show_bytes total_bytes st =
     (if shows_component st PV_DISPLAY_BYTES
      then put_str Str_transferred (pv__sizestr [] [] (of_int total_bytes) [] ''B'' (\<not> linemode st)) st
      else st)"

definition show_bufpercent :: "pvstate \<Rightarrow> pvstate" where
  "show_bufpercent st =
     (if shows_component st PV_DISPLAY_BUFPERCENT then
        let st = (if 0 < buffer_size st
                  then put_str Str_bufpercent
                    (''{'' @ pad_left 3 (itoa (pv__calc_percentage
                       (i64 (int (read_position st) - int (write_position st))) (i64 (int (buffer_size st))))) @
                     CHR ''%'' # ''}'') st
                  else st)
        in if splice_used st then put_str Str_bufpercent ''{----}'' st else st
      else st)"

definition hms :: "int \<Rightarrow> int \<Rightarrow> int \<Rightarrow> string" where
  "hms h m s = itoa h @ CHR '':'' # zero_pad 2 m @ CHR '':'' # zero_pad 2 s"

definition show_timer :: "rat \<Rightarrow> pvstate \<Rightarrow> rat \<times> pvstate" where
  "show_timer elapsed_sec st =
     (if shows_component st PV_DISPLAY_TIMER then
        let elapsed_sec = (if 360000000 < elapsed_sec then 360000000 else elapsed_sec);
            t = to_long elapsed_sec
        in (elapsed_sec, put_str Str_timer (hms (t sdiv 3600) ((t sdiv 60) smod 60) (t smod 60)) st)
      else (elapsed_sec, st))"

definition show_rate :: "nat \<Rightarrow> segment_string \<Rightarrow> rat \<Rightarrow> pvstate \<Rightarrow> pvstate" where
  "show_rate component b rate st =
     (if shows_component st component
      then put_str b (pv__sizestr ''['' '']'' rate ''/s'' ''B/s'' (\<not> linemode st)) st
      else st)"

definition show_lastoutput :: "'w sysdisplay \<Rightarrow> pvstate \<Rightarrow> pvstate" where
  "show_lastoutput D st =
     (if shows_component st PV_DISPLAY_OUTPUTBUF
      then put_str Str_lastoutput
        (map (\<lambda>c. if d_isprint D (unat c) then char_of (unat c) else CHR ''.'') (take (lastoutput_length st) (lastoutput_buffer st))) st
      else st)"

text \<open>The seconds until the end, both for the countdown and for the time of day.\<close>

definition time_left :: "rat \<Rightarrow> int \<Rightarrow> pvstate \<Rightarrow> int" where
  "time_left elapsed_sec total_bytes st =
     bound_long (pv__calc_eta (i64 (total_bytes - initial_offset st)) (i64 (total_size st - initial_offset st))
       (to_long elapsed_sec)) 0 360000000"

definition eta_text :: "int \<Rightarrow> string" where
  "eta_text eta =
     ''ETA '' @ (if 86400 < eta
       then itoa (eta sdiv 86400) @ CHR '':'' # zero_pad 2 ((eta sdiv 3600) smod 24) @ CHR '':'' #
         zero_pad 2 ((eta sdiv 60) smod 60) @ CHR '':'' # zero_pad 2 (eta smod 60)
       else hms (eta sdiv 3600) ((eta sdiv 60) smod 60) (eta smod 60))"

definition show_eta :: "rat \<Rightarrow> int \<Rightarrow> int \<Rightarrow> pvstate \<Rightarrow> pvstate" where
  "show_eta elapsed_sec bytes_since_last total_bytes st =
     (if shows_component st PV_DISPLAY_ETA \<and> 0 < total_size st then
        let t = eta_text (time_left elapsed_sec total_bytes st)
        in put_str Str_eta (if bytes_since_last < 0 then map (\<lambda>_. CHR '' '') t else t) st
      else st)"

definition show_fineta :: "'w sysdisplay \<Rightarrow> rat \<Rightarrow> int \<Rightarrow> pvstate \<Rightarrow> 'w \<Rightarrow> pvstate \<times> 'w" where
  "show_fineta D elapsed_sec total_bytes st w =
     (if shows_component st PV_DISPLAY_FINETA \<and> 0 < total_size st then
        (case d_now D w of (now, w) \<Rightarrow>
           let eta = time_left elapsed_sec total_bytes st;
               time_format = (if 6 * 3600 < eta then ''%Y-%m-%d %H:%M:%S'' else ''%H:%M:%S'')
           in case d_localtime D time_format (now + eta) of
                None \<Rightarrow> (st, w)
              | Some t \<Rightarrow> (put_str Str_fineta (''ETA '' @ t) st, w))
      else (st, w))"


definition show_strings ::
  "'w sysdisplay \<Rightarrow> rat \<Rightarrow> rat \<Rightarrow> rat \<Rightarrow> int \<Rightarrow> int \<Rightarrow> pvstate \<Rightarrow> 'w \<Rightarrow> pvstate \<times> 'w" where
  "show_strings D elapsed_sec rate average_rate bytes_since_last total_bytes st w =
     (let st = show_bufpercent (show_bytes total_bytes (clear_strings st))
      in case show_timer elapsed_sec st of
           (elapsed_sec, st) \<Rightarrow>
             let st = show_rate PV_DISPLAY_RATE Str_rate rate st;
                 st = show_rate PV_DISPLAY_AVERAGERATE Str_average_rate average_rate st;
                 st = show_lastoutput D st;
                 st = show_eta elapsed_sec bytes_since_last total_bytes st
             in show_fineta D elapsed_sec total_bytes st w)"

section \<open>The line\<close>

text \<open>A display buffer for the width; the allocation may fail.\<close>

definition make_room :: "'w sysdisplay \<Rightarrow> pvstate \<Rightarrow> 'w \<Rightarrow> bool \<times> pvstate \<times> 'w" where
  "make_room D st w =
     (if (case display_buffer_size st of None \<Rightarrow> False | Some n \<Rightarrow> width st * 2 \<le> n) then (True, st, w)
      else
        (case d_malloc D w of
           (True, w) \<Rightarrow> (True, alloc_display st, w)
         | (False, w) \<Rightarrow>
             let st = pv_error (''buffer allocation failed: '' @ d_strerror D w) (st\<lparr> display_buffer_size := None \<rparr>)
             in (False, st\<lparr> exit_status := exit_status st OR 64 \<rparr>, w)))"

definition show_bar :: "pvstate \<Rightarrow> pvstate" where
  "show_bar st =
     (if shows_component st PV_DISPLAY_PROGRESS then progress_bar (static_portion st (segments st)) st else st)"

definition pv__format ::
  "'w sysdisplay \<Rightarrow> pvstate \<Rightarrow> rat \<Rightarrow> int \<Rightarrow> int \<Rightarrow> 'w \<Rightarrow> string option \<times> pvstate \<times> 'w" where
  "pv__format D st elapsed_sec bytes_since_last total_bytes w =
     (if total_bytes < 0 then (None, st\<lparr> display_buffer_size := None \<rparr>, w)
      else
        (case current_rate elapsed_sec bytes_since_last st of (rate, st) \<Rightarrow>
         case overall_rate st elapsed_sec bytes_since_last total_bytes rate of (elapsed_sec, average_rate, rate) \<Rightarrow>
         case make_room D (step_percentage rate total_bytes st) w of
           (False, st, w) \<Rightarrow> (None, st, w)
         | (True, st, w) \<Rightarrow>
             if numeric st then (Some (numeric_line st elapsed_sec total_bytes), st, w)
             else
               (case show_strings D elapsed_sec rate average_rate bytes_since_last total_bytes st w of
                  (st, w) \<Rightarrow> case build_display (show_bar st) of (out, st) \<Rightarrow> (Some out, st, w))))"

definition pv_display :: "'w sysdisplay \<Rightarrow> pvstate \<Rightarrow> rat \<Rightarrow> int \<Rightarrow> int \<Rightarrow> 'w \<Rightarrow> pvstate \<times> 'w" where
  "pv_display D st esec sl tot w =
     (let st = (if reparse_display st then (pv__format_init st)\<lparr> reparse_display := False \<rparr> else st)
      in case pv__format D st esec sl tot (d_checkbg D w) of
           (None, st, w) \<Rightarrow> (st, w)
         | (Some display, st, w) \<Rightarrow>
             if numeric st then (st, d_write D display w)
             else if cursor st then
               (case d_crs_update D st display w of (st, w) \<Rightarrow> (st\<lparr> display_visible := True \<rparr>, w))
             else (st\<lparr> display_visible := True \<rparr>, d_write D [CHR 0x0D] (d_write D display w)))"

section \<open>What the parts leave alone\<close>

text \<open>Everything up to the line changes only what \<open>veil\<close> hides.\<close>

definition veil :: "pvstate \<Rightarrow> pvstate" where
  "veil st = st\<lparr> percentage := 0, str_bufs := (\<lambda>_. []), prev_elapsed_sec := 0, prev_rate := 0, prev_trans := 0 \<rparr>"

lemma veil_updates [simp]:
  "veil (st\<lparr> percentage := p \<rparr>) = veil st" "veil (st\<lparr> str_bufs := f \<rparr>) = veil st"
  "veil (st\<lparr> prev_elapsed_sec := e \<rparr>) = veil st" "veil (st\<lparr> prev_rate := r \<rparr>) = veil st"
  "veil (st\<lparr> prev_trans := r \<rparr>) = veil st" "veil (put_str b s st) = veil st" "veil (clear_strings st) = veil st"
  by (simp_all add: veil_def put_str_def clear_strings_def)

lemma veil_fields:
  assumes "veil st' = veil st"
  shows "width st' = width st" "prev_length st' = prev_length st" "prev_width st' = prev_width st"
    "display_buffer_size st' = display_buffer_size st" "segments st' = segments st" "numeric st' = numeric st"
    "components_used st' = components_used st" "total_size st' = total_size st"
    "initial_offset st' = initial_offset st" "linemode st' = linemode st" "pv_name st' = pv_name st"
    "lastoutput_length st' = lastoutput_length st"
  using arg_cong [OF assms, of width] arg_cong [OF assms, of prev_length] arg_cong [OF assms, of prev_width]
    arg_cong [OF assms, of display_buffer_size] arg_cong [OF assms, of segments] arg_cong [OF assms, of numeric]
    arg_cong [OF assms, of components_used] arg_cong [OF assms, of total_size]
    arg_cong [OF assms, of initial_offset] arg_cong [OF assms, of linemode] arg_cong [OF assms, of pv_name]
    arg_cong [OF assms, of lastoutput_length]
  by (simp_all add: veil_def)

lemma current_rate_veil: "current_rate e n st = (r, st') \<Longrightarrow> veil st' = veil st"
  by (auto simp: current_rate_def Let_def split: if_splits)

lemma step_percentage_veil [simp]: "veil (step_percentage r n st) = veil st"
  by (simp add: step_percentage_def Let_def)

lemma show_veil [simp]:
  "veil (show_bytes n st) = veil st" "veil (show_bufpercent st) = veil st" "veil (show_rate c b r st) = veil st"
  "veil (show_lastoutput D st) = veil st" "veil (show_eta e m n st) = veil st" "veil (show_bar st) = veil st"
  by (simp_all add: show_bytes_def show_bufpercent_def show_rate_def show_lastoutput_def show_eta_def
      show_bar_def progress_bar_def Let_def)

lemma show_timer_veil: "show_timer e st = (e', st') \<Longrightarrow> veil st' = veil st"
  by (auto simp: show_timer_def Let_def split: if_splits)

lemma show_fineta_veil: "show_fineta D e n st w = (st', w') \<Longrightarrow> veil st' = veil st"
  by (auto simp: show_fineta_def Let_def split: if_splits prod.splits option.splits)

lemma show_strings_veil:
  assumes "show_strings D e r a m n st w = (st', w')"
  shows "veil st' = veil st"
proof -
  let ?st = "show_bufpercent (show_bytes n (clear_strings st))"
  obtain e1 st1 where t: "show_timer e ?st = (e1, st1)" by (rule prod.exhaust)
  let ?st1 = "show_eta e1 m n (show_lastoutput D
    (show_rate PV_DISPLAY_AVERAGERATE Str_average_rate a (show_rate PV_DISPLAY_RATE Str_rate r st1)))"
  have "show_fineta D e1 n ?st1 w = (st', w')"
    using assms t by (simp add: show_strings_def Let_def)
  then have "veil st' = veil ?st1" by (rule show_fineta_veil)
  also have "\<dots> = veil st" using show_timer_veil [OF t] by simp
  finally show ?thesis .
qed

section \<open>The line is complete\<close>

text \<open>What a segment contributes when nothing is cut off, and the length it is counted with.\<close>

definition piece :: "pvstate \<Rightarrow> segment \<Rightarrow> string" where
  "piece st seg = (case seg of (b, n) \<Rightarrow> if 0 < n then take (nat n) (segment_text st b) else segment_text st b)"

definition counted :: "pvstate \<Rightarrow> segment \<Rightarrow> int" where
  "counted st seg = (case seg of (b, n) \<Rightarrow> if 0 < n then n else int (length (segment_text st b)))"

lemma counted_nonneg: "0 \<le> counted st seg"
  by (simp add: counted_def split: prod.split)

lemma assemble_whole:
  assumes "shown + (\<Sum>s \<leftarrow> segs. counted st s) \<le> width st" "shown + (\<Sum>s \<leftarrow> segs. counted st s) \<le> bufsize - 2"
  shows "assemble st bufsize segs shown out = out @ concat (map (piece st) segs)"
  using assms
proof (induction st bufsize segs shown out rule: assemble.induct)
  case (1 st bufsize shown out)
  then show ?case by simp
next
  case (2 st bufsize b n segs shown out)
  have k: "(if n > 0 then n else int (length (segment_text st b))) = counted st (b, n)" by (simp add: counted_def)
  have rest: "0 \<le> (\<Sum>s \<leftarrow> segs. counted st s)" by (rule sum_list_nonneg) (auto simp: counted_nonneg)
  show ?case
  proof (cases "counted st (b, n) = 0")
    case True
    then have "segment_text st b = []" "\<not> 0 < n" by (auto simp: counted_def split: if_splits)
    then have "piece st (b, n) = []" by (simp add: piece_def)
    moreover have "assemble st bufsize ((b, n) # segs) shown out = assemble st bufsize segs shown out"
      using True k by (simp add: assemble.simps(2))
    ultimately show ?thesis using 2(1) [OF k [symmetric] True] 2(3,4) True by simp
  next
    case False
    then have pos: "1 \<le> counted st (b, n)" using counted_nonneg [of st "(b, n)"] by simp
    have fit: "\<not> counted st (b, n) + shown > bufsize - 2" "\<not> counted st (b, n) + shown > width st"
      using 2(3,4) rest by simp_all
    have "piece st (b, n) = take (nat (counted st (b, n))) (segment_text st b)"
      by (simp add: piece_def counted_def)
    then show ?thesis
      using 2(2) [OF k [symmetric] False, of "counted st (b, n)"] 2(3,4) pos fit False
      unfolding assemble.simps(2) k Let_def by (simp add: add.commute add.left_commute)
  qed
qed


lemma make_room_ok:
  assumes "make_room D st w = (True, st', w')" "display_inv st" "0 \<le> width st"
  shows "\<exists>n. st' = st\<lparr> display_buffer_size := Some n \<rparr> \<and> 80 \<le> n \<and> width st + 2 \<le> n"
proof (cases "case display_buffer_size st of None \<Rightarrow> False | Some n \<Rightarrow> width st * 2 \<le> n")
  case True
  with assms have "st' = st" by (simp add: make_room_def)
  from True obtain n where n: "display_buffer_size st = Some n" "width st * 2 \<le> n" by (cases "display_buffer_size st") auto
  have "st' = st\<lparr> display_buffer_size := Some n \<rparr>" using \<open>st' = st\<close> by (simp flip: n(1))
  moreover have "80 \<le> n" using assms(2) n(1) by (simp add: display_inv_def)
  moreover have "width st + 2 \<le> n" using n(2) \<open>80 \<le> n\<close> by linarith
  ultimately show ?thesis by blast
next
  case False
  with assms(1) have "st' = alloc_display st" by (auto simp: make_room_def Let_def split: prod.splits bool.splits)
  moreover have "alloc_display st = st\<lparr> display_buffer_size :=
      Some (2 * width st + 80 + (case pv_name st of None \<Rightarrow> 0 | Some s \<Rightarrow> int (length s))) \<rparr>"
    using False by (cases "display_buffer_size st") (simp_all add: alloc_display_def Let_def)
  moreover have "0 \<le> (case pv_name st of None \<Rightarrow> 0 | Some s \<Rightarrow> int (length s))" by (simp split: option.split)
  ultimately show ?thesis using assms(3)
    by (intro exI [of _ "2 * width st + 80 + (case pv_name st of None \<Rightarrow> 0 | Some s \<Rightarrow> int (length s))"] conjI)
      (assumption | simp)+
qed

lemma build_display_fits:
  assumes "build_display st = (out, st')" "display_buffer_size st = Some n" "80 \<le> n" "0 \<le> width st"
    and "0 \<le> prev_length st" "prev_length st \<le> prev_width st"
  shows "int (length out) \<le> width st" "int (length out) + 1 \<le> n + 16"
    "st' = st\<lparr> prev_width := width st, prev_length := int (length out) \<rparr>"
proof -
  let ?o = "assemble st n (segments st) 0 []"
  have "int (length ?o) \<le> n - 2 \<and> int (length ?o) \<le> width st"
    using assemble_length [of "[]" 0 n st "segments st"] assms(3,4) by simp
  then show "int (length out) \<le> width st" "int (length out) + 1 \<le> n + 16"
      "st' = st\<lparr> prev_width := width st, prev_length := int (length out) \<rparr>"
    using assms by (auto simp: build_display_def Let_def min_def)
qed

lemma pv__formatE:
  assumes "pv__format D st e s t w = (Some out, st', w')" "\<not> numeric st" "display_inv st" "0 \<le> width st"
  obtains st1 n e1 r a w1 st2 w2 where
    "veil st1 = veil (st\<lparr> display_buffer_size := Some n \<rparr>)" "80 \<le> n" "width st + 2 \<le> n"
    "show_strings D e1 r a s t st1 w1 = (st2, w2)" "build_display (show_bar st2) = (out, st')" "w' = w2"
    "str_bufs st1 = str_bufs st" "e \<le> e1"
proof -
  obtain r0 sta where c: "current_rate e s st = (r0, sta)" by (rule prod.exhaust)
  obtain e1 a r where o: "overall_rate sta e s t r0 = (e1, a, r)" by (rule prod_cases3)
  obtain ok st1 w1 where m: "make_room D (step_percentage r t sta) w = (ok, st1, w1)" by (rule prod_cases3)
  have same: "veil (step_percentage r t sta) = veil st" using current_rate_veil [OF c] by simp
  note f = veil_fields [OF same]
  have ok: "ok" using assms(1) c o m by (cases ok) (auto simp: pv__format_def split: if_splits)
  from m [unfolded ok [THEN eq_True [THEN iffD2]]] make_room_ok [of D "step_percentage r t sta" w st1 w1]
  have "\<exists>n. st1 = (step_percentage r t sta)\<lparr> display_buffer_size := Some n \<rparr> \<and> 80 \<le> n \<and> width st + 2 \<le> n"
    using assms(3,4) f by (simp add: display_inv_def ok)
  then obtain n where n: "st1 = (step_percentage r t sta)\<lparr> display_buffer_size := Some n \<rparr>" "80 \<le> n" "width st + 2 \<le> n"
    by blast
  have "veil st1 = (veil (step_percentage r t sta))\<lparr> display_buffer_size := Some n \<rparr>" by (simp add: n(1) veil_def)
  also have "\<dots> = veil (st\<lparr> display_buffer_size := Some n \<rparr>)" unfolding same by (simp add: veil_def)
  finally have v: "veil st1 = veil (st\<lparr> display_buffer_size := Some n \<rparr>)" .
  have num: "\<not> numeric st1" using veil_fields(6) [OF v] assms(2) by simp
  obtain st2 w2 where s: "show_strings D e1 r a s t st1 w1 = (st2, w2)" by (rule prod.exhaust)
  obtain out1 st3 where b: "build_display (show_bar st2) = (out1, st3)" by (rule prod.exhaust)
  have "(Some out1, st3, w2) = (Some out, st', w')"
    using assms(1) c o m ok num s b by (auto simp: pv__format_def split: if_splits)
  moreover have "str_bufs st1 = str_bufs st"
    using c by (auto simp: n(1) current_rate_def step_percentage_def Let_def split: if_splits)
  moreover have "e \<le> e1" using o by (auto simp: overall_rate_def Let_def split: if_splits)
  ultimately show ?thesis using that [OF v n(2,3) s] b by simp
qed

text \<open>
  C33. The line fits the screen and its buffer, NUL included, and what the next call relies on holds again:
  whatever the amounts, the rates, the times and the format.
\<close>

theorem format_fits:
  assumes "pv__format D st e s t w = (Some out, st', w')" "\<not> numeric st" "display_inv st" "0 \<le> width st"
  shows "int (length out) \<le> width st \<and> display_inv st' \<and> width st' = width st \<and>
    (\<exists>n. display_buffer_size st' = Some n \<and> int (length out) + 1 \<le> n + 16)"
proof -
  obtain st1 n e1 r a w1 st2 w2 where *: "veil st1 = veil (st\<lparr> display_buffer_size := Some n \<rparr>)" "80 \<le> n"
    "width st + 2 \<le> n" "show_strings D e1 r a s t st1 w1 = (st2, w2)" "build_display (show_bar st2) = (out, st')"
    using pv__formatE [OF assms] by metis
  have "veil (show_bar st2) = veil (st\<lparr> display_buffer_size := Some n \<rparr>)"
    using show_strings_veil [OF *(4)] *(1) by simp
  note f = veil_fields [OF this]
  have b: "display_buffer_size (show_bar st2) = Some n" "0 \<le> width (show_bar st2)"
    "0 \<le> prev_length (show_bar st2)" "prev_length (show_bar st2) \<le> prev_width (show_bar st2)"
    using assms(3,4) f by (simp_all add: display_inv_def)
  note fit = build_display_fits [OF *(5) b(1) *(2) b(2,3,4)]
  then show ?thesis using f *(2) by (simp add: display_inv_def)
qed


lemma counted_total:
  assumes "\<forall>(b, n) \<in> set segs. n < 0 \<longleftrightarrow> b = Str_progress" "\<forall>b. b \<noteq> Str_progress \<longrightarrow> str_bufs st' b = str_bufs st b"
  shows "(\<Sum>s \<leftarrow> segs. counted st' s) =
    static_portion st segs + int (length (filter (\<lambda>s. fst s = Str_progress) segs)) * int (length (str_bufs st' Str_progress))"
  using assms(1)
proof (induction segs)
  case (Cons seg segs)
  obtain b n where seg: "seg = (b, n)" by (rule prod.exhaust)
  have "segment_text st' b = segment_text st b" if "b \<noteq> Str_progress"
    using assms(2) that by (simp add: segment_text_def split: segment_string.split)
  moreover have "segment_text st' Str_progress = str_bufs st' Str_progress" by (simp add: segment_text_def)
  ultimately show ?case using Cons seg by (cases "b = Str_progress") (auto simp: counted_def algebra_simps)
qed simp

lemma show_bar_text:
  assumes "shows_component st PV_DISPLAY_PROGRESS"
  shows "b \<noteq> Str_progress \<Longrightarrow> str_bufs (show_bar st) b = str_bufs st b"
    "str_bufs (show_bar st) Str_progress = [] \<or>
     int (length (str_bufs (show_bar st) Str_progress)) + static_portion st (segments st) \<le> width st"
  using assms progress_bar_fits [of "static_portion st (segments st)" st]
  by (auto simp: show_bar_def progress_bar_def Let_def)

text \<open>
  C34. Whenever the bar is on the line, so is everything else, whole and in the order of the format, with
  nothing behind it but the blanks that wipe a longer line.
\<close>

theorem bar_means_all:
  assumes "pv__format D st e s t w = (Some out, st', w')" "\<not> numeric st" "display_inv st" "0 \<le> width st"
    and "shows_component st PV_DISPLAY_PROGRESS" "str_bufs st' Str_progress \<noteq> []"
    and "\<forall>(b, n) \<in> set (segments st). n < 0 \<longleftrightarrow> b = Str_progress"
    and "length (filter (\<lambda>s. fst s = Str_progress) (segments st)) = 1"
  shows "\<exists>k. out = concat (map (piece st') (segments st)) @ blanks k"
proof -
  obtain st1 n e1 r a w1 st2 w2 where *: "veil st1 = veil (st\<lparr> display_buffer_size := Some n \<rparr>)" "80 \<le> n"
    "width st + 2 \<le> n" "show_strings D e1 r a s t st1 w1 = (st2, w2)" "build_display (show_bar st2) = (out, st')"
    using pv__formatE [OF assms(1-4)] by metis
  have v2: "veil st2 = veil (st\<lparr> display_buffer_size := Some n \<rparr>)" using show_strings_veil [OF *(4)] *(1) by simp
  then have v: "veil (show_bar st2) = veil (st\<lparr> display_buffer_size := Some n \<rparr>)" by simp
  note f2 = veil_fields [OF v2] and f = veil_fields [OF v]
  have b: "display_buffer_size (show_bar st2) = Some n" "0 \<le> width (show_bar st2)"
    "0 \<le> prev_length (show_bar st2)" "prev_length (show_bar st2) \<le> prev_width (show_bar st2)"
    using assms(3,4) f by (simp_all add: display_inv_def)
  have st': "st' = (show_bar st2)\<lparr> prev_width := width (show_bar st2), prev_length := int (length out) \<rparr>"
    by (rule build_display_fits(3) [OF *(5) b(1) *(2) b(2,3,4)])
  have p: "shows_component st2 PV_DISPLAY_PROGRESS" using assms(5) f2(7) by (simp add: shows_component_def)
  have "str_bufs (show_bar st2) Str_progress \<noteq> []" using assms(6) st' by simp
  with show_bar_text(2) [OF p] have
    "int (length (str_bufs (show_bar st2) Str_progress)) + static_portion st2 (segments st) \<le> width st"
    using f2(1,5) by simp
  moreover have "(\<Sum>x \<leftarrow> segments st. counted (show_bar st2) x) =
      static_portion st2 (segments st) + int (length (str_bufs (show_bar st2) Str_progress))"
    using counted_total [OF assms(7), where st = st2 and st' = "show_bar st2"] show_bar_text(1) [OF p] assms(8) by simp
  ultimately have "assemble (show_bar st2) n (segments st) 0 [] = concat (map (piece (show_bar st2)) (segments st))"
    using assemble_whole [where shown = 0 and segs = "segments st" and st = "show_bar st2" and bufsize = n and out = "[]"]
      f(1) *(3) by simp
  moreover have "piece (show_bar st2) = piece st'"
    by (auto simp: st' piece_def segment_text_def fun_eq_iff split: segment_string.split)
  ultimately show ?thesis using *(5) b(1) f(5) by (auto simp: build_display_def Let_def)
qed

section \<open>The texts fit their buffers\<close>

definition buf_size :: "segment_string \<Rightarrow> nat" where
  "buf_size b = (case b of Str_name \<Rightarrow> 512 | Str_progress \<Rightarrow> 1024 | Str_lastoutput \<Rightarrow> 512 | Text s \<Rightarrow> 0 | _ \<Rightarrow> 128)"

definition texts_ok :: "pvstate \<Rightarrow> bool" where
  "texts_ok st \<longleftrightarrow> (\<forall>b. 0 < buf_size b \<longrightarrow> length (str_bufs st b) < buf_size b)"

lemma put_str_ok: "texts_ok st \<Longrightarrow> length s < buf_size b \<Longrightarrow> texts_ok (put_str b s st)"
  by (simp add: texts_ok_def put_str_def)

lemma length_itoa: "\<bar>n\<bar> < 10 ^ k \<Longrightarrow> 0 < k \<Longrightarrow> length (itoa n) \<le> Suc k"
  using length_natoa [of "nat \<bar>n\<bar>" k] by (auto simp: itoa_def nat_less_iff abs_if split: if_splits)

lemma abs_sdiv: "\<bar>a sdiv b\<bar> \<le> \<bar>a :: int\<bar>"
  using sdiv_int_range [of a b] by auto

lemma abs_smod: "0 < b \<Longrightarrow> \<bar>a smod b\<bar> < (b :: int)"
  using smod_int_compares(1-4) [of a b] by (cases "0 \<le> a") auto

lemma length_zero_pad_2: "\<bar>n\<bar> < 100 \<Longrightarrow> length (zero_pad 2 n) \<le> 3"
  using length_natoa [of "nat \<bar>n\<bar>" 2] by (auto simp: zero_pad_def nat_less_iff abs_if split: if_splits)


lemma length_hms:
  assumes "\<bar>h\<bar> < 10 ^ 20" "\<bar>m\<bar> < 100" "\<bar>s\<bar> < 100"
  shows "length (hms h m s) \<le> 29"
  using length_itoa [OF assms(1)] length_zero_pad_2 [OF assms(2)] length_zero_pad_2 [OF assms(3)]
  by (simp add: hms_def)

lemma length_sizestr: "length (pv__sizestr l r a x y b) < 128"
proof -
  have "\<exists>z. pv__sizestr l r a x y b = take 127 z"
    unfolding pv__sizestr_def Let_def by (simp only: split_def) blast
  then show ?thesis by auto
qed

lemma to_long_range:
  assumes "of_int a \<le> r" "r \<le> of_int b" "a \<le> 0" "0 \<le> b"
  shows "a \<le> to_long r \<and> to_long r \<le> b"
  using assms unfolding to_long_def by (auto; linarith)

lemma time_left_range: "0 \<le> time_left e n st" "time_left e n st \<le> 360000000"
  by (simp_all add: time_left_def bound_long_def)

lemma clear_strings_ok: "length (str_bufs st Str_name) < 512 \<Longrightarrow> texts_ok (clear_strings st)"
  by (auto simp: texts_ok_def clear_strings_def buf_size_def split: segment_string.split)

lemma show_bytes_ok: "texts_ok st \<Longrightarrow> texts_ok (show_bytes n st)"
  using length_sizestr by (auto simp: show_bytes_def buf_size_def intro!: put_str_ok)

lemma show_rate_ok: "texts_ok st \<Longrightarrow> buf_size b = 128 \<Longrightarrow> texts_ok (show_rate c b r st)"
  using length_sizestr by (auto simp: show_rate_def intro!: put_str_ok)

lemma show_bufpercent_ok:
  assumes "texts_ok st"
  shows "texts_ok (show_bufpercent st)"
proof -
  define n where "n = pv__calc_percentage (i64 (int (read_position st) - int (write_position st))) (i64 (int (buffer_size st)))"
  have "\<bar>i64 x\<bar> \<le> 2 ^ 63" for x using i64_in [of x] by (auto simp: in_i64_def)
  then have "\<bar>n\<bar> \<le> 2 ^ 63"
    unfolding n_def pv__calc_percentage_def using abs_sdiv order_trans by (auto split: if_splits) blast
  then have "length (itoa n) \<le> 21" using length_itoa [of n 20] by simp
  then have "length (''{'' @ pad_left 3 (itoa n) @ CHR ''%'' # ''}'') < 128" by (simp add: pad_left_def)
  then show ?thesis using assms
    unfolding show_bufpercent_def n_def [symmetric] Let_def
    by (auto simp: buf_size_def intro!: put_str_ok)
qed

lemma show_timer_ok:
  assumes "texts_ok st" "show_timer e st = (e', st')" "- (10 ^ 12) \<le> e"
  shows "texts_ok st'"
proof (cases "shows_component st PV_DISPLAY_TIMER")
  case True
  define c where "c = (if 360000000 < e then 360000000 else e)"
  define t where "t = to_long c"
  have "- (10 ^ 12) \<le> c" "c \<le> 10 ^ 12" using assms(3) by (auto simp: c_def)
  with to_long_range [of "- (10 ^ 12)" c "10 ^ 12"] have "\<bar>t\<bar> \<le> 10 ^ 12" by (simp add: t_def abs_le_iff)
  then have "\<bar>t sdiv 3600\<bar> < 10 ^ 20" using abs_sdiv [of t 3600] by simp
  then have "length (hms (t sdiv 3600) ((t sdiv 60) smod 60) (t smod 60)) \<le> 29"
    using abs_smod [of 60 "t sdiv 60"] abs_smod [of 60 t] by (intro length_hms) simp_all
  then show ?thesis using assms(1,2) True
    by (auto simp: show_timer_def Let_def t_def [symmetric] c_def [symmetric] buf_size_def intro!: put_str_ok)
next
  case False
  with assms show ?thesis by (simp add: show_timer_def)
qed

lemma show_lastoutput_ok: "texts_ok st \<Longrightarrow> lastoutput_length st \<le> 256 \<Longrightarrow> texts_ok (show_lastoutput D st)"
  by (auto simp: show_lastoutput_def buf_size_def intro!: put_str_ok)

lemma length_eta_text: "0 \<le> t \<Longrightarrow> t \<le> 360000000 \<Longrightarrow> length (eta_text t) \<le> 40"
  using length_hms [of "t sdiv 3600" "(t sdiv 60) smod 60" "t smod 60"] length_itoa [of "t sdiv 86400" 20]
    length_zero_pad_2 [of "(t sdiv 3600) smod 24"] length_zero_pad_2 [of "(t sdiv 60) smod 60"]
    length_zero_pad_2 [of "t smod 60"] abs_sdiv [of t 3600] abs_sdiv [of t 86400] abs_smod [of 60 "t sdiv 60"]
    abs_smod [of 60 t] abs_smod [of 24 "t sdiv 3600"]
  by (simp add: eta_text_def)

lemma show_eta_ok: "texts_ok st \<Longrightarrow> texts_ok (show_eta e m n st)"
proof -
  assume "texts_ok st"
  moreover have "length (eta_text (time_left e n st)) < 128"
    using length_eta_text [OF time_left_range, of e n st] by simp
  ultimately show ?thesis by (auto simp: show_eta_def Let_def buf_size_def intro!: put_str_ok)
qed

lemma show_fineta_ok:
  assumes "texts_ok st" "show_fineta D e n st w = (st', w')" "\<And>f t x. d_localtime D f t = Some x \<Longrightarrow> length x \<le> 122"
  shows "texts_ok st'"
proof -
  have "length (''ETA '' @ x) < buf_size Str_fineta" if "d_localtime D f t = Some x" for f t x
    using assms(3) [OF that] by (simp add: buf_size_def)
  then show ?thesis using assms(1,2)
    by (auto simp: show_fineta_def Let_def split: if_splits prod.splits option.splits intro!: put_str_ok)
qed


lemma show_strings_ok:
  assumes "show_strings D e r a m n st w = (st', w')" "length (str_bufs st Str_name) < 512"
    and "lastoutput_length st \<le> 256" "- (10 ^ 12) \<le> e" "\<And>f t x. d_localtime D f t = Some x \<Longrightarrow> length x \<le> 122"
  shows "texts_ok st'"
proof -
  let ?st = "show_bufpercent (show_bytes n (clear_strings st))"
  obtain e1 st1 where t: "show_timer e ?st = (e1, st1)" by (rule prod.exhaust)
  let ?st1 = "show_rate PV_DISPLAY_AVERAGERATE Str_average_rate a (show_rate PV_DISPLAY_RATE Str_rate r st1)"
  have "texts_ok ?st" by (intro show_bufpercent_ok show_bytes_ok clear_strings_ok assms(2))
  then have "texts_ok st1" using t assms(4) by (rule show_timer_ok)
  then have "texts_ok ?st1" by (intro show_rate_ok) (simp_all add: buf_size_def)
  moreover have "veil ?st1 = veil st" using show_timer_veil [OF t] by simp
  then have "lastoutput_length ?st1 \<le> 256" using veil_fields(12) assms(3) by metis
  ultimately have "texts_ok (show_eta e1 m n (show_lastoutput D ?st1))"
    by (intro show_eta_ok show_lastoutput_ok)
  moreover have "show_fineta D e1 n (show_eta e1 m n (show_lastoutput D ?st1)) w = (st', w')"
    using assms(1) t by (simp add: show_strings_def Let_def)
  ultimately show ?thesis using assms(5) by (rule show_fineta_ok)
qed

lemma show_bar_ok: "texts_ok st \<Longrightarrow> texts_ok (show_bar st)"
  using progress_bar_fits [of "static_portion st (segments st)" st]
  by (auto simp: texts_ok_def show_bar_def progress_bar_def Let_def buf_size_def split: if_splits)

text \<open>
  C35. No text overruns its buffer, NUL included: whatever the amounts and rates, the percentages, the
  clock, and the times, if less than 30000 years before the start.
\<close>

theorem texts_fit:
  assumes "pv__format D st e s t w = (Some out, st', w')" "\<not> numeric st" "display_inv st" "0 \<le> width st"
    and "length (str_bufs st Str_name) < 512" "lastoutput_length st \<le> 256" "- (10 ^ 12) \<le> e"
    and "\<forall>f t x. d_localtime D f t = Some x \<longrightarrow> length x \<le> 122"
  shows "\<forall>b. 0 < buf_size b \<longrightarrow> length (str_bufs st' b) < buf_size b"
proof -
  obtain st1 n e1 r a w1 st2 w2 where *: "veil st1 = veil (st\<lparr> display_buffer_size := Some n \<rparr>)"
    "show_strings D e1 r a s t st1 w1 = (st2, w2)" "build_display (show_bar st2) = (out, st')"
    "str_bufs st1 = str_bufs st" "e \<le> e1"
    using pv__formatE [OF assms(1-4)] by metis
  have "lastoutput_length st1 \<le> 256" using veil_fields(12) [OF *(1)] assms(6) by simp
  moreover have "- (10 ^ 12) \<le> e1" using assms(7) *(5) by simp
  ultimately have "texts_ok st2"
    using *(2,4) assms(5,8) by (intro show_strings_ok [OF *(2)]) auto
  then have "texts_ok (show_bar st2)" by (rule show_bar_ok)
  moreover have "str_bufs st' = str_bufs (show_bar st2)" using *(3) by (auto simp: build_display_def Let_def)
  ultimately show ?thesis by (simp add: texts_ok_def)
qed

section \<open>Showing the display leaves the transfer alone\<close>

text \<open>The calls of the display do not touch the input, the output or the transfer.\<close>

definition display_env :: "'w sysdisplay \<Rightarrow> (int \<Rightarrow> 'w \<Rightarrow> bytes) \<Rightarrow> ('w \<Rightarrow> bytes) \<Rightarrow> bool" where
  "display_env D inp out \<longleftrightarrow>
     (\<forall>w. still inp out w (snd (d_now D w))) \<and> (\<forall>w. still inp out w (snd (d_malloc D w))) \<and>
     (\<forall>w. still inp out w (d_checkbg D w)) \<and> (\<forall>s w. still inp out w (d_write D s w)) \<and>
     (\<forall>s. leaves inp out (\<lambda>st. d_crs_update D st s))"


text \<open>What is left of the state without the parts that belong to the display, but for the exit status.\<close>

definition rest_of :: "pvstate \<Rightarrow> pvstate" where
  "rest_of st = (veil st)\<lparr> display_buffer_size := None, prev_width := 0, prev_length := 0, segments := [],
     components_used := 0, lastoutput_length := 0, reparse_display := False, display_visible := False,
     pv_stderr := [], exit_status := 0 \<rparr>"

lemma rest_of_updates [simp]:
  "rest_of (st\<lparr> str_bufs := f \<rparr>) = rest_of st" "rest_of (st\<lparr> display_buffer_size := b \<rparr>) = rest_of st"
  "rest_of (st\<lparr> prev_width := x \<rparr>) = rest_of st" "rest_of (st\<lparr> prev_length := y \<rparr>) = rest_of st"
  "rest_of (st\<lparr> segments := g \<rparr>) = rest_of st" "rest_of (st\<lparr> components_used := c \<rparr>) = rest_of st"
  "rest_of (st\<lparr> lastoutput_length := l \<rparr>) = rest_of st" "rest_of (st\<lparr> reparse_display := rd \<rparr>) = rest_of st"
  "rest_of (st\<lparr> display_visible := v \<rparr>) = rest_of st" "rest_of (st\<lparr> exit_status := es \<rparr>) = rest_of st"
  "rest_of (pv_error m st) = rest_of st" "rest_of (alloc_display st) = rest_of st"
  by (simp_all add: rest_of_def veil_def pv_error_def alloc_display_def Let_def split: option.split)

lemma veil_rest: "veil st' = veil st \<Longrightarrow> rest_of st' = rest_of st \<and> exit_status st' = exit_status st"
proof
  assume v: "veil st' = veil st"
  then show "rest_of st' = rest_of st" by (simp add: rest_of_def)
  have "exit_status (veil x) = exit_status x" for x by (simp add: veil_def)
  with v show "exit_status st' = exit_status st" by metis
qed

lemma rest_of_leaves:
  assumes "rest_of st' = rest_of st" "failed st \<longrightarrow> failed st'"
  shows "settled st st' \<and> pending st' = pending st \<and> (buffer_inv st \<longrightarrow> buffer_inv st')"
proof -
  have "input_files st' = input_files st" "stop_at_size st' = stop_at_size st"
    "write_position st' = write_position st" "read_position st' = read_position st" "buffer_size st' = buffer_size st"
    "target_buffer_size st' = target_buffer_size st" "transfer_buffer st' = transfer_buffer st"
    using arg_cong [OF assms(1), of input_files] arg_cong [OF assms(1), of stop_at_size]
      arg_cong [OF assms(1), of write_position] arg_cong [OF assms(1), of read_position]
      arg_cong [OF assms(1), of buffer_size] arg_cong [OF assms(1), of target_buffer_size]
      arg_cong [OF assms(1), of transfer_buffer]
    by (simp_all add: rest_of_def veil_def)
  with assms(2) show ?thesis by (simp add: settled_def pending_def buf_slice_def buffer_inv_def split: option.split)
qed

lemma format_loop_rest: "rest_of (format_loop fmt strpos n st) = rest_of st \<and> exit_status (format_loop fmt strpos n st) = exit_status st"
proof (induction fmt strpos n st rule: format_loop.induct)
  case (1 fmt strpos n st)
  obtain p st1 where d: "(if fchar fmt strpos = CHR ''%'' then format_directive fmt strpos st
      else format_constant fmt strpos st) = (p, st1)" by (rule prod.exhaust)
  then have same: "rest_of st1 = rest_of st \<and> exit_status st1 = exit_status st"
    by (auto simp: format_directive_def format_constant_def add_segment_def set_lastoutput_def Let_def
        split: if_splits prod.splits)
  show ?case using 1 [OF _ d [symmetric]] same d by (subst (1 2) format_loop.simps) auto
qed

lemma format_init_rest: "rest_of (pv__format_init st) = rest_of st \<and> exit_status (pv__format_init st) = exit_status st"
  unfolding pv__format_init_def Let_def using format_loop_rest by (simp split: option.split)


lemma failed_or: "exit_status st' = exit_status st OR n \<Longrightarrow> failed st \<longrightarrow> failed st'"
  by (simp add: failed_def or_eq_0_iff)

lemma build_display_rest:
  "build_display st = (out, st') \<Longrightarrow> rest_of st' = rest_of st \<and> exit_status st' = exit_status st"
  by (auto simp: build_display_def Let_def)

lemma make_room_rest:
  assumes "make_room D st w = (ok, st', w')"
  shows "rest_of st' = rest_of st \<and> (failed st \<longrightarrow> failed st') \<and>
    ((\<forall>w. fst (d_malloc D w)) \<longrightarrow> exit_status st' = exit_status st)"
proof -
  have "exit_status (alloc_display st) = exit_status st"
    by (simp add: alloc_display_def Let_def split: option.split)
  moreover have "0 < n OR (64 :: nat)" for n by (simp add: neq0_conv [symmetric] or_eq_0_iff del: neq0_conv)
  moreover obtain b w1 where "d_malloc D w = (b, w1)" by (rule prod.exhaust)
  moreover from this have "(\<forall>w. fst (d_malloc D w)) \<longrightarrow> b" by (metis fst_conv)
  ultimately show ?thesis using assms
    by (cases b) (auto simp: make_room_def Let_def failed_def split: if_splits)
qed

lemma show_fineta_still:
  "display_env D inp out \<Longrightarrow> show_fineta D e n st w = (st', w') \<Longrightarrow> still inp out w w'"
  unfolding display_env_def
  by (auto simp: show_fineta_def Let_def split: if_splits prod.splits option.splits) (metis snd_conv)+

lemma show_strings_still:
  "display_env D inp out \<Longrightarrow> show_strings D e r a m n st w = (st', w') \<Longrightarrow> still inp out w w'"
  by (auto simp: show_strings_def Let_def split: prod.splits intro: show_fineta_still)

lemma make_room_still:
  "display_env D inp out \<Longrightarrow> make_room D st w = (ok, st', w') \<Longrightarrow> still inp out w w'"
  unfolding display_env_def
  by (auto simp: make_room_def Let_def split: if_splits prod.splits bool.splits) (metis snd_conv)+

lemma pv__format_leaves:
  assumes "display_env D inp out" "pv__format D st e s t w = (r, st', w')"
  shows "still inp out w w' \<and> rest_of st' = rest_of st \<and> (failed st \<longrightarrow> failed st') \<and>
    ((\<forall>w. fst (d_malloc D w)) \<longrightarrow> exit_status st' = exit_status st)"
proof (cases "t < 0")
  case True
  with assms(2) show ?thesis by (auto simp: pv__format_def failed_def)
next
  case False
  obtain r0 sta where c: "current_rate e s st = (r0, sta)" by (rule prod.exhaust)
  obtain e1 a r1 where o: "overall_rate sta e s t r0 = (e1, a, r1)" by (rule prod_cases3)
  let ?sta = "step_percentage r1 t sta"
  obtain ok st1 w1 where m: "make_room D ?sta w = (ok, st1, w1)" by (rule prod_cases3)
  have "veil ?sta = veil st" using current_rate_veil [OF c] by simp
  with make_room_rest [OF m] have 1: "rest_of st1 = rest_of st" "failed st \<longrightarrow> failed st1"
      "(\<forall>w. fst (d_malloc D w)) \<longrightarrow> exit_status st1 = exit_status st"
    using veil_rest [of ?sta st] by (auto simp: failed_def)
  have w1: "still inp out w w1" using assms(1) m by (rule make_room_still)
  obtain st2 w2 where s: "show_strings D e1 r1 a s t st1 w1 = (st2, w2)" by (rule prod.exhaust)
  obtain out1 st3 where b: "build_display (show_bar st2) = (out1, st3)" by (rule prod.exhaust)
  have "veil (show_bar st2) = veil st1" using show_strings_veil [OF s] by simp
  with build_display_rest [OF b] have 3: "rest_of st3 = rest_of st1" "failed st1 \<longrightarrow> failed st3"
      "exit_status st3 = exit_status st1"
    using veil_rest [of "show_bar st2" st1] by (auto simp: failed_def)
  have w2: "still inp out w1 w2" using assms(1) s by (rule show_strings_still)
  have "(r, st', w') = (if \<not> ok then (None, st1, w1) else if numeric st1 then (Some (numeric_line st1 e1 t), st1, w1)
      else (Some out1, st3, w2))"
    using assms(2) False c o m s b by (cases ok) (auto simp: pv__format_def)
  then consider "st' = st1" "w' = w1" | "st' = st3" "w' = w2" by (auto split: if_splits)
  then show ?thesis
    using 1 3 w1 still_trans [OF w1 w2] by cases auto
qed

text \<open>
  Where \<open>pv_display\<close> ends: after the line was made, or after the cursor code showed it. The line
  leaves the rest of the state alone, and the exit status if memory can be had.
\<close>

lemma pv_display_outcome:
  assumes "display_env D inp out" "pv_display D st e s t w = (st', w')"
  obtains st1 w1 where "rest_of st1 = rest_of st" "failed st \<longrightarrow> failed st1" "still inp out w w1"
    "(\<forall>w. fst (d_malloc D w)) \<longrightarrow> exit_status st1 = exit_status st"
    "still inp out w1 w' \<and> (st' = st1 \<or> st' = st1\<lparr> display_visible := True \<rparr>) \<or>
     (\<exists>x st2. d_crs_update D st1 x w1 = (st2, w') \<and> st' = st2\<lparr> display_visible := True \<rparr>)"
proof -
  define st0 where "st0 = (if reparse_display st then (pv__format_init st)\<lparr> reparse_display := False \<rparr> else st)"
  have 0: "rest_of st0 = rest_of st" "exit_status st0 = exit_status st"
    using format_init_rest [of st] by (simp_all add: st0_def)
  have env: "still inp out w (d_checkbg D w)" "still inp out a (d_write D x a)" for a x
    using assms(1) by (simp_all add: display_env_def)
  obtain r st1 w1 where f: "pv__format D st0 e s t (d_checkbg D w) = (r, st1, w1)" by (rule prod_cases3)
  note l = pv__format_leaves [OF assms(1) f]
  have w1: "still inp out w w1" using still_trans [OF env(1)] l by blast
  have run: "(case r of None \<Rightarrow> (st1, w1) | Some x \<Rightarrow> if numeric st1 then (st1, d_write D x w1)
      else if cursor st1 then (case d_crs_update D st1 x w1 of (st, w) \<Rightarrow> (st\<lparr> display_visible := True \<rparr>, w))
      else (st1\<lparr> display_visible := True \<rparr>, d_write D [CHR 0x0D] (d_write D x w1))) = (st', w')"
    using assms(2) f unfolding pv_display_def Let_def st0_def [symmetric] by (cases r) simp_all
  have "still inp out w1 w' \<and> (st' = st1 \<or> st' = st1\<lparr> display_visible := True \<rparr>) \<or>
     (\<exists>x st2. d_crs_update D st1 x w1 = (st2, w') \<and> st' = st2\<lparr> display_visible := True \<rparr>)"
  proof (cases r)
    case None
    with run show ?thesis by simp
  next
    case (Some x)
    consider "numeric st1" | "\<not> numeric st1" "cursor st1" | "\<not> numeric st1" "\<not> cursor st1" by blast
    then show ?thesis
    proof cases
      case 1
      with run Some have "st' = st1" "w' = d_write D x w1" by simp_all
      then show ?thesis using env(2) by simp
    next
      case 2
      obtain st2 w2 where u: "d_crs_update D st1 x w1 = (st2, w2)" by (rule prod.exhaust)
      with run Some 2 have "st' = st2\<lparr> display_visible := True \<rparr>" "w' = w2" by simp_all
      with u show ?thesis by blast
    next
      case 3
      with run Some have "st' = st1\<lparr> display_visible := True \<rparr>" "w' = d_write D [CHR 0x0D] (d_write D x w1)"
        by simp_all
      then show ?thesis using still_trans [OF env(2) env(2)] by simp
    qed
  qed
  moreover have "(\<forall>w. fst (d_malloc D w)) \<longrightarrow> exit_status st1 = exit_status st"
    using l 0(2) by simp
  moreover have "failed st \<longrightarrow> failed st1" "rest_of st1 = rest_of st" using l 0 by (simp_all add: failed_def)
  ultimately show ?thesis using that [OF _ _ w1] by blast
qed

lemma visible_leaves:
  "settled st st2 \<Longrightarrow> settled st (st2\<lparr> display_visible := True \<rparr>) \<and>
   pending (st2\<lparr> display_visible := True \<rparr>) = pending st2 \<and>
   (buffer_inv st2 \<longrightarrow> buffer_inv (st2\<lparr> display_visible := True \<rparr>))"
  using rest_of_leaves [of "st2\<lparr> display_visible := True \<rparr>" st2] by (auto simp: failed_def intro: settled_trans)

lemma pv_display_leaves:
  assumes "display_env D inp out"
  shows "leaves inp out (\<lambda>st. pv_display D st e s t)"
  unfolding leaves_def
proof (intro allI impI)
  fix st w st' w'
  assume "pv_display D st e s t w = (st', w')"
  then obtain st1 w1 where o: "rest_of st1 = rest_of st" "failed st \<longrightarrow> failed st1" "still inp out w w1"
    and e: "still inp out w1 w' \<and> (st' = st1 \<or> st' = st1\<lparr> display_visible := True \<rparr>) \<or>
     (\<exists>x st2. d_crs_update D st1 x w1 = (st2, w') \<and> st' = st2\<lparr> display_visible := True \<rparr>)"
    by (rule pv_display_outcome [OF assms])
  note l1 = rest_of_leaves [OF o(1,2)]
  from e show "still inp out w w' \<and> settled st st' \<and> pending st' = pending st \<and> (buffer_inv st \<longrightarrow> buffer_inv st')"
  proof
    assume "still inp out w1 w' \<and> (st' = st1 \<or> st' = st1\<lparr> display_visible := True \<rparr>)"
    then show ?thesis using l1 visible_leaves [of st st1] still_trans [OF o(3)] by auto
  next
    assume "\<exists>x st2. d_crs_update D st1 x w1 = (st2, w') \<and> st' = st2\<lparr> display_visible := True \<rparr>"
    then obtain x st2 where u: "d_crs_update D st1 x w1 = (st2, w')" and st': "st' = st2\<lparr> display_visible := True \<rparr>"
      by blast
    have "leaves inp out (\<lambda>st. d_crs_update D st x)" using assms by (simp add: display_env_def)
    note l2 = leavesD [OF this u]
    have "settled st st2" using l1 l2 by (blast intro: settled_trans)
    with visible_leaves [of st st2] l1 l2 still_trans [OF o(3), of w'] show ?thesis by (simp add: st')
  qed
qed

text \<open>With memory at hand the display changes nothing that the transfer looks at.\<close>

lemma pv_display_hands_off:
  assumes "display_env D inp out" "\<forall>w. fst (d_malloc D w)" "\<And>x. hands_off inp out (\<lambda>st. d_crs_update D st x)"
  shows "hands_off inp out (\<lambda>st. pv_display D st e s t)"
  unfolding hands_off_def
proof (intro allI)
  fix st w
  obtain st' w' where run: "pv_display D st e s t w = (st', w')" by (rule prod.exhaust)
  then obtain st1 w1 where o: "rest_of st1 = rest_of st" "still inp out w w1"
    "(\<forall>w. fst (d_malloc D w)) \<longrightarrow> exit_status st1 = exit_status st"
    and e: "still inp out w1 w' \<and> (st' = st1 \<or> st' = st1\<lparr> display_visible := True \<rparr>) \<or>
     (\<exists>x st2. d_crs_update D st1 x w1 = (st2, w') \<and> st' = st2\<lparr> display_visible := True \<rparr>)"
    by (rule pv_display_outcome [OF assms(1)])
  have "same_data st st1 \<and> splice_used st1 = splice_used st"
    using arg_cong [OF o(1), of to_write] arg_cong [OF o(1), of rate_limit]
      arg_cong [OF o(1), of write_position] arg_cong [OF o(1), of read_position]
      arg_cong [OF o(1), of buffer_size] arg_cong [OF o(1), of target_buffer_size]
      arg_cong [OF o(1), of transfer_buffer] arg_cong [OF o(1), of splice_used]
    by (simp add: rest_of_def veil_def same_data_def)
  with o assms(2) have 1: "untroubled inp out st w st1 w1" by (simp add: untroubled_def)
  from e have "untroubled inp out st1 w1 st' w'"
  proof
    assume "still inp out w1 w' \<and> (st' = st1 \<or> st' = st1\<lparr> display_visible := True \<rparr>)"
    then show ?thesis by (auto simp: untroubled_def same_data_def)
  next
    assume "\<exists>x st2. d_crs_update D st1 x w1 = (st2, w') \<and> st' = st2\<lparr> display_visible := True \<rparr>"
    then obtain x st2 where u: "d_crs_update D st1 x w1 = (st2, w')" and st': "st' = st2\<lparr> display_visible := True \<rparr>"
      by blast
    from hands_offD [OF assms(3) u] show ?thesis by (simp add: st' untroubled_def same_data_def)
  qed
  with 1 have "untroubled inp out st w st' w'"
    by (auto simp: untroubled_def intro: still_trans same_data_trans)
  with run show "case pv_display D st e s t w of (st', w') \<Rightarrow> untroubled inp out st w st' w'" by simp
qed

section \<open>The program with its display\<close>

definition show_with :: "'w sysdisplay \<Rightarrow> 'w sysmain \<Rightarrow> 'w sysmain" where
  "show_with D M = M\<lparr> run_display := pv_display D \<rparr>"

lemma show_with_env:
  assumes "main_env M inp out content" "display_env D inp out"
  shows "main_env (show_with D M) inp out content"
proof -
  have "sysloop.truncate (show_with D M) = (sysloop.truncate M)\<lparr> run_display := pv_display D \<rparr>"
    "sysfile.truncate (show_with D M) = sysfile.truncate M"
    by (simp_all add: show_with_def sysloop.defs sysfile.defs)
  moreover have "loop_env ((sysloop.truncate M)\<lparr> run_display := pv_display D \<rparr>) inp out content"
    using assms(1) pv_display_leaves [OF assms(2)]
    by (simp add: main_env_def loop_env_def side_env_def sysio.defs sysfile.defs)
  ultimately show ?thesis using assms(1)
    by (simp add: main_env_def show_with_def remote_env_def)
qed


definition tty_show :: "(bytes \<times> bytes) sysdisplay" where
  "tty_show = \<lparr> d_isprint = (\<lambda>n. 32 \<le> n \<and> n < 127), d_now = (\<lambda>w. (0, w)),
     d_localtime = (\<lambda>f t. Some ''12:00:00''), d_malloc = (\<lambda>w. (True, w)), d_strerror = (\<lambda>w. ''error''),
     d_checkbg = (\<lambda>w. w), d_crs_update = (\<lambda>st s w. (st, w)), d_write = (\<lambda>s w. w) \<rparr>"

lemma tty_show_env: "display_env tty_show inp out"
  by (simp add: display_env_def tty_show_def leaves_def settled_def)

lemma show_with_fields [simp]:
  "main_say (show_with D M) = main_say M" "on_signals (show_with D M) = on_signals M"
  "tc_getattr (show_with D M) = tc_getattr M" "tc_setattr (show_with D M) = tc_setattr M"
  "pid_open (show_with D M) = pid_open M" "pid_write (show_with D M) = pid_write M"
  "file_remove (show_with D M) = file_remove M" "state_allocated (show_with D M) = state_allocated M"
  "main_ipc (show_with D M) = main_ipc M" "msgid_of (show_with D M) = msgid_of M"
  "put_msgid (show_with D M) = put_msgid M" "sys_isatty (show_with D M) = sys_isatty M"
  "sysfile.truncate (show_with D M) = sysfile.truncate M"
  by (simp_all add: show_with_def sysfile.defs)

lemma show_with_settle: "settle fuel (show_with D M) ops st w = settle fuel M ops st w"
proof -
  have "pv_screensize (syswatch.truncate (show_with D M)) = pv_screensize (syswatch.truncate M)"
  proof -
    have "sys_winsize (syswatch.truncate (show_with D M)) = sys_winsize (syswatch.truncate M)"
      "sys_isatty (syswatch.truncate (show_with D M)) = sys_isatty (syswatch.truncate M)"
      by (simp_all add: show_with_def syswatch.defs)
    then show ?thesis by (intro ext) (simp only: pv_screensize_def)
  qed
  then have "settle_screen (show_with D M) = settle_screen M" by (simp add: fun_eq_iff settle_screen_def)
  moreover have "settle_display (show_with D M) = settle_display M" by (simp add: fun_eq_iff settle_display_def)
  ultimately show ?thesis by (simp only: settle_def show_with_fields)
qed

lemma calm_env_show:
  assumes "calm_env S inp out content" "display_env D inp out" "\<forall>w. fst (d_malloc D w)"
    and "\<And>x. hands_off inp out (\<lambda>st. d_crs_update D st x)"
  shows "calm_env (S\<lparr> run_display := pv_display D \<rparr>) inp out content"
  using assms(1) pv_display_leaves [OF assms(2)] pv_display_hands_off [OF assms(2-4)]
  by (simp add: calm_env_def loop_env_def side_env_def sysio.defs sysfile.defs)

definition shown_loop :: "(bytes \<times> bytes) sysloop" where
  "shown_loop = tty_loop\<lparr> run_display := pv_display tty_show \<rparr>"

lemma shown_calm: "calm_env shown_loop cur_input snd copy_content"
  unfolding shown_loop_def
  by (rule calm_env_show [OF tty_calm tty_show_env]) (simp_all add: tty_show_def hands_off_def untroubled_def)

lemma shown_sys_loop: "sysloop.truncate (with_remote (show_with tty_show main_sys)) = shown_loop"
proof -
  have "check_remote (show_with tty_show main_sys) = Pair"
    unfolding main_sys_remote [symmetric] by (simp add: fun_eq_iff check_remote_def)
  then show ?thesis
    by (simp add: with_remote_def shown_loop_def show_with_def main_sys_loop(1) [symmetric] sysloop.defs)
      (simp add: main_sys_defs)
qed

lemma shown_sys_quiet:
  "on_signals (show_with D main_sys) f w = w" "main_remote_init (show_with D main_sys) w = w"
  "main_remote_fini (show_with D main_sys) w = w"
  using main_sys_quiet by (simp_all add: main_remote_init_def main_remote_fini_def)


section \<open>A line\<close>

definition bar_state :: pvstate where
  "bar_state = (the (pv_state_alloc True ''pv''))\<lparr> width := 30, prev_width := 30, total_size := 2000,
     segments := [(Str_timer, 0), (Text '' %p'', 1), (Str_progress, - 1)], components_used := 3 \<rparr>"

lemma bar_line:
  "case pv__format tty_show bar_state 2 500 500 ([], []) of
     (Some out, st', w') \<Rightarrow> out = ''0:00:02 [===>            ] 25%'' \<and> str_bufs st' Str_progress \<noteq> []
   | _ \<Rightarrow> False"
  by code_simp

lemma bar_lineE:
  obtains st' w' where "pv__format tty_show bar_state 2 500 500 ([], []) = (Some ''0:00:02 [===>            ] 25%'', st', w')"
    "str_bufs st' Str_progress \<noteq> []"
  using bar_line by (auto split: prod.splits option.splits)

lemma bar_state_facts:
  "\<not> numeric bar_state" "display_inv bar_state" "0 \<le> width bar_state" "width bar_state = 30"
  "shows_component bar_state PV_DISPLAY_PROGRESS"
  "segments bar_state = [(Str_timer, 0), (Text '' %p'', 1), (Str_progress, - 1)]"
  "str_bufs bar_state Str_name = []" "lastoutput_length bar_state = 0"
  by (simp_all add: bar_state_def pv_state_alloc_def display_inv_def shows_component_def PV_DISPLAY_PROGRESS_def)

theorem format_fits_witness:
  "\<exists>out st' w'. pv__format tty_show bar_state 2 500 500 ([], []) = (Some out, st', w') \<and> int (length out) \<le> 30 \<and>
    display_inv st'"
proof (rule bar_lineE)
  fix st' w'
  assume r: "pv__format tty_show bar_state 2 500 500 ([], []) = (Some ''0:00:02 [===>            ] 25%'', st', w')"
  from format_fits [OF r bar_state_facts(1-3)] have "display_inv st'" by blast
  with r show ?thesis by auto
qed

theorem bar_means_all_witness:
  "\<exists>out st' w' k. pv__format tty_show bar_state 2 500 500 ([], []) = (Some out, st', w') \<and>
    out = concat (map (piece st') (segments bar_state)) @ blanks k"
proof (rule bar_lineE)
  fix st' w'
  assume r: "pv__format tty_show bar_state 2 500 500 ([], []) = (Some ''0:00:02 [===>            ] 25%'', st', w')"
    and p: "str_bufs st' Str_progress \<noteq> []"
  have "\<forall>(b, n) \<in> set (segments bar_state). n < 0 \<longleftrightarrow> b = Str_progress"
    "length (filter (\<lambda>s. fst s = Str_progress) (segments bar_state)) = 1" by (simp_all add: bar_state_facts(6))
  from bar_means_all [OF r bar_state_facts(1-3,5) p this] r show ?thesis by blast
qed

theorem texts_fit_witness:
  "\<exists>out st' w'. pv__format tty_show bar_state 2 500 500 ([], []) = (Some out, st', w') \<and>
    length (str_bufs st' Str_timer) < 128 \<and> length (str_bufs st' Str_progress) < 1024"
proof (rule bar_lineE)
  fix st' w'
  assume r: "pv__format tty_show bar_state 2 500 500 ([], []) = (Some ''0:00:02 [===>            ] 25%'', st', w')"
  have "length (str_bufs bar_state Str_name) < 512" "lastoutput_length bar_state \<le> 256" "- (10 ^ 12) \<le> (2 :: rat)"
    "\<forall>f t x. d_localtime tty_show f t = Some x \<longrightarrow> length x \<le> 122"
    by (simp_all add: bar_state_facts(7,8) tty_show_def)
  from texts_fit [OF r bar_state_facts(1-3) this] have fit: "0 < buf_size b \<Longrightarrow> length (str_bufs st' b) < buf_size b" for b
    by blast
  have "length (str_bufs st' Str_timer) < 128" "length (str_bufs st' Str_progress) < 1024"
    using fit [of Str_timer] fit [of Str_progress] by (simp_all add: buf_size_def)
  with r show ?thesis by blast
qed

end
