(* ===== verification/PvText.thy ===== *)
theory PvText
  imports PvOptions PvUnits
begin

text \<open>
  \<open>tools/pv/src/library/gettext.c\<close>, the lookup of translated messages, and \<open>help.c\<close> and \<open>version.c\<close>
  of \<open>tools/pv/src/main\<close>, which print texts that go through it. The tables of messages are made by the
  build, so the function from a language to its table is a parameter, as are the environment, the
  names that \<open>configure\<close> sets and the outcome of the allocation.
\<close>

section \<open>Translated messages\<close>

text \<open>A table up to its end mark; a message may have no translation.\<close>

type_synonym msgtable = "(string \<times> string option) list"

record gettext_state =
  msg_table :: "msgtable option"
  tried_lang :: bool

definition gettext_start :: gettext_state where
  "gettext_start = \<lparr> msg_table = None, tried_lang = False \<rparr>"

definition minisetlocale :: "string \<Rightarrow> string \<Rightarrow> string option" where "minisetlocale a b = None"
definition minibindtextdomain :: "string \<Rightarrow> string \<Rightarrow> string option" where "minibindtextdomain a b = None"
definition minitextdomain :: "string \<Rightarrow> string option" where "minitextdomain a = None"

text \<open>The variables are asked in turn until one of them names a language that has a table.\<close>

fun find_table :: "(string \<Rightarrow> string option) \<Rightarrow> (string \<Rightarrow> msgtable option) \<Rightarrow> string list \<Rightarrow> msgtable option" where
  "find_table env gettable [] = None"
| "find_table env gettable (v # vs) =
     (case env v of
        None \<Rightarrow> find_table env gettable vs
      | Some lang \<Rightarrow> (case gettable lang of None \<Rightarrow> find_table env gettable vs | Some t \<Rightarrow> Some t))"

definition language_variables :: "string list" where
  "language_variables = [''LANGUAGE'', ''LANG'', ''LC_ALL'', ''LC_MESSAGES'']"

fun look_up :: "msgtable \<Rightarrow> string \<Rightarrow> string" where
  "look_up [] msgid = msgid"
| "look_up ((m, s) # t) msgid =
     (if m = msgid then (case s of None \<Rightarrow> msgid | Some [] \<Rightarrow> msgid | Some s \<Rightarrow> s)
      else look_up t msgid)"

definition minigettext ::
  "(string \<Rightarrow> string option) \<Rightarrow> (string \<Rightarrow> msgtable option) \<Rightarrow> string option \<Rightarrow> gettext_state \<Rightarrow>
   string option \<times> gettext_state" where
  "minigettext env gettable msgid_opt g =
     (case msgid_opt of
        None \<Rightarrow> (None, g)
      | Some msgid \<Rightarrow>
          let g = (if tried_lang g then g
                   else \<lparr> msg_table = find_table env gettable language_variables, tried_lang = True \<rparr>)
          in (Some (case msg_table g of None \<Rightarrow> msgid | Some t \<Rightarrow> look_up t msgid), g))"

text \<open>The whole run of the program as a function of a message: a table found once is used for good.\<close>

definition translation :: "(string \<Rightarrow> string option) \<Rightarrow> (string \<Rightarrow> msgtable option) \<Rightarrow> string \<Rightarrow> string" where
  "translation env gettable msgid =
     (case find_table env gettable language_variables of None \<Rightarrow> msgid | Some t \<Rightarrow> look_up t msgid)"

lemma first_message:
  "minigettext env gettable (Some msgid) gettext_start =
     (Some (translation env gettable msgid),
      \<lparr> msg_table = find_table env gettable language_variables, tried_lang = True \<rparr>)"
  by (simp add: minigettext_def gettext_start_def translation_def)

lemma later_message:
  "minigettext env' gettable (Some msgid) \<lparr> msg_table = find_table env gettable language_variables, tried_lang = True \<rparr> =
     (Some (translation env gettable msgid),
      \<lparr> msg_table = find_table env gettable language_variables, tried_lang = True \<rparr>)"
  by (simp add: minigettext_def translation_def)

text \<open>A message without a translation is shown as it is: no text is ever lost to a table.\<close>

lemma translation_not_empty: "msgid \<noteq> [] \<Longrightarrow> translation env gettable msgid \<noteq> []"
proof -
  assume m: "msgid \<noteq> []"
  have "look_up t msgid \<noteq> []" for t
    using m by (induction t msgid rule: look_up.induct) (auto split: option.split list.split)
  then show ?thesis using m by (simp add: translation_def split: option.split)
qed

text \<open>
  The gettext of the system prefers \<open>LC_ALL\<close> to \<open>LC_MESSAGES\<close> and that to \<open>LANG\<close>; here \<open>LANG\<close> wins.
\<close>

lemma lang_wins:
  assumes "env ''LANGUAGE'' = None" "env ''LANG'' = Some a" "gettable a = Some t"
  shows "find_table env gettable language_variables = Some t"
  using assms by (simp add: language_variables_def)

section \<open>Printed formats\<close>

text \<open>The formats of these texts, translated or not, use \<open>%s\<close> and \<open>%%\<close>.\<close>

fun printf_s :: "string \<Rightarrow> string list \<Rightarrow> string" where
  "printf_s [] as = []"
| "printf_s (c # f) as =
     (if c = CHR ''%'' then
        (case f of
           d # f' \<Rightarrow>
             if d = CHR ''%'' then d # printf_s f' as
             else if d = CHR ''s'' then
               (case as of a # as' \<Rightarrow> a @ printf_s f' as' | [] \<Rightarrow> printf_s f' [])
             else c # printf_s f as
         | [] \<Rightarrow> [c])
      else c # printf_s f as)"

definition newline :: string where "newline = [CHR 0x0A]"

section \<open>The options in the help\<close>

record optdesc_s =
  optshort :: string
  optlong :: "string option"
  optparam :: "string option"
  optdescription :: "string option"

definition help_row :: "string \<Rightarrow> string option \<Rightarrow> string option \<Rightarrow> string option \<Rightarrow> optdesc_s" where
  "help_row s l p d = \<lparr> optshort = s, optlong = l, optparam = p, optdescription = d \<rparr>"

text \<open>How the program was built.\<close>

record help_build =
  hb_getopt_long :: bool
  hb_ipc :: bool
  hb_debugging :: bool
  hb_program :: string
  hb_bugs :: string

definition optlist :: "bool \<Rightarrow> (string \<Rightarrow> string) \<Rightarrow> optdesc_s list" where
  "optlist ipc tr =
     [help_row ''-p'' (Some ''--progress'') None (Some ''show progress bar''),
      help_row ''-t'' (Some ''--timer'') None (Some ''show elapsed time''),
      help_row ''-e'' (Some ''--eta'') None (Some ''show estimated time of arrival (completion)''),
      help_row ''-I'' (Some ''--fineta'') None (Some ''show absolute estimated time of arrival (completion)''),
      help_row ''-r'' (Some ''--rate'') None (Some ''show data transfer rate counter''),
      help_row ''-a'' (Some ''--average-rate'') None (Some ''show data transfer average rate counter''),
      help_row ''-b'' (Some ''--bytes'') None (Some ''show number of bytes transferred''),
      help_row ''-T'' (Some ''--buffer-percent'') None (Some ''show percentage of transfer buffer in use''),
      help_row ''-A'' (Some ''--last-written'') (Some (tr ''NUM'')) (Some ''show NUM bytes last written''),
      help_row ''-F'' (Some ''--format'') (Some ''FORMAT'') (Some ''set output format to FORMAT''),
      help_row ''-n'' (Some ''--numeric'') None (Some ''output percentages, not visual information''),
      help_row ''-q'' (Some ''--quiet'') None (Some ''do not output any transfer information at all''),
      help_row [] None None None,
      help_row ''-W'' (Some ''--wait'') None (Some ''display nothing until first byte transferred''),
      help_row ''-D'' (Some ''--delay-start'') (Some ''SEC'') (Some ''display nothing until SEC seconds have passed''),
      help_row ''-s'' (Some ''--size'') (Some ''SIZE'') (Some ''set estimated data size to SIZE bytes''),
      help_row ''-l'' (Some ''--line-mode'') None (Some ''count lines instead of bytes''),
      help_row ''-0'' (Some ''--null'') None (Some ''lines are null-terminated''),
      help_row ''-i'' (Some ''--interval'') (Some ''SEC'') (Some ''update every SEC seconds''),
      help_row ''-w'' (Some ''--width'') (Some ''WIDTH'') (Some ''assume terminal is WIDTH characters wide''),
      help_row ''-H'' (Some ''--height'') (Some ''HEIGHT'') (Some ''assume terminal is HEIGHT rows high''),
      help_row ''-N'' (Some ''--name'') (Some ''NAME'') (Some ''prefix visual information with NAME''),
      help_row ''-f'' (Some ''--force'') None (Some ''output even if standard error is not a terminal''),
      help_row ''-c'' (Some ''--cursor'') None (Some ''use cursor positioning escape sequences''),
      help_row [] None None None,
      help_row ''-L'' (Some ''--rate-limit'') (Some ''RATE'') (Some ''limit transfer to RATE bytes per second''),
      help_row ''-B'' (Some ''--buffer-size'') (Some ''BYTES'') (Some ''use a buffer size of BYTES''),
      help_row ''-C'' (Some ''--no-splice'') None (Some ''never use splice(), always use read/write''),
      help_row ''-E'' (Some ''--skip-errors'') None (Some ''skip read errors in input''),
      help_row ''-S'' (Some ''--stop-at-size'') None (Some ''stop after --size bytes have been transferred'')] @
     (if ipc then
        [help_row ''-R'' (Some ''--remote'') (Some ''PID'') (Some ''update settings of process PID'')]
      else []) @
     [help_row [] None None None,
      help_row ''-P'' (Some ''--pidfile'') (Some ''FILE'') (Some ''save process ID in FILE''),
      help_row [] None None None,
      help_row ''-d'' (Some ''--watchfd'') (Some ''PID[:FD]'') (Some ''watch file FD opened by process PID''),
      help_row [] None None None,
      help_row ''-h'' (Some ''--help'') None (Some ''show this help and exit''),
      help_row ''-V'' (Some ''--version'') None (Some ''show version information and exit'')]"

text \<open>The long options of \<open>opts_parse\<close> in a build with \<open>getopt_long\<close>: name, argument, letter.\<close>

definition long_options :: "(string \<times> bool \<times> char) list" where
  "long_options =
     [(''help'', False, CHR ''h''), (''version'', False, CHR ''V''), (''progress'', False, CHR ''p''),
      (''timer'', False, CHR ''t''), (''eta'', False, CHR ''e''), (''fineta'', False, CHR ''I''),
      (''rate'', False, CHR ''r''), (''average-rate'', False, CHR ''a''), (''bytes'', False, CHR ''b''),
      (''buffer-percent'', False, CHR ''T''), (''last-written'', True, CHR ''A''), (''force'', False, CHR ''f''),
      (''numeric'', False, CHR ''n''), (''quiet'', False, CHR ''q''), (''cursor'', False, CHR ''c''),
      (''wait'', False, CHR ''W''), (''delay-start'', True, CHR ''D''), (''size'', True, CHR ''s''),
      (''line-mode'', False, CHR ''l''), (''null'', False, CHR ''0''), (''interval'', True, CHR ''i''),
      (''width'', True, CHR ''w''), (''height'', True, CHR ''H''), (''name'', True, CHR ''N''),
      (''format'', True, CHR ''F''), (''rate-limit'', True, CHR ''L''), (''buffer-size'', True, CHR ''B''),
      (''no-splice'', False, CHR ''C''), (''skip-errors'', False, CHR ''E''), (''stop-at-size'', False, CHR ''S''),
      (''remote'', True, CHR ''R''), (''pidfile'', True, CHR ''P''), (''watchfd'', True, CHR ''d'')]"

section \<open>The columns\<close>

definition row_param :: "(string \<Rightarrow> string) \<Rightarrow> optdesc_s \<Rightarrow> string option" where
  "row_param tr d = map_option tr (optparam d)"

definition row_width :: "bool \<Rightarrow> (string \<Rightarrow> string) \<Rightarrow> optdesc_s \<Rightarrow> nat" where
  "row_width long tr d =
     2 + length (optshort d) +
     (case optlong d of None \<Rightarrow> 0 | Some l \<Rightarrow> if long then 2 + length l else 0) +
     (case row_param tr d of None \<Rightarrow> 0 | Some p \<Rightarrow> 1 + length p)"

definition first_column :: "bool \<Rightarrow> (string \<Rightarrow> string) \<Rightarrow> optdesc_s list \<Rightarrow> nat" where
  "first_column long tr ds = fold (\<lambda>d m. if m < row_width long tr d then row_width long tr d else m) ds 0 + 1"

definition option_text :: "bool \<Rightarrow> (string \<Rightarrow> string) \<Rightarrow> optdesc_s \<Rightarrow> string" where
  "option_text long tr d =
     optshort d @ (case optlong d of None \<Rightarrow> [] | Some l \<Rightarrow> if long then '', '' @ l else []) @
     (case row_param tr d of None \<Rightarrow> [] | Some p \<Rightarrow> CHR '' '' # p)"

definition pad_right :: "nat \<Rightarrow> string \<Rightarrow> string" where
  "pad_right w s = s @ replicate (w - length s) CHR '' ''"

section \<open>The description in lines\<close>

text \<open>The last blank at or before a position and after the first character, or 0.\<close>

fun last_blank :: "string \<Rightarrow> nat \<Rightarrow> nat" where
  "last_blank s 0 = 0"
| "last_blank s (Suc n) = (if fchar s (Suc n) \<noteq> CHR '' '' then last_blank s n else Suc n)"

lemma last_blank_le: "last_blank s n \<le> n"
  by (induction n) auto

text \<open>
  The loop. The room is \<open>tw - col1max\<close>; when nothing is left of it, the loop prints nothing and moves
  on by a character.
\<close>

definition line_end :: "nat \<Rightarrow> string \<Rightarrow> nat" where
  "line_end room s = (if last_blank s room = 0 then room else last_blank s room + 1)"

function wrap_text :: "nat \<Rightarrow> string \<Rightarrow> string list" where
  "wrap_text room s =
     (if room < length s then
        let stop = line_end room s
        in take stop s # wrap_text room (drop (if stop = 0 then stop + 1 else stop) s)
      else [s])"
  by pat_completeness auto
termination
  by (relation "measure (\<lambda>(room, s). length s)") auto

declare wrap_text.simps [simp del]

text \<open>The comparison is between unsigned numbers: a first column wider than the text leaves all room.\<close>

definition description_lines :: "nat \<Rightarrow> string \<Rightarrow> string list" where
  "description_lines col s = (if col \<le> 77 then wrap_text (77 - col) s else [s])"

fun print_lines :: "nat \<Rightarrow> string list \<Rightarrow> string" where
  "print_lines col [] = []"
| "print_lines col [l] = l @ newline"
| "print_lines col (l # m # ls) = l @ newline @ pad_left col [] @ '' '' @ print_lines col (m # ls)"

definition print_row :: "bool \<Rightarrow> (string \<Rightarrow> string) \<Rightarrow> nat \<Rightarrow> optdesc_s \<Rightarrow> string" where
  "print_row long tr col d =
     (if optshort d = [] then newline
      else ''  '' @ pad_right (col - 2) (option_text long tr d) @ '' '' @
        (case map_option tr (optdescription d) of
           None \<Rightarrow> newline
         | Some s \<Rightarrow> print_lines col (description_lines col s)))"

text \<open>What is printed, and the message and status when the allocation fails.\<close>

definition display_help :: "help_build \<Rightarrow> (string \<Rightarrow> string) \<Rightarrow> string option \<Rightarrow> string \<times> (string \<times> int) option" where
  "display_help B tr alloc_error =
     (let ds = optlist (hb_ipc B) tr;
          heading = printf_s (tr ''Usage: %s [OPTION] [FILE]...'') [hb_program B] @ newline @
            tr (''Concatenate FILE(s), or standard input, to standard output,'' @ newline @ ''with monitoring.'') @
            newline @ newline;
          col = first_column (hb_getopt_long B) tr ds
      in case alloc_error of
           Some e \<Rightarrow> (heading, Some (hb_program B @ '': '' @ e @ newline, 1))
         | None \<Rightarrow>
             (heading @ concat (map (print_row (hb_getopt_long B) tr col) ds) @
              (if hb_debugging B
               then newline @ tr (''Debugging is enabled; export the DEBUG environment variable to define the'' @ newline @
                 ''output filename.'' @ newline)
               else []) @
              newline @ printf_s (tr ''Please report any bugs to %s.'') [hb_bugs B] @ newline, None))"

definition display_version :: "(string \<Rightarrow> string) \<Rightarrow> string \<Rightarrow> string \<Rightarrow> string \<Rightarrow> string \<Rightarrow> string \<Rightarrow> string" where
  "display_version tr program version year holder homepage =
     printf_s (tr ''%s %s - Copyright %s %s'') [program, version, year, holder] @ newline @ newline @
     printf_s (tr ''Web site: %s'') [homepage] @ newline @ newline @
     tr (''This program is free software, and is being distributed under the'' @ newline @
       ''terms of the Artistic License 2.0.'') @ newline @ newline @
     tr (''This program is distributed in the hope that it will be useful,'' @ newline @
       ''but WITHOUT ANY WARRANTY; without even the implied warranty of'' @ newline @
       ''MERCHANTABILITY or FITNESS FOR A PARTICULAR PURPOSE.'') @ newline @ newline"

section \<open>The help lists the options of the parser\<close>

text \<open>The letters of an option string, with whether an argument follows.\<close>

fun option_letters :: "string \<Rightarrow> (char \<times> bool) list" where
  "option_letters [] = []"
| "option_letters [c] = [(c, False)]"
| "option_letters (c # d # s) =
     (if d = CHR '':'' then (c, True) # option_letters s else (c, False) # option_letters (d # s))"

definition help_entry :: "optdesc_s \<Rightarrow> string \<times> bool \<times> char" where
  "help_entry d = (drop 2 (case optlong d of None \<Rightarrow> [] | Some l \<Rightarrow> l), optparam d \<noteq> None, fchar (optshort d) 1)"

definition help_entries :: "(string \<Rightarrow> string) \<Rightarrow> (string \<times> bool \<times> char) list" where
  "help_entries tr = map help_entry (filter (\<lambda>d. optshort d \<noteq> []) (optlist True tr))"

lemma help_entries_same:
  "help_entries tr = help_entries (\<lambda>s. s)"
  by (simp add: help_entries_def optlist_def help_row_def help_entry_def)

text \<open>
  The help, the short options and the long options describe the same options, each once, with the
  same letters and names, and agree which of them take an argument; in every language.
\<close>

theorem help_matches_options:
  "set (help_entries tr) = set long_options \<and>
   set (map (\<lambda>(n, a, c). (c, a)) (help_entries tr)) = set (option_letters short_options) \<and>
   length (help_entries tr) = length long_options \<and> distinct (map (\<lambda>(n, a, c). c) long_options) \<and>
   length (option_letters short_options) = length long_options"
  unfolding help_entries_same [of tr] by code_simp

section \<open>Wrapping\<close>

lemma last_blank_blank: "last_blank s n \<noteq> 0 \<Longrightarrow> fchar s (last_blank s n) = CHR '' ''"
  by (induction n) auto

lemma no_blank: "last_blank s n < i \<Longrightarrow> i \<le> n \<Longrightarrow> fchar s i \<noteq> CHR '' ''"
  by (induction n) (auto simp: le_Suc_eq split: if_splits)

lemma line_end_bounds:
  assumes "0 < room" "room < length s"
  shows "0 < line_end room s" "line_end room s \<le> room + 1" "line_end room s \<le> length s"
  using assms last_blank_le [of s room] by (auto simp: line_end_def)

lemma line_end_word:
  assumes "0 < room" "room < length s"
  shows "last (take (line_end room s) s) = CHR '' '' \<or>
    line_end room s = room \<and> CHR '' '' \<notin> set (tl (take (line_end room s) s))"
proof (cases "last_blank s room = 0")
  case True
  have "tl (take room s) ! i \<noteq> CHR '' ''" if "i < length (tl (take room s))" for i
    using that no_blank [of s room "Suc i"] True assms(2) by (simp add: nth_tl fchar_def)
  then have "CHR '' '' \<notin> set (tl (take room s))" by (metis in_set_conv_nth)
  with True show ?thesis by (simp add: line_end_def)
next
  case False
  let ?k = "last_blank s room"
  have k: "?k < length s" using last_blank_le [of s room] assms(2) by simp
  then have "last (take (Suc ?k) s) = s ! ?k" by (simp add: take_Suc_conv_app_nth)
  with False k last_blank_blank [of s room] show ?thesis by (simp add: line_end_def fchar_def)
qed



text \<open>
  Without room, when the options of a translation take all 77 columns, a description loses every
  character.
\<close>

lemma wrap_without_room: "concat (wrap_text 0 s) = []"
proof (induction s)
  case (Cons c s)
  then show ?case by (simp add: wrap_text.simps [of 0 "c # s"] line_end_def)
qed (simp add: wrap_text.simps)

section \<open>The text of an option fits its buffer\<close>

lemma fold_widest:
  "m \<le> fold (\<lambda>d m. if m < f d then f d else m) ds m \<and>
   (\<forall>d \<in> set ds. f d \<le> fold (\<lambda>d m. if m < f d then f d else m) ds (m :: nat))"
proof (induction ds arbitrary: m)
  case (Cons d ds)
  from Cons [of "if m < f d then f d else m"] show ?case by (auto split: if_splits)
qed simp

lemma first_column_wide: "d \<in> set ds \<Longrightarrow> row_width long tr d < first_column long tr ds"
  using fold_widest [of 0 "row_width long tr" ds] by (simp add: first_column_def le_imp_less_Suc)

lemma option_text_length: "length (option_text long tr d) + 2 = row_width long tr d"
  by (simp add: option_text_def row_width_def split: option.split)

text \<open>\<open>optbuf\<close> has 16 bytes more than the column is wide, and the descriptions start in one column.\<close>

lemma option_text_fits:
  assumes "d \<in> set ds"
  shows "length (option_text long tr d) + 1 < first_column long tr ds + 16"
    "length (pad_right (first_column long tr ds - 2) (option_text long tr d)) = first_column long tr ds - 2"
  using first_column_wide [OF assms, of long tr] option_text_length [of long tr d] by (simp_all add: pad_right_def)

text \<open>In English, in the build with long options: 26 columns and 51 characters of room.\<close>

lemma english_columns: "first_column True (\<lambda>s. s) (optlist True (\<lambda>s. s)) = 26"
  by code_simp

lemma english_fineta:
  "print_row True (\<lambda>s. s) 26 (help_row ''-I'' (Some ''--fineta'') None
     (Some ''show absolute estimated time of arrival (completion)'')) =
   ''  -I, --fineta             show absolute estimated time of arrival '' @ newline @
   ''                           (completion)'' @ newline"
  by code_simp

end
